(* ===== verification/Prelude.thy ===== *)
theory Prelude
  imports Main "HOL-Library.AList"
begin

text \<open>
  Shared vocabulary of the development: the Go primitives the operator's sources use
  (byte strings and the functions of package \<open>strings\<close>, maps, slices), and the generic facts
  about them.

  \<^item> A Go string is a \<^typ>\<open>string\<close> (a list of bytes).
  \<^item> A Go map is an association list with distinct keys (\<open>wf_map\<close>). The position of a key in
    the list is the order in which one \<open>range\<close> loop visits it; Go leaves that order open, so
    every theorem quantifies over all lists, and the locale \<open>range_loop\<close> below shows that the
    loops of the program do not depend on it.
  \<^item> A Go error return is a sum, \<open>Inl\<close> for the error.
\<close>

named_theorems go_defs \<open>definitions of Go primitives, unfolded for evaluation\<close>
named_theorems map_simps \<open>lookup after update, delete and filter on Go maps\<close>

section \<open>Maps\<close>

type_synonym ('k, 'v) gomap = "('k \<times> 'v) list"

abbreviation mget :: "('k, 'v) gomap \<Rightarrow> 'k \<Rightarrow> 'v option" where
  "mget \<equiv> map_of"

abbreviation mput :: "'k \<Rightarrow> 'v \<Rightarrow> ('k, 'v) gomap \<Rightarrow> ('k, 'v) gomap" where
  "mput \<equiv> AList.update"

abbreviation mdel :: "'k \<Rightarrow> ('k, 'v) gomap \<Rightarrow> ('k, 'v) gomap" where
  "mdel \<equiv> AList.delete"

abbreviation mkeys :: "('k, 'v) gomap \<Rightarrow> 'k list" where
  "mkeys m \<equiv> map fst m"

definition wf_map :: "('k, 'v) gomap \<Rightarrow> bool" where
  "wf_map m \<longleftrightarrow> distinct (mkeys m)"

text \<open>Reading a missing key gives the zero value of the element type.\<close>

definition mget_default :: "'v \<Rightarrow> ('k, 'v) gomap \<Rightarrow> 'k \<Rightarrow> 'v" where
  "mget_default z m k = (case mget m k of Some v \<Rightarrow> v | None \<Rightarrow> z)"

abbreviation mget_list :: "('k, 'v list) gomap \<Rightarrow> 'k \<Rightarrow> 'v list" where
  "mget_list \<equiv> mget_default []"

abbreviation mget_str :: "('k, string) gomap \<Rightarrow> 'k \<Rightarrow> string" where
  "mget_str \<equiv> mget_default []"

abbreviation mget_bool :: "('k, bool) gomap \<Rightarrow> 'k \<Rightarrow> bool" where
  "mget_bool \<equiv> mget_default False"

lemma wf_map_Nil [simp]: "wf_map []"
  by (simp add: wf_map_def)

lemma wf_map_Cons [simp]: "wf_map ((k, v) # m) \<longleftrightarrow> k \<notin> set (mkeys m) \<and> wf_map m"
  by (simp add: wf_map_def)

lemma wf_map_put [simp]: "wf_map (mput k v m) \<longleftrightarrow> wf_map m"
proof -
  have "distinct (mkeys (mput k v m)) \<longleftrightarrow> distinct (mkeys m)"
    by (simp add: update_keys)
  then show ?thesis by (simp add: wf_map_def)
qed

lemma wf_map_del [simp]: "wf_map m \<Longrightarrow> wf_map (mdel k m)"
  by (simp add: wf_map_def distinct_delete)

lemma wf_map_filter [simp]: "wf_map m \<Longrightarrow> wf_map (filter P m)"
  by (auto simp: wf_map_def distinct_map intro: inj_on_subset)

lemma wf_map_map_snd [simp]: "wf_map (map (\<lambda>(k, v). (k, f k v)) m) \<longleftrightarrow> wf_map m"
  by (simp add: wf_map_def o_def case_prod_unfold)

lemma mget_put [simp, map_simps]: "mget (mput k v m) k' = (if k' = k then Some v else mget m k')"
  by (simp add: update_conv')

lemma mget_del [simp, map_simps]: "mget (mdel k m) k' = (if k' = k then None else mget m k')"
  by (simp add: delete_conv')

lemma mget_map_snd [map_simps]: "mget (map (\<lambda>(k, v). (k, f k v)) m) x = map_option (f x) (mget m x)"
  by (induction m) auto

lemma mget_filter [map_simps]:
  assumes "wf_map m"
  shows "mget (filter P m) k =
    (case mget m k of None \<Rightarrow> None | Some v \<Rightarrow> if P (k, v) then Some v else None)"
  using assms
proof (induction m)
  case Nil
  then show ?case by simp
next
  case (Cons kv m)
  obtain a b where kv: "kv = (a, b)" by force
  have "mget m a = None" using Cons.prems kv by (auto simp: map_of_eq_None_iff)
  then have "k = a \<Longrightarrow> mget (filter P m) k = None"
    using Cons kv by simp
  then show ?case using Cons kv by (auto split: option.splits)
qed

lemma mget_Some_in: "mget m k = Some v \<Longrightarrow> (k, v) \<in> set m"
  by (rule map_of_SomeD)

lemma mget_in_wf: "wf_map m \<Longrightarrow> (k, v) \<in> set m \<Longrightarrow> mget m k = Some v"
  by (simp add: wf_map_def)

lemma mget_None_iff: "mget m k = None \<longleftrightarrow> k \<notin> set (mkeys m)"
  by (simp add: map_of_eq_None_iff)

lemma mget_default_put [simp, map_simps]:
  "mget_default z (mput k v m) k' = (if k' = k then v else mget_default z m k')"
  by (simp add: mget_default_def)

lemma mget_default_del [simp, map_simps]:
  "mget_default z (mdel k m) k' = (if k' = k then z else mget_default z m k')"
  by (simp add: mget_default_def)

lemma mget_default_Nil [simp]: "mget_default z [] k = z"
  by (simp add: mget_default_def)

lemma mget_default_Cons [simp]:
  "mget_default z ((k, v) # m) k' = (if k' = k then v else mget_default z m k')"
  by (simp add: mget_default_def)

subsection \<open>Range loops\<close>

text \<open>
  A \<open>range\<close> loop over a map runs its body once per key. The body of every such loop of the
  manager touches, of each map it updates, only the key it was called with: \<open>obs s k\<close> is what
  the state holds under \<open>k\<close>. The loop then gives, under each key, what one run of the body
  gives, and the order of the keys cannot be observed.
\<close>

locale range_loop =
  fixes body :: "'k \<times> 'v \<Rightarrow> 's \<Rightarrow> 's"
    and obs :: "'s \<Rightarrow> 'k \<Rightarrow> 'o"
  assumes body_other: "k' \<noteq> k \<Longrightarrow> obs (body (k, v) s) k' = obs s k'"
    and body_local: "obs s k = obs s' k \<Longrightarrow> obs (body (k, v) s) k = obs (body (k, v) s') k"
begin

lemma loop_other: "k \<notin> set (mkeys m) \<Longrightarrow> obs (fold body m s) k = obs s k"
proof (induction m arbitrary: s)
  case Nil
  then show ?case by simp
next
  case (Cons kv m)
  then show ?case by (cases kv) (simp add: body_other)
qed

lemma loop_at:
  assumes "wf_map m" and "mget m k = Some v"
  shows "obs (fold body m s) k = obs (body (k, v) s) k"
  using assms
proof (induction m arbitrary: s)
  case Nil
  then show ?case by simp
next
  case (Cons kv m)
  obtain a b where kv: "kv = (a, b)" by force
  show ?case
  proof (cases "a = k")
    case True
    with Cons.prems kv show ?thesis by (simp add: loop_other)
  next
    case False
    with Cons.prems kv have "obs (fold body m (body (a, b) s)) k = obs (body (k, v) (body (a, b) s)) k"
      by (intro Cons.IH) auto
    also have "\<dots> = obs (body (k, v) s) k"
      using False by (intro body_local) (simp add: body_other)
    finally show ?thesis using kv by simp
  qed
qed

lemma loop_obs:
  assumes "wf_map m"
  shows "obs (fold body m s) k =
    (case mget m k of None \<Rightarrow> obs s k | Some v \<Rightarrow> obs (body (k, v) s) k)"
  using assms loop_at loop_other by (auto simp: mget_None_iff split: option.splits)

lemma loop_order:
  assumes "wf_map m" and "wf_map m'" and "set m = set m'"
  shows "obs (fold body m s) k = obs (fold body m' s) k"
proof -
  have "mget m = mget m'"
    using assms map_of_inject_set unfolding wf_map_def by blast
  with assms show ?thesis by (simp add: loop_obs)
qed

end

section \<open>Strings\<close>

definition hasPrefix :: "string \<Rightarrow> string \<Rightarrow> bool" where
  "hasPrefix s p \<longleftrightarrow> take (length p) s = p"

definition hasSuffix :: "string \<Rightarrow> string \<Rightarrow> bool" where
  "hasSuffix s p \<longleftrightarrow> length p \<le> length s \<and> drop (length s - length p) s = p"

text \<open>\<open>strings.Index\<close> and \<open>strings.LastIndex\<close>, \<^const>\<open>None\<close> for -1.\<close>

fun str_index :: "string \<Rightarrow> string \<Rightarrow> nat option" where
  "str_index [] sub = (if sub = [] then Some 0 else None)"
| "str_index (c # cs) sub =
     (if hasPrefix (c # cs) sub then Some 0 else map_option Suc (str_index cs sub))"

fun last_index :: "string \<Rightarrow> string \<Rightarrow> nat option" where
  "last_index [] sub = (if sub = [] then Some 0 else None)"
| "last_index (c # cs) sub =
     (case last_index cs sub of
        Some i \<Rightarrow> Some (Suc i)
      | None \<Rightarrow> if hasPrefix (c # cs) sub then Some 0 else None)"

definition contains :: "string \<Rightarrow> string \<Rightarrow> bool" where
  "contains s sub \<longleftrightarrow> str_index s sub \<noteq> None"

definition trimPrefix :: "string \<Rightarrow> string \<Rightarrow> string" where
  "trimPrefix s p = (if hasPrefix s p then drop (length p) s else s)"

definition trimSuffix :: "string \<Rightarrow> string \<Rightarrow> string" where
  "trimSuffix s p = (if hasSuffix s p then take (length s - length p) s else s)"

text \<open>\<open>strings.Cut\<close>, without its third result.\<close>

definition str_cut :: "string \<Rightarrow> string \<Rightarrow> string \<times> string" where
  "str_cut s sep =
     (case str_index s sep of
        Some i \<Rightarrow> (take i s, drop (i + length sep) s)
      | None \<Rightarrow> (s, []))"

text \<open>\<open>strings.SplitN(s, sep, 2)\<close> and \<open>strings.Split\<close> for a separator of one byte.\<close>

definition splitN2 :: "string \<Rightarrow> string \<Rightarrow> string list" where
  "splitN2 s sep =
     (case str_index s sep of
        Some i \<Rightarrow> [take i s, drop (i + length sep) s]
      | None \<Rightarrow> [s])"

fun split_char :: "char \<Rightarrow> string \<Rightarrow> string list" where
  "split_char sep [] = [[]]"
| "split_char sep (c # cs) =
     (if c = sep then [] # split_char sep cs
      else case split_char sep cs of [] \<Rightarrow> [[c]] | w # ws \<Rightarrow> (c # w) # ws)"

fun str_join :: "string \<Rightarrow> string list \<Rightarrow> string" where
  "str_join sep [] = []"
| "str_join sep [s] = s"
| "str_join sep (s # t # ss) = s @ sep @ str_join sep (t # ss)"

definition containsString :: "string list \<Rightarrow> string \<Rightarrow> bool" where
  "containsString slice s \<longleftrightarrow> s \<in> set slice"

subsection \<open>Facts about strings\<close>

lemma hasPrefix_append [simp]: "hasPrefix (p @ s) p"
  by (simp add: hasPrefix_def)

lemma hasPrefix_iff: "hasPrefix s p \<longleftrightarrow> (\<exists>t. s = p @ t)"
  by (metis append_take_drop_id hasPrefix_append hasPrefix_def)

lemma hasPrefix_single [simp]: "hasPrefix (a # s) [c] \<longleftrightarrow> a = c"
  by (simp add: hasPrefix_def)

lemma hasPrefix_Cons_Cons [simp]: "hasPrefix (a # s) (c # p) \<longleftrightarrow> a = c \<and> hasPrefix s p"
  by (simp add: hasPrefix_def)

lemma hasPrefix_Nil_left [simp]: "hasPrefix [] p \<longleftrightarrow> p = []"
  by (auto simp: hasPrefix_def)

lemma hasPrefix_Nil [simp]: "hasPrefix s []"
  by (simp add: hasPrefix_def)

lemma filter_neq_notin [simp]: "n \<notin> set xs \<Longrightarrow> filter (\<lambda>x. x \<noteq> n) xs = xs"
  by (induction xs) auto

lemma length_filter_ge: "k \<le> length (filter P xs) \<Longrightarrow> k \<le> length xs"
  by (rule order_trans [OF _ length_filter_le])

lemma drop_prefix: "n = length a \<Longrightarrow> drop n (a @ b) = b"
  by simp

lemma trimPrefix_append [simp]: "trimPrefix (p @ s) p = s"
  by (simp add: trimPrefix_def)

lemma str_index_first:
  "c \<notin> set a \<Longrightarrow> str_index (a @ (c # sub) @ b) (c # sub) = Some (length a)"
  by (induction a) auto

lemma str_index_absent: "c \<notin> set s \<Longrightarrow> str_index s (c # sub) = None"
  by (induction s) auto

lemma last_index_absent: "c \<notin> set s \<Longrightarrow> last_index s (c # sub) = None"
  by (induction s) auto

lemma last_index_last:
  assumes "c \<notin> set sub" and "c \<notin> set b"
  shows "last_index (a @ (c # sub) @ b) (c # sub) = Some (length a)"
proof -
  have "last_index (sub @ b) (c # sub) = None"
    using assms by (intro last_index_absent) auto
  then show ?thesis by (induction a) auto
qed

lemma str_index_char: "c \<notin> set a \<Longrightarrow> str_index (a @ c # b) [c] = Some (length a)"
  using str_index_first [of c a "[]" b] by simp

lemma last_index_char: "c \<notin> set b \<Longrightarrow> last_index (a @ c # b) [c] = Some (length a)"
  using last_index_last [of c "[]" b a] by simp

lemma contains_char [simp]: "contains s [c] \<longleftrightarrow> c \<in> set s"
  by (induction s) (auto simp: contains_def)

lemma str_index_Some:
  "str_index s sub = Some i \<Longrightarrow> \<exists>b. s = take i s @ sub @ b"
proof (induction s arbitrary: i)
  case Nil
  then show ?case by (auto split: if_splits)
next
  case (Cons c s)
  show ?case
  proof (cases "hasPrefix (c # s) sub")
    case True
    with Cons.prems show ?thesis by (auto simp: hasPrefix_iff)
  next
    case False
    with Cons.prems obtain j where "str_index s sub = Some j" "i = Suc j" by auto
    with Cons.IH [of j] show ?thesis by auto
  qed
qed

lemma str_cut_char [simp]: "c \<notin> set a \<Longrightarrow> str_cut (a @ c # b) [c] = (a, b)"
  by (simp add: str_cut_def str_index_char)

lemma split_char_nonempty [simp]: "split_char sep s \<noteq> []"
  by (induction s) (auto split: list.splits)

lemma split_char_notin: "sep \<notin> set w \<Longrightarrow> split_char sep w = [w]"
  by (induction w) auto

lemma split_char_append:
  "sep \<notin> set w \<Longrightarrow> split_char sep (w @ sep # s) = w # split_char sep s"
  by (induction w) auto

lemma split_join:
  "ws \<noteq> [] \<Longrightarrow> (\<And>w. w \<in> set ws \<Longrightarrow> sep \<notin> set w) \<Longrightarrow> split_char sep (str_join [sep] ws) = ws"
proof (induction "[sep]" ws rule: str_join.induct)
  case (3 s t ss)
  then show ?case by (simp add: split_char_append)
qed (auto simp: split_char_notin)

lemma str_join_Nil_iff: "[] \<notin> set ws \<Longrightarrow> str_join sep ws = [] \<longleftrightarrow> ws = []"
  by (cases "(sep, ws)" rule: str_join.cases) auto

lemma containsString_iff [simp]: "containsString xs x \<longleftrightarrow> x \<in> set xs"
  by (simp add: containsString_def)

section \<open>Codecs\<close>

text \<open>
  Several components write a value as text and read it back: cache tokens in annotations, chart
  references, image-state ConfigMaps. \<open>valid\<close> is the set of values the writer is used on.
\<close>

locale codec =
  fixes enc :: "'a \<Rightarrow> 'b"
    and dec :: "'b \<Rightarrow> 'c option"
    and view :: "'a \<Rightarrow> 'c"
    and valid :: "'a \<Rightarrow> bool"
  assumes dec_enc: "valid x \<Longrightarrow> dec (enc x) = Some (view x)"
begin

lemma enc_view_inject: "valid x \<Longrightarrow> valid y \<Longrightarrow> enc x = enc y \<Longrightarrow> view x = view y"
  by (metis dec_enc option.inject)

lemma dec_defined: "valid x \<Longrightarrow> dec (enc x) \<noteq> None"
  by (simp add: dec_enc)

end

end
