(* ===== verification/HelmSource.thy ===== *)
theory HelmSource
  imports Prelude
begin

text \<open>
  The \<open>helm://\<close> source references of mirrored Helm charts (\<open>pkg/mirror/helm_source.go\<close>), with
  the query escaping of Go's \<open>net/url\<close> they rely on, and the destination of a chart artifact
  (\<open>pkg/mirror/chartmirror/pusher.go\<close>).

  \<open>url.Parse\<close> is a parameter of \<open>redactURL\<close>: for a URL it parses, whether it carries userinfo,
  and the URL printed with the userinfo removed.
\<close>

section \<open>Query escaping\<close>

definition unreserved :: "char \<Rightarrow> bool" where
  "unreserved c \<longleftrightarrow>
     (let n = of_char c :: nat
      in (97 \<le> n \<and> n \<le> 122) \<or> (65 \<le> n \<and> n \<le> 90) \<or> (48 \<le> n \<and> n \<le> 57)
         \<or> c = CHR ''-'' \<or> c = CHR ''_'' \<or> c = CHR ''.'' \<or> c = CHR ''~'')"

definition upperhex :: "nat \<Rightarrow> char" where
  "upperhex k = ''0123456789ABCDEF'' ! k"

definition unhex :: "char \<Rightarrow> nat option" where
  "unhex c =
     (let n = of_char c :: nat
      in if 48 \<le> n \<and> n \<le> 57 then Some (n - 48)
         else if 97 \<le> n \<and> n \<le> 102 then Some (n - 97 + 10)
         else if 65 \<le> n \<and> n \<le> 70 then Some (n - 65 + 10)
         else None)"

definition escape_char :: "char \<Rightarrow> string" where
  "escape_char c =
     (if c = CHR '' '' then ''+''
      else if unreserved c then [c]
      else CHR ''%'' # upperhex (of_char c div 16) # [upperhex (of_char c mod 16)])"

definition QueryEscape :: "string \<Rightarrow> string" where
  "QueryEscape s = concat (map escape_char s)"

fun QueryUnescape :: "string \<Rightarrow> string option" where
  "QueryUnescape [] = Some []"
| "QueryUnescape (c # cs) =
     (if c = CHR ''%'' then
        (case cs of
           a # b # rest \<Rightarrow>
             (case (unhex a, unhex b) of
                (Some x, Some y) \<Rightarrow> map_option ((#) (char_of (16 * x + y))) (QueryUnescape rest)
              | _ \<Rightarrow> None)
         | _ \<Rightarrow> None)
      else map_option ((#) (if c = CHR ''+'' then CHR '' '' else c)) (QueryUnescape cs))"

section \<open>Chart references\<close>

abbreviation helmChartSourceScheme :: string where
  "helmChartSourceScheme \<equiv> ''helm://''"

definition redactURL :: "(string \<Rightarrow> (bool \<times> string) option) \<Rightarrow> string \<Rightarrow> string" where
  "redactURL parseURL rawURL =
     (case parseURL rawURL of
        None \<Rightarrow> rawURL
      | Some (hasUser, redacted) \<Rightarrow> if \<not> hasUser then rawURL else redacted)"

definition HelmChartSource ::
  "(string \<Rightarrow> (bool \<times> string) option) \<Rightarrow> string \<Rightarrow> string \<Rightarrow> string \<Rightarrow> string" where
  "HelmChartSource parseURL repoURL chartName version =
     helmChartSourceScheme @ trimSuffix (redactURL parseURL repoURL) ''/'' @ ''/''
     @ QueryEscape chartName @ ''?version='' @ QueryEscape version"

definition parseChartPath :: "string \<Rightarrow> string \<Rightarrow> (string \<times> string \<times> string) option" where
  "parseChartPath rest version =
     (case last_index rest ''/'' of
        None \<Rightarrow> None
      | Some i \<Rightarrow>
          if i = 0 \<or> Suc i = length rest then None
          else
            (case QueryUnescape (drop (i + 1) rest) of
               None \<Rightarrow> None
             | Some chartName \<Rightarrow>
                 if chartName = [] \<or> take i rest = [] \<or> version = [] then None
                 else Some (take i rest, chartName, version)))"

definition ParseHelmChartSource :: "string \<Rightarrow> (string \<times> string \<times> string) option" where
  "ParseHelmChartSource source =
     (if \<not> hasPrefix source helmChartSourceScheme then None
      else
        (let rest = trimPrefix source helmChartSourceScheme
         in case str_index rest ''?version='' of
              Some i \<Rightarrow>
                (case QueryUnescape (drop (i + length ''?version='') rest) of
                   None \<Rightarrow> None
                 | Some version \<Rightarrow> if version = [] then None else parseChartPath (take i rest) version)
            | None \<Rightarrow> parseChartPath rest []))"

definition IsChartSource :: "string \<Rightarrow> bool" where
  "IsChartSource src \<longleftrightarrow> hasPrefix src helmChartSourceScheme"

definition HelmChartSignature :: "string \<Rightarrow> string \<Rightarrow> string \<Rightarrow> string \<Rightarrow> string" where
  "HelmChartSignature repoName chartName version archiveDigest =
     ''chart:'' @ repoName @ ''/'' @ chartName @ '':'' @ version @ ''@'' @ archiveDigest"

section \<open>Facts about the escaping\<close>

lemma less_16_cases:
  "(k::nat) < 16 \<Longrightarrow> k \<in> {0, 1, 2, 3, 4, 5, 6, 7, 8, 9, 10, 11, 12, 13, 14, 15}"
  by simp presburger

lemma unhex_upperhex: "k < 16 \<Longrightarrow> unhex (upperhex k) = Some k"
  by (drule less_16_cases) (auto simp: unhex_def upperhex_def)

lemma upperhex_unreserved: "k < 16 \<Longrightarrow> unreserved (upperhex k)"
  by (drule less_16_cases) (auto simp: unreserved_def upperhex_def)

lemma QueryUnescape_char:
  "QueryUnescape (escape_char c @ s) = map_option ((#) c) (QueryUnescape s)"
proof -
  have "of_char c < (256::nat)" by simp
  then have "(of_char c :: nat) div 16 < 16" by linarith
  then show ?thesis
    by (auto simp: escape_char_def unhex_upperhex unreserved_def)
qed

lemma QueryUnescape_QueryEscape: "QueryUnescape (QueryEscape s) = Some s"
  by (induction s) (simp_all add: QueryEscape_def QueryUnescape_char)

interpretation query: codec QueryEscape QueryUnescape "\<lambda>s. s" "\<lambda>_. True"
  by unfold_locales (rule QueryUnescape_QueryEscape)

lemma escape_char_chars: "x \<in> set (escape_char c) \<Longrightarrow> unreserved x \<or> x = CHR ''+'' \<or> x = CHR ''%''"
proof -
  assume x: "x \<in> set (escape_char c)"
  have "of_char c < (256::nat)" by simp
  then have "(of_char c :: nat) div 16 < 16" by linarith
  with x show ?thesis by (auto simp: escape_char_def upperhex_unreserved split: if_splits)
qed

lemma QueryEscape_chars:
  "x \<in> set (QueryEscape s) \<Longrightarrow> unreserved x \<or> x = CHR ''+'' \<or> x = CHR ''%''"
  by (auto simp: QueryEscape_def dest: escape_char_chars)

lemma QueryEscape_no_delim [simp]:
  "CHR ''/'' \<notin> set (QueryEscape s)" "CHR ''?'' \<notin> set (QueryEscape s)"
  by (auto dest!: QueryEscape_chars simp: unreserved_def)

lemma QueryEscape_Nil_iff: "QueryEscape s = [] \<longleftrightarrow> s = []"
  using query.enc_view_inject [of s "[]"] by (auto simp: QueryEscape_def)

section \<open>Properties\<close>

lemma parseChartPath_print:
  assumes "repo \<noteq> []" and "chart \<noteq> []" and "version \<noteq> []"
  shows "parseChartPath (repo @ CHR ''/'' # QueryEscape chart) version = Some (repo, chart, version)"
proof -
  have "last_index (repo @ CHR ''/'' # QueryEscape chart) ''/'' = Some (length repo)"
    by (simp add: last_index_char)
  with assms show ?thesis
    by (simp add: parseChartPath_def QueryEscape_Nil_iff QueryUnescape_QueryEscape)
qed

text \<open>
  A chart reference parses back to the (credential-free) repository URL, the chart
  name and the version it was built from, whatever characters the name and the version contain.
\<close>

theorem ParseHelmChartSource_HelmChartSource:
  assumes "trimSuffix (redactURL parseURL repoURL) ''/'' = repo" and "repo \<noteq> []"
    and "CHR ''?'' \<notin> set repo" and "chartName \<noteq> []" and "version \<noteq> []"
  shows "ParseHelmChartSource (HelmChartSource parseURL repoURL chartName version) =
    Some (repo, chartName, version)"
proof -
  let ?p = "repo @ CHR ''/'' # QueryEscape chartName"
  let ?rest = "?p @ ''?version='' @ QueryEscape version"
  have src: "HelmChartSource parseURL repoURL chartName version = helmChartSourceScheme @ ?rest"
    using assms(1) by (simp add: HelmChartSource_def)
  have "CHR ''?'' \<notin> set ?p" using assms(3) by auto
  then have idx: "str_index ?rest ''?version='' = Some (length ?p)" by (rule str_index_first)
  have drop: "drop (length ?p + length ''?version='') ?rest = QueryEscape version"
    using drop_prefix [of _ "?p @ ''?version=''" "QueryEscape version"] by simp
  have take: "take (length ?p) ?rest = ?p" by simp
  show ?thesis
    unfolding ParseHelmChartSource_def src Let_def trimPrefix_append idx option.case drop take
      QueryUnescape_QueryEscape
    using assms by (simp add: parseChartPath_print)
qed

theorem ParseHelmChartSource_witness:
  "ParseHelmChartSource (HelmChartSource (\<lambda>_. Some (True, ''https://charts.example.com/''))
     ''https://user:pw@charts.example.com/'' ''my chart?'' ''1.0.0+b1'')
   = Some (''https://charts.example.com'', ''my chart?'', ''1.0.0+b1'')"
  by (rule ParseHelmChartSource_HelmChartSource)
    (simp_all add: redactURL_def trimSuffix_def hasSuffix_def)

lemma IsChartSource_HelmChartSource [simp]:
  "IsChartSource (HelmChartSource parseURL repoURL chartName version)"
  by (simp add: IsChartSource_def HelmChartSource_def)

end
