(* ===== verification/Planner.thy ===== *)
theory Planner
  imports HelmSource "HOL-Library.Multiset"
begin

text \<open>
  The order in which a worker mirrors its batch (\<open>pkg/mirror/planner.go\<close>): images sharing many blobs
  are scheduled so that the blobs pushed by an earlier image are reused by the later ones.

  The registry client and its manifests are third-party code: \<open>newRef\<close> (parsing a reference) and
  \<open>manifestGet\<close> are parameters, a manifest is what its four accessors return. A set of blobs is a list
  without repetitions. An index into \<open>infos\<close> or \<open>dests\<close> that is out of range is a panic, \<^const>\<open>None\<close>.
\<close>

section \<open>Blobs of an image\<close>

record 'r rc_ref =
  rf_Base :: 'r
  rf_Tag :: string
  rf_Digest :: string

record 'e manifest =
  IsList :: bool
  GetManifestList :: "'e + string list"
  GetConfig :: "'e + string"
  GetLayers :: "'e + string list"

abbreviation add_blob :: "string \<Rightarrow> string list \<Rightarrow> string list" where
  "add_blob dig blobs \<equiv> (if dig \<noteq> [] then List.insert dig blobs else blobs)"

definition collectBlobs :: "'e manifest \<Rightarrow> string list \<Rightarrow> string list" where
  "collectBlobs m blobs =
     (let blobs1 = (case GetConfig m of Inr cd \<Rightarrow> add_blob cd blobs | Inl _ \<Rightarrow> blobs)
      in case GetLayers m of Inr layers \<Rightarrow> fold add_blob layers blobs1 | Inl _ \<Rightarrow> blobs1)"

definition extractBlobDigests ::
  "(string \<Rightarrow> 'e + 'r rc_ref) \<Rightarrow> ('r rc_ref \<Rightarrow> 'e + 'e manifest) \<Rightarrow> string \<Rightarrow> 'e + string list" where
  "extractBlobDigests newRef manifestGet src =
     (case newRef src of
        Inl e \<Rightarrow> Inl e
      | Inr srcRef \<Rightarrow>
          (case manifestGet srcRef of
             Inl e \<Rightarrow> Inl e
           | Inr m \<Rightarrow>
               if IsList m then
                 (case GetManifestList m of
                    Inl e \<Rightarrow> Inl e
                  | Inr descs \<Rightarrow>
                      Inr (fold (\<lambda>d blobs.
                        (let blobs1 = add_blob d blobs
                         in case manifestGet (srcRef\<lparr>rf_Tag := [], rf_Digest := d\<rparr>) of
                              Inl _ \<Rightarrow> blobs1
                            | Inr platM \<Rightarrow> collectBlobs platM blobs1)) descs []))
               else Inr (collectBlobs m [])))"

section \<open>Greedy ordering\<close>

text \<open>Phase 1: the blobs of every source; a chart and a source that cannot be inspected have none.\<close>

definition source_blobs ::
  "(string \<Rightarrow> 'e + 'r rc_ref) \<Rightarrow> ('r rc_ref \<Rightarrow> 'e + 'e manifest) \<Rightarrow> string \<Rightarrow> string list" where
  "source_blobs newRef manifestGet src =
     (if IsChartSource src then []
      else case extractBlobDigests newRef manifestGet src of Inr blobs \<Rightarrow> blobs | Inl _ \<Rightarrow> [])"

text \<open>Phase 2: how many images reference each blob.\<close>

definition count_blob :: "string \<Rightarrow> (string, nat) gomap \<Rightarrow> (string, nat) gomap" where
  "count_blob b freq = mput b (mget_default 0 freq b + 1) freq"

definition blobFreq :: "string list list \<Rightarrow> (string, nat) gomap" where
  "blobFreq infos = fold (\<lambda>blobs freq. fold count_blob blobs freq) infos []"

text \<open>Phase 3: score and tie breaker of one image, then the best image of those remaining.\<close>

definition blob_score :: "(string, nat) gomap \<Rightarrow> string list \<Rightarrow> string list \<Rightarrow> int \<times> int" where
  "blob_score freq uploaded blobs =
     (if length uploaded = 0 then (int (sum_list (map (mget_default 0 freq) blobs)), 0)
      else (int (length (filter (\<lambda>b. b \<in> set uploaded) blobs)),
            int (sum_list (map (mget_default 0 freq) (filter (\<lambda>b. b \<notin> set uploaded) blobs)))))"

definition keep_best :: "(nat \<Rightarrow> int \<times> int) \<Rightarrow> nat \<Rightarrow> int \<times> int \<times> int \<Rightarrow> int \<times> int \<times> int" where
  "keep_best rank idx best = (case (rank idx, best) of ((score, tieBreaker), (bestIdx, bestScore, bestTieBreaker)) \<Rightarrow>
     if score > bestScore
        \<or> score = bestScore \<and> tieBreaker > bestTieBreaker
        \<or> score = bestScore \<and> tieBreaker = bestTieBreaker \<and> (bestIdx = -1 \<or> int idx < bestIdx)
     then (int idx, score, tieBreaker) else best)"

definition best_index :: "(nat \<Rightarrow> int \<times> int) \<Rightarrow> nat \<Rightarrow> nat list \<Rightarrow> int" where
  "best_index rank n remaining =
     fst (fold (keep_best rank) (filter (\<lambda>idx. idx \<in> set remaining) [0..<n]) (-1, -1, -1))"

lemma keep_best_index:
  "fst (fold (keep_best rank) idxs best) = fst best \<or> fst (fold (keep_best rank) idxs best) \<in> int ` set idxs"
proof (induction idxs arbitrary: best)
  case Nil
  then show ?case by simp
next
  case (Cons i idxs)
  have "fst (keep_best rank i best) = fst best \<or> fst (keep_best rank i best) = int i"
    by (simp add: keep_best_def split: prod.splits)
  with Cons.IH [of "keep_best rank i best"] show ?case by auto
qed

lemma best_index_remaining:
  assumes "0 \<le> best_index rank n remaining"
  shows "nat (best_index rank n remaining) \<in> set remaining"
proof -
  have "best_index rank n remaining = -1 \<or> best_index rank n remaining \<in> int ` (set remaining \<inter> {0..<n})"
    using keep_best_index [of rank "filter (\<lambda>idx. idx \<in> set remaining) [0..<n]" "(-1, -1, -1)"]
    by (auto simp: best_index_def)
  with assms show ?thesis by auto
qed

function plan_loop ::
  "string list list \<Rightarrow> (string, nat) gomap \<Rightarrow> string list \<Rightarrow> nat list \<Rightarrow> nat list option" where
  "plan_loop infos freq uploaded remaining =
     (if length remaining = 0 then Some []
      else (let best = best_index (\<lambda>idx. blob_score freq uploaded (infos ! idx)) (length infos) remaining
            in if best < 0 \<or> length infos \<le> nat best then None
               else map_option ((#) (nat best))
                      (plan_loop infos freq (fold List.insert (infos ! nat best) uploaded) (removeAll (nat best) remaining))))"
  by pat_completeness auto
termination
  by (relation "measure (\<lambda>(infos, freq, uploaded, remaining). length remaining)")
    (use best_index_remaining in \<open>auto simp: not_less length_removeAll_less\<close>)

declare plan_loop.simps [simp del]

definition PlanMirrorOrder ::
  "(string \<Rightarrow> 'e + 'r rc_ref) \<Rightarrow> ('r rc_ref \<Rightarrow> 'e + 'e manifest) \<Rightarrow> string list \<Rightarrow> string list
    \<Rightarrow> (string list \<times> string list) option" where
  "PlanMirrorOrder newRef manifestGet srcs dests =
     (let n = length srcs
      in if n \<le> 1 then Some (srcs, dests)
         else (let infos = map (source_blobs newRef manifestGet) srcs
               in case plan_loop infos (blobFreq infos) [] [0..<n] of
                    None \<Rightarrow> None
                  | Some order \<Rightarrow>
                      if \<forall>i \<in> set order. i < length dests
                      then Some (map (\<lambda>i. srcs ! i) order, map (\<lambda>i. dests ! i) order)
                      else None))"

section \<open>Facts about the best index\<close>

text \<open>Lexicographic rank of an image: score, then tie breaker, then the smaller index.\<close>

definition beats :: "(nat \<Rightarrow> int \<times> int) \<Rightarrow> nat \<Rightarrow> nat \<Rightarrow> bool" where
  "beats rank i j \<longleftrightarrow> fst (rank i) > fst (rank j)
     \<or> fst (rank i) = fst (rank j) \<and> (snd (rank i) > snd (rank j) \<or> snd (rank i) = snd (rank j) \<and> i \<le> j)"

lemma keep_best_fold:
  assumes "i0 \<in> I" and "\<And>i. i \<in> I \<Longrightarrow> beats rank i0 i"
  shows "\<exists>i \<in> I \<union> set idxs. fold (keep_best rank) idxs (int i0, rank i0) = (int i, rank i) \<and>
    (\<forall>j \<in> I \<union> set idxs. beats rank i j)"
  using assms
proof (induction idxs arbitrary: i0 I)
  case Nil
  then show ?case by auto
next
  case (Cons k idxs)
  have step: "keep_best rank k (int i0, rank i0) = (if beats rank k i0 \<and> k \<noteq> i0 then (int k, rank k) else (int i0, rank i0))"
    by (cases "rank k"; cases "rank i0") (auto simp: keep_best_def beats_def)
  show ?case
  proof (cases "beats rank k i0 \<and> k \<noteq> i0")
    case True
    then have "beats rank k i" if "i \<in> insert k I" for i
      using that Cons.prems(2) [of i] by (auto simp: beats_def)
    with Cons.IH [of k "insert k I"] show ?thesis using step True by (simp add: Un_commute insert_commute)
  next
    case False
    then have "beats rank i0 i" if "i \<in> insert k I" for i
      using that Cons.prems(2) [of i] by (auto simp: beats_def)
    with Cons.IH [of i0 "insert k I"] show ?thesis using step False Cons.prems(1) by auto
  qed
qed

lemma best_index_best:
  assumes "\<And>i. 0 \<le> fst (rank i)" and "set remaining \<subseteq> {0..<n}" and "remaining \<noteq> []"
  obtains i where "best_index rank n remaining = int i" "i \<in> set remaining" "\<And>j. j \<in> set remaining \<Longrightarrow> beats rank i j"
proof -
  let ?idxs = "filter (\<lambda>idx. idx \<in> set remaining) [0..<n]"
  have set: "set ?idxs = set remaining" using assms(2) by auto
  then have "?idxs \<noteq> []" using assms(3) by (metis set_empty)
  then obtain k ks where k: "?idxs = k # ks" by (meson neq_Nil_conv)
  have "keep_best rank k (-1, -1, -1) = (int k, rank k)"
    using assms(1) [of k] by (cases "rank k") (simp add: keep_best_def)
  then have "fold (keep_best rank) ?idxs (-1, -1, -1) = fold (keep_best rank) ks (int k, rank k)"
    using k by simp
  moreover have ks: "{k} \<union> set ks = set remaining" using set k by (metis insert_is_Un list.simps(15))
  moreover have "\<exists>i \<in> {k} \<union> set ks. fold (keep_best rank) ks (int k, rank k) = (int i, rank i) \<and>
      (\<forall>j \<in> {k} \<union> set ks. beats rank i j)"
    by (rule keep_best_fold) (auto simp: beats_def)
  then obtain i where "i \<in> set remaining" "fold (keep_best rank) ks (int k, rank k) = (int i, rank i)"
    "\<forall>j \<in> set remaining. beats rank i j" unfolding ks by blast
  ultimately show thesis using that [of i] by (simp add: best_index_def)
qed

section \<open>Facts about the loop\<close>

text \<open>
  A schedule is greedy when every image of it beats all the images scheduled after it, with the
  scores taken over the blobs uploaded up to then.
\<close>

fun greedy :: "string list list \<Rightarrow> (string, nat) gomap \<Rightarrow> string list \<Rightarrow> nat list \<Rightarrow> bool" where
  "greedy infos freq uploaded [] = True"
| "greedy infos freq uploaded (i # is) =
     ((\<forall>j \<in> set is. beats (\<lambda>idx. blob_score freq uploaded (infos ! idx)) i j) \<and>
      greedy infos freq (fold List.insert (infos ! i) uploaded) is)"

lemma blob_score_nonneg: "0 \<le> fst (blob_score freq uploaded blobs)"
  by (simp add: blob_score_def)

lemma plan_loop_greedy:
  assumes "set remaining \<subseteq> {0..<length infos}" and "distinct remaining"
  shows "\<exists>order. plan_loop infos freq uploaded remaining = Some order \<and> mset order = mset remaining \<and>
    greedy infos freq uploaded order"
  using assms
proof (induction infos freq uploaded remaining rule: plan_loop.induct)
  case (1 infos freq uploaded remaining)
  let ?rank = "\<lambda>idx. blob_score freq uploaded (infos ! idx)"
  show ?case
  proof (cases "remaining = []")
    case True
    then show ?thesis by (simp add: plan_loop.simps)
  next
    case False
    obtain i where best: "best_index ?rank (length infos) remaining = int i" and i: "i \<in> set remaining"
      and beats: "\<And>j. j \<in> set remaining \<Longrightarrow> beats ?rank i j"
      using best_index_best [of ?rank remaining "length infos"] blob_score_nonneg "1.prems"(1) False by blast
    let ?up = "fold List.insert (infos ! i) uploaded"
    have "i < length infos" using i "1.prems"(1) by auto
    have "\<exists>order. plan_loop infos freq ?up (removeAll i remaining) = Some order \<and>
        mset order = mset (removeAll i remaining) \<and> greedy infos freq ?up order"
      using "1.IH" [OF _ refl] "1.prems" best \<open>i < length infos\<close> False by (auto simp: distinct_removeAll)
    then obtain order where rest: "plan_loop infos freq ?up (removeAll i remaining) = Some order"
      "mset order = mset (removeAll i remaining)" "greedy infos freq ?up order" by blast
    have "set order = set remaining - {i}" using mset_eq_setD [OF rest(2)] by simp
    moreover have "mset (i # order) = mset remaining"
      using rest(2) i "1.prems"(2) by (simp add: distinct_remove1_removeAll [symmetric])
    moreover have "plan_loop infos freq uploaded remaining = Some (i # order)"
      using rest(1) best \<open>i < length infos\<close> False by (subst plan_loop.simps) (simp add: Let_def)
    ultimately show ?thesis using rest(3) beats by auto
  qed
qed

lemma PlanMirrorOrder_order:
  fixes newRef :: "string \<Rightarrow> 'e + 'r rc_ref" and manifestGet :: "'r rc_ref \<Rightarrow> 'e + 'e manifest"
  assumes "1 < length srcs" and "length dests = length srcs"
  defines "infos \<equiv> map (source_blobs newRef manifestGet) srcs"
  obtains order where
    "PlanMirrorOrder newRef manifestGet srcs dests = Some (map (\<lambda>i. srcs ! i) order, map (\<lambda>i. dests ! i) order)"
    "mset order = mset [0..<length srcs]" "greedy infos (blobFreq infos) [] order"
proof -
  obtain order where o: "plan_loop infos (blobFreq infos) [] [0..<length srcs] = Some order"
    "mset order = mset [0..<length srcs]" "greedy infos (blobFreq infos) [] order"
    using plan_loop_greedy [of "[0..<length srcs]" infos "blobFreq infos" "[]"] by (auto simp: infos_def)
  have "\<forall>i \<in> set order. i < length dests" using mset_eq_setD [OF o(2)] assms(2) by auto
  then have "PlanMirrorOrder newRef manifestGet srcs dests = Some (map (\<lambda>i. srcs ! i) order, map (\<lambda>i. dests ! i) order)"
    using o(1) assms(1) by (simp add: PlanMirrorOrder_def infos_def)
  then show thesis using that o by blast
qed

lemma mset_zip_reindex:
  assumes "mset order = mset [0..<length xs]" and "length ys = length xs"
  shows "mset (zip (map (\<lambda>i. xs ! i) order) (map (\<lambda>i. ys ! i) order)) = mset (zip xs ys)"
proof -
  have "zip (map (\<lambda>i. xs ! i) order) (map (\<lambda>i. ys ! i) order) = map (\<lambda>i. (xs ! i, ys ! i)) order"
    by (induction order) auto
  moreover have "zip xs ys = map (\<lambda>i. (xs ! i, ys ! i)) [0..<length xs]"
    by (rule nth_equalityI) (use assms(2) in auto)
  ultimately show ?thesis by (simp only: mset_map assms(1))
qed

lemma PlanMirrorOrder_perm:
  assumes "length dests = length srcs"
  shows "\<exists>os od. PlanMirrorOrder newRef manifestGet srcs dests = Some (os, od) \<and>
    length os = length srcs \<and> length od = length srcs \<and> mset (zip os od) = mset (zip srcs dests)"
proof (cases "1 < length srcs")
  case True
  obtain order where
    "PlanMirrorOrder newRef manifestGet srcs dests = Some (map (\<lambda>i. srcs ! i) order, map (\<lambda>i. dests ! i) order)"
    and o: "mset order = mset [0..<length srcs]"
    using PlanMirrorOrder_order [OF True assms] by blast
  moreover have "length order = length srcs" using mset_eq_length [OF o] by simp
  ultimately show ?thesis using mset_zip_reindex [OF o assms] by auto
next
  case False
  then show ?thesis using assms by (simp add: PlanMirrorOrder_def)
qed

text \<open>
  Planning never panics and loses nothing: for a batch with one destination per source
  the planner returns, and the source/destination pairs it returns are exactly the pairs of the
  batch, reordered. No image is dropped, repeated or sent to another image's destination.
\<close>

theorem PlanMirrorOrder_permutes:
  assumes "length dests = length srcs"
  shows "\<exists>os od. PlanMirrorOrder newRef manifestGet srcs dests = Some (os, od) \<and>
    length os = length srcs \<and> length od = length srcs \<and> mset (zip os od) = mset (zip srcs dests)"
  using assms by (rule PlanMirrorOrder_perm)

theorem PlanMirrorOrder_permutes_witness:
  "\<exists>os od. PlanMirrorOrder (\<lambda>s. Inr \<lparr>rf_Base = s, rf_Tag = [], rf_Digest = []\<rparr>) (\<lambda>r. Inl ''404'')
     [''q.io/a'', ''q.io/b''] [''m/a'', ''m/b''] = Some (os, od) \<and>
     mset (zip os od) = mset [(''q.io/a'', ''m/a''), (''q.io/b'', ''m/b'')]"
  using PlanMirrorOrder_permutes [of "[''m/a'', ''m/b'']" "[''q.io/a'', ''q.io/b'']"
      "\<lambda>s. Inr \<lparr>rf_Base = s, rf_Tag = [], rf_Digest = []\<rparr>" "\<lambda>r. Inl ''404''"] by auto

section \<open>What the order is meant to be\<close>

text \<open>
  The rule of the planner stated on the sets of blobs of the images, without the code's frequency
  table, its list of uploaded blobs or its score. \<open>B i\<close> is the set of blobs of image \<open>i\<close> of a batch of \<open>n\<close>
  images and \<open>U\<close> the blobs uploaded so far: the number of images that reference a blob, and when an image
  is to be preferred to another one.
\<close>

definition sharers :: "(nat \<Rightarrow> string set) \<Rightarrow> nat \<Rightarrow> string \<Rightarrow> nat" where
  "sharers B n b = card {i. i < n \<and> b \<in> B i}"

definition preferred :: "(nat \<Rightarrow> string set) \<Rightarrow> nat \<Rightarrow> string set \<Rightarrow> nat \<Rightarrow> nat \<Rightarrow> bool" where
  "preferred B n U i j \<longleftrightarrow>
     (let mounted = (\<lambda>i. card (B i \<inter> U)); needed = (\<lambda>i. \<Sum>b \<in> B i - U. sharers B n b)
      in mounted i > mounted j
         \<or> mounted i = mounted j \<and> (needed i > needed j \<or> needed i = needed j \<and> i < j))"

lemma collectBlobs_distinct: "distinct blobs \<Longrightarrow> distinct (collectBlobs m blobs)"
proof -
  have "distinct bs \<Longrightarrow> distinct (fold (\<lambda>d. add_blob d) ds bs)" for ds bs
    by (induction ds arbitrary: bs) auto
  then show "distinct blobs \<Longrightarrow> distinct (collectBlobs m blobs)"
    by (simp add: collectBlobs_def split: sum.splits)
qed

lemma platform_blobs_distinct:
  "distinct bs \<Longrightarrow> distinct (fold (\<lambda>d blobs. let blobs1 = add_blob d blobs
     in case g d of Inl _ \<Rightarrow> blobs1 | Inr platM \<Rightarrow> collectBlobs platM blobs1) descs bs)"
  by (induction descs arbitrary: bs) (auto simp: collectBlobs_distinct Let_def split: sum.splits)

lemma source_blobs_distinct: "distinct (source_blobs newRef manifestGet src)"
  by (auto simp: source_blobs_def extractBlobDigests_def collectBlobs_distinct platform_blobs_distinct
      split: sum.splits)

lemma blobFreq_counts: "mget_default 0 (blobFreq infos) b = sum_list (map (\<lambda>bs. count_list bs b) infos)"
proof -
  have inner: "mget_default 0 (fold count_blob bs freq) b = mget_default 0 freq b + count_list bs b" for bs freq
    by (induction bs arbitrary: freq) (auto simp: count_blob_def)
  have "mget_default 0 (fold (\<lambda>blobs freq. fold count_blob blobs freq) xs freq) b =
      mget_default 0 freq b + sum_list (map (\<lambda>bs. count_list bs b) xs)" for xs freq
    by (induction xs arbitrary: freq) (auto simp: inner)
  then show ?thesis by (simp add: blobFreq_def)
qed

lemma blobFreq_sharers:
  assumes "\<forall>bs \<in> set infos. distinct bs"
  shows "mget_default 0 (blobFreq infos) b = sharers (\<lambda>i. set (infos ! i)) (length infos) b"
proof -
  have "count_list bs b = (if b \<in> set bs then 1 else 0)" if "distinct bs" for bs
    using that by (induction bs) auto
  then have "sum_list (map (\<lambda>bs. count_list bs b) infos) = length (filter (\<lambda>bs. b \<in> set bs) infos)"
    using assms by (induction infos) auto
  also have "\<dots> = card {i. i < length infos \<and> b \<in> set (infos ! i)}"
    by (rule length_filter_conv_card)
  finally show ?thesis by (simp add: blobFreq_counts sharers_def)
qed

lemma beats_preferred:
  assumes infos: "\<forall>bs \<in> set infos. distinct bs" and ij: "i < length infos" "j < length infos" "i \<noteq> j"
    and beats: "beats (\<lambda>idx. blob_score (blobFreq infos) uploaded (infos ! idx)) i j"
  shows "preferred (\<lambda>i. set (infos ! i)) (length infos) (set uploaded) i j"
proof -
  let ?B = "\<lambda>i. set (infos ! i)"
  have score: "sum_list (map (mget_default 0 (blobFreq infos)) (filter P (infos ! k))) =
      (\<Sum>b \<in> {b \<in> ?B k. P b}. sharers ?B (length infos) b)" if "k < length infos" for k P
    using infos that by (simp add: sum_list_distinct_conv_sum_set blobFreq_sharers)
  have mounted: "length (filter (\<lambda>b. b \<in> set uploaded) (infos ! k)) = card (?B k \<inter> set uploaded)"
    if "k < length infos" for k
    using infos that by (subst distinct_card [symmetric]) (auto simp: Int_def)
  have diff: "{b \<in> ?B k. b \<notin> set uploaded} = ?B k - set uploaded" for k by auto
  let ?needed = "\<lambda>k. \<Sum>b \<in> ?B k - set uploaded. sharers ?B (length infos) b"
  have rank: "blob_score (blobFreq infos) uploaded (infos ! k) =
      (if uploaded = [] then (int (?needed k), 0) else (int (card (?B k \<inter> set uploaded)), int (?needed k)))"
    if "k < length infos" for k
    using mounted [OF that] score [OF that, of "\<lambda>b. b \<notin> set uploaded"] by (auto simp: blob_score_def diff)
  show ?thesis
    using beats ij(3) unfolding beats_def rank [OF ij(1)] rank [OF ij(2)]
    by (cases "uploaded = []") (simp_all only: preferred_def Let_def if_True if_False fst_conv snd_conv of_nat_less_iff of_nat_eq_iff,
      auto simp del: of_nat_sum)
qed

lemma greedy_position:
  assumes "greedy infos freq uploaded order" and "k < l" and "l < length order"
  shows "\<exists>up. set up = set uploaded \<union> (\<Union>i \<in> set (take k order). set (infos ! i)) \<and>
    beats (\<lambda>idx. blob_score freq up (infos ! idx)) (order ! k) (order ! l)"
  using assms
proof (induction infos freq uploaded order arbitrary: k l rule: greedy.induct)
  case (1 infos freq uploaded)
  then show ?case by simp
next
  case (2 infos freq uploaded i rest)
  obtain l' where l: "l = Suc l'" using "2.prems"(2) by (cases l) auto
  show ?case
  proof (cases k)
    case 0
    then show ?thesis using "2.prems" l by auto
  next
    case (Suc k')
    have ins: "set (fold List.insert xs ys) = set ys \<union> set xs" for xs ys :: "string list"
      by (induction xs arbitrary: ys) auto
    show ?thesis using "2.IH" [of k' l'] "2.prems" l Suc by (auto simp: ins Un_ac)
  qed
qed

text \<open>
  Property C37. The order of a batch of images (no Helm charts) is the greedy one the planner documents.
  Nothing is lost or repeated, and whenever one image is scheduled before another, then with \<open>U\<close> the blobs
  of all the images scheduled before the first of the two: the first one has more blobs in \<open>U\<close>, that is
  already uploaded; or as many, and the blobs it still needs are referenced by more images of the batch
  (summed over those blobs, itself counted); or these are equal too and it has the smaller index. As long
  as nothing is uploaded this picks the image whose blobs are shared most. Blobs are those of the manifest
  and, for a list, of the manifests of its platforms; an image that cannot be inspected has none. Where a
  batch has charts the code disagrees with its comment (charts are moved to the end), so they are excluded.
\<close>

theorem PlanMirrorOrder_greedy:
  assumes "1 < length srcs" and "length dests = length srcs" and "list_all (\<lambda>src. \<not> IsChartSource src) srcs"
  shows "\<exists>order. PlanMirrorOrder newRef manifestGet srcs dests =
      Some (map (\<lambda>i. srcs ! i) order, map (\<lambda>i. dests ! i) order) \<and>
    mset order = mset [0..<length srcs] \<and>
    (\<forall>k l. k < l \<and> l < length order \<longrightarrow>
      preferred (\<lambda>i. set (source_blobs newRef manifestGet (srcs ! i))) (length srcs)
        (\<Union>i \<in> set (take k order). set (source_blobs newRef manifestGet (srcs ! i))) (order ! k) (order ! l))"
proof -
  let ?infos = "map (source_blobs newRef manifestGet) srcs"
  obtain order where o: "PlanMirrorOrder newRef manifestGet srcs dests =
      Some (map (\<lambda>i. srcs ! i) order, map (\<lambda>i. dests ! i) order)"
    and m: "mset order = mset [0..<length srcs]" and g: "greedy ?infos (blobFreq ?infos) [] order"
    using PlanMirrorOrder_order [OF assms(1,2)] by metis
  have bound: "i < length srcs" if "i \<in> set order" for i using mset_eq_setD [OF m] that by auto
  have dist: "distinct order" using m by (metis distinct_upt mset_eq_imp_distinct_iff)
  have "preferred (\<lambda>i. set (source_blobs newRef manifestGet (srcs ! i))) (length srcs)
      (\<Union>i \<in> set (take k order). set (source_blobs newRef manifestGet (srcs ! i))) (order ! k) (order ! l)"
    if kl: "k < l" "l < length order" for k l
  proof -
    obtain up where up: "set up = (\<Union>i \<in> set (take k order). set (?infos ! i))"
      and b: "beats (\<lambda>idx. blob_score (blobFreq ?infos) up (?infos ! idx)) (order ! k) (order ! l)"
      using greedy_position [OF g kl] by auto
    have "preferred (\<lambda>i. set (?infos ! i)) (length ?infos) (set up) (order ! k) (order ! l)"
      by (rule beats_preferred [OF _ _ _ _ b])
        (use kl bound dist in \<open>auto simp: source_blobs_distinct nth_eq_iff_index_eq\<close>)
    moreover have "set (?infos ! i) = set (source_blobs newRef manifestGet (srcs ! i))" if "i < length srcs" for i
      using that by simp
    ultimately show ?thesis
      using up bound [OF in_set_takeD] bound [of "order ! k"] bound [of "order ! l"] kl
      by (simp add: preferred_def sharers_def cong: conj_cong)
  qed
  then show ?thesis using o m by blast
qed

theorem PlanMirrorOrder_greedy_witness:
  "\<exists>order. PlanMirrorOrder (\<lambda>s. Inr \<lparr>rf_Base = s, rf_Tag = [], rf_Digest = []\<rparr>)
      (\<lambda>r. Inr \<lparr>IsList = False, GetManifestList = Inl ''no list'', GetConfig = Inr (rf_Base r), GetLayers = Inr [''base'']\<rparr>)
      [''q.io/a'', ''q.io/b''] [''m/a'', ''m/b''] =
      Some (map (\<lambda>i. [''q.io/a'', ''q.io/b''] ! i) order, map (\<lambda>i. [''m/a'', ''m/b''] ! i) order) \<and>
    mset order = mset [0, 1]"
  using PlanMirrorOrder_greedy [of "[''q.io/a'', ''q.io/b'']" "[''m/a'', ''m/b'']"
      "\<lambda>s. Inr \<lparr>rf_Base = s, rf_Tag = [], rf_Digest = []\<rparr>"
      "\<lambda>r. Inr \<lparr>IsList = False, GetManifestList = Inl ''no list'', GetConfig = Inr (rf_Base r), GetLayers = Inr [''base'']\<rparr>"]
  by (auto simp: upt_rec IsChartSource_def)

section \<open>Charts\<close>

lemma blobFreq_pos:
  assumes "blobs \<in> set infos" and "b \<in> set blobs"
  shows "1 \<le> mget_default 0 (blobFreq infos) b"
proof -
  have "count_list blobs b \<le> sum_list (map (\<lambda>bs. count_list bs b) infos)"
    using assms(1) by (intro member_le_sum_list) auto
  moreover have "0 < count_list blobs b" using assms(2) count_list_0_iff [of blobs b] by auto
  ultimately show ?thesis by (simp add: blobFreq_counts)
qed

lemma blob_score_zero:
  assumes "\<And>b. b \<in> set blobs \<Longrightarrow> 1 \<le> mget_default 0 freq b" and "blob_score freq uploaded blobs = (0, 0)"
  shows "blobs = []"
proof (rule ccontr)
  assume "blobs \<noteq> []"
  then obtain b where b: "b \<in> set blobs" by (cases blobs) auto
  from b assms(1) [OF b] assms(2) show False
    by (cases "b \<in> set uploaded") (auto simp: blob_score_def filter_empty_conv split: if_splits)
qed

lemma greedy_no_blobs:
  assumes "greedy infos freq uploaded order" and "i < j" and "j < length order" and "infos ! (order ! i) = []"
    and "\<And>k b. k \<in> set order \<Longrightarrow> b \<in> set (infos ! k) \<Longrightarrow> 1 \<le> mget_default 0 freq b"
  shows "infos ! (order ! j) = []"
  using assms
proof (induction infos freq uploaded order arbitrary: i j rule: greedy.induct)
  case (1 infos freq uploaded)
  then show ?case by simp
next
  case (2 infos freq uploaded k ks)
  show ?case
  proof (cases i)
    case 0
    have "order \<in> set ks \<Longrightarrow> beats (\<lambda>idx. blob_score freq uploaded (infos ! idx)) k order" for order
      using "2.prems"(1) by simp
    then have "beats (\<lambda>idx. blob_score freq uploaded (infos ! idx)) k (ks ! (j - 1))"
      using "2.prems"(2,3) 0 by simp
    moreover have "blob_score freq uploaded (infos ! k) = (0, 0)"
      using "2.prems"(4) 0 by (simp add: blob_score_def)
    moreover have "0 \<le> fst (blob_score freq uploaded (infos ! (ks ! (j - 1))))"
      "0 \<le> snd (blob_score freq uploaded (infos ! (ks ! (j - 1))))"
      by (simp_all add: blob_score_def)
    ultimately have "blob_score freq uploaded (infos ! (ks ! (j - 1))) = (0, 0)"
      by (auto simp: beats_def prod_eq_iff)
    moreover have "ks ! (j - 1) \<in> set (k # ks)" using "2.prems"(2,3) 0 by simp
    ultimately have "infos ! (ks ! (j - 1)) = []"
      using blob_score_zero "2.prems"(5) by blast
    then show ?thesis using "2.prems"(2) 0 by (simp add: nth_Cons')
  next
    case (Suc i')
    obtain j' where j: "j = Suc j'" using "2.prems"(2) by (cases j) auto
    have "infos ! (ks ! j') = []"
    proof (rule "2.IH" [of i' j'])
      show "1 \<le> mget_default 0 freq b" if "m \<in> set ks" "b \<in> set (infos ! m)" for m b
        using "2.prems"(5) that by auto
    qed (use "2.prems" Suc j in auto)
    then show ?thesis using j by simp
  qed
qed

text \<open>
  A Helm chart does not keep its position in the batch: whenever a chart is scheduled,
  every source scheduled after it has no blobs, so all images whose manifests could be inspected come
  before the first chart.
\<close>

theorem PlanMirrorOrder_charts_last:
  assumes "1 < length srcs" and "length dests = length srcs"
    and "PlanMirrorOrder newRef manifestGet srcs dests = Some (os, od)"
    and "i < j" and "j < length os" and "IsChartSource (os ! i)"
  shows "source_blobs newRef manifestGet (os ! j) = []"
proof -
  let ?infos = "map (source_blobs newRef manifestGet) srcs"
  obtain order where os: "os = map (\<lambda>i. srcs ! i) order"
    and o: "mset order = mset [0..<length srcs]" and g: "greedy ?infos (blobFreq ?infos) [] order"
    using PlanMirrorOrder_order [OF assms(1,2), of newRef manifestGet] assms(3) by auto
  have bound: "k < length srcs" if "k \<in> set order" for k using mset_eq_setD [OF o] that by auto
  have inf: "?infos ! (order ! k) = source_blobs newRef manifestGet (os ! k)" if "k < length order" for k
    using that bound os by simp
  have "?infos ! (order ! i) = []"
    using inf [of i] assms(4-6) os by (simp add: source_blobs_def)
  moreover have "1 \<le> mget_default 0 (blobFreq ?infos) b" if "k \<in> set order" "b \<in> set (?infos ! k)" for k b
    using blobFreq_pos [of "?infos ! k" ?infos b] that bound by simp
  ultimately have "?infos ! (order ! j) = []"
    using greedy_no_blobs [OF g assms(4)] assms(5) os by simp
  then show ?thesis using inf [of j] assms(5) os by simp
qed

theorem PlanMirrorOrder_charts_last_witness:
  "source_blobs (\<lambda>s. Inr \<lparr>rf_Base = s, rf_Tag = [], rf_Digest = []\<rparr>) (\<lambda>r. Inl ''404'') ''helm://b'' = [] \<and>
   PlanMirrorOrder (\<lambda>s. Inr \<lparr>rf_Base = s, rf_Tag = [], rf_Digest = []\<rparr>)
     (\<lambda>r. Inr \<lparr>IsList = False, GetManifestList = Inl ''no list'', GetConfig = Inr ''cfg'', GetLayers = Inr [''base'']\<rparr>)
     [''helm://a'', ''q.io/b''] [''m/a'', ''m/b''] = Some ([''q.io/b'', ''helm://a''], [''m/b'', ''m/a''])"
proof -
  have "PlanMirrorOrder (\<lambda>s. Inr \<lparr>rf_Base = s, rf_Tag = [], rf_Digest = []\<rparr>) (\<lambda>r. Inl ''404'')
      [''helm://a'', ''helm://b''] [''m/a'', ''m/b''] = Some ([''helm://a'', ''helm://b''], [''m/a'', ''m/b''])"
    by code_simp
  from PlanMirrorOrder_charts_last [OF _ _ this, of 0 1]
  have "source_blobs (\<lambda>s. Inr \<lparr>rf_Base = s, rf_Tag = [], rf_Digest = []\<rparr>) (\<lambda>r. Inl ''404'') ''helm://b'' = []"
    by (simp add: IsChartSource_def)
  moreover have "PlanMirrorOrder (\<lambda>s. Inr \<lparr>rf_Base = s, rf_Tag = [], rf_Digest = []\<rparr>)
     (\<lambda>r. Inr \<lparr>IsList = False, GetManifestList = Inl ''no list'', GetConfig = Inr ''cfg'', GetLayers = Inr [''base'']\<rparr>)
     [''helm://a'', ''q.io/b''] [''m/a'', ''m/b''] = Some ([''q.io/b'', ''helm://a''], [''m/b'', ''m/a''])"
    by code_simp
  ultimately show ?thesis by simp
qed

end
