(* ===== verification/ImageState.thy ===== *)
theory ImageState
  imports Prelude
begin

text \<open>
  Package \<open>pkg/mirror/imagestate\<close>: the per-image entry, its storage in one ConfigMap per ImageSet,
  the shared-image index, the migration from the old consolidated ConfigMap and the summary
  ConfigMap.

  \<^item> \<open>image_entry\<close> is Go's \<open>ImageEntry\<close>. An \<open>ImageState\<close> in memory is \<open>image_state\<close>; what is
    decoded from a ConfigMap is \<open>loaded_state\<close>, whose values may be \<open>nil\<close> (JSON \<open>null\<close>), written
    \<^const>\<open>None\<close>. The manager drops such entries on load, so live states hold none.
  \<^item> JSON and gzip are represented by what they decode to: \<open>doc\<close> is a decoded JSON object,
    \<open>GzipJSON\<close> and \<open>JSON\<close> its two encodings. Points in time are nanoseconds; \<open>tj\<close> is the rounding
    that a time undergoes when it is written as JSON.
  \<^item> The Kubernetes API is a parameter, the record \<open>kube\<close>; \<open>kube_ok\<close> states what the code
    relies on: a successful write is what a later read returns.
\<close>

section \<open>Entries\<close>

abbreviation stateMirrored :: string where "stateMirrored \<equiv> ''Mirrored''"
abbreviation statePending :: string where "statePending \<equiv> ''Pending''"
abbreviation stateFailed :: string where "stateFailed \<equiv> ''Failed''"

abbreviation OriginRelease :: string where "OriginRelease \<equiv> ''release''"
abbreviation OriginOperator :: string where "OriginOperator \<equiv> ''operator''"
abbreviation OriginAdditional :: string where "OriginAdditional \<equiv> ''additional''"
abbreviation OriginHelm :: string where "OriginHelm \<equiv> ''helm''"
abbreviation OriginHelmChart :: string where "OriginHelmChart \<equiv> ''helm-chart''"

record image_entry =
  Source :: string
  State :: string
  LastError :: string
  RetryCount :: int
  Origin :: string
  EntrySig :: string
  OriginRef :: string
  Catalog :: string
  IsBundleImage :: bool
  PermanentlyFailed :: bool
  NextRetryAt :: "int option"
  SignatureVerified :: bool
  SourceDigest :: string

text \<open>The zero value of the struct, from which composite literals are built.\<close>

definition zero_entry :: image_entry where
  "zero_entry = \<lparr>Source = [], State = [], LastError = [], RetryCount = 0, Origin = [], EntrySig = [],
     OriginRef = [], Catalog = [], IsBundleImage = False, PermanentlyFailed = False,
     NextRetryAt = None, SignatureVerified = False, SourceDigest = []\<rparr>"

type_synonym image_state = "(string, image_entry) gomap"
type_synonym loaded_state = "(string, image_entry option) gomap"
type_synonym shared_index = "(string, string list) gomap"

definition CatalogFromOriginRef :: "string \<Rightarrow> string" where
  "CatalogFromOriginRef originRef = fst (str_cut originRef '' '')"

section \<open>The shared-image index\<close>

definition AddSharedRef :: "shared_index \<Rightarrow> string \<Rightarrow> string \<Rightarrow> shared_index" where
  "AddSharedRef idx dest imageSet =
     (if imageSet \<in> set (mget_list idx dest) then idx
      else mput dest (mget_list idx dest @ [imageSet]) idx)"

definition RemoveSharedRef :: "shared_index \<Rightarrow> string \<Rightarrow> string \<Rightarrow> shared_index" where
  "RemoveSharedRef idx dest imageSet =
     (let out = filter (\<lambda>n. n \<noteq> imageSet) (mget_list idx dest)
      in if length out \<le> 1 then mdel dest idx else mput dest out idx)"

definition IsShared :: "shared_index \<Rightarrow> string \<Rightarrow> bool" where
  "IsShared idx dest \<longleftrightarrow> length (mget_list idx dest) \<ge> 2"

definition Names :: "shared_index \<Rightarrow> string \<Rightarrow> string list" where
  "Names idx dest = mget_list idx dest"

section \<open>ConfigMap names\<close>

definition ConfigMapName :: "string \<Rightarrow> string" where
  "ConfigMapName imageSetName = imageSetName @ ''-images''"

definition IndexConfigMapName :: "string \<Rightarrow> string" where
  "IndexConfigMapName mtName = mtName @ ''-images-index''"

definition OrphansConfigMapName :: "string \<Rightarrow> string" where
  "OrphansConfigMapName mtName = mtName @ ''-images-orphans''"

definition ConfigMapNameForTarget :: "string \<Rightarrow> string" where
  "ConfigMapNameForTarget mtName = mtName @ ''-images''"

definition SummaryConfigMapName :: "string \<Rightarrow> string" where
  "SummaryConfigMapName mtName = mtName @ ''-images-summary''"

section \<open>Counts\<close>

fun count_entries :: "image_state \<Rightarrow> int \<times> int \<times> int \<Rightarrow> int \<times> int \<times> int" where
  "count_entries [] acc = acc"
| "count_entries ((d, e) # st) (mirr, pending, failed) =
     count_entries st
       (if State e = stateMirrored then (mirr + 1, pending, failed)
        else if PermanentlyFailed e then (mirr, pending, failed + 1)
        else (mirr, pending + 1, failed))"

text \<open>Result: total, mirrored, pending, failed.\<close>

definition Counts :: "image_state \<Rightarrow> int \<times> int \<times> int \<times> int" where
  "Counts st = (int (length st), count_entries st (0, 0, 0))"

section \<open>Stored documents\<close>

record legacy_ref =
  lr_ImageSet :: string
  lr_Origin :: string
  lr_EntrySig :: string
  lr_OriginRef :: string

text \<open>A JSON object of a state map: the fields of both entry formats, \<open>refs\<close> last.\<close>

type_synonym json_entry = "image_entry \<times> legacy_ref list"

datatype doc =
    DState "(string, json_entry option) gomap"
  | DIndex "(string, string list) gomap"
  | DStrings "(string, string) gomap"

datatype text_value = Text string | JSON doc

datatype bytes = GzipJSON doc | GzipOfGarbage | NotGzip

record configmap =
  cm_Name :: string
  cm_Annotations :: "(string, text_value) gomap"
  cm_BinaryData :: "(string, bytes) gomap"
  cm_Data :: "(string, text_value) gomap"
  cm_ResourceVersion :: nat
  cm_Owner :: "string option"

datatype kube_error = NotFound | APIError string

datatype error = GetError kube_error | WriteError kube_error | OwnerError string | DecodeError string

text \<open>The owner reference a ConfigMap is given: none, one that can be set, or a failing one.\<close>

datatype owner = NoOwner | Owner string | OwnerFails string

record 'w kube =
  kget :: "'w \<Rightarrow> string \<Rightarrow> kube_error + configmap"
  kcreate :: "'w \<Rightarrow> configmap \<Rightarrow> 'w \<times> kube_error option"
  kupdate :: "'w \<Rightarrow> configmap \<Rightarrow> 'w \<times> kube_error option"
  kdelete :: "'w \<Rightarrow> string \<Rightarrow> 'w \<times> kube_error option"

definition stored :: "'w kube \<Rightarrow> 'w \<Rightarrow> 'w \<Rightarrow> configmap \<Rightarrow> bool" where
  "stored k w w' cm \<longleftrightarrow>
     (\<exists>rv. kget k w' (cm_Name cm) = Inr (cm\<lparr>cm_ResourceVersion := rv\<rparr>)) \<and>
     (\<forall>n. n \<noteq> cm_Name cm \<longrightarrow> kget k w' n = kget k w n)"

definition kube_ok :: "'w kube \<Rightarrow> bool" where
  "kube_ok k \<longleftrightarrow>
     (\<forall>w cm w'. kcreate k w cm = (w', None) \<longrightarrow> stored k w w' cm) \<and>
     (\<forall>w cm w'. kupdate k w cm = (w', None) \<longrightarrow> stored k w w' cm) \<and>
     (\<forall>w n w'. kdelete k w n = (w', None) \<longrightarrow>
        kget k w' n = Inl NotFound \<and> (\<forall>n'. n' \<noteq> n \<longrightarrow> kget k w' n' = kget k w n')) \<and>
     (\<forall>w n w'. kdelete k w n = (w', Some NotFound) \<longrightarrow>
        kget k w' n = Inl NotFound \<and> (\<forall>n'. n' \<noteq> n \<longrightarrow> kget k w' n' = kget k w n')) \<and>
     (\<forall>w n cm. kget k w n = Inr cm \<longrightarrow> cm_Name cm = n)"

section \<open>Encoding and decoding\<close>

definition json_of_entry :: "(int \<Rightarrow> int) \<Rightarrow> image_entry \<Rightarrow> image_entry" where
  "json_of_entry tj e = e\<lparr>NextRetryAt := map_option tj (NextRetryAt e)\<rparr>"

definition encode :: "(int \<Rightarrow> int) \<Rightarrow> loaded_state \<Rightarrow> doc" where
  "encode tj st = DState (map (\<lambda>(d, e). (d, map_option (\<lambda>e. (json_of_entry tj e, [])) e)) st)"

definition encodeIndex :: "shared_index \<Rightarrow> doc" where
  "encodeIndex idx = DIndex idx"

fun as_state :: "doc \<Rightarrow> (string, json_entry option) gomap option" where
  "as_state (DState s) = Some s"
| "as_state (DIndex []) = Some []"
| "as_state (DStrings []) = Some []"
| "as_state _ = None"

fun as_index :: "doc \<Rightarrow> shared_index option" where
  "as_index (DIndex s) = Some s"
| "as_index (DState []) = Some []"
| "as_index (DStrings []) = Some []"
| "as_index _ = None"

fun as_strings :: "doc \<Rightarrow> (string, string) gomap option" where
  "as_strings (DStrings s) = Some s"
| "as_strings (DState []) = Some []"
| "as_strings (DIndex []) = Some []"
| "as_strings _ = None"

text \<open>
  \<open>decodeGzipJSON\<close>: \<open>as\<close> is the type the caller decodes into; a ConfigMap with neither key leaves
  the (empty) map as it is.
\<close>

definition decodeGzipJSON ::
  "(doc \<Rightarrow> ('k, 'v) gomap option) \<Rightarrow> configmap \<Rightarrow> string \<Rightarrow> string \<Rightarrow> error + ('k, 'v) gomap" where
  "decodeGzipJSON as cm gzKey plainKey =
     (case mget (cm_BinaryData cm) gzKey of
        Some NotGzip \<Rightarrow> Inl (DecodeError gzKey)
      | Some GzipOfGarbage \<Rightarrow> Inl (DecodeError gzKey)
      | Some (GzipJSON d) \<Rightarrow> (case as d of Some m \<Rightarrow> Inr m | None \<Rightarrow> Inl (DecodeError gzKey))
      | None \<Rightarrow>
          (case mget (cm_Data cm) plainKey of
             Some (JSON d) \<Rightarrow> (case as d of Some m \<Rightarrow> Inr m | None \<Rightarrow> Inl (DecodeError plainKey))
           | Some (Text s) \<Rightarrow> Inl (DecodeError plainKey)
           | None \<Rightarrow> Inr []))"

definition entries_of_doc :: "doc \<Rightarrow> loaded_state option" where
  "entries_of_doc d = map_option (map (\<lambda>(k, e). (k, map_option fst e))) (as_state d)"

definition decode :: "configmap \<Rightarrow> error + loaded_state" where
  "decode cm = decodeGzipJSON entries_of_doc cm ''images.json.gz'' ''images.json''"

definition decodeIndex :: "configmap \<Rightarrow> error + shared_index" where
  "decodeIndex cm = decodeGzipJSON as_index cm ''index.json.gz'' ''index.json''"

section \<open>Loading and saving\<close>

abbreviation FormatAnnotation :: string where
  "FormatAnnotation \<equiv> ''mirror.openshift.io/imagestate-format''"

abbreviation FormatPerImageSet :: string where
  "FormatPerImageSet \<equiv> ''v2''"

abbreviation CatalogDigestsAnnotation :: string where
  "CatalogDigestsAnnotation \<equiv> ''mirror.openshift.io/resolved-catalog-digests''"

definition LoadByConfigMapName :: "'w kube \<Rightarrow> 'w \<Rightarrow> string \<Rightarrow> error + loaded_state" where
  "LoadByConfigMapName k w cmName =
     (case kget k w cmName of
        Inl NotFound \<Rightarrow> Inr []
      | Inl e \<Rightarrow> Inl (GetError e)
      | Inr cm \<Rightarrow> decode cm)"

definition Load :: "'w kube \<Rightarrow> 'w \<Rightarrow> string \<Rightarrow> error + loaded_state" where
  "Load k w imageSetName = LoadByConfigMapName k w (ConfigMapName imageSetName)"

definition LoadForTarget :: "'w kube \<Rightarrow> 'w \<Rightarrow> string \<Rightarrow> error + loaded_state" where
  "LoadForTarget k w mtName = LoadByConfigMapName k w (ConfigMapNameForTarget mtName)"

definition LoadWithCatalogDigests ::
  "'w kube \<Rightarrow> 'w \<Rightarrow> string \<Rightarrow> error + (loaded_state \<times> (string, string) gomap)" where
  "LoadWithCatalogDigests k w imageSetName =
     (case kget k w (ConfigMapName imageSetName) of
        Inl NotFound \<Rightarrow> Inr ([], [])
      | Inl e \<Rightarrow> Inl (GetError e)
      | Inr cm \<Rightarrow>
          (case decode cm of
             Inl e \<Rightarrow> Inl e
           | Inr st \<Rightarrow>
               (case mget (cm_Annotations cm) CatalogDigestsAnnotation of
                  None \<Rightarrow> Inr (st, [])
                | Some (Text []) \<Rightarrow> Inr (st, [])
                | Some (Text raw) \<Rightarrow> Inl (DecodeError CatalogDigestsAnnotation)
                | Some (JSON d) \<Rightarrow>
                    (case as_strings d of
                       None \<Rightarrow> Inl (DecodeError CatalogDigestsAnnotation)
                     | Some digests \<Rightarrow> Inr (st, digests)))))"

definition with_owner :: "owner \<Rightarrow> configmap \<Rightarrow> error + configmap" where
  "with_owner ow cm =
     (case ow of
        NoOwner \<Rightarrow> Inr cm
      | Owner n \<Rightarrow> Inr (cm\<lparr>cm_Owner := Some n\<rparr>)
      | OwnerFails e \<Rightarrow> Inl (OwnerError e))"

text \<open>
  The tail shared by \<open>saveRaw\<close> and \<open>SaveIndex\<close>: set the owner, then create the ConfigMap, or
  replace it at the resource version just read.
\<close>

definition write_configmap ::
  "'w kube \<Rightarrow> 'w \<Rightarrow> configmap \<Rightarrow> owner \<Rightarrow> 'w \<times> error option" where
  "write_configmap k w cm ow =
     (let getErr = kget k w (cm_Name cm)
      in case with_owner ow cm of
           Inl e \<Rightarrow> (w, Some e)
         | Inr cm' \<Rightarrow>
             (case getErr of
                Inl NotFound \<Rightarrow> (case kcreate k w cm' of (w', e) \<Rightarrow> (w', map_option WriteError e))
              | Inl e \<Rightarrow> (w, Some (GetError e))
              | Inr existing \<Rightarrow>
                  (case kupdate k w (cm'\<lparr>cm_ResourceVersion := cm_ResourceVersion existing\<rparr>) of
                     (w', e) \<Rightarrow> (w', map_option WriteError e))))"

definition saveRaw ::
  "(int \<Rightarrow> int) \<Rightarrow> 'w kube \<Rightarrow> 'w \<Rightarrow> string \<Rightarrow> loaded_state \<Rightarrow> (string, text_value) gomap \<Rightarrow> owner
     \<Rightarrow> 'w \<times> error option" where
  "saveRaw tj k w cmName st annotations ow =
     (let allAnnotations = fold (\<lambda>(a, v). mput a v) annotations [(FormatAnnotation, Text FormatPerImageSet)];
          cm = \<lparr>cm_Name = cmName, cm_Annotations = allAnnotations,
                cm_BinaryData = [(''images.json.gz'', GzipJSON (encode tj st))], cm_Data = [],
                cm_ResourceVersion = 0, cm_Owner = None\<rparr>
      in write_configmap k w cm ow)"

definition SaveRaw ::
  "(int \<Rightarrow> int) \<Rightarrow> 'w kube \<Rightarrow> 'w \<Rightarrow> string \<Rightarrow> loaded_state \<Rightarrow> owner \<Rightarrow> 'w \<times> error option" where
  "SaveRaw tj k w cmName st ow = saveRaw tj k w cmName st [] ow"

definition Save ::
  "(int \<Rightarrow> int) \<Rightarrow> 'w kube \<Rightarrow> 'w \<Rightarrow> string \<Rightarrow> loaded_state \<Rightarrow> owner \<Rightarrow> 'w \<times> error option" where
  "Save tj k w imageSetName st ow = SaveRaw tj k w (ConfigMapName imageSetName) st ow"

definition SaveWithCatalogDigests ::
  "(int \<Rightarrow> int) \<Rightarrow> 'w kube \<Rightarrow> 'w \<Rightarrow> string \<Rightarrow> loaded_state \<Rightarrow> (string, string) gomap \<Rightarrow> owner
     \<Rightarrow> 'w \<times> error option" where
  "SaveWithCatalogDigests tj k w imageSetName st digests ow =
     (let annotations = (if length digests > 0 then [(CatalogDigestsAnnotation, JSON (DStrings digests))] else [])
      in saveRaw tj k w (ConfigMapName imageSetName) st annotations ow)"

definition LoadIndex :: "'w kube \<Rightarrow> 'w \<Rightarrow> string \<Rightarrow> error + shared_index" where
  "LoadIndex k w mtName =
     (case kget k w (IndexConfigMapName mtName) of
        Inl NotFound \<Rightarrow> Inr []
      | Inl e \<Rightarrow> Inl (GetError e)
      | Inr cm \<Rightarrow> decodeIndex cm)"

definition SaveIndex :: "'w kube \<Rightarrow> 'w \<Rightarrow> string \<Rightarrow> shared_index \<Rightarrow> owner \<Rightarrow> 'w \<times> error option" where
  "SaveIndex k w mtName idx ow =
     (let cmName = IndexConfigMapName mtName
      in if length idx = 0 then
           (case kdelete k w cmName of
              (w', None) \<Rightarrow> (w', None)
            | (w', Some NotFound) \<Rightarrow> (w', None)
            | (w', Some e) \<Rightarrow> (w', Some (WriteError e)))
         else
           write_configmap k w
             \<lparr>cm_Name = cmName, cm_Annotations = [],
              cm_BinaryData = [(''index.json.gz'', GzipJSON (encodeIndex idx))], cm_Data = [],
              cm_ResourceVersion = 0, cm_Owner = None\<rparr> ow)"

end
