(* ===== verification/ImageStore.thy ===== *)
theory ImageStore
  imports ImageState
begin

text \<open>
  The operations of package \<open>imagestate\<close> that span several ConfigMaps: the migration of the
  consolidated state, the summary ConfigMap with its decimal numbers, and the properties of
  storage: what is saved is what is loaded, and no ConfigMap of one role is ever mistaken for
  one of another.
\<close>

section \<open>Migration\<close>

record legacy_image_entry =
  lg_Source :: string
  lg_State :: string
  lg_LastError :: string
  lg_RetryCount :: int
  lg_PermanentlyFailed :: bool
  lg_Origin :: string
  lg_EntrySig :: string
  lg_OriginRef :: string
  lg_Refs :: "legacy_ref list"

definition legacy_of_json :: "json_entry \<Rightarrow> legacy_image_entry" where
  "legacy_of_json j = (case j of (e, refs) \<Rightarrow>
     \<lparr>lg_Source = Source e, lg_State = State e, lg_LastError = LastError e, lg_RetryCount = RetryCount e,
      lg_PermanentlyFailed = PermanentlyFailed e, lg_Origin = Origin e, lg_EntrySig = EntrySig e,
      lg_OriginRef = OriginRef e, lg_Refs = refs\<rparr>)"

definition legacy_of_doc :: "doc \<Rightarrow> (string, legacy_image_entry option) gomap option" where
  "legacy_of_doc d = map_option (map (\<lambda>(k, j). (k, map_option legacy_of_json j))) (as_state d)"

fun looksLegacy :: "(string, legacy_image_entry option) gomap \<Rightarrow> bool \<Rightarrow> bool" where
  "looksLegacy [] current = (\<not> current)"
| "looksLegacy ((d, None) # es) current = looksLegacy es current"
| "looksLegacy ((d, Some e) # es) current =
     (if length (lg_Refs e) > 0 then True
      else looksLegacy es (if lg_Origin e \<noteq> [] then True else current))"

definition migrated_entry :: "legacy_image_entry \<Rightarrow> legacy_ref \<Rightarrow> image_entry" where
  "migrated_entry e r =
     zero_entry\<lparr>Source := lg_Source e, State := lg_State e, LastError := lg_LastError e,
       RetryCount := lg_RetryCount e, PermanentlyFailed := lg_PermanentlyFailed e,
       Origin := lr_Origin r, EntrySig := lr_EntrySig r, OriginRef := lr_OriginRef r\<rparr>"

definition add_ref ::
  "string \<Rightarrow> legacy_image_entry \<Rightarrow> legacy_ref \<Rightarrow> (string, loaded_state) gomap \<Rightarrow> (string, loaded_state) gomap" where
  "add_ref dest e r per =
     mput (lr_ImageSet r) (mput dest (Some (migrated_entry e r)) (mget_list per (lr_ImageSet r))) per"

definition split_entry ::
  "string \<times> legacy_image_entry option \<Rightarrow> (string, loaded_state) gomap \<times> shared_index
     \<Rightarrow> (string, loaded_state) gomap \<times> shared_index" where
  "split_entry de acc = (case (de, acc) of ((dest, entry), (per, index)) \<Rightarrow>
     (case entry of
        None \<Rightarrow> (per, index)
      | Some e \<Rightarrow>
          if length (lg_Refs e) = 0 then (per, index)
          else (fold (add_ref dest e) (lg_Refs e) per,
                if length (lg_Refs e) > 1 then mput dest (map lr_ImageSet (lg_Refs e)) index else index)))"

fun save_all ::
  "(int \<Rightarrow> int) \<Rightarrow> 'w kube \<Rightarrow> owner \<Rightarrow> (string, loaded_state) gomap \<Rightarrow> 'w \<Rightarrow> 'w \<times> error option" where
  "save_all tj k ow [] w = (w, None)"
| "save_all tj k ow ((isName, st) # per) w =
     (case Save tj k w isName st ow of
        (w', Some e) \<Rightarrow> (w', Some e)
      | (w', None) \<Rightarrow> save_all tj k ow per w')"

definition split_consolidated ::
  "(string, legacy_image_entry option) gomap \<Rightarrow> (string, loaded_state) gomap \<times> shared_index" where
  "split_consolidated consolidated = fold split_entry consolidated ([], [])"

text \<open>Writing the split state and removing the consolidated ConfigMap, stopping at the first error.\<close>

definition write_migrated ::
  "(int \<Rightarrow> int) \<Rightarrow> 'w kube \<Rightarrow> string \<Rightarrow> owner \<Rightarrow> (string, loaded_state) gomap \<times> shared_index \<Rightarrow> 'w
     \<Rightarrow> 'w \<times> error option" where
  "write_migrated tj k mtName ow split w = (case split of (per, index) \<Rightarrow>
     (case save_all tj k ow per w of
        (w1, Some e) \<Rightarrow> (w1, Some e)
      | (w1, None) \<Rightarrow>
          (case (if length index > 0 then SaveIndex k w1 mtName index ow else (w1, None)) of
             (w2, Some e) \<Rightarrow> (w2, Some e)
           | (w2, None) \<Rightarrow>
               if mget per mtName \<noteq> None then (w2, None)
               else (case kdelete k w2 (ConfigMapNameForTarget mtName) of
                       (w3, None) \<Rightarrow> (w3, None)
                     | (w3, Some NotFound) \<Rightarrow> (w3, None)
                     | (w3, Some e) \<Rightarrow> (w3, Some (WriteError e))))))"

definition MigrateConsolidatedToPerImageSet ::
  "(int \<Rightarrow> int) \<Rightarrow> 'w kube \<Rightarrow> 'w \<Rightarrow> string \<Rightarrow> owner \<Rightarrow> 'w \<times> error option" where
  "MigrateConsolidatedToPerImageSet tj k w mtName ow =
     (case kget k w (ConfigMapNameForTarget mtName) of
        Inl NotFound \<Rightarrow> (w, None)
      | Inl e \<Rightarrow> (w, Some (GetError e))
      | Inr cm \<Rightarrow>
          if mget_default (Text []) (cm_Annotations cm) FormatAnnotation \<noteq> Text [] then (w, None)
          else
            (case decodeGzipJSON legacy_of_doc cm ''images.json.gz'' ''images.json'' of
               Inl e \<Rightarrow> (w, Some e)
             | Inr consolidated \<Rightarrow>
                 if \<not> looksLegacy consolidated False then (w, None)
                 else write_migrated tj k mtName ow (split_consolidated consolidated) w))"

section \<open>Decimal numbers\<close>

definition digit_char :: "nat \<Rightarrow> char" where
  "digit_char k = char_of (48 + k)"

fun nat_digits :: "nat \<Rightarrow> string" where
  "nat_digits n = (if n < 10 then [digit_char n] else nat_digits (n div 10) @ [digit_char (n mod 10)])"

declare nat_digits.simps [simp del]

definition Itoa :: "int \<Rightarrow> string" where
  "Itoa i = (if i < 0 then ''-'' @ nat_digits (nat (- i)) else nat_digits (nat i))"

fun parse_digits :: "string \<Rightarrow> nat \<Rightarrow> nat option" where
  "parse_digits [] acc = Some acc"
| "parse_digits (c # cs) acc =
     (let n = of_char c :: nat
      in if 48 \<le> n \<and> n \<le> 57 then parse_digits cs (10 * acc + (n - 48)) else None)"

definition parse_unsigned :: "string \<Rightarrow> nat option" where
  "parse_unsigned s = (if s = [] then None else parse_digits s 0)"

text \<open>\<open>strconv.Atoi\<close> on a 64-bit platform: an optional sign, decimal digits, a range check.\<close>

definition Atoi :: "string \<Rightarrow> int option" where
  "Atoi s =
     (let v = (case s of
                 c # cs \<Rightarrow>
                   if c = CHR ''-'' then map_option (\<lambda>n. - int n) (parse_unsigned cs)
                   else if c = CHR ''+'' then map_option int (parse_unsigned cs)
                   else map_option int (parse_unsigned s)
               | [] \<Rightarrow> None)
      in case v of
           None \<Rightarrow> None
         | Some i \<Rightarrow> if - (2 ^ 63) \<le> i \<and> i < 2 ^ 63 then Some i else None)"

section \<open>The summary ConfigMap\<close>

record summary =
  sm_ImageSets :: "string list"
  sm_Total :: int
  sm_Mirrored :: int
  sm_Pending :: int
  sm_Failed :: int

definition summary_data :: "summary \<Rightarrow> (string, text_value) gomap" where
  "summary_data s =
     [(''imageSets'', Text (str_join '','' (sm_ImageSets s))),
      (''total'', Text (Itoa (sm_Total s))),
      (''mirrored'', Text (Itoa (sm_Mirrored s))),
      (''pending'', Text (Itoa (sm_Pending s))),
      (''failed'', Text (Itoa (sm_Failed s)))]"

definition maps_equal :: "('k, 'v) gomap \<Rightarrow> ('k, 'v) gomap \<Rightarrow> bool" where
  "maps_equal a b \<longleftrightarrow> length a = length b \<and> (\<forall>(k, v) \<in> set a. mget b k = Some v)"

definition SaveSummary :: "'w kube \<Rightarrow> 'w \<Rightarrow> string \<Rightarrow> summary \<Rightarrow> owner \<Rightarrow> 'w \<times> error option" where
  "SaveSummary k w mtName s ow =
     (let cmName = SummaryConfigMapName mtName; data = summary_data s
      in case kget k w cmName of
           Inl NotFound \<Rightarrow>
             (case with_owner ow \<lparr>cm_Name = cmName, cm_Annotations = [], cm_BinaryData = [], cm_Data = data,
                                  cm_ResourceVersion = 0, cm_Owner = None\<rparr> of
                Inl e \<Rightarrow> (w, Some e)
              | Inr cm \<Rightarrow> (case kcreate k w cm of (w', e) \<Rightarrow> (w', map_option WriteError e)))
         | Inl e \<Rightarrow> (w, Some (GetError e))
         | Inr existing \<Rightarrow>
             if maps_equal (cm_Data existing) data then (w, None)
             else (case kupdate k w (existing\<lparr>cm_Data := data\<rparr>) of (w', e) \<Rightarrow> (w', map_option WriteError e)))"

fun text_string :: "text_value \<Rightarrow> string option" where
  "text_string (Text s) = Some s"
| "text_string (JSON d) = None"

definition data_int :: "(string, text_value) gomap \<Rightarrow> string \<Rightarrow> int option" where
  "data_int data key =
     Option.bind (text_string (mget_default (Text []) data key)) Atoi"

text \<open>Result: the summary, or \<^const>\<open>None\<close> where Go returns \<open>ok = false\<close>.\<close>

definition LoadSummary :: "'w kube \<Rightarrow> 'w \<Rightarrow> string \<Rightarrow> error + summary option" where
  "LoadSummary k w mtName =
     (case kget k w (SummaryConfigMapName mtName) of
        Inl NotFound \<Rightarrow> Inr None
      | Inl e \<Rightarrow> Inl (GetError e)
      | Inr cm \<Rightarrow>
          (let data = cm_Data cm;
               names = (case mget data ''imageSets'' of
                          Some (Text raw) \<Rightarrow> if raw \<noteq> [] then split_char (CHR '','') raw else []
                        | _ \<Rightarrow> [])
           in case (data_int data ''total'', data_int data ''mirrored'', data_int data ''pending'', data_int data ''failed'') of
                (Some t, Some m, Some p, Some f) \<Rightarrow>
                  Inr (Some \<lparr>sm_ImageSets = names, sm_Total = t, sm_Mirrored = m, sm_Pending = p, sm_Failed = f\<rparr>)
              | _ \<Rightarrow> Inr None))"

section \<open>Facts about counts\<close>

lemma count_entries_acc:
  "count_entries st (m, p, f) =
     (m + int (length (filter (\<lambda>(d, e). State e = stateMirrored) st)),
      p + int (length (filter (\<lambda>(d, e). State e \<noteq> stateMirrored \<and> \<not> PermanentlyFailed e) st)),
      f + int (length (filter (\<lambda>(d, e). State e \<noteq> stateMirrored \<and> PermanentlyFailed e) st)))"
  by (induction st arbitrary: m p f) auto

text \<open>
  The counts published in a status partition the state: every image is counted once
  as mirrored, pending or failed. A permanently failed image counts as failed also while it is
  being retried, and as mirrored once it is mirrored.
\<close>

theorem Counts_partition:
  "Counts st = (tot, m, p, f) \<longleftrightarrow>
     tot = int (length st) \<and> tot = m + p + f \<and>
     m = int (length (filter (\<lambda>(d, e). State e = stateMirrored) st)) \<and>
     f = int (length (filter (\<lambda>(d, e). State e \<noteq> stateMirrored \<and> PermanentlyFailed e) st))"
proof -
  have "length st =
      length (filter (\<lambda>(d, e). State e = stateMirrored) st)
      + length (filter (\<lambda>(d, e). State e \<noteq> stateMirrored \<and> \<not> PermanentlyFailed e) st)
      + length (filter (\<lambda>(d, e). State e \<noteq> stateMirrored \<and> PermanentlyFailed e) st)"
    by (induction st) auto
  then show ?thesis by (auto simp: Counts_def count_entries_acc)
qed

section \<open>Facts about names\<close>

lemma ConfigMapName_inject [simp]: "ConfigMapName a = ConfigMapName b \<longleftrightarrow> a = b"
  by (simp add: ConfigMapName_def)

lemma neq_by_rev: "rev a \<noteq> rev b \<Longrightarrow> a \<noteq> b"
  by auto

text \<open>
  ConfigMaps of different roles never share a name, for any ImageSet and MirrorTarget
  names, and different ImageSets have different state ConfigMaps.
\<close>

lemma ConfigMap_names_disjoint:
  "ConfigMapName is1 \<noteq> IndexConfigMapName mt \<and> ConfigMapName is1 \<noteq> OrphansConfigMapName mt
   \<and> ConfigMapName is1 \<noteq> SummaryConfigMapName mt \<and> IndexConfigMapName mt \<noteq> OrphansConfigMapName mt'
   \<and> IndexConfigMapName mt \<noteq> SummaryConfigMapName mt' \<and> OrphansConfigMapName mt \<noteq> SummaryConfigMapName mt'
   \<and> (ConfigMapName is1 = ConfigMapName is2 \<longleftrightarrow> is1 = is2)"
  by (intro conjI; (rule neq_by_rev)?;
      simp add: ConfigMapName_def IndexConfigMapName_def OrphansConfigMapName_def SummaryConfigMapName_def)

section \<open>Saving and loading\<close>

lemma kube_ok_create: "kube_ok k \<Longrightarrow> kcreate k w cm = (w', None) \<Longrightarrow> stored k w w' cm"
  by (simp add: kube_ok_def)

lemma kube_ok_update: "kube_ok k \<Longrightarrow> kupdate k w cm = (w', None) \<Longrightarrow> stored k w w' cm"
  by (simp add: kube_ok_def)

lemma kube_ok_delete:
  "kube_ok k \<Longrightarrow> kdelete k w n = (w', e) \<Longrightarrow> e = None \<or> e = Some NotFound \<Longrightarrow>
     kget k w' n = Inl NotFound \<and> (\<forall>n'. n' \<noteq> n \<longrightarrow> kget k w' n' = kget k w n')"
  by (auto simp: kube_ok_def)

lemma with_owner_fields:
  assumes "with_owner ow cm = Inr cm'"
  shows "cm_Name cm' = cm_Name cm" "cm_Annotations cm' = cm_Annotations cm"
    "cm_BinaryData cm' = cm_BinaryData cm" "cm_Data cm' = cm_Data cm"
  using assms by (auto simp: with_owner_def split: owner.splits)

lemma stored_same_content:
  assumes "stored k w w' cm'" and "with_owner ow cm = Inr cm''" and "cm' = cm''\<lparr>cm_ResourceVersion := v\<rparr>"
  shows "\<exists>c. kget k w' (cm_Name cm) = Inr c \<and> cm_Annotations c = cm_Annotations cm
      \<and> cm_BinaryData c = cm_BinaryData cm \<and> cm_Data c = cm_Data cm"
    and "n \<noteq> cm_Name cm \<Longrightarrow> kget k w' n = kget k w n"
  using assms with_owner_fields [OF assms(2)] by (auto simp: stored_def)

lemma write_configmap_ok:
  assumes "kube_ok k" and "write_configmap k w cm ow = (w', None)"
  shows "\<exists>c. kget k w' (cm_Name cm) = Inr c \<and> cm_Annotations c = cm_Annotations cm
      \<and> cm_BinaryData c = cm_BinaryData cm \<and> cm_Data c = cm_Data cm"
    and "n \<noteq> cm_Name cm \<Longrightarrow> kget k w' n = kget k w n"
proof -
  obtain cm' where cm': "with_owner ow cm = Inr cm'"
    using assms(2) by (auto simp: write_configmap_def Let_def split: sum.splits)
  have "\<exists>v. stored k w w' (cm'\<lparr>cm_ResourceVersion := v\<rparr>)"
  proof (cases "kget k w (cm_Name cm)")
    case (Inr existing)
    with assms cm' have "kupdate k w (cm'\<lparr>cm_ResourceVersion := cm_ResourceVersion existing\<rparr>) = (w', None)"
      by (auto simp: write_configmap_def split: prod.splits)
    with assms(1) show ?thesis by (blast dest: kube_ok_update)
  next
    case (Inl e)
    with assms cm' have "kcreate k w cm' = (w', None)"
      by (auto simp: write_configmap_def split: prod.splits kube_error.splits)
    with assms(1) have "stored k w w' (cm'\<lparr>cm_ResourceVersion := cm_ResourceVersion cm'\<rparr>)"
      by (simp add: kube_ok_create)
    then show ?thesis ..
  qed
  then obtain v where v: "stored k w w' (cm'\<lparr>cm_ResourceVersion := v\<rparr>)" ..
  show "\<exists>c. kget k w' (cm_Name cm) = Inr c \<and> cm_Annotations c = cm_Annotations cm
      \<and> cm_BinaryData c = cm_BinaryData cm \<and> cm_Data c = cm_Data cm"
    by (rule stored_same_content(1) [OF v cm' refl])
  show "n \<noteq> cm_Name cm \<Longrightarrow> kget k w' n = kget k w n"
    by (rule stored_same_content(2) [OF v cm' refl])
qed

text \<open>What a state looks like after one trip through JSON.\<close>

definition reload :: "(int \<Rightarrow> int) \<Rightarrow> loaded_state \<Rightarrow> loaded_state" where
  "reload tj st = map (\<lambda>(d, e). (d, map_option (json_of_entry tj) e)) st"

interpretation state_doc: codec "encode tj" entries_of_doc "reload tj" "\<lambda>_. True" for tj
  by unfold_locales (auto simp: encode_def entries_of_doc_def reload_def option.map_comp o_def)

interpretation index_doc: codec encodeIndex as_index "\<lambda>i. i" "\<lambda>_. True"
  by unfold_locales (simp add: encodeIndex_def)

lemma decode_saved:
  "cm_BinaryData c = [(''images.json.gz'', GzipJSON (encode tj st))] \<Longrightarrow> decode c = Inr (reload tj st)"
  by (simp add: decode_def decodeGzipJSON_def state_doc.dec_enc)

lemma saveRaw_ok:
  assumes "kube_ok k" and "saveRaw tj k w cmName st annotations ow = (w', None)"
  shows "\<exists>c. kget k w' cmName = Inr c \<and> decode c = Inr (reload tj st) \<and>
      cm_Annotations c = fold (\<lambda>(a, v). mput a v) annotations [(FormatAnnotation, Text FormatPerImageSet)]"
    and "n \<noteq> cmName \<Longrightarrow> kget k w' n = kget k w n"
proof -
  let ?cm = "\<lparr>cm_Name = cmName,
    cm_Annotations = fold (\<lambda>(a, v). mput a v) annotations [(FormatAnnotation, Text FormatPerImageSet)],
    cm_BinaryData = [(''images.json.gz'', GzipJSON (encode tj st))], cm_Data = [],
    cm_ResourceVersion = 0, cm_Owner = None\<rparr>"
  have wr: "write_configmap k w ?cm ow = (w', None)" using assms(2) unfolding saveRaw_def Let_def .
  show "\<exists>c. kget k w' cmName = Inr c \<and> decode c = Inr (reload tj st) \<and>
      cm_Annotations c = fold (\<lambda>(a, v). mput a v) annotations [(FormatAnnotation, Text FormatPerImageSet)]"
    using write_configmap_ok(1) [OF assms(1) wr] by (auto intro: decode_saved)
  show "n \<noteq> cmName \<Longrightarrow> kget k w' n = kget k w n"
    using write_configmap_ok(2) [OF assms(1) wr] by simp
qed

lemma Save_ok:
  assumes "kube_ok k" and "Save tj k w isName st ow = (w', None)"
  shows "Load k w' isName = Inr (reload tj st)"
    and "n \<noteq> ConfigMapName isName \<Longrightarrow> kget k w' n = kget k w n"
proof -
  have sv: "saveRaw tj k w (ConfigMapName isName) st [] ow = (w', None)"
    using assms(2) by (simp add: Save_def SaveRaw_def)
  show "Load k w' isName = Inr (reload tj st)"
    using saveRaw_ok(1) [OF assms(1) sv] by (auto simp: Load_def LoadByConfigMapName_def)
  show "n \<noteq> ConfigMapName isName \<Longrightarrow> kget k w' n = kget k w n"
    by (rule saveRaw_ok(2) [OF assms(1) sv])
qed

lemma SaveIndex_ok:
  assumes "kube_ok k" and "SaveIndex k w mtName idx ow = (w', None)"
  shows "LoadIndex k w' mtName = Inr idx"
    and "n \<noteq> IndexConfigMapName mtName \<Longrightarrow> kget k w' n = kget k w n"
proof -
  have "LoadIndex k w' mtName = Inr idx \<and> (\<forall>n. n \<noteq> IndexConfigMapName mtName \<longrightarrow> kget k w' n = kget k w n)"
  proof (cases "idx = []")
    case True
    with assms(2) obtain e where "kdelete k w (IndexConfigMapName mtName) = (w', e)" "e = None \<or> e = Some NotFound"
      by (auto simp: SaveIndex_def Let_def split: prod.splits option.splits kube_error.splits)
    with kube_ok_delete [OF assms(1)] True show ?thesis by (auto simp: LoadIndex_def)
  next
    case False
    let ?cm = "\<lparr>cm_Name = IndexConfigMapName mtName, cm_Annotations = [],
      cm_BinaryData = [(''index.json.gz'', GzipJSON (encodeIndex idx))], cm_Data = [],
      cm_ResourceVersion = 0, cm_Owner = None\<rparr>"
    have wr: "write_configmap k w ?cm ow = (w', None)" using assms(2) False by (simp add: SaveIndex_def)
    show ?thesis
      using write_configmap_ok(1) [OF assms(1) wr] write_configmap_ok(2) [OF assms(1) wr]
      by (auto simp: LoadIndex_def decodeIndex_def decodeGzipJSON_def index_doc.dec_enc)
  qed
  then show "LoadIndex k w' mtName = Inr idx" and "n \<noteq> IndexConfigMapName mtName \<Longrightarrow> kget k w' n = kget k w n"
    by auto
qed

text \<open>An in-memory API server, used where a property is evaluated on concrete data.\<close>

definition mem_write :: "(string, configmap) gomap \<Rightarrow> configmap \<Rightarrow> (string, configmap) gomap \<times> kube_error option" where
  "mem_write w cm = (mput (cm_Name cm) (cm\<lparr>cm_ResourceVersion := Suc (cm_ResourceVersion cm)\<rparr>) w, None)"

definition mem_get :: "(string, configmap) gomap \<Rightarrow> string \<Rightarrow> kube_error + configmap" where
  "mem_get w n = (case mget w n of
     None \<Rightarrow> Inl NotFound
   | Some cm \<Rightarrow> if cm_Name cm = n then Inr cm else Inl (APIError ''name''))"

definition mem_delete :: "(string, configmap) gomap \<Rightarrow> string \<Rightarrow> (string, configmap) gomap \<times> kube_error option" where
  "mem_delete w n = (mdel n w, if mget w n = None then Some NotFound else None)"

definition mem_kube :: "(string, configmap) gomap kube" where
  "mem_kube = \<lparr>kget = mem_get, kcreate = mem_write, kupdate = mem_write, kdelete = mem_delete\<rparr>"

lemma mem_kube_ok: "kube_ok mem_kube"
  by (auto simp: kube_ok_def mem_kube_def mem_write_def mem_get_def mem_delete_def stored_def
      split: option.splits if_splits)

text \<open>
  Entries and the catalog digests they were resolved from are stored in one
  ConfigMap write: after a successful save, a load returns exactly that pair (times rounded as
  their JSON form rounds them), and no other ConfigMap has changed.
\<close>

lemma SaveWithCatalogDigests_ok:
  assumes "kube_ok k" and "SaveWithCatalogDigests tj k w isName st digests ow = (w', None)"
  shows "LoadWithCatalogDigests k w' isName = Inr (reload tj st, digests) \<and>
    (\<forall>n. n \<noteq> ConfigMapName isName \<longrightarrow> kget k w' n = kget k w n)"
proof -
  let ?a = "if length digests > 0 then [(CatalogDigestsAnnotation, JSON (DStrings digests))] else []"
  have sv: "saveRaw tj k w (ConfigMapName isName) st ?a ow = (w', None)"
    using assms(2) by (simp add: SaveWithCatalogDigests_def)
  from saveRaw_ok(1) [OF assms(1) sv] obtain c where "kget k w' (ConfigMapName isName) = Inr c"
    and "decode c = Inr (reload tj st)"
    and "mget (cm_Annotations c) CatalogDigestsAnnotation =
      (if digests = [] then None else Some (JSON (DStrings digests)))"
    by auto
  then show ?thesis
    using saveRaw_ok(2) [OF assms(1) sv] by (simp add: LoadWithCatalogDigests_def)
qed

section \<open>Decimal round trip and the summary\<close>

lemma of_char_digit: "d < 10 \<Longrightarrow> of_char (digit_char d) = (48 + d :: nat)"
  by (simp add: digit_char_def)

lemma parse_digits_append:
  "parse_digits (xs @ ys) acc = Option.bind (parse_digits xs acc) (parse_digits ys)"
  by (induction xs arbitrary: acc) (auto simp: Let_def)

lemma parse_nat_digits: "parse_digits (nat_digits n) 0 = Some n"
proof (induction n rule: nat_digits.induct)
  case (1 n)
  show ?case
  proof (cases "n < 10")
    case True
    then show ?thesis by (simp add: nat_digits.simps [of n] of_char_digit)
  next
    case False
    with "1.IH" show ?thesis
      by (simp add: nat_digits.simps [of n] parse_digits_append of_char_digit)
  qed
qed

lemma nat_digits_ne: "nat_digits n \<noteq> []"
  by (subst nat_digits.simps) simp

lemma nat_digits_chars: "c \<in> set (nat_digits n) \<Longrightarrow> 48 \<le> (of_char c :: nat) \<and> (of_char c :: nat) \<le> 57"
proof (induction n rule: nat_digits.induct)
  case (1 n)
  then show ?case
    by (cases "n < 10") (auto simp: nat_digits.simps [of n] of_char_digit)
qed

lemma Atoi_nat_digits:
  "nat_digits n = c # cs \<Longrightarrow> c \<noteq> CHR ''-'' \<and> c \<noteq> CHR ''+''"
  using nat_digits_chars [of c n] by auto

lemma Atoi_Itoa:
  assumes "- (2 ^ 63) \<le> i" and "i < 2 ^ 63"
  shows "Atoi (Itoa i) = Some i"
proof (cases "i < 0")
  case True
  with assms show ?thesis
    by (simp add: Itoa_def Atoi_def parse_unsigned_def nat_digits_ne parse_nat_digits)
next
  case False
  obtain c cs where ccs: "nat_digits (nat i) = c # cs" by (cases "nat_digits (nat i)") (auto simp: nat_digits_ne)
  with Atoi_nat_digits [OF ccs] parse_nat_digits [of "nat i"] False assms show ?thesis
    by (simp add: Itoa_def Atoi_def parse_unsigned_def)
qed

interpretation decimal: codec Itoa Atoi "\<lambda>i. i" "\<lambda>i. - (2 ^ 63) \<le> i \<and> i < 2 ^ 63"
  by unfold_locales (simp add: Atoi_Itoa)

text \<open>A summary as the manager writes it: counts in the range of a Go \<open>int\<close>, ImageSet names that are
  non-empty and (being Kubernetes names) hold no comma.\<close>

definition wf_summary :: "summary \<Rightarrow> bool" where
  "wf_summary s \<longleftrightarrow>
     (\<forall>n \<in> set (sm_ImageSets s). n \<noteq> [] \<and> CHR '','' \<notin> set n) \<and>
     (\<forall>i \<in> {sm_Total s, sm_Mirrored s, sm_Pending s, sm_Failed s}. - (2 ^ 63) \<le> i \<and> i < 2 ^ 63)"

lemma summary_names:
  assumes "wf_summary s"
  shows "(if str_join '','' (sm_ImageSets s) \<noteq> [] then split_char (CHR '','') (str_join '','' (sm_ImageSets s)) else [])
    = sm_ImageSets s"
proof -
  have "[] \<notin> set (sm_ImageSets s)" using assms by (auto simp: wf_summary_def)
  then have "str_join '','' (sm_ImageSets s) = [] \<longleftrightarrow> sm_ImageSets s = []" by (rule str_join_Nil_iff)
  moreover have "sm_ImageSets s \<noteq> [] \<Longrightarrow> split_char (CHR '','') (str_join '','' (sm_ImageSets s)) = sm_ImageSets s"
    using assms by (intro split_join) (auto simp: wf_summary_def)
  ultimately show ?thesis by auto
qed

lemma LoadSummary_data:
  assumes "kget k w (SummaryConfigMapName mtName) = Inr c"
    and "\<And>key. mget (cm_Data c) key = mget (summary_data s) key" and "wf_summary s"
  shows "LoadSummary k w mtName = Inr (Some s)"
proof -
  have ints: "data_int (cm_Data c) ''total'' = Some (sm_Total s)"
    "data_int (cm_Data c) ''mirrored'' = Some (sm_Mirrored s)"
    "data_int (cm_Data c) ''pending'' = Some (sm_Pending s)"
    "data_int (cm_Data c) ''failed'' = Some (sm_Failed s)"
    using assms by (auto simp: data_int_def mget_default_def summary_data_def wf_summary_def Atoi_Itoa)
  have "mget (cm_Data c) ''imageSets'' = Some (Text (str_join '','' (sm_ImageSets s)))"
    using assms(2) by (simp add: summary_data_def)
  with assms(1) ints summary_names [OF assms(3)] show ?thesis
    by (simp add: LoadSummary_def)
qed

lemma maps_equal_mget:
  assumes "maps_equal a b" and "wf_map a" and "wf_map b"
  shows "mget a key = mget b key"
proof (cases "mget a key")
  case (Some v)
  then have "(key, v) \<in> set a" by (rule mget_Some_in)
  with assms(1) Some show ?thesis by (auto simp: maps_equal_def)
next
  case None
  have "set (mkeys a) \<subseteq> set (mkeys b)"
    using assms(1) by (fastforce simp: maps_equal_def dest: mget_Some_in)
  moreover have "card (set (mkeys a)) = card (set (mkeys b))"
    using assms distinct_card [of "mkeys a"] distinct_card [of "mkeys b"]
    by (simp only: maps_equal_def wf_map_def length_map)
  ultimately have "set (mkeys a) = set (mkeys b)" by (simp add: card_subset_eq)
  with None show ?thesis by (metis mget_None_iff)
qed

lemma wf_summary_data: "wf_map (summary_data s)"
  by (simp add: summary_data_def wf_map_def)

text \<open>
  The summary the manager writes is the summary the controller reads, also when the
  write is skipped because the ConfigMap already holds the same data.
\<close>

theorem SaveSummary_roundtrip:
  assumes "kube_ok k" and "wf_summary s"
    and "\<And>cm. kget k w (SummaryConfigMapName mtName) = Inr cm \<Longrightarrow> wf_map (cm_Data cm)"
    and "SaveSummary k w mtName s ow = (w', None)"
  shows "LoadSummary k w' mtName = Inr (Some s)"
proof (cases "kget k w (SummaryConfigMapName mtName)")
  case (Inl e)
  with assms(4) obtain cm where cm: "with_owner ow \<lparr>cm_Name = SummaryConfigMapName mtName, cm_Annotations = [],
      cm_BinaryData = [], cm_Data = summary_data s, cm_ResourceVersion = 0, cm_Owner = None\<rparr> = Inr cm"
    and "kcreate k w cm = (w', None)"
    by (auto simp: SaveSummary_def Let_def split: kube_error.splits sum.splits prod.splits)
  with assms(1) have "stored k w w' cm" by (simp add: kube_ok_create)
  with with_owner_fields [OF cm] obtain c where "kget k w' (SummaryConfigMapName mtName) = Inr c"
    and "cm_Data c = summary_data s"
    by (auto simp: stored_def)
  with assms(2) show ?thesis by (simp add: LoadSummary_data)
next
  case (Inr existing)
  show ?thesis
  proof (cases "maps_equal (cm_Data existing) (summary_data s)")
    case True
    with Inr assms(4) have "w' = w" by (simp add: SaveSummary_def)
    with Inr assms True show ?thesis
      by (simp add: LoadSummary_data maps_equal_mget wf_summary_data)
  next
    case False
    with Inr assms(4) have "kupdate k w (existing\<lparr>cm_Data := summary_data s\<rparr>) = (w', None)"
      by (auto simp: SaveSummary_def Let_def split: prod.splits)
    with assms(1) have "stored k w w' (existing\<lparr>cm_Data := summary_data s\<rparr>)" by (rule kube_ok_update)
    moreover have "cm_Name existing = SummaryConfigMapName mtName"
      using Inr assms(1) by (auto simp: kube_ok_def)
    ultimately obtain c where "kget k w' (SummaryConfigMapName mtName) = Inr c" and "cm_Data c = summary_data s"
      by (auto simp: stored_def)
    with assms(2) show ?thesis by (simp add: LoadSummary_data)
  qed
qed

theorem SaveSummary_witness:
  "LoadSummary mem_kube (fst (SaveSummary mem_kube [] ''mt''
       \<lparr>sm_ImageSets = [''a'', ''b''], sm_Total = 12, sm_Mirrored = 10, sm_Pending = 2, sm_Failed = 0\<rparr> (Owner ''mt''))) ''mt''
   = Inr (Some \<lparr>sm_ImageSets = [''a'', ''b''], sm_Total = 12, sm_Mirrored = 10, sm_Pending = 2, sm_Failed = 0\<rparr>)"
  by (rule SaveSummary_roundtrip [OF mem_kube_ok, where w = "[]" and ow = "Owner ''mt''"])
    (simp_all add: wf_summary_def SaveSummary_def Let_def with_owner_def mem_kube_def mem_get_def mem_write_def)

section \<open>Migration keeps every referenced entry\<close>

lemma add_ref_lookup:
  "mget (mget_list (add_ref d e r per) isName) x =
     (if x = d \<and> isName = lr_ImageSet r then Some (Some (migrated_entry e r)) else mget (mget_list per isName) x)"
  by (simp add: add_ref_def)

lemma fold_add_ref_other:
  "x \<noteq> d \<or> isName \<notin> lr_ImageSet ` set refs \<Longrightarrow>
     mget (mget_list (fold (add_ref d e) refs per) isName) x = mget (mget_list per isName) x"
  by (induction refs arbitrary: per) (auto simp: add_ref_lookup)

lemma fold_add_ref_at:
  assumes "distinct (map lr_ImageSet refs)" and "r \<in> set refs"
  shows "mget (mget_list (fold (add_ref d e) refs per) (lr_ImageSet r)) d = Some (Some (migrated_entry e r))"
  using assms
proof (induction refs arbitrary: per)
  case (Cons q refs)
  show ?case
  proof (cases "r = q")
    case True
    with Cons.prems have "lr_ImageSet r \<notin> lr_ImageSet ` set refs" by simp
    with True show ?thesis by (simp add: fold_add_ref_other add_ref_lookup)
  next
    case False
    with Cons show ?thesis by simp
  qed
qed simp

lemma fold_add_ref_local:
  "(\<And>isName. mget (mget_list per isName) d = mget (mget_list per' isName) d) \<Longrightarrow>
     mget (mget_list (fold (add_ref d e) refs per) isName) d = mget (mget_list (fold (add_ref d e) refs per') isName) d"
  by (induction refs arbitrary: per per') (auto simp: add_ref_lookup)

definition split_obs ::
  "(string, loaded_state) gomap \<times> shared_index \<Rightarrow> string \<Rightarrow> (string \<Rightarrow> image_entry option option) \<times> string list option" where
  "split_obs s d = (\<lambda>isName. mget (mget_list (fst s) isName) d, mget (snd s) d)"

interpretation split_loop: range_loop split_entry split_obs
proof
  fix d x :: string and v s
  assume "x \<noteq> d"
  then show "split_obs (split_entry (d, v) s) x = split_obs s x"
    by (auto simp: split_obs_def split_entry_def fold_add_ref_other split: option.splits prod.splits)
next
  fix d v and s s' :: "(string, loaded_state) gomap \<times> shared_index"
  assume same: "split_obs s d = split_obs s' d"
  obtain per index per' index' where s: "s = (per, index)" "s' = (per', index')" by (metis surj_pair)
  have per: "mget (mget_list per isName) d = mget (mget_list per' isName) d" for isName
    using same s by (auto simp: split_obs_def dest: fun_cong)
  have index: "mget index d = mget index' d" using same s by (simp add: split_obs_def)
  show "split_obs (split_entry (d, v) s) d = split_obs (split_entry (d, v) s') d"
  proof (cases v)
    case None
    with same s show ?thesis by (simp add: split_entry_def)
  next
    case (Some e)
    have "mget (mget_list (fold (add_ref d e) (lg_Refs e) per) isName) d
        = mget (mget_list (fold (add_ref d e) (lg_Refs e) per') isName) d" for isName
      by (rule fold_add_ref_local) (rule per)
    with Some s per index show ?thesis by (simp add: split_obs_def split_entry_def)
  qed
qed

lemma split_consolidated_entry:
  assumes "wf_map consolidated" and "mget consolidated d = Some (Some e)"
    and "distinct (map lr_ImageSet (lg_Refs e))" and "r \<in> set (lg_Refs e)"
  shows "mget (mget_list (fst (split_consolidated consolidated)) (lr_ImageSet r)) d = Some (Some (migrated_entry e r))"
proof -
  have "split_obs (split_consolidated consolidated) d = split_obs (split_entry (d, Some e) ([], [])) d"
    unfolding split_consolidated_def using split_loop.loop_at assms(1,2) .
  then have "mget (mget_list (fst (split_consolidated consolidated)) (lr_ImageSet r)) d
      = mget (mget_list (fst (split_entry (d, Some e) ([], []))) (lr_ImageSet r)) d"
    by (auto simp: split_obs_def dest: fun_cong)
  with assms(3,4) show ?thesis by (auto simp: split_entry_def fold_add_ref_at)
qed

lemma wf_add_ref: "wf_map per \<Longrightarrow> wf_map (fold (add_ref d e) refs per)"
  by (induction refs arbitrary: per) (auto simp: add_ref_def)

lemma wf_split_entry: "wf_map (fst acc) \<Longrightarrow> wf_map (fst (split_entry de acc))"
  by (auto simp: split_entry_def wf_add_ref split: prod.splits option.splits)

lemma wf_split_consolidated: "wf_map (fst (split_consolidated consolidated))"
proof -
  have "wf_map (fst acc) \<Longrightarrow> wf_map (fst (fold split_entry c acc))" for c acc
    by (induction c arbitrary: acc) (auto simp: wf_split_entry)
  then show ?thesis by (simp add: split_consolidated_def)
qed

lemma save_all_other:
  "kube_ok k \<Longrightarrow> save_all tj k ow per w = (w', None) \<Longrightarrow> n \<notin> ConfigMapName ` set (mkeys per) \<Longrightarrow>
     kget k w' n = kget k w n"
proof (induction per arbitrary: w)
  case (Cons x per)
  obtain isName st where x: "x = (isName, st)" by force
  with Cons.prems obtain w1 where "Save tj k w isName st ow = (w1, None)" and "save_all tj k ow per w1 = (w', None)"
    by (auto split: prod.splits option.splits)
  with Cons x Save_ok(2) [OF Cons.prems(1)] show ?case by auto
qed simp

lemma save_all_loads:
  "kube_ok k \<Longrightarrow> save_all tj k ow per w = (w', None) \<Longrightarrow> wf_map per \<Longrightarrow> mget per isName = Some st \<Longrightarrow>
     Load k w' isName = Inr (reload tj st)"
proof (induction per arbitrary: w)
  case (Cons x per)
  obtain n s where x: "x = (n, s)" by force
  with Cons.prems obtain w1 where sv: "Save tj k w n s ow = (w1, None)" and rest: "save_all tj k ow per w1 = (w', None)"
    by (auto split: prod.splits option.splits)
  show ?case
  proof (cases "n = isName")
    case True
    with Cons.prems x have "isName \<notin> set (mkeys per)" by simp
    then have "ConfigMapName isName \<notin> ConfigMapName ` set (mkeys per)" by (metis ConfigMapName_inject imageE)
    with save_all_other [OF Cons.prems(1) rest] have "Load k w' isName = Load k w1 isName"
      by (simp add: Load_def LoadByConfigMapName_def)
    with True x Cons.prems Save_ok(1) [OF Cons.prems(1) sv] show ?thesis by simp
  next
    case False
    with Cons.prems x rest show ?thesis by (intro Cons.IH [OF _ rest]) auto
  qed
qed simp

lemma reload_migrated: "mget st d = Some (Some (migrated_entry e r)) \<Longrightarrow> mget (reload tj st) d = Some (Some (migrated_entry e r))"
  by (simp add: reload_def mget_map_snd [where f = "\<lambda>_. map_option (json_of_entry tj)"])
    (simp add: json_of_entry_def migrated_entry_def zero_entry_def)

lemma write_migrated_loads:
  assumes "kube_ok k" and "write_migrated tj k mtName ow (per, index) w = (w', None)"
    and "wf_map per" and "mget per isName = Some st"
  shows "Load k w' isName = Inr (reload tj st)"
proof -
  obtain w1 w2 where w1: "save_all tj k ow per w = (w1, None)"
    and w2: "(if length index > 0 then SaveIndex k w1 mtName index ow else (w1, None)) = (w2, None)"
    and w3: "if mget per mtName \<noteq> None then w2 = w'
      else \<exists>e. kdelete k w2 (ConfigMapNameForTarget mtName) = (w', e) \<and> (e = None \<or> e = Some NotFound)"
    using assms(2)
    by (auto simp: write_migrated_def split: prod.splits option.splits if_splits kube_error.splits)
  have "kget k w2 (ConfigMapName isName) = kget k w1 (ConfigMapName isName)"
    using w2 SaveIndex_ok(2) [OF assms(1)] ConfigMap_names_disjoint [of isName mtName mtName isName]
    by (auto split: if_splits)
  moreover have "kget k w' (ConfigMapName isName) = kget k w2 (ConfigMapName isName)"
  proof (cases "mget per mtName = None")
    case True
    then have "isName \<noteq> mtName" using assms(4) by auto
    then have "ConfigMapName isName \<noteq> ConfigMapNameForTarget mtName"
      by (simp add: ConfigMapName_def ConfigMapNameForTarget_def)
    with True w3 kube_ok_delete [OF assms(1)] show ?thesis by auto
  next
    case False
    with w3 show ?thesis by simp
  qed
  ultimately have "Load k w' isName = Load k w1 isName" by (simp add: Load_def LoadByConfigMapName_def)
  with save_all_loads [OF assms(1) w1 assms(3,4)] show ?thesis by simp
qed

text \<open>
  Property C36. A successful migration of the consolidated state loses no image: for every entry
  and every ImageSet that references it, the state loaded for that ImageSet afterwards holds the
  entry with its lifecycle fields and that reference's own origin data. This includes an ImageSet
  that has the same name as the MirrorTarget, whose state ConfigMap is the migrated one.
\<close>

theorem Migrate_keeps_references:
  assumes "kube_ok k" and "kget k w (ConfigMapNameForTarget mtName) = Inr cm"
    and "mget_default (Text []) (cm_Annotations cm) FormatAnnotation = Text []"
    and "decodeGzipJSON legacy_of_doc cm ''images.json.gz'' ''images.json'' = Inr consolidated"
    and "wf_map consolidated" and "mget consolidated dest = Some (Some e)"
    and "distinct (map lr_ImageSet (lg_Refs e))" and "r \<in> set (lg_Refs e)"
    and "MigrateConsolidatedToPerImageSet tj k w mtName ow = (w', None)"
  shows "\<exists>st. Load k w' (lr_ImageSet r) = Inr st \<and> mget st dest = Some (Some (migrated_entry e r))"
proof -
  obtain per index where split: "split_consolidated consolidated = (per, index)" by force
  have legacy: "looksLegacy c cur" if "mget c dest = Some (Some e)" for c cur
    using that assms(8) by (induction c cur rule: looksLegacy.induct) (auto split: if_splits)
  have wm: "write_migrated tj k mtName ow (per, index) w = (w', None)"
    using assms(2-4,6,9) legacy split by (simp add: MigrateConsolidatedToPerImageSet_def)
  have entry: "mget (mget_list per (lr_ImageSet r)) dest = Some (Some (migrated_entry e r))"
    using split_consolidated_entry [OF assms(5-8)] split by simp
  then obtain st where st: "mget per (lr_ImageSet r) = Some st"
    by (auto simp: mget_default_def split: option.splits)
  have "wf_map per" using wf_split_consolidated [of consolidated] split by simp
  then have "Load k w' (lr_ImageSet r) = Inr (reload tj st)"
    using write_migrated_loads [OF assms(1) wm] st by simp
  moreover have "mget (reload tj st) dest = Some (Some (migrated_entry e r))"
    using entry st by (intro reload_migrated) (simp add: mget_default_def)
  ultimately show ?thesis by blast
qed

definition legacy_cm :: configmap where
  "legacy_cm = \<lparr>cm_Name = ''mt-images'', cm_Annotations = [],
     cm_BinaryData = [(''images.json.gz'', GzipJSON (DState
       [(''r/a:1'', Some (zero_entry\<lparr>State := stateMirrored\<rparr>,
          [\<lparr>lr_ImageSet = ''x'', lr_Origin = ''operator'', lr_EntrySig = ''s1'', lr_OriginRef = ''c''\<rparr>,
           \<lparr>lr_ImageSet = ''mt'', lr_Origin = ''release'', lr_EntrySig = ''s2'', lr_OriginRef = ''d''\<rparr>]))]))],
     cm_Data = [], cm_ResourceVersion = 1, cm_Owner = None\<rparr>"

text \<open>
  A state ConfigMap in the current format is never migrated or deleted, also when the
  MirrorTarget carries the name of one of its ImageSets.
\<close>

theorem Migrate_current_untouched:
  assumes "kget k w (ConfigMapNameForTarget mtName) = Inr cm"
    and "mget (cm_Annotations cm) FormatAnnotation = Some (Text FormatPerImageSet)"
  shows "MigrateConsolidatedToPerImageSet tj k w mtName ow = (w, None)"
  using assms by (simp add: MigrateConsolidatedToPerImageSet_def mget_default_def)

theorem Migrate_current_untouched_witness:
  "MigrateConsolidatedToPerImageSet (\<lambda>t. t) mem_kube
     (fst (Save (\<lambda>t. t) mem_kube [] ''mt'' [(''r/a:1'', Some zero_entry)] NoOwner)) ''mt'' NoOwner
   = (fst (Save (\<lambda>t. t) mem_kube [] ''mt'' [(''r/a:1'', Some zero_entry)] NoOwner), None)"
  by (rule Migrate_current_untouched
        [where cm = "\<lparr>cm_Name = ''mt-images'', cm_Annotations = [(FormatAnnotation, Text FormatPerImageSet)],
          cm_BinaryData = [(''images.json.gz'', GzipJSON (encode (\<lambda>t. t) [(''r/a:1'', Some zero_entry)]))], cm_Data = [],
          cm_ResourceVersion = 1, cm_Owner = None\<rparr>"])
    (simp_all add: Save_def SaveRaw_def saveRaw_def write_configmap_def with_owner_def mem_kube_def
      mem_get_def mem_write_def ConfigMapNameForTarget_def ConfigMapName_def)

theorem Migrate_keeps_references_witness:
  "\<exists>st. Load mem_kube (fst (MigrateConsolidatedToPerImageSet (\<lambda>t. t) mem_kube [(''mt-images'', legacy_cm)] ''mt'' NoOwner)) ''mt'' = Inr st
     \<and> mget st ''r/a:1'' = Some (Some (zero_entry\<lparr>State := stateMirrored, Origin := ''release'', EntrySig := ''s2'', OriginRef := ''d''\<rparr>))"
proof -
  let ?e = "legacy_of_json (zero_entry\<lparr>State := stateMirrored\<rparr>,
          [\<lparr>lr_ImageSet = ''x'', lr_Origin = ''operator'', lr_EntrySig = ''s1'', lr_OriginRef = ''c''\<rparr>,
           \<lparr>lr_ImageSet = ''mt'', lr_Origin = ''release'', lr_EntrySig = ''s2'', lr_OriginRef = ''d''\<rparr>])"
  let ?r = "\<lparr>lr_ImageSet = ''mt'', lr_Origin = ''release'', lr_EntrySig = ''s2'', lr_OriginRef = ''d''\<rparr>"
  let ?w = "[(''mt-images'', legacy_cm)]"
  let ?m = "MigrateConsolidatedToPerImageSet (\<lambda>t. t) mem_kube ?w ''mt'' NoOwner"
  have "snd ?m = None" by code_simp
  then have m: "?m = (fst ?m, None)" by (metis prod.collapse)
  have "\<exists>st. Load mem_kube (fst ?m) (lr_ImageSet ?r) = Inr st \<and> mget st ''r/a:1'' = Some (Some (migrated_entry ?e ?r))"
    by (rule Migrate_keeps_references [OF mem_kube_ok _ _ _ _ _ _ _ m, where cm = legacy_cm and consolidated = "[(''r/a:1'', Some ?e)]"])
      (simp_all add: mem_kube_def mem_get_def legacy_cm_def ConfigMapNameForTarget_def decodeGzipJSON_def
        legacy_of_doc_def legacy_of_json_def)
  moreover have "migrated_entry ?e ?r =
      zero_entry\<lparr>State := stateMirrored, Origin := ''release'', EntrySig := ''s2'', OriginRef := ''d''\<rparr>"
    by (simp add: migrated_entry_def legacy_of_json_def zero_entry_def)
  ultimately show ?thesis by simp
qed

end
