(* ===== verification/ImageRef.thy ===== *)
theory ImageRef
  imports Prelude
begin

text \<open>
  Image references: how \<open>pkg/mirror/collector.go\<close> splits a reference into repository path, tag
  and digest, matches it against blocked images, and builds the destination of a mirrored
  image; \<open>destinationDigest\<close> and \<open>extractDigest\<close> of the manager, which read a digest back out
  of such references; and the chart references of \<open>pkg/mirror/helm_source.go\<close>.

  The lemmas print a reference from its parts (\<open>image_ref\<close>) and show that the splitting
  functions recover the parts, so the other theories can reason about parts.
\<close>

section \<open>Splitting a reference\<close>

definition splitDigest :: "string \<Rightarrow> string \<times> string" where
  "splitDigest r = (case str_index r ''@'' of
     Some i \<Rightarrow> (take i r, drop (i + 1) r)
   | None \<Rightarrow> (r, []))"

definition splitTag :: "string \<Rightarrow> string \<times> string" where
  "splitTag r = (case last_index r '':'' of
     Some i \<Rightarrow> if \<not> contains (drop (i + 1) r) ''/'' then (take i r, drop (i + 1) r) else (r, [])
   | None \<Rightarrow> (r, []))"

definition stripHost :: "string \<Rightarrow> string" where
  "stripHost path = (case splitN2 path ''/'' of
     [first, rest] \<Rightarrow> if contains first ''.'' \<or> contains first '':'' then rest else path
   | _ \<Rightarrow> path)"

definition splitImageRef :: "string \<Rightarrow> string \<times> string \<times> string" where
  "splitImageRef img =
     (let (r, digest) = splitDigest img;
          (path, tag) = splitTag r
      in (stripHost path, tag, digest))"

definition ImageNamePath :: "string \<Rightarrow> string" where
  "ImageNamePath img = (case splitImageRef img of (path, _, _) \<Rightarrow> path)"

definition stripTagOrDigest :: "string \<Rightarrow> string" where
  "stripTagOrDigest r = fst (splitTag (fst (splitDigest r)))"

section \<open>Blocked images\<close>

definition ImageBlocked :: "string \<Rightarrow> string \<Rightarrow> bool" where
  "ImageBlocked source blockedName =
     (let (sPath, sTag, sDigest) = splitImageRef source;
          (bPath, bTag, bDigest) = splitImageRef blockedName
      in if sPath \<noteq> bPath then False
         else if bDigest \<noteq> [] then sDigest = bDigest
         else if bTag \<noteq> [] then sTag = bTag
         else True)"

fun imageMatchesAnyBlocked :: "string \<Rightarrow> string list \<Rightarrow> bool" where
  "imageMatchesAnyBlocked source [] = False"
| "imageMatchesAnyBlocked source (b # bs) =
     (if ImageBlocked source b then True else imageMatchesAnyBlocked source bs)"

section \<open>Destinations\<close>

abbreviation releaseImageRepo :: string where
  "releaseImageRepo \<equiv> ''openshift/release-images''"

abbreviation releaseComponentRepo :: string where
  "releaseComponentRepo \<equiv> ''openshift/release''"

abbreviation kubeVirtComponentName :: string where
  "kubeVirtComponentName \<equiv> ''kube-virt-container''"

definition releaseArchName :: "string \<Rightarrow> string" where
  "releaseArchName arch =
     (if arch = ''amd64'' then ''x86_64'' else if arch = ''arm64'' then ''aarch64'' else arch)"

definition releaseTagFor :: "string \<Rightarrow> string \<Rightarrow> string" where
  "releaseTagFor version arch =
     (if version = [] then ''latest'' else version @ ''-'' @ releaseArchName arch)"

definition releasePayloadDestination :: "string \<Rightarrow> string \<Rightarrow> string" where
  "releasePayloadDestination registry releaseTag =
     registry @ ''/'' @ releaseImageRepo @ '':'' @ releaseTag"

definition ComponentDestination :: "string \<Rightarrow> string \<Rightarrow> string" where
  "ComponentDestination registry img =
     (let namePath = ImageNamePath img
      in case str_index img ''@sha256:'' of
           Some idx \<Rightarrow> registry @ ''/'' @ namePath @ '':'' @ ''sha256-'' @ drop (idx + 8) img
         | None \<Rightarrow> registry @ ''/'' @ namePath)"

definition releaseComponentDestination :: "string \<Rightarrow> string \<Rightarrow> string \<Rightarrow> string \<Rightarrow> string" where
  "releaseComponentDestination registry releaseTag name img =
     (if name = [] then ComponentDestination registry img
      else registry @ ''/'' @ releaseComponentRepo @ '':'' @ releaseTag @ ''-'' @ name)"

section \<open>Digests read back out of references\<close>

definition destinationDigest :: "string \<Rightarrow> string" where
  "destinationDigest dest =
     (case str_index dest ''@sha256:'' of
        Some idx \<Rightarrow> drop (idx + 1) dest
      | None \<Rightarrow>
          (case last_index dest '':sha256-'' of
             Some idx \<Rightarrow> ''sha256:'' @ drop (idx + length '':sha256-'') dest
           | None \<Rightarrow> []))"

definition extractDigest :: "string \<Rightarrow> string" where
  "extractDigest imageRef =
     (case str_index imageRef ''@sha256:'' of None \<Rightarrow> [] | Some idx \<Rightarrow> drop (idx + 1) imageRef)"

section \<open>References printed from their parts\<close>

text \<open>
  A reference is \<open>[host/]path[:tag][@digest]\<close>. \<open>wf_ref\<close> states what makes the parts
  recognisable: a host carries a dot or a colon, a path and a tag carry no delimiter.
\<close>

definition image_ref :: "string \<Rightarrow> string \<Rightarrow> string \<Rightarrow> string \<Rightarrow> string" where
  "image_ref host path tag digest =
     (if host = [] then [] else host @ ''/'') @ path
     @ (if tag = [] then [] else '':'' @ tag)
     @ (if digest = [] then [] else ''@'' @ digest)"

definition wf_ref :: "string \<Rightarrow> string \<Rightarrow> string \<Rightarrow> bool" where
  "wf_ref host path tag \<longleftrightarrow>
     (if host = [] then CHR ''/'' \<notin> set path \<or> CHR ''.'' \<notin> set (takeWhile (\<lambda>c. c \<noteq> CHR ''/'') path)
      else CHR ''/'' \<notin> set host \<and> CHR ''@'' \<notin> set host \<and> (CHR ''.'' \<in> set host \<or> CHR '':'' \<in> set host))
     \<and> CHR '':'' \<notin> set path \<and> CHR ''@'' \<notin> set path
     \<and> CHR '':'' \<notin> set tag \<and> CHR ''/'' \<notin> set tag \<and> CHR ''@'' \<notin> set tag"

definition host_path :: "string \<Rightarrow> string \<Rightarrow> string" where
  "host_path host path = (if host = [] then [] else host @ ''/'') @ path"

lemma splitDigest_print:
  "CHR ''@'' \<notin> set r \<Longrightarrow> splitDigest (r @ (if d = [] then [] else ''@'' @ d)) = (r, d)"
  by (auto simp: splitDigest_def str_index_char str_index_absent)

lemma last_index_in: "c \<in> set s \<Longrightarrow> \<exists>a b. s = a @ c # b \<and> c \<notin> set b \<and> last_index s [c] = Some (length a)"
  by (metis split_list_last last_index_char)

lemma splitTag_none:
  assumes "CHR '':'' \<in> set r \<Longrightarrow> \<exists>a b. r = a @ CHR ''/'' # b \<and> CHR '':'' \<notin> set b"
  shows "splitTag r = (r, [])"
proof (cases "CHR '':'' \<in> set r")
  case False
  then show ?thesis by (simp add: splitTag_def last_index_absent)
next
  case True
  then obtain a b where r: "r = a @ CHR ''/'' # b" and b: "CHR '':'' \<notin> set b" using assms by blast
  from True obtain x y where xy: "r = x @ CHR '':'' # y" "CHR '':'' \<notin> set y"
    and li: "last_index r '':'' = Some (length x)" using last_index_in by metis
  have "CHR '':'' \<in> set a" using True r b by auto
  then obtain a1 a2 where a: "a = a1 @ CHR '':'' # a2" "CHR '':'' \<notin> set a2"
    using split_list_last by metis
  have "last_index r '':'' = Some (length a1)"
    using r a b last_index_char [of "CHR '':''" "a2 @ CHR ''/'' # b" a1] by simp
  then have "length x = length a1" using li by simp
  then have "drop (length x + 1) r = a2 @ CHR ''/'' # b" using r a by simp
  then show ?thesis using li by (simp add: splitTag_def)
qed

lemma splitTag_print:
  assumes "wf_ref host path tag"
  shows "splitTag (host_path host path @ (if tag = [] then [] else '':'' @ tag)) = (host_path host path, tag)"
proof (cases "tag = []")
  case False
  with assms show ?thesis
    by (simp add: splitTag_def wf_ref_def last_index_char)
next
  case True
  have "splitTag (host_path host path) = (host_path host path, [])"
    using assms by (intro splitTag_none) (auto simp: host_path_def wf_ref_def split: if_splits)
  with True show ?thesis by simp
qed

lemma stripHost_print:
  assumes "wf_ref host path tag"
  shows "stripHost (host_path host path) = path"
proof (cases "host = []")
  case False
  with assms have "splitN2 (host_path host path) ''/'' = [host, path]"
    by (simp add: host_path_def splitN2_def wf_ref_def str_index_char)
  with assms False show ?thesis by (auto simp: stripHost_def wf_ref_def)
next
  case True
  show ?thesis
  proof (cases "CHR ''/'' \<in> set path")
    case False
    with True show ?thesis by (simp add: stripHost_def host_path_def splitN2_def str_index_absent)
  next
    case in_path: True
    then obtain a b where p: "path = a @ CHR ''/'' # b" "CHR ''/'' \<notin> set a"
      using split_list_first by metis
    then have "takeWhile (\<lambda>c. c \<noteq> CHR ''/'') path = a" by (auto simp: takeWhile_tail)
    moreover have "splitN2 path ''/'' = [a, b]" using p by (simp add: splitN2_def str_index_char)
    ultimately show ?thesis using assms True in_path p
      by (auto simp: stripHost_def host_path_def wf_ref_def)
  qed
qed

lemma no_at_host_path:
  "wf_ref host path tag \<Longrightarrow> CHR ''@'' \<notin> set (host_path host path @ (if tag = [] then [] else '':'' @ tag))"
  by (auto simp: wf_ref_def host_path_def split: if_splits)

lemma image_ref_eq:
  "image_ref host path tag digest =
     (host_path host path @ (if tag = [] then [] else '':'' @ tag)) @ (if digest = [] then [] else ''@'' @ digest)"
  by (simp add: image_ref_def host_path_def)

lemma splitImageRef_print:
  assumes "wf_ref host path tag"
  shows "splitImageRef (image_ref host path tag digest) = (path, tag, digest)"
  using assms splitDigest_print [OF no_at_host_path [OF assms]]
  by (simp add: splitImageRef_def image_ref_eq splitTag_print stripHost_print del: append_assoc)

lemma stripTagOrDigest_print:
  assumes "wf_ref host path tag"
  shows "stripTagOrDigest (image_ref host path tag digest) = host_path host path"
  using assms splitDigest_print [OF no_at_host_path [OF assms]]
  by (simp add: stripTagOrDigest_def image_ref_eq splitTag_print del: append_assoc)

section \<open>Properties\<close>

lemmas ref_eval = wf_ref_def image_ref_def extractDigest_def ComponentDestination_def
  ImageNamePath_def splitImageRef_def splitDigest_def splitTag_def stripHost_def splitN2_def

lemma imageMatchesAnyBlocked_iff:
  "imageMatchesAnyBlocked source bs \<longleftrightarrow> (\<exists>b \<in> set bs. ImageBlocked source b)"
  by (induction bs) auto

lemma image_ref_digest_index:
  assumes "wf_ref host path tag"
  shows "str_index (image_ref host path tag (''sha256:'' @ hex)) ''@sha256:'' =
    Some (length (host_path host path @ (if tag = [] then [] else '':'' @ tag)))"
  using str_index_first [OF no_at_host_path [OF assms], of "''sha256:''" hex]
  by (simp add: image_ref_eq)

lemma ComponentDestination_print:
  assumes "wf_ref host path tag"
  shows "ComponentDestination registry (image_ref host path tag (''sha256:'' @ hex)) =
    registry @ ''/'' @ path @ '':sha256-'' @ hex"
  unfolding ComponentDestination_def ImageNamePath_def Let_def
    splitImageRef_print [OF assms] image_ref_digest_index [OF assms]
  by (simp add: image_ref_eq)

lemma ComponentDestination_tag_only:
  assumes "wf_ref host path tag"
  shows "ComponentDestination registry (image_ref host path tag []) = registry @ ''/'' @ path"
proof -
  have "str_index (image_ref host path tag []) ''@sha256:'' = None"
    using no_at_host_path [OF assms] by (simp add: image_ref_eq str_index_absent)
  then show ?thesis
    by (simp add: ComponentDestination_def ImageNamePath_def splitImageRef_print [OF assms])
qed

lemma extractDigest_print:
  assumes "wf_ref host path tag"
  shows "extractDigest (image_ref host path tag (''sha256:'' @ hex)) = ''sha256:'' @ hex"
  unfolding extractDigest_def image_ref_digest_index [OF assms]
  by (simp add: image_ref_eq)

lemma hasPrefix_barrier: "x \<notin> set sub \<Longrightarrow> hasPrefix (a @ x # b) sub \<longleftrightarrow> hasPrefix a sub"
proof (induction sub arbitrary: a)
  case (Cons c sub)
  then show ?case by (cases a) auto
qed simp

lemma last_index_barrier:
  assumes "sub \<noteq> []" and "x \<notin> set sub"
    and "last_index a sub = None" and "last_index b sub = None"
  shows "last_index (a @ x # b) sub = None"
  using assms(3)
proof (induction a)
  case Nil
  from assms hasPrefix_barrier [of x sub "[]" b] show ?case by simp
next
  case (Cons c a)
  then have "last_index a sub = None" and "\<not> hasPrefix (c # a) sub"
    by (auto split: option.splits if_splits)
  with Cons.IH assms hasPrefix_barrier [of x sub "c # a" b] show ?case by simp
qed

text \<open>
  A blocked-image pattern matches independently of the registry host: the
  repository paths must agree; a digest in the pattern narrows the match to that digest, else a
  tag narrows it to that tag, and a bare repository name blocks every tag and digest.
\<close>

theorem ImageBlocked_iff:
  assumes "wf_ref host path tag" and "wf_ref bhost bpath btag"
  shows "ImageBlocked (image_ref host path tag digest) (image_ref bhost bpath btag bdigest) \<longleftrightarrow>
    path = bpath \<and> (if bdigest \<noteq> [] then digest = bdigest else if btag \<noteq> [] then tag = btag else True)"
  using assms by (auto simp: ImageBlocked_def splitImageRef_print)

theorem ImageBlocked_iff_witness:
  "ImageBlocked (image_ref ''quay.io'' ''foo/bar'' ''v1'' []) (image_ref [] ''foo/bar'' ''v1'' [])
   \<and> \<not> ImageBlocked (image_ref ''quay.io'' ''foo/bar'' ''v2'' []) (image_ref [] ''foo/bar'' ''v1'' [])"
  using ImageBlocked_iff [of "''quay.io''" "''foo/bar''" "''v1''" "[]" "''foo/bar''" "''v1''" "[]" "[]"]
    ImageBlocked_iff [of "''quay.io''" "''foo/bar''" "''v2''" "[]" "''foo/bar''" "''v1''" "[]" "[]"]
  by (simp add: wf_ref_def)

text \<open>
  The destination of a digest-pinned component image encodes the source digest so
  that the manager can read it back (\<open>destinationDigest\<close> is what the signature check of the
  drift sweep is run against).
\<close>

theorem destinationDigest_ComponentDestination:
  assumes "wf_ref host path tag" and "CHR ''@'' \<notin> set registry"
    and "CHR ''@'' \<notin> set hex" and "CHR '':'' \<notin> set hex"
  shows "destinationDigest (ComponentDestination registry (image_ref host path tag (''sha256:'' @ hex)))
    = extractDigest (image_ref host path tag (''sha256:'' @ hex))"
proof -
  let ?d = "registry @ ''/'' @ path @ '':sha256-'' @ hex"
  have "CHR ''@'' \<notin> set ?d" using assms by (auto simp: wf_ref_def)
  then have "str_index ?d ''@sha256:'' = None" by (rule str_index_absent)
  moreover have "last_index ?d '':sha256-'' = Some (length (registry @ ''/'' @ path))"
    using assms last_index_last [of "CHR '':''" "''sha256-''" hex "registry @ ''/'' @ path"] by simp
  moreover have "drop (length (registry @ ''/'' @ path) + length '':sha256-'') ?d = hex"
    using drop_prefix [of _ "registry @ ''/'' @ path @ '':sha256-''" hex] by simp
  ultimately show ?thesis
    unfolding destinationDigest_def ComponentDestination_print [OF assms(1)]
      extractDigest_print [OF assms(1)]
    by (simp only: option.case)
qed

theorem destinationDigest_ComponentDestination_witness:
  "destinationDigest (ComponentDestination ''reg.example.com:5000/m''
     (image_ref ''quay.io'' ''org/app'' [] (''sha256:'' @ ''ab12''))) = ''sha256:ab12''"
  using destinationDigest_ComponentDestination
    [of "''quay.io''" "''org/app''" "[]" "''reg.example.com:5000/m''" "''ab12''"]
  by (simp add: ref_eval)

text \<open>
  Distinct digest-pinned component images never share a destination: two of them
  with the same destination have the same repository path and the same digest.
\<close>

theorem ComponentDestination_inject:
  assumes "wf_ref host path tag" and "wf_ref host' path' tag'"
    and "CHR '':'' \<notin> set hex" and "CHR '':'' \<notin> set hex'"
    and "ComponentDestination registry (image_ref host path tag (''sha256:'' @ hex)) =
         ComponentDestination registry (image_ref host' path' tag' (''sha256:'' @ hex'))"
  shows "path = path' \<and> hex = hex'"
proof -
  have eq: "path @ CHR '':'' # ''sha256-'' @ hex = path' @ CHR '':'' # ''sha256-'' @ hex'"
    using assms(5) unfolding ComponentDestination_print [OF assms(1)] ComponentDestination_print [OF assms(2)]
    by simp
  have "CHR '':'' \<notin> set path" "CHR '':'' \<notin> set path'" using assms by (auto simp: wf_ref_def)
  then have "str_cut (path @ CHR '':'' # ''sha256-'' @ hex) '':'' = (path, ''sha256-'' @ hex)"
    and "str_cut (path' @ CHR '':'' # ''sha256-'' @ hex') '':'' = (path', ''sha256-'' @ hex')"
    by simp_all
  with eq show ?thesis by simp
qed

theorem ComponentDestination_inject_witness:
  "ComponentDestination ''r'' (image_ref ''quay.io'' ''a/b'' [] (''sha256:'' @ ''01'')) =
     ComponentDestination ''r'' (image_ref ''ghcr.io'' ''a/b'' ''v2'' (''sha256:'' @ ''01''))
   \<and> ''a/b'' = ''a/b''"
  using ComponentDestination_inject
    [of "''quay.io''" "''a/b''" "[]" "''ghcr.io''" "''a/b''" "''v2''" "''01''" "''01''" "''r''"]
  by (simp add: ref_eval)

text \<open>
  Component images that are not pinned to a digest lose their tag at the
  destination: every tag of a repository is mirrored to one and the same reference, so the
  destination is not unique per image.
\<close>

theorem ComponentDestination_tag_collision:
  assumes "wf_ref host path tag" and "wf_ref host' path tag'"
  shows "ComponentDestination registry (image_ref host path tag []) =
    ComponentDestination registry (image_ref host' path tag' [])"
  using assms by (simp add: ComponentDestination_tag_only)

theorem ComponentDestination_tag_collision_witness:
  "ComponentDestination ''r'' (image_ref ''quay.io'' ''org/app'' ''v1'' []) =
     ComponentDestination ''r'' (image_ref ''quay.io'' ''org/app'' ''v2'' [])"
  using ComponentDestination_tag_collision [of "''quay.io''" "''org/app''" "''v1''" "''quay.io''" "''v2''" "''r''"]
  by (simp add: wf_ref_def)

text \<open>
  Release components are mirrored under a version tag, so no digest can be read
  back from their destination: the signature requirement of an ImageSet is skipped for them by
  the drift sweep.
\<close>

theorem destinationDigest_release_component:
  assumes "name \<noteq> []"
    and "CHR ''@'' \<notin> set (registry @ releaseTag @ name)"
    and "last_index registry '':sha256-'' = None"
    and "CHR '':'' \<notin> set (releaseTag @ name)" and "\<not> hasPrefix (releaseTag @ ''-'' @ name) ''sha256-''"
  shows "destinationDigest (releaseComponentDestination registry releaseTag name img) = []"
proof -
  let ?t = "releaseTag @ ''-'' @ name"
  let ?d = "registry @ ''/'' @ releaseComponentRepo @ '':'' @ ?t"
  have "CHR ''@'' \<notin> set ?d" using assms by auto
  then have idx: "str_index ?d ''@sha256:'' = None" by (rule str_index_absent)
  have "last_index ?t '':sha256-'' = None" using assms by (intro last_index_absent) auto
  with assms(5) have "last_index (''release:'' @ ?t) '':sha256-'' = None"
    by simp
  then have "last_index (''openshift'' @ CHR ''/'' # ''release:'' @ ?t) '':sha256-'' = None"
    using last_index_barrier [of "'':sha256-''" "CHR ''/''" "''openshift''" "''release:'' @ ?t"]
    by (simp add: last_index_absent)
  then have "last_index ?d '':sha256-'' = None"
    using assms(3) last_index_barrier [of "'':sha256-''" "CHR ''/''" registry "''openshift/release:'' @ ?t"]
    by simp
  with idx assms(1) show ?thesis
    by (simp add: destinationDigest_def releaseComponentDestination_def)
qed

theorem destinationDigest_release_component_witness:
  "destinationDigest (releaseComponentDestination ''registry.example.com/mirror''
     (releaseTagFor ''4.16.20'' ''amd64'') ''etcd''
     ''quay.io/openshift-release-dev/ocp-v4.0-art-dev@sha256:1848'') = []"
  using destinationDigest_release_component
    [of "''etcd''" "''registry.example.com/mirror''" "releaseTagFor ''4.16.20'' ''amd64''"
      "''quay.io/openshift-release-dev/ocp-v4.0-art-dev@sha256:1848''"]
  by (simp add: releaseTagFor_def releaseArchName_def)

end
