(* ===== verification/Ownership.thy ===== *)
theory Ownership
  imports ImageStore ImageRef
begin

text \<open>
  Which ImageSet owns which destination. The manager keeps one entry per destination for the whole
  MirrorTarget; the maps \<open>owners\<close> and \<open>ownerMeta\<close> record, out of band, the ImageSets that need it
  and the spec metadata each of them resolved it with (\<open>pkg/mirror/manager/owner_meta.go\<close> and the
  ownership part of \<open>manager_resolve.go\<close>).

  The registries of names, \<open>owners\<close> and the on-disk \<open>SharedIndex\<close>, satisfy the interfaces
  \<open>ref_registry\<close> and \<open>exact_registry\<close>; removing a name from the index refines removing it from
  \<open>owners\<close>.
\<close>

type_synonym owners_map = "(string, string list) gomap"

section \<open>Owners\<close>

definition hasOwner :: "owners_map \<Rightarrow> string \<Rightarrow> string \<Rightarrow> bool" where
  "hasOwner ows dest isName \<longleftrightarrow> (\<exists>n \<in> set (mget_list ows dest). n = isName)"

definition onlyOwner :: "owners_map \<Rightarrow> string \<Rightarrow> string \<Rightarrow> bool" where
  "onlyOwner ows dest isName \<longleftrightarrow> (\<forall>n \<in> set (mget_list ows dest). n = isName)"

definition addOwner :: "owners_map \<Rightarrow> string \<Rightarrow> string \<Rightarrow> owners_map" where
  "addOwner ows dest isName =
     (if hasOwner ows dest isName then ows else mput dest (mget_list ows dest @ [isName]) ows)"

definition removeOwner :: "owners_map \<Rightarrow> string \<Rightarrow> string \<Rightarrow> bool \<times> owners_map" where
  "removeOwner ows dest isName =
     (let names = mget_list ows dest;
          out = filter (\<lambda>n. n \<noteq> isName) names
      in if isName \<notin> set names then (False, ows)
         else if length out = 0 then (True, mdel dest ows)
         else (True, mput dest out ows))"

section \<open>Spec metadata per owner\<close>

record spec_meta =
  om_Origin :: string
  om_EntrySig :: string
  om_OriginRef :: string
  om_Catalog :: string
  om_IsBundleImage :: bool

type_synonym owner_meta = "(string, (string, spec_meta) gomap) gomap"

definition specMetaOf :: "image_entry \<Rightarrow> spec_meta" where
  "specMetaOf e = \<lparr>om_Origin = Origin e, om_EntrySig = EntrySig e, om_OriginRef = OriginRef e,
     om_Catalog = Catalog e, om_IsBundleImage = IsBundleImage e\<rparr>"

definition applyTo :: "spec_meta \<Rightarrow> image_entry \<Rightarrow> image_entry" where
  "applyTo s e = e\<lparr>Origin := om_Origin s, EntrySig := om_EntrySig s, OriginRef := om_OriginRef s,
     Catalog := om_Catalog s, IsBundleImage := om_IsBundleImage s\<rparr>"

definition ownerView :: "owner_meta \<Rightarrow> string \<Rightarrow> string \<Rightarrow> image_entry \<Rightarrow> image_entry" where
  "ownerView om dest isName entry =
     (case mget (mget_list om dest) isName of
        Some meta \<Rightarrow> applyTo meta entry
      | None \<Rightarrow> entry)"

definition setOwnerMetaLocked :: "owner_meta \<Rightarrow> string \<Rightarrow> string \<Rightarrow> spec_meta \<Rightarrow> owner_meta" where
  "setOwnerMetaLocked om dest isName meta = mput dest (mput isName meta (mget_list om dest)) om"

definition forget_meta :: "string \<Rightarrow> image_state \<Rightarrow> string \<times> (string, spec_meta) gomap \<Rightarrow> owner_meta \<Rightarrow> owner_meta" where
  "forget_meta isName resolved dp om = (case dp of (dest, perOwner) \<Rightarrow>
     if mget resolved dest \<noteq> None then om
     else (let perOwner' = mdel isName perOwner
           in if length perOwner' = 0 then mdel dest om else mput dest perOwner' om))"

definition set_meta :: "string \<Rightarrow> string \<times> image_entry \<Rightarrow> owner_meta \<Rightarrow> owner_meta" where
  "set_meta isName de om = (case de of (dest, entry) \<Rightarrow> setOwnerMetaLocked om dest isName (specMetaOf entry))"

definition recordOwnerMetaLocked :: "owner_meta \<Rightarrow> string \<Rightarrow> image_state \<Rightarrow> owner_meta" where
  "recordOwnerMetaLocked om isName resolved =
     fold (set_meta isName) resolved (fold (forget_meta isName resolved) om om)"

definition pruneOwnerMetaLocked :: "owner_meta \<Rightarrow> owners_map \<Rightarrow> string \<Rightarrow> owner_meta" where
  "pruneOwnerMetaLocked om ows dest =
     (case mget om dest of
        None \<Rightarrow> om
      | Some perOwner \<Rightarrow>
          (let perOwner' = filter (\<lambda>(isName, _). hasOwner ows dest isName) perOwner
           in if length perOwner' = 0 then mdel dest om else mput dest perOwner' om))"

definition filterByImageSet :: "image_state \<Rightarrow> owners_map \<Rightarrow> owner_meta \<Rightarrow> string \<Rightarrow> image_state" where
  "filterByImageSet st ows om isName =
     map (\<lambda>(dest, entry). (dest, ownerView om dest isName entry))
       (filter (\<lambda>(dest, entry). hasOwner ows dest isName) st)"

section \<open>Merging a resolved ImageSet\<close>

definition refresh_entry :: "bool \<Rightarrow> image_entry \<Rightarrow> image_entry \<Rightarrow> image_entry" where
  "refresh_entry only existing newEntry =
     (let e = existing\<lparr>Source := Source newEntry\<rparr>
      in if only then e\<lparr>Origin := Origin newEntry, EntrySig := EntrySig newEntry, OriginRef := OriginRef newEntry,
           Catalog := Catalog newEntry, IsBundleImage := IsBundleImage newEntry\<rparr>
         else e)"

definition upsert_entry ::
  "string \<Rightarrow> string \<times> image_entry \<Rightarrow> image_state \<times> owners_map \<Rightarrow> image_state \<times> owners_map" where
  "upsert_entry isName de acc = (case (de, acc) of ((dest, newEntry), (st, ows)) \<Rightarrow>
     (case mget st dest of
        Some existing \<Rightarrow> mput dest (refresh_entry (onlyOwner ows dest isName) existing newEntry) st
      | None \<Rightarrow> mput dest newEntry st,
      addOwner ows dest isName))"

definition drop_stale ::
  "image_state \<Rightarrow> string \<Rightarrow> string \<times> image_entry \<Rightarrow> owners_map \<times> string list \<Rightarrow> owners_map \<times> string list" where
  "drop_stale perIS isName de acc = (case (de, acc) of ((dest, _), (ows, orphaned)) \<Rightarrow>
     if mget perIS dest \<noteq> None then (ows, orphaned)
     else (case removeOwner ows dest isName of
             (False, _) \<Rightarrow> (ows, orphaned)
           | (True, ows') \<Rightarrow> (ows', if length (mget_list ows' dest) = 0 then orphaned @ [dest] else orphaned)))"

definition mergeResolvedIntoConsolidated ::
  "image_state \<Rightarrow> owners_map \<Rightarrow> image_state \<Rightarrow> string \<Rightarrow> image_state \<times> owners_map \<times> string list" where
  "mergeResolvedIntoConsolidated st ows perIS isName =
     (case fold (upsert_entry isName) perIS (st, ows) of
        (st', ows') \<Rightarrow>
          (case fold (drop_stale perIS isName) st' (ows', []) of
             (ows'', orphaned) \<Rightarrow> (st', ows'', orphaned)))"

definition mergeWorkerUpdates :: "image_state \<Rightarrow> image_state \<Rightarrow> image_state" where
  "mergeWorkerUpdates resolved live =
     map (\<lambda>(dest, rEntry). (dest,
       case mget live dest of
         None \<Rightarrow> rEntry
       | Some lEntry \<Rightarrow>
           if State lEntry = stateMirrored \<or> State lEntry = stateFailed
           then rEntry\<lparr>State := State lEntry, RetryCount := RetryCount lEntry,
                       LastError := LastError lEntry, PermanentlyFailed := PermanentlyFailed lEntry\<rparr>
           else rEntry)) resolved"

definition mergeLoadedEntry :: "image_entry option \<Rightarrow> image_entry \<Rightarrow> image_entry" where
  "mergeLoadedEntry ex incoming =
     (case ex of
        None \<Rightarrow> incoming
      | Some existing \<Rightarrow>
          if State incoming = stateMirrored \<or> State existing = stateMirrored then
            (if State incoming = stateMirrored then incoming else existing)
          else if RetryCount incoming > RetryCount existing then incoming
          else existing)"

section \<open>Registries of names\<close>

locale ref_registry =
  fixes names :: "'m \<Rightarrow> 'k \<Rightarrow> 'n set"
    and add :: "'m \<Rightarrow> 'k \<Rightarrow> 'n \<Rightarrow> 'm"
  assumes names_add: "names (add m k n) k' = (if k' = k then insert n (names m k) else names m k')"
begin

lemma names_add_idem: "names (add (add m k n) k n) k' = names (add m k n) k'"
  by (simp add: names_add)

lemma names_fold_add:
  "names (fold (\<lambda>k m. add m k n) ks m) k' = (if k' \<in> set ks then insert n (names m k') else names m k')"
  by (induction ks arbitrary: m) (auto simp: names_add)

end

locale exact_registry = ref_registry +
  fixes rem :: "'a \<Rightarrow> 'b \<Rightarrow> 'c \<Rightarrow> 'a"
  assumes names_rem: "names (rem m k n) k' = (if k' = k then names m k - {n} else names m k')"
begin

lemma names_rem_add: "n \<notin> names m k \<Longrightarrow> names (rem (add m k n) k n) k' = names m k'"
  by (simp add: names_add names_rem)

lemma other_names_kept: "n' \<noteq> n \<Longrightarrow> n' \<in> names (rem m k n) k' \<longleftrightarrow> n' \<in> names m k'"
  by (simp add: names_rem)

end

lemma hasOwner_iff [simp]: "hasOwner ows dest n \<longleftrightarrow> n \<in> set (mget_list ows dest)"
  by (auto simp: hasOwner_def)

lemma addOwner_list:
  "mget_list (addOwner ows d n) d' =
     (if d' = d \<and> n \<notin> set (mget_list ows d) then mget_list ows d @ [n] else mget_list ows d')"
  by (auto simp: addOwner_def)

lemma removeOwner_list:
  "mget_list (snd (removeOwner ows d n)) d' =
     (if d' = d then filter (\<lambda>x. x \<noteq> n) (mget_list ows d) else mget_list ows d')"
  by (auto simp: removeOwner_def Let_def)

lemma removeOwner_fst [simp]: "fst (removeOwner ows d n) \<longleftrightarrow> n \<in> set (mget_list ows d)"
  by (simp add: removeOwner_def Let_def)

lemma RemoveSharedRef_list:
  "mget_list (RemoveSharedRef idx d n) d' =
     (if d' = d then (let out = filter (\<lambda>x. x \<noteq> n) (mget_list idx d) in if length out \<le> 1 then [] else out)
      else mget_list idx d')"
  by (simp add: RemoveSharedRef_def Let_def)

interpretation shared: ref_registry "\<lambda>idx dest. set (Names idx dest)" AddSharedRef
  by unfold_locales (auto simp: AddSharedRef_def Names_def)

interpretation owned: exact_registry "\<lambda>ows dest. set (mget_list ows dest)" addOwner
  "\<lambda>ows dest n. snd (removeOwner ows dest n)"
  by unfold_locales (auto simp: addOwner_list removeOwner_list)

text \<open>The part of the ownership map the on-disk index keeps: destinations of two or more ImageSets.\<close>

definition shared_part :: "owners_map \<Rightarrow> string \<Rightarrow> string list" where
  "shared_part ows dest = (if length (mget_list ows dest) \<ge> 2 then mget_list ows dest else [])"

text \<open>
  Removing an ImageSet's reference from the shared-image index refines removing the
  ImageSet from the ownership map: an index that records exactly the destinations with two or more
  owners still does so afterwards, and a destination is shared exactly when two owners remain.
\<close>

theorem RemoveSharedRef_refines_removeOwner:
  assumes "\<And>d. mget_list idx d = shared_part ows d"
  shows "mget_list (RemoveSharedRef idx dest n) d = shared_part (snd (removeOwner ows dest n)) d \<and>
    (IsShared (RemoveSharedRef idx dest n) d \<longleftrightarrow> length (mget_list (snd (removeOwner ows dest n)) d) \<ge> 2)"
proof -
  have "length (filter (\<lambda>x. x \<noteq> n) xs) \<le> 1" if "length xs < 2" for xs :: "string list"
    using that length_filter_le [of "\<lambda>x. x \<noteq> n" xs] by linarith
  then show ?thesis
    using assms by (auto simp: RemoveSharedRef_list removeOwner_list shared_part_def IsShared_def Let_def dest: length_filter_ge)
qed

theorem RemoveSharedRef_refines_witness:
  "mget_list (RemoveSharedRef [(''r/a:1'', [''x'', ''y'', ''z''])] ''r/a:1'' ''y'') ''r/a:1'' = [''x'', ''z'']
   \<and> IsShared (RemoveSharedRef [(''r/a:1'', [''x'', ''y'', ''z''])] ''r/a:1'' ''y'') ''r/a:1''"
proof -
  have "mget_list [(''r/a:1'', [''x'', ''y'', ''z''])] d = shared_part [(''r/a:1'', [''x'', ''y'', ''z''])] d" for d
    by (simp add: shared_part_def)
  from RemoveSharedRef_refines_removeOwner [OF this, of "''r/a:1''" "''y''" "''r/a:1''"] show ?thesis
    by (simp add: removeOwner_list shared_part_def)
qed

section \<open>Facts about views\<close>

lemma applyTo_specMetaOf [simp]: "applyTo (specMetaOf e) e = e"
  by (simp add: applyTo_def specMetaOf_def)

lemma specMetaOf_applyTo [simp]: "specMetaOf (applyTo s e) = s"
  by (simp add: applyTo_def specMetaOf_def)

lemma applyTo_lifecycle [simp]:
  "Source (applyTo s e) = Source e" "State (applyTo s e) = State e" "LastError (applyTo s e) = LastError e"
  "RetryCount (applyTo s e) = RetryCount e" "PermanentlyFailed (applyTo s e) = PermanentlyFailed e"
  "NextRetryAt (applyTo s e) = NextRetryAt e" "SignatureVerified (applyTo s e) = SignatureVerified e"
  "SourceDigest (applyTo s e) = SourceDigest e"
  by (simp_all add: applyTo_def)

lemma ownerView_lifecycle [simp]:
  "Source (ownerView om d n e) = Source e" "State (ownerView om d n e) = State e"
  "RetryCount (ownerView om d n e) = RetryCount e" "PermanentlyFailed (ownerView om d n e) = PermanentlyFailed e"
  "LastError (ownerView om d n e) = LastError e"
  by (simp_all add: ownerView_def split: option.splits)

lemma filterByImageSet_lookup:
  assumes "wf_map st"
  shows "mget (filterByImageSet st ows om isName) d =
    (case mget st d of
       Some e \<Rightarrow> if hasOwner ows d isName then Some (ownerView om d isName e) else None
     | None \<Rightarrow> None)"
  using assms
  by (simp add: filterByImageSet_def mget_map_snd [where f = "\<lambda>d. ownerView om d isName"] mget_filter
      split: option.splits)

lemma wf_filterByImageSet [simp]: "wf_map st \<Longrightarrow> wf_map (filterByImageSet st ows om isName)"
  by (simp add: filterByImageSet_def wf_map_map_snd [where f = "\<lambda>d. ownerView om d isName"])

lemma mergeWorkerUpdates_lookup:
  "mget (mergeWorkerUpdates resolved live) d =
     map_option (\<lambda>rEntry. case mget live d of
         None \<Rightarrow> rEntry
       | Some lEntry \<Rightarrow>
           if State lEntry = stateMirrored \<or> State lEntry = stateFailed
           then rEntry\<lparr>State := State lEntry, RetryCount := RetryCount lEntry,
                       LastError := LastError lEntry, PermanentlyFailed := PermanentlyFailed lEntry\<rparr>
           else rEntry) (mget resolved d)"
  by (simp add: mergeWorkerUpdates_def mget_map_snd
      [where f = "\<lambda>d rEntry. case mget live d of
         None \<Rightarrow> rEntry
       | Some lEntry \<Rightarrow>
           if State lEntry = stateMirrored \<or> State lEntry = stateFailed
           then rEntry\<lparr>State := State lEntry, RetryCount := RetryCount lEntry,
                       LastError := LastError lEntry, PermanentlyFailed := PermanentlyFailed lEntry\<rparr>
           else rEntry"])

section \<open>Facts about the merge\<close>

definition merge_obs :: "image_state \<times> owners_map \<Rightarrow> string \<Rightarrow> image_entry option \<times> string list" where
  "merge_obs s d = (mget (fst s) d, mget_list (snd s) d)"

interpretation upsert: range_loop "upsert_entry isName" merge_obs for isName
  by unfold_locales
    (auto simp: merge_obs_def upsert_entry_def addOwner_list onlyOwner_def split: option.splits prod.splits)

lemma upsert_at:
  "merge_obs (upsert_entry isName (d, e) (st, ows)) d =
     (Some (case mget st d of Some x \<Rightarrow> refresh_entry (onlyOwner ows d isName) x e | None \<Rightarrow> e),
      mget_list (addOwner ows d isName) d)"
  by (auto simp: merge_obs_def upsert_entry_def split: option.splits)

lemma wf_upsert: "wf_map (fst s) \<Longrightarrow> wf_map (fst (upsert_entry n x s))"
  by (auto simp: upsert_entry_def split: prod.splits option.splits)

lemma wf_fold_upsert: "wf_map (fst s) \<Longrightarrow> wf_map (fst (fold (upsert_entry n) xs s))"
  by (induction xs arbitrary: s) (auto simp: wf_upsert)

definition stale_obs :: "owners_map \<times> string list \<Rightarrow> string \<Rightarrow> string list \<times> bool" where
  "stale_obs acc d = (mget_list (fst acc) d, d \<in> set (snd acc))"

lemma drop_stale_obs:
  "stale_obs (drop_stale perIS isName (d, e) acc) d' =
     (if d' = d \<and> mget perIS d = None
      then (filter (\<lambda>x. x \<noteq> isName) (mget_list (fst acc) d),
            d \<in> set (snd acc) \<or> isName \<in> set (mget_list (fst acc) d) \<and> filter (\<lambda>x. x \<noteq> isName) (mget_list (fst acc) d) = [])
      else stale_obs acc d')"
proof -
  obtain ows orph where acc: "acc = (ows, orph)" by force
  obtain b ows' where r: "removeOwner ows d isName = (b, ows')" by force
  have "b = (isName \<in> set (mget_list ows d))" using removeOwner_fst [of ows d isName] r by simp
  moreover have "mget_list ows' x = (if x = d then filter (\<lambda>x. x \<noteq> isName) (mget_list ows d) else mget_list ows x)" for x
    using removeOwner_list [of ows d isName x] r by simp
  ultimately show ?thesis using acc r
    by (cases b) (auto simp: drop_stale_def stale_obs_def)
qed

interpretation stale: range_loop "drop_stale perIS isName" stale_obs for perIS isName
proof unfold_locales
  fix k :: string and v :: image_entry and s s'
  show "k' \<noteq> k \<Longrightarrow> stale_obs (drop_stale perIS isName (k, v) s) k' = stale_obs s k'" for k'
    by (simp add: drop_stale_obs)
  assume "stale_obs s k = stale_obs s' k"
  then have "mget_list (fst s) k = mget_list (fst s') k" "k \<in> set (snd s) \<longleftrightarrow> k \<in> set (snd s')"
    by (simp_all add: stale_obs_def)
  with \<open>stale_obs s k = stale_obs s' k\<close>
  show "stale_obs (drop_stale perIS isName (k, v) s) k = stale_obs (drop_stale perIS isName (k, v) s') k"
    by (simp add: drop_stale_obs)
qed

lemma merge_lookup:
  assumes "wf_map st" and "wf_map perIS"
    and "mergeResolvedIntoConsolidated st ows perIS isName = (st', ows', orphaned)"
  shows "mget st' d = (case mget perIS d of
      None \<Rightarrow> mget st d
    | Some e \<Rightarrow> Some (case mget st d of Some x \<Rightarrow> refresh_entry (onlyOwner ows d isName) x e | None \<Rightarrow> e))"
    and "mget_list ows' d = (case mget perIS d of
      Some e \<Rightarrow> mget_list (addOwner ows d isName) d
    | None \<Rightarrow> if mget st d = None then mget_list ows d else filter (\<lambda>x. x \<noteq> isName) (mget_list ows d))"
    and "d \<in> set orphaned \<longleftrightarrow> mget perIS d = None \<and> mget st d \<noteq> None \<and>
      isName \<in> set (mget_list ows d) \<and> onlyOwner ows d isName"
    and "wf_map st'"
proof -
  obtain st1 ows1 where f: "fold (upsert_entry isName) perIS (st, ows) = (st1, ows1)" by force
  have st': "st' = st1" and ows': "ows' = fst (fold (drop_stale perIS isName) st1 (ows1, []))"
    and orph: "orphaned = snd (fold (drop_stale perIS isName) st1 (ows1, []))"
    using assms(3) f by (auto simp: mergeResolvedIntoConsolidated_def split: prod.splits)
  have wf1: "wf_map st1" using wf_fold_upsert [of "(st, ows)" isName perIS] assms(1) f by simp
  have o: "merge_obs (st1, ows1) d = (case mget perIS d of None \<Rightarrow> merge_obs (st, ows) d
      | Some e \<Rightarrow> merge_obs (upsert_entry isName (d, e) (st, ows)) d)"
    using upsert.loop_obs [OF assms(2), of isName "(st, ows)" d] f by simp
  show lk: "mget st' d = (case mget perIS d of
      None \<Rightarrow> mget st d
    | Some e \<Rightarrow> Some (case mget st d of Some x \<Rightarrow> refresh_entry (onlyOwner ows d isName) x e | None \<Rightarrow> e))"
    using o st' upsert_at by (auto simp: merge_obs_def split: option.splits)
  have ol: "mget_list ows1 d = (case mget perIS d of None \<Rightarrow> mget_list ows d
      | Some e \<Rightarrow> mget_list (addOwner ows d isName) d)"
    using o upsert_at by (auto simp: merge_obs_def split: option.splits)
  have so: "stale_obs (fold (drop_stale perIS isName) st1 (ows1, [])) d =
      (case mget st1 d of None \<Rightarrow> (mget_list ows1 d, False)
       | Some e \<Rightarrow> if mget perIS d = None
           then (filter (\<lambda>x. x \<noteq> isName) (mget_list ows1 d),
                 isName \<in> set (mget_list ows1 d) \<and> filter (\<lambda>x. x \<noteq> isName) (mget_list ows1 d) = [])
           else (mget_list ows1 d, False))"
    using stale.loop_obs [OF wf1, of perIS isName "(ows1, [])" d]
    by (simp add: drop_stale_obs split: option.splits) (auto simp: stale_obs_def)
  show "mget_list ows' d = (case mget perIS d of
      Some e \<Rightarrow> mget_list (addOwner ows d isName) d
    | None \<Rightarrow> if mget st d = None then mget_list ows d else filter (\<lambda>x. x \<noteq> isName) (mget_list ows d))"
    using so ows' ol lk st' by (auto simp: stale_obs_def split: option.splits)
  show "d \<in> set orphaned \<longleftrightarrow> mget perIS d = None \<and> mget st d \<noteq> None \<and>
      isName \<in> set (mget_list ows d) \<and> onlyOwner ows d isName"
    using so orph ol lk st' by (auto simp: stale_obs_def onlyOwner_def filter_empty_conv split: option.splits)
  show "wf_map st'" using wf1 st' by simp
qed

lemma refresh_entry_lifecycle [simp]:
  "State (refresh_entry b x e) = State x" "LastError (refresh_entry b x e) = LastError x"
  "RetryCount (refresh_entry b x e) = RetryCount x" "PermanentlyFailed (refresh_entry b x e) = PermanentlyFailed x"
  "NextRetryAt (refresh_entry b x e) = NextRetryAt x" "SignatureVerified (refresh_entry b x e) = SignatureVerified x"
  "SourceDigest (refresh_entry b x e) = SourceDigest x" "Source (refresh_entry b x e) = Source e"
  by (simp_all add: refresh_entry_def Let_def)

text \<open>
  Property C6. Merging a freshly resolved ImageSet into the live state makes the ImageSet own exactly
  the destinations it resolved to and changes no other ImageSet's ownership. No entry leaves the live
  state, existing entries keep their whole lifecycle (state, retries, errors, permanent-failure flag,
  backoff, signature and digest bookkeeping), and the destinations reported as orphaned are exactly
  those whose only owner no longer resolves to them: an image another ImageSet needs is never among them.
\<close>

theorem mergeResolved_ownership:
  assumes "wf_map st" and "wf_map perIS"
    and "\<And>d. mget_list ows d \<noteq> [] \<Longrightarrow> mget st d \<noteq> None"
    and "mergeResolvedIntoConsolidated st ows perIS isName = (st', ows', orphaned)"
  shows "(hasOwner ows' d isName \<longleftrightarrow> mget perIS d \<noteq> None) \<and>
    (n \<noteq> isName \<longrightarrow> (hasOwner ows' d n \<longleftrightarrow> hasOwner ows d n)) \<and>
    (mget st d = Some x \<longrightarrow> (\<exists>x'. mget st' d = Some x' \<and> State x' = State x \<and> RetryCount x' = RetryCount x \<and>
       LastError x' = LastError x \<and> PermanentlyFailed x' = PermanentlyFailed x \<and> NextRetryAt x' = NextRetryAt x \<and>
       SignatureVerified x' = SignatureVerified x \<and> SourceDigest x' = SourceDigest x)) \<and>
    (d \<in> set orphaned \<longleftrightarrow> mget perIS d = None \<and> mget_list ows d \<noteq> [] \<and> onlyOwner ows d isName)"
proof -
  note merge_lookup [OF assms(1,2,4)]
  moreover have "isName \<in> set (mget_list ows d) \<and> onlyOwner ows d isName \<longleftrightarrow> mget_list ows d \<noteq> [] \<and> onlyOwner ows d isName"
    by (cases "mget_list ows d") (auto simp: onlyOwner_def)
  ultimately show ?thesis
    using assms(3) [of d] by (cases "mget_list ows d = []") (auto simp: addOwner_list split: option.splits)
qed

theorem mergeResolved_ownership_witness:
  "hasOwner (fst (snd (mergeResolvedIntoConsolidated [(''r/a:1'', zero_entry\<lparr>State := stateMirrored\<rparr>)]
     [(''r/a:1'', [''x'', ''y''])] [(''r/b:1'', zero_entry)] ''x''))) ''r/a:1'' ''y''
   \<and> ''r/a:1'' \<notin> set (snd (snd (mergeResolvedIntoConsolidated [(''r/a:1'', zero_entry\<lparr>State := stateMirrored\<rparr>)]
     [(''r/a:1'', [''x'', ''y''])] [(''r/b:1'', zero_entry)] ''x'')))"
proof -
  let ?m = "mergeResolvedIntoConsolidated [(''r/a:1'', zero_entry\<lparr>State := stateMirrored\<rparr>)]
     [(''r/a:1'', [''x'', ''y''])] [(''r/b:1'', zero_entry)] ''x''"
  have m: "?m = (fst ?m, fst (snd ?m), snd (snd ?m))" by simp
  have "mget [(''r/a:1'', zero_entry\<lparr>State := stateMirrored\<rparr>)] d \<noteq> None"
    if "mget_list [(''r/a:1'', [''x'', ''y''])] d \<noteq> []" for d
    using that by (simp split: if_splits)
  from mergeResolved_ownership [OF _ _ this m, of "''r/a:1''" "''y''"] show ?thesis
    by (simp add: onlyOwner_def)
qed

end
