(* ===== verification/ApiTypes.thy ===== *)
theory ApiTypes
  imports Prelude "HOL-Library.Char_ord" "HOL-Library.List_Lexorder"
begin

text \<open>
  The custom resources the program works on (\<open>api/v1alpha1/imageset_config_types.go\<close>,
  \<open>imageset_types.go\<close>, \<open>mirrortarget_types.go\<close>), restricted to the fields the modelled code reads,
  and the names of the annotations it exchanges through them. Fields carry a short prefix of their
  struct's name. Times and durations are nanoseconds (\<^typ>\<open>int\<close>), a pointer is an option.
\<close>

section \<open>ImageSet\<close>

record include_bundle =
  ib_MinVersion :: string
  ib_MaxVersion :: string

record include_channel =
  ic_Name :: string
  ic_Bundle :: include_bundle

record include_package =
  ip_Name :: string
  ip_Channels :: "include_channel list"
  ip_DefaultChannel :: string
  ip_PreviousVersions :: int
  ip_Bundle :: include_bundle
  ip_Bundles :: "string list"

record secret_key_ref =
  sk_Name :: string
  sk_Key :: string

record operator =
  op_Packages :: "include_package list"
  op_Catalog :: string
  op_TargetCatalog :: string
  op_TargetTag :: string
  op_Full :: bool
  op_SkipDependencies :: bool
  op_SignatureVerification :: "secret_key_ref option"

record release_channel =
  rc_Name :: string
  rc_Type :: string
  rc_MinVersion :: string
  rc_MaxVersion :: string
  rc_ShortestPath :: bool
  rc_Full :: bool
  rc_SkipSignatureVerification :: bool

record platform =
  pf_Graph :: bool
  pf_Channels :: "release_channel list"
  pf_Architectures :: "string list"
  pf_Release :: string
  pf_KubeVirtContainer :: bool

record additional_image =
  ai_Name :: string
  ai_TargetRepo :: string
  ai_TargetTag :: string

record chart =
  ch_Name :: string
  ch_Version :: string
  ch_Path :: string
  ch_ImagePaths :: "string list"

record repository =
  rp_URL :: string
  rp_Name :: string
  rp_Charts :: "chart list"

record mirror_spec =
  ms_Platform :: platform
  ms_Operators :: "operator list"
  ms_AdditionalImages :: "additional_image list"
  ms_HelmRepositories :: "repository list"
  ms_BlockedImages :: "string list"
  ms_RequireSignedImages :: bool

type_synonym annotations = "(string, string) gomap"

record image_set =
  is_Name :: string
  is_Annotations :: annotations
  is_Generation :: int
  is_Mirror :: mirror_spec
  is_ObservedGeneration :: int
  is_LastSuccessfulPollTime :: "int option"

section \<open>MirrorTarget\<close>

record mirror_target =
  mt_Name :: string
  mt_Registry :: string
  mt_ImageSets :: "string list"
  mt_Insecure :: bool
  mt_AuthSecret :: string
  mt_Concurrency :: int
  mt_BatchSize :: int
  mt_PollInterval :: "int option"
  mt_CheckExistInterval :: "int option"
  mt_MaxRetries :: int

section \<open>Annotations\<close>

definition RecollectAnnotation :: string where
  "RecollectAnnotation = ''mirror.openshift.io/recollect''"

definition RecollectHonoredAnnotation :: string where
  "RecollectHonoredAnnotation = ''mirror.openshift.io/recollect-honored''"

definition ForceResyncAnnotation :: string where
  "ForceResyncAnnotation = ''mirror.openshift.io/force-resync''"

definition CatalogDigestAnnotationPrefix :: string where
  "CatalogDigestAnnotationPrefix = ''mirror.openshift.io/catalog-digest-''"

definition ReleaseDigestAnnotationPrefix :: string where
  "ReleaseDigestAnnotationPrefix = ''mirror.openshift.io/release-digest-''"

definition GraphImageBuiltAnnotation :: string where
  "GraphImageBuiltAnnotation = ''mirror.openshift.io/graph-image-built-at''"

section \<open>Durations\<close>

abbreviation second :: int where "second \<equiv> 1000000000"
abbreviation minute :: int where "minute \<equiv> 60 * second"
abbreviation hour :: int where "hour \<equiv> 60 * minute"

end
