(* ===== verification/Collector.thy ===== *)
theory Collector
  imports ImageRef HelmSource ApiTypes
begin

text \<open>
  Expanding an ImageSet spec to the list of images to mirror (\<open>pkg/mirror/collector.go\<close>). What the
  release, catalog and chart resolvers return for a request is network content: the record
  \<open>resolvers\<close> holds one function per method the collector calls, each returning an error or the data.
\<close>

section \<open>Data\<close>

record target_image =
  ti_Source :: string
  ti_Destination :: string
  ti_State :: string
  ti_BundleRef :: string
  ti_IsBundleImage :: bool

record release_node =
  nd_Version :: string
  nd_Image :: string

record component_image =
  cp_Name :: string
  cp_Image :: string

record bundle_image_info =
  bi_Label :: string
  bi_IsBundleImage :: bool

datatype collect_error = ResolverError string | ResolveRelease string string collect_error

record 'a resolvers =
  ResolveReleaseNodes :: "string \<Rightarrow> string \<Rightarrow> string \<Rightarrow> string list \<Rightarrow> bool \<Rightarrow> bool \<Rightarrow> string \<Rightarrow> collect_error + release_node list"
  ExtractComponentImages :: "string \<Rightarrow> string \<Rightarrow> collect_error + component_image list"
  ExtractKubeVirtImages :: "string \<Rightarrow> string list \<Rightarrow> collect_error + string list"
  ResolveCatalogWithBundles :: "string \<Rightarrow> include_package list \<Rightarrow> collect_error + (string, bundle_image_info) gomap"
  DownloadChartArchive :: "string \<Rightarrow> chart \<Rightarrow> collect_error + 'a \<times> string"
  LoadChartArchive :: "'a \<Rightarrow> collect_error + 'a"
  ImagesFromChart :: "'a \<Rightarrow> string list \<Rightarrow> collect_error + string list"

record 'a helm_chart_resolution =
  hr_Images :: "string list"
  hr_Archive :: 'a
  hr_Version :: string

type_synonym metadata = "(string, string) gomap option"

section \<open>Operations\<close>

definition toTargetImage :: "string \<Rightarrow> string \<Rightarrow> metadata \<Rightarrow> target_image" where
  "toTargetImage src dest meta =
     \<lparr>ti_Source = src, ti_Destination = dest,
      ti_State = (case meta of
          Some mirroredImages \<Rightarrow> if mget_str mirroredImages dest \<noteq> [] then ''Mirrored'' else ''Pending''
        | None \<Rightarrow> ''Pending''),
      ti_BundleRef = [], ti_IsBundleImage = False\<rparr>"

definition BlockImages :: "target_image list \<Rightarrow> string list \<Rightarrow> target_image list" where
  "BlockImages images blocked =
     (if length blocked = 0 then images
      else filter (\<lambda>img. \<not> imageMatchesAnyBlocked (ti_Source img) blocked) images)"

definition ReleaseArchitectures :: "mirror_spec \<Rightarrow> string list" where
  "ReleaseArchitectures spec =
     (if length (pf_Architectures (ms_Platform spec)) = 0 then [''amd64''] else pf_Architectures (ms_Platform spec))"

definition ResolveReleasePayloadNodes ::
  "'a resolvers \<Rightarrow> release_channel \<Rightarrow> string \<Rightarrow> collect_error + release_node list" where
  "ResolveReleasePayloadNodes c rel arch =
     (let arch' = (if arch = [] then ''amd64'' else arch)
      in ResolveReleaseNodes c (rc_Name rel) (rc_MinVersion rel) (rc_MaxVersion rel) [arch']
           (rc_Full rel) (rc_ShortestPath rel) (rc_Type rel))"

definition node_images ::
  "'a resolvers \<Rightarrow> mirror_spec \<Rightarrow> string \<Rightarrow> string \<Rightarrow> bool \<Rightarrow> release_node \<Rightarrow> target_image list" where
  "node_images c spec registry arch withKubeVirt node =
     (let releaseTag = releaseTagFor (nd_Version node) arch;
          payload = toTargetImage (nd_Image node) (releasePayloadDestination registry releaseTag) None
      in payload #
         (case ExtractComponentImages c (nd_Image node) arch of
            Inl _ \<Rightarrow> []
          | Inr comps \<Rightarrow>
              map (\<lambda>comp. toTargetImage (cp_Image comp)
                     (releaseComponentDestination registry releaseTag (cp_Name comp) (cp_Image comp)) None) comps
              @ (if withKubeVirt \<and> pf_KubeVirtContainer (ms_Platform spec)
                 then (case ExtractKubeVirtImages c (nd_Image node) (ReleaseArchitectures spec) of
                         Inl _ \<Rightarrow> []
                       | Inr kvImages \<Rightarrow>
                           map (\<lambda>kvImg. toTargetImage kvImg
                                  (releaseComponentDestination registry releaseTag kubeVirtComponentName kvImg) None) kvImages)
                 else [])))"

definition collectReleasesForArch ::
  "'a resolvers \<Rightarrow> mirror_spec \<Rightarrow> string \<Rightarrow> string \<Rightarrow> bool \<Rightarrow> release_node list \<Rightarrow> target_image list" where
  "collectReleasesForArch c spec registry arch withKubeVirt payloadNodes =
     concat (map (node_images c spec registry arch withKubeVirt) payloadNodes)"

fun collect_archs ::
  "'a resolvers \<Rightarrow> mirror_spec \<Rightarrow> string \<Rightarrow> release_channel \<Rightarrow> (string, release_node list) gomap
    \<Rightarrow> bool \<Rightarrow> string list \<Rightarrow> collect_error + target_image list" where
  "collect_archs c spec registry rel nodesByArch first [] = Inr []"
| "collect_archs c spec registry rel nodesByArch first (arch # archs) =
     (case (case mget nodesByArch arch of
              Some nodes \<Rightarrow> Inr nodes
            | None \<Rightarrow> (case ResolveReleasePayloadNodes c rel arch of
                         Inl err \<Rightarrow> Inl (ResolveRelease (rc_Name rel) arch err)
                       | Inr nodes \<Rightarrow> Inr nodes)) of
        Inl err \<Rightarrow> Inl err
      | Inr payloadNodes \<Rightarrow>
          (case collect_archs c spec registry rel nodesByArch False archs of
             Inl err \<Rightarrow> Inl err
           | Inr rest \<Rightarrow> Inr (collectReleasesForArch c spec registry arch first payloadNodes @ rest)))"

definition CollectReleasesForChannel ::
  "'a resolvers \<Rightarrow> mirror_spec \<Rightarrow> string \<Rightarrow> release_channel \<Rightarrow> (string, release_node list) gomap
    \<Rightarrow> collect_error + target_image list" where
  "CollectReleasesForChannel c spec registry rel nodesByArch =
     collect_archs c spec registry rel nodesByArch True (ReleaseArchitectures spec)"

text \<open>A loop over spec entries that logs and skips the entries that fail.\<close>

definition collect_each :: "('b \<Rightarrow> collect_error + 'i list) \<Rightarrow> 'b list \<Rightarrow> 'i list" where
  "collect_each f xs = concat (map (\<lambda>x. case f x of Inl _ \<Rightarrow> [] | Inr images \<Rightarrow> images) xs)"

definition CollectReleases :: "'a resolvers \<Rightarrow> mirror_spec \<Rightarrow> string \<Rightarrow> metadata \<Rightarrow> collect_error + target_image list" where
  "CollectReleases c spec registry meta =
     Inr (collect_each (\<lambda>rel. CollectReleasesForChannel c spec registry rel []) (pf_Channels (ms_Platform spec)))"

definition CollectOperatorEntry :: "'a resolvers \<Rightarrow> operator \<Rightarrow> string \<Rightarrow> collect_error + target_image list" where
  "CollectOperatorEntry c op registry =
     (case ResolveCatalogWithBundles c (op_Catalog op) (op_Packages op) of
        Inl err \<Rightarrow> Inl err
      | Inr imagesWithBundles \<Rightarrow>
          Inr (map (\<lambda>(img, info). (toTargetImage img (ComponentDestination registry img) None)
                 \<lparr>ti_BundleRef := bi_Label info, ti_IsBundleImage := bi_IsBundleImage info\<rparr>) imagesWithBundles))"

definition CollectOperators :: "'a resolvers \<Rightarrow> mirror_spec \<Rightarrow> string \<Rightarrow> metadata \<Rightarrow> collect_error + target_image list" where
  "CollectOperators c spec registry meta =
     Inr (collect_each (\<lambda>op. CollectOperatorEntry c op registry) (ms_Operators spec))"

definition additional_destination :: "string \<Rightarrow> additional_image \<Rightarrow> string" where
  "additional_destination registry img =
     (let ref1 = (if ai_TargetRepo img \<noteq> [] then ai_TargetRepo img else ai_Name img);
          ref2 = (if ai_TargetTag img \<noteq> [] then stripTagOrDigest ref1 @ '':'' @ ai_TargetTag img else ref1)
      in registry @ ''/'' @ ref2)"

definition CollectAdditional :: "mirror_spec \<Rightarrow> string \<Rightarrow> metadata \<Rightarrow> collect_error + target_image list" where
  "CollectAdditional spec registry meta =
     Inr (map (\<lambda>img. toTargetImage (ai_Name img) (additional_destination registry img) meta) (ms_AdditionalImages spec))"

definition ResolveHelmChartArchive :: "'a resolvers \<Rightarrow> string \<Rightarrow> chart \<Rightarrow> collect_error + 'a \<times> string" where
  "ResolveHelmChartArchive c repoURL ch = DownloadChartArchive c repoURL ch"

definition EnumerateHelmChart :: "'a resolvers \<Rightarrow> string \<Rightarrow> chart \<Rightarrow> collect_error + 'a helm_chart_resolution" where
  "EnumerateHelmChart c repoURL ch =
     (case ResolveHelmChartArchive c repoURL ch of
        Inl err \<Rightarrow> Inl err
      | Inr (archive, version) \<Rightarrow>
          (case LoadChartArchive c archive of
             Inl err \<Rightarrow> Inl err
           | Inr loaded \<Rightarrow>
               (case ImagesFromChart c loaded (ch_ImagePaths ch) of
                  Inl err \<Rightarrow> Inl err
                | Inr images \<Rightarrow> Inr \<lparr>hr_Images = images, hr_Archive = archive, hr_Version = version\<rparr>)))"

definition CollectHelm :: "'a resolvers \<Rightarrow> mirror_spec \<Rightarrow> string \<Rightarrow> metadata \<Rightarrow> collect_error + target_image list" where
  "CollectHelm c spec registry meta =
     Inr (concat (map (\<lambda>repo. collect_each (\<lambda>ch.
            (case EnumerateHelmChart c (rp_URL repo) ch of
               Inl err \<Rightarrow> Inl err
             | Inr res \<Rightarrow> Inr (map (\<lambda>img. toTargetImage img (registry @ ''/'' @ img) meta) (hr_Images res))))
          (rp_Charts repo)) (ms_HelmRepositories spec)))"

definition CollectTargetImages ::
  "'a resolvers \<Rightarrow> mirror_spec \<Rightarrow> string \<Rightarrow> metadata \<Rightarrow> collect_error + target_image list" where
  "CollectTargetImages c spec registry meta =
     (case CollectReleases c spec registry meta of
        Inl err \<Rightarrow> Inl err
      | Inr rel \<Rightarrow>
          (case CollectOperators c spec registry meta of
             Inl err \<Rightarrow> Inl err
           | Inr op \<Rightarrow>
               (case CollectAdditional spec registry meta of
                  Inl err \<Rightarrow> Inl err
                | Inr add \<Rightarrow>
                    (case CollectHelm c spec registry meta of
                       Inl err \<Rightarrow> Inl err
                     | Inr helmImages \<Rightarrow> Inr (BlockImages (rel @ op @ add @ helmImages) (ms_BlockedImages spec))))))"

section \<open>Facts\<close>

lemma ti_toTargetImage [simp]:
  "ti_Source (toTargetImage s d m) = s" "ti_Destination (toTargetImage s d m) = d"
  by (simp_all add: toTargetImage_def)

lemma BlockImages_filter:
  "BlockImages images blocked = filter (\<lambda>img. \<not> (\<exists>b \<in> set blocked. ImageBlocked (ti_Source img) b)) images"
  by (simp add: BlockImages_def imageMatchesAnyBlocked_iff)

lemma in_collect_each: "y \<in> set (collect_each f xs) \<longleftrightarrow> (\<exists>x \<in> set xs. \<exists>ys. f x = Inr ys \<and> y \<in> set ys)"
proof (induction xs)
  case Nil
  then show ?case by (simp add: collect_each_def)
next
  case (Cons x xs)
  then show ?case by (cases "f x") (simp_all add: collect_each_def)
qed

definition chart_images :: "'a resolvers \<Rightarrow> string \<Rightarrow> metadata \<Rightarrow> string \<Rightarrow> chart \<Rightarrow> collect_error + target_image list" where
  "chart_images c registry meta url ch =
     (case EnumerateHelmChart c url ch of
        Inl err \<Rightarrow> Inl err
      | Inr res \<Rightarrow> Inr (map (\<lambda>img. toTargetImage img (registry @ ''/'' @ img) meta) (hr_Images res)))"

lemma in_chart_images:
  "(\<exists>ys. chart_images c registry meta url ch = Inr ys \<and> img \<in> set ys) \<longleftrightarrow>
   (\<exists>res. EnumerateHelmChart c url ch = Inr res \<and> (\<exists>i \<in> set (hr_Images res). img = toTargetImage i (registry @ ''/'' @ i) meta))"
  by (cases "EnumerateHelmChart c url ch") (auto simp: chart_images_def)

lemma CollectHelm_eq:
  "CollectHelm c spec registry meta =
     Inr (concat (map (\<lambda>repo. collect_each (chart_images c registry meta (rp_URL repo)) (rp_Charts repo)) (ms_HelmRepositories spec)))"
  by (simp add: CollectHelm_def chart_images_def [abs_def])

text \<open>
  Collecting an ImageSet always succeeds, whatever the upstream services answer, and an
  entry that cannot be resolved costs only its own images: the result holds exactly the images of the
  channels, catalogs and charts that did resolve and of the additional images, less those whose source
  matches a blocked name, and no blocked image survives from any of the four kinds of content.
\<close>

theorem CollectTargetImages_exact:
  "\<exists>images. CollectTargetImages c spec registry meta = Inr images \<and>
     (\<forall>img. img \<in> set images \<longleftrightarrow>
        \<not> (\<exists>b \<in> set (ms_BlockedImages spec). ImageBlocked (ti_Source img) b) \<and>
        ((\<exists>rel \<in> set (pf_Channels (ms_Platform spec)). \<exists>is.
             CollectReleasesForChannel c spec registry rel [] = Inr is \<and> img \<in> set is) \<or>
         (\<exists>op \<in> set (ms_Operators spec). \<exists>is. CollectOperatorEntry c op registry = Inr is \<and> img \<in> set is) \<or>
         (\<exists>a \<in> set (ms_AdditionalImages spec). img = toTargetImage (ai_Name a) (additional_destination registry a) meta) \<or>
         (\<exists>repo \<in> set (ms_HelmRepositories spec). \<exists>ch \<in> set (rp_Charts repo). \<exists>res.
             EnumerateHelmChart c (rp_URL repo) ch = Inr res \<and>
             (\<exists>i \<in> set (hr_Images res). img = toTargetImage i (registry @ ''/'' @ i) meta))))"
proof -
  let ?helm = "concat (map (\<lambda>repo. collect_each (chart_images c registry meta (rp_URL repo)) (rp_Charts repo)) (ms_HelmRepositories spec))"
  have helm: "img \<in> set ?helm \<longleftrightarrow> (\<exists>repo \<in> set (ms_HelmRepositories spec). \<exists>ch \<in> set (rp_Charts repo). \<exists>res.
      EnumerateHelmChart c (rp_URL repo) ch = Inr res \<and>
      (\<exists>i \<in> set (hr_Images res). img = toTargetImage i (registry @ ''/'' @ i) meta))" for img
    by (simp add: in_collect_each in_chart_images)
  show ?thesis
    by (simp only: CollectTargetImages_def CollectReleases_def CollectOperators_def CollectAdditional_def CollectHelm_eq
        sum.case BlockImages_filter sum.inject ex_simps simp_thms set_filter set_append mem_Collect_eq Un_iff helm
        in_collect_each set_map image_iff ex_simps simp_thms)
      (simp only: conj_commute simp_thms)
qed

abbreviation release_archs :: "string set" where
  "release_archs \<equiv> {''amd64'', ''arm64'', ''ppc64le'', ''s390x'', ''multi''}"

lemma releaseArchName_no_dash: "a \<in> release_archs \<Longrightarrow> CHR ''-'' \<notin> set (releaseArchName a)"
  by (elim insertE) (simp_all add: releaseArchName_def)

lemma releaseArchName_inject: "inj_on releaseArchName release_archs"
  by (simp add: releaseArchName_def)

text \<open>
  Release payloads of different versions or architectures never share a destination: for
  the architectures of the release graphs, the payload tag determines both.
\<close>

theorem releasePayloadDestination_inject:
  assumes "a \<in> release_archs" and "a' \<in> release_archs"
    and "v \<noteq> []" and "v' \<noteq> []"
    and "releasePayloadDestination registry (releaseTagFor v a) = releasePayloadDestination registry (releaseTagFor v' a')"
  shows "v = v' \<and> a = a'"
proof -
  have eq: "v @ CHR ''-'' # releaseArchName a = v' @ CHR ''-'' # releaseArchName a'"
    using assms(3-5) by (simp add: releasePayloadDestination_def releaseTagFor_def)
  have "CHR ''-'' \<notin> set (releaseArchName a)" "CHR ''-'' \<notin> set (releaseArchName a')"
    using assms(1,2) by (simp_all only: releaseArchName_no_dash simp_thms)
  then have "last_index (v @ CHR ''-'' # releaseArchName a) ''-'' = Some (length v)"
    "last_index (v' @ CHR ''-'' # releaseArchName a') ''-'' = Some (length v')"
    by (simp_all only: last_index_char simp_thms)
  then have "length v = length v'" using eq by simp
  then have "v = v'" "releaseArchName a = releaseArchName a'" using eq by simp_all
  then show ?thesis using inj_onD [OF releaseArchName_inject _ assms(1,2)] by simp
qed

theorem releasePayloadDestination_inject_witness:
  "releasePayloadDestination ''r'' (releaseTagFor ''4.21.9'' ''amd64'') \<noteq>
   releasePayloadDestination ''r'' (releaseTagFor ''4.21.9'' ''arm64'')"
  using releasePayloadDestination_inject [of "''amd64''" "''arm64''" "''4.21.9''" "''4.21.9''" "''r''"] by auto

text \<open>
  The KubeVirt container disks of one release do collide: all of them, one per requested
  architecture, are collected with one and the same destination, so only one can survive in the state.
\<close>

theorem kubevirt_shared_destination:
  assumes "ExtractComponentImages c (nd_Image node) arch = Inr comps"
    and "pf_KubeVirtContainer (ms_Platform spec)"
    and "ExtractKubeVirtImages c (nd_Image node) (ReleaseArchitectures spec) = Inr kvImages"
    and "kv \<in> set kvImages"
  shows "toTargetImage kv
      (registry @ ''/openshift/release:'' @ releaseTagFor (nd_Version node) arch @ ''-kube-virt-container'') None
    \<in> set (node_images c spec registry arch True node)"
  using assms by (simp add: node_images_def Let_def releaseComponentDestination_def)

definition sample_resolvers :: "unit resolvers" where
  "sample_resolvers = \<lparr>ResolveReleaseNodes = \<lambda>_ _ _ _ _ _ _. Inr [\<lparr>nd_Version = ''4.21.9'', nd_Image = ''q.io/p@sha256:1''\<rparr>],
     ExtractComponentImages = \<lambda>_ _. Inr [], ExtractKubeVirtImages = \<lambda>_ _. Inr [''q.io/kv@sha256:2'', ''q.io/kv@sha256:3''],
     ResolveCatalogWithBundles = \<lambda>_ _. Inl (ResolverError ''no catalog''), DownloadChartArchive = \<lambda>_ _. Inl (ResolverError ''no chart''),
     LoadChartArchive = \<lambda>_. Inl (ResolverError ''no chart''), ImagesFromChart = \<lambda>_ _. Inl (ResolverError ''no chart'')\<rparr>"

definition sample_spec :: mirror_spec where
  "sample_spec = \<lparr>ms_Platform = \<lparr>pf_Graph = False, pf_Channels = [], pf_Architectures = [''amd64'', ''arm64''], pf_Release = [],
       pf_KubeVirtContainer = True\<rparr>,
     ms_Operators = [], ms_AdditionalImages = [], ms_HelmRepositories = [], ms_BlockedImages = [], ms_RequireSignedImages = False\<rparr>"

theorem kubevirt_shared_destination_witness:
  "\<exists>i1 \<in> set (node_images sample_resolvers sample_spec ''r'' ''amd64'' True \<lparr>nd_Version = ''4.21.9'', nd_Image = ''q.io/p@sha256:1''\<rparr>).
   \<exists>i2 \<in> set (node_images sample_resolvers sample_spec ''r'' ''amd64'' True \<lparr>nd_Version = ''4.21.9'', nd_Image = ''q.io/p@sha256:1''\<rparr>).
     ti_Source i1 \<noteq> ti_Source i2 \<and> ti_Destination i1 = ti_Destination i2"
proof -
  let ?node = "\<lparr>nd_Version = ''4.21.9'', nd_Image = ''q.io/p@sha256:1''\<rparr>"
  define d where "d = ''r'' @ ''/openshift/release:'' @ releaseTagFor ''4.21.9'' ''amd64'' @ ''-kube-virt-container''"
  have "toTargetImage kv d None \<in> set (node_images sample_resolvers sample_spec ''r'' ''amd64'' True ?node)"
    if "kv \<in> set [''q.io/kv@sha256:2'', ''q.io/kv@sha256:3'']" for kv
    using kubevirt_shared_destination [of sample_resolvers ?node "''amd64''" "[]" sample_spec
        "[''q.io/kv@sha256:2'', ''q.io/kv@sha256:3'']" kv "''r''"] that
    unfolding d_def by (simp only:) (simp add: sample_resolvers_def sample_spec_def)
  from this [of "''q.io/kv@sha256:2''"] this [of "''q.io/kv@sha256:3''"] show ?thesis
    by (intro bexI [of _ "toTargetImage ''q.io/kv@sha256:2'' d None"] bexI [of _ "toTargetImage ''q.io/kv@sha256:3'' d None"])
      simp_all
qed

end
