(* ===== verification/Signature.thy ===== *)
theory Signature
  imports ApiTypes "HOL-Library.Multiset"
begin

text \<open>
  Signatures of spec entries and the cache tokens stored under them
  (\<open>api/v1alpha1/resolution_sig.go\<close>). \<open>encoding/json\<close> turns a struct into an object whose
  \<open>omitempty\<close> fields are left out when empty; that object is the value \<open>json\<close> below. The rendering of
  the object as bytes and SHA-256 are the parameter \<open>digest\<close>. \<open>sort.Slice\<close> is a sort by the given
  key; on slices whose keys are pairwise different every sort gives the same result.
\<close>

section \<open>JSON objects\<close>

datatype json = JStr string | JInt int | JBool bool | JArr "json list" | JObj "(string \<times> json) list"

fun json_empty :: "json \<Rightarrow> bool" where
  "json_empty (JStr s) = (s = [])"
| "json_empty (JInt i) = (i = 0)"
| "json_empty (JBool b) = (\<not> b)"
| "json_empty (JArr xs) = (xs = [])"
| "json_empty (JObj kvs) = False"

definition omitempty :: "string \<Rightarrow> json \<Rightarrow> (string \<times> json) list" where
  "omitempty k v = (if json_empty v then [] else [(k, v)])"

section \<open>Signatures\<close>

definition hashJSON :: "(json \<Rightarrow> string) \<Rightarrow> json \<Rightarrow> string" where
  "hashJSON digest v = digest v"

definition bundle_json :: "include_bundle \<Rightarrow> (string \<times> json) list" where
  "bundle_json b = omitempty ''minVersion'' (JStr (ib_MinVersion b)) @ omitempty ''maxVersion'' (JStr (ib_MaxVersion b))"

definition channel_json :: "include_channel \<Rightarrow> json" where
  "channel_json c = JObj ((''name'', JStr (ic_Name c)) # bundle_json (ic_Bundle c))"

definition package_json :: "include_package \<Rightarrow> json" where
  "package_json p =
     JObj ([(''n'', JStr (ip_Name p))]
       @ omitempty ''d'' (JStr (ip_DefaultChannel p))
       @ omitempty ''c'' (JArr (map channel_json (sort_key ic_Name (ip_Channels p))))
       @ [(''b'', JObj (bundle_json (ip_Bundle p)))]
       @ omitempty ''pv'' (JInt (ip_PreviousVersions p))
       @ omitempty ''sb'' (JArr (map JStr (sort (ip_Bundles p)))))"

definition operator_json :: "operator \<Rightarrow> json" where
  "operator_json op =
     JObj ([(''cat'', JStr (op_Catalog op))]
       @ omitempty ''tc'' (JStr (op_TargetCatalog op))
       @ omitempty ''tt'' (JStr (op_TargetTag op))
       @ omitempty ''f'' (JBool (op_Full op))
       @ omitempty ''sd'' (JBool (op_SkipDependencies op))
       @ omitempty ''p'' (JArr (map package_json (sort_key ip_Name (op_Packages op)))))"

definition OperatorEntrySignature :: "(json \<Rightarrow> string) \<Rightarrow> operator \<Rightarrow> string" where
  "OperatorEntrySignature digest op = hashJSON digest (operator_json op)"

definition channel_payload :: "release_channel \<Rightarrow> string list \<Rightarrow> bool \<Rightarrow> json" where
  "channel_payload rc arch kubeVirt =
     JObj ([(''n'', JStr (rc_Name rc))]
       @ omitempty ''t'' (JStr (rc_Type rc))
       @ omitempty ''min'' (JStr (rc_MinVersion rc))
       @ omitempty ''max'' (JStr (rc_MaxVersion rc))
       @ omitempty ''f'' (JBool (rc_Full rc))
       @ omitempty ''sp'' (JBool (rc_ShortestPath rc))
       @ omitempty ''a'' (JArr (map JStr (sort arch)))
       @ omitempty ''kv'' (JBool kubeVirt))"

definition ReleaseChannelSignature :: "(json \<Rightarrow> string) \<Rightarrow> release_channel \<Rightarrow> string list \<Rightarrow> bool \<Rightarrow> string" where
  "ReleaseChannelSignature digest rc architectures kubeVirt = hashJSON digest (channel_payload rc architectures kubeVirt)"

section \<open>Annotation keys and cache tokens\<close>

definition CatalogDigestAnnotationKey :: "string \<Rightarrow> string" where
  "CatalogDigestAnnotationKey sig =
     CatalogDigestAnnotationPrefix @ (if length sig > 48 then take 48 sig else sig)"

definition ReleaseDigestAnnotationKey :: "string \<Rightarrow> string" where
  "ReleaseDigestAnnotationKey sig =
     ReleaseDigestAnnotationPrefix @ (if length sig > 48 then take 48 sig else sig)"

definition OperatorCacheVersion :: string where
  "OperatorCacheVersion = ''v5''"

definition OperatorCacheValue :: "string \<Rightarrow> string" where
  "OperatorCacheValue dig = OperatorCacheVersion @ '':'' @ dig"

definition OperatorCacheHit :: "string \<Rightarrow> string \<Rightarrow> bool" where
  "OperatorCacheHit cached dig \<longleftrightarrow> cached \<noteq> [] \<and> cached = OperatorCacheValue dig"

definition ParseOperatorCacheDigest :: "string \<Rightarrow> string \<times> bool" where
  "ParseOperatorCacheDigest value =
     (let prefix = OperatorCacheVersion @ '':''
      in if \<not> hasPrefix value prefix then ([], False)
         else (let dig = trimPrefix value prefix in (dig, dig \<noteq> [])))"

section \<open>Reordering\<close>

lemma sort_key_reorder:
  assumes "mset xs = mset ys" and "distinct (map f xs)"
  shows "sort_key f xs = sort_key f ys"
proof -
  have set: "set xs = set ys" and dist: "distinct (map f ys)"
    using mset_eq_setD [OF assms(1)] assms by (simp, metis distinct_map mset_eq_imp_distinct_iff mset_eq_setD)
  have "distinct (map f (sort_key f zs)) \<longleftrightarrow> distinct (map f zs)" for zs
    by (simp add: distinct_map)
  then show ?thesis
    using assms(2) dist set
    by (intro map_sorted_distinct_set_unique [where f = f]) (simp_all add: distinct_map)
qed

lemma sort_key_Nil_iff [simp]: "sort_key f xs = [] \<longleftrightarrow> xs = []"
  by (metis length_0_conv length_sort)

text \<open>Two packages that differ at most in the order of their channels and bundles.\<close>

definition same_package :: "include_package \<Rightarrow> include_package \<Rightarrow> bool" where
  "same_package p q \<longleftrightarrow> ip_Name p = ip_Name q \<and> ip_DefaultChannel p = ip_DefaultChannel q
     \<and> ip_Bundle p = ip_Bundle q \<and> ip_PreviousVersions p = ip_PreviousVersions q
     \<and> mset (ip_Channels p) = mset (ip_Channels q) \<and> mset (ip_Bundles p) = mset (ip_Bundles q)"

lemma package_json_reorder:
  assumes "same_package p q" and "distinct (map ic_Name (ip_Channels p))"
  shows "package_json p = package_json q"
proof -
  have "sort_key ic_Name (ip_Channels p) = sort_key ic_Name (ip_Channels q)"
    using assms by (intro sort_key_reorder) (simp_all add: same_package_def)
  moreover have "sort (ip_Bundles p) = sort (ip_Bundles q)"
    using assms(1) by (intro properties_for_sort) (simp_all add: same_package_def)
  ultimately show ?thesis using assms(1) by (simp add: package_json_def same_package_def)
qed

section \<open>Reading a payload back\<close>

lemma mget_omitempty [simp]: "mget (omitempty k v) k' = (if k' = k \<and> \<not> json_empty v then Some v else None)"
  by (simp add: omitempty_def)

lemma inj_JStr: "inj JStr"
  by (simp add: inj_def)

lemma bundle_json_inject: "bundle_json b = bundle_json b' \<Longrightarrow> b = b'"
proof -
  assume eq: "bundle_json b = bundle_json b'"
  have "mget (bundle_json x) ''minVersion'' = (if ib_MinVersion x = [] then None else Some (JStr (ib_MinVersion x)))"
    "mget (bundle_json x) ''maxVersion'' = (if ib_MaxVersion x = [] then None else Some (JStr (ib_MaxVersion x)))" for x
    by (simp_all add: bundle_json_def map_add_def)
  from this [of b] this [of b'] eq have "ib_MinVersion b = ib_MinVersion b'" "ib_MaxVersion b = ib_MaxVersion b'"
    by (simp_all split: if_splits)
  then show "b = b'" by simp
qed

lemma channel_json_inject: "channel_json c = channel_json c' \<Longrightarrow> c = c'"
proof -
  assume "channel_json c = channel_json c'"
  then have "ic_Name c = ic_Name c'" "bundle_json (ic_Bundle c) = bundle_json (ic_Bundle c')"
    by (simp_all add: channel_json_def)
  then show "c = c'" using bundle_json_inject by simp
qed

lemma inj_channel_json: "inj channel_json"
  by (meson channel_json_inject injI)

text \<open>The fields of a package that the payload of its signature determines.\<close>

definition package_key :: "include_package \<Rightarrow> string \<times> string \<times> include_channel list \<times> include_bundle \<times> int \<times> string list" where
  "package_key p = (ip_Name p, ip_DefaultChannel p, sort_key ic_Name (ip_Channels p), ip_Bundle p,
     ip_PreviousVersions p, sort (ip_Bundles p))"

definition field :: "string \<Rightarrow> json \<Rightarrow> json option" where
  "field k j = (case j of JObj kvs \<Rightarrow> mget kvs k | _ \<Rightarrow> None)"

lemma package_json_fields:
  "field ''n'' (package_json p) = Some (JStr (ip_Name p))"
  "field ''d'' (package_json p) = (if ip_DefaultChannel p = [] then None else Some (JStr (ip_DefaultChannel p)))"
  "field ''c'' (package_json p) = (if ip_Channels p = [] then None else Some (JArr (map channel_json (sort_key ic_Name (ip_Channels p)))))"
  "field ''b'' (package_json p) = Some (JObj (bundle_json (ip_Bundle p)))"
  "field ''pv'' (package_json p) = (if ip_PreviousVersions p = 0 then None else Some (JInt (ip_PreviousVersions p)))"
  "field ''sb'' (package_json p) = (if ip_Bundles p = [] then None else Some (JArr (map JStr (sort (ip_Bundles p)))))"
  by (simp_all add: field_def package_json_def map_add_def)

lemma package_json_inject:
  assumes "package_json p = package_json q"
  shows "package_key p = package_key q"
proof -
  have "sort_key ic_Name (ip_Channels p) = sort_key ic_Name (ip_Channels q)"
    using package_json_fields(3) [of p] package_json_fields(3) [of q] assms
    by (auto split: if_splits simp: inj_map_eq_map [OF inj_channel_json])
  moreover have "sort (ip_Bundles p) = sort (ip_Bundles q)"
    using package_json_fields(6) [of p] package_json_fields(6) [of q] assms
    by (auto split: if_splits simp: inj_map_eq_map [OF inj_JStr])
  moreover have "ip_Name p = ip_Name q" "ip_Bundle p = ip_Bundle q"
    using package_json_fields(1,4) [of p] package_json_fields(1,4) [of q] assms by (auto dest: bundle_json_inject)
  moreover have "ip_DefaultChannel p = ip_DefaultChannel q" "ip_PreviousVersions p = ip_PreviousVersions q"
    using package_json_fields(2,5) [of p] package_json_fields(2,5) [of q] assms by (auto split: if_splits)
  ultimately show ?thesis by (simp add: package_key_def)
qed

lemma operator_json_fields:
  "field ''cat'' (operator_json op) = Some (JStr (op_Catalog op))"
  "field ''tc'' (operator_json op) = (if op_TargetCatalog op = [] then None else Some (JStr (op_TargetCatalog op)))"
  "field ''tt'' (operator_json op) = (if op_TargetTag op = [] then None else Some (JStr (op_TargetTag op)))"
  "field ''f'' (operator_json op) = (if op_Full op then Some (JBool True) else None)"
  "field ''sd'' (operator_json op) = (if op_SkipDependencies op then Some (JBool True) else None)"
  "field ''p'' (operator_json op) = (if op_Packages op = [] then None else Some (JArr (map package_json (sort_key ip_Name (op_Packages op)))))"
  by (simp_all add: field_def operator_json_def map_add_def)

lemma map_sort_pair:
  "map (\<lambda>p. (key p, f p)) (sort_key key xs) = sort_key fst (map (\<lambda>p. (key p, f p)) xs)"
proof -
  have "map (\<lambda>p. (key p, f p)) (insort_key key x ys) = insort_key fst (key x, f x) (map (\<lambda>p. (key p, f p)) ys)" for x ys
    by (induction ys) auto
  then show ?thesis by (induction xs) auto
qed

lemma package_list_reorder:
  assumes "list_all2 same_package ps qs" and "\<forall>p \<in> set ps. distinct (map ic_Name (ip_Channels p))"
  shows "map ip_Name ps = map ip_Name qs"
    and "map package_json (sort_key ip_Name ps) = map package_json (sort_key ip_Name qs)"
proof -
  let ?pair = "\<lambda>p. (ip_Name p, package_json p)"
  have eq: "map ?pair ps = map ?pair qs"
    using assms by (induction rule: list_all2_induct) (auto simp: same_package_def package_json_reorder)
  have "map snd (map ?pair (sort_key ip_Name ps)) = map snd (map ?pair (sort_key ip_Name qs))"
    by (simp only: map_sort_pair eq)
  then show "map package_json (sort_key ip_Name ps) = map package_json (sort_key ip_Name qs)" by (simp add: o_def)
  have "map fst (map ?pair ps) = map fst (map ?pair qs)" by (simp only: eq)
  then show "map ip_Name ps = map ip_Name qs" by (simp add: o_def)
qed

section \<open>What a signature identifies\<close>

text \<open>
  An operator entry's signature does not depend on the order in which its packages, their
  channels and their bundles are written in the spec, provided the names inside each of these lists
  are different. Reordering a spec therefore never invalidates the resolution cache.
\<close>

theorem OperatorEntrySignature_reorder:
  assumes "op_Catalog a = op_Catalog b" and "op_TargetCatalog a = op_TargetCatalog b"
    and "op_TargetTag a = op_TargetTag b" and "op_Full a = op_Full b" and "op_SkipDependencies a = op_SkipDependencies b"
    and "list_all2 same_package (op_Packages a) qs" and "mset (op_Packages b) = mset qs"
    and "distinct (map ip_Name (op_Packages a))"
    and "\<forall>p \<in> set (op_Packages a). distinct (map ic_Name (ip_Channels p))"
  shows "OperatorEntrySignature digest a = OperatorEntrySignature digest b"
proof -
  note pkgs = package_list_reorder [OF assms(6,9)]
  have "sort_key ip_Name qs = sort_key ip_Name (op_Packages b)"
    using pkgs(1) assms(7,8) by (intro sort_key_reorder) auto
  then show ?thesis using assms(1-5) pkgs(2) by (simp add: OperatorEntrySignature_def operator_json_def)
qed

definition sample_package :: "string \<Rightarrow> string list \<Rightarrow> include_package" where
  "sample_package n chs = \<lparr>ip_Name = n, ip_Channels = map (\<lambda>c. \<lparr>ic_Name = c, ic_Bundle = \<lparr>ib_MinVersion = [], ib_MaxVersion = []\<rparr>\<rparr>) chs,
     ip_DefaultChannel = [], ip_PreviousVersions = 0, ip_Bundle = \<lparr>ib_MinVersion = [], ib_MaxVersion = []\<rparr>, ip_Bundles = []\<rparr>"

definition sample_operator :: "include_package list \<Rightarrow> operator" where
  "sample_operator ps = \<lparr>op_Packages = ps, op_Catalog = ''q.io/cat:v4'', op_TargetCatalog = [], op_TargetTag = [],
     op_Full = False, op_SkipDependencies = False, op_SignatureVerification = None\<rparr>"

theorem OperatorEntrySignature_reorder_witness:
  "\<forall>digest. OperatorEntrySignature digest (sample_operator [sample_package ''b'' [''s'', ''f''], sample_package ''a'' []]) =
   OperatorEntrySignature digest (sample_operator [sample_package ''a'' [], sample_package ''b'' [''f'', ''s'']])"
proof
  fix digest
  have "list_all2 same_package [sample_package ''b'' [''s'', ''f''], sample_package ''a'' []]
      [sample_package ''b'' [''f'', ''s''], sample_package ''a'' []]"
    by (simp add: same_package_def sample_package_def)
  then show "OperatorEntrySignature digest (sample_operator [sample_package ''b'' [''s'', ''f''], sample_package ''a'' []]) =
    OperatorEntrySignature digest (sample_operator [sample_package ''a'' [], sample_package ''b'' [''f'', ''s'']])"
    by (intro OperatorEntrySignature_reorder
          [where qs = "[sample_package ''b'' [''f'', ''s''], sample_package ''a'' []]"])
      (simp_all add: sample_operator_def, simp_all add: sample_package_def)
qed

text \<open>
  If the digest is free of collisions, a signature identifies everything the resolution
  of an operator entry depends on: entries with equal signatures agree on the catalog, the target
  catalog and tag, both flags, and package by package (sorted by name) on name, default channel,
  channel filters, version bounds, depth and selected bundles.
\<close>

theorem OperatorEntrySignature_inject:
  assumes "inj_on digest {operator_json a, operator_json b}"
    and "OperatorEntrySignature digest a = OperatorEntrySignature digest b"
  shows "op_Catalog a = op_Catalog b \<and> op_TargetCatalog a = op_TargetCatalog b \<and> op_TargetTag a = op_TargetTag b \<and>
    op_Full a = op_Full b \<and> op_SkipDependencies a = op_SkipDependencies b \<and>
    map package_key (sort_key ip_Name (op_Packages a)) = map package_key (sort_key ip_Name (op_Packages b))"
proof -
  have eq: "operator_json a = operator_json b"
    by (rule inj_onD [OF assms(1)]) (use assms(2) in \<open>simp_all add: OperatorEntrySignature_def hashJSON_def\<close>)
  have keys: "map package_json xs = map package_json ys \<Longrightarrow> map package_key xs = map package_key ys" for xs ys
    by (induction xs ys rule: list_induct2') (auto intro: package_json_inject)
  have "map package_json (sort_key ip_Name (op_Packages a)) = map package_json (sort_key ip_Name (op_Packages b))"
    using operator_json_fields(6) [of a] operator_json_fields(6) [of b] eq by (auto split: if_splits)
  moreover have "op_Catalog a = op_Catalog b"
    using operator_json_fields(1) [of a] operator_json_fields(1) [of b] eq by simp
  moreover have "op_TargetCatalog a = op_TargetCatalog b"
    using operator_json_fields(2) [of a] operator_json_fields(2) [of b] eq by (simp split: if_splits)
  moreover have "op_TargetTag a = op_TargetTag b"
    using operator_json_fields(3) [of a] operator_json_fields(3) [of b] eq by (simp split: if_splits)
  moreover have "op_Full a = op_Full b"
    using operator_json_fields(4) [of a] operator_json_fields(4) [of b] eq by (simp split: if_splits)
  moreover have "op_SkipDependencies a = op_SkipDependencies b"
    using operator_json_fields(5) [of a] operator_json_fields(5) [of b] eq by (simp split: if_splits)
  ultimately show ?thesis using keys by blast
qed

theorem OperatorEntrySignature_inject_witness:
  "sort_key ip_Name (op_Packages (sample_operator [sample_package ''b'' [], sample_package ''a'' []])) =
   sort_key ip_Name (op_Packages (sample_operator [sample_package ''a'' [], sample_package ''b'' []]))
   \<and> map package_key (sort_key ip_Name (op_Packages (sample_operator [sample_package ''b'' [], sample_package ''a'' []]))) =
     map package_key (sort_key ip_Name (op_Packages (sample_operator [sample_package ''a'' [], sample_package ''b'' []])))"
proof -
  let ?a = "sample_operator [sample_package ''b'' [], sample_package ''a'' []]"
  let ?b = "sample_operator [sample_package ''a'' [], sample_package ''b'' []]"
  have eq: "operator_json ?a = operator_json ?b" by code_simp
  have "OperatorEntrySignature (\<lambda>j. case j of JObj kvs \<Rightarrow> replicate (length kvs) CHR ''x'' | _ \<Rightarrow> []) ?a =
      OperatorEntrySignature (\<lambda>j. case j of JObj kvs \<Rightarrow> replicate (length kvs) CHR ''x'' | _ \<Rightarrow> []) ?b"
    by (simp add: OperatorEntrySignature_def eq)
  from OperatorEntrySignature_inject [OF _ this] eq show ?thesis
    by (simp add: inj_on_def) code_simp
qed

lemma OperatorCacheValue_parse: "ParseOperatorCacheDigest (OperatorCacheValue d) = (d, d \<noteq> [])"
  using trimPrefix_append [of "OperatorCacheVersion @ '':''" d] hasPrefix_append [of "OperatorCacheVersion @ '':''" d]
  by (simp add: ParseOperatorCacheDigest_def OperatorCacheValue_def Let_def del: trimPrefix_append hasPrefix_append)

lemma ParseOperatorCacheDigest_Some:
  assumes "ParseOperatorCacheDigest v = (d, True)"
  shows "v = OperatorCacheValue d" "d \<noteq> []"
proof -
  have p: "hasPrefix v (OperatorCacheVersion @ '':'')" and d: "d = trimPrefix v (OperatorCacheVersion @ '':'')" "d \<noteq> []"
    using assms by (auto simp: ParseOperatorCacheDigest_def Let_def split: if_splits)
  then obtain t where t: "v = (OperatorCacheVersion @ '':'') @ t" unfolding hasPrefix_iff by blast
  then have "d = t" using d(1) trimPrefix_append by metis
  then show "v = OperatorCacheValue d" "d \<noteq> []" using t d(2) by (simp_all add: OperatorCacheValue_def)
qed

interpretation token: codec OperatorCacheValue
  "\<lambda>v. case ParseOperatorCacheDigest v of (d, ok) \<Rightarrow> if ok then Some d else None" "\<lambda>d. d" "\<lambda>d. d \<noteq> []"
  by unfold_locales (simp add: OperatorCacheValue_parse)

text \<open>
  The cache token the manager stores for a resolved catalog is read back by the ImageSet
  controller as the same digest, and only by it: a value is a cache hit for a digest exactly when it
  parses, as the current version, to that digest. A token of another version or an empty digest is never
  taken for a resolved one.
\<close>

theorem OperatorCacheHit_iff:
  "ParseOperatorCacheDigest (OperatorCacheValue d) = (d, d \<noteq> []) \<and>
   (OperatorCacheHit v d \<and> d \<noteq> [] \<longleftrightarrow> ParseOperatorCacheDigest v = (d, True)) \<and>
   (OperatorCacheHit (OperatorCacheValue d) d' \<longleftrightarrow> d' = d)"
  using OperatorCacheValue_parse [of d] ParseOperatorCacheDigest_Some [of v d]
  by (auto simp: OperatorCacheHit_def OperatorCacheValue_def OperatorCacheVersion_def)

text \<open>
  The name part of every cache annotation key, what follows the slash, fits the 63
  characters Kubernetes allows, whatever the signature, and the two kinds of keys never coincide.
\<close>

theorem annotation_key_bounds:
  "(\<exists>name. CatalogDigestAnnotationKey sig = ''mirror.openshift.io/'' @ name \<and> length name \<le> 63) \<and>
   (\<exists>name. ReleaseDigestAnnotationKey sig = ''mirror.openshift.io/'' @ name \<and> length name \<le> 63) \<and>
   CatalogDigestAnnotationKey sig \<noteq> ReleaseDigestAnnotationKey sig'"
  by (simp add: CatalogDigestAnnotationKey_def ReleaseDigestAnnotationKey_def
      CatalogDigestAnnotationPrefix_def ReleaseDigestAnnotationPrefix_def)

end
