(* ===== verification/Merge.thy ===== *)
theory Merge
  imports Ownership Collector Signature
begin

text \<open>
  Building the state of one ImageSet from what was resolved and what was known before, and deciding
  when to resolve (\<open>pkg/mirror/manager/manager_resolve.go\<close>). The state maps these functions work on
  hold no nil entries; the clock of \<open>time.Since\<close> is the parameter \<open>now\<close>.
\<close>

section \<open>Writing resolved images\<close>

text \<open>The separator of a per-image bundle label: blank, em dash (three UTF-8 bytes), blank.\<close>

definition label_sep :: string where
  "label_sep = [CHR '' '', CHR 0xE2, CHR 0x80, CHR 0x94, CHR '' '']"

definition resolved_entry ::
  "string \<Rightarrow> string \<Rightarrow> string \<Rightarrow> image_entry option \<Rightarrow> target_image \<Rightarrow> image_entry" where
  "resolved_entry origin sig originRef prev img =
     (let ref = (if ti_BundleRef img \<noteq> [] then originRef @ label_sep @ ti_BundleRef img else originRef);
          entry = zero_entry\<lparr>Source := ti_Source img, State := statePending, Origin := origin, EntrySig := sig,
                    OriginRef := ref, IsBundleImage := ti_IsBundleImage img\<rparr>
      in case prev of
           None \<Rightarrow> entry
         | Some existing \<Rightarrow>
             if Origin existing = origin \<or> Origin existing = [] then
               (let entry1 = (if contains (Source entry) '','' \<and> \<not> contains (Source existing) '',''
                              then entry\<lparr>Source := Source existing\<rparr> else entry);
                    sigChanged = (origin = OriginHelmChart \<and> EntrySig existing \<noteq> [] \<and> EntrySig existing \<noteq> sig)
                in if State existing = stateMirrored \<and> \<not> sigChanged
                   then entry1\<lparr>State := State existing, RetryCount := RetryCount existing, LastError := LastError existing\<rparr>
                   else entry1)
             else entry)"

definition mergeIntoStateWithSig ::
  "image_state \<Rightarrow> target_image list \<Rightarrow> string \<Rightarrow> string \<Rightarrow> string \<Rightarrow> image_state \<Rightarrow> image_state" where
  "mergeIntoStateWithSig dst images origin sig originRef prev =
     fold (\<lambda>img dst. mput (ti_Destination img)
             (resolved_entry origin sig originRef (mget prev (ti_Destination img)) img) dst) images dst"

section \<open>Carrying entries over\<close>

definition carry_helm_entry :: "string \<Rightarrow> string \<Rightarrow> string \<times> image_entry \<Rightarrow> image_state \<Rightarrow> image_state" where
  "carry_helm_entry origin originRef de dst = (case de of (dest, entry) \<Rightarrow>
     if Origin entry \<noteq> origin then dst
     else if OriginRef entry \<noteq> [] \<and> \<not> hasPrefix (OriginRef entry) originRef then dst
     else if mget dst dest \<noteq> None then dst
     else mput dest (if OriginRef entry = [] then entry\<lparr>OriginRef := originRef\<rparr> else entry) dst)"

definition carryOverHelmEntries :: "image_state \<Rightarrow> image_state \<Rightarrow> string \<Rightarrow> string \<Rightarrow> image_state" where
  "carryOverHelmEntries src dst origin originRef = fold (carry_helm_entry origin originRef) src dst"

definition backfill :: "string \<Rightarrow> string \<Rightarrow> image_entry \<Rightarrow> image_entry" where
  "backfill sig originRef entry =
     (let cp1 = (if EntrySig entry = [] then entry\<lparr>EntrySig := sig\<rparr> else entry);
          cp2 = (if OriginRef cp1 = [] \<and> originRef \<noteq> [] then cp1\<lparr>OriginRef := originRef\<rparr> else cp1)
      in if Origin cp2 = OriginOperator \<and> Catalog cp2 = []
         then cp2\<lparr>Catalog := CatalogFromOriginRef (OriginRef cp2)\<rparr> else cp2)"

definition carry_sig_entry :: "string \<Rightarrow> string \<Rightarrow> string \<Rightarrow> string \<times> image_entry \<Rightarrow> image_state \<Rightarrow> image_state" where
  "carry_sig_entry origin sig originRef de dst = (case de of (dest, entry) \<Rightarrow>
     if Origin entry \<noteq> origin then dst
     else if EntrySig entry \<noteq> [] \<and> EntrySig entry \<noteq> sig then dst
     else if mget dst dest \<noteq> None then dst
     else mput dest (backfill sig originRef entry) dst)"

definition carryOverByOriginAndSig :: "image_state \<Rightarrow> image_state \<Rightarrow> string \<Rightarrow> string \<Rightarrow> string \<Rightarrow> image_state" where
  "carryOverByOriginAndSig src dst origin sig originRef = fold (carry_sig_entry origin sig originRef) src dst"

definition filterBlockedImages :: "image_state \<Rightarrow> string list \<Rightarrow> image_state" where
  "filterBlockedImages state blocked =
     (if length blocked = 0 then state
      else filter (\<lambda>(dest, entry). \<not> (\<exists>b \<in> set blocked. ImageBlocked (Source entry) b)) state)"

section \<open>Cache annotations\<close>

definition catalogDigestsOf :: "annotations \<Rightarrow> annotations" where
  "catalogDigestsOf anns = filter (\<lambda>(k, v). hasPrefix k CatalogDigestAnnotationPrefix) anns"

definition desired_keys :: "(json \<Rightarrow> string) \<Rightarrow> mirror_spec \<Rightarrow> string list" where
  "desired_keys digest spec =
     (let pf = ms_Platform spec;
          arch = (if length (pf_Architectures pf) = 0 then [''amd64''] else pf_Architectures pf)
      in map (\<lambda>ch. ReleaseDigestAnnotationKey (ReleaseChannelSignature digest ch arch (pf_KubeVirtContainer pf))) (pf_Channels pf)
         @ map (\<lambda>op. CatalogDigestAnnotationKey (OperatorEntrySignature digest op)) (ms_Operators spec))"

definition is_cache_key :: "string \<Rightarrow> bool" where
  "is_cache_key k \<longleftrightarrow> hasPrefix k CatalogDigestAnnotationPrefix \<or> hasPrefix k ReleaseDigestAnnotationPrefix"

definition pruneObsoleteCacheAnnotations :: "(json \<Rightarrow> string) \<Rightarrow> annotations \<Rightarrow> mirror_spec \<Rightarrow> bool \<times> annotations" where
  "pruneObsoleteCacheAnnotations digest anns spec =
     (let desired = desired_keys digest spec;
          obsolete = (\<lambda>k. is_cache_key k \<and> k \<notin> set desired)
      in (\<exists>kv \<in> set anns. obsolete (fst kv), filter (\<lambda>(k, v). \<not> obsolete k) anns))"

definition hasStaleCacheAnnotations :: "annotations \<Rightarrow> bool" where
  "hasStaleCacheAnnotations anns \<longleftrightarrow>
     (\<exists>(k, v) \<in> set anns. hasPrefix k CatalogDigestAnnotationPrefix \<and> \<not> hasPrefix v (OperatorCacheVersion @ '':''))"

definition put_owned :: "string \<times> string \<Rightarrow> annotations \<Rightarrow> annotations" where
  "put_owned kv m = (case kv of (k, v) \<Rightarrow>
     if is_cache_key k \<or> k = GraphImageBuiltAnnotation \<or> k = RecollectHonoredAnnotation then mput k v m else m)"

text \<open>What one attempt of the annotation patch writes, given the object as it is now.\<close>

definition patched_annotations :: "annotations \<Rightarrow> annotations \<Rightarrow> annotations \<Rightarrow> annotations" where
  "patched_annotations held desired fresh =
     (let kept = filter (\<lambda>(k, v).
            \<not> (is_cache_key k \<or> k = GraphImageBuiltAnnotation)
            \<and> \<not> (k = RecollectAnnotation \<and> mget held RecollectAnnotation = Some v \<and> mget desired k = None)) fresh
      in fold put_owned desired kept)"

section \<open>When to resolve\<close>

definition effectivePollInterval :: "mirror_target \<Rightarrow> int \<times> bool" where
  "effectivePollInterval mt =
     (case mt_PollInterval mt of
        None \<Rightarrow> (24 * hour, True)
      | Some d \<Rightarrow> if d \<le> 0 then (0, False)
                 else if d < 10 * minute then (10 * minute, True) else (d, True))"

definition shouldResolve :: "int \<Rightarrow> image_set \<Rightarrow> mirror_target \<Rightarrow> image_state \<Rightarrow> bool" where
  "shouldResolve now is mt currentState =
     (if length currentState = 0 then True
      else if mget (is_Annotations is) RecollectAnnotation \<noteq> None then True
      else if is_Generation is > is_ObservedGeneration is then True
      else if hasStaleCacheAnnotations (is_Annotations is) then True
      else (case effectivePollInterval mt of (pollInterval, pollingEnabled) \<Rightarrow>
              if \<not> pollingEnabled then False
              else (case is_LastSuccessfulPollTime is of
                      None \<Rightarrow> True
                    | Some t \<Rightarrow> now - t \<ge> pollInterval)))"

section \<open>Comparing states\<close>

definition entry_changed :: "image_entry \<Rightarrow> image_entry \<Rightarrow> bool" where
  "entry_changed va vb \<longleftrightarrow> Source va \<noteq> Source vb \<or> State va \<noteq> State vb \<or> Origin va \<noteq> Origin vb
     \<or> EntrySig va \<noteq> EntrySig vb \<or> RetryCount va \<noteq> RetryCount vb \<or> LastError va \<noteq> LastError vb
     \<or> OriginRef va \<noteq> OriginRef vb"

definition equalState :: "image_state \<Rightarrow> image_state \<Rightarrow> bool" where
  "equalState a b \<longleftrightarrow> length a = length b \<and>
     (\<forall>(k, va) \<in> set a. case mget b k of None \<Rightarrow> False | Some vb \<Rightarrow> \<not> entry_changed va vb)"

section \<open>Facts about the merges\<close>

lemma mergeIntoStateWithSig_lookup:
  "mget (mergeIntoStateWithSig dst images origin sig originRef prev) d =
     (case filter (\<lambda>img. ti_Destination img = d) images of
        [] \<Rightarrow> mget dst d
      | imgs \<Rightarrow> Some (resolved_entry origin sig originRef (mget prev d) (last imgs)))"
  by (induction images arbitrary: dst) (auto simp: mergeIntoStateWithSig_def split: list.splits)

lemma wf_mergeIntoStateWithSig [simp]:
  "wf_map dst \<Longrightarrow> wf_map (mergeIntoStateWithSig dst images origin sig originRef prev)"
  by (induction images arbitrary: dst) (auto simp: mergeIntoStateWithSig_def)

interpretation carry_helm: range_loop "carry_helm_entry origin originRef" mget for origin originRef
  by unfold_locales (auto simp: carry_helm_entry_def)

interpretation carry_sig: range_loop "carry_sig_entry origin sig originRef" mget for origin sig originRef
  by unfold_locales (auto simp: carry_sig_entry_def)

lemma carryOverHelmEntries_lookup:
  assumes "wf_map src"
  shows "mget (carryOverHelmEntries src dst origin originRef) d =
    (case mget dst d of
       Some e \<Rightarrow> Some e
     | None \<Rightarrow>
         (case mget src d of
            None \<Rightarrow> None
          | Some e \<Rightarrow>
              if Origin e = origin \<and> (OriginRef e = [] \<or> hasPrefix (OriginRef e) originRef)
              then Some (if OriginRef e = [] then e\<lparr>OriginRef := originRef\<rparr> else e) else None))"
  using carry_helm.loop_obs [OF assms, of origin originRef dst d]
  by (auto simp: carryOverHelmEntries_def carry_helm_entry_def split: option.splits)

lemma carryOverByOriginAndSig_lookup:
  assumes "wf_map src"
  shows "mget (carryOverByOriginAndSig src dst origin sig originRef) d =
    (case mget dst d of
       Some e \<Rightarrow> Some e
     | None \<Rightarrow>
         (case mget src d of
            None \<Rightarrow> None
          | Some e \<Rightarrow>
              if Origin e = origin \<and> (EntrySig e = [] \<or> EntrySig e = sig) then Some (backfill sig originRef e) else None))"
  using carry_sig.loop_obs [OF assms, of origin sig originRef dst d]
  by (auto simp: carryOverByOriginAndSig_def carry_sig_entry_def split: option.splits)

lemma wf_carry_fold:
  assumes "\<And>x dst. wf_map dst \<Longrightarrow> wf_map (f x dst)" and "wf_map dst"
  shows "wf_map (fold f src dst)"
  using assms by (induction src arbitrary: dst) auto

lemma wf_carryOverHelmEntries [simp]: "wf_map dst \<Longrightarrow> wf_map (carryOverHelmEntries src dst origin originRef)"
  unfolding carryOverHelmEntries_def by (rule wf_carry_fold) (auto simp: carry_helm_entry_def split: prod.splits)

lemma wf_carryOverByOriginAndSig [simp]: "wf_map dst \<Longrightarrow> wf_map (carryOverByOriginAndSig src dst origin sig originRef)"
  unfolding carryOverByOriginAndSig_def by (rule wf_carry_fold) (auto simp: carry_sig_entry_def split: prod.splits)

lemma backfill_lifecycle [simp]:
  "Source (backfill sig r e) = Source e" "State (backfill sig r e) = State e" "LastError (backfill sig r e) = LastError e"
  "RetryCount (backfill sig r e) = RetryCount e" "PermanentlyFailed (backfill sig r e) = PermanentlyFailed e"
  "NextRetryAt (backfill sig r e) = NextRetryAt e" "SignatureVerified (backfill sig r e) = SignatureVerified e"
  "SourceDigest (backfill sig r e) = SourceDigest e" "Origin (backfill sig r e) = Origin e"
  by (simp_all add: backfill_def Let_def)

lemma filterBlockedImages_lookup:
  "wf_map st \<Longrightarrow> mget (filterBlockedImages st blocked) d =
     (case mget st d of
        None \<Rightarrow> None
      | Some e \<Rightarrow> if \<exists>b \<in> set blocked. ImageBlocked (Source e) b then None else Some e)"
  by (auto simp: filterBlockedImages_def mget_filter split: option.splits)

lemma wf_filterBlockedImages [simp]: "wf_map st \<Longrightarrow> wf_map (filterBlockedImages st blocked)"
  by (simp add: filterBlockedImages_def)

lemma resolved_entry_state:
  "State (resolved_entry origin sig originRef prev img) = statePending \<or>
   (\<exists>e. prev = Some e \<and> State e = stateMirrored \<and> State (resolved_entry origin sig originRef prev img) = stateMirrored)"
  by (auto simp: resolved_entry_def zero_entry_def Let_def split: option.splits)

lemma resolved_entry_meta [simp]:
  "Origin (resolved_entry origin sig originRef prev img) = origin"
  "EntrySig (resolved_entry origin sig originRef prev img) = sig"
  "PermanentlyFailed (resolved_entry origin sig originRef prev img) = False"
  by (auto simp: resolved_entry_def zero_entry_def Let_def split: option.splits)

section \<open>Properties\<close>

text \<open>
  Property C8. A cache hit or a failed probe carries an entry over with its whole lifecycle: every entry
  of the previous state with the same origin and the same (or no) signature is in the new state with
  its state, retries, errors, permanent-failure mark, backoff, signature and digest bookkeeping
  unchanged, unless the destination was already written; an entry of another signature is not pulled
  in, and entries already in the new state are never overwritten.
\<close>

theorem carryOver_preserves:
  assumes "wf_map src"
  shows "(mget dst d \<noteq> None \<longrightarrow> mget (carryOverByOriginAndSig src dst origin sig originRef) d = mget dst d) \<and>
    (mget dst d = None \<and> mget src d = Some e \<and> Origin e = origin \<and> (EntrySig e = [] \<or> EntrySig e = sig) \<longrightarrow>
      (\<exists>e'. mget (carryOverByOriginAndSig src dst origin sig originRef) d = Some e' \<and> EntrySig e' = sig \<and>
        Origin e' = origin \<and> Source e' = Source e \<and> State e' = State e \<and> RetryCount e' = RetryCount e \<and>
        LastError e' = LastError e \<and> PermanentlyFailed e' = PermanentlyFailed e \<and> NextRetryAt e' = NextRetryAt e \<and>
        SignatureVerified e' = SignatureVerified e \<and> SourceDigest e' = SourceDigest e)) \<and>
    (mget dst d = None \<and> mget src d = Some e \<and> EntrySig e \<noteq> [] \<and> EntrySig e \<noteq> sig \<longrightarrow>
      mget (carryOverByOriginAndSig src dst origin sig originRef) d = None)"
proof -
  have "EntrySig e = [] \<or> EntrySig e = sig \<Longrightarrow> EntrySig (backfill sig originRef e) = sig"
    by (auto simp: backfill_def Let_def)
  then show ?thesis by (auto simp: carryOverByOriginAndSig_lookup [OF assms])
qed

theorem carryOver_preserves_witness:
  "mget (carryOverByOriginAndSig [(''r/a:1'', zero_entry\<lparr>Origin := OriginRelease, EntrySig := ''s2''\<rparr>)] [] OriginRelease ''s1'' ''ref'')
     ''r/a:1'' = None"
  using carryOver_preserves [of "[(''r/a:1'', zero_entry\<lparr>Origin := OriginRelease, EntrySig := ''s2''\<rparr>)]" "[]" "''r/a:1''"
      OriginRelease "''s1''" "''ref''" "zero_entry\<lparr>Origin := OriginRelease, EntrySig := ''s2''\<rparr>"]
  by (simp add: zero_entry_def)

text \<open>
  A re-published chart is not mirrored again. Resolving it does reset its entry to Pending,
  as the archive digest in its signature changed, but merging the result into the live state, with the
  worker updates first, restores Mirrored: the entry handed to the dispatcher is Mirrored although its
  signature is the new one.
\<close>

theorem republished_chart_stays_mirrored:
  assumes "wf_map live" and "wf_map dst" and "mget live d = Some e" and "State e = stateMirrored" and "Origin e = OriginHelmChart"
    and "mget (mget_list om d) n = None" and "hasOwner ows d n" and "onlyOwner ows d n"
    and "EntrySig e \<noteq> []" and "EntrySig e \<noteq> sig"
    and "fresh = mergeIntoStateWithSig dst
           [\<lparr>ti_Source = src, ti_Destination = d, ti_State = [], ti_BundleRef = [], ti_IsBundleImage = False\<rparr>]
           OriginHelmChart sig ref (filterByImageSet live ows om n)"
    and "mergeResolvedIntoConsolidated live ows (mergeWorkerUpdates fresh live) n = (st', ows', orphaned)"
  shows "(\<exists>f. mget fresh d = Some f \<and> State f = statePending) \<and>
    (\<exists>e'. mget st' d = Some e' \<and> State e' = stateMirrored \<and> EntrySig e' = sig)"
proof -
  let ?img = "\<lparr>ti_Source = src, ti_Destination = d, ti_State = [], ti_BundleRef = [], ti_IsBundleImage = False\<rparr>"
  have "ownerView om d n e = e" using assms(6) by (simp add: ownerView_def)
  then have view: "mget (filterByImageSet live ows om n) d = Some e"
    using assms(1,3,7) by (simp add: filterByImageSet_lookup)
  have fresh: "mget fresh d = Some (resolved_entry OriginHelmChart sig ref (Some e) ?img)"
    by (simp add: assms(11) mergeIntoStateWithSig_lookup view)
  have pend: "State (resolved_entry OriginHelmChart sig ref (Some e) ?img) = statePending"
    using assms(9,10) by (simp add: resolved_entry_def zero_entry_def Let_def)
  have wf: "wf_map (mergeWorkerUpdates fresh live)"
    using assms(2,11) by (simp add: mergeWorkerUpdates_def wf_map_map_snd)
  obtain f where f: "mget (mergeWorkerUpdates fresh live) d = Some f" "EntrySig f = sig"
    using fresh assms(3,4) by (simp add: mergeWorkerUpdates_lookup)
  have "mget st' d = Some (refresh_entry True e f)"
    using merge_lookup(1) [OF assms(1) wf assms(12), of d] f(1) assms(3,8) by simp
  then show ?thesis using fresh pend f(2) assms(4) by (simp add: refresh_entry_def Let_def)
qed

definition chart_entry :: image_entry where
  "chart_entry = zero_entry\<lparr>State := stateMirrored, Origin := OriginHelmChart, EntrySig := ''sig-old''\<rparr>"

definition chart_image :: target_image where
  "chart_image = \<lparr>ti_Source = ''helm://c'', ti_Destination = ''r/c:1'', ti_State = [], ti_BundleRef = [], ti_IsBundleImage = False\<rparr>"

theorem republished_chart_stays_mirrored_witness:
  "\<exists>e'. mget (fst (mergeResolvedIntoConsolidated [(''r/c:1'', chart_entry)] [(''r/c:1'', [''is''])]
      (mergeWorkerUpdates (mergeIntoStateWithSig [] [chart_image] OriginHelmChart ''sig-new'' ''helm repo/c:1''
         (filterByImageSet [(''r/c:1'', chart_entry)] [(''r/c:1'', [''is''])] [] ''is'')) [(''r/c:1'', chart_entry)]) ''is'')) ''r/c:1'' = Some e'
    \<and> State e' = stateMirrored \<and> EntrySig e' = ''sig-new''"
proof -
  let ?live = "[(''r/c:1'', chart_entry)]" and ?ows = "[(''r/c:1'', [''is''])]"
  let ?fresh = "mergeIntoStateWithSig [] [chart_image] OriginHelmChart ''sig-new'' ''helm repo/c:1'' (filterByImageSet ?live ?ows [] ''is'')"
  let ?m = "mergeResolvedIntoConsolidated ?live ?ows (mergeWorkerUpdates ?fresh ?live) ''is''"
  have m: "?m = (fst ?m, fst (snd ?m), snd (snd ?m))" by simp
  have own: "hasOwner ?ows ''r/c:1'' ''is''" "onlyOwner ?ows ''r/c:1'' ''is''"
    by (simp_all add: hasOwner_def onlyOwner_def)
  have e: "State chart_entry = stateMirrored" "Origin chart_entry = OriginHelmChart" "EntrySig chart_entry \<noteq> []"
    "EntrySig chart_entry \<noteq> ''sig-new''" by (simp_all add: chart_entry_def)
  have lk: "mget ?live ''r/c:1'' = Some chart_entry" "mget (mget_list [] ''r/c:1'') ''is'' = None" by simp_all
  from republished_chart_stays_mirrored [OF _ _ lk(1) e(1,2) lk(2) own e(3,4) _ m] show ?thesis
    by (simp add: chart_image_def)
qed

text \<open>
  A chart that fails to resolve keeps everything it had, but it also keeps what belongs to
  other charts of the repository: an entry is carried over when its label starts with the label
  of the failing chart, so the entries of a chart \<open>foobar\<close>, even one that was removed from the spec,
  survive while a chart \<open>foo\<close> cannot be resolved.
\<close>

theorem carryOverHelm_prefix:
  assumes "wf_map src" and "mget src d = Some e" and "mget dst d = None" and "Origin e = origin"
    and "OriginRef e = ''helm '' @ repo @ ''/'' @ name @ suffix"
  shows "mget (carryOverHelmEntries src dst origin (''helm '' @ repo @ ''/'' @ name)) d = Some e"
proof -
  have "hasPrefix (OriginRef e) (''helm '' @ repo @ ''/'' @ name)"
    using hasPrefix_append [of "''helm '' @ repo @ ''/'' @ name" suffix] unfolding assms(5) append_assoc .
  then show ?thesis using assms by (simp add: carryOverHelmEntries_lookup)
qed

theorem carryOverHelm_prefix_witness:
  "mget (carryOverHelmEntries [(''r/x:1'', zero_entry\<lparr>Origin := OriginHelm, OriginRef := ''helm repo/foobar''\<rparr>)] []
     OriginHelm (''helm '' @ ''repo'' @ ''/'' @ ''foo'')) ''r/x:1'' =
   Some (zero_entry\<lparr>Origin := OriginHelm, OriginRef := ''helm repo/foobar''\<rparr>)"
  by (rule carryOverHelm_prefix [where suffix = "''bar''"]) (simp_all add: zero_entry_def)

interpretation publish: range_loop put_owned mget
  by unfold_locales (auto simp: put_owned_def)

lemma patched_annotations_lookup:
  assumes "wf_map fresh" and "wf_map desired"
  shows "mget (patched_annotations held desired fresh) k =
    (if is_cache_key k \<or> k = GraphImageBuiltAnnotation then mget desired k
     else if k = RecollectHonoredAnnotation \<and> mget desired k \<noteq> None then mget desired k
     else if k = RecollectAnnotation \<and> mget fresh k = mget held k \<and> mget desired k = None then None
     else mget fresh k)"
proof -
  have "\<not> is_cache_key RecollectHonoredAnnotation" "\<not> is_cache_key RecollectAnnotation"
    "RecollectHonoredAnnotation \<noteq> GraphImageBuiltAnnotation" "RecollectAnnotation \<noteq> RecollectHonoredAnnotation"
    "RecollectAnnotation \<noteq> GraphImageBuiltAnnotation"
    by code_simp+
  then show ?thesis
    by (auto simp: patched_annotations_def publish.loop_obs [OF assms(2)] put_owned_def mget_filter [OF assms(1)] Let_def
        split: option.splits)
qed

text \<open>
  Publishing the result of a resolve leaves every annotation of others alone, and never
  loses a recollect request: the request is removed only if it is still the one the resolve started
  from, so one written in the meantime stays for the next round. The cache annotations become exactly those
  of the resolve.
\<close>

theorem patch_keeps_requests:
  assumes "wf_map fresh" and "wf_map desired"
  shows "(mget fresh RecollectAnnotation \<noteq> None \<and> mget fresh RecollectAnnotation \<noteq> mget held RecollectAnnotation \<longrightarrow>
      mget (patched_annotations held desired fresh) RecollectAnnotation = mget fresh RecollectAnnotation) \<and>
    (is_cache_key k \<longrightarrow> mget (patched_annotations held desired fresh) k = mget desired k) \<and>
    (\<not> is_cache_key k \<and> k \<notin> {GraphImageBuiltAnnotation, RecollectHonoredAnnotation, RecollectAnnotation} \<longrightarrow>
      mget (patched_annotations held desired fresh) k = mget fresh k)"
proof -
  have "\<not> is_cache_key RecollectAnnotation" "RecollectAnnotation \<noteq> RecollectHonoredAnnotation"
    "RecollectAnnotation \<noteq> GraphImageBuiltAnnotation" by code_simp+
  then show ?thesis by (simp add: patched_annotations_lookup [OF assms])
qed

theorem patch_keeps_requests_witness:
  "mget (patched_annotations [(RecollectAnnotation, ''t1'')] [] [(RecollectAnnotation, ''t2'')]) RecollectAnnotation = Some ''t2''"
  using patch_keeps_requests [of "[(RecollectAnnotation, ''t2'')]" "[]" "[(RecollectAnnotation, ''t1'')]"] by simp

text \<open>
  Polling is never more frequent than every ten minutes, is off exactly when the interval
  is set to zero or less, and defaults to a day. An ImageSet that has state, no pending request, an
  observed spec and current cache tokens is resolved again exactly when that interval has passed since its
  last successful poll (or there was none).
\<close>

theorem shouldResolve_polling:
  assumes "st \<noteq> []" and "mget (is_Annotations is) RecollectAnnotation = None"
    and "is_Generation is \<le> is_ObservedGeneration is" and "\<not> hasStaleCacheAnnotations (is_Annotations is)"
  shows "(case mt_PollInterval mt of Some d \<Rightarrow> d \<le> 0 | None \<Rightarrow> False) \<and> \<not> shouldResolve now is mt st \<or>
    (\<exists>i \<ge> 10 * minute. effectivePollInterval mt = (i, True) \<and>
       (mt_PollInterval mt = None \<longrightarrow> i = 24 * hour) \<and>
       (\<forall>d \<ge> 10 * minute. mt_PollInterval mt = Some d \<longrightarrow> i = d) \<and>
       (shouldResolve now is mt st \<longleftrightarrow>
          (case is_LastSuccessfulPollTime is of None \<Rightarrow> True | Some t \<Rightarrow> i \<le> now - t)))"
proof (cases "mt_PollInterval mt")
  case None
  then show ?thesis using assms by (simp add: shouldResolve_def effectivePollInterval_def)
next
  case (Some d)
  then show ?thesis
    using assms by (cases "d \<le> 0"; cases "d < 10 * minute") (simp_all add: shouldResolve_def effectivePollInterval_def)
qed

definition sample_image_set :: image_set where
  "sample_image_set = \<lparr>is_Name = ''is'', is_Annotations = [], is_Generation = 1, is_Mirror = sample_spec,
     is_ObservedGeneration = 1, is_LastSuccessfulPollTime = Some 0\<rparr>"

definition sample_target :: mirror_target where
  "sample_target = \<lparr>mt_Name = ''mt'', mt_Registry = ''r'', mt_ImageSets = [''is''], mt_Insecure = False, mt_AuthSecret = [],
     mt_Concurrency = 1, mt_BatchSize = 10, mt_PollInterval = Some second, mt_CheckExistInterval = None, mt_MaxRetries = 0\<rparr>"

theorem shouldResolve_polling_witness:
  "\<not> shouldResolve (599 * second) sample_image_set sample_target [(''r/a'', zero_entry)]
   \<and> shouldResolve (600 * second) sample_image_set sample_target [(''r/a'', zero_entry)]"
  using shouldResolve_polling [of "[(''r/a'', zero_entry)]" sample_image_set sample_target "599 * second"]
    shouldResolve_polling [of "[(''r/a'', zero_entry)]" sample_image_set sample_target "600 * second"]
  by (auto simp: sample_image_set_def sample_target_def hasStaleCacheAnnotations_def effectivePollInterval_def)

end
