(* ===== verification/Manager.thy ===== *)
theory Manager
  imports Merge
begin

text \<open>
  The manager of one MirrorTarget (\<open>pkg/mirror/manager/manager.go\<close>): its in-memory state, the worker
  status API and the entry lifecycle (failures and backoff, resets, dropped ImageSets).

  Every operation that runs under the mutex is one atomic function on the record. The clock and the
  random jitter are the record \<open>env\<close>; metrics and log lines are not modelled. Entries of the live
  state are never nil (loading skips nil entries and no operation writes one).
\<close>

section \<open>State\<close>

record status_request =
  rq_PodName :: string
  rq_Destination :: string
  rq_Digest :: string
  rq_Error :: string

record mirror_manager =
  mm_TargetName :: string
  mm_Namespace :: string
  mm_workerToken :: string
  mm_urgentFlush :: bool
  mm_statusQueue :: "status_request list"
  mm_inProgress :: "(string, string) gomap"
  mm_mirrored :: "(string, bool) gomap"
  mm_imageState :: image_state
  mm_owners :: owners_map
  mm_ownerMeta :: owner_meta
  mm_catalogDigests :: "(string, annotations) gomap"
  mm_lastDriftCheck :: int
  mm_stateDirty :: bool
  mm_summaryWritten :: bool
  mm_statusDirty :: bool
  mm_driftSweepRunning :: bool
  mm_heartbeat :: int
  mm_maxRetries :: int
  mm_statusAPIReady :: bool

text \<open>\<open>ev_rand n\<close> is \<open>rand.Int64N\<close>: a number from 0 below a positive \<open>n\<close>.\<close>

record env =
  ev_now :: int
  ev_rand :: "int \<Rightarrow> int"

definition rand_ok :: "env \<Rightarrow> bool" where
  "rand_ok ev \<longleftrightarrow> (\<forall>n > 0. 0 \<le> ev_rand ev n \<and> ev_rand ev n < n)"

abbreviation defaultMaxRetries :: int where "defaultMaxRetries \<equiv> 10"
abbreviation retryBackoffBase :: int where "retryBackoffBase \<equiv> minute"
abbreviation retryBackoffMax :: int where "retryBackoffMax \<equiv> hour"
abbreviation resolveTimeout :: int where "resolveTimeout \<equiv> hour"
abbreviation livenessStaleAfter :: int where "livenessStaleAfter \<equiv> resolveTimeout + 30 * minute"
abbreviation workerPendingTimeout :: int where "workerPendingTimeout \<equiv> 15 * minute"

abbreviation put_entry :: "string \<Rightarrow> image_entry \<Rightarrow> mirror_manager \<Rightarrow> mirror_manager" where
  "put_entry dest e m \<equiv> m\<lparr>mm_imageState := mput dest e (mm_imageState m)\<rparr>"

section \<open>Failures and backoff\<close>

definition retryBackoff :: "env \<Rightarrow> int \<Rightarrow> int" where
  "retryBackoff ev retryCount =
     (let d = (if retryCount \<ge> 1 \<and> retryCount \<le> 7
               then min (retryBackoffBase * 2 ^ nat (retryCount - 1)) retryBackoffMax else retryBackoffMax);
          jitter = ev_rand ev (d div 5) - d div 10
      in d + jitter)"

definition effectiveMaxRetries :: "mirror_manager \<Rightarrow> int" where
  "effectiveMaxRetries m = (if mm_maxRetries m > 0 then mm_maxRetries m else defaultMaxRetries)"

definition recordFailureLocked :: "env \<Rightarrow> mirror_manager \<Rightarrow> image_entry \<Rightarrow> image_entry" where
  "recordFailureLocked ev m entry =
     (let e1 = entry\<lparr>RetryCount := RetryCount entry + 1\<rparr>;
          e2 = e1\<lparr>NextRetryAt := Some (ev_now ev + retryBackoff ev (RetryCount e1))\<rparr>
      in if RetryCount e2 \<ge> effectiveMaxRetries m \<and> \<not> PermanentlyFailed e2
         then e2\<lparr>PermanentlyFailed := True\<rparr> else e2)"

definition resetMirroredLocked :: "string \<Rightarrow> mirror_manager \<Rightarrow> mirror_manager" where
  "resetMirroredLocked dest m =
     m\<lparr>mm_mirrored := mdel dest (mm_mirrored m), mm_stateDirty := True, mm_statusDirty := True\<rparr>"

definition setImageStateLocked :: "env \<Rightarrow> string \<Rightarrow> string \<Rightarrow> string \<Rightarrow> mirror_manager \<Rightarrow> mirror_manager" where
  "setImageStateLocked ev dest st lastError m =
     (case mget (mm_imageState m) dest of
        None \<Rightarrow> m
      | Some entry \<Rightarrow>
          if State entry = st \<and> LastError entry = lastError then m
          else
            (let e1 = entry\<lparr>State := st, LastError := lastError\<rparr>;
                 m1 = (if st \<noteq> stateMirrored then resetMirroredLocked dest m
                       else m\<lparr>mm_stateDirty := True, mm_statusDirty := True\<rparr>);
                 e2 = (if st = stateFailed then recordFailureLocked ev m e1 else e1\<lparr>NextRetryAt := None\<rparr>)
             in put_entry dest e2 m1))"

section \<open>Worker status API\<close>

definition enqueueStatus :: "status_request \<Rightarrow> mirror_manager \<Rightarrow> mirror_manager" where
  "enqueueStatus req m = m\<lparr>mm_statusQueue := mm_statusQueue m @ [req]\<rparr>"

definition queuedSuccess :: "mirror_manager \<Rightarrow> string \<Rightarrow> bool" where
  "queuedSuccess m dest \<longleftrightarrow> (\<exists>req \<in> set (mm_statusQueue m). rq_Destination req = dest \<and> rq_Error req = [])"

definition applyStatusLocked :: "env \<Rightarrow> status_request \<Rightarrow> mirror_manager \<Rightarrow> mirror_manager" where
  "applyStatusLocked ev req m =
     (let dest = rq_Destination req;
          m1 = (if rq_Error req \<noteq> [] then setImageStateLocked ev dest stateFailed (rq_Error req) m
                else
                  (let f1 = (if mget (mm_imageState m) dest \<noteq> None
                             then m\<lparr>mm_mirrored := mput dest True (mm_mirrored m)\<rparr> else m);
                       f2 = setImageStateLocked ev dest stateMirrored [] f1
                   in case mget (mm_imageState f2) dest of
                        Some entry \<Rightarrow>
                          if Origin entry = OriginAdditional \<and> rq_Digest req \<noteq> []
                          then (put_entry dest (entry\<lparr>SourceDigest := rq_Digest req\<rparr>) f2)\<lparr>mm_stateDirty := True\<rparr>
                          else f2
                      | None \<Rightarrow> f2))
      in m1\<lparr>mm_inProgress := mdel dest (mm_inProgress m1), mm_statusDirty := True\<rparr>)"

definition drainStatusQueueLocked :: "env \<Rightarrow> mirror_manager \<Rightarrow> mirror_manager" where
  "drainStatusQueueLocked ev m =
     fold (applyStatusLocked ev) (mm_statusQueue m) (m\<lparr>mm_statusQueue := []\<rparr>)"

datatype http_method = GET | POST | OtherMethod

record http_request =
  hq_Method :: http_method
  hq_Authorization :: string
  hq_Body :: "status_request option"
  hq_Dest :: string

text \<open>\<open>locked\<close>: another thread holds the mutex, so \<open>TryLock\<close> fails and the report stays queued.\<close>

definition handleStatusUpdate :: "env \<Rightarrow> bool \<Rightarrow> http_request \<Rightarrow> mirror_manager \<Rightarrow> nat \<times> mirror_manager" where
  "handleStatusUpdate ev locked r m =
     (if hq_Method r \<noteq> POST then (405, m)
      else if hq_Authorization r \<noteq> ''Bearer '' @ mm_workerToken m then (401, m)
      else (case hq_Body r of
              None \<Rightarrow> (400, m)
            | Some req \<Rightarrow>
                (let m1 = enqueueStatus req m;
                     m2 = (if \<not> locked then drainStatusQueueLocked ev m1 else m1)
                 in (200, m2\<lparr>mm_urgentFlush := True\<rparr>))))"

text \<open>
  \<open>tryRLockFor\<close> polls the lock: each element is one turn of its loop, whether the lock was acquired
  and the time read afterwards. \<^const>\<open>None\<close> is a loop that has not ended yet.
\<close>

fun tryRLockFor :: "int \<Rightarrow> (bool \<times> int) list \<Rightarrow> bool option" where
  "tryRLockFor deadline [] = None"
| "tryRLockFor deadline ((acquired, now) # polls) =
     (if acquired then Some True else if now > deadline then Some False else tryRLockFor deadline polls)"

definition handleShouldMirror :: "bool \<Rightarrow> http_request \<Rightarrow> mirror_manager \<Rightarrow> nat" where
  "handleShouldMirror acquired r m =
     (if hq_Method r \<noteq> GET then 405
      else if hq_Authorization r \<noteq> ''Bearer '' @ mm_workerToken m then 401
      else if hq_Dest r = [] then 400
      else if queuedSuccess m (hq_Dest r) then 410
      else if \<not> acquired then 200
      else (case mget (mm_imageState m) (hq_Dest r) of
              None \<Rightarrow> 410
            | Some entry \<Rightarrow> if State entry = stateMirrored then 410 else 200))"

definition touchHeartbeat :: "env \<Rightarrow> mirror_manager \<Rightarrow> mirror_manager" where
  "touchHeartbeat ev m = m\<lparr>mm_heartbeat := ev_now ev\<rparr>"

definition handleHealthz :: "env \<Rightarrow> mirror_manager \<Rightarrow> nat" where
  "handleHealthz ev m =
     (if mm_heartbeat m \<noteq> 0 \<and> ev_now ev - mm_heartbeat m > livenessStaleAfter then 503 else 200)"

definition handleReadyz :: "env \<Rightarrow> mirror_manager \<Rightarrow> nat" where
  "handleReadyz ev m =
     (if \<not> mm_statusAPIReady m then 503
      else if mm_heartbeat m \<noteq> 0 \<and> ev_now ev - mm_heartbeat m > livenessStaleAfter then 503 else 200)"

section \<open>Resets\<close>

definition reset_entry :: "string \<Rightarrow> string \<times> image_entry \<Rightarrow> bool \<times> mirror_manager \<Rightarrow> bool \<times> mirror_manager" where
  "reset_entry isName de cm = (case (de, cm) of ((dest, entry), (changed, m)) \<Rightarrow>
     if \<not> hasOwner (mm_owners m) dest isName then cm
     else if mget_str (mm_inProgress m) dest \<noteq> [] then cm
     else if State entry = statePending \<and> RetryCount entry = 0 \<and> LastError entry = [] \<and> \<not> SignatureVerified entry then cm
     else (True, (put_entry dest (entry\<lparr>State := statePending, RetryCount := 0, NextRetryAt := None, LastError := [],
                    SignatureVerified := False\<rparr>) m)\<lparr>mm_mirrored := mput dest False (mm_mirrored m)\<rparr>))"

definition resetImageSetToPendingLocked :: "string \<Rightarrow> mirror_manager \<Rightarrow> bool \<times> mirror_manager" where
  "resetImageSetToPendingLocked isName m = fold (reset_entry isName) (mm_imageState m) (False, m)"

definition recollect_entry :: "string \<Rightarrow> string \<times> image_entry \<Rightarrow> bool \<times> mirror_manager \<Rightarrow> bool \<times> mirror_manager" where
  "recollect_entry isName de cm = (case (de, cm) of ((dest, entry), (changed, m)) \<Rightarrow>
     if State entry \<noteq> stateFailed \<or> \<not> hasOwner (mm_owners m) dest isName then cm
     else if mget_str (mm_inProgress m) dest \<noteq> [] then cm
     else (True, put_entry dest (entry\<lparr>State := statePending, RetryCount := 0, NextRetryAt := None, LastError := []\<rparr>) m))"

definition resetFailedForRecollectLocked :: "string \<Rightarrow> mirror_manager \<Rightarrow> bool \<times> mirror_manager" where
  "resetFailedForRecollectLocked isName m = fold (recollect_entry isName) (mm_imageState m) (False, m)"

definition drop_owner :: "string list \<Rightarrow> string \<times> string list \<Rightarrow> bool \<times> mirror_manager \<Rightarrow> bool \<times> mirror_manager" where
  "drop_owner imageSets dn cm = (case (dn, cm) of ((dest, names), (changed, m)) \<Rightarrow>
     let kept = filter (containsString imageSets) names
     in if length kept = length names then cm
        else if length kept > 0
        then (let ows = mput dest kept (mm_owners m)
              in (True, m\<lparr>mm_owners := ows, mm_ownerMeta := pruneOwnerMetaLocked (mm_ownerMeta m) ows dest\<rparr>))
        else (True, m\<lparr>mm_owners := mdel dest (mm_owners m), mm_ownerMeta := mdel dest (mm_ownerMeta m),
                mm_imageState := mdel dest (mm_imageState m), mm_mirrored := mdel dest (mm_mirrored m)\<rparr>))"

definition dropRemovedImageSetsLocked :: "string list \<Rightarrow> mirror_manager \<Rightarrow> bool \<times> mirror_manager" where
  "dropRemovedImageSetsLocked imageSets m =
     (case fold (drop_owner imageSets) (mm_owners m) (False, m) of
        (changed, m1) \<Rightarrow>
          (changed, m1\<lparr>mm_catalogDigests := filter (\<lambda>(isName, _). containsString imageSets isName) (mm_catalogDigests m1)\<rparr>))"

definition setCatalogDigestsLocked :: "string \<Rightarrow> annotations \<Rightarrow> mirror_manager \<Rightarrow> bool \<times> mirror_manager" where
  "setCatalogDigestsLocked isName digests m =
     (if maps_equal (mget_default [] (mm_catalogDigests m) isName) digests then (False, m)
      else (True, m\<lparr>mm_catalogDigests := mput isName digests (mm_catalogDigests m)\<rparr>))"

section \<open>The manager's invariant\<close>

text \<open>
  The fast-path flag \<open>mirrored\<close> is only ever set for an entry that is Mirrored: Phase D of the
  reconcile turns every entry whose flag is set into a Mirrored one without asking the registry, so a
  flag without a Mirrored entry would make an image count as mirrored unchecked.
\<close>

definition flags_ok :: "mirror_manager \<Rightarrow> bool" where
  "flags_ok m \<longleftrightarrow> (\<forall>d e. mget_bool (mm_mirrored m) d \<and> mget (mm_imageState m) d = Some e \<longrightarrow> State e = stateMirrored)"

definition no_stale_flag :: "mirror_manager \<Rightarrow> bool" where
  "no_stale_flag m \<longleftrightarrow> (\<forall>d. mget_bool (mm_mirrored m) d \<longrightarrow> mget (mm_imageState m) d \<noteq> None)"

definition manager_inv :: "mirror_manager \<Rightarrow> bool" where
  "manager_inv m \<longleftrightarrow> wf_map (mm_inProgress m) \<and> wf_map (mm_mirrored m) \<and> wf_map (mm_imageState m) \<and> wf_map (mm_owners m)
     \<and> flags_ok m"

text \<open>
  What an operation may do to the entries: it adds none, it changes no source, and it never clears the
  permanent-failure mark of an entry it keeps.
\<close>

definition entries_le :: "mirror_manager \<Rightarrow> mirror_manager \<Rightarrow> bool" where
  "entries_le m m' \<longleftrightarrow> (\<forall>d e'. mget (mm_imageState m') d = Some e' \<longrightarrow>
     (\<exists>e. mget (mm_imageState m) d = Some e \<and> Source e' = Source e \<and> (PermanentlyFailed e \<longrightarrow> PermanentlyFailed e')))"

lemma entries_le_refl [simp]: "entries_le m m"
  by (simp add: entries_le_def)

lemma entries_le_trans: "entries_le m1 m2 \<Longrightarrow> entries_le m2 m3 \<Longrightarrow> entries_le m1 m3"
  unfolding entries_le_def by metis

locale manager_op =
  fixes step :: "mirror_manager \<Rightarrow> mirror_manager"
  assumes step_inv: "manager_inv m \<Longrightarrow> manager_inv (step m)"
    and step_stale: "manager_inv m \<Longrightarrow> no_stale_flag m \<Longrightarrow> no_stale_flag (step m)"
    and step_le: "manager_inv m \<Longrightarrow> entries_le m (step m)"
begin

lemma after_op: "manager_inv m \<Longrightarrow> entries_le m0 m \<Longrightarrow> manager_inv (step m) \<and> entries_le m0 (step m)"
  using step_inv step_le entries_le_trans by blast

lemma absent_stays: "manager_inv m \<Longrightarrow> mget (mm_imageState m) d = None \<Longrightarrow> mget (mm_imageState (step m)) d = None"
  using step_le [of m] unfolding entries_le_def by (metis option.distinct(1) option.exhaust)

end

lemma manager_op_comp:
  assumes "manager_op f" and "manager_op g"
  shows "manager_op (\<lambda>m. g (f m))"
proof -
  from assms have "manager_inv (g (f m)) \<and> entries_le m (g (f m)) \<and> (no_stale_flag m \<longrightarrow> no_stale_flag (g (f m)))"
    if "manager_inv m" for m
    using that by (meson entries_le_trans manager_op.step_inv manager_op.step_le manager_op.step_stale)
  then show ?thesis by (unfold_locales) auto
qed

lemma manager_op_fold:
  assumes "\<And>x. manager_op (f x)"
  shows "manager_op (fold f xs)"
proof (induction xs)
  case Nil
  then show ?case by unfold_locales auto
next
  case (Cons x xs)
  then show ?case using manager_op_comp [OF assms Cons] by (simp add: comp_def)
qed

text \<open>An operation that replaces one entry and its flag, and what else it may touch.\<close>

lemma manager_op_entry:
  assumes "\<And>m e. manager_inv m \<Longrightarrow> mget (mm_imageState m) d = Some e \<Longrightarrow>
      \<exists>e' b. mget (mm_imageState (f m)) = (mget (mm_imageState m))(d \<mapsto> e') \<and> Source e' = Source e \<and>
        (PermanentlyFailed e \<longrightarrow> PermanentlyFailed e') \<and>
        mget_bool (mm_mirrored (f m)) = (mget_bool (mm_mirrored m))(d := b) \<and> (b \<longrightarrow> State e' = stateMirrored)"
    and "\<And>m. mget (mm_imageState m) d = None \<Longrightarrow> mm_imageState (f m) = mm_imageState m \<and> mm_mirrored (f m) = mm_mirrored m"
    and "\<And>m. manager_inv m \<Longrightarrow> wf_map (mm_inProgress (f m)) \<and> wf_map (mm_mirrored (f m)) \<and> wf_map (mm_imageState (f m)) \<and> wf_map (mm_owners (f m))"
  shows "manager_op f"
proof unfold_locales
  fix m assume inv: "manager_inv m"
  have "manager_inv (f m) \<and> (no_stale_flag m \<longrightarrow> no_stale_flag (f m)) \<and> entries_le m (f m)"
  proof (cases "mget (mm_imageState m) d")
    case None
    with assms(2) [of m] assms(3) [OF inv] inv show ?thesis
      by (auto simp: manager_inv_def flags_ok_def no_stale_flag_def entries_le_def)
  next
    case (Some e)
    from assms(1) [OF inv Some] obtain e' b where
      f: "mget (mm_imageState (f m)) = (mget (mm_imageState m))(d \<mapsto> e')" "Source e' = Source e"
        "PermanentlyFailed e \<longrightarrow> PermanentlyFailed e'"
        "mget_bool (mm_mirrored (f m)) = (mget_bool (mm_mirrored m))(d := b)" "b \<longrightarrow> State e' = stateMirrored" by blast
    then have "flags_ok (f m)" using inv by (simp add: manager_inv_def flags_ok_def)
    moreover have "no_stale_flag m \<longrightarrow> no_stale_flag (f m)" using f by (simp add: no_stale_flag_def)
    moreover have "entries_le m (f m)" using f Some by (simp add: entries_le_def)
    ultimately show ?thesis using assms(3) [OF inv] by (simp add: manager_inv_def)
  qed
  then show "manager_inv (f m)" "no_stale_flag m \<Longrightarrow> no_stale_flag (f m)" "entries_le m (f m)" by simp_all
qed

section \<open>Status updates keep the invariant\<close>

lemma mget_bool_put: "mget_bool (mput k v m) = (mget_bool m)(k := v)"
  by (rule ext) simp

lemma mget_bool_del: "mget_bool (mdel k m) = (mget_bool m)(k := False)"
  by (rule ext) simp

lemma mget_put_fun: "mget (mput k v m) = (mget m)(k \<mapsto> v)"
  by (rule ext) simp

lemma recordFailureLocked_keeps [simp]:
  "State (recordFailureLocked ev m e) = State e" "Source (recordFailureLocked ev m e) = Source e"
  "LastError (recordFailureLocked ev m e) = LastError e" "RetryCount (recordFailureLocked ev m e) = RetryCount e + 1"
  "Origin (recordFailureLocked ev m e) = Origin e"
  "PermanentlyFailed (recordFailureLocked ev m e) \<longleftrightarrow> PermanentlyFailed e \<or> RetryCount e + 1 \<ge> effectiveMaxRetries m"
  "NextRetryAt (recordFailureLocked ev m e) = Some (ev_now ev + retryBackoff ev (RetryCount e + 1))"
  by (auto simp: recordFailureLocked_def Let_def)

lemma manager_op_setImageState: "manager_op (setImageStateLocked ev dest st err)"
proof (rule manager_op_entry [where d = dest])
  fix m e assume inv: "manager_inv m" and e: "mget (mm_imageState m) dest = Some e"
  show "\<exists>e' b. mget (mm_imageState (setImageStateLocked ev dest st err m)) = (mget (mm_imageState m))(dest \<mapsto> e') \<and> Source e' = Source e \<and>
        (PermanentlyFailed e \<longrightarrow> PermanentlyFailed e') \<and>
        mget_bool (mm_mirrored (setImageStateLocked ev dest st err m)) = (mget_bool (mm_mirrored m))(dest := b) \<and> (b \<longrightarrow> State e' = stateMirrored)"
  proof (cases "State e = st \<and> LastError e = err")
    case True
    then have "setImageStateLocked ev dest st err m = m" using e by (simp add: setImageStateLocked_def)
    moreover have "mget_bool (mm_mirrored m) dest \<longrightarrow> State e = stateMirrored"
      using inv e by (simp add: manager_inv_def flags_ok_def)
    ultimately show ?thesis using e
      by (intro exI [of _ e] exI [of _ "mget_bool (mm_mirrored m) dest"]) (simp add: fun_upd_idem)
  next
    case False
    let ?e1 = "e\<lparr>State := st, LastError := err\<rparr>"
    let ?e2 = "if st = stateFailed then recordFailureLocked ev m ?e1 else ?e1\<lparr>NextRetryAt := None\<rparr>"
    let ?b = "if st = stateMirrored then mget_bool (mm_mirrored m) dest else False"
    show ?thesis
      by (intro exI [of _ ?e2] exI [of _ ?b])
        (use False e in \<open>auto simp: setImageStateLocked_def resetMirroredLocked_def Let_def mget_bool_del mget_put_fun\<close>)
  qed
qed (auto simp: setImageStateLocked_def resetMirroredLocked_def manager_inv_def Let_def split: option.splits)

lemma setImageState_frame [simp]:
  "mm_inProgress (setImageStateLocked ev dest st err m) = mm_inProgress m"
  "mm_owners (setImageStateLocked ev dest st err m) = mm_owners m"
  "mm_statusQueue (setImageStateLocked ev dest st err m) = mm_statusQueue m"
  "mm_urgentFlush (setImageStateLocked ev dest st err m) = mm_urgentFlush m"
  "mm_workerToken (setImageStateLocked ev dest st err m) = mm_workerToken m"
  by (simp_all add: setImageStateLocked_def resetMirroredLocked_def Let_def split: option.splits)

lemma setImageState_Mirrored:
  assumes "mget (mm_imageState m) dest = Some e"
  obtains e' where "mget (mm_imageState (setImageStateLocked ev dest stateMirrored err m)) = (mget (mm_imageState m))(dest \<mapsto> e')"
    "State e' = stateMirrored" "Source e' = Source e" "PermanentlyFailed e' = PermanentlyFailed e" "Origin e' = Origin e"
    "mm_mirrored (setImageStateLocked ev dest stateMirrored err m) = mm_mirrored m"
proof (cases "State e = stateMirrored \<and> LastError e = err")
  case True
  with assms that [of e] show ?thesis by (simp add: setImageStateLocked_def fun_upd_idem)
next
  case False
  with assms that [of "e\<lparr>State := stateMirrored, LastError := err, NextRetryAt := None\<rparr>"] show ?thesis
    by (auto simp: setImageStateLocked_def Let_def mget_put_fun)
qed

lemma wf_setImageState:
  "manager_inv m \<Longrightarrow> wf_map (mm_mirrored (setImageStateLocked ev dest st err m)) \<and> wf_map (mm_imageState (setImageStateLocked ev dest st err m))"
  by (auto simp: setImageStateLocked_def resetMirroredLocked_def manager_inv_def Let_def split: option.splits)

text \<open>The success branch of a report, without its bookkeeping of \<open>inProgress\<close>.\<close>

definition record_success :: "env \<Rightarrow> status_request \<Rightarrow> mirror_manager \<Rightarrow> mirror_manager" where
  "record_success ev req m =
     (let dest = rq_Destination req;
          f1 = (if mget (mm_imageState m) dest \<noteq> None then m\<lparr>mm_mirrored := mput dest True (mm_mirrored m)\<rparr> else m);
          f2 = setImageStateLocked ev dest stateMirrored [] f1
      in case mget (mm_imageState f2) dest of
           Some entry \<Rightarrow>
             if Origin entry = OriginAdditional \<and> rq_Digest req \<noteq> []
             then (put_entry dest (entry\<lparr>SourceDigest := rq_Digest req\<rparr>) f2)\<lparr>mm_stateDirty := True\<rparr> else f2
         | None \<Rightarrow> f2)"

lemma applyStatusLocked_eq:
  "applyStatusLocked ev req m =
     (let m1 = (if rq_Error req \<noteq> [] then setImageStateLocked ev (rq_Destination req) stateFailed (rq_Error req) m
                else record_success ev req m)
      in m1\<lparr>mm_inProgress := mdel (rq_Destination req) (mm_inProgress m1), mm_statusDirty := True\<rparr>)"
  by (simp add: applyStatusLocked_def record_success_def Let_def)

lemma record_success_entry:
  assumes "mget (mm_imageState m) (rq_Destination req) = Some e"
  obtains e' where "mget (mm_imageState (record_success ev req m)) = (mget (mm_imageState m))(rq_Destination req \<mapsto> e')"
    "State e' = stateMirrored" "Source e' = Source e" "PermanentlyFailed e' = PermanentlyFailed e"
    "mget_bool (mm_mirrored (record_success ev req m)) = (mget_bool (mm_mirrored m))(rq_Destination req := True)"
proof -
  let ?d = "rq_Destination req"
  let ?f1 = "m\<lparr>mm_mirrored := mput ?d True (mm_mirrored m)\<rparr>"
  let ?f2 = "setImageStateLocked ev ?d stateMirrored [] ?f1"
  obtain e1 where e1: "mget (mm_imageState ?f2) = (mget (mm_imageState m))(?d \<mapsto> e1)"
    "State e1 = stateMirrored" "Source e1 = Source e" "PermanentlyFailed e1 = PermanentlyFailed e" "Origin e1 = Origin e"
    "mm_mirrored ?f2 = mput ?d True (mm_mirrored m)"
    using setImageState_Mirrored [of ?f1 ?d e ev "[]"] assms by auto
  let ?e' = "if Origin e1 = OriginAdditional \<and> rq_Digest req \<noteq> [] then e1\<lparr>SourceDigest := rq_Digest req\<rparr> else e1"
  have "mget (mm_imageState (record_success ev req m)) = (mget (mm_imageState m))(?d \<mapsto> ?e')"
    "mm_mirrored (record_success ev req m) = mput ?d True (mm_mirrored m)"
    using assms e1(1,6) by (auto simp: record_success_def Let_def mget_put_fun)
  then show thesis using that [of ?e'] e1 by (simp add: mget_bool_put)
qed

lemma record_success_absent:
  "mget (mm_imageState m) (rq_Destination req) = None \<Longrightarrow> record_success ev req m = m"
  by (simp add: record_success_def setImageStateLocked_def Let_def)

lemma wf_record_success:
  assumes "manager_inv m"
  shows "wf_map (mm_inProgress (record_success ev req m)) \<and> wf_map (mm_mirrored (record_success ev req m)) \<and>
    wf_map (mm_imageState (record_success ev req m)) \<and> wf_map (mm_owners (record_success ev req m))"
  using assms
  by (auto simp: record_success_def setImageStateLocked_def manager_inv_def Let_def split: option.splits)

lemma manager_op_record_success: "manager_op (record_success ev req)"
proof (rule manager_op_entry [where d = "rq_Destination req"])
  fix m :: mirror_manager and e
  assume "mget (mm_imageState m) (rq_Destination req) = Some e"
  from record_success_entry [OF this, of ev] show "\<exists>e' b.
      mget (mm_imageState (record_success ev req m)) = (mget (mm_imageState m))(rq_Destination req \<mapsto> e') \<and> Source e' = Source e \<and>
      (PermanentlyFailed e \<longrightarrow> PermanentlyFailed e') \<and>
      mget_bool (mm_mirrored (record_success ev req m)) = (mget_bool (mm_mirrored m))(rq_Destination req := b) \<and>
      (b \<longrightarrow> State e' = stateMirrored)" by metis
qed (simp_all add: record_success_absent wf_record_success)

lemma manager_op_frame:
  assumes "manager_op f"
    and "\<And>m. mm_imageState (g m) = mm_imageState (f m) \<and> mm_mirrored (g m) = mm_mirrored (f m) \<and> mm_owners (g m) = mm_owners (f m)"
    and "\<And>m. wf_map (mm_inProgress (f m)) \<Longrightarrow> wf_map (mm_inProgress (g m))"
  shows "manager_op g"
proof unfold_locales
  fix m assume inv: "manager_inv m"
  from assms(1) inv have "manager_inv (f m)" "entries_le m (f m)" "no_stale_flag m \<Longrightarrow> no_stale_flag (f m)"
    by (auto simp: manager_op_def)
  then show "manager_inv (g m)" "entries_le m (g m)" "no_stale_flag m \<Longrightarrow> no_stale_flag (g m)"
    using assms(2,3) [of m] by (simp_all add: manager_inv_def flags_ok_def no_stale_flag_def entries_le_def)
qed

interpretation apply_status: manager_op "applyStatusLocked ev req" for ev req
proof -
  have "manager_op (\<lambda>m. if rq_Error req \<noteq> [] then setImageStateLocked ev (rq_Destination req) stateFailed (rq_Error req) m
      else record_success ev req m)"
    using manager_op_setImageState manager_op_record_success by (cases "rq_Error req \<noteq> []") simp_all
  then show "manager_op (applyStatusLocked ev req)"
    by (rule manager_op_frame) (simp_all add: applyStatusLocked_eq Let_def)
qed

lemma manager_op_drain: "manager_op (drainStatusQueueLocked ev)"
proof unfold_locales
  fix m assume inv: "manager_inv m"
  let ?m = "m\<lparr>mm_statusQueue := []\<rparr>"
  have inv': "manager_inv ?m" "entries_le m ?m" "no_stale_flag m \<longleftrightarrow> no_stale_flag ?m"
    using inv by (simp_all add: manager_inv_def flags_ok_def entries_le_def no_stale_flag_def)
  have op: "manager_op (fold (applyStatusLocked ev) (mm_statusQueue m))"
    by (rule manager_op_fold) (rule apply_status.manager_op_axioms)
  from inv' show "manager_inv (drainStatusQueueLocked ev m)" "no_stale_flag m \<Longrightarrow> no_stale_flag (drainStatusQueueLocked ev m)"
    "entries_le m (drainStatusQueueLocked ev m)"
    unfolding drainStatusQueueLocked_def
    by (simp_all add: manager_op.step_inv [OF op] manager_op.step_stale [OF op]
        entries_le_trans [OF inv'(2) manager_op.step_le [OF op inv'(1)]])
qed

interpretation drain: manager_op "drainStatusQueueLocked ev" for ev
  by (rule manager_op_drain)

section \<open>Resets and dropped ImageSets\<close>

text \<open>What the reset loops see of one destination.\<close>

definition entry_obs :: "string \<Rightarrow> bool \<times> mirror_manager \<Rightarrow> string \<Rightarrow> image_entry option \<times> bool \<times> string \<times> bool" where
  "entry_obs isName cm d = (mget (mm_imageState (snd cm)) d, mget_bool (mm_mirrored (snd cm)) d,
     mget_str (mm_inProgress (snd cm)) d, hasOwner (mm_owners (snd cm)) d isName)"

interpretation reset_loop: range_loop "reset_entry isName" "entry_obs isName" for isName
  by unfold_locales (auto simp: entry_obs_def reset_entry_def split: prod.splits)

interpretation recollect_loop: range_loop "recollect_entry isName" "entry_obs isName" for isName
  by unfold_locales (auto simp: entry_obs_def recollect_entry_def split: prod.splits)

definition frame_eq :: "mirror_manager \<Rightarrow> mirror_manager \<Rightarrow> bool" where
  "frame_eq m m' \<longleftrightarrow> mm_inProgress m' = mm_inProgress m \<and> mm_owners m' = mm_owners m \<and>
     (wf_map (mm_imageState m) \<longrightarrow> wf_map (mm_imageState m')) \<and> (wf_map (mm_mirrored m) \<longrightarrow> wf_map (mm_mirrored m'))"

lemma frame_eq_fold:
  assumes "\<And>x cm. frame_eq (snd cm) (snd (f x cm))"
  shows "frame_eq (snd cm) (snd (fold f xs cm))"
proof (induction xs arbitrary: cm)
  case Nil
  then show ?case by (simp add: frame_eq_def)
next
  case (Cons x xs)
  from Cons [of "f x cm"] assms [of cm x] show ?case by (simp add: frame_eq_def)
qed

lemma frame_reset: "frame_eq m (snd (resetImageSetToPendingLocked isName m))"
  using frame_eq_fold [of "reset_entry isName" "(False, m)" "mm_imageState m"]
  by (auto simp: resetImageSetToPendingLocked_def reset_entry_def frame_eq_def split: prod.splits)

lemma frame_recollect: "frame_eq m (snd (resetFailedForRecollectLocked isName m))"
  using frame_eq_fold [of "recollect_entry isName" "(False, m)" "mm_imageState m"]
  by (auto simp: resetFailedForRecollectLocked_def recollect_entry_def frame_eq_def split: prod.splits)

definition fresh_entry :: "image_entry \<Rightarrow> bool" where
  "fresh_entry e \<longleftrightarrow> State e = statePending \<and> RetryCount e = 0 \<and> LastError e = [] \<and> \<not> SignatureVerified e"

definition reset_to_pending :: "image_entry \<Rightarrow> image_entry" where
  "reset_to_pending e = e\<lparr>State := statePending, RetryCount := 0, NextRetryAt := None, LastError := [], SignatureVerified := False\<rparr>"

lemma reset_lookup:
  assumes "wf_map (mm_imageState m)"
  shows "mget (mm_imageState (snd (resetImageSetToPendingLocked isName m))) d = (case mget (mm_imageState m) d of
      None \<Rightarrow> None
    | Some e \<Rightarrow> Some (if hasOwner (mm_owners m) d isName \<and> mget_str (mm_inProgress m) d = [] \<and> \<not> fresh_entry e
                     then reset_to_pending e else e))"
    and "mget_bool (mm_mirrored (snd (resetImageSetToPendingLocked isName m))) d \<longleftrightarrow> mget_bool (mm_mirrored m) d \<and>
      \<not> (\<exists>e. mget (mm_imageState m) d = Some e \<and> hasOwner (mm_owners m) d isName \<and> mget_str (mm_inProgress m) d = [] \<and> \<not> fresh_entry e)"
proof -
  have "entry_obs isName (fold (reset_entry isName) (mm_imageState m) (False, m)) d =
      (case mget (mm_imageState m) d of None \<Rightarrow> entry_obs isName (False, m) d
       | Some e \<Rightarrow> entry_obs isName (reset_entry isName (d, e) (False, m)) d)"
    by (rule reset_loop.loop_obs [OF assms(1)])
  then show "mget (mm_imageState (snd (resetImageSetToPendingLocked isName m))) d = (case mget (mm_imageState m) d of
      None \<Rightarrow> None
    | Some e \<Rightarrow> Some (if hasOwner (mm_owners m) d isName \<and> mget_str (mm_inProgress m) d = [] \<and> \<not> fresh_entry e
                     then reset_to_pending e else e))"
    and "mget_bool (mm_mirrored (snd (resetImageSetToPendingLocked isName m))) d \<longleftrightarrow> mget_bool (mm_mirrored m) d \<and>
      \<not> (\<exists>e. mget (mm_imageState m) d = Some e \<and> hasOwner (mm_owners m) d isName \<and> mget_str (mm_inProgress m) d = [] \<and> \<not> fresh_entry e)"
    by (auto simp: resetImageSetToPendingLocked_def entry_obs_def reset_entry_def fresh_entry_def reset_to_pending_def
        split: option.splits if_splits)
qed

lemma recollect_lookup:
  assumes "wf_map (mm_imageState m)"
  shows "mget (mm_imageState (snd (resetFailedForRecollectLocked isName m))) d = (case mget (mm_imageState m) d of
      None \<Rightarrow> None
    | Some e \<Rightarrow> Some (if State e = stateFailed \<and> hasOwner (mm_owners m) d isName \<and> mget_str (mm_inProgress m) d = []
                     then e\<lparr>State := statePending, RetryCount := 0, NextRetryAt := None, LastError := []\<rparr> else e))"
    and "mget_bool (mm_mirrored (snd (resetFailedForRecollectLocked isName m))) d = mget_bool (mm_mirrored m) d"
proof -
  have "entry_obs isName (fold (recollect_entry isName) (mm_imageState m) (False, m)) d =
      (case mget (mm_imageState m) d of None \<Rightarrow> entry_obs isName (False, m) d
       | Some e \<Rightarrow> entry_obs isName (recollect_entry isName (d, e) (False, m)) d)"
    by (rule recollect_loop.loop_obs [OF assms(1)])
  then show "mget (mm_imageState (snd (resetFailedForRecollectLocked isName m))) d = (case mget (mm_imageState m) d of
      None \<Rightarrow> None
    | Some e \<Rightarrow> Some (if State e = stateFailed \<and> hasOwner (mm_owners m) d isName \<and> mget_str (mm_inProgress m) d = []
                     then e\<lparr>State := statePending, RetryCount := 0, NextRetryAt := None, LastError := []\<rparr> else e))"
    and "mget_bool (mm_mirrored (snd (resetFailedForRecollectLocked isName m))) d = mget_bool (mm_mirrored m) d"
    by (auto simp: resetFailedForRecollectLocked_def entry_obs_def recollect_entry_def
        split: option.splits if_splits)
qed

text \<open>An operation described by what it does to each destination.\<close>

lemma manager_op_pointwise:
  assumes "\<And>m d e'. manager_inv m \<Longrightarrow> mget (mm_imageState (f m)) d = Some e' \<Longrightarrow>
      \<exists>e. mget (mm_imageState m) d = Some e \<and> Source e' = Source e \<and> (PermanentlyFailed e \<longrightarrow> PermanentlyFailed e') \<and>
        (mget_bool (mm_mirrored (f m)) d \<longrightarrow> mget_bool (mm_mirrored m) d \<and> State e' = State e \<or> State e' = stateMirrored)"
    and "\<And>m d. manager_inv m \<Longrightarrow> mget_bool (mm_mirrored (f m)) d \<Longrightarrow> mget (mm_imageState (f m)) d = None \<Longrightarrow>
      mget_bool (mm_mirrored m) d \<and> mget (mm_imageState m) d = None"
    and "\<And>m. manager_inv m \<Longrightarrow> wf_map (mm_inProgress (f m)) \<and> wf_map (mm_mirrored (f m)) \<and> wf_map (mm_imageState (f m)) \<and> wf_map (mm_owners (f m))"
  shows "manager_op f"
proof unfold_locales
  fix m assume inv: "manager_inv m"
  then have fl: "flags_ok m" by (simp add: manager_inv_def)
  have "flags_ok (f m)" using assms(1) [OF inv] fl unfolding flags_ok_def by metis
  then show "manager_inv (f m)" using assms(3) [OF inv] by (simp add: manager_inv_def)
  show "no_stale_flag m \<Longrightarrow> no_stale_flag (f m)" using assms(2) [OF inv] unfolding no_stale_flag_def by metis
  show "entries_le m (f m)" using assms(1) [OF inv] unfolding entries_le_def by metis
qed

interpretation force_resync: manager_op "\<lambda>m. snd (resetImageSetToPendingLocked isName m)" for isName
proof (rule manager_op_pointwise)
  fix m :: mirror_manager and d
  assume "manager_inv m"
  then have wf: "wf_map (mm_imageState m)" "wf_map (mm_mirrored m)" "wf_map (mm_inProgress m)" "wf_map (mm_owners m)"
    by (simp_all add: manager_inv_def)
  note lk = reset_lookup [OF wf(1), of isName d]
  show "\<exists>e. mget (mm_imageState m) d = Some e \<and> Source e' = Source e \<and> (PermanentlyFailed e \<longrightarrow> PermanentlyFailed e') \<and>
      (mget_bool (mm_mirrored (snd (resetImageSetToPendingLocked isName m))) d \<longrightarrow>
        mget_bool (mm_mirrored m) d \<and> State e' = State e \<or> State e' = stateMirrored)"
    if "mget (mm_imageState (snd (resetImageSetToPendingLocked isName m))) d = Some e'" for e'
    using that lk by (auto simp: reset_to_pending_def split: option.splits if_splits)
  show "mget_bool (mm_mirrored m) d \<and> mget (mm_imageState m) d = None"
    if "mget_bool (mm_mirrored (snd (resetImageSetToPendingLocked isName m))) d"
      "mget (mm_imageState (snd (resetImageSetToPendingLocked isName m))) d = None"
    using that lk by (auto split: option.splits)
  show "wf_map (mm_inProgress (snd (resetImageSetToPendingLocked isName m))) \<and>
      wf_map (mm_mirrored (snd (resetImageSetToPendingLocked isName m))) \<and>
      wf_map (mm_imageState (snd (resetImageSetToPendingLocked isName m))) \<and>
      wf_map (mm_owners (snd (resetImageSetToPendingLocked isName m)))"
    using frame_reset [of m isName] wf by (simp add: frame_eq_def)
qed

interpretation recollect: manager_op "\<lambda>m. snd (resetFailedForRecollectLocked isName m)" for isName
proof (rule manager_op_pointwise)
  fix m :: mirror_manager and d
  assume inv: "manager_inv m"
  then have wf: "wf_map (mm_imageState m)" "wf_map (mm_mirrored m)" "wf_map (mm_inProgress m)" "wf_map (mm_owners m)"
    and fl: "flags_ok m" by (simp_all add: manager_inv_def)
  note lk = recollect_lookup [OF wf(1), of isName d]
  show "\<exists>e. mget (mm_imageState m) d = Some e \<and> Source e' = Source e \<and> (PermanentlyFailed e \<longrightarrow> PermanentlyFailed e') \<and>
      (mget_bool (mm_mirrored (snd (resetFailedForRecollectLocked isName m))) d \<longrightarrow>
        mget_bool (mm_mirrored m) d \<and> State e' = State e \<or> State e' = stateMirrored)"
    if "mget (mm_imageState (snd (resetFailedForRecollectLocked isName m))) d = Some e'" for e'
    using that lk fl by (auto simp: flags_ok_def split: option.splits if_splits)
  show "mget_bool (mm_mirrored m) d \<and> mget (mm_imageState m) d = None"
    if "mget_bool (mm_mirrored (snd (resetFailedForRecollectLocked isName m))) d"
      "mget (mm_imageState (snd (resetFailedForRecollectLocked isName m))) d = None"
    using that lk by (auto split: option.splits)
  show "wf_map (mm_inProgress (snd (resetFailedForRecollectLocked isName m))) \<and>
      wf_map (mm_mirrored (snd (resetFailedForRecollectLocked isName m))) \<and>
      wf_map (mm_imageState (snd (resetFailedForRecollectLocked isName m))) \<and>
      wf_map (mm_owners (snd (resetFailedForRecollectLocked isName m)))"
    using frame_recollect [of m isName] wf by (simp add: frame_eq_def)
qed

end
