(* ===== verification/Lifecycle.thy ===== *)
theory Lifecycle
  imports Manager
begin

text \<open>
  What the manager's operations guarantee: bounds of the retry backoff, the permanent-failure mark,
  worker reports (delivered once in effect, never lost), resets and the removal of ImageSets.
\<close>

section \<open>Dropped ImageSets\<close>

definition drop_obs :: "bool \<times> mirror_manager \<Rightarrow> string \<Rightarrow> image_entry option \<times> bool \<times> string list" where
  "drop_obs cm d = (mget (mm_imageState (snd cm)) d, mget_bool (mm_mirrored (snd cm)) d, mget_list (mm_owners (snd cm)) d)"

interpretation drop_loop: range_loop "drop_owner imageSets" drop_obs for imageSets
  by unfold_locales (auto simp: drop_obs_def drop_owner_def Let_def split: prod.splits)

definition drop_frame :: "mirror_manager \<Rightarrow> mirror_manager \<Rightarrow> bool" where
  "drop_frame m m' \<longleftrightarrow> mm_inProgress m' = mm_inProgress m \<and>
     (wf_map (mm_owners m) \<longrightarrow> wf_map (mm_owners m')) \<and> (wf_map (mm_imageState m) \<longrightarrow> wf_map (mm_imageState m')) \<and>
     (wf_map (mm_mirrored m) \<longrightarrow> wf_map (mm_mirrored m'))"

lemma drop_frame_fold: "drop_frame (snd cm) (snd (fold (drop_owner imageSets) xs cm))"
proof (induction xs arbitrary: cm)
  case Nil
  then show ?case by (simp add: drop_frame_def)
next
  case (Cons x xs)
  have "drop_frame (snd cm) (snd (drop_owner imageSets x cm))"
    by (auto simp: drop_frame_def drop_owner_def Let_def split: prod.splits)
  with Cons [of "drop_owner imageSets x cm"] show ?case by (simp add: drop_frame_def)
qed

lemma dropRemoved_snd:
  "snd (dropRemovedImageSetsLocked imageSets m) =
     (snd (fold (drop_owner imageSets) (mm_owners m) (False, m)))
       \<lparr>mm_catalogDigests := filter (\<lambda>(isName, _). containsString imageSets isName)
          (mm_catalogDigests (snd (fold (drop_owner imageSets) (mm_owners m) (False, m))))\<rparr>"
  by (simp add: dropRemovedImageSetsLocked_def split: prod.splits)

lemma length_filter_all: "length (filter P xs) = length xs \<longleftrightarrow> filter P xs = xs"
  by (metis length_filter_less filter_id_conv less_irrefl)

lemma dropRemoved_lookup:
  assumes "wf_map (mm_owners m)"
  shows "mget_list (mm_owners (snd (dropRemovedImageSetsLocked imageSets m))) d =
      filter (\<lambda>n. n \<in> set imageSets) (mget_list (mm_owners m) d)"
    and "mget (mm_imageState (snd (dropRemovedImageSetsLocked imageSets m))) d =
      (if mget_list (mm_owners m) d \<noteq> [] \<and> set (mget_list (mm_owners m) d) \<inter> set imageSets = {} then None
       else mget (mm_imageState m) d)"
    and "mget_bool (mm_mirrored (snd (dropRemovedImageSetsLocked imageSets m))) d \<longleftrightarrow>
      mget_bool (mm_mirrored m) d \<and> \<not> (mget_list (mm_owners m) d \<noteq> [] \<and> set (mget_list (mm_owners m) d) \<inter> set imageSets = {})"
proof -
  let ?r = "fold (drop_owner imageSets) (mm_owners m) (False, m)"
  have o: "drop_obs ?r d = (case mget (mm_owners m) d of None \<Rightarrow> drop_obs (False, m) d
      | Some ns \<Rightarrow> drop_obs (drop_owner imageSets (d, ns) (False, m)) d)"
    by (rule drop_loop.loop_obs [OF assms])
  have names: "mget_list (mm_owners m) d = (case mget (mm_owners m) d of None \<Rightarrow> [] | Some ns \<Rightarrow> ns)"
    by (simp add: mget_default_def split: option.splits)
  have cs: "containsString imageSets = (\<lambda>n. n \<in> set imageSets)" by (rule ext) simp
  have empty: "filter (\<lambda>n. n \<in> set imageSets) ns = [] \<longleftrightarrow> set ns \<inter> set imageSets = {}" for ns
    by (auto simp: filter_empty_conv)
  show "mget_list (mm_owners (snd (dropRemovedImageSetsLocked imageSets m))) d =
      filter (\<lambda>n. n \<in> set imageSets) (mget_list (mm_owners m) d)"
    "mget (mm_imageState (snd (dropRemovedImageSetsLocked imageSets m))) d =
      (if mget_list (mm_owners m) d \<noteq> [] \<and> set (mget_list (mm_owners m) d) \<inter> set imageSets = {} then None
       else mget (mm_imageState m) d)"
    "mget_bool (mm_mirrored (snd (dropRemovedImageSetsLocked imageSets m))) d \<longleftrightarrow>
      mget_bool (mm_mirrored m) d \<and> \<not> (mget_list (mm_owners m) d \<noteq> [] \<and> set (mget_list (mm_owners m) d) \<inter> set imageSets = {})"
    using o names
    by (auto simp: dropRemoved_snd drop_obs_def drop_owner_def Let_def length_filter_all cs empty [symmetric]
        split: option.splits if_splits)
qed

interpretation drop_removed: manager_op "\<lambda>m. snd (dropRemovedImageSetsLocked imageSets m)" for imageSets
proof (rule manager_op_pointwise)
  fix m :: mirror_manager and d
  assume inv: "manager_inv m"
  then have wf: "wf_map (mm_owners m)" and fl: "flags_ok m" by (simp_all add: manager_inv_def)
  note lk = dropRemoved_lookup [OF wf, of imageSets d]
  show "\<exists>e. mget (mm_imageState m) d = Some e \<and> Source e' = Source e \<and> (PermanentlyFailed e \<longrightarrow> PermanentlyFailed e') \<and>
      (mget_bool (mm_mirrored (snd (dropRemovedImageSetsLocked imageSets m))) d \<longrightarrow>
        mget_bool (mm_mirrored m) d \<and> State e' = State e \<or> State e' = stateMirrored)"
    if "mget (mm_imageState (snd (dropRemovedImageSetsLocked imageSets m))) d = Some e'" for e'
    using that lk by (auto split: if_splits)
  show "mget_bool (mm_mirrored m) d \<and> mget (mm_imageState m) d = None"
    if "mget_bool (mm_mirrored (snd (dropRemovedImageSetsLocked imageSets m))) d"
      "mget (mm_imageState (snd (dropRemovedImageSetsLocked imageSets m))) d = None"
    using that lk by (auto split: if_splits)
  show "wf_map (mm_inProgress (snd (dropRemovedImageSetsLocked imageSets m))) \<and>
      wf_map (mm_mirrored (snd (dropRemovedImageSetsLocked imageSets m))) \<and>
      wf_map (mm_imageState (snd (dropRemovedImageSetsLocked imageSets m))) \<and>
      wf_map (mm_owners (snd (dropRemovedImageSetsLocked imageSets m)))"
    using drop_frame_fold [of "(False, m)" imageSets "mm_owners m"] inv
    by (simp add: dropRemoved_snd drop_frame_def manager_inv_def)
qed

text \<open>
  When ImageSets leave the MirrorTarget, every destination keeps exactly the owners that
  stay. An entry leaves the working set exactly when it had owners and none of them stays, and then its
  fast-path flag leaves with it; the entries of the remaining ImageSets are untouched.
\<close>

theorem dropRemoved_exact:
  assumes "wf_map (mm_owners m)"
  shows "mget_list (mm_owners (snd (dropRemovedImageSetsLocked imageSets m))) d =
      filter (\<lambda>n. n \<in> set imageSets) (mget_list (mm_owners m) d) \<and>
    (mget (mm_imageState m) d = Some e \<longrightarrow>
      (if mget_list (mm_owners m) d \<noteq> [] \<and> (\<forall>n \<in> set (mget_list (mm_owners m) d). n \<notin> set imageSets)
       then mget (mm_imageState (snd (dropRemovedImageSetsLocked imageSets m))) d = None
         \<and> \<not> mget_bool (mm_mirrored (snd (dropRemovedImageSetsLocked imageSets m))) d
       else mget (mm_imageState (snd (dropRemovedImageSetsLocked imageSets m))) d = Some e
         \<and> mget_bool (mm_mirrored (snd (dropRemovedImageSetsLocked imageSets m))) d = mget_bool (mm_mirrored m) d))"
  using dropRemoved_lookup [OF assms, of imageSets d] by auto

definition new_manager :: "(string, image_entry) gomap \<Rightarrow> owners_map \<Rightarrow> (string, bool) gomap \<Rightarrow> mirror_manager" where
  "new_manager st ows flags = \<lparr>mm_TargetName = ''mt'', mm_Namespace = ''ns'', mm_workerToken = ''tok'', mm_urgentFlush = False,
     mm_statusQueue = [], mm_inProgress = [], mm_mirrored = flags, mm_imageState = st, mm_owners = ows, mm_ownerMeta = [],
     mm_catalogDigests = [], mm_lastDriftCheck = 0, mm_stateDirty = False, mm_summaryWritten = False, mm_statusDirty = False,
     mm_driftSweepRunning = False, mm_heartbeat = 0, mm_maxRetries = 0, mm_statusAPIReady = True\<rparr>"

theorem dropRemoved_exact_witness:
  "mget (mm_imageState (snd (dropRemovedImageSetsLocked [''b''] (new_manager [(''r/x'', zero_entry)] [(''r/x'', [''a''])] [])))) ''r/x'' = None"
  using dropRemoved_exact [of "new_manager [(''r/x'', zero_entry)] [(''r/x'', [''a''])] []" "[''b'']" "''r/x''" zero_entry]
  by (simp add: new_manager_def)

section \<open>Retries\<close>

text \<open>The delay after the n-th failure before jitter: doubled from a minute, capped at an hour.\<close>

definition nominal_backoff :: "int \<Rightarrow> int" where
  "nominal_backoff n = (if 1 \<le> n \<and> n \<le> 7 then min (retryBackoffBase * 2 ^ nat (n - 1)) retryBackoffMax else retryBackoffMax)"

lemma nominal_backoff_bounds: "minute \<le> nominal_backoff n" "nominal_backoff n \<le> hour"
proof -
  have "1 \<le> (2::int) ^ nat (n - 1)" by simp
  then show "minute \<le> nominal_backoff n" "nominal_backoff n \<le> hour" by (auto simp: nominal_backoff_def)
qed

lemma retryBackoff_eq:
  "retryBackoff ev n = nominal_backoff n + (ev_rand ev (nominal_backoff n div 5) - nominal_backoff n div 10)"
  by (simp add: retryBackoff_def nominal_backoff_def Let_def)

text \<open>
  The delay before the next attempt of a failed image is the nominal one (one minute
  doubled per failure, at most an hour) up to ten percent, so it is at least 54 seconds and at most
  66 minutes, for every retry count, negative and huge ones included.
\<close>

theorem retryBackoff_bounds:
  assumes "rand_ok ev"
  shows "nominal_backoff n - nominal_backoff n div 10 \<le> retryBackoff ev n \<and>
    retryBackoff ev n \<le> nominal_backoff n + nominal_backoff n div 10 \<and>
    54 * second \<le> retryBackoff ev n \<and> retryBackoff ev n \<le> 66 * minute"
proof -
  define d where "d = nominal_backoff n"
  have d: "60000000000 \<le> d" "d \<le> 3600000000000" using nominal_backoff_bounds [of n] by (simp_all add: d_def)
  then have "0 < d div 5" by linarith
  then have r: "0 \<le> ev_rand ev (d div 5)" "ev_rand ev (d div 5) < d div 5" using assms unfolding rand_ok_def by blast+
  have "d div 5 \<le> 2 * (d div 10) + 1" by linarith
  then have "d - d div 10 \<le> retryBackoff ev n" "retryBackoff ev n \<le> d + d div 10"
    using r by (simp_all add: retryBackoff_eq d_def [symmetric])
  moreover have "54000000000 \<le> d - d div 10" "d + d div 10 \<le> 3960000000000" using d by linarith+
  ultimately show ?thesis by (simp add: d_def)
qed

theorem retryBackoff_bounds_witness:
  "54 * second \<le> retryBackoff \<lparr>ev_now = 0, ev_rand = \<lambda>n. 0\<rparr> 3 \<and> retryBackoff \<lparr>ev_now = 0, ev_rand = \<lambda>n. 0\<rparr> 3 = 216 * second"
  using retryBackoff_bounds [of "\<lparr>ev_now = 0, ev_rand = \<lambda>n. 0\<rparr>" 3]
  by (simp add: rand_ok_def retryBackoff_eq nominal_backoff_def)

section \<open>Worker reports\<close>

lemma mput_same: "mget m k = Some v \<Longrightarrow> mput k v m = m"
  by (induction m) auto

lemma mput_twice: "mput k v (mput k v m) = mput k v m"
  by (rule mput_same) simp

lemma setImageState_settled:
  assumes "mget (mm_imageState m) dest = Some e" and "State e = st" and "LastError e = err"
  shows "setImageStateLocked ev dest st err m = m"
  using assms by (simp add: setImageStateLocked_def)

lemma setImageState_result:
  assumes "mget (mm_imageState m) dest = Some e"
  obtains e' where "mget (mm_imageState (setImageStateLocked ev dest st err m)) dest = Some e'" "State e' = st" "LastError e' = err"
    "Origin e' = Origin e"
proof (cases "State e = st \<and> LastError e = err")
  case True
  with assms that show ?thesis by (simp add: setImageStateLocked_def)
next
  case False
  let ?e1 = "e\<lparr>State := st, LastError := err\<rparr>"
  let ?e' = "if st = stateFailed then recordFailureLocked ev m ?e1 else ?e1\<lparr>NextRetryAt := None\<rparr>"
  have "mget (mm_imageState (setImageStateLocked ev dest st err m)) dest = Some ?e'"
    using assms False by (auto simp: setImageStateLocked_def Let_def)
  then show ?thesis using that [of ?e'] by auto
qed

text \<open>A report applied to a manager that already reflects it changes nothing.\<close>

definition settled :: "status_request \<Rightarrow> mirror_manager \<Rightarrow> bool" where
  "settled req m \<longleftrightarrow>
     mget (mm_inProgress m) (rq_Destination req) = None \<and> mm_statusDirty m \<and>
     (case mget (mm_imageState m) (rq_Destination req) of
        None \<Rightarrow> True
      | Some e \<Rightarrow> LastError e = rq_Error req \<and>
          (if rq_Error req \<noteq> [] then State e = stateFailed
           else State e = stateMirrored \<and> mget (mm_mirrored m) (rq_Destination req) = Some True \<and>
                (Origin e = OriginAdditional \<and> rq_Digest req \<noteq> [] \<longrightarrow> SourceDigest e = rq_Digest req \<and> mm_stateDirty m)))"

lemma mdel_absent: "mget m k = None \<Longrightarrow> mdel k m = m"
  by (induction m) (auto split: if_splits)

lemma settled_fixed: "settled req m \<Longrightarrow> applyStatusLocked ev req m = m"
proof -
  assume s: "settled req m"
  let ?d = "rq_Destination req"
  have frame: "m\<lparr>mm_inProgress := mdel ?d (mm_inProgress m), mm_statusDirty := True\<rparr> = m"
    using s by (simp add: settled_def mdel_absent)
  show ?thesis
  proof (cases "mget (mm_imageState m) ?d")
    case None
    then show ?thesis using frame by (simp add: applyStatusLocked_eq record_success_absent setImageStateLocked_def)
  next
    case (Some e)
    show ?thesis
    proof (cases "rq_Error req = []")
      case True
      have "m\<lparr>mm_mirrored := mput ?d True (mm_mirrored m)\<rparr> = m" using s Some True by (simp add: settled_def mput_same)
      moreover have "setImageStateLocked ev ?d stateMirrored [] m = m"
        using s Some True by (intro setImageState_settled) (auto simp: settled_def)
      moreover have "(put_entry ?d (e\<lparr>SourceDigest := rq_Digest req\<rparr>) m)\<lparr>mm_stateDirty := True\<rparr> = m"
        if "Origin e = OriginAdditional \<and> rq_Digest req \<noteq> []"
        using s Some True that by (simp add: settled_def mput_same)
      ultimately have "record_success ev req m = m" using Some by (simp add: record_success_def Let_def)
      then show ?thesis using True frame by (simp add: applyStatusLocked_eq)
    next
      case False
      then have "setImageStateLocked ev ?d stateFailed (rq_Error req) m = m"
        using s Some by (intro setImageState_settled) (auto simp: settled_def)
      then show ?thesis using False frame by (simp add: applyStatusLocked_eq)
    qed
  qed
qed

lemma settled_after: "settled req (applyStatusLocked ev req m)"
proof -
  let ?d = "rq_Destination req"
  show ?thesis
  proof (cases "mget (mm_imageState m) ?d")
    case None
    then have "applyStatusLocked ev req m = m\<lparr>mm_inProgress := mdel ?d (mm_inProgress m), mm_statusDirty := True\<rparr>"
      by (simp add: applyStatusLocked_eq record_success_absent setImageStateLocked_def)
    then show ?thesis using None by (simp add: settled_def)
  next
    case (Some e)
    show ?thesis
    proof (cases "rq_Error req = []")
      case False
      obtain e' where "mget (mm_imageState (setImageStateLocked ev ?d stateFailed (rq_Error req) m)) ?d = Some e'"
        "State e' = stateFailed" "LastError e' = rq_Error req" using setImageState_result [OF Some] by metis
      then show ?thesis using False by (simp add: applyStatusLocked_eq settled_def Let_def)
    next
      case True
      let ?f1 = "m\<lparr>mm_mirrored := mput ?d True (mm_mirrored m)\<rparr>"
      let ?f2 = "setImageStateLocked ev ?d stateMirrored [] ?f1"
      have e: "mget (mm_imageState ?f1) ?d = Some e" using Some by simp
      obtain e1 where e1: "mget (mm_imageState ?f2) ?d = Some e1" "State e1 = stateMirrored" "LastError e1 = []"
        using setImageState_result [OF e] by metis
      have "mm_mirrored ?f2 = mput ?d True (mm_mirrored m)" using setImageState_Mirrored [OF e] by auto
      then show ?thesis using True Some e1
        by (auto simp: applyStatusLocked_eq record_success_def settled_def Let_def)
    qed
  qed
qed

text \<open>
  Property C4. Delivering a worker report twice has the effect of delivering it once, whatever the time
  of the second delivery and whether it reports success, failure or an image that is no longer known: in
  particular a repeated failure report neither consumes a second retry nor moves the backoff.
\<close>

theorem applyStatusLocked_idempotent:
  "applyStatusLocked ev' req (applyStatusLocked ev req m) = applyStatusLocked ev req m"
  by (rule settled_fixed) (rule settled_after)

lemma drain_enqueue_fold:
  "drainStatusQueueLocked ev (enqueueStatus req m) =
     fold (applyStatusLocked ev) (mm_statusQueue m @ [req]) (m\<lparr>mm_statusQueue := []\<rparr>)"
  by (simp add: drainStatusQueueLocked_def enqueueStatus_def)

lemma applyStatus_queue [simp]: "mm_statusQueue (applyStatusLocked ev req m) = mm_statusQueue m"
  by (auto simp: applyStatusLocked_eq record_success_def Let_def split: option.splits)

lemma recordFailure_frame [simp]: "recordFailureLocked ev (m\<lparr>mm_urgentFlush := b\<rparr>) e = recordFailureLocked ev m e"
  by (simp add: recordFailureLocked_def effectiveMaxRetries_def Let_def)

lemma setImageState_frame_update:
  "setImageStateLocked ev dest st err (m\<lparr>mm_urgentFlush := b\<rparr>) = (setImageStateLocked ev dest st err m)\<lparr>mm_urgentFlush := b\<rparr>"
  by (simp add: setImageStateLocked_def resetMirroredLocked_def Let_def split: option.split)

lemma record_success_frame_update:
  "record_success ev req (m\<lparr>mm_urgentFlush := b\<rparr>) = (record_success ev req m)\<lparr>mm_urgentFlush := b\<rparr>"
proof -
  let ?f1 = "\<lambda>m. if mget (mm_imageState m) (rq_Destination req) \<noteq> None
    then m\<lparr>mm_mirrored := mput (rq_Destination req) True (mm_mirrored m)\<rparr> else m"
  have "?f1 (m\<lparr>mm_urgentFlush := b\<rparr>) = (?f1 m)\<lparr>mm_urgentFlush := b\<rparr>" by simp
  then show ?thesis
    unfolding record_success_def Let_def by (simp only: setImageState_frame_update) (simp split: option.split)
qed

lemma applyStatus_frame_update:
  "applyStatusLocked ev req (m\<lparr>mm_urgentFlush := b\<rparr>) = (applyStatusLocked ev req m)\<lparr>mm_urgentFlush := b\<rparr>"
  by (simp add: applyStatusLocked_eq setImageState_frame_update record_success_frame_update Let_def)

lemma fold_applyStatus_frame:
  "fold (applyStatusLocked ev) reqs (m\<lparr>mm_urgentFlush := b\<rparr>) = (fold (applyStatusLocked ev) reqs m)\<lparr>mm_urgentFlush := b\<rparr>"
  by (induction reqs arbitrary: m) (simp_all add: applyStatus_frame_update)

lemma fold_applyStatus_queue [simp]: "mm_statusQueue (fold (applyStatusLocked ev) reqs m) = mm_statusQueue m"
  by (induction reqs arbitrary: m) simp_all

lemma drain_frame_update:
  "drainStatusQueueLocked ev (m\<lparr>mm_urgentFlush := b\<rparr>) = (drainStatusQueueLocked ev m)\<lparr>mm_urgentFlush := b\<rparr>"
proof -
  have "m\<lparr>mm_urgentFlush := b, mm_statusQueue := []\<rparr> = m\<lparr>mm_statusQueue := [], mm_urgentFlush := b\<rparr>" by simp
  then show ?thesis unfolding drainStatusQueueLocked_def by (simp only: fold_applyStatus_frame) simp
qed

lemma drain_empty: "mm_statusQueue m = [] \<Longrightarrow> drainStatusQueueLocked ev m = m"
  by (simp add: drainStatusQueueLocked_def)

text \<open>
  Property C7. A worker report that is acknowledged is never lost and reports are applied in the order
  they arrived: whether or not the mutex was free when the report came in, the next drain leaves the
  manager in the state of applying all waiting reports followed by this one. A request that is not a
  properly authenticated report changes nothing.
\<close>

theorem handleStatusUpdate_not_lost:
  assumes "handleStatusUpdate ev locked r m = (code, m')"
  shows "(code = 200 \<longrightarrow> (\<exists>req. hq_Body r = Some req \<and> hq_Authorization r = ''Bearer '' @ mm_workerToken m \<and> mm_urgentFlush m' \<and>
      drainStatusQueueLocked ev m' =
        (fold (applyStatusLocked ev) (mm_statusQueue m @ [req]) (m\<lparr>mm_statusQueue := []\<rparr>))\<lparr>mm_urgentFlush := True\<rparr>)) \<and>
    (code \<noteq> 200 \<longrightarrow> m' = m)"
proof (cases "hq_Method r = POST \<and> hq_Authorization r = ''Bearer '' @ mm_workerToken m")
  case False
  then show ?thesis using assms by (auto simp: handleStatusUpdate_def split: if_splits)
next
  case True
  show ?thesis
  proof (cases "hq_Body r")
    case None
    then show ?thesis using assms True by (auto simp: handleStatusUpdate_def)
  next
    case (Some req)
    let ?fin = "fold (applyStatusLocked ev) (mm_statusQueue m @ [req]) (m\<lparr>mm_statusQueue := []\<rparr>)"
    have m': "code = 200" "m' = (if locked then enqueueStatus req m else ?fin)\<lparr>mm_urgentFlush := True\<rparr>"
      using assms True Some drain_enqueue_fold [of ev req m] by (auto simp: handleStatusUpdate_def Let_def split: if_splits)
    have "drainStatusQueueLocked ev (if locked then enqueueStatus req m else ?fin) = ?fin"
      using drain_enqueue_fold [of ev req m] by (simp add: drain_empty)
    then have "drainStatusQueueLocked ev m' = ?fin\<lparr>mm_urgentFlush := True\<rparr>"
      using m'(2) by (simp only: drain_frame_update)
    then show ?thesis using m' Some True by auto
  qed
qed

theorem handleStatusUpdate_not_lost_witness:
  "fst (handleStatusUpdate \<lparr>ev_now = 0, ev_rand = \<lambda>n. 0\<rparr> True
      \<lparr>hq_Method = POST, hq_Authorization = ''Bearer bad'', hq_Body = None, hq_Dest = []\<rparr> (new_manager [] [] [])) = 401
   \<and> snd (handleStatusUpdate \<lparr>ev_now = 0, ev_rand = \<lambda>n. 0\<rparr> True
      \<lparr>hq_Method = POST, hq_Authorization = ''Bearer bad'', hq_Body = None, hq_Dest = []\<rparr> (new_manager [] [] [])) = new_manager [] [] []"
proof -
  let ?h = "handleStatusUpdate \<lparr>ev_now = 0, ev_rand = \<lambda>n. 0\<rparr> True
      \<lparr>hq_Method = POST, hq_Authorization = ''Bearer bad'', hq_Body = None, hq_Dest = []\<rparr> (new_manager [] [] [])"
  have "?h = (fst ?h, snd ?h)" by simp
  from handleStatusUpdate_not_lost [OF this] show ?thesis
    by (simp add: handleStatusUpdate_def new_manager_def)
qed

section \<open>Resets\<close>

text \<open>
  A forced resync resets every image of the ImageSet that no worker is busy with: it is
  Pending with a fresh retry budget, no backoff, no error and no verified signature, and its fast-path
  flag is off. The permanent-failure history and everything that identifies the image stay; images of
  other ImageSets and images in a running batch are untouched.
\<close>

theorem force_resync_resets:
  assumes "manager_inv m" and "mget (mm_imageState m) d = Some e"
  shows "\<exists>e'. mget (mm_imageState (snd (resetImageSetToPendingLocked n m))) d = Some e' \<and>
    (if hasOwner (mm_owners m) d n \<and> mget_str (mm_inProgress m) d = []
     then State e' = statePending \<and> RetryCount e' = 0 \<and> LastError e' = [] \<and> \<not> SignatureVerified e' \<and>
       PermanentlyFailed e' = PermanentlyFailed e \<and> Source e' = Source e \<and> Origin e' = Origin e \<and>
       \<not> mget_bool (mm_mirrored (snd (resetImageSetToPendingLocked n m))) d
     else e' = e \<and> mget_bool (mm_mirrored (snd (resetImageSetToPendingLocked n m))) d = mget_bool (mm_mirrored m) d)"
proof -
  have wf: "wf_map (mm_imageState m)" and fl: "flags_ok m" using assms(1) by (simp_all add: manager_inv_def)
  have "fresh_entry e \<Longrightarrow> \<not> mget_bool (mm_mirrored m) d"
    using fl assms(2) by (auto simp: flags_ok_def fresh_entry_def)
  then show ?thesis
    using reset_lookup [OF wf, of n d] assms(2) by (auto simp: reset_to_pending_def fresh_entry_def)
qed

theorem force_resync_resets_witness:
  "\<exists>e'. mget (mm_imageState (snd (resetImageSetToPendingLocked ''a''
      (new_manager [(''r/x'', zero_entry\<lparr>State := stateMirrored\<rparr>)] [(''r/x'', [''a''])] [(''r/x'', True)])))) ''r/x'' = Some e'
    \<and> State e' = statePending"
proof -
  let ?m = "new_manager [(''r/x'', zero_entry\<lparr>State := stateMirrored\<rparr>)] [(''r/x'', [''a''])] [(''r/x'', True)]"
  have "manager_inv ?m" by (auto simp: manager_inv_def flags_ok_def new_manager_def split: if_splits)
  from force_resync_resets [OF this, of "''r/x''" "zero_entry\<lparr>State := stateMirrored\<rparr>" "''a''"] show ?thesis
    by (auto simp: new_manager_def hasOwner_def)
qed

end
