(* ===== verification/Drift.thy ===== *)
theory Drift
  imports Lifecycle
begin

text \<open>
  The background drift sweep (\<open>pkg/mirror/manager/manager.go\<close>, \<open>checkDriftAttempt\<close> and the functions
  around it). A check reads the entry under the mutex, asks the registries without it and applies the
  answer under the mutex again. The registries' answers are the record \<open>drift_net\<close>; what all other
  threads do to the manager between the two critical sections is the function \<open>between\<close>, over which
  the theorems quantify.
\<close>

section \<open>Registry answers\<close>

datatype check_error = HTTPStatus string | OtherError string

fun err_text :: "check_error \<Rightarrow> string" where
  "err_text (HTTPStatus msg) = msg"
| "err_text (OtherError msg) = msg"

record drift_net =
  nt_CheckExist :: "string \<Rightarrow> bool \<times> check_error option"
  nt_CheckExistFresh :: "string \<Rightarrow> bool \<times> check_error option"
  nt_GetDigest :: "string \<Rightarrow> check_error + string"
  nt_HasValidSignature :: "string \<Rightarrow> string \<Rightarrow> check_error option"
  nt_deadlineExceeded :: bool
  nt_parentAlive :: bool

definition checkExistNoLock :: "drift_net \<Rightarrow> string \<Rightarrow> bool \<times> check_error option" where
  "checkExistNoLock net dest =
     (case nt_CheckExist net dest of
        (exists, Some (HTTPStatus msg)) \<Rightarrow>
          if \<not> contains msg ''400'' then (exists, Some (HTTPStatus msg)) else nt_CheckExistFresh net dest
      | r \<Rightarrow> r)"

definition retryTimedOutCheck :: "drift_net \<Rightarrow> bool \<Rightarrow> check_error option \<Rightarrow> bool" where
  "retryTimedOutCheck net finalAttempt checkErr \<longleftrightarrow>
     \<not> finalAttempt \<and> checkErr \<noteq> None \<and> nt_deadlineExceeded net \<and> nt_parentAlive net"

definition sourceDigestNoLock :: "drift_net \<Rightarrow> string \<Rightarrow> string \<Rightarrow> string \<times> bool" where
  "sourceDigestNoLock net origin source =
     (if origin \<noteq> OriginAdditional \<or> contains source ''@sha256:'' then ([], False)
      else (case nt_GetDigest net source of Inl _ \<Rightarrow> ([], False) | Inr digest \<Rightarrow> (digest, True)))"

definition signatureErrNoLock :: "drift_net \<Rightarrow> string \<Rightarrow> bool \<times> check_error option" where
  "signatureErrNoLock net dest =
     (let digest = destinationDigest dest
      in if digest = [] then (False, None) else (True, nt_HasValidSignature net dest digest))"

section \<open>Applying an answer\<close>

definition anyOwnerRequiresSignedImages :: "string list \<Rightarrow> (string, bool) gomap \<Rightarrow> bool" where
  "anyOwnerRequiresSignedImages names requireSignedByIS \<longleftrightarrow> (\<exists>name \<in> set names. mget_bool requireSignedByIS name)"

definition applySourceDigestLocked :: "image_entry \<Rightarrow> string \<Rightarrow> bool \<times> image_entry \<times> bool" where
  "applySourceDigestLocked entry digest =
     (SourceDigest entry \<noteq> [] \<and> SourceDigest entry \<noteq> digest,
      entry\<lparr>SourceDigest := digest\<rparr>,
      SourceDigest entry \<noteq> digest)"

definition applySignatureResultLocked ::
  "env \<Rightarrow> string \<Rightarrow> image_entry \<Rightarrow> check_error option \<Rightarrow> mirror_manager \<Rightarrow> mirror_manager" where
  "applySignatureResultLocked ev dest entry sigErr m =
     (case sigErr of
        None \<Rightarrow> (put_entry dest (entry\<lparr>SignatureVerified := True\<rparr>) m)\<lparr>mm_stateDirty := True\<rparr>
      | Some err \<Rightarrow>
          (put_entry dest (recordFailureLocked ev m
             (entry\<lparr>State := stateFailed, LastError := ''signature check failed: '' @ err_text err, SignatureVerified := False\<rparr>)) m)
          \<lparr>mm_mirrored := mput dest False (mm_mirrored m), mm_stateDirty := True, mm_statusDirty := True\<rparr>)"

definition requeue :: "image_entry \<Rightarrow> image_entry" where
  "requeue entry = entry\<lparr>State := statePending, LastError := [], RetryCount := 0, NextRetryAt := None\<rparr>"

text \<open>First critical section: the entry to check, whether it is a recovery check, and whether a signature is needed.\<close>

definition drift_snapshot ::
  "mirror_manager \<Rightarrow> string \<Rightarrow> (string, bool) gomap \<Rightarrow> (image_entry \<times> bool \<times> bool) option" where
  "drift_snapshot m dest requireSignedByIS =
     (case mget (mm_imageState m) dest of
        None \<Rightarrow> None
      | Some entry \<Rightarrow>
          if length (mget_list (mm_owners m) dest) = 0 then None
          else
            (let recovery = (State entry = stateFailed \<and> PermanentlyFailed entry)
             in if State entry \<noteq> stateMirrored \<and> \<not> recovery then None
                else Some (entry, recovery,
                  \<not> SignatureVerified entry \<and> anyOwnerRequiresSignedImages (mget_list (mm_owners m) dest) requireSignedByIS)))"

text \<open>Second critical section.\<close>

definition drift_recover :: "string \<Rightarrow> image_entry \<Rightarrow> bool \<times> check_error option \<Rightarrow> mirror_manager \<Rightarrow> mirror_manager" where
  "drift_recover dest entry answer m =
     (if snd answer \<noteq> None then m
      else if fst answer then
        (put_entry dest (entry\<lparr>State := stateMirrored, LastError := []\<rparr>) m)
          \<lparr>mm_mirrored := mput dest True (mm_mirrored m), mm_stateDirty := True\<rparr>
      else
        resetMirroredLocked dest (put_entry dest (entry\<lparr>State := statePending, RetryCount := 0, NextRetryAt := None\<rparr>) m))"

definition drift_confirm ::
  "env \<Rightarrow> string \<Rightarrow> image_entry \<Rightarrow> bool \<times> check_error option \<Rightarrow> string \<times> bool \<Rightarrow> bool \<times> check_error option
    \<Rightarrow> mirror_manager \<Rightarrow> mirror_manager" where
  "drift_confirm ev dest entry answer source signature m =
     (if snd answer \<noteq> None then m\<lparr>mm_mirrored := mput dest True (mm_mirrored m)\<rparr>
      else if \<not> fst answer then resetMirroredLocked dest (put_entry dest (requeue entry) m)
      else
        (let (drifted, entry1, dirty) = (if snd source then applySourceDigestLocked entry (fst source) else (False, entry, False));
             m1 = (put_entry dest entry1 m)\<lparr>mm_stateDirty := mm_stateDirty m \<or> dirty\<rparr>
         in if drifted then resetMirroredLocked dest (put_entry dest (requeue entry1) m1)
            else
              (let m2 = m1\<lparr>mm_mirrored := mput dest True (mm_mirrored m1)\<rparr>
               in if fst signature \<and> \<not> SignatureVerified entry1
                  then applySignatureResultLocked ev dest entry1 (snd signature) m2
                  else m2)))"

definition checkDriftAttempt ::
  "env \<Rightarrow> drift_net \<Rightarrow> (mirror_manager \<Rightarrow> mirror_manager) \<Rightarrow> string \<Rightarrow> (string, bool) gomap \<Rightarrow> bool
    \<Rightarrow> mirror_manager \<Rightarrow> bool \<times> mirror_manager" where
  "checkDriftAttempt ev net between dest requireSignedByIS finalAttempt m =
     (case drift_snapshot m dest requireSignedByIS of
        None \<Rightarrow> (False, m)
      | Some (snap, recovery, needsSignatureCheck) \<Rightarrow>
          (let answer = checkExistNoLock net dest
           in if retryTimedOutCheck net finalAttempt (snd answer) then (True, between m)
              else
                (let ask = (\<not> recovery \<and> snd answer = None \<and> fst answer);
                     source = (if ask then sourceDigestNoLock net (Origin snap) (Source snap) else ([], False));
                     upstreamMoved = (snd source \<and> SourceDigest snap \<noteq> [] \<and> SourceDigest snap \<noteq> fst source);
                     signature = (if ask \<and> \<not> upstreamMoved \<and> needsSignatureCheck then signatureErrNoLock net dest else (False, None));
                     m1 = between m
                 in case mget (mm_imageState m1) dest of
                      None \<Rightarrow> (False, m1)
                    | Some entry \<Rightarrow>
                        if State entry \<noteq> State snap \<or> PermanentlyFailed entry \<noteq> PermanentlyFailed snap \<or> Source entry \<noteq> Source snap
                        then (False, m1)
                        else if recovery then (False, drift_recover dest entry answer m1)
                        else (False, drift_confirm ev dest entry answer source signature m1))))"

section \<open>Sweeps\<close>

definition startDriftSweepLocked :: "mirror_manager \<Rightarrow> string list \<times> mirror_manager" where
  "startDriftSweepLocked m =
     (if mm_driftSweepRunning m then ([], m)
      else
        (let destinations = map fst (filter (\<lambda>(dest, entry).
               State entry = stateMirrored \<or> State entry = stateFailed \<and> PermanentlyFailed entry) (mm_imageState m))
         in if length destinations = 0 then ([], m) else (destinations, m\<lparr>mm_driftSweepRunning := True\<rparr>)))"

text \<open>
  A pass checks its destinations concurrently; the critical sections of the checks are serialised by the
  mutex. A pass is modelled as a sequence of checks, each with its own answers and its own interference.
\<close>

fun runDriftPass ::
  "env \<Rightarrow> (string \<Rightarrow> drift_net) \<Rightarrow> (string \<Rightarrow> mirror_manager \<Rightarrow> mirror_manager) \<Rightarrow> string list \<Rightarrow> (string, bool) gomap \<Rightarrow> bool
    \<Rightarrow> mirror_manager \<Rightarrow> string list \<times> mirror_manager" where
  "runDriftPass ev net between [] requireSignedByIS finalAttempt m = ([], m)"
| "runDriftPass ev net between (dest # dests) requireSignedByIS finalAttempt m =
     (case checkDriftAttempt ev (net dest) (between dest) dest requireSignedByIS finalAttempt m of
        (retry, m1) \<Rightarrow>
          (case runDriftPass ev net between dests requireSignedByIS finalAttempt m1 of
             (timedOut, m2) \<Rightarrow> (if retry then dest # timedOut else timedOut, m2)))"

definition runDriftSweep ::
  "env \<Rightarrow> (string \<Rightarrow> drift_net) \<Rightarrow> (string \<Rightarrow> drift_net) \<Rightarrow> (string \<Rightarrow> mirror_manager \<Rightarrow> mirror_manager) \<Rightarrow> bool
    \<Rightarrow> string list \<Rightarrow> (string, bool) gomap \<Rightarrow> mirror_manager \<Rightarrow> mirror_manager" where
  "runDriftSweep ev net net2 between ctxAlive destinations requireSignedByIS m =
     (case runDriftPass ev net between destinations requireSignedByIS False m of
        (timedOut, m1) \<Rightarrow>
          (let m2 = (if length timedOut = 0 \<or> \<not> ctxAlive then m1
                     else snd (runDriftPass ev net2 between timedOut requireSignedByIS True m1))
           in m2\<lparr>mm_driftSweepRunning := False\<rparr>))"

section \<open>The checks keep the invariant\<close>

lemma put_entry_obs:
  "mget (mm_imageState (put_entry d e m)) = (mget (mm_imageState m))(d \<mapsto> e)"
  by (simp add: mget_put_fun)

text \<open>What replacing one known entry does to the invariant.\<close>

lemma replace_entry_op:
  assumes "manager_inv m" and "mget (mm_imageState m) d = Some e"
    and "mget (mm_imageState m') = (mget (mm_imageState m))(d \<mapsto> e')" and "Source e' = Source e"
    and "PermanentlyFailed e \<longrightarrow> PermanentlyFailed e'"
    and "mget_bool (mm_mirrored m') = (mget_bool (mm_mirrored m))(d := b)" and "b \<longrightarrow> State e' = stateMirrored"
    and "wf_map (mm_imageState m')" and "wf_map (mm_mirrored m')"
    and "mm_inProgress m' = mm_inProgress m" and "mm_owners m' = mm_owners m"
  shows "manager_inv m' \<and> (no_stale_flag m \<longrightarrow> no_stale_flag m') \<and> entries_le m m'"
  using assms by (auto simp: manager_inv_def flags_ok_def no_stale_flag_def entries_le_def)

lemma drift_recover_op:
  assumes "manager_inv m" and "mget (mm_imageState m) dest = Some e"
  shows "manager_inv (drift_recover dest e answer m) \<and> (no_stale_flag m \<longrightarrow> no_stale_flag (drift_recover dest e answer m)) \<and>
    entries_le m (drift_recover dest e answer m)"
proof -
  have wf: "wf_map (mm_imageState m)" "wf_map (mm_mirrored m)" using assms(1) by (simp_all add: manager_inv_def)
  show ?thesis
  proof (cases "snd answer")
    case Some
    then show ?thesis using assms(1) by (simp add: drift_recover_def)
  next
    case None
    show ?thesis
    proof (cases "fst answer")
      case True
      show ?thesis
        by (rule replace_entry_op [OF assms, where e' = "e\<lparr>State := stateMirrored, LastError := []\<rparr>" and b = True])
          (use None True wf in \<open>simp_all add: drift_recover_def mget_put_fun mget_bool_put\<close>)
    next
      case False
      show ?thesis
        by (rule replace_entry_op [OF assms, where e' = "e\<lparr>State := statePending, RetryCount := 0, NextRetryAt := None\<rparr>" and b = False])
          (use None False wf in \<open>simp_all add: drift_recover_def resetMirroredLocked_def mget_put_fun mget_bool_del\<close>)
    qed
  qed
qed

definition with_source :: "image_entry \<Rightarrow> string \<times> bool \<Rightarrow> image_entry" where
  "with_source e source = (if snd source then e\<lparr>SourceDigest := fst source\<rparr> else e)"

lemma with_source_keeps [simp]:
  "State (with_source e source) = State e" "Source (with_source e source) = Source e"
  "PermanentlyFailed (with_source e source) = PermanentlyFailed e" "SignatureVerified (with_source e source) = SignatureVerified e"
  "RetryCount (with_source e source) = RetryCount e"
  by (simp_all add: with_source_def)

text \<open>The entry and the flag a conclusive check of a Mirrored entry leaves behind.\<close>

definition confirmed_entry :: "env \<Rightarrow> mirror_manager \<Rightarrow> image_entry \<Rightarrow> string \<times> bool \<Rightarrow> bool \<times> check_error option \<Rightarrow> image_entry" where
  "confirmed_entry ev m e source signature =
     (let e1 = with_source e source
      in if snd source \<and> SourceDigest e \<noteq> [] \<and> SourceDigest e \<noteq> fst source then requeue e1
         else if fst signature \<and> \<not> SignatureVerified e
         then (case snd signature of
                 None \<Rightarrow> e1\<lparr>SignatureVerified := True\<rparr>
               | Some err \<Rightarrow> recordFailureLocked ev m
                   (e1\<lparr>State := stateFailed, LastError := ''signature check failed: '' @ err_text err, SignatureVerified := False\<rparr>))
         else e1)"

lemma recordFailure_same_budget:
  "mm_maxRetries m' = mm_maxRetries m \<Longrightarrow> recordFailureLocked ev m' e = recordFailureLocked ev m e"
  by (simp add: recordFailureLocked_def effectiveMaxRetries_def)

text \<open>The manager after a conclusive check, by case.\<close>

lemma drift_confirm_moved:
  assumes "answer = (True, None)" and "snd source" and "SourceDigest e \<noteq> []" and "SourceDigest e \<noteq> fst source"
  shows "drift_confirm ev dest e answer source signature m =
    resetMirroredLocked dest (put_entry dest (requeue (with_source e source)) ((put_entry dest (with_source e source) m)\<lparr>mm_stateDirty := True\<rparr>))"
  using assms by (simp add: drift_confirm_def applySourceDigestLocked_def with_source_def)

lemma drift_confirm_same:
  assumes "answer = (True, None)" and "\<not> (snd source \<and> SourceDigest e \<noteq> [] \<and> SourceDigest e \<noteq> fst source)"
  shows "\<exists>b. drift_confirm ev dest e answer source signature m =
    (if fst signature \<and> \<not> SignatureVerified e
     then applySignatureResultLocked ev dest (with_source e source) (snd signature)
       ((put_entry dest (with_source e source) m)\<lparr>mm_stateDirty := b, mm_mirrored := mput dest True (mm_mirrored m)\<rparr>)
     else (put_entry dest (with_source e source) m)\<lparr>mm_stateDirty := b, mm_mirrored := mput dest True (mm_mirrored m)\<rparr>)"
proof (cases "snd source")
  case True
  then have nodrift: "(SourceDigest e \<noteq> [] \<and> SourceDigest e \<noteq> fst source) = False" using assms(2) by simp
  show ?thesis
    by (intro exI [of _ "mm_stateDirty m \<or> SourceDigest e \<noteq> fst source"])
      (simp only: assms(1) True drift_confirm_def applySourceDigestLocked_def nodrift with_source_def Let_def
        if_True if_False prod.case fst_conv snd_conv simp_thms, simp)
next
  case False
  with assms show ?thesis
    by (intro exI [of _ "mm_stateDirty m"]) (simp add: drift_confirm_def with_source_def Let_def)
qed

lemma signature_result:
  "mget (mm_imageState (applySignatureResultLocked ev dest e sigErr m)) =
     (mget (mm_imageState m))(dest \<mapsto> (case sigErr of
        None \<Rightarrow> e\<lparr>SignatureVerified := True\<rparr>
      | Some err \<Rightarrow> recordFailureLocked ev m
          (e\<lparr>State := stateFailed, LastError := ''signature check failed: '' @ err_text err, SignatureVerified := False\<rparr>)))"
  "mget_bool (mm_mirrored (applySignatureResultLocked ev dest e sigErr m)) =
     (case sigErr of None \<Rightarrow> mget_bool (mm_mirrored m) | Some _ \<Rightarrow> (mget_bool (mm_mirrored m))(dest := False))"
  "mm_inProgress (applySignatureResultLocked ev dest e sigErr m) = mm_inProgress m"
  "mm_owners (applySignatureResultLocked ev dest e sigErr m) = mm_owners m"
  by (simp_all add: applySignatureResultLocked_def mget_put_fun mget_bool_put split: option.split)

lemma drift_confirm_present:
  assumes "answer = (True, None)" and "mget (mm_imageState m) dest = Some e" and "State e = stateMirrored"
  shows "mget (mm_imageState (drift_confirm ev dest e answer source signature m)) = (mget (mm_imageState m))(dest \<mapsto> confirmed_entry ev m e source signature) \<and>
    mget_bool (mm_mirrored (drift_confirm ev dest e answer source signature m)) =
      (mget_bool (mm_mirrored m))(dest := (State (confirmed_entry ev m e source signature) = stateMirrored)) \<and>
    mm_inProgress (drift_confirm ev dest e answer source signature m) = mm_inProgress m \<and> mm_owners (drift_confirm ev dest e answer source signature m) = mm_owners m"
proof (cases "snd source \<and> SourceDigest e \<noteq> [] \<and> SourceDigest e \<noteq> fst source")
  case True
  then have "drift_confirm ev dest e answer source signature m =
    resetMirroredLocked dest (put_entry dest (requeue (with_source e source)) ((put_entry dest (with_source e source) m)\<lparr>mm_stateDirty := True\<rparr>))"
    using drift_confirm_moved [OF assms(1)] by blast
  moreover have "confirmed_entry ev m e source signature = requeue (with_source e source)"
    using True by (simp add: confirmed_entry_def)
  ultimately show ?thesis by (simp add: resetMirroredLocked_def requeue_def mget_put_fun mget_bool_del)
next
  case False
  let ?e1 = "with_source e source"
  obtain b where m': "drift_confirm ev dest e answer source signature m =
    (if fst signature \<and> \<not> SignatureVerified e
     then applySignatureResultLocked ev dest ?e1 (snd signature)
       ((put_entry dest ?e1 m)\<lparr>mm_stateDirty := b, mm_mirrored := mput dest True (mm_mirrored m)\<rparr>)
     else (put_entry dest ?e1 m)\<lparr>mm_stateDirty := b, mm_mirrored := mput dest True (mm_mirrored m)\<rparr>)"
    using drift_confirm_same [OF assms(1) False] by blast
  show ?thesis
  proof (cases "fst signature \<and> \<not> SignatureVerified e")
    case True
    let ?m2 = "(put_entry dest ?e1 m)\<lparr>mm_stateDirty := b, mm_mirrored := mput dest True (mm_mirrored m)\<rparr>"
    have "drift_confirm ev dest e answer source signature m = applySignatureResultLocked ev dest ?e1 (snd signature) ?m2" using m' True by (simp add: Let_def)
    moreover have "confirmed_entry ev m e source signature = (case snd signature of
        None \<Rightarrow> ?e1\<lparr>SignatureVerified := True\<rparr>
      | Some err \<Rightarrow> recordFailureLocked ev ?m2
          (?e1\<lparr>State := stateFailed, LastError := ''signature check failed: '' @ err_text err, SignatureVerified := False\<rparr>))"
      using True False recordFailure_same_budget [of ?m2 m ev] by (auto simp: confirmed_entry_def Let_def split: option.split)
    ultimately show ?thesis using assms(3)
      by (simp add: signature_result mget_put_fun mget_bool_put split: option.split)
  next
    case nosig: False
    have "drift_confirm ev dest e answer source signature m = (put_entry dest ?e1 m)\<lparr>mm_stateDirty := b, mm_mirrored := mput dest True (mm_mirrored m)\<rparr>"
      using m' nosig by (simp add: Let_def)
    moreover have "confirmed_entry ev m e source signature = ?e1"
      using False nosig by (auto simp: confirmed_entry_def Let_def)
    ultimately show ?thesis using assms(3) by (simp add: mget_put_fun mget_bool_put)
  qed
qed

lemma wf_drift_confirm:
  assumes "wf_map (mm_imageState m)" and "wf_map (mm_mirrored m)"
  shows "wf_map (mm_imageState (drift_confirm ev dest e answer source signature m))"
    and "wf_map (mm_mirrored (drift_confirm ev dest e answer source signature m))"
  using assms
  by (auto simp: drift_confirm_def applySourceDigestLocked_def applySignatureResultLocked_def resetMirroredLocked_def Let_def
      split: option.splits prod.splits)

lemma confirmed_entry_keeps:
  "Source (confirmed_entry ev m e source signature) = Source e"
  "PermanentlyFailed e \<Longrightarrow> PermanentlyFailed (confirmed_entry ev m e source signature)"
  by (auto simp: confirmed_entry_def requeue_def Let_def split: option.splits)

lemma drift_confirm_op:
  assumes "manager_inv m" and "mget (mm_imageState m) dest = Some e" and "State e = stateMirrored"
  shows "manager_inv (drift_confirm ev dest e answer source signature m) \<and>
    (no_stale_flag m \<longrightarrow> no_stale_flag (drift_confirm ev dest e answer source signature m)) \<and>
    entries_le m (drift_confirm ev dest e answer source signature m)"
proof -
  have wf: "wf_map (mm_imageState m)" "wf_map (mm_mirrored m)" using assms(1) by (simp_all add: manager_inv_def)
  consider (err) "snd answer \<noteq> None" | (missing) "answer = (False, None)" | (present) "answer = (True, None)"
    by (cases answer; cases "snd answer") auto
  then show ?thesis
  proof cases
    case err
    show ?thesis
      by (rule replace_entry_op [OF assms(1,2), where e' = e and b = True])
        (use err assms wf in \<open>simp_all add: drift_confirm_def mget_bool_put fun_upd_idem\<close>)
  next
    case missing
    show ?thesis
      by (rule replace_entry_op [OF assms(1,2), where e' = "requeue e" and b = False])
        (use missing wf in \<open>simp_all add: drift_confirm_def resetMirroredLocked_def requeue_def mget_put_fun mget_bool_del\<close>)
  next
    case present
    show ?thesis
      by (rule replace_entry_op [OF assms(1,2), where e' = "confirmed_entry ev m e source signature"
            and b = "State (confirmed_entry ev m e source signature) = stateMirrored"])
        (use wf_drift_confirm [OF wf] drift_confirm_present [OF present assms(2,3)] in \<open>simp_all add: confirmed_entry_keeps\<close>)
  qed
qed

lemma drift_snapshot_Some:
  assumes "drift_snapshot m dest req = Some (snap, rec, need)"
  shows "mget (mm_imageState m) dest = Some snap" and "mget_list (mm_owners m) dest \<noteq> []"
    and "rec \<longleftrightarrow> State snap = stateFailed \<and> PermanentlyFailed snap" and "\<not> rec \<Longrightarrow> State snap = stateMirrored"
    and "need \<longleftrightarrow> \<not> SignatureVerified snap \<and> anyOwnerRequiresSignedImages (mget_list (mm_owners m) dest) req"
proof -
  obtain entry where e: "mget (mm_imageState m) dest = Some entry"
    using assms by (cases "mget (mm_imageState m) dest") (simp_all add: drift_snapshot_def)
  have ow: "mget_list (mm_owners m) dest \<noteq> []" using assms e by (auto simp: drift_snapshot_def)
  let ?rec = "State entry = stateFailed \<and> PermanentlyFailed entry"
  have st: "\<not> (State entry \<noteq> stateMirrored \<and> \<not> ?rec)" using assms e ow by (simp add: drift_snapshot_def Let_def split: if_splits)
  have "(snap, rec, need) = (entry, ?rec, \<not> SignatureVerified entry \<and> anyOwnerRequiresSignedImages (mget_list (mm_owners m) dest) req)"
    using assms e ow st by (simp only: drift_snapshot_def Let_def option.case length_0_conv if_False option.inject simp_thms)
  then show "mget (mm_imageState m) dest = Some snap" "mget_list (mm_owners m) dest \<noteq> []"
    "rec \<longleftrightarrow> State snap = stateFailed \<and> PermanentlyFailed snap" "\<not> rec \<Longrightarrow> State snap = stateMirrored"
    "need \<longleftrightarrow> \<not> SignatureVerified snap \<and> anyOwnerRequiresSignedImages (mget_list (mm_owners m) dest) req"
    using e ow st by simp_all
qed

lemma drift_outcome:
  assumes "checkDriftAttempt ev net between dest req final m = (retry, m')"
  obtains (skipped) "drift_snapshot m dest req = None" "m' = m"
    | (stale) "m' = between m"
    | (recovered) e answer where "mget (mm_imageState (between m)) dest = Some e" "m' = drift_recover dest e answer (between m)"
    | (confirmed) e answer source signature where "mget (mm_imageState (between m)) dest = Some e" "State e = stateMirrored"
        "m' = drift_confirm ev dest e answer source signature (between m)"
proof (cases "drift_snapshot m dest req")
  case None
  then have "checkDriftAttempt ev net between dest req final m = (False, m)" by (simp only: checkDriftAttempt_def option.case)
  with None assms show thesis by (intro skipped) simp_all
next
  case (Some s)
  obtain snap rec need where s: "s = (snap, rec, need)" by (cases s) auto
  have snap: "\<not> rec \<Longrightarrow> State snap = stateMirrored"
    using drift_snapshot_Some(4) Some s by blast
  define answer where "answer = checkExistNoLock net dest"
  show thesis
  proof (cases "retryTimedOutCheck net final (snd answer)")
    case True
    then have "checkDriftAttempt ev net between dest req final m = (True, between m)"
      by (simp only: checkDriftAttempt_def Some s option.case prod.case Let_def answer_def [symmetric] if_True)
    with assms show thesis by (intro stale) simp
  next
    case noretry: False
    show thesis
    proof (cases "mget (mm_imageState (between m)) dest")
      case None
      with noretry have "checkDriftAttempt ev net between dest req final m = (False, between m)"
        by (simp only: checkDriftAttempt_def Some s option.case prod.case Let_def answer_def [symmetric] if_False)
      with assms show thesis by (intro stale) simp
    next
      case (Some e)
      define ask where "ask \<longleftrightarrow> \<not> rec \<and> snd answer = None \<and> fst answer"
      define source where "source = (if ask then sourceDigestNoLock net (Origin snap) (Source snap) else ([], False))"
      define moved where "moved \<longleftrightarrow> snd source \<and> SourceDigest snap \<noteq> [] \<and> SourceDigest snap \<noteq> fst source"
      define signature where "signature = (if ask \<and> \<not> moved \<and> need then signatureErrNoLock net dest else (False, None))"
      have m': "checkDriftAttempt ev net between dest req final m =
          (if State e \<noteq> State snap \<or> PermanentlyFailed e \<noteq> PermanentlyFailed snap \<or> Source e \<noteq> Source snap then (False, between m)
           else if rec then (False, drift_recover dest e answer (between m))
           else (False, drift_confirm ev dest e answer source signature (between m)))"
        unfolding checkDriftAttempt_def \<open>drift_snapshot m dest req = Some s\<close> s Let_def option.case prod.case
          answer_def [symmetric] ask_def [symmetric] if_not_P [OF noretry]
          source_def [symmetric] moved_def [symmetric] signature_def [symmetric] Some option.case ..
      show thesis
      proof (cases "State e \<noteq> State snap \<or> PermanentlyFailed e \<noteq> PermanentlyFailed snap \<or> Source e \<noteq> Source snap")
        case True
        with m' assms show thesis by (intro stale) simp
      next
        case False
        with m' assms snap have "rec \<and> m' = drift_recover dest e answer (between m) \<or>
            State e = stateMirrored \<and> m' = drift_confirm ev dest e answer source signature (between m)"
          by (cases rec) simp_all
        then show thesis using recovered [OF Some] confirmed [OF Some] by blast
      qed
    qed
  qed
qed

lemma drift_check_op:
  assumes "manager_inv m" and "manager_inv (between m)"
    and "checkDriftAttempt ev net between dest req final m = (retry, m')"
  shows "m' = m \<or> manager_inv m' \<and> (no_stale_flag (between m) \<longrightarrow> no_stale_flag m') \<and> entries_le (between m) m'"
  using assms(3)
proof (cases rule: drift_outcome)
  case recovered
  then show ?thesis using drift_recover_op [OF assms(2)] by blast
next
  case confirmed
  then show ?thesis using drift_confirm_op [OF assms(2)] by blast
qed (use assms in auto)

section \<open>Sweeps keep the invariant\<close>

lemma manager_op_check:
  assumes "manager_op between"
  shows "manager_op (\<lambda>m. snd (checkDriftAttempt ev net between dest req final m))"
proof unfold_locales
  fix m assume inv: "manager_inv m"
  have b: "manager_inv (between m)" "entries_le m (between m)" "no_stale_flag m \<Longrightarrow> no_stale_flag (between m)"
    using assms inv by (auto simp: manager_op_def)
  obtain retry m' where r: "checkDriftAttempt ev net between dest req final m = (retry, m')" by force
  from drift_check_op [OF inv b(1) r] inv b entries_le_trans [OF b(2)]
  show "manager_inv (snd (checkDriftAttempt ev net between dest req final m))"
    "no_stale_flag m \<Longrightarrow> no_stale_flag (snd (checkDriftAttempt ev net between dest req final m))"
    "entries_le m (snd (checkDriftAttempt ev net between dest req final m))"
    unfolding r by auto
qed

lemma manager_op_pass:
  assumes "\<And>d. manager_op (between d)"
  shows "manager_op (\<lambda>m. snd (runDriftPass ev net between dests req final m))"
proof (induction dests)
  case Nil
  then show ?case by unfold_locales auto
next
  case (Cons d dests)
  have "snd (runDriftPass ev net between (d # dests) req final m) =
      snd (runDriftPass ev net between dests req final (snd (checkDriftAttempt ev (net d) (between d) d req final m)))" for m
    by (simp split: prod.split)
  then show ?case using manager_op_comp [OF manager_op_check [OF assms] Cons] by simp
qed

lemma manager_op_sweep:
  assumes "\<And>d. manager_op (between d)"
  shows "manager_op (runDriftSweep ev net net2 between alive dests req)"
proof -
  let ?pass1 = "\<lambda>m. snd (runDriftPass ev net between dests req False m)"
  let ?timedOut = "\<lambda>m. fst (runDriftPass ev net between dests req False m)"
  let ?f = "\<lambda>m. if length (?timedOut m) = 0 \<or> \<not> alive then ?pass1 m
    else snd (runDriftPass ev net2 between (?timedOut m) req True (?pass1 m))"
  have p1: "manager_op ?pass1" and p2: "\<And>ds. manager_op (\<lambda>m. snd (runDriftPass ev net2 between ds req True m))"
    by (rule manager_op_pass [OF assms])+
  have "manager_op ?f"
  proof unfold_locales
    fix m assume inv: "manager_inv m"
    note c = manager_op_comp [OF p1 p2 [of "?timedOut m"]]
    show "manager_inv (?f m)" using manager_op.step_inv [OF p1 inv] manager_op.step_inv [OF c inv] by simp
    show "no_stale_flag m \<Longrightarrow> no_stale_flag (?f m)"
      using manager_op.step_stale [OF p1 inv] manager_op.step_stale [OF c inv] by simp
    show "entries_le m (?f m)" using manager_op.step_le [OF p1 inv] manager_op.step_le [OF c inv] by simp
  qed
  then show ?thesis
    by (rule manager_op_frame) (simp_all only: runDriftSweep_def case_prod_beta Let_def, simp_all)
qed

text \<open>
  Property C5. A complete drift sweep, both passes, run while other threads change the manager between
  the two critical sections of every check, keeps the manager's invariant: the fast-path flag
  is set only for Mirrored entries. It adds no entries, changes no source, and never clears the
  permanent-failure mark of an image, as long as the other threads do not.
\<close>

theorem drift_sweep_invariant:
  assumes "\<And>d. manager_op (between d)" and "manager_inv m"
  shows "manager_inv (runDriftSweep ev net net2 between alive dests req m) \<and>
    entries_le m (runDriftSweep ev net net2 between alive dests req m)"
proof -
  have "manager_op (runDriftSweep ev net net2 between alive dests req)" by (rule manager_op_sweep) (rule assms(1))
  then show ?thesis using assms(2) by (simp add: manager_op_def)
qed

definition sample_net :: "bool \<Rightarrow> drift_net" where
  "sample_net present = \<lparr>nt_CheckExist = \<lambda>_. (present, None), nt_CheckExistFresh = \<lambda>_. (present, None),
     nt_GetDigest = \<lambda>_. Inl (OtherError ''down''), nt_HasValidSignature = \<lambda>_ _. Some (OtherError ''no signature''),
     nt_deadlineExceeded = False, nt_parentAlive = True\<rparr>"

definition sample_manager :: mirror_manager where
  "sample_manager = new_manager [(''r/x:sha256-ab'', zero_entry\<lparr>State := stateMirrored\<rparr>)] [(''r/x:sha256-ab'', [''a''])] []"

theorem drift_sweep_invariant_witness:
  "manager_inv (runDriftSweep \<lparr>ev_now = 0, ev_rand = \<lambda>n. 0\<rparr> (\<lambda>_. sample_net False) (\<lambda>_. sample_net True)
     (\<lambda>_. drainStatusQueueLocked \<lparr>ev_now = 0, ev_rand = \<lambda>n. 0\<rparr>) True [''r/x:sha256-ab''] [] sample_manager)"
proof -
  have "manager_inv sample_manager"
    by (auto simp: sample_manager_def new_manager_def manager_inv_def flags_ok_def)
  from drift_sweep_invariant [where between = "\<lambda>_. drainStatusQueueLocked \<lparr>ev_now = 0, ev_rand = \<lambda>n. 0\<rparr>", OF manager_op_drain this] show ?thesis by blast
qed

section \<open>What a check concludes\<close>

lemma checkDriftAttempt_apply:
  assumes "drift_snapshot m dest req = Some (snap, rec, need)"
    and "\<not> retryTimedOutCheck net final (snd (checkExistNoLock net dest))"
    and "mget (mm_imageState (between m)) dest = Some e"
    and "State e = State snap" and "PermanentlyFailed e = PermanentlyFailed snap" and "Source e = Source snap" and "\<not> rec"
  shows "\<exists>source signature. checkDriftAttempt ev net between dest req final m =
      (False, drift_confirm ev dest e (checkExistNoLock net dest) source signature (between m)) \<and>
    (checkExistNoLock net dest = (True, None) \<longrightarrow>
      source = sourceDigestNoLock net (Origin snap) (Source snap) \<and>
      signature = (if \<not> (snd source \<and> SourceDigest snap \<noteq> [] \<and> SourceDigest snap \<noteq> fst source) \<and> need
                   then signatureErrNoLock net dest else (False, None)))"
  using assms by (intro exI conjI) (simp add: checkDriftAttempt_def Let_def, simp add: Let_def)

text \<open>
  Property C9. The answer of a drift check is applied only to the entry it was asked for: if in the
  meantime the entry was removed, or its state, permanent-failure mark or source changed, a conclusive
  check leaves the manager exactly as the other threads left it.
\<close>

theorem drift_stale_answer_dropped:
  assumes "drift_snapshot m dest req = Some (snap, rec, need)"
    and "\<not> retryTimedOutCheck net final (snd (checkExistNoLock net dest))"
    and "case mget (mm_imageState (between m)) dest of
           None \<Rightarrow> True
         | Some e \<Rightarrow> State e \<noteq> State snap \<or> PermanentlyFailed e \<noteq> PermanentlyFailed snap \<or> Source e \<noteq> Source snap"
  shows "checkDriftAttempt ev net between dest req final m = (False, between m)"
proof (cases "mget (mm_imageState (between m)) dest")
  case None
  then show ?thesis using assms(1,2) by (simp add: checkDriftAttempt_def Let_def)
next
  case (Some e)
  then have d: "State e \<noteq> State snap \<or> PermanentlyFailed e \<noteq> PermanentlyFailed snap \<or> Source e \<noteq> Source snap"
    using assms(3) by simp
  show ?thesis
    unfolding checkDriftAttempt_def assms(1) option.case prod.case Let_def if_not_P [OF assms(2)] Some if_P [OF d] ..
qed

theorem drift_stale_answer_dropped_witness:
  "checkDriftAttempt \<lparr>ev_now = 0, ev_rand = \<lambda>n. 0\<rparr> (sample_net False)
     (\<lambda>m. m\<lparr>mm_imageState := []\<rparr>) ''r/x:sha256-ab'' [] True sample_manager = (False, sample_manager\<lparr>mm_imageState := []\<rparr>)"
  by (rule drift_stale_answer_dropped
        [where snap = "zero_entry\<lparr>State := stateMirrored\<rparr>" and rec = False and need = False])
    (simp_all add: sample_manager_def new_manager_def drift_snapshot_def retryTimedOutCheck_def checkExistNoLock_def
      sample_net_def anyOwnerRequiresSignedImages_def)

text \<open>
  Property C38. What a final check of a Mirrored image with an owner concludes, when nothing else happens
  in between. If the registry does not have it, it is queued again with a fresh budget and its flag is off.
  If the registry cannot be asked, all entries stay as they are. If it is there, its signature has not been
  verified yet, an owner requires signed images, the destination carries a digest that has no valid
  signature, and its upstream has not moved (no digest was recorded for it, or upstream still has that digest,
  or it is not asked: only an additional image pulled by tag is), then it fails, which costs
  a retry, and is no longer counted as mirrored.
\<close>

theorem drift_check_concludes:
  assumes "mget (mm_imageState m) dest = Some e" and "State e = stateMirrored" and "mget_list (mm_owners m) dest \<noteq> []"
    and "snd (checkDriftAttempt ev net (\<lambda>m. m) dest req True m) = m'"
  shows "(checkExistNoLock net dest = (False, None) \<longrightarrow>
      mget (mm_imageState m') dest = Some (requeue e) \<and> \<not> mget_bool (mm_mirrored m') dest) \<and>
    (snd (checkExistNoLock net dest) \<noteq> None \<longrightarrow> mm_imageState m' = mm_imageState m) \<and>
    (checkExistNoLock net dest = (True, None) \<and> \<not> SignatureVerified e \<and>
     (snd (sourceDigestNoLock net (Origin e) (Source e)) \<and> SourceDigest e \<noteq> [] \<longrightarrow>
        SourceDigest e = fst (sourceDigestNoLock net (Origin e) (Source e))) \<and>
     anyOwnerRequiresSignedImages (mget_list (mm_owners m) dest) req \<and> destinationDigest dest \<noteq> [] \<and>
     nt_HasValidSignature net dest (destinationDigest dest) = Some err \<longrightarrow>
      (\<exists>e'. mget (mm_imageState m') dest = Some e' \<and> State e' = stateFailed \<and> RetryCount e' = RetryCount e + 1 \<and>
        \<not> mget_bool (mm_mirrored m') dest))"
proof -
  let ?need = "\<not> SignatureVerified e \<and> anyOwnerRequiresSignedImages (mget_list (mm_owners m) dest) req"
  have snap: "drift_snapshot m dest req = Some (e, False, ?need)"
    using assms(1-3) by (simp add: drift_snapshot_def Let_def)
  have nr: "\<not> retryTimedOutCheck net True (snd (checkExistNoLock net dest))" by (simp add: retryTimedOutCheck_def)
  obtain source signature where c: "checkDriftAttempt ev net (\<lambda>m. m) dest req True m =
      (False, drift_confirm ev dest e (checkExistNoLock net dest) source signature m)"
    and ss: "checkExistNoLock net dest = (True, None) \<longrightarrow> source = sourceDigestNoLock net (Origin e) (Source e) \<and>
      signature = (if \<not> (snd source \<and> SourceDigest e \<noteq> [] \<and> SourceDigest e \<noteq> fst source) \<and> ?need
        then signatureErrNoLock net dest else (False, None))"
    using checkDriftAttempt_apply [OF snap nr, where between = "\<lambda>m. m" and ev = ev, OF assms(1) refl refl refl] by blast
  have m': "m' = drift_confirm ev dest e (checkExistNoLock net dest) source signature m" using assms(4) c by simp
  have "checkExistNoLock net dest = (False, None) \<longrightarrow>
      mget (mm_imageState m') dest = Some (requeue e) \<and> \<not> mget_bool (mm_mirrored m') dest"
    by (simp add: m' drift_confirm_def resetMirroredLocked_def)
  moreover have "snd (checkExistNoLock net dest) \<noteq> None \<longrightarrow> mm_imageState m' = mm_imageState m"
    by (simp add: m' drift_confirm_def)
  moreover have "\<exists>e'. mget (mm_imageState m') dest = Some e' \<and> State e' = stateFailed \<and> RetryCount e' = RetryCount e + 1 \<and>
      \<not> mget_bool (mm_mirrored m') dest"
    if h: "checkExistNoLock net dest = (True, None)" "\<not> SignatureVerified e"
      "snd (sourceDigestNoLock net (Origin e) (Source e)) \<and> SourceDigest e \<noteq> [] \<longrightarrow>
        SourceDigest e = fst (sourceDigestNoLock net (Origin e) (Source e))"
      "anyOwnerRequiresSignedImages (mget_list (mm_owners m) dest) req" "destinationDigest dest \<noteq> []"
      "nt_HasValidSignature net dest (destinationDigest dest) = Some err"
  proof -
    have src: "\<not> (snd source \<and> SourceDigest e \<noteq> [] \<and> SourceDigest e \<noteq> fst source)" using ss h(1,3) by auto
    have sig: "signature = (True, Some err)" using ss h src by (simp add: signatureErrNoLock_def Let_def)
    have "State (confirmed_entry ev m e source signature) = stateFailed"
      "RetryCount (confirmed_entry ev m e source signature) = RetryCount e + 1"
      using h(2) src by (auto simp: confirmed_entry_def Let_def sig with_source_def split: prod.splits)
    then show ?thesis
      using drift_confirm_present [OF h(1) assms(1,2), of ev source signature] by (simp add: m')
  qed
  ultimately show ?thesis by blast
qed

theorem drift_check_concludes_witness:
  "mget (mm_imageState (snd (checkDriftAttempt \<lparr>ev_now = 0, ev_rand = \<lambda>n. 0\<rparr> (sample_net False) (\<lambda>m. m) ''r/x:sha256-ab'' [] True
     sample_manager))) ''r/x:sha256-ab'' = Some (requeue (zero_entry\<lparr>State := stateMirrored\<rparr>))"
proof -
  have "mget (mm_imageState sample_manager) ''r/x:sha256-ab'' = Some (zero_entry\<lparr>State := stateMirrored\<rparr>)"
    "State (zero_entry\<lparr>State := stateMirrored\<rparr>) = stateMirrored" "mget_list (mm_owners sample_manager) ''r/x:sha256-ab'' \<noteq> []"
    by (simp_all add: sample_manager_def new_manager_def)
  from drift_check_concludes [OF this refl, where ev = "\<lparr>ev_now = 0, ev_rand = \<lambda>n. 0\<rparr>" and net = "sample_net False" and req = "[]"]
  show ?thesis by (simp add: sample_net_def checkExistNoLock_def)
qed

end
