(* ===== verification/Dispatch.thy ===== *)
theory Dispatch
  imports Lifecycle
begin

text \<open>
  Worker pods and the dispatch of images to them: recovering and clearing the tracked pods
  (\<open>syncInProgressFromPods\<close>, \<open>cleanupFinishedWorkers\<close>) and the phases D and E of \<open>reconcile\<close>
  (\<open>pkg/mirror/manager/manager.go\<close>). The pods the API server lists and the name it gives to a
  started pod are parameters.
\<close>

section \<open>Pods\<close>

record pod =
  pod_Name :: string
  pod_Phase :: string
  pod_Creation :: "int option"
  pod_Annotations :: annotations

record batch_item =
  it_Source :: string
  it_Dest :: string

definition workerPodStuckPending :: "pod \<Rightarrow> int \<Rightarrow> bool" where
  "workerPodStuckPending p now \<longleftrightarrow>
     (case pod_Creation p of
        None \<Rightarrow> False
      | Some created \<Rightarrow> pod_Phase p = ''Pending'' \<and> now - created > workerPendingTimeout)"

abbreviation finished_phase :: "string \<Rightarrow> bool" where
  "finished_phase ph \<equiv> ph = ''Succeeded'' \<or> ph = ''Failed''"

text \<open>\<open>decodeDests\<close> is \<open>json.Unmarshal\<close> into a list of strings.\<close>

definition recover_pod ::
  "(string \<Rightarrow> string list option) \<Rightarrow> pod \<Rightarrow> string list \<times> mirror_manager \<Rightarrow> string list \<times> mirror_manager" where
  "recover_pod decodeDests p dm = (case dm of (deleted, m) \<Rightarrow>
     if finished_phase (pod_Phase p) then (deleted @ [pod_Name p], m)
     else
       (let destsJSON = mget_str (pod_Annotations p) ''mirror.openshift.io/destinations'';
            dest = mget_str (pod_Annotations p) ''mirror.openshift.io/destination''
        in case (if destsJSON \<noteq> [] then decodeDests destsJSON else None) of
             Some dests \<Rightarrow> (deleted, m\<lparr>mm_inProgress := fold (\<lambda>d ip. mput d (pod_Name p) ip) dests (mm_inProgress m)\<rparr>)
           | None \<Rightarrow>
               if dest \<noteq> [] then (deleted, m\<lparr>mm_inProgress := mput dest (pod_Name p) (mm_inProgress m)\<rparr>)
               else (deleted, m)))"

definition syncInProgressFromPods ::
  "(string \<Rightarrow> string list option) \<Rightarrow> string + pod list \<Rightarrow> mirror_manager \<Rightarrow> string + string list \<times> mirror_manager" where
  "syncInProgressFromPods decodeDests listed m =
     (case listed of
        Inl err \<Rightarrow> Inl err
      | Inr pods \<Rightarrow> Inr (fold (recover_pod decodeDests) pods ([], m)))"

section \<open>Finished workers\<close>

text \<open>A tracked destination whose pod is done: its name and phase, the empty phase for a missing pod.\<close>

definition classify_tracked :: "pod list \<Rightarrow> int \<Rightarrow> string \<times> string \<Rightarrow> (string \<times> string \<times> string) option" where
  "classify_tracked pods now dp = (case dp of (dest, podName) \<Rightarrow>
     (case find (\<lambda>p. pod_Name p = podName) (rev pods) of
        None \<Rightarrow> Some (dest, podName, [])
      | Some p \<Rightarrow>
          if workerPodStuckPending p now then Some (dest, podName, ''Failed'')
          else if \<not> finished_phase (pod_Phase p) then None
          else Some (dest, podName, pod_Phase p)))"

definition release_tracked :: "env \<Rightarrow> string \<times> string \<times> string \<Rightarrow> mirror_manager \<Rightarrow> mirror_manager" where
  "release_tracked ev f m = (case f of (dest, podName, phase) \<Rightarrow>
     if mget (mm_inProgress m) dest = Some podName then
       (let m1 = m\<lparr>mm_inProgress := mdel dest (mm_inProgress m)\<rparr>
        in if phase = ''Failed'' then setImageStateLocked ev dest statePending [] m1 else m1)
     else m)"

text \<open>
  The pods are listed without the mutex: \<open>between\<close> is what the other threads do between the snapshot
  of the tracked pods and the update. The result is the names of the deleted pods and the manager.
\<close>

definition cleanupFinishedWorkers ::
  "env \<Rightarrow> (mirror_manager \<Rightarrow> mirror_manager) \<Rightarrow> string + pod list \<Rightarrow> mirror_manager \<Rightarrow> string list \<times> mirror_manager" where
  "cleanupFinishedWorkers ev between listed m =
     (case listed of
        Inl _ \<Rightarrow> ([], between m)
      | Inr pods \<Rightarrow>
          (let finished = List.map_filter (classify_tracked pods (ev_now ev)) (mm_inProgress m);
               m1 = between m;
               m2 = (if length finished > 0 then fold (release_tracked ev) finished (drainStatusQueueLocked ev m1) else m1);
               tracked = remdups (map (\<lambda>(_, podName, _). podName) (filter (\<lambda>(_, _, phase). phase \<noteq> []) finished));
               orphaned = filter (\<lambda>n. n \<notin> set tracked) (map pod_Name (filter (\<lambda>p. finished_phase (pod_Phase p)) pods))
           in (tracked @ orphaned, m2)))"

section \<open>Phase D\<close>

record tick =
  tk_pending :: "batch_item list"
  tk_bundles :: "batch_item list"
  tk_orphans :: image_state
  tk_manager :: mirror_manager

definition process_entry :: "env \<Rightarrow> string \<times> image_entry \<Rightarrow> tick \<Rightarrow> tick" where
  "process_entry ev de t = (case de of (dest, entry) \<Rightarrow>
     let m = tk_manager t
     in if length (mget_list (mm_owners m) dest) = 0 then
          t\<lparr>tk_orphans := mput dest entry (tk_orphans t),
            tk_manager := m\<lparr>mm_imageState := mdel dest (mm_imageState m), mm_owners := mdel dest (mm_owners m),
              mm_ownerMeta := mdel dest (mm_ownerMeta m), mm_stateDirty := True\<rparr>\<rparr>
        else if State entry = stateMirrored then
          t\<lparr>tk_manager := m\<lparr>mm_mirrored := mput dest True (mm_mirrored m)\<rparr>\<rparr>
        else if mget_bool (mm_mirrored m) dest then
          t\<lparr>tk_manager := (put_entry dest (entry\<lparr>State := stateMirrored\<rparr>) m)\<lparr>mm_stateDirty := True\<rparr>\<rparr>
        else if State entry = stateFailed then
          (if RetryCount entry < effectiveMaxRetries m then
             (case NextRetryAt entry of
                Some next \<Rightarrow>
                  if ev_now ev < next then t
                  else t\<lparr>tk_manager := (put_entry dest (entry\<lparr>State := statePending, NextRetryAt := None\<rparr>) m)\<lparr>mm_stateDirty := True\<rparr>\<rparr>
              | None \<Rightarrow>
                  t\<lparr>tk_manager := (put_entry dest (entry\<lparr>State := statePending, NextRetryAt := None\<rparr>) m)\<lparr>mm_stateDirty := True\<rparr>\<rparr>)
           else if \<not> PermanentlyFailed entry then
             t\<lparr>tk_manager := (put_entry dest (entry\<lparr>PermanentlyFailed := True\<rparr>) m)\<lparr>mm_stateDirty := True\<rparr>\<rparr>
           else t)
        else if State entry \<noteq> statePending then t
        else if mget_str (mm_inProgress m) dest \<noteq> [] then t
        else if IsBundleImage entry then t\<lparr>tk_bundles := tk_bundles t @ [\<lparr>it_Source = Source entry, it_Dest = dest\<rparr>]\<rparr>
        else t\<lparr>tk_pending := tk_pending t @ [\<lparr>it_Source = Source entry, it_Dest = dest\<rparr>]\<rparr>)"

definition process_entries :: "env \<Rightarrow> mirror_manager \<Rightarrow> tick" where
  "process_entries ev m =
     fold (process_entry ev) (mm_imageState m) \<lparr>tk_pending = [], tk_bundles = [], tk_orphans = [], tk_manager = m\<rparr>"

text \<open>Bundle images are dispatched first.\<close>

definition pending_images :: "tick \<Rightarrow> batch_item list" where
  "pending_images t = (if length (tk_bundles t) > 0 then tk_bundles t @ tk_pending t else tk_pending t)"

section \<open>Phase E\<close>

text \<open>
  \<open>start\<close> is \<open>startWorkerBatch\<close>: an error, or the name of the pod that was created. The result also lists
  the batches that were started with their pods.
\<close>

function dispatch ::
  "(batch_item list \<Rightarrow> string + string) \<Rightarrow> nat \<Rightarrow> nat \<Rightarrow> string list \<Rightarrow> batch_item list \<Rightarrow> mirror_manager
    \<Rightarrow> (string \<times> batch_item list) list \<times> mirror_manager" where
  "dispatch start batchSize concurrency activePods pending m =
     (if pending = [] \<or> batchSize = 0 \<or> \<not> length activePods < concurrency then ([], m)
      else
        (let batch = take batchSize pending
         in case start batch of
              Inl _ \<Rightarrow> dispatch start batchSize concurrency activePods (drop batchSize pending) m
            | Inr podName \<Rightarrow>
                (case dispatch start batchSize concurrency (List.insert podName activePods) (drop batchSize pending)
                        (m\<lparr>mm_inProgress := fold (\<lambda>item ip. mput (it_Dest item) podName ip) batch (mm_inProgress m)\<rparr>) of
                   (started, m') \<Rightarrow> ((podName, batch) # started, m'))))"
  by pat_completeness auto
termination
  by (relation "measure (\<lambda>(start, batchSize, concurrency, activePods, pending, m). length pending)") auto

declare dispatch.simps [simp del]

definition effective_concurrency :: "mirror_target \<Rightarrow> nat" where
  "effective_concurrency mt = (if mt_Concurrency mt \<le> 0 then 1 else nat (mt_Concurrency mt))"

definition effective_batch_size :: "mirror_target \<Rightarrow> nat" where
  "effective_batch_size mt = (if mt_BatchSize mt \<le> 0 then 50 else nat (mt_BatchSize mt))"

definition dispatch_batches ::
  "(batch_item list \<Rightarrow> string + string) \<Rightarrow> mirror_target \<Rightarrow> tick \<Rightarrow> (string \<times> batch_item list) list \<times> mirror_manager" where
  "dispatch_batches start mt t =
     dispatch start (effective_batch_size mt) (effective_concurrency mt)
       (remdups (map snd (mm_inProgress (tk_manager t)))) (pending_images t) (tk_manager t)"

section \<open>Facts about phase D\<close>

definition tick_obs :: "tick \<Rightarrow> string \<Rightarrow>
    (image_entry option \<times> bool \<times> string list \<times> string \<times> int) \<times> (image_entry option \<times> batch_item list \<times> batch_item list)" where
  "tick_obs t d =
     ((mget (mm_imageState (tk_manager t)) d, mget_bool (mm_mirrored (tk_manager t)) d, mget_list (mm_owners (tk_manager t)) d,
       mget_str (mm_inProgress (tk_manager t)) d, mm_maxRetries (tk_manager t)),
      (mget (tk_orphans t) d, filter (\<lambda>i. it_Dest i = d) (tk_pending t), filter (\<lambda>i. it_Dest i = d) (tk_bundles t)))"

lemma process_entry_other:
  assumes "d' \<noteq> d"
  shows "tick_obs (process_entry ev (d, e) t) d' = tick_obs t d'"
proof (cases "mget_list (mm_owners (tk_manager t)) d = [] \<or> State e = stateMirrored \<or> mget_bool (mm_mirrored (tk_manager t)) d")
  case True
  then show ?thesis using assms
    by (cases "mget_list (mm_owners (tk_manager t)) d = []"; cases "State e = stateMirrored")
      (simp_all add: tick_obs_def process_entry_def Let_def)
next
  case False
  then show ?thesis using assms
    by (cases "State e = stateFailed"; cases "NextRetryAt e") (simp_all add: tick_obs_def process_entry_def Let_def)
qed

text \<open>The effect of one turn of the loop on its own destination.\<close>

definition turn :: "env \<Rightarrow> int \<Rightarrow> string \<Rightarrow> image_entry \<Rightarrow>
    (image_entry option \<times> bool \<times> string list \<times> string \<times> int) \<times> (image_entry option \<times> batch_item list \<times> batch_item list) \<Rightarrow>
    (image_entry option \<times> bool \<times> string list \<times> string \<times> int) \<times> (image_entry option \<times> batch_item list \<times> batch_item list)" where
  "turn ev budget d e ob =
     (case ob of ((cur, flag, ows, pd, mr), (orph, ps, bs)) \<Rightarrow>
        if ows = [] then ((None, flag, [], pd, mr), (Some e, ps, bs))
        else if State e = stateMirrored then ((cur, True, ows, pd, mr), (orph, ps, bs))
        else if flag then ((Some (e\<lparr>State := stateMirrored\<rparr>), flag, ows, pd, mr), (orph, ps, bs))
        else if State e = stateFailed then
          (if RetryCount e < budget then
             (if \<exists>next. NextRetryAt e = Some next \<and> ev_now ev < next then ob
              else ((Some (e\<lparr>State := statePending, NextRetryAt := None\<rparr>), flag, ows, pd, mr), (orph, ps, bs)))
           else if \<not> PermanentlyFailed e then ((Some (e\<lparr>PermanentlyFailed := True\<rparr>), flag, ows, pd, mr), (orph, ps, bs))
           else ob)
        else if State e \<noteq> statePending \<or> pd \<noteq> [] then ob
        else if IsBundleImage e then ((cur, flag, ows, pd, mr), (orph, ps, bs @ [\<lparr>it_Source = Source e, it_Dest = d\<rparr>]))
        else ((cur, flag, ows, pd, mr), (orph, ps @ [\<lparr>it_Source = Source e, it_Dest = d\<rparr>], bs)))"

lemma process_entry_own: "tick_obs (process_entry ev (d, e) t) d = turn ev (effectiveMaxRetries (tk_manager t)) d e (tick_obs t d)"
proof (cases "mget_list (mm_owners (tk_manager t)) d = [] \<or> State e = stateMirrored \<or> mget_bool (mm_mirrored (tk_manager t)) d")
  case True
  then show ?thesis
    by (cases "mget_list (mm_owners (tk_manager t)) d = []"; cases "State e = stateMirrored")
      (simp_all add: tick_obs_def process_entry_def turn_def Let_def)
next
  case False
  then show ?thesis
    by (cases "State e = stateFailed"; cases "NextRetryAt e")
      (simp_all add: tick_obs_def process_entry_def turn_def Let_def)
qed

lemma effectiveMaxRetries_eq: "mm_maxRetries m = mm_maxRetries m' \<Longrightarrow> effectiveMaxRetries m = effectiveMaxRetries m'"
  by (simp add: effectiveMaxRetries_def)

interpretation phase_D: range_loop "process_entry ev" tick_obs for ev
proof unfold_locales
  show "tick_obs (process_entry ev (k, v) s) k' = tick_obs s k'" if "k' \<noteq> k" for k' k v s
    using that by (rule process_entry_other)
  show "tick_obs (process_entry ev (k, v) s) k = tick_obs (process_entry ev (k, v) s') k" if "tick_obs s k = tick_obs s' k" for s s' k v
  proof -
    have "mm_maxRetries (tk_manager s) = mm_maxRetries (tk_manager s')" using that by (simp add: tick_obs_def)
    then have budget: "effectiveMaxRetries (tk_manager s) = effectiveMaxRetries (tk_manager s')" by (rule effectiveMaxRetries_eq)
    show ?thesis by (simp only: process_entry_own that budget)
  qed
qed

lemma process_entries_obs:
  assumes "wf_map (mm_imageState m)"
  shows "tick_obs (process_entries ev m) d =
    (let ob = ((mget (mm_imageState m) d, mget_bool (mm_mirrored m) d, mget_list (mm_owners m) d, mget_str (mm_inProgress m) d,
               mm_maxRetries m), (None, [], []))
     in case mget (mm_imageState m) d of None \<Rightarrow> ob | Some e \<Rightarrow> turn ev (effectiveMaxRetries m) d e ob)"
  using phase_D.loop_obs [OF assms, of ev "\<lparr>tk_pending = [], tk_bundles = [], tk_orphans = [], tk_manager = m\<rparr>" d]
  by (simp add: process_entries_def process_entry_own Let_def split: option.splits) (simp_all add: tick_obs_def)

lemma process_entries_state:
  assumes "wf_map (mm_imageState m)"
  shows "mget (mm_imageState (tk_manager (process_entries ev m))) d =
    (case mget (mm_imageState m) d of None \<Rightarrow> None
     | Some e \<Rightarrow> fst (fst (turn ev (effectiveMaxRetries m) d e
         ((Some e, mget_bool (mm_mirrored m) d, mget_list (mm_owners m) d, mget_str (mm_inProgress m) d, mm_maxRetries m),
          (None, [], [])))))"
proof -
  have "mget (mm_imageState (tk_manager (process_entries ev m))) d = fst (fst (tick_obs (process_entries ev m) d))"
    by (simp add: tick_obs_def)
  then show ?thesis by (simp add: process_entries_obs [OF assms] Let_def split: option.split)
qed

lemma set_permanently_failed: "PermanentlyFailed e \<Longrightarrow> e\<lparr>PermanentlyFailed := True\<rparr> = e"
  by (cases e) simp

lemma process_entry_frame:
  "mm_inProgress (tk_manager (process_entry ev de t)) = mm_inProgress (tk_manager t)"
  "mm_statusQueue (tk_manager (process_entry ev de t)) = mm_statusQueue (tk_manager t)"
  by (simp_all add: process_entry_def Let_def split: prod.split option.split)

lemma process_entries_frame [simp]: "mm_inProgress (tk_manager (process_entries ev m)) = mm_inProgress m"
proof -
  have "mm_inProgress (tk_manager (fold (process_entry ev) xs t)) = mm_inProgress (tk_manager t)" for xs t
    by (induction xs arbitrary: t) (simp_all add: process_entry_frame)
  then show ?thesis by (simp add: process_entries_def)
qed

lemma wf_process_entries:
  assumes "wf_map (mm_imageState m)"
  shows "wf_map (mm_imageState (tk_manager (process_entries ev m)))"
proof -
  have step: "wf_map (mm_imageState (tk_manager (process_entry ev de t)))" if "wf_map (mm_imageState (tk_manager t))" for de t
    using that by (simp add: process_entry_def Let_def split: prod.split option.split)
  have "wf_map (mm_imageState (tk_manager (fold (process_entry ev) xs t)))" if "wf_map (mm_imageState (tk_manager t))" for xs t
    using that by (induction xs arbitrary: t) (simp_all add: step)
  then show ?thesis using assms by (simp add: process_entries_def)
qed

definition ready :: "mirror_manager \<Rightarrow> string \<Rightarrow> image_entry \<Rightarrow> bool" where
  "ready m d e \<longleftrightarrow> mget (mm_imageState m) d = Some e \<and> mget_list (mm_owners m) d \<noteq> [] \<and> State e = statePending \<and>
     \<not> mget_bool (mm_mirrored m) d \<and> mget_str (mm_inProgress m) d = []"

lemma filter_dest_pending:
  assumes "wf_map (mm_imageState m)"
  shows "filter (\<lambda>i. it_Dest i = d) (tk_pending (process_entries ev m)) =
      (case mget (mm_imageState m) d of None \<Rightarrow> []
       | Some e \<Rightarrow> if ready m d e \<and> \<not> IsBundleImage e then [\<lparr>it_Source = Source e, it_Dest = d\<rparr>] else [])"
    and "filter (\<lambda>i. it_Dest i = d) (tk_bundles (process_entries ev m)) =
      (case mget (mm_imageState m) d of None \<Rightarrow> []
       | Some e \<Rightarrow> if ready m d e \<and> IsBundleImage e then [\<lparr>it_Source = Source e, it_Dest = d\<rparr>] else [])"
    and "mget (tk_orphans (process_entries ev m)) d =
      (if mget_list (mm_owners m) d = [] then mget (mm_imageState m) d else None)"
proof -
  let ?t = "process_entries ev m"
  let ?ob = "((mget (mm_imageState m) d, mget_bool (mm_mirrored m) d, mget_list (mm_owners m) d, mget_str (mm_inProgress m) d,
      mm_maxRetries m), (None :: image_entry option, [] :: batch_item list, [] :: batch_item list))"
  have ob: "snd (tick_obs ?t d) = snd (case mget (mm_imageState m) d of None \<Rightarrow> ?ob | Some e \<Rightarrow> turn ev (effectiveMaxRetries m) d e ?ob)"
    by (simp only: process_entries_obs [OF assms] Let_def)
  have st: "fst (snd (tick_obs ?t d)) = mget (tk_orphans ?t) d"
    "fst (snd (snd (tick_obs ?t d))) = filter (\<lambda>i. it_Dest i = d) (tk_pending ?t)"
    "snd (snd (snd (tick_obs ?t d))) = filter (\<lambda>i. it_Dest i = d) (tk_bundles ?t)"
    by (simp_all add: tick_obs_def)
  show "filter (\<lambda>i. it_Dest i = d) (tk_pending ?t) =
      (case mget (mm_imageState m) d of None \<Rightarrow> []
       | Some e \<Rightarrow> if ready m d e \<and> \<not> IsBundleImage e then [\<lparr>it_Source = Source e, it_Dest = d\<rparr>] else [])"
    unfolding st(2) [symmetric] ob by (simp add: turn_def ready_def split: option.split)
  show "filter (\<lambda>i. it_Dest i = d) (tk_bundles ?t) =
      (case mget (mm_imageState m) d of None \<Rightarrow> []
       | Some e \<Rightarrow> if ready m d e \<and> IsBundleImage e then [\<lparr>it_Source = Source e, it_Dest = d\<rparr>] else [])"
    unfolding st(3) [symmetric] ob by (simp add: turn_def ready_def split: option.split)
  show "mget (tk_orphans ?t) d = (if mget_list (mm_owners m) d = [] then mget (mm_imageState m) d else None)"
    unfolding st(1) [symmetric] ob by (simp add: turn_def split: option.split)
qed

lemma in_filter_dest: "i \<in> set xs \<longleftrightarrow> i \<in> set (filter (\<lambda>j. it_Dest j = it_Dest i) xs)"
  by simp

lemma distinct_dests:
  assumes "\<And>d. length (filter (\<lambda>i. it_Dest i = d) xs) \<le> 1"
  shows "distinct (map it_Dest xs)"
  using assms
proof (induction xs)
  case Nil
  then show ?case by simp
next
  case (Cons x xs)
  have "filter (\<lambda>i. it_Dest i = it_Dest x) xs = []" using Cons.prems [of "it_Dest x"] by simp
  moreover have "length (filter (\<lambda>i. it_Dest i = d) xs) \<le> 1" for d
    using Cons.prems [of d] by (simp split: if_splits)
  ultimately show ?case using Cons.IH by (auto simp: filter_empty_conv)
qed

lemma pending_images_eq: "pending_images t = tk_bundles t @ tk_pending t"
  by (simp add: pending_images_def)

lemma filter_pending_images:
  assumes "wf_map (mm_imageState m)"
  shows "filter (\<lambda>i. it_Dest i = d) (pending_images (process_entries ev m)) =
    (case mget (mm_imageState m) d of None \<Rightarrow> [] | Some e \<Rightarrow> if ready m d e then [\<lparr>it_Source = Source e, it_Dest = d\<rparr>] else [])"
  by (simp add: pending_images_eq filter_dest_pending [OF assms] split: option.split)

lemma in_pending_images:
  assumes "wf_map (mm_imageState m)"
  shows "i \<in> set (pending_images (process_entries ev m)) \<longleftrightarrow> (\<exists>e. ready m (it_Dest i) e \<and> it_Source i = Source e)"
proof -
  have "i \<in> set (pending_images (process_entries ev m)) \<longleftrightarrow>
      i \<in> set (filter (\<lambda>j. it_Dest j = it_Dest i) (pending_images (process_entries ev m)))" by simp
  also have "\<dots> \<longleftrightarrow> (\<exists>e. ready m (it_Dest i) e \<and> i = \<lparr>it_Source = Source e, it_Dest = it_Dest i\<rparr>)"
    unfolding filter_pending_images [OF assms] by (auto simp: ready_def split: option.splits)
  also have "\<dots> \<longleftrightarrow> (\<exists>e. ready m (it_Dest i) e \<and> it_Source i = Source e)" by (cases i) auto
  finally show ?thesis .
qed

lemma distinct_pending_images:
  "wf_map (mm_imageState m) \<Longrightarrow> distinct (map it_Dest (pending_images (process_entries ev m)))"
  by (rule distinct_dests) (auto simp: filter_pending_images split: option.split)

section \<open>Facts about phase E\<close>

lemma fold_put_other: "d \<notin> it_Dest ` set batch \<Longrightarrow> mget (fold (\<lambda>item ip. mput (it_Dest item) p ip) batch ip) d = mget ip d"
  by (induction batch arbitrary: ip) auto

lemma fold_put_in: "d \<in> it_Dest ` set batch \<Longrightarrow> mget (fold (\<lambda>item ip. mput (it_Dest item) p ip) batch ip) d = Some p"
proof (induction batch arbitrary: ip)
  case (Cons x xs)
  then show ?case by (cases "d \<in> it_Dest ` set xs") (auto simp: fold_put_other)
qed simp

text \<open>The runs of the dispatch loop as a relation, for rule induction.\<close>

inductive dispatched ::
  "(batch_item list \<Rightarrow> string + string) \<Rightarrow> nat \<Rightarrow> nat \<Rightarrow> string list \<Rightarrow> batch_item list \<Rightarrow> mirror_manager
    \<Rightarrow> (string \<times> batch_item list) list \<Rightarrow> mirror_manager \<Rightarrow> bool"
  for start batchSize concurrency where
  stop: "dispatched start batchSize concurrency active pending m [] m"
| fail: "dispatched start batchSize concurrency active (drop batchSize pending) m started m' \<Longrightarrow>
    dispatched start batchSize concurrency active pending m started m'"
| go: "pending \<noteq> [] \<Longrightarrow> 0 < batchSize \<Longrightarrow> length active < concurrency \<Longrightarrow> start (take batchSize pending) = Inr podName \<Longrightarrow>
    dispatched start batchSize concurrency (List.insert podName active) (drop batchSize pending)
      (m\<lparr>mm_inProgress := fold (\<lambda>item ip. mput (it_Dest item) podName ip) (take batchSize pending) (mm_inProgress m)\<rparr>) started m' \<Longrightarrow>
    dispatched start batchSize concurrency active pending m ((podName, take batchSize pending) # started) m'"

lemma dispatch_dispatched:
  "dispatched start batchSize concurrency active pending m
     (fst (dispatch start batchSize concurrency active pending m)) (snd (dispatch start batchSize concurrency active pending m))"
proof (induction start batchSize concurrency active pending m rule: dispatch.induct)
  case (1 start bs conc active pending m)
  show ?case
  proof (cases "pending = [] \<or> bs = 0 \<or> \<not> length active < conc")
    case True
    then have "dispatch start bs conc active pending m = ([], m)" by (subst dispatch.simps) (simp only: if_True)
    then show ?thesis by (simp only: fst_conv snd_conv dispatched.stop)
  next
    case go: False
    show ?thesis
    proof (cases "start (take bs pending)")
      case (Inl err)
      have "dispatch start bs conc active pending m = dispatch start bs conc active (drop bs pending) m"
        by (subst dispatch.simps) (simp only: go if_False Let_def Inl sum.case)
      then show ?thesis using "1.IH"(1) [OF go refl Inl] by (simp only: dispatched.fail)
    next
      case (Inr podName)
      let ?m1 = "m\<lparr>mm_inProgress := fold (\<lambda>item ip. mput (it_Dest item) podName ip) (take bs pending) (mm_inProgress m)\<rparr>"
      let ?r = "dispatch start bs conc (List.insert podName active) (drop bs pending) ?m1"
      have "dispatch start bs conc active pending m = ((podName, take bs pending) # fst ?r, snd ?r)"
        by (subst dispatch.simps) (simp only: go if_False Let_def Inr sum.case case_prod_beta)
      moreover have "dispatched start bs conc active pending m ((podName, take bs pending) # fst ?r) (snd ?r)"
        using go by (intro dispatched.go [where pending = pending] Inr "1.IH"(2) [OF go refl Inr]) auto
      ultimately show ?thesis by (simp only: fst_conv snd_conv)
    qed
  qed
qed

lemma dispatched_batches:
  assumes "dispatched start bs conc active pending m started m'" and "(podName, batch) \<in> set started"
  shows "batch \<noteq> [] \<and> length batch \<le> bs \<and> set batch \<subseteq> set pending \<and> start batch = Inr podName"
  using assms
proof (induction rule: dispatched.induct)
  case (fail active pending m started m')
  then show ?case using set_drop_subset [of bs pending] by blast
next
  case (go pending active pod m started m')
  show ?case
  proof (cases "(podName, batch) \<in> set started")
    case True
    then show ?thesis using go.IH set_drop_subset [of bs pending] by blast
  next
    case False
    then have "podName = pod" "batch = take bs pending" using go.prems by auto
    then show ?thesis using go.hyps set_take_subset [of bs pending] by auto
  qed
qed simp

lemma dispatched_distinct:
  assumes "dispatched start bs conc active pending m started m'" and "distinct (map it_Dest pending)"
  shows "distinct (map it_Dest (concat (map snd started))) \<and> set (concat (map snd started)) \<subseteq> set pending"
  using assms
proof (induction rule: dispatched.induct)
  case (fail active pending m started m')
  have "distinct (map it_Dest (drop bs pending))" using fail.prems by (simp add: drop_map [symmetric])
  then show ?case using fail.IH set_drop_subset [of bs pending] by blast
next
  case (go pending active pod m started m')
  have parts: "map it_Dest pending = map it_Dest (take bs pending) @ map it_Dest (drop bs pending)"
    by (simp add: map_append [symmetric] del: map_append)
  have drop: "distinct (map it_Dest (drop bs pending))" and take: "distinct (map it_Dest (take bs pending))"
    and disj: "it_Dest ` set (take bs pending) \<inter> it_Dest ` set (drop bs pending) = {}"
    using go.prems unfolding parts by simp_all
  have sub: "set (concat (map snd started)) \<subseteq> set (drop bs pending)" using go.IH [OF drop] by simp
  then have "it_Dest ` set (take bs pending) \<inter> it_Dest ` set (concat (map snd started)) = {}" using disj by blast
  then show ?case using go.IH [OF drop] take sub set_drop_subset [of bs pending] set_take_subset [of bs pending]
    by (auto simp del: set_concat)
qed simp

lemma dispatched_active:
  "dispatched start bs conc active pending m started m' \<Longrightarrow>
   length (fold List.insert (map fst started) active) \<le> max conc (length active)"
proof (induction rule: dispatched.induct)
  case (go pending active pod m started m')
  then show ?case by (simp add: List.insert_def split: if_splits)
qed simp_all

lemma dispatched_frame:
  "dispatched start bs conc active pending m started m' \<Longrightarrow> \<exists>ip. m' = m\<lparr>mm_inProgress := ip\<rparr>"
proof (induction rule: dispatched.induct)
  case (stop active pending m)
  have "m = m\<lparr>mm_inProgress := mm_inProgress m\<rparr>" by simp
  then show ?case by (rule exI)
qed auto

lemma dispatched_untouched:
  assumes "dispatched start bs conc active pending m started m'" and "d \<notin> it_Dest ` set (concat (map snd started))"
  shows "mget (mm_inProgress m') d = mget (mm_inProgress m) d"
  using assms
proof (induction rule: dispatched.induct)
  case (go pending active pod m started m')
  have "d \<notin> it_Dest ` set (take bs pending)" and "d \<notin> it_Dest ` set (concat (map snd started))"
    using go.prems by auto
  then show ?case using go.IH by (simp add: fold_put_other)
qed simp_all

lemma dispatched_tracked:
  assumes "dispatched start bs conc active pending m started m'" and "distinct (map it_Dest pending)"
    and "(podName, batch) \<in> set started" and "i \<in> set batch"
  shows "mget (mm_inProgress m') (it_Dest i) = Some podName"
  using assms
proof (induction rule: dispatched.induct)
  case (fail active pending m started m')
  have "distinct (map it_Dest (drop bs pending))" using fail.prems(1) by (simp add: drop_map [symmetric])
  then show ?case using fail by blast
next
  case (go pending active pod m started m')
  have parts: "map it_Dest pending = map it_Dest (take bs pending) @ map it_Dest (drop bs pending)"
    by (simp add: map_append [symmetric] del: map_append)
  have drop: "distinct (map it_Dest (drop bs pending))"
    and disj: "it_Dest ` set (take bs pending) \<inter> it_Dest ` set (drop bs pending) = {}"
    using go.prems(1) unfolding parts by simp_all
  show ?case
  proof (cases "(podName, batch) \<in> set started")
    case True
    then show ?thesis using go.IH [OF drop] go.prems(3) by blast
  next
    case False
    then have pb: "podName = pod" "batch = take bs pending" using go.prems(2) by auto
    have sub: "set (concat (map snd started)) \<subseteq> set (drop bs pending)"
      using dispatched_distinct [OF go.hyps(5) drop] by simp
    have "it_Dest i \<in> it_Dest ` set (take bs pending)" using go.prems(3) pb by simp
    then have "it_Dest i \<notin> it_Dest ` set (concat (map snd started))" using disj sub by blast
    then show ?thesis using dispatched_untouched [OF go.hyps(5)] fold_put_in [of "it_Dest i" "take bs pending" pod]
        go.prems(3) pb by simp
  qed
qed simp


lemma dispatch_progress_loop:
  assumes "\<forall>b. \<exists>p. start b = Inr p" and "0 < bs"
  shows "concat (map snd (fst (dispatch start bs conc active pending m))) =
      take (length (fst (dispatch start bs conc active pending m)) * bs) pending
    \<and> (concat (map snd (fst (dispatch start bs conc active pending m))) = pending
       \<or> conc \<le> length (fold List.insert (map fst (fst (dispatch start bs conc active pending m))) active))"
  using assms
proof (induction start bs conc active pending m rule: dispatch.induct)
  case (1 start bs conc active pending m)
  show ?case
  proof (cases "pending = [] \<or> bs = 0 \<or> \<not> length active < conc")
    case True
    then have "dispatch start bs conc active pending m = ([], m)" by (subst dispatch.simps) (simp only: if_True)
    then show ?thesis using True "1.prems"(2) by auto
  next
    case go: False
    obtain podName where Inr: "start (take bs pending) = Inr podName" using "1.prems"(1) by blast
    let ?m1 = "m\<lparr>mm_inProgress := fold (\<lambda>item ip. mput (it_Dest item) podName ip) (take bs pending) (mm_inProgress m)\<rparr>"
    let ?r = "dispatch start bs conc (List.insert podName active) (drop bs pending) ?m1"
    have "dispatch start bs conc active pending m = ((podName, take bs pending) # fst ?r, snd ?r)"
      by (subst dispatch.simps) (simp only: go if_False Let_def Inr sum.case case_prod_beta)
    then have r: "fst (dispatch start bs conc active pending m) = (podName, take bs pending) # fst ?r" by simp
    have ih: "concat (map snd (fst ?r)) = take (length (fst ?r) * bs) (drop bs pending) \<and>
        (concat (map snd (fst ?r)) = drop bs pending \<or>
         conc \<le> length (fold List.insert (map fst (fst ?r)) (List.insert podName active)))"
      using "1.IH"(2) [OF go refl Inr] "1.prems" by blast
    then have "take bs pending @ concat (map snd (fst ?r)) = take (Suc (length (fst ?r)) * bs) pending"
      by (simp only: mult_Suc take_add)
    moreover have "take bs pending @ concat (map snd (fst ?r)) = pending \<or>
        conc \<le> length (fold List.insert (map fst (fst ?r)) (List.insert podName active))"
      using ih by (metis append_take_drop_id)
    ultimately show ?thesis unfolding r by (simp only: list.map concat.simps list.size(4) snd_conv fst_conv fold.simps o_apply Suc_eq_plus1 add_0 simp_thms)
  qed
qed

text \<open>The started batches are consecutive pieces of the pending images.\<close>

lemma dispatch_pieces:
  assumes "\<forall>b. \<exists>p. start b = Inr p"
  shows "map snd (fst (dispatch start bs conc active pending m)) =
    map (\<lambda>i. take bs (drop (i * bs) pending)) [0..<length (fst (dispatch start bs conc active pending m))]"
  using assms
proof (induction start bs conc active pending m rule: dispatch.induct)
  case (1 start bs conc active pending m)
  show ?case
  proof (cases "pending = [] \<or> bs = 0 \<or> \<not> length active < conc")
    case True
    then have "dispatch start bs conc active pending m = ([], m)" by (subst dispatch.simps) (simp only: if_True)
    then show ?thesis by simp
  next
    case go: False
    obtain podName where Inr: "start (take bs pending) = Inr podName" using "1.prems" by blast
    let ?m1 = "m\<lparr>mm_inProgress := fold (\<lambda>item ip. mput (it_Dest item) podName ip) (take bs pending) (mm_inProgress m)\<rparr>"
    let ?r = "dispatch start bs conc (List.insert podName active) (drop bs pending) ?m1"
    have "dispatch start bs conc active pending m = ((podName, take bs pending) # fst ?r, snd ?r)"
      by (subst dispatch.simps) (simp only: go if_False Let_def Inr sum.case case_prod_beta)
    then have r: "fst (dispatch start bs conc active pending m) = (podName, take bs pending) # fst ?r" by simp
    have ih: "map snd (fst ?r) = map (\<lambda>i. take bs (drop (i * bs) (drop bs pending))) [0..<length (fst ?r)]"
      by (rule "1.IH"(2) [OF go refl Inr "1.prems"])
    have "take bs (drop (i * bs) (drop bs pending)) = take bs (drop (Suc i * bs) pending)" for i by (simp add: add.commute)
    then show ?thesis unfolding r using ih by (simp add: upt_conv_Cons map_Suc_upt [symmetric] del: upt_Suc)
  qed
qed

lemma collected_images:
  assumes "wf_map (mm_imageState m)"
  shows "set (tk_bundles (process_entries ev m)) = {\<lparr>it_Source = Source e, it_Dest = d\<rparr> |d e. ready m d e \<and> IsBundleImage e}"
    and "set (tk_pending (process_entries ev m)) = {\<lparr>it_Source = Source e, it_Dest = d\<rparr> |d e. ready m d e \<and> \<not> IsBundleImage e}"
proof -
  have by_dest: "set l = {i. i \<in> set (filter (\<lambda>j. it_Dest j = it_Dest i) l)}" for l by auto
  show "set (tk_bundles (process_entries ev m)) = {\<lparr>it_Source = Source e, it_Dest = d\<rparr> |d e. ready m d e \<and> IsBundleImage e}"
    by (subst by_dest) (auto simp: filter_dest_pending [OF assms] ready_def split: option.splits if_splits)
  show "set (tk_pending (process_entries ev m)) = {\<lparr>it_Source = Source e, it_Dest = d\<rparr> |d e. ready m d e \<and> \<not> IsBundleImage e}"
    by (subst by_dest) (auto simp: filter_dest_pending [OF assms] ready_def split: option.splits if_splits)
qed

lemma dispatch_tracks:
  assumes "wf_map (mm_imageState m)" and "dispatch_batches start mt (process_entries ev m) = (started, m')"
  shows "(p, b) \<in> set started \<Longrightarrow> start b = Inr p"
    and "(p, b) \<in> set started \<Longrightarrow> i \<in> set b \<Longrightarrow> mget (mm_inProgress m') (it_Dest i) = Some p"
    and "d \<notin> it_Dest ` set (concat (map snd started)) \<Longrightarrow> mget (mm_inProgress m') d = mget (mm_inProgress m) d"
    and "d \<in> it_Dest ` set (concat (map snd started)) \<Longrightarrow> \<exists>e. ready m d e"
proof -
  let ?t = "process_entries ev m"
  have d: "dispatched start (effective_batch_size mt) (effective_concurrency mt) (remdups (map snd (mm_inProgress m)))
      (pending_images ?t) (tk_manager ?t) started m'"
    using dispatch_dispatched [of start "effective_batch_size mt" "effective_concurrency mt"
        "remdups (map snd (mm_inProgress m))" "pending_images ?t" "tk_manager ?t"] assms(2)
    by (simp only: dispatch_batches_def process_entries_frame fst_conv snd_conv)
  note dist = distinct_pending_images [OF assms(1)]
  show "(p, b) \<in> set started \<Longrightarrow> start b = Inr p" using dispatched_batches [OF d] by blast
  show "(p, b) \<in> set started \<Longrightarrow> i \<in> set b \<Longrightarrow> mget (mm_inProgress m') (it_Dest i) = Some p" using dispatched_tracked [OF d dist] by blast
  show "d \<notin> it_Dest ` set (concat (map snd started)) \<Longrightarrow> mget (mm_inProgress m') d = mget (mm_inProgress m) d"
    using dispatched_untouched [OF d] by (simp only: process_entries_frame)
  assume "d \<in> it_Dest ` set (concat (map snd started))"
  then obtain p b i where b: "(p, b) \<in> set started" "i \<in> set b" "d = it_Dest i" by auto
  then show "\<exists>e. ready m d e" using dispatched_batches [OF d b(1)] in_pending_images [OF assms(1)] by blast
qed

section \<open>Properties\<close>

text \<open>
  Property C2. One dispatch of a reconcile tick is safe. Every started batch is a non-empty list of at most
  \<open>spec.batchSize\<close> (default 50) images; each of them is Pending in the state the tick started from, has an owning
  ImageSet, is not known to be mirrored and was not being processed by a worker, and is sent with the entry's own source;
  no destination is sent twice; afterwards each is tracked under its pod while every other destination is tracked as before;
  and the number of distinct active pods never exceeds \<open>spec.concurrency\<close> (default 1), unless it already did.
\<close>

theorem dispatch_safe:
  assumes "wf_map (mm_imageState m)" and "dispatch_batches start mt (process_entries ev m) = (started, m')"
  shows "(\<forall>(podName, batch) \<in> set started. batch \<noteq> [] \<and> length batch \<le> effective_batch_size mt \<and> start batch = Inr podName \<and>
      (\<forall>i \<in> set batch. (\<exists>e. ready m (it_Dest i) e \<and> it_Source i = Source e) \<and> mget (mm_inProgress m') (it_Dest i) = Some podName))
    \<and> distinct (map it_Dest (concat (map snd started)))
    \<and> (\<forall>d. d \<notin> it_Dest ` set (concat (map snd started)) \<longrightarrow> mget (mm_inProgress m') d = mget (mm_inProgress m) d)
    \<and> length (fold List.insert (map fst started) (remdups (map snd (mm_inProgress m))))
        \<le> max (effective_concurrency mt) (length (remdups (map snd (mm_inProgress m))))"
proof -
  let ?t = "process_entries ev m"
  have d: "dispatched start (effective_batch_size mt) (effective_concurrency mt) (remdups (map snd (mm_inProgress m)))
      (pending_images ?t) (tk_manager ?t) started m'"
    using dispatch_dispatched [of start "effective_batch_size mt" "effective_concurrency mt"
        "remdups (map snd (mm_inProgress m))" "pending_images ?t" "tk_manager ?t"] assms(2)
    by (simp only: dispatch_batches_def process_entries_frame fst_conv snd_conv)
  note dist = distinct_pending_images [OF assms(1)]
  have items: "(\<exists>e. ready m (it_Dest i) e \<and> it_Source i = Source e) \<and> mget (mm_inProgress m') (it_Dest i) = Some podName"
    if "(podName, batch) \<in> set started" "i \<in> set batch" for podName batch i
    using dispatched_batches [OF d that(1)] dispatched_tracked [OF d dist that] that(2) in_pending_images [OF assms(1)] by blast
  have batches: "batch \<noteq> [] \<and> length batch \<le> effective_batch_size mt \<and> start batch = Inr podName"
    if "(podName, batch) \<in> set started" for podName batch
    using dispatched_batches [OF d that] by blast
  have rest: "\<forall>d. d \<notin> it_Dest ` set (concat (map snd started)) \<longrightarrow> mget (mm_inProgress m') d = mget (mm_inProgress m) d"
    using dispatched_untouched [OF d] by (simp only: process_entries_frame) blast
  show ?thesis using items batches rest dispatched_distinct [OF d dist] dispatched_active [OF d] by blast
qed

definition tick_target :: mirror_target where
  "tick_target = \<lparr>mt_Name = ''mt'', mt_Registry = ''reg.local'', mt_ImageSets = [''a''], mt_Insecure = False, mt_AuthSecret = [],
     mt_Concurrency = 0, mt_BatchSize = 0, mt_PollInterval = None, mt_CheckExistInterval = None, mt_MaxRetries = 0\<rparr>"

definition tick_manager :: mirror_manager where
  "tick_manager = new_manager
     [(''r/x'', zero_entry\<lparr>Source := ''q/x'', State := statePending\<rparr>),
      (''r/b'', zero_entry\<lparr>Source := ''q/b'', State := statePending, IsBundleImage := True\<rparr>)]
     [(''r/x'', [''a'']), (''r/b'', [''a''])] []"

definition tick_env :: env where
  "tick_env = \<lparr>ev_now = 0, ev_rand = (\<lambda>_. 0)\<rparr>"

lemma sample_pending: "pending_images (process_entries tick_env tick_manager) =
    [\<lparr>it_Source = ''q/b'', it_Dest = ''r/b''\<rparr>, \<lparr>it_Source = ''q/x'', it_Dest = ''r/x''\<rparr>]"
  by code_simp

lemma sample_dispatch: "dispatch_batches (\<lambda>_. Inr ''p1'') tick_target (process_entries tick_env tick_manager) =
    ([(''p1'', [\<lparr>it_Source = ''q/b'', it_Dest = ''r/b''\<rparr>, \<lparr>it_Source = ''q/x'', it_Dest = ''r/x''\<rparr>])],
     tick_manager\<lparr>mm_inProgress := [(''r/b'', ''p1''), (''r/x'', ''p1'')]\<rparr>)"
  by code_simp

theorem dispatch_safe_witness:
  "\<exists>e. ready tick_manager ''r/b'' e \<and> Source e = ''q/b''"
  using dispatch_safe [OF _ sample_dispatch] by (simp add: tick_manager_def new_manager_def) metis


text \<open>
  Property C10. Dispatch makes progress. As long as worker pods can be created, a tick sends the images that are ready (Pending, owned, not mirrored and not in progress) in one order:
  all that come from operator bundles before all others, each of them once and with the source of its entry. The batches it starts are consecutive pieces of that
  order, each but the last filled to the configured size, and it stops only when every ready image has been sent or the concurrency limit is reached.
\<close>

theorem dispatch_progress:
  assumes "wf_map (mm_imageState m)" and "\<forall>b. \<exists>p. start b = Inr p"
    and "dispatch_batches start mt (process_entries ev m) = (started, m')"
  shows "\<exists>bundles others.
     set bundles = {\<lparr>it_Source = Source e, it_Dest = d\<rparr> |d e. ready m d e \<and> IsBundleImage e} \<and>
     set others = {\<lparr>it_Source = Source e, it_Dest = d\<rparr> |d e. ready m d e \<and> \<not> IsBundleImage e} \<and>
     distinct (map it_Dest (bundles @ others)) \<and>
     map snd started = map (\<lambda>i. take (effective_batch_size mt) (drop (i * effective_batch_size mt) (bundles @ others))) [0..<length started] \<and>
     (concat (map snd started) = bundles @ others \<or>
      effective_concurrency mt \<le> length (fold List.insert (map fst started) (remdups (map snd (mm_inProgress m)))))"
proof -
  let ?t = "process_entries ev m" and ?bs = "effective_batch_size mt"
  have bs: "0 < ?bs" by (simp add: effective_batch_size_def)
  have run: "dispatch start ?bs (effective_concurrency mt) (remdups (map snd (mm_inProgress m))) (pending_images ?t) (tk_manager ?t) = (started, m')"
    using assms(3) by (simp add: dispatch_batches_def)
  have "set (tk_bundles ?t) = {\<lparr>it_Source = Source e, it_Dest = d\<rparr> |d e. ready m d e \<and> IsBundleImage e}"
    "set (tk_pending ?t) = {\<lparr>it_Source = Source e, it_Dest = d\<rparr> |d e. ready m d e \<and> \<not> IsBundleImage e}"
    by (rule collected_images [OF assms(1)])+
  moreover have "distinct (map it_Dest (tk_bundles ?t @ tk_pending ?t))" using distinct_pending_images [OF assms(1)] by (simp add: pending_images_eq)
  moreover have "map snd started = map (\<lambda>i. take ?bs (drop (i * ?bs) (tk_bundles ?t @ tk_pending ?t))) [0..<length started]"
    using dispatch_pieces [of start ?bs "effective_concurrency mt" "remdups (map snd (mm_inProgress m))" "pending_images ?t" "tk_manager ?t", OF assms(2)] run
    by (simp add: pending_images_eq)
  moreover have "concat (map snd started) = tk_bundles ?t @ tk_pending ?t \<or>
      effective_concurrency mt \<le> length (fold List.insert (map fst started) (remdups (map snd (mm_inProgress m))))"
    using dispatch_progress_loop [OF assms(2) bs, of "effective_concurrency mt" "remdups (map snd (mm_inProgress m))" "pending_images ?t" "tk_manager ?t"] run
    unfolding pending_images_eq by (metis fst_conv)
  ultimately show ?thesis by blast
qed

theorem dispatch_progress_witness:
  "\<lparr>it_Source = ''q/b'', it_Dest = ''r/b''\<rparr> \<in> set (concat (map snd (fst (dispatch_batches (\<lambda>_. Inr ''p1'') tick_target (process_entries tick_env tick_manager)))))"
proof -
  have wf: "wf_map (mm_imageState tick_manager)" by (simp add: tick_manager_def new_manager_def)
  have st: "\<forall>b. \<exists>p. (\<lambda>_. Inr ''p1'' :: string + string) b = Inr p" by simp
  from dispatch_progress [OF wf st sample_dispatch] obtain bundles others where
    "set bundles = {\<lparr>it_Source = Source e, it_Dest = d\<rparr> |d e. ready tick_manager d e \<and> IsBundleImage e}"
    "map snd [(''p1'', [\<lparr>it_Source = ''q/b'', it_Dest = ''r/b''\<rparr>, \<lparr>it_Source = ''q/x'', it_Dest = ''r/x''\<rparr>])] =
       map (\<lambda>i. take (effective_batch_size tick_target) (drop (i * effective_batch_size tick_target) (bundles @ others))) [0..<length [(''p1'', [\<lparr>it_Source = ''q/b'', it_Dest = ''r/b''\<rparr>, \<lparr>it_Source = ''q/x'', it_Dest = ''r/x''\<rparr>])]]"
    by blast
  moreover have "ready tick_manager ''r/b'' (zero_entry\<lparr>Source := ''q/b'', State := statePending, IsBundleImage := True\<rparr>)"
    by (simp add: ready_def tick_manager_def new_manager_def)
  ultimately have "\<lparr>it_Source = ''q/b'', it_Dest = ''r/b''\<rparr> \<in> set bundles" by force
  then show ?thesis by (simp add: sample_dispatch)
qed

text \<open>
  The retry policy of a failed image. While retries are left and its backoff has not passed, the entry is left as it is;
  when the backoff has passed it becomes Pending with the backoff cleared; with the retry budget used up it stays Failed and is marked
  permanently failed. In none of these cases is it sent to a worker in the same tick.
\<close>

theorem failed_retry_policy:
  assumes "wf_map (mm_imageState m)" and "mget (mm_imageState m) d = Some e" and "State e = stateFailed"
    and "mget_list (mm_owners m) d \<noteq> []" and "\<not> mget_bool (mm_mirrored m) d"
  shows "mget (mm_imageState (tk_manager (process_entries ev m))) d =
      Some (if RetryCount e < effectiveMaxRetries m then
              (if \<exists>t. NextRetryAt e = Some t \<and> ev_now ev < t then e else e\<lparr>State := statePending, NextRetryAt := None\<rparr>)
            else e\<lparr>PermanentlyFailed := True\<rparr>)
    \<and> d \<notin> it_Dest ` set (pending_images (process_entries ev m))"
proof
  show "mget (mm_imageState (tk_manager (process_entries ev m))) d =
      Some (if RetryCount e < effectiveMaxRetries m then
              (if \<exists>t. NextRetryAt e = Some t \<and> ev_now ev < t then e else e\<lparr>State := statePending, NextRetryAt := None\<rparr>)
            else e\<lparr>PermanentlyFailed := True\<rparr>)"
    using assms(2-) by (auto simp: process_entries_state [OF assms(1)] turn_def set_permanently_failed split: if_splits)
  show "d \<notin> it_Dest ` set (pending_images (process_entries ev m))"
  proof
    assume "d \<in> it_Dest ` set (pending_images (process_entries ev m))"
    then obtain i where "i \<in> set (pending_images (process_entries ev m))" "it_Dest i = d" by auto
    then show False using in_pending_images [OF assms(1)] assms(2,3) by (auto simp: ready_def)
  qed
qed

theorem failed_retry_policy_witness:
  "mget (mm_imageState (tk_manager (process_entries tick_env
     (new_manager [(''r/x'', zero_entry\<lparr>State := stateFailed, RetryCount := 10\<rparr>)] [(''r/x'', [''a''])] [])))) ''r/x''
   = Some (zero_entry\<lparr>State := stateFailed, RetryCount := 10, PermanentlyFailed := True\<rparr>)"
  using failed_retry_policy [of "new_manager [(''r/x'', zero_entry\<lparr>State := stateFailed, RetryCount := 10\<rparr>)] [(''r/x'', [''a''])] []"
      "''r/x''" "zero_entry\<lparr>State := stateFailed, RetryCount := 10\<rparr>" tick_env]
  by (simp add: new_manager_def effectiveMaxRetries_def zero_entry_def)

text \<open>
  The orphan sweep is exact: a tick stages for cleanup the entries that no ImageSet owns, as they were, removes them from
  the state, and neither stages nor removes any other entry.
\<close>

theorem orphan_sweep_exact:
  assumes "wf_map (mm_imageState m)"
  shows "mget (tk_orphans (process_entries ev m)) d = (if mget_list (mm_owners m) d = [] then mget (mm_imageState m) d else None)
    \<and> (mget (mm_imageState (tk_manager (process_entries ev m))) d = None \<longleftrightarrow>
       mget (mm_imageState m) d = None \<or> mget_list (mm_owners m) d = [])"
proof
  show "mget (tk_orphans (process_entries ev m)) d = (if mget_list (mm_owners m) d = [] then mget (mm_imageState m) d else None)"
    by (rule filter_dest_pending(3) [OF assms])
  show "mget (mm_imageState (tk_manager (process_entries ev m))) d = None \<longleftrightarrow>
      mget (mm_imageState m) d = None \<or> mget_list (mm_owners m) d = []"
    by (simp add: process_entries_state [OF assms] turn_def split: option.split)
qed

theorem orphan_sweep_exact_witness:
  "mget (tk_orphans (process_entries tick_env (new_manager [(''r/x'', zero_entry)] [] []))) ''r/x'' = Some zero_entry"
  using orphan_sweep_exact [of "new_manager [(''r/x'', zero_entry)] [] []" tick_env "''r/x''"]
  by (simp add: new_manager_def)

text \<open>
  The sweep leaves the flag of a swept image behind. When an image that was mirrored loses its last owner, is swept, and
  is later added to an ImageSet again, the next tick takes it for mirrored: it is not sent to a worker, although the cleanup
  Job has deleted it from the registry in between.
\<close>

theorem orphan_flag_survives:
  assumes "wf_map (mm_imageState m)" and "mget_bool (mm_mirrored m) d" and "mget_list (mm_owners m) d = []"
    and "wf_map perIS" and "mget perIS d = Some e" and "State e = statePending"
    and "mergeResolvedIntoConsolidated (mm_imageState (tk_manager (process_entries ev m)))
           (mm_owners (tk_manager (process_entries ev m))) perIS isName = (st, ows, orphaned)"
  shows "let m2 = (tk_manager (process_entries ev m))\<lparr>mm_imageState := st, mm_owners := ows\<rparr>
    in mget (mm_imageState m2) d = Some e \<and>
       mget (mm_imageState (tk_manager (process_entries ev' m2))) d = Some (e\<lparr>State := stateMirrored\<rparr>) \<and>
       d \<notin> it_Dest ` set (pending_images (process_entries ev' m2))"
proof -
  let ?m1 = "tk_manager (process_entries ev m)"
  let ?m2 = "?m1\<lparr>mm_imageState := st, mm_owners := ows\<rparr>"
  have "fst (tick_obs (process_entries ev m) d) =
      (mget (mm_imageState ?m1) d, mget_bool (mm_mirrored ?m1) d, mget_list (mm_owners ?m1) d, mget_str (mm_inProgress ?m1) d,
       mm_maxRetries ?m1)" by (simp add: tick_obs_def)
  then have gone: "mget (mm_imageState ?m1) d = None" and flag: "mget_bool (mm_mirrored ?m1) d"
    using assms(2,3) by (auto simp: process_entries_obs [OF assms(1)] turn_def Let_def split: option.splits)
  note mrg = merge_lookup [OF wf_process_entries [OF assms(1)] assms(4,7)]
  have st: "mget st d = Some e" using mrg(1) [of d] gone assms(5) by simp
  have ows: "mget_list ows d \<noteq> []" using mrg(2) [of d] assms(5) by (auto simp: addOwner_def)
  have wf2: "wf_map (mm_imageState ?m2)" using mrg(4) by simp
  have "fst (fst (tick_obs (process_entries ev' ?m2) d)) = Some (e\<lparr>State := stateMirrored\<rparr>)"
    using st ows flag assms(6) by (simp add: process_entries_obs [OF wf2] turn_def Let_def)
  moreover have "d \<notin> it_Dest ` set (pending_images (process_entries ev' ?m2))"
    using in_pending_images [OF wf2] flag by (auto simp: ready_def)
  ultimately show ?thesis using st by (simp add: Let_def tick_obs_def)
qed

theorem orphan_flag_survives_witness:
  "mget (mm_imageState (tk_manager (process_entries tick_env
     ((tk_manager (process_entries tick_env
         (new_manager [(''r/x'', zero_entry\<lparr>State := stateMirrored\<rparr>)] [] [(''r/x'', True)])))
       \<lparr>mm_imageState := [(''r/x'', zero_entry\<lparr>State := statePending\<rparr>)], mm_owners := [(''r/x'', [''a''])]\<rparr>)))) ''r/x''
   = Some (zero_entry\<lparr>State := stateMirrored\<rparr>)"
proof -
  let ?m = "new_manager [(''r/x'', zero_entry\<lparr>State := stateMirrored\<rparr>)] [] [(''r/x'', True)]"
  have merged: "mergeResolvedIntoConsolidated (mm_imageState (tk_manager (process_entries tick_env ?m)))
      (mm_owners (tk_manager (process_entries tick_env ?m))) [(''r/x'', zero_entry\<lparr>State := statePending\<rparr>)] ''a''
      = ([(''r/x'', zero_entry\<lparr>State := statePending\<rparr>)], [(''r/x'', [''a''])], [])"
    by code_simp
  show ?thesis
    using orphan_flag_survives [OF _ _ _ _ _ _ merged, of "''r/x''" "zero_entry\<lparr>State := statePending\<rparr>" tick_env]
    by (simp add: new_manager_def Let_def zero_entry_def)
qed

end
