(* ===== verification/Persist.thy ===== *)
theory Persist
  imports Lifecycle
begin

text \<open>
  The manager's working set and its partitioned copy in the cluster: \<open>loadPartitionedState\<close>,
  \<open>flushPartitionedState\<close>, \<open>countedLocked\<close>, \<open>saveSummary\<close> and \<open>appendOrphans\<close>
  (\<open>pkg/mirror/manager/manager.go\<close> and \<open>manager_resolve.go\<close>). The API server is the parameter
  \<open>k\<close>, the owner reference set on the ConfigMaps the parameter \<open>ow\<close>.
\<close>

section \<open>Loading\<close>

text \<open>The live state has no nil entries; a saved state is a map of pointers.\<close>

definition pointers :: "image_state \<Rightarrow> loaded_state" where
  "pointers st = map (\<lambda>(d, e). (d, Some e)) st"

type_synonym working_set = "image_state \<times> owners_map \<times> owner_meta"

definition load_entry :: "string \<Rightarrow> string \<times> image_entry option \<Rightarrow> working_set \<Rightarrow> working_set" where
  "load_entry isName de acc = (case (de, acc) of ((dest, entry), (st, ows, om)) \<Rightarrow>
     (case entry of
        None \<Rightarrow> (st, ows, om)
      | Some e \<Rightarrow>
          (mput dest (mergeLoadedEntry (mget st dest) e) st,
           addOwner ows dest isName,
           setOwnerMetaLocked om dest isName (specMetaOf e))))"

definition load_image_set ::
  "'w kube \<Rightarrow> 'w \<Rightarrow> mirror_target \<Rightarrow> image_set \<Rightarrow> working_set \<times> (string, annotations) gomap
    \<Rightarrow> working_set \<times> (string, annotations) gomap" where
  "load_image_set k w mt is acc = (case acc of (ws, cds) \<Rightarrow>
     if \<not> containsString (mt_ImageSets mt) (is_Name is) then (ws, cds)
     else (case LoadWithCatalogDigests k w (is_Name is) of
             Inl _ \<Rightarrow> (ws, cds)
           | Inr (isState, digests) \<Rightarrow>
               (fold (load_entry (is_Name is)) isState ws,
                mput (is_Name is)
                  (if length digests = 0 \<and> length isState > 0 then catalogDigestsOf (is_Annotations is) else digests) cds)))"

definition loadPartitionedState ::
  "(int \<Rightarrow> int) \<Rightarrow> 'w kube \<Rightarrow> 'w \<Rightarrow> mirror_target \<Rightarrow> owner \<Rightarrow> image_set list \<Rightarrow> mirror_manager \<Rightarrow> 'w \<times> mirror_manager" where
  "loadPartitionedState tj k w mt ow imageSets m =
     (case MigrateConsolidatedToPerImageSet tj k w (mm_TargetName m) ow of
        (w', _) \<Rightarrow>
          (case fold (load_image_set k w' mt) imageSets (([], [], []), []) of
             ((st, ows, om), cds) \<Rightarrow>
               (w', m\<lparr>mm_imageState := st, mm_owners := ows, mm_ownerMeta := om, mm_catalogDigests := cds\<rparr>)))"

section \<open>Flushing\<close>

definition flush_owner ::
  "owner_meta \<Rightarrow> string \<Rightarrow> image_entry \<Rightarrow> string \<Rightarrow> (string, image_state) gomap \<Rightarrow> (string, image_state) gomap" where
  "flush_owner om dest entry isName per =
     (case mget per isName of
        None \<Rightarrow> per
      | Some st \<Rightarrow> mput isName (mput dest (ownerView om dest isName entry) st) per)"

definition flush_entry ::
  "owners_map \<Rightarrow> owner_meta \<Rightarrow> string \<times> image_entry \<Rightarrow> (string, image_state) gomap \<times> shared_index
    \<Rightarrow> (string, image_state) gomap \<times> shared_index" where
  "flush_entry ows om de acc = (case (de, acc) of ((dest, entry), (per, index)) \<Rightarrow>
     let names = mget_list ows dest
     in (fold (flush_owner om dest entry) names per,
         if length names > 1 then mput dest names index else index))"

definition partition_state :: "mirror_target \<Rightarrow> mirror_manager \<Rightarrow> (string, image_state) gomap \<times> shared_index" where
  "partition_state mt m =
     fold (flush_entry (mm_owners m) (mm_ownerMeta m)) (mm_imageState m)
       (fold (\<lambda>isName per. mput isName [] per) (mt_ImageSets mt) [], [])"

datatype flush_error = SaveStateError string error | SaveIndexError error | SaveSummaryError error

abbreviation first_error :: "'e option \<Rightarrow> 'e option \<Rightarrow> 'e option" where
  "first_error firstErr err \<equiv> (if firstErr = None then err else firstErr)"

fun save_views ::
  "(int \<Rightarrow> int) \<Rightarrow> 'w kube \<Rightarrow> owner \<Rightarrow> (string, annotations) gomap \<Rightarrow> (string, image_state) gomap \<Rightarrow> 'w \<Rightarrow> flush_error option
    \<Rightarrow> 'w \<times> flush_error option" where
  "save_views tj k ow cds [] w firstErr = (w, firstErr)"
| "save_views tj k ow cds ((isName, st) # per) w firstErr =
     (case SaveWithCatalogDigests tj k w isName (pointers st) (mget_list cds isName) ow of
        (w', err) \<Rightarrow> save_views tj k ow cds per w' (first_error firstErr (map_option (SaveStateError isName) err)))"

definition countedLocked :: "mirror_target \<Rightarrow> mirror_manager \<Rightarrow> image_state" where
  "countedLocked mt m =
     filter (\<lambda>(dest, entry). \<exists>isName \<in> set (mget_list (mm_owners m) dest). containsString (mt_ImageSets mt) isName) (mm_imageState m)"

definition saveSummary ::
  "'w kube \<Rightarrow> 'w \<Rightarrow> mirror_target \<Rightarrow> owner \<Rightarrow> image_state \<Rightarrow> mirror_manager \<Rightarrow> 'w \<times> mirror_manager \<times> flush_error option" where
  "saveSummary k w mt ow counted m =
     (case Counts counted of (tot, mirrored, pending, failed) \<Rightarrow>
        (case SaveSummary k w (mm_TargetName m)
                \<lparr>sm_ImageSets = sort (mt_ImageSets mt), sm_Total = tot, sm_Mirrored = mirrored, sm_Pending = pending, sm_Failed = failed\<rparr> ow of
           (w', Some e) \<Rightarrow> (w', m, Some (SaveSummaryError e))
         | (w', None) \<Rightarrow> (w', m\<lparr>mm_summaryWritten := True\<rparr>, None)))"

definition flushPartitionedState ::
  "(int \<Rightarrow> int) \<Rightarrow> 'w kube \<Rightarrow> 'w \<Rightarrow> mirror_target \<Rightarrow> owner \<Rightarrow> mirror_manager \<Rightarrow> 'w \<times> mirror_manager \<times> flush_error option" where
  "flushPartitionedState tj k w mt ow m =
     (case partition_state mt m of (per, index) \<Rightarrow>
        (case save_views tj k ow (mm_catalogDigests m) per w None of (w1, e1) \<Rightarrow>
           (case SaveIndex k w1 (mm_TargetName m) index ow of (w2, e2) \<Rightarrow>
              (case saveSummary k w2 mt ow (countedLocked mt m) m of (w3, m', e3) \<Rightarrow>
                 (w3, m', first_error (first_error e1 (map_option SaveIndexError e2)) e3)))))"

definition appendOrphans ::
  "(int \<Rightarrow> int) \<Rightarrow> 'w kube \<Rightarrow> 'w \<Rightarrow> owner \<Rightarrow> image_state \<Rightarrow> mirror_manager \<Rightarrow> 'w \<times> error option" where
  "appendOrphans tj k w ow newOrphans m =
     (let cmName = OrphansConfigMapName (mm_TargetName m)
      in case LoadByConfigMapName k w cmName of
           Inl e \<Rightarrow> (w, Some e)
         | Inr existing \<Rightarrow> SaveRaw tj k w cmName (fold (\<lambda>(dest, entry). mput dest (Some entry)) newOrphans existing) ow)"

section \<open>Facts about the partition\<close>

definition part_obs :: "(string, image_state) gomap \<times> shared_index \<Rightarrow> string \<Rightarrow> (string \<Rightarrow> image_entry option option) \<times> string list option" where
  "part_obs acc d = (\<lambda>n. map_option (\<lambda>st. mget st d) (mget (fst acc) n), mget (snd acc) d)"

lemma fold_flush_owner:
  "map_option (\<lambda>st. mget st d') (mget (fold (flush_owner om d e) names per) n) =
     map_option (\<lambda>st. if n \<in> set names \<and> d' = d then Some (ownerView om d n e) else mget st d') (mget per n)"
proof (induction names arbitrary: per)
  case (Cons x names)
  then show ?case by (cases "mget per x"; cases "x = n"; cases "mget per n") (auto simp: flush_owner_def)
qed (cases "mget per n"; simp)

interpretation flush_loop: range_loop "flush_entry ows om" part_obs for ows om
proof unfold_locales
  show "part_obs (flush_entry ows om (k, v) s) k' = part_obs s k'" if "k' \<noteq> k" for k' k v s
    using that by (cases s) (simp add: part_obs_def flush_entry_def fold_flush_owner Let_def)
  show "part_obs (flush_entry ows om (k, v) s) k = part_obs (flush_entry ows om (k, v) s') k"
    if "part_obs s k = part_obs s' k" for s s' k v
  proof -
    have "map_option (\<lambda>st. if n \<in> set (mget_list ows k) then Some (ownerView om k n v) else mget st k) (mget (fst s) n) =
        map_option (\<lambda>st. if n \<in> set (mget_list ows k) then Some (ownerView om k n v) else mget st k) (mget (fst s') n)" for n
    proof -
      have "map_option (\<lambda>st. mget st k) (mget (fst s) n) = map_option (\<lambda>st. mget st k) (mget (fst s') n)"
        using that by (simp add: part_obs_def fun_eq_iff)
      then show ?thesis by (cases "mget (fst s) n"; cases "mget (fst s') n") auto
    qed
    moreover have "mget (snd s) k = mget (snd s') k" using that by (simp add: part_obs_def)
    ultimately show ?thesis by (cases s; cases s') (simp add: part_obs_def flush_entry_def fold_flush_owner Let_def fun_eq_iff)
  qed
qed

lemma wf_fold_flush_owner: "wf_map per \<Longrightarrow> wf_map (fold (flush_owner om d e) names per)"
  by (induction names arbitrary: per) (simp_all add: flush_owner_def split: option.split)

lemma fold_flush_owner_inner:
  assumes "\<And>n st. mget per n = Some st \<Longrightarrow> wf_map st" and "mget (fold (flush_owner om d e) names per) n = Some st"
  shows "wf_map st"
  using assms
proof (induction names arbitrary: per)
  case (Cons x names)
  show ?case
    by (rule Cons.IH [where per = "flush_owner om d e x per"])
      (use Cons.prems in \<open>auto simp: flush_owner_def split: option.splits if_splits\<close>)
qed simp

definition wf_partition :: "(string, image_state) gomap \<times> shared_index \<Rightarrow> bool" where
  "wf_partition acc \<longleftrightarrow> wf_map (fst acc) \<and> (\<forall>n st. mget (fst acc) n = Some st \<longrightarrow> wf_map st)"

lemma wf_flush_entry: "wf_partition acc \<Longrightarrow> wf_partition (flush_entry ows om de acc)"
  using fold_flush_owner_inner [of "fst acc" om "fst de" "snd de" "mget_list ows (fst de)"]
  by (cases acc; cases de) (auto simp: wf_partition_def flush_entry_def Let_def wf_fold_flush_owner)

lemma fold_put_empty:
  "mget (fold (\<lambda>isName per. mput isName [] per) names per) n = (if n \<in> set names then Some [] else mget per n)"
  "wf_map per \<Longrightarrow> wf_map (fold (\<lambda>isName per. mput isName [] per) names per)"
  by (induction names arbitrary: per) auto

lemma wf_partition_state: "wf_partition (partition_state mt m)"
proof -
  have "wf_partition (fold (flush_entry ows om) xs acc)" if "wf_partition acc" for ows om xs acc
    using that by (induction xs arbitrary: acc) (simp_all add: wf_flush_entry)
  moreover have "wf_partition (fold (\<lambda>isName per. mput isName [] per) (mt_ImageSets mt) [], [])"
    by (auto simp: wf_partition_def fold_put_empty split: if_splits)
  ultimately show ?thesis by (simp add: partition_state_def)
qed

text \<open>The partition gives every ImageSet of the spec its own view, and the index the destinations with several owners.\<close>

lemma partition_obs:
  assumes "wf_map (mm_imageState m)"
  shows "part_obs (partition_state mt m) d =
    (\<lambda>n. if n \<in> set (mt_ImageSets mt)
         then Some (mget (filterByImageSet (mm_imageState m) (mm_owners m) (mm_ownerMeta m) n) d) else None,
     if mget (mm_imageState m) d \<noteq> None \<and> length (mget_list (mm_owners m) d) > 1 then mget (mm_owners m) d else None)"
proof -
  let ?init = "(fold (\<lambda>isName per. mput isName [] per) (mt_ImageSets mt) [], [])"
  have init: "part_obs ?init d = (\<lambda>n. if n \<in> set (mt_ImageSets mt) then Some None else None, None)"
    by (simp add: part_obs_def fold_put_empty fun_eq_iff)
  have owners: "length (mget_list (mm_owners m) d) > 1 \<Longrightarrow> mget (mm_owners m) d = Some (mget_list (mm_owners m) d)"
    by (simp add: mget_default_def split: option.splits)
  show ?thesis
  proof (cases "mget (mm_imageState m) d")
    case None
    then have "part_obs (partition_state mt m) d = part_obs ?init d"
      unfolding partition_state_def by (simp only: flush_loop.loop_obs [OF assms] option.case)
    then show ?thesis using None init by (simp add: filterByImageSet_lookup [OF assms] fun_eq_iff)
  next
    case (Some e)
    then have "part_obs (partition_state mt m) d = part_obs (flush_entry (mm_owners m) (mm_ownerMeta m) (d, e) ?init) d"
      unfolding partition_state_def by (simp only: flush_loop.loop_obs [OF assms] option.case)
    then show ?thesis using Some owners
      by (auto simp: part_obs_def flush_entry_def Let_def fold_flush_owner fold_put_empty filterByImageSet_lookup [OF assms] fun_eq_iff)
  qed
qed

lemma partition_view:
  assumes "wf_map (mm_imageState m)" and "n \<in> set (mt_ImageSets mt)"
  obtains st where "mget (fst (partition_state mt m)) n = Some st" and "wf_map st"
    and "\<And>d. mget st d = mget (filterByImageSet (mm_imageState m) (mm_owners m) (mm_ownerMeta m) n) d"
proof -
  have at: "map_option (\<lambda>st. mget st d) (mget (fst (partition_state mt m)) n) =
      Some (mget (filterByImageSet (mm_imageState m) (mm_owners m) (mm_ownerMeta m) n) d)" for d
    using partition_obs [OF assms(1), of mt d] assms(2) by (simp add: part_obs_def fun_eq_iff)
  then obtain st where st: "mget (fst (partition_state mt m)) n = Some st" by fastforce
  show ?thesis
  proof (rule that [OF st])
    show "wf_map st" using wf_partition_state [of mt m] st by (auto simp: wf_partition_def)
    show "mget st d = mget (filterByImageSet (mm_imageState m) (mm_owners m) (mm_ownerMeta m) n) d" for d
      using at [of d] st by simp
  qed
qed

lemma partition_keys:
  assumes "wf_map (mm_imageState m)"
  shows "set (mkeys (fst (partition_state mt m))) = set (mt_ImageSets mt)"
proof -
  have "mget (fst (partition_state mt m)) n = None \<longleftrightarrow> n \<notin> set (mt_ImageSets mt)" for n
  proof -
    have "map_option (\<lambda>st. mget st []) (mget (fst (partition_state mt m)) n) =
        (if n \<in> set (mt_ImageSets mt)
         then Some (mget (filterByImageSet (mm_imageState m) (mm_owners m) (mm_ownerMeta m) n) []) else None)"
      using partition_obs [OF assms, of mt "[]"] by (simp add: part_obs_def fun_eq_iff)
    then show ?thesis by (cases "mget (fst (partition_state mt m)) n") (auto split: if_splits)
  qed
  then show ?thesis by (auto simp: mget_None_iff)
qed

section \<open>Facts about saving\<close>

lemma save_views_error: "save_views tj k ow cds per w (Some e) = (w', None) \<Longrightarrow> False"
  by (induction per arbitrary: w) (auto split: prod.splits)

lemma save_views_step:
  assumes "save_views tj k ow cds ((isName, st) # per) w None = (w', None)"
  obtains w1 where "SaveWithCatalogDigests tj k w isName (pointers st) (mget_list cds isName) ow = (w1, None)"
    and "save_views tj k ow cds per w1 None = (w', None)"
proof -
  obtain w1 e where s: "SaveWithCatalogDigests tj k w isName (pointers st) (mget_list cds isName) ow = (w1, e)" by force
  show ?thesis
  proof (cases e)
    case None
    then show ?thesis using s assms by (intro that [of w1]) simp_all
  next
    case (Some x)
    then show ?thesis using s assms save_views_error by fastforce
  qed
qed

lemma save_views_other:
  "kube_ok k \<Longrightarrow> save_views tj k ow cds per w None = (w', None) \<Longrightarrow> n \<notin> ConfigMapName ` set (mkeys per) \<Longrightarrow>
     kget k w' n = kget k w n"
proof (induction per arbitrary: w)
  case (Cons x per)
  obtain isName st where x: "x = (isName, st)" by force
  from Cons.prems(2) [unfolded x] show ?case
  proof (rule save_views_step)
    fix w1 assume s: "SaveWithCatalogDigests tj k w isName (pointers st) (mget_list cds isName) ow = (w1, None)"
      and r: "save_views tj k ow cds per w1 None = (w', None)"
    show ?thesis using Cons.IH [OF Cons.prems(1) r] SaveWithCatalogDigests_ok [OF Cons.prems(1) s] Cons.prems(3) x by auto
  qed
qed simp

lemma save_views_loads:
  "kube_ok k \<Longrightarrow> save_views tj k ow cds per w None = (w', None) \<Longrightarrow> wf_map per \<Longrightarrow> mget per isName = Some st \<Longrightarrow>
     LoadWithCatalogDigests k w' isName = Inr (reload tj (pointers st), mget_list cds isName)"
proof (induction per arbitrary: w)
  case (Cons x per)
  obtain n s where x: "x = (n, s)" by force
  from Cons.prems(2) [unfolded x] obtain w1
    where s: "SaveWithCatalogDigests tj k w n (pointers s) (mget_list cds n) ow = (w1, None)"
      and r: "save_views tj k ow cds per w1 None = (w', None)" by (rule save_views_step)
  show ?case
  proof (cases "n = isName")
    case True
    then have "isName \<notin> set (mkeys per)" using Cons.prems(3) x by simp
    then have "ConfigMapName isName \<notin> ConfigMapName ` set (mkeys per)" by (metis ConfigMapName_inject imageE)
    then have "kget k w' (ConfigMapName isName) = kget k w1 (ConfigMapName isName)"
      by (rule save_views_other [OF Cons.prems(1) r])
    then have "LoadWithCatalogDigests k w' isName = LoadWithCatalogDigests k w1 isName"
      by (simp add: LoadWithCatalogDigests_def)
    then show ?thesis using SaveWithCatalogDigests_ok [OF Cons.prems(1) s] True x Cons.prems(4) by simp
  next
    case False
    then show ?thesis using Cons.prems x by (intro Cons.IH [OF _ r]) auto
  qed
qed simp

text \<open>The counts never change another ConfigMap.\<close>

lemma SaveSummary_other:
  assumes "kube_ok k" and "SaveSummary k w mtName s ow = (w', None)" and "n \<noteq> SummaryConfigMapName mtName"
  shows "kget k w' n = kget k w n"
proof (cases "kget k w (SummaryConfigMapName mtName)")
  case (Inl e)
  with assms(2) obtain cm where cm: "with_owner ow \<lparr>cm_Name = SummaryConfigMapName mtName, cm_Annotations = [],
      cm_BinaryData = [], cm_Data = summary_data s, cm_ResourceVersion = 0, cm_Owner = None\<rparr> = Inr cm"
    and "kcreate k w cm = (w', None)"
    by (auto simp: SaveSummary_def Let_def split: kube_error.splits sum.splits prod.splits)
  then show ?thesis using kube_ok_create [OF assms(1)] with_owner_fields [OF cm] assms(3) by (auto simp: stored_def)
next
  case (Inr existing)
  then have "cm_Name existing = SummaryConfigMapName mtName" using assms(1) by (auto simp: kube_ok_def)
  then show ?thesis using Inr assms kube_ok_update [OF assms(1), of w "existing\<lparr>cm_Data := summary_data s\<rparr>" w']
    by (auto simp: SaveSummary_def Let_def stored_def split: prod.splits if_splits)
qed

lemma flush_steps:
  assumes "flushPartitionedState tj k w mt ow m = (w', m', None)"
  obtains w1 w2 s where "save_views tj k ow (mm_catalogDigests m) (fst (partition_state mt m)) w None = (w1, None)"
    and "SaveIndex k w1 (mm_TargetName m) (snd (partition_state mt m)) ow = (w2, None)"
    and "SaveSummary k w2 (mm_TargetName m) s ow = (w', None)" and "m' = m\<lparr>mm_summaryWritten := True\<rparr>"
    and "s = (case Counts (countedLocked mt m) of (tot, mirrored, pending, failed) \<Rightarrow>
      \<lparr>sm_ImageSets = sort (mt_ImageSets mt), sm_Total = tot, sm_Mirrored = mirrored, sm_Pending = pending, sm_Failed = failed\<rparr>)"
  using assms
  by (auto simp: flushPartitionedState_def saveSummary_def split: prod.splits option.splits if_splits intro: that)

lemma flush_kept:
  assumes "kube_ok k" and "flushPartitionedState tj k w mt ow m = (w', m', None)" and "wf_map (mm_imageState m)"
    and "n \<notin> ConfigMapName ` set (mt_ImageSets mt)" and "n \<noteq> IndexConfigMapName (mm_TargetName m)"
    and "n \<noteq> SummaryConfigMapName (mm_TargetName m)"
  shows "kget k w' n = kget k w n"
  using assms(2)
proof (rule flush_steps)
  fix w1 w2 s
  assume 1: "save_views tj k ow (mm_catalogDigests m) (fst (partition_state mt m)) w None = (w1, None)"
    and 2: "SaveIndex k w1 (mm_TargetName m) (snd (partition_state mt m)) ow = (w2, None)"
    and 3: "SaveSummary k w2 (mm_TargetName m) s ow = (w', None)"
  show ?thesis
    using save_views_other [OF assms(1) 1, unfolded partition_keys [OF assms(3)], OF assms(4)]
      SaveIndex_ok(2) [OF assms(1) 2 assms(5)] SaveSummary_other [OF assms(1) 3 assms(6)] by simp
qed

lemma flush_loads:
  assumes "kube_ok k" and "flushPartitionedState tj k w mt ow m = (w', m', None)" and "wf_map (mm_imageState m)"
    and "isName \<in> set (mt_ImageSets mt)"
  obtains st where "LoadWithCatalogDigests k w' isName = Inr (st, mget_list (mm_catalogDigests m) isName)" and "wf_map st"
    and "\<And>d. mget st d = map_option (\<lambda>e. Some (json_of_entry tj e))
      (mget (filterByImageSet (mm_imageState m) (mm_owners m) (mm_ownerMeta m) isName) d)"
  using assms(2)
proof (rule flush_steps)
  fix w1 w2 s
  assume 1: "save_views tj k ow (mm_catalogDigests m) (fst (partition_state mt m)) w None = (w1, None)"
    and 2: "SaveIndex k w1 (mm_TargetName m) (snd (partition_state mt m)) ow = (w2, None)"
    and 3: "SaveSummary k w2 (mm_TargetName m) s ow = (w', None)"
  obtain st where st: "mget (fst (partition_state mt m)) isName = Some st" "wf_map st"
    "\<And>d. mget st d = mget (filterByImageSet (mm_imageState m) (mm_owners m) (mm_ownerMeta m) isName) d"
    by (rule partition_view [OF assms(3,4)]) blast
  have wf: "wf_map (fst (partition_state mt m))" using wf_partition_state [of mt m] by (simp add: wf_partition_def)
  have same: "kget k w' (ConfigMapName isName) = kget k w1 (ConfigMapName isName)"
    using SaveIndex_ok(2) [OF assms(1) 2] SaveSummary_other [OF assms(1) 3]
      ConfigMap_names_disjoint [of isName "mm_TargetName m" "mm_TargetName m" isName] by simp
  have "LoadWithCatalogDigests k w' isName = LoadWithCatalogDigests k w1 isName" using same by (simp add: LoadWithCatalogDigests_def)
  then have l: "LoadWithCatalogDigests k w' isName = Inr (reload tj (pointers st), mget_list (mm_catalogDigests m) isName)"
    using save_views_loads [OF assms(1) 1 wf st(1)] by simp
  have eq: "reload tj (pointers st) = map (\<lambda>(d, e). (d, Some (json_of_entry tj e))) st"
    by (simp add: reload_def pointers_def case_prod_beta)
  show ?thesis
  proof (rule that [OF l])
    show "wf_map (reload tj (pointers st))" using st(2) by (simp add: eq wf_map_map_snd [where f = "\<lambda>_ e. Some (json_of_entry tj e)"])
    show "mget (reload tj (pointers st)) d = map_option (\<lambda>e. Some (json_of_entry tj e))
      (mget (filterByImageSet (mm_imageState m) (mm_owners m) (mm_ownerMeta m) isName) d)" for d
      by (simp add: eq mget_map_snd [where f = "\<lambda>_ e. Some (json_of_entry tj e)"] st(3))
  qed
qed

section \<open>Facts about loading\<close>

definition load_obs :: "working_set \<Rightarrow> string \<Rightarrow> image_entry option \<times> string list \<times> (string, spec_meta) gomap" where
  "load_obs ws d = (case ws of (st, ows, om) \<Rightarrow> (mget st d, mget_list ows d, mget_list om d))"

interpretation load_loop: range_loop "load_entry isName" load_obs for isName
  by unfold_locales
    (auto simp: load_obs_def load_entry_def addOwner_list setOwnerMetaLocked_def split: option.splits prod.splits)

lemma load_entry_obs:
  "load_obs (load_entry isName (d, eo) ws) d =
     (case eo of
        None \<Rightarrow> load_obs ws d
      | Some e \<Rightarrow> (case load_obs ws d of (x, names, metas) \<Rightarrow>
          (Some (mergeLoadedEntry x e), if isName \<in> set names then names else names @ [isName], mput isName (specMetaOf e) metas)))"
  by (cases ws) (auto simp: load_obs_def load_entry_def addOwner_list setOwnerMetaLocked_def split: option.split)

text \<open>The entry that the ConfigMap of an ImageSet holds for a destination.\<close>

definition cluster_entry :: "'w kube \<Rightarrow> 'w \<Rightarrow> mirror_target \<Rightarrow> string \<Rightarrow> string \<Rightarrow> image_entry option" where
  "cluster_entry k w mt isName d =
     (if isName \<in> set (mt_ImageSets mt)
      then (case LoadWithCatalogDigests k w isName of Inl _ \<Rightarrow> None | Inr (st, _) \<Rightarrow> Option.bind (mget st d) (\<lambda>e. e))
      else None)"

lemma load_image_set_obs:
  assumes "\<And>st ds. is_Name is \<in> set (mt_ImageSets mt) \<Longrightarrow> LoadWithCatalogDigests k w (is_Name is) = Inr (st, ds) \<Longrightarrow> wf_map st"
  shows "load_obs (fst (load_image_set k w mt is acc)) d =
    (case cluster_entry k w mt (is_Name is) d of
       None \<Rightarrow> load_obs (fst acc) d
     | Some e \<Rightarrow> (case load_obs (fst acc) d of (x, names, metas) \<Rightarrow>
         (Some (mergeLoadedEntry x e), if is_Name is \<in> set names then names else names @ [is_Name is],
          mput (is_Name is) (specMetaOf e) metas)))"
proof (cases "is_Name is \<in> set (mt_ImageSets mt)")
  case False
  then show ?thesis by (cases acc) (simp add: load_image_set_def cluster_entry_def)
next
  case True
  show ?thesis
  proof (cases "LoadWithCatalogDigests k w (is_Name is)")
    case (Inl e)
    then show ?thesis using True by (cases acc) (simp add: load_image_set_def cluster_entry_def)
  next
    case (Inr p)
    obtain st ds where p: "p = (st, ds)" by force
    have "load_obs (fst (load_image_set k w mt is acc)) d = load_obs (fold (load_entry (is_Name is)) st (fst acc)) d"
      using True Inr p by (cases acc) (simp add: load_image_set_def)
    also have "\<dots> = (case mget st d of None \<Rightarrow> load_obs (fst acc) d | Some eo \<Rightarrow> load_obs (load_entry (is_Name is) (d, eo) (fst acc)) d)"
      using assms True Inr p by (intro load_loop.loop_obs) simp
    finally show ?thesis using True Inr p
      by (simp add: cluster_entry_def load_entry_obs split: option.split)
  qed
qed

text \<open>What has been gathered for a destination after the ImageSets \<open>N\<close>, whose ConfigMaps hold the entries \<open>E\<close>.\<close>

definition gathered :: "(string \<Rightarrow> image_entry option) \<Rightarrow> string set \<Rightarrow> image_entry option \<times> string list \<times> (string, spec_meta) gomap \<Rightarrow> bool" where
  "gathered E N ob \<longleftrightarrow> (case ob of (x, names, metas) \<Rightarrow>
     set names = {n \<in> N. E n \<noteq> None} \<and> (\<forall>n. mget metas n = (if n \<in> N then map_option specMetaOf (E n) else None)) \<and>
     (x = None \<longleftrightarrow> names = []) \<and> (\<forall>y. x = Some y \<longrightarrow> (\<exists>n \<in> N. E n = Some y)))"

lemma mergeLoadedEntry_cases: "mergeLoadedEntry x e = e \<or> x = Some (mergeLoadedEntry x e)"
  by (auto simp: mergeLoadedEntry_def split: option.splits)

lemma gathered_step:
  assumes "gathered E N ob" and "n \<notin> N"
  shows "gathered E (insert n N) (case E n of None \<Rightarrow> ob
     | Some e \<Rightarrow> (case ob of (x, names, metas) \<Rightarrow>
         (Some (mergeLoadedEntry x e), if n \<in> set names then names else names @ [n], mput n (specMetaOf e) metas)))"
proof -
  obtain x names metas where ob: "ob = (x, names, metas)" by (cases ob)
  show ?thesis
  proof (cases "E n")
    case None
    then show ?thesis using assms ob by (auto simp: gathered_def)
  next
    case (Some e)
    have "\<exists>n' \<in> insert n N. E n' = Some (mergeLoadedEntry x e)"
      using mergeLoadedEntry_cases [of x e] assms(1) Some ob by (auto simp: gathered_def)
    then show ?thesis using assms Some ob by (auto simp: gathered_def)
  qed
qed

lemma gathered_all:
  assumes "\<And>is st ds. is \<in> set iss \<Longrightarrow> is_Name is \<in> set (mt_ImageSets mt) \<Longrightarrow> LoadWithCatalogDigests k w (is_Name is) = Inr (st, ds) \<Longrightarrow> wf_map st"
    and "distinct (map is_Name iss)" and "is_Name ` set iss \<inter> N = {}"
    and "gathered (\<lambda>n. cluster_entry k w mt n d) N (load_obs (fst acc) d)"
  shows "gathered (\<lambda>n. cluster_entry k w mt n d) (is_Name ` set iss \<union> N) (load_obs (fst (fold (load_image_set k w mt) iss acc)) d)"
  using assms
proof (induction iss arbitrary: acc N)
  case (Cons x iss)
  have "gathered (\<lambda>n. cluster_entry k w mt n d) (insert (is_Name x) N) (load_obs (fst (load_image_set k w mt x acc)) d)"
    using Cons.prems by (subst load_image_set_obs) (auto intro: gathered_step)
  then have "gathered (\<lambda>n. cluster_entry k w mt n d) (is_Name ` set iss \<union> insert (is_Name x) N)
      (load_obs (fst (fold (load_image_set k w mt) iss (load_image_set k w mt x acc))) d)"
    using Cons.prems by (intro Cons.IH) auto
  then show ?case by simp
qed simp

lemma wf_load_entry: "wf_map (fst ws) \<Longrightarrow> wf_map (fst (load_entry isName de ws))"
  by (cases ws; cases de) (simp add: load_entry_def split: option.split)

lemma wf_load_image_set: "wf_map (fst (fst acc)) \<Longrightarrow> wf_map (fst (fst (load_image_set k w mt is acc)))"
proof -
  have "wf_map (fst (fold (load_entry n) st ws))" if "wf_map (fst ws)" for n st ws
    using that by (induction st arbitrary: ws) (simp_all add: wf_load_entry)
  then show "wf_map (fst (fst acc)) \<Longrightarrow> wf_map (fst (fst (load_image_set k w mt is acc)))"
    by (auto simp: load_image_set_def split: prod.split sum.split)
qed

lemma wf_load_image_sets: "wf_map (fst (fst acc)) \<Longrightarrow> wf_map (fst (fst (fold (load_image_set k w mt) iss acc)))"
  by (induction iss arbitrary: acc) (simp_all add: wf_load_image_set)

text \<open>Two copies of one image agree on everything but the spec metadata.\<close>

definition same_image :: "image_entry \<Rightarrow> image_entry \<Rightarrow> bool" where
  "same_image e e' \<longleftrightarrow> applyTo (specMetaOf e) e' = e"

text \<open>When the copies of a destination agree, each ImageSet's view of the loaded state is its own copy.\<close>

lemma gathered_view:
  assumes "gathered E N (mget st d, mget_list ows d, mget_list om d)" and "wf_map st" and "n \<in> N"
    and "\<And>n' e e'. E n = Some e \<Longrightarrow> E n' = Some e' \<Longrightarrow> same_image e e'"
  shows "mget (filterByImageSet st ows om n) d = E n"
proof (cases "E n")
  case None
  then have "n \<notin> set (mget_list ows d)" using assms(1) by (auto simp: gathered_def)
  then show ?thesis using None by (simp add: filterByImageSet_lookup [OF assms(2)] split: option.split)
next
  case (Some e)
  then have own: "n \<in> set (mget_list ows d)" and meta: "mget (mget_list om d) n = Some (specMetaOf e)"
    using assms(1,3) by (auto simp: gathered_def)
  then obtain y where y: "mget st d = Some y" using assms(1) by (auto simp: gathered_def)
  then obtain n' where "E n' = Some y" using assms(1) by (auto simp: gathered_def)
  then have "same_image e y" by (rule assms(4) [OF Some])
  then show ?thesis using own meta y Some by (simp add: filterByImageSet_lookup [OF assms(2)] ownerView_def same_image_def)
qed

lemma same_image_views: "same_image (json_of_entry tj (ownerView om d n e)) (json_of_entry tj (ownerView om d n' e))"
  by (simp add: same_image_def json_of_entry_def ownerView_def applyTo_def specMetaOf_def split: option.split)

lemma loadPartitionedState_view:
  assumes "MigrateConsolidatedToPerImageSet tj k w (mm_TargetName m) ow = (w, err)"
    and "\<And>is st ds. is \<in> set iss \<Longrightarrow> is_Name is \<in> set (mt_ImageSets mt) \<Longrightarrow> LoadWithCatalogDigests k w (is_Name is) = Inr (st, ds) \<Longrightarrow> wf_map st"
    and "distinct (map is_Name iss)" and "isName \<in> is_Name ` set iss"
    and "\<And>n' e e'. cluster_entry k w mt isName d = Some e \<Longrightarrow> cluster_entry k w mt n' d = Some e' \<Longrightarrow> same_image e e'"
    and "loadPartitionedState tj k w mt ow iss m = (w', m')"
  shows "w' = w \<and> mget (filterByImageSet (mm_imageState m') (mm_owners m') (mm_ownerMeta m') isName) d = cluster_entry k w mt isName d"
proof -
  obtain st ows om cds where f: "fold (load_image_set k w mt) iss (([], [], []), []) = ((st, ows, om), cds)" by (metis prod.collapse)
  have m': "w' = w" "mm_imageState m' = st" "mm_owners m' = ows" "mm_ownerMeta m' = om"
    using assms(1,6) f by (auto simp: loadPartitionedState_def)
  have "gathered (\<lambda>n. cluster_entry k w mt n d) {} (load_obs (fst ((([], [], []), []) :: working_set \<times> (string, annotations) gomap)) d)"
    by (simp add: gathered_def load_obs_def)
  from gathered_all [OF assms(2,3) _ this] f
  have g: "gathered (\<lambda>n. cluster_entry k w mt n d) (is_Name ` set iss) (mget st d, mget_list ows d, mget_list om d)"
    by (simp add: load_obs_def)
  have "wf_map st" using wf_load_image_sets [of "(([], [], []), [])" k w mt iss] f by simp
  from gathered_view [OF g this assms(4,5)] show ?thesis by (simp add: m')
qed

text \<open>Nothing is left to migrate: there is no consolidated ConfigMap of an older version, or the one of that name is in the current format.\<close>

definition migrated :: "'w kube \<Rightarrow> 'w \<Rightarrow> string \<Rightarrow> bool" where
  "migrated k w mtName \<longleftrightarrow>
     (case kget k w (ConfigMapNameForTarget mtName) of
        Inl e \<Rightarrow> e = NotFound
      | Inr cm \<Rightarrow> mget_default (Text []) (cm_Annotations cm) FormatAnnotation \<noteq> Text [])"

lemma migrated_nothing_to_do: "migrated k w mtName \<Longrightarrow> MigrateConsolidatedToPerImageSet tj k w mtName ow = (w, None)"
  by (auto simp: migrated_def MigrateConsolidatedToPerImageSet_def split: sum.splits)

lemma SaveWithCatalogDigests_format:
  assumes "kube_ok k" and "SaveWithCatalogDigests tj k w isName st digests ow = (w', None)"
  shows "\<exists>c. kget k w' (ConfigMapName isName) = Inr c \<and> mget (cm_Annotations c) FormatAnnotation = Some (Text FormatPerImageSet)"
proof -
  let ?a = "if length digests > 0 then [(CatalogDigestsAnnotation, JSON (DStrings digests))] else []"
  have sv: "saveRaw tj k w (ConfigMapName isName) st ?a ow = (w', None)"
    using assms(2) by (simp add: SaveWithCatalogDigests_def)
  from saveRaw_ok(1) [OF assms(1) sv] show ?thesis by auto
qed

lemma save_views_format:
  "kube_ok k \<Longrightarrow> save_views tj k ow cds per w None = (w', None) \<Longrightarrow> wf_map per \<Longrightarrow> isName \<in> set (mkeys per) \<Longrightarrow>
     \<exists>c. kget k w' (ConfigMapName isName) = Inr c \<and> mget (cm_Annotations c) FormatAnnotation = Some (Text FormatPerImageSet)"
proof (induction per arbitrary: w)
  case (Cons x per)
  obtain n s where x: "x = (n, s)" by force
  from Cons.prems(2) [unfolded x] obtain w1
    where s: "SaveWithCatalogDigests tj k w n (pointers s) (mget_list cds n) ow = (w1, None)"
      and r: "save_views tj k ow cds per w1 None = (w', None)" by (rule save_views_step)
  show ?case
  proof (cases "n = isName")
    case True
    then have "isName \<notin> set (mkeys per)" using Cons.prems(3) x by simp
    then have "ConfigMapName isName \<notin> ConfigMapName ` set (mkeys per)" by (metis ConfigMapName_inject imageE)
    then have "kget k w' (ConfigMapName isName) = kget k w1 (ConfigMapName isName)"
      by (rule save_views_other [OF Cons.prems(1) r])
    then show ?thesis using SaveWithCatalogDigests_format [OF Cons.prems(1) s] True by simp
  next
    case False
    then show ?thesis using Cons.prems x by (intro Cons.IH [OF _ r]) auto
  qed
qed simp

lemma flush_migrated:
  assumes "kube_ok k" and "flushPartitionedState tj k w mt ow m = (w', m', None)" and "wf_map (mm_imageState m)"
    and "migrated k w (mm_TargetName m)"
  shows "migrated k w' (mm_TargetName m)"
proof -
  let ?n = "mm_TargetName m"
  have name: "ConfigMapNameForTarget ?n = ConfigMapName ?n" by (simp add: ConfigMapNameForTarget_def ConfigMapName_def)
  have apart: "ConfigMapName ?n \<noteq> IndexConfigMapName ?n" "ConfigMapName ?n \<noteq> SummaryConfigMapName ?n"
    using ConfigMap_names_disjoint [of ?n ?n ?n ?n] by simp_all
  show ?thesis
  proof (cases "?n \<in> set (mt_ImageSets mt)")
    case True
    show ?thesis
      using assms(2)
    proof (rule flush_steps)
      fix w1 w2 s
      assume 1: "save_views tj k ow (mm_catalogDigests m) (fst (partition_state mt m)) w None = (w1, None)"
        and 2: "SaveIndex k w1 ?n (snd (partition_state mt m)) ow = (w2, None)"
        and 3: "SaveSummary k w2 ?n s ow = (w', None)"
      have wf: "wf_map (fst (partition_state mt m))" using wf_partition_state [of mt m] by (simp add: wf_partition_def)
      have "?n \<in> set (mkeys (fst (partition_state mt m)))" using True partition_keys [OF assms(3)] by simp
      from save_views_format [OF assms(1) 1 wf this] SaveIndex_ok(2) [OF assms(1) 2] SaveSummary_other [OF assms(1) 3] apart
      show ?thesis by (auto simp: migrated_def name mget_default_def)
    qed
  next
    case False
    then have "ConfigMapName ?n \<notin> ConfigMapName ` set (mt_ImageSets mt)" by auto
    from flush_kept [OF assms(1-3) this apart] assms(4) show ?thesis by (simp add: migrated_def name)
  qed
qed

section \<open>Properties\<close>

text \<open>
  Property C1. A restart loses nothing that was flushed. After a successful flush, by a manager for whose MirrorTarget no ConfigMap of the old consolidated
  format is left to migrate, loading the partitioned state into any manager of the same MirrorTarget gives every ImageSet of the spec exactly the view it had: the
  same destinations, with state, retry count, error, source and the ImageSet's own spec metadata, also for destinations shared by several ImageSets (retry times
  rounded as their JSON form rounds them). The condition is on the cluster before the flush and the flush keeps it; it is needed: a consolidated ConfigMap whose deletion
  failed is migrated again by the restart and overwrites what was flushed (see below).
\<close>

theorem flush_load_roundtrip:
  assumes "kube_ok k" and "wf_map (mm_imageState m)"
    and "migrated k w (mm_TargetName m)" and "flushPartitionedState tj k w mt ow m = (w1, m1, None)"
    and "mm_TargetName fresh = mm_TargetName m"
    and "distinct (map is_Name iss)" and "isName \<in> is_Name ` set iss" and "isName \<in> set (mt_ImageSets mt)"
    and "loadPartitionedState tj k w1 mt ow iss fresh = (w2, m2)"
  shows "mget (filterByImageSet (mm_imageState m2) (mm_owners m2) (mm_ownerMeta m2) isName) d =
    map_option (json_of_entry tj) (mget (filterByImageSet (mm_imageState m) (mm_owners m) (mm_ownerMeta m) isName) d)"
proof -
  have mig: "MigrateConsolidatedToPerImageSet tj k w1 (mm_TargetName fresh) ow = (w1, None)"
    using migrated_nothing_to_do [OF flush_migrated [OF assms(1,4,2,3)]] assms(5) by simp
  let ?view = "\<lambda>n. mget (filterByImageSet (mm_imageState m) (mm_owners m) (mm_ownerMeta m) n) d"
  have ce: "cluster_entry k w1 mt n d = map_option (json_of_entry tj) (?view n)" if "n \<in> set (mt_ImageSets mt)" for n
  proof (rule flush_loads [OF assms(1,4,2) that])
    fix st assume "LoadWithCatalogDigests k w1 n = Inr (st, mget_list (mm_catalogDigests m) n)"
      and "\<And>d. mget st d = map_option (\<lambda>e. Some (json_of_entry tj e))
        (mget (filterByImageSet (mm_imageState m) (mm_owners m) (mm_ownerMeta m) n) d)"
    then show ?thesis using that by (cases "?view n") (simp_all add: cluster_entry_def)
  qed
  have "same_image e e'" if "cluster_entry k w1 mt isName d = Some e" "cluster_entry k w1 mt n' d = Some e'" for n' e e'
  proof -
    have n': "n' \<in> set (mt_ImageSets mt)" using that(2) by (auto simp: cluster_entry_def split: if_splits)
    show ?thesis using that ce [OF assms(8)] ce [OF n']
      by (auto simp: filterByImageSet_lookup [OF assms(2)] same_image_views split: option.splits if_splits)
  qed
  moreover have "wf_map st" if "n \<in> set (mt_ImageSets mt)" "LoadWithCatalogDigests k w1 n = Inr (st, ds)" for n st ds
    using flush_loads [OF assms(1,4,2) that(1)] that(2) by (metis Inr_inject prod.inject)
  ultimately show ?thesis
    using loadPartitionedState_view [OF mig _ assms(6,7) _ assms(9)] ce [OF assms(8)] by metis
qed

definition shared_manager :: mirror_manager where
  "shared_manager = (new_manager
     [(''r/x'', zero_entry\<lparr>State := stateFailed, RetryCount := 3, NextRetryAt := Some 7\<rparr>), (''r/y'', zero_entry\<lparr>State := stateMirrored\<rparr>)]
     [(''r/x'', [''a'', ''b'']), (''r/y'', [''b''])] [])
     \<lparr>mm_ownerMeta := [(''r/x'', [(''a'', specMetaOf (zero_entry\<lparr>EntrySig := ''s1''\<rparr>)), (''b'', specMetaOf (zero_entry\<lparr>EntrySig := ''s2''\<rparr>))])]\<rparr>"

definition shared_target :: mirror_target where
  "shared_target = \<lparr>mt_Name = ''mt'', mt_Registry = ''reg.local'', mt_ImageSets = [''a'', ''b''], mt_Insecure = False, mt_AuthSecret = [],
     mt_Concurrency = 1, mt_BatchSize = 50, mt_PollInterval = None, mt_CheckExistInterval = None, mt_MaxRetries = 10\<rparr>"

abbreviation named_set :: "string \<Rightarrow> image_set" where
  "named_set n \<equiv> sample_image_set\<lparr>is_Name := n\<rparr>"

abbreviation flushed :: "(string, configmap) gomap" where
  "flushed \<equiv> fst (flushPartitionedState (\<lambda>t. t) mem_kube [] shared_target NoOwner shared_manager)"

abbreviation reloaded :: mirror_manager where
  "reloaded \<equiv> snd (loadPartitionedState (\<lambda>t. t) mem_kube flushed shared_target NoOwner [named_set ''a'', named_set ''b''] (new_manager [] [] []))"

theorem flush_load_roundtrip_witness:
  "mget (filterByImageSet (mm_imageState reloaded) (mm_owners reloaded) (mm_ownerMeta reloaded) ''b'') ''r/x'' =
   Some (zero_entry\<lparr>State := stateFailed, RetryCount := 3, NextRetryAt := Some 7, EntrySig := ''s2''\<rparr>)"
proof -
  let ?fl = "flushPartitionedState (\<lambda>t. t) mem_kube [] shared_target NoOwner shared_manager"
  have ok: "snd (snd ?fl) = None" by code_simp
  have fl: "?fl = (fst ?fl, fst (snd ?fl), None)" using ok by (metis prod.collapse)
  have mig: "migrated mem_kube [] (mm_TargetName shared_manager)" by code_simp
  have view: "mget (filterByImageSet (mm_imageState shared_manager) (mm_owners shared_manager) (mm_ownerMeta shared_manager) ''b'') ''r/x'' =
      Some (zero_entry\<lparr>State := stateFailed, RetryCount := 3, NextRetryAt := Some 7, EntrySig := ''s2''\<rparr>)" by code_simp
  have tn: "mm_TargetName (new_manager [] [] []) = mm_TargetName shared_manager" by (simp add: new_manager_def shared_manager_def)
  have wf: "wf_map (mm_imageState shared_manager)" by (simp add: shared_manager_def new_manager_def)
  have names: "mt_ImageSets shared_target = [''a'', ''b'']" by (simp add: shared_target_def)
  have "mget (filterByImageSet (mm_imageState reloaded) (mm_owners reloaded) (mm_ownerMeta reloaded) ''b'') ''r/x'' =
      map_option (json_of_entry (\<lambda>t. t))
        (mget (filterByImageSet (mm_imageState shared_manager) (mm_owners shared_manager) (mm_ownerMeta shared_manager) ''b'') ''r/x'')"
    by (rule flush_load_roundtrip [OF mem_kube_ok wf mig fl tn, where iss = "[named_set ''a'', named_set ''b'']" and ?w2.0 = "fst (loadPartitionedState (\<lambda>t. t) mem_kube flushed shared_target NoOwner
            [named_set ''a'', named_set ''b''] (new_manager [] [] []))"])
      (simp_all add: names)
  then show ?thesis by (simp add: view json_of_entry_def zero_entry_def)
qed

text \<open>
  A consolidated ConfigMap that could not be deleted brings its old states back. The migration at start-up saves the split states and deletes the ConfigMap last; a failed
  deletion is only logged, the manager runs on, and the next start migrates the same ConfigMap again, over the states flushed in between. Here an image that
  was mirrored and whose state was flushed is Failed with its old retry count after the restart.
\<close>

definition leftover_cm :: configmap where
  "leftover_cm = \<lparr>cm_Name = ''mt-images'', cm_Annotations = [],
     cm_BinaryData = [(''images.json.gz'', GzipJSON (DState
       [(''r/y'', Some (zero_entry\<lparr>State := stateFailed, RetryCount := 9\<rparr>,
          [\<lparr>lr_ImageSet = ''b'', lr_Origin = ''operator'', lr_EntrySig = ''s'', lr_OriginRef = ''c''\<rparr>]))]))],
     cm_Data = [], cm_ResourceVersion = 1, cm_Owner = None\<rparr>"

abbreviation flushed_beside_leftover :: "(string, configmap) gomap" where
  "flushed_beside_leftover \<equiv>
     fst (flushPartitionedState (\<lambda>t. t) mem_kube [(''mt-images'', leftover_cm)] shared_target NoOwner shared_manager)"

abbreviation reloaded_beside_leftover :: mirror_manager where
  "reloaded_beside_leftover \<equiv> snd (loadPartitionedState (\<lambda>t. t) mem_kube flushed_beside_leftover shared_target NoOwner
     [named_set ''a'', named_set ''b''] (new_manager [] [] []))"

theorem leftover_overwrites_flushed:
  "map_option State (mget (mm_imageState shared_manager) ''r/y'') = Some stateMirrored \<and>
   snd (snd (flushPartitionedState (\<lambda>t. t) mem_kube [(''mt-images'', leftover_cm)] shared_target NoOwner shared_manager)) = None \<and>
   map_option State (mget (mm_imageState reloaded_beside_leftover) ''r/y'') = Some stateFailed \<and>
   map_option RetryCount (mget (mm_imageState reloaded_beside_leftover) ''r/y'') = Some 9"
  by (intro conjI; code_simp)

text \<open>
  A flush touches only what belongs to the MirrorTarget. It records in the shared-image index exactly the destinations with
  several owners, and it leaves the ConfigMap of every ImageSet that is not in the spec as it is: a removed ImageSet's state, which the
  controller still has to clean up from, is neither written nor re-created.
\<close>

theorem flush_exact:
  assumes "kube_ok k" and "wf_map (mm_imageState m)" and "flushPartitionedState tj k w mt ow m = (w1, m1, None)"
  shows "(\<exists>index. LoadIndex k w1 (mm_TargetName m) = Inr index \<and>
      (\<forall>d. mget index d = (if mget (mm_imageState m) d \<noteq> None \<and> length (mget_list (mm_owners m) d) > 1
                            then mget (mm_owners m) d else None)))
    \<and> (\<forall>n. n \<notin> set (mt_ImageSets mt) \<longrightarrow> kget k w1 (ConfigMapName n) = kget k w (ConfigMapName n))"
proof
  show "\<exists>index. LoadIndex k w1 (mm_TargetName m) = Inr index \<and>
      (\<forall>d. mget index d = (if mget (mm_imageState m) d \<noteq> None \<and> length (mget_list (mm_owners m) d) > 1
                            then mget (mm_owners m) d else None))"
    using assms(3)
  proof (rule flush_steps)
    fix w' w2 s
    assume 2: "SaveIndex k w' (mm_TargetName m) (snd (partition_state mt m)) ow = (w2, None)"
      and 3: "SaveSummary k w2 (mm_TargetName m) s ow = (w1, None)"
    have "IndexConfigMapName (mm_TargetName m) \<noteq> SummaryConfigMapName (mm_TargetName m)"
      using ConfigMap_names_disjoint [of _ "mm_TargetName m" "mm_TargetName m"] by simp
    then have "LoadIndex k w1 (mm_TargetName m) = LoadIndex k w2 (mm_TargetName m)"
      using SaveSummary_other [OF assms(1) 3] by (simp add: LoadIndex_def)
    then have "LoadIndex k w1 (mm_TargetName m) = Inr (snd (partition_state mt m))" using SaveIndex_ok(1) [OF assms(1) 2] by simp
    then show ?thesis using partition_obs [OF assms(2)] by (auto simp: part_obs_def)
  qed
  show "\<forall>n. n \<notin> set (mt_ImageSets mt) \<longrightarrow> kget k w1 (ConfigMapName n) = kget k w (ConfigMapName n)"
    using ConfigMap_names_disjoint [of _ "mm_TargetName m" "mm_TargetName m"]
    by (auto intro!: flush_kept [OF assms(1,3,2)])
qed

theorem flush_exact_witness:
  "\<exists>index. LoadIndex mem_kube flushed ''mt'' = Inr index \<and> mget index ''r/x'' = Some [''a'', ''b''] \<and> mget index ''r/y'' = None"
proof -
  let ?fl = "flushPartitionedState (\<lambda>t. t) mem_kube [] shared_target NoOwner shared_manager"
  have ok: "snd (snd ?fl) = None" by code_simp
  have fl: "?fl = (fst ?fl, fst (snd ?fl), None)" using ok by (metis prod.collapse)
  have "wf_map (mm_imageState shared_manager)" by (simp add: shared_manager_def new_manager_def)
  then show ?thesis using flush_exact [OF mem_kube_ok _ fl] by (auto simp: shared_manager_def new_manager_def)
qed

text \<open>
  A failed load is not distinguished from an empty state. When the ConfigMap of one ImageSet cannot be read or decoded at start-up (with nothing to migrate),
  the manager goes on without its entries; a flush of the manager as it was loaded writes an empty state over that ConfigMap. In a reconcile the ImageSet is resolved first,
  because its view is empty, so its images normally come back as Pending entries, without the progress recorded for them.
\<close>

theorem load_failure_wipes_state:
  assumes "kube_ok k" and "MigrateConsolidatedToPerImageSet tj k w (mm_TargetName m) ow = (w, err)"
    and "\<And>is st ds. is \<in> set iss \<Longrightarrow> is_Name is \<in> set (mt_ImageSets mt) \<Longrightarrow>
      LoadWithCatalogDigests k w (is_Name is) = Inr (st, ds) \<Longrightarrow> wf_map st"
    and "distinct (map is_Name iss)" and "isName \<in> is_Name ` set iss" and "isName \<in> set (mt_ImageSets mt)"
    and "LoadWithCatalogDigests k w isName = Inl e"
    and "loadPartitionedState tj k w mt ow iss m = (w1, m1)"
    and "flushPartitionedState tj k w' mt ow m1 = (w2, m2, None)"
  shows "\<exists>st. LoadWithCatalogDigests k w2 isName = Inr (st, mget_list (mm_catalogDigests m1) isName) \<and> (\<forall>d. mget st d = None)"
proof -
  have none: "cluster_entry k w mt isName d = None" for d using assms(7) by (simp add: cluster_entry_def)
  then have view: "mget (filterByImageSet (mm_imageState m1) (mm_owners m1) (mm_ownerMeta m1) isName) d = None" for d
    using loadPartitionedState_view [OF assms(2-5) _ assms(8), where d = d] by simp
  have "wf_map (mm_imageState m1)"
    using wf_load_image_sets [of "(([], [], []), [])" k w mt iss] assms(2,8)
    by (auto simp: loadPartitionedState_def split: prod.splits)
  from flush_loads [OF assms(1,9) this assms(6)] view show ?thesis by (metis option.map_disc_iff)
qed

definition bad_digests_cm :: configmap where
  "bad_digests_cm = \<lparr>cm_Name = ''a-images'', cm_Annotations = [(FormatAnnotation, Text FormatPerImageSet), (CatalogDigestsAnnotation, Text ''?'')],
     cm_BinaryData = [(''images.json.gz'', GzipJSON (DState [(''r/x'', Some (zero_entry\<lparr>State := stateMirrored\<rparr>, []))]))],
     cm_Data = [], cm_ResourceVersion = 1, cm_Owner = None\<rparr>"

theorem load_failure_wipes_state_witness:
  "\<exists>st ds. LoadWithCatalogDigests mem_kube
     (fst (flushPartitionedState (\<lambda>t. t) mem_kube [(''a-images'', bad_digests_cm)] (shared_target\<lparr>mt_ImageSets := [''a'']\<rparr>) NoOwner
       (snd (loadPartitionedState (\<lambda>t. t) mem_kube [(''a-images'', bad_digests_cm)] (shared_target\<lparr>mt_ImageSets := [''a'']\<rparr>) NoOwner
         [named_set ''a''] (new_manager [] [] []))))) ''a'' = Inr (st, ds) \<and> (\<forall>d. mget st d = None)"
proof -
  let ?w = "[(''a-images'', bad_digests_cm)]"
  let ?mt = "shared_target\<lparr>mt_ImageSets := [''a'']\<rparr>"
  let ?ld = "loadPartitionedState (\<lambda>t. t) mem_kube ?w ?mt NoOwner [named_set ''a''] (new_manager [] [] [])"
  let ?fl = "flushPartitionedState (\<lambda>t. t) mem_kube ?w ?mt NoOwner (snd ?ld)"
  have "snd (snd ?fl) = None" by code_simp
  then have fl: "?fl = (fst ?fl, fst (snd ?fl), None)" by (metis prod.collapse)
  have mig: "MigrateConsolidatedToPerImageSet (\<lambda>t. t) mem_kube ?w ''mt'' NoOwner = (?w, None)" by code_simp
  have err: "LoadWithCatalogDigests mem_kube ?w ''a'' = Inl (DecodeError CatalogDigestsAnnotation)" by code_simp
  have "\<exists>st. LoadWithCatalogDigests mem_kube (fst ?fl) ''a'' = Inr (st, mget_list (mm_catalogDigests (snd ?ld)) ''a'') \<and> (\<forall>d. mget st d = None)"
    by (rule load_failure_wipes_state [OF mem_kube_ok _ _ _ _ _ err _ fl, where m = "new_manager [] [] []" and err = None
          and iss = "[named_set ''a'']" and ?w1.0 = "fst ?ld"])
      (simp_all add: mig err new_manager_def)
  then show ?thesis by blast
qed

text \<open>
  Orphans accumulate until the controller consumes them: after a successful append the pending-orphans ConfigMap holds the new orphans
  and every earlier one.
\<close>

theorem appendOrphans_accumulates:
  assumes "kube_ok k" and "LoadByConfigMapName k w (OrphansConfigMapName (mm_TargetName m)) = Inr old"
    and "wf_map newOrphans" and "appendOrphans tj k w ow newOrphans m = (w', None)"
  shows "\<exists>st. LoadByConfigMapName k w' (OrphansConfigMapName (mm_TargetName m)) = Inr st \<and>
    (\<forall>d. mget st d = (case mget newOrphans d of Some e \<Rightarrow> Some (Some (json_of_entry tj e))
                       | None \<Rightarrow> map_option (map_option (json_of_entry tj)) (mget old d)))"
proof -
  let ?all = "fold (\<lambda>(dest, entry). mput dest (Some entry)) newOrphans old"
  have put: "mget (fold (\<lambda>(dest, entry). mput dest (Some entry)) xs ys) d =
      (case mget xs d of Some e \<Rightarrow> Some (Some e) | None \<Rightarrow> mget ys d)" if "wf_map xs" for xs ys d
    using that
  proof (induction xs arbitrary: ys)
    case (Cons x xs)
    obtain a b where x: "x = (a, b)" by force
    then have "mget xs a = None" using Cons.prems by (simp add: mget_None_iff)
    then show ?case using Cons x by (cases "a = d") (simp_all split: option.split)
  qed simp
  have "saveRaw tj k w (OrphansConfigMapName (mm_TargetName m)) ?all [] ow = (w', None)"
    using assms(2,4) by (simp add: appendOrphans_def SaveRaw_def Let_def)
  from saveRaw_ok(1) [OF assms(1) this]
  have "LoadByConfigMapName k w' (OrphansConfigMapName (mm_TargetName m)) = Inr (reload tj ?all)"
    by (auto simp: LoadByConfigMapName_def)
  moreover have "mget (reload tj ?all) d = (case mget newOrphans d of Some e \<Rightarrow> Some (Some (json_of_entry tj e))
      | None \<Rightarrow> map_option (map_option (json_of_entry tj)) (mget old d))" for d
    by (simp add: reload_def mget_map_snd [where f = "\<lambda>_. map_option (json_of_entry tj)"] put [OF assms(3)] split: option.split)
  ultimately show ?thesis by blast
qed

theorem appendOrphans_accumulates_witness:
  "\<exists>st. LoadByConfigMapName mem_kube (fst (appendOrphans (\<lambda>t. t) mem_kube [] NoOwner [(''r/x'', zero_entry)] shared_manager)) ''mt-images-orphans'' = Inr st
     \<and> mget st ''r/x'' = Some (Some zero_entry)"
proof -
  let ?a = "appendOrphans (\<lambda>t. t) mem_kube [] NoOwner [(''r/x'', zero_entry)] shared_manager"
  have "snd ?a = None" by code_simp
  then have a: "?a = (fst ?a, None)" by (metis prod.collapse)
  have n: "OrphansConfigMapName (mm_TargetName shared_manager) = ''mt-images-orphans''" by code_simp
  have old: "LoadByConfigMapName mem_kube [] (OrphansConfigMapName (mm_TargetName shared_manager)) = Inr []" by code_simp
  show ?thesis using appendOrphans_accumulates [OF mem_kube_ok old _ a] unfolding n
    by (auto simp: json_of_entry_def zero_entry_def)
qed

end
