(* ===== verification/Status.thy ===== *)
theory Status
  imports Lifecycle
begin

text \<open>
  The status an ImageSet is given at the end of a tick: \<open>updateImageSetStatusLocked\<close> and \<open>setReadyCondition\<close>
  (\<open>pkg/mirror/manager/manager.go\<close>). One attempt of the update is modelled, as a function of the
  ImageSet just read; repeating it after a write conflict runs the same function on the newer object.
\<close>

section \<open>Conditions\<close>

datatype condition_status = ConditionTrue | ConditionFalse | ConditionUnknown

record condition =
  cd_Type :: string
  cd_Status :: condition_status
  cd_Reason :: string
  cd_Message :: string
  cd_ObservedGeneration :: int
  cd_LastTransitionTime :: int

abbreviation conditionReady :: string where
  "conditionReady \<equiv> ''Ready''"

fun setReadyCondition :: "int \<Rightarrow> condition list \<Rightarrow> condition_status \<Rightarrow> string \<Rightarrow> string \<Rightarrow> int \<Rightarrow> condition list" where
  "setReadyCondition now [] status reason message gen =
     [\<lparr>cd_Type = conditionReady, cd_Status = status, cd_Reason = reason, cd_Message = message,
       cd_ObservedGeneration = gen, cd_LastTransitionTime = now\<rparr>]"
| "setReadyCondition now (c # cs) status reason message gen =
     (if cd_Type c \<noteq> conditionReady then c # setReadyCondition now cs status reason message gen
      else if cd_Status c \<noteq> status \<or> cd_Reason c \<noteq> reason \<or> cd_Message c \<noteq> message \<or> cd_ObservedGeneration c \<noteq> gen then
        c\<lparr>cd_Status := status, cd_Reason := reason, cd_Message := message, cd_ObservedGeneration := gen,
          cd_LastTransitionTime := now\<rparr> # cs
      else c # cs)"

section \<open>The status of an ImageSet\<close>

record failed_detail =
  fd_Source :: string
  fd_Destination :: string
  fd_Error :: string
  fd_Origin :: string

record image_set_status =
  ss_Conditions :: "condition list"
  ss_TotalImages :: int
  ss_MirroredImages :: int
  ss_PendingImages :: int
  ss_FailedImages :: int
  ss_ObservedGeneration :: int
  ss_LastSuccessfulPollTime :: "int option"
  ss_FailedImageDetails :: "failed_detail list"

abbreviation maxFailedImageDetails :: nat where
  "maxFailedImageDetails \<equiv> 20"

definition detail_of :: "string \<times> image_entry \<Rightarrow> failed_detail" where
  "detail_of de = (case de of (dest, entry) \<Rightarrow>
     \<lparr>fd_Source = Source entry, fd_Destination = dest, fd_Error = LastError entry, fd_Origin = OriginRef entry\<rparr>)"

definition failed_details :: "image_state \<Rightarrow> failed_detail list" where
  "failed_details isView =
     sort_key fd_Destination (map detail_of (filter (\<lambda>(dest, entry). PermanentlyFailed entry \<and> State entry \<noteq> stateMirrored) isView))"

text \<open>The dash of the message in UTF-8.\<close>

definition em_dash :: string where
  "em_dash = map char_of [226, 128, 148 :: nat]"

definition ready_message :: "int \<times> int \<times> int \<times> int \<Rightarrow> failed_detail list \<Rightarrow> string" where
  "ready_message counts allDetails = (case counts of (tot, mirrored, pending, failed) \<Rightarrow>
     let totalFailed = length allDetails;
         details = take maxFailedImageDetails allDetails;
         msg = ''Collected '' @ Itoa tot @ '' images ('' @ Itoa mirrored @ '' mirrored, '' @ Itoa pending @ '' pending, '' @ Itoa failed @ '' failed)'';
         msg1 = (if totalFailed > maxFailedImageDetails
                 then msg @ '' '' @ em_dash @ '' showing '' @ Itoa (int maxFailedImageDetails) @ '' of '' @ Itoa (int totalFailed) @ '' permanently failed images''
                 else msg);
         msg2 = (case details of
                   d # _ \<Rightarrow> if fd_Error d \<noteq> [] then msg1 @ ''; first failure: '' @ fd_Error d else msg1
                 | [] \<Rightarrow> msg1)
     in if tot = 0 then ''no images resolved yet'' else msg2)"

definition updateImageSetStatusLocked ::
  "int \<Rightarrow> int \<Rightarrow> image_state \<Rightarrow> bool \<Rightarrow> image_set_status \<Rightarrow> image_set_status" where
  "updateImageSetStatusLocked now generation isView justResolved latest =
     (case Counts isView of (tot, mirrored, pending, failed) \<Rightarrow>
        let st1 = latest\<lparr>ss_TotalImages := tot, ss_MirroredImages := mirrored, ss_PendingImages := pending, ss_FailedImages := failed\<rparr>;
            st2 = (if justResolved then st1\<lparr>ss_ObservedGeneration := generation, ss_LastSuccessfulPollTime := Some now\<rparr> else st1);
            allDetails = failed_details isView;
            st3 = st2\<lparr>ss_FailedImageDetails := take maxFailedImageDetails allDetails\<rparr>;
            status = (if tot = 0 then ConditionFalse else ConditionTrue);
            reason = (if tot = 0 then ''Empty'' else ''Collected'')
        in st3\<lparr>ss_Conditions := setReadyCondition now (ss_Conditions st3) status reason
                 (ready_message (tot, mirrored, pending, failed) allDetails) generation\<rparr>)"

section \<open>Facts\<close>

lemma setReadyCondition_others:
  "filter (\<lambda>c. cd_Type c \<noteq> conditionReady) (setReadyCondition now cs s r msg g) = filter (\<lambda>c. cd_Type c \<noteq> conditionReady) cs"
  by (induction cs) auto

lemma setReadyCondition_find:
  "\<exists>t. find (\<lambda>c. cd_Type c = conditionReady) (setReadyCondition now cs s r msg g) =
     Some \<lparr>cd_Type = conditionReady, cd_Status = s, cd_Reason = r, cd_Message = msg, cd_ObservedGeneration = g, cd_LastTransitionTime = t\<rparr>
   \<and> (t = now \<or> find (\<lambda>c. cd_Type c = conditionReady) cs =
       Some \<lparr>cd_Type = conditionReady, cd_Status = s, cd_Reason = r, cd_Message = msg, cd_ObservedGeneration = g, cd_LastTransitionTime = t\<rparr>)"
proof (induction cs)
  case (Cons c cs)
  then show ?case by (cases c) auto
qed auto

lemma setReadyCondition_idem:
  "setReadyCondition now' (setReadyCondition now cs s r msg g) s r msg g = setReadyCondition now cs s r msg g"
  by (induction cs) auto

lemma fd_Destination_detail_of [simp]: "fd_Destination (detail_of de) = fst de"
  by (simp add: detail_of_def split: prod.split)

lemma failed_details_set:
  assumes "wf_map isView"
  shows "x \<in> set (failed_details isView) \<longleftrightarrow>
    (\<exists>d e. mget isView d = Some e \<and> PermanentlyFailed e \<and> State e \<noteq> stateMirrored \<and> x = detail_of (d, e))"
  using assms by (auto simp: failed_details_def image_iff dest: mget_in_wf mget_Some_in)

lemma failed_details_strict:
  assumes "wf_map isView"
  shows "sorted_wrt (<) (map fd_Destination (failed_details isView))"
proof -
  let ?xs = "filter (\<lambda>(dest, entry). PermanentlyFailed entry \<and> State entry \<noteq> stateMirrored) isView"
  have keys: "map fd_Destination (map detail_of ?xs) = mkeys ?xs" by simp
  have d: "distinct (map fd_Destination (map detail_of ?xs))"
    unfolding keys using wf_map_filter [OF assms] by (simp only: wf_map_def)
  have "mset (map fd_Destination (failed_details isView)) = mset (map fd_Destination (map detail_of ?xs))"
    unfolding failed_details_def mset_map mset_sort by (rule refl)
  then have "distinct (map fd_Destination (failed_details isView))" using d mset_eq_imp_distinct_iff by blast
  moreover have "sorted (map fd_Destination (failed_details isView))" by (simp add: failed_details_def)
  ultimately show ?thesis by (simp only: strict_sorted_iff simp_thms)
qed

lemma failed_count:
  assumes "Counts isView = (tot, mirrored, pending, failed)"
  shows "failed = int (length (failed_details isView))" and "tot = int (length isView)"
proof -
  have "length (filter (\<lambda>(d, e). State e \<noteq> stateMirrored \<and> PermanentlyFailed e) isView) = length (failed_details isView)"
    by (simp add: failed_details_def conj_commute)
  then show "failed = int (length (failed_details isView))" and "tot = int (length isView)"
    using assms by (auto simp: Counts_def count_entries_acc)
qed

section \<open>Properties\<close>

text \<open>
  The counts and failure details of an ImageSet's status. The counts are those of its own view; the observed generation and the poll time
  advance exactly when a resolve without errors was done in the same tick; the listed failures are images that are permanently failed and not mirrored,
  the first 20 in strictly ascending order of destination, all of them when the failed count says at most 20.
\<close>

theorem image_set_status_details:
  assumes "wf_map isView"
  shows "let st = updateImageSetStatusLocked now gen isView justResolved latest
    in (ss_TotalImages st, ss_MirroredImages st, ss_PendingImages st, ss_FailedImages st) = Counts isView
    \<and> ss_ObservedGeneration st = (if justResolved then gen else ss_ObservedGeneration latest)
    \<and> ss_LastSuccessfulPollTime st = (if justResolved then Some now else ss_LastSuccessfulPollTime latest)
    \<and> int (length (ss_FailedImageDetails st)) = min 20 (ss_FailedImages st)
    \<and> sorted_wrt (<) (map fd_Destination (ss_FailedImageDetails st))
    \<and> (\<forall>x \<in> set (ss_FailedImageDetails st). \<exists>d e. mget isView d = Some e \<and> PermanentlyFailed e \<and> State e \<noteq> stateMirrored \<and> x = detail_of (d, e))
    \<and> (\<forall>d e. ss_FailedImages st \<le> 20 \<and> mget isView d = Some e \<and> PermanentlyFailed e \<and> State e \<noteq> stateMirrored \<longrightarrow>
         detail_of (d, e) \<in> set (ss_FailedImageDetails st))"
proof -
  let ?st = "updateImageSetStatusLocked now gen isView justResolved latest"
  obtain tot mirrored pending failed where c: "Counts isView = (tot, mirrored, pending, failed)" by (metis prod.collapse)
  have d: "ss_FailedImageDetails ?st = take 20 (failed_details isView)"
    and n: "ss_FailedImages ?st = int (length (failed_details isView))"
    using c failed_count(1) [OF c] by (simp_all add: updateImageSetStatusLocked_def Let_def)
  have counts: "(ss_TotalImages ?st, ss_MirroredImages ?st, ss_PendingImages ?st, ss_FailedImages ?st) = Counts isView"
    and gen: "ss_ObservedGeneration ?st = (if justResolved then gen else ss_ObservedGeneration latest)"
    and poll: "ss_LastSuccessfulPollTime ?st = (if justResolved then Some now else ss_LastSuccessfulPollTime latest)"
    using c by (simp_all add: updateImageSetStatusLocked_def Let_def)
  have len: "int (length (ss_FailedImageDetails ?st)) = min 20 (ss_FailedImages ?st)" unfolding d n by simp
  have srt: "sorted_wrt (<) (map fd_Destination (ss_FailedImageDetails ?st))"
    unfolding d using failed_details_strict [OF assms] by (simp add: take_map [symmetric] sorted_wrt_take)
  have sound: "\<exists>d e. mget isView d = Some e \<and> PermanentlyFailed e \<and> State e \<noteq> stateMirrored \<and> x = detail_of (d, e)"
    if "x \<in> set (ss_FailedImageDetails ?st)" for x
    using that failed_details_set [OF assms] set_take_subset unfolding d by fastforce
  have compl: "detail_of (dd, e) \<in> set (ss_FailedImageDetails ?st)"
    if "ss_FailedImages ?st \<le> 20" "mget isView dd = Some e" "PermanentlyFailed e" "State e \<noteq> stateMirrored" for dd e
    using that failed_details_set [OF assms] unfolding d n by auto
  show ?thesis unfolding Let_def using counts gen poll len srt sound compl by blast
qed

definition failing_view :: image_state where
  "failing_view = [(''r/b'', zero_entry\<lparr>State := stateFailed, PermanentlyFailed := True, LastError := ''denied''\<rparr>),
     (''r/a'', zero_entry\<lparr>State := statePending, PermanentlyFailed := True\<rparr>), (''r/c'', zero_entry\<lparr>State := stateMirrored\<rparr>)]"

definition empty_status :: image_set_status where
  "empty_status = \<lparr>ss_Conditions = [], ss_TotalImages = 0, ss_MirroredImages = 0, ss_PendingImages = 0, ss_FailedImages = 0,
     ss_ObservedGeneration = 0, ss_LastSuccessfulPollTime = None, ss_FailedImageDetails = []\<rparr>"

theorem image_set_status_details_witness:
  "int (length (ss_FailedImageDetails (updateImageSetStatusLocked 5 1 failing_view True empty_status))) = 2"
proof -
  have "ss_FailedImages (updateImageSetStatusLocked 5 1 failing_view True empty_status) = 2" by code_simp
  moreover have "wf_map failing_view" by (simp add: failing_view_def)
  ultimately show ?thesis using image_set_status_details [of failing_view 5 1 True empty_status] by (simp add: Let_def)
qed

text \<open>
  The Ready condition of an ImageSet's status: it is for the current generation, True exactly when the view is not empty; conditions of other
  types are kept in place; and writing an unchanged status again leaves the conditions, and so the transition time, as they are.
\<close>

theorem image_set_status_ready:
  "let st = updateImageSetStatusLocked now gen isView justResolved latest
    in (\<exists>c. find (\<lambda>c. cd_Type c = conditionReady) (ss_Conditions st) = Some c \<and> cd_ObservedGeneration c = gen \<and>
          cd_Status c = (if isView = [] then ConditionFalse else ConditionTrue))
    \<and> filter (\<lambda>c. cd_Type c \<noteq> conditionReady) (ss_Conditions st) = filter (\<lambda>c. cd_Type c \<noteq> conditionReady) (ss_Conditions latest)
    \<and> ss_Conditions (updateImageSetStatusLocked now' gen isView justResolved' st) = ss_Conditions st"
proof -
  let ?st = "updateImageSetStatusLocked now gen isView justResolved latest"
  obtain tot mirrored pending failed where c: "Counts isView = (tot, mirrored, pending, failed)" by (metis prod.collapse)
  have tot: "tot = 0 \<longleftrightarrow> isView = []" using failed_count(2) [OF c] by simp
  have conds: "ss_Conditions (updateImageSetStatusLocked nw gen isView jr l) =
      setReadyCondition nw (ss_Conditions l) (if tot = 0 then ConditionFalse else ConditionTrue) (if tot = 0 then ''Empty'' else ''Collected'')
        (ready_message (tot, mirrored, pending, failed) (failed_details isView)) gen" for nw jr l
    using c by (simp add: updateImageSetStatusLocked_def Let_def)
  have "\<exists>c. find (\<lambda>c. cd_Type c = conditionReady) (ss_Conditions ?st) = Some c \<and> cd_ObservedGeneration c = gen \<and>
      cd_Status c = (if isView = [] then ConditionFalse else ConditionTrue)"
    unfolding conds using setReadyCondition_find [where now = now and g = gen] tot by fastforce
  then show ?thesis unfolding Let_def
    by (intro conjI) (simp_all only: conds setReadyCondition_others setReadyCondition_idem)
qed

end
