(* ===== verification/Chart.thy ===== *)
theory Chart
  imports HelmSource
begin

text \<open>
  Mirroring of Helm chart archives: the destination names and the push of package \<open>chartmirror\<close>
  (\<open>pkg/mirror/chartmirror/pusher.go\<close>) and \<open>MirrorChart\<close> of the worker (\<open>pkg/mirror/worker/chart.go\<close>).
  Errors are constructors of \<open>chart_error\<close>; the registry client, the digest of a byte string, the chart
  repository and the archive loader are parameters.
\<close>

section \<open>Destinations\<close>

abbreviation chartRepoPrefix :: string where
  "chartRepoPrefix \<equiv> ''charts''"

definition ChartDestination :: "string \<Rightarrow> string \<Rightarrow> string \<Rightarrow> string \<Rightarrow> string" where
  "ChartDestination registry repoName chartName chartVersion =
     registry @ ''/'' @ chartRepoPrefix @ ''/'' @ repoName @ ''/'' @ chartName @ '':'' @ chartVersion"

datatype 'e chart_error =
    NoChartVersion string
  | InvalidDestination string
  | NoClient string
  | NameVersionRequired string string
  | RepoRequired string
  | RegistryRequired string
  | RefError string 'e
  | PushLayer string 'e
  | PushConfig string 'e
  | CreateManifest string 'e
  | PushManifest string 'e
  | InvalidSource string
  | DownloadError string string 'e
  | WrongVersion string string string string
  | InvalidArchive string string 'e

text \<open>The body of the loop over the segments, at index \<open>idx\<close>.\<close>

definition chart_segment :: "string \<Rightarrow> string \<Rightarrow> string list \<Rightarrow> nat \<Rightarrow> (string \<times> string \<times> string \<times> string) option" where
  "chart_segment dest version parts idx =
     (if parts ! idx \<noteq> chartRepoPrefix then None
      else
        (let registry = str_join ''/'' (take idx parts); repoName = parts ! (idx + 1); chartName = parts ! (idx + 2)
         in if ChartDestination registry repoName chartName version = dest
            then Some (registry, repoName, chartName, version) else None))"

definition ParseChartDestination :: "string \<Rightarrow> 'e chart_error + string \<times> string \<times> string \<times> string" where
  "ParseChartDestination dest =
     (let (rest, chartVersion) =
            (case last_index dest '':'' of
               Some i \<Rightarrow> if \<not> contains (drop (i + 1) dest) ''/'' then (take i dest, drop (i + 1) dest) else (dest, [])
             | None \<Rightarrow> (dest, []))
      in if chartVersion = [] then Inl (NoChartVersion dest)
         else
           (let parts = split_char (CHR ''/'') rest
            in case List.map_filter (chart_segment dest chartVersion parts) [1..<length parts - 2] of
                 r # _ \<Rightarrow> Inr r
               | [] \<Rightarrow> Inl (InvalidDestination dest)))"

section \<open>The push\<close>

record descriptor =
  ds_MediaType :: string
  ds_Digest :: string
  ds_Size :: nat

record oci_manifest =
  om_MediaType :: string
  om_Config :: descriptor
  om_Layers :: "descriptor list"

text \<open>
  The registry client: parsing a reference, \<open>BlobPut\<close>, \<open>manifest.New\<close> and \<open>ManifestPut\<close>. \<^const>\<open>None\<close> is success.
\<close>

record ('w, 'e) oci_client =
  oc_ref :: "string \<Rightarrow> 'e + string"
  oc_blob :: "'w \<Rightarrow> string \<Rightarrow> descriptor \<Rightarrow> string \<Rightarrow> 'w \<times> 'e option"
  oc_new :: "oci_manifest \<Rightarrow> 'e option"
  oc_manifest :: "'w \<Rightarrow> string \<Rightarrow> oci_manifest \<Rightarrow> 'w \<times> 'e option"

abbreviation ChartLayerMediaType :: string where
  "ChartLayerMediaType \<equiv> ''application/vnd.cncf.helm.chart.content.v1.tar+gzip''"

abbreviation chartConfigMediaType :: string where
  "chartConfigMediaType \<equiv> ''application/vnd.cncf.helm.config.v1+json''"

definition descriptor_of :: "(string \<Rightarrow> string) \<Rightarrow> string \<Rightarrow> string \<Rightarrow> descriptor" where
  "descriptor_of digest mt bytes = \<lparr>ds_MediaType = mt, ds_Digest = digest bytes, ds_Size = length bytes\<rparr>"

definition PushChart ::
  "(string \<Rightarrow> string) \<Rightarrow> ('w, 'e) oci_client option \<Rightarrow> 'w \<Rightarrow> string \<Rightarrow> string \<Rightarrow> string \<Rightarrow> string \<Rightarrow> string
    \<Rightarrow> 'w \<times> ('e chart_error + string)" where
  "PushChart digest client w registry repoName chartName chartVersion archive =
     (case client of
        None \<Rightarrow> (w, Inl (NoClient chartName))
      | Some c \<Rightarrow>
          if chartName = [] \<or> chartVersion = [] then (w, Inl (NameVersionRequired chartName chartVersion))
          else if repoName = [] then (w, Inl (RepoRequired chartName))
          else if registry = [] then (w, Inl (RegistryRequired chartName))
          else
            (let dest = registry @ ''/'' @ chartRepoPrefix @ ''/'' @ repoName @ ''/'' @ chartName @ '':'' @ chartVersion
             in case oc_ref c dest of
                  Inl e \<Rightarrow> (w, Inl (RefError dest e))
                | Inr destRef \<Rightarrow>
                    (let layerDesc = descriptor_of digest ChartLayerMediaType archive
                     in case oc_blob c w destRef layerDesc archive of
                          (w1, Some e) \<Rightarrow> (w1, Inl (PushLayer dest e))
                        | (w1, None) \<Rightarrow>
                            (let cfgDesc = descriptor_of digest chartConfigMediaType ''{}''
                             in case oc_blob c w1 destRef cfgDesc ''{}'' of
                                  (w2, Some e) \<Rightarrow> (w2, Inl (PushConfig dest e))
                                | (w2, None) \<Rightarrow>
                                    (let m = \<lparr>om_MediaType = ''application/vnd.oci.image.manifest.v1+json'', om_Config = cfgDesc, om_Layers = [layerDesc]\<rparr>
                                     in case oc_new c m of
                                          Some e \<Rightarrow> (w2, Inl (CreateManifest dest e))
                                        | None \<Rightarrow>
                                            (case oc_manifest c w2 destRef m of
                                               (w3, Some e) \<Rightarrow> (w3, Inl (PushManifest dest e))
                                             | (w3, None) \<Rightarrow> (w3, Inr dest)))))))"

section \<open>The worker's chart mirror\<close>

text \<open>
  \<open>download\<close> is \<open>DownloadChartArchive\<close>: the archive and the version the repository resolved it to.
  \<open>loadArchive\<close> is the check that the bytes are a chart, \<^const>\<open>None\<close> if they are.
\<close>

definition MirrorChart ::
  "(string \<Rightarrow> string) \<Rightarrow> ('w, 'e) oci_client option \<Rightarrow> ('w \<Rightarrow> string \<Rightarrow> string \<Rightarrow> string \<Rightarrow> 'e + string \<times> string) \<Rightarrow> (string \<Rightarrow> 'e option)
    \<Rightarrow> 'w \<Rightarrow> string \<Rightarrow> string \<Rightarrow> 'w \<times> ('e chart_error + string)" where
  "MirrorChart digest client download loadArchive w source dest =
     (case ParseHelmChartSource source of
        None \<Rightarrow> (w, Inl (InvalidSource source))
      | Some (repoURL, chartName, version) \<Rightarrow>
          (case download w repoURL chartName version of
             Inl e \<Rightarrow> (w, Inl (DownloadError repoURL chartName e))
           | Inr (archive, resolvedVersion) \<Rightarrow>
               if resolvedVersion \<noteq> version then (w, Inl (WrongVersion repoURL chartName resolvedVersion version))
               else (case loadArchive archive of
                       Some e \<Rightarrow> (w, Inl (InvalidArchive repoURL chartName e))
                     | None \<Rightarrow>
                         (case ParseChartDestination dest of
                            Inl e \<Rightarrow> (w, Inl e)
                          | Inr (registry, repoName, chart, chartVersion) \<Rightarrow>
                              PushChart digest client w registry repoName chart chartVersion archive))))"

section \<open>Facts\<close>

lemma split_join_append:
  assumes "\<And>w. w \<in> set ws \<Longrightarrow> sep \<notin> set w"
  shows "split_char sep (r @ concat (map (\<lambda>w. sep # w) ws)) = split_char sep r @ ws"
  using assms
proof (induction ws arbitrary: r)
  case (Cons w ws)
  have snoc: "split_char sep (a @ sep # b) = split_char sep a @ split_char sep b" for a b
  proof (induction a)
    case (Cons c a)
    then show ?case by (auto split: list.split)
  qed simp
  have "split_char sep (w @ concat (map (\<lambda>w. sep # w) ws)) = w # ws"
    using Cons.IH [of w] Cons.prems by (simp add: split_char_notin)
  then show ?case by (simp add: snoc)
qed simp

lemma join_split: "str_join [sep] (split_char sep s) = s"
proof (induction s)
  case (Cons c s)
  then show ?case by (cases "split_char sep s"; cases "tl (split_char sep s)") auto
qed simp

lemma chart_segments:
  assumes "CHR ''/'' \<notin> set repoName" and "CHR ''/'' \<notin> set chartName"
  shows "split_char (CHR ''/'') (registry @ ''/charts/'' @ repoName @ ''/'' @ chartName) =
    split_char (CHR ''/'') registry @ [''charts'', repoName, chartName]"
proof -
  have "split_char (CHR ''/'') (registry @ concat (map (\<lambda>w. CHR ''/'' # w) [''charts'', repoName, chartName])) =
      split_char (CHR ''/'') registry @ [''charts'', repoName, chartName]"
    using assms by (intro split_join_append) auto
  then show ?thesis by simp
qed

lemma split_char_segment: "w \<in> set (split_char sep s) \<Longrightarrow> sep \<notin> set w"
proof (induction s arbitrary: w)
  case (Cons c s)
  then show ?case by (cases "split_char sep s") (auto split: if_splits)
qed simp

lemma ChartDestination_inject:
  assumes "ChartDestination r n c v = ChartDestination r' n' c' v"
    and "CHR ''/'' \<notin> set n" and "CHR ''/'' \<notin> set c" and "CHR ''/'' \<notin> set n'" and "CHR ''/'' \<notin> set c'"
  shows "r = r' \<and> n = n' \<and> c = c'"
proof -
  have "r @ ''/charts/'' @ n @ ''/'' @ c = r' @ ''/charts/'' @ n' @ ''/'' @ c'"
    using assms(1) by (simp add: ChartDestination_def)
  then have "split_char (CHR ''/'') r @ [''charts'', n, c] = split_char (CHR ''/'') r' @ [''charts'', n', c']"
    by (simp only: chart_segments [OF assms(2,3), symmetric] chart_segments [OF assms(4,5), symmetric])
  then have "split_char (CHR ''/'') r = split_char (CHR ''/'') r'" and nc: "n = n' \<and> c = c'" by simp_all
  then have "str_join ''/'' (split_char (CHR ''/'') r) = str_join ''/'' (split_char (CHR ''/'') r')" by (simp only:)
  then show ?thesis using nc by (simp only: join_split simp_thms)
qed

lemma in_map_filter: "x \<in> set (List.map_filter f xs) \<longleftrightarrow> (\<exists>y \<in> set xs. f y = Some x)"
  by (force simp: List.map_filter_def)

lemma chart_segment_Some:
  assumes "chart_segment dest v parts i = Some x"
  shows "\<exists>r. x = (r, parts ! (i + 1), parts ! (i + 2), v) \<and> ChartDestination r (parts ! (i + 1)) (parts ! (i + 2)) v = dest"
  using assms by (auto simp: chart_segment_def Let_def split: if_splits)

lemma PushChart_ok:
  assumes "PushChart digest (Some c) w registry repoName chartName version archive = (w', Inr pushed)"
  shows "pushed = ChartDestination registry repoName chartName version"
    and "\<exists>w1 w2 r m. oc_ref c pushed = Inr r \<and> oc_blob c w r (descriptor_of digest ChartLayerMediaType archive) archive = (w1, None) \<and>
      om_Layers m = [descriptor_of digest ChartLayerMediaType archive] \<and> oc_manifest c w2 r m = (w', None)"
proof -
  let ?d = "registry @ ''/'' @ chartRepoPrefix @ ''/'' @ repoName @ ''/'' @ chartName @ '':'' @ version"
  let ?layer = "descriptor_of digest ChartLayerMediaType archive"
  let ?cfg = "descriptor_of digest chartConfigMediaType ''{}''"
  let ?m = "\<lparr>om_MediaType = ''application/vnd.oci.image.manifest.v1+json'', om_Config = ?cfg, om_Layers = [?layer]\<rparr>"
  have name: "\<not> (chartName = [] \<or> version = [])"
  proof
    assume "chartName = [] \<or> version = []"
    then show False using assms by (simp only: PushChart_def option.case if_True prod.inject sum.distinct simp_thms)
  qed
  have repo: "repoName \<noteq> []"
  proof
    assume "repoName = []"
    then show False using assms name by (simp only: PushChart_def option.case if_True if_False prod.inject sum.distinct simp_thms)
  qed
  have reg: "registry \<noteq> []"
  proof
    assume "registry = []"
    then show False using assms name repo by (simp only: PushChart_def option.case if_True if_False prod.inject sum.distinct simp_thms)
  qed
  note args = name repo reg
  note p = assms [unfolded PushChart_def option.case if_not_P [OF args(1)] if_not_P [OF args(2)] if_not_P [OF args(3)] Let_def]
  obtain r where r: "oc_ref c ?d = Inr r" using p by (cases "oc_ref c ?d") auto
  obtain w1 where w1: "oc_blob c w r ?layer archive = (w1, None)"
    using p [unfolded r sum.case] by (auto split: prod.splits option.splits)
  obtain w2 where w2: "oc_blob c w1 r ?cfg ''{}'' = (w2, None)"
    using p [unfolded r sum.case w1 prod.case option.case] by (auto split: prod.splits option.splits)
  have new: "oc_new c ?m = None"
    using p [unfolded r sum.case w1 prod.case option.case w2] by (auto split: option.splits)
  have "oc_manifest c w2 r ?m = (w', None) \<and> pushed = ?d"
    using p [unfolded r sum.case w1 prod.case option.case w2 new] by (auto split: prod.splits option.splits)
  then show "pushed = ChartDestination registry repoName chartName version"
    and "\<exists>w1 w2 r m. oc_ref c pushed = Inr r \<and> oc_blob c w r ?layer archive = (w1, None) \<and>
      om_Layers m = [?layer] \<and> oc_manifest c w2 r m = (w', None)"
    using r w1 by (auto simp: ChartDestination_def intro!: exI [of _ ?m])
qed

lemma ParseChartDestination_at:
  assumes "last_index dest '':'' = Some i" and "drop (i + 1) dest = v" and "take i dest = rest" and "v \<noteq> []" and "CHR ''/'' \<notin> set v"
    and "List.map_filter (chart_segment dest v (split_char (CHR ''/'') rest)) [1..<length (split_char (CHR ''/'') rest) - 2] = r # rs"
  shows "ParseChartDestination dest = Inr r"
  using assms by (simp add: ParseChartDestination_def)

lemma cut_at: "drop (length a + 1) (a @ c # b) = b" "take (length a) (a @ c # b) = a"
  by simp_all

lemma ParseChartDestination_sound:
  assumes "ParseChartDestination dest = Inr (r, n, c, v)"
  shows "ChartDestination r n c v = dest"
proof -
  obtain ver parts idxs xs where "List.map_filter (chart_segment dest ver parts) idxs = (r, n, c, v) # xs"
    using assms by (auto simp: ParseChartDestination_def Let_def split: option.splits if_splits list.splits)
  then have "(r, n, c, v) \<in> set (List.map_filter (chart_segment dest ver parts) idxs)" by simp
  then show ?thesis unfolding in_map_filter by (auto simp: chart_segment_def Let_def split: if_splits)
qed

section \<open>Properties\<close>

text \<open>
  A chart destination is parsed back to what it was built from, also when the registry has a port or a path prefix, even one with
  a \<open>charts\<close> segment of its own: for repository and chart names without a slash and a version without slash and colon, parsing
  \<open>ChartDestination\<close> returns exactly its arguments.
\<close>

theorem ParseChartDestination_ChartDestination:
  assumes "CHR ''/'' \<notin> set repoName" and "CHR ''/'' \<notin> set chartName"
    and "version \<noteq> []" and "CHR ''/'' \<notin> set version" and "CHR '':'' \<notin> set version"
  shows "ParseChartDestination (ChartDestination registry repoName chartName version) = Inr (registry, repoName, chartName, version)"
proof -
  let ?dest = "ChartDestination registry repoName chartName version"
  let ?rest = "registry @ ''/charts/'' @ repoName @ ''/'' @ chartName"
  let ?parts = "split_char (CHR ''/'') ?rest"
  let ?p = "length (split_char (CHR ''/'') registry)"
  have dest: "?dest = ?rest @ CHR '':'' # version" by (simp add: ChartDestination_def)
  have idx: "last_index ?dest '':'' = Some (length ?rest)" unfolding dest by (rule last_index_char [OF assms(5)])
  have cut: "drop (length ?rest + 1) ?dest = version" "take (length ?rest) ?dest = ?rest" unfolding dest by (rule cut_at)+
  have parts: "?parts = split_char (CHR ''/'') registry @ [''charts'', repoName, chartName]" by (rule chart_segments [OF assms(1,2)])
  have all: "x = (registry, repoName, chartName, version)"
    if seg: "chart_segment ?dest version ?parts i = Some x" and range: "i \<in> set [1..<length ?parts - 2]" for i x
  proof -
    have names: "CHR ''/'' \<notin> set (?parts ! (i + 1))" "CHR ''/'' \<notin> set (?parts ! (i + 2))"
      using range by (auto intro!: split_char_segment [of _ _ ?rest] nth_mem simp del: nth_append)
    obtain r where x: "x = (r, ?parts ! (i + 1), ?parts ! (i + 2), version)"
      and eq: "ChartDestination r (?parts ! (i + 1)) (?parts ! (i + 2)) version = ?dest"
      using chart_segment_Some [OF seg] by blast
    show ?thesis using ChartDestination_inject [OF eq names assms(1,2)] x by simp
  qed
  have p: "0 < ?p" by simp
  have "chart_segment ?dest version ?parts ?p = Some (registry, repoName, chartName, version)"
    unfolding parts by (simp add: chart_segment_def nth_append join_split)
  moreover have "?p \<in> set [1..<length ?parts - 2]" unfolding parts using p by (simp add: Suc_le_eq)
  ultimately have ne: "(registry, repoName, chartName, version) \<in> set (List.map_filter (chart_segment ?dest version ?parts) [1..<length ?parts - 2])"
    unfolding in_map_filter by blast
  then obtain y ys where l: "List.map_filter (chart_segment ?dest version ?parts) [1..<length ?parts - 2] = y # ys"
    by (cases "List.map_filter (chart_segment ?dest version ?parts) [1..<length ?parts - 2]") auto
  then have "y \<in> set (List.map_filter (chart_segment ?dest version ?parts) [1..<length ?parts - 2])" by simp
  then have "y = (registry, repoName, chartName, version)" unfolding in_map_filter using all by blast
  then show ?thesis using ParseChartDestination_at [OF idx cut assms(3,4) l] by simp
qed

theorem ParseChartDestination_witness:
  "ParseChartDestination ''reg.example.com:5000/charts/mirror/charts/bitnami/nginx:15.5.1'' =
     Inr (''reg.example.com:5000/charts/mirror'', ''bitnami'', ''nginx'', ''15.5.1'')"
  using ParseChartDestination_ChartDestination [of "''bitnami''" "''nginx''" "''15.5.1''" "''reg.example.com:5000/charts/mirror''"]
  by (simp add: ChartDestination_def)

text \<open>
  A chart that is reported as mirrored is the one that was asked for: the archive was downloaded in exactly the version of the source, it is a
  valid chart, its bytes are the only layer of the pushed manifest, and the pushed reference is the entry's destination.
\<close>

theorem MirrorChart_success:
  assumes "MirrorChart digest client download loadArchive w source dest = (w', Inr pushed)"
  shows "\<exists>repoURL chartName version archive c. ParseHelmChartSource source = Some (repoURL, chartName, version) \<and>
    download w repoURL chartName version = Inr (archive, version) \<and> loadArchive archive = None \<and> client = Some c \<and> pushed = dest \<and>
    (\<exists>w1 w2 r m. oc_ref c dest = Inr r \<and> oc_blob c w r (descriptor_of digest ChartLayerMediaType archive) archive = (w1, None) \<and>
      om_Layers m = [descriptor_of digest ChartLayerMediaType archive] \<and> oc_manifest c w2 r m = (w', None))"
proof -
  obtain repoURL chartName version where src: "ParseHelmChartSource source = Some (repoURL, chartName, version)"
    using assms by (auto simp: MirrorChart_def split: option.splits)
  obtain archive where dl: "download w repoURL chartName version = Inr (archive, version)" and ld: "loadArchive archive = None"
    using assms src by (auto simp: MirrorChart_def split: sum.splits option.splits if_splits)
  obtain r n c v where pd: "ParseChartDestination dest = (Inr (r, n, c, v) :: 'b chart_error + _)"
    and push: "PushChart digest client w r n c v archive = (w', Inr pushed)"
    using assms src dl ld by (auto simp: MirrorChart_def split: sum.splits)
  have dest: "ChartDestination r n c v = dest" by (rule ParseChartDestination_sound [OF pd])
  obtain cl where cl: "client = Some cl" using push by (auto simp: PushChart_def split: option.splits)
  then have pu: "PushChart digest (Some cl) w r n c v archive = (w', Inr pushed)" using push by simp
  have "pushed = dest" using PushChart_ok(1) [OF pu] dest by simp
  then show ?thesis using src dl ld cl PushChart_ok(2) [OF pu] by blast
qed

definition log_client :: "(string list, string) oci_client" where
  "log_client = \<lparr>oc_ref = Inr, oc_blob = (\<lambda>w r d b. (w @ [ds_MediaType d], None)), oc_new = (\<lambda>m. None),
     oc_manifest = (\<lambda>w r m. (w @ [r], None))\<rparr>"

abbreviation logged_chart :: "string list \<times> (string chart_error + string)" where
  "logged_chart \<equiv> MirrorChart (\<lambda>b. ''sha256:'' @ b) (Some log_client) (\<lambda>w u n v. Inr (''tgz'', v)) (\<lambda>b. None) []
     (HelmChartSource (\<lambda>u. None) ''https://c.io'' ''nginx'' ''1.0'') ''r:5000/charts/bitnami/nginx:1.0''"

theorem MirrorChart_success_witness:
  "snd logged_chart = Inr ''r:5000/charts/bitnami/nginx:1.0'' \<and>
   (\<exists>w1 r. oc_blob log_client [] r (descriptor_of (\<lambda>b. ''sha256:'' @ b) ChartLayerMediaType ''tgz'') ''tgz'' = (w1, None))"
proof -
  have r: "snd logged_chart = Inr ''r:5000/charts/bitnami/nginx:1.0''" by code_simp
  then have "logged_chart = (fst logged_chart, Inr ''r:5000/charts/bitnami/nginx:1.0'')" by (metis prod.collapse)
  from MirrorChart_success [OF this] have "\<exists>w1 r. oc_blob log_client [] r (descriptor_of (\<lambda>b. ''sha256:'' @ b) ChartLayerMediaType ''tgz'') ''tgz'' = (w1, None)"
    by auto
  with r show ?thesis by (rule conjI)
qed

end
