(* ===== verification/Worker.thy ===== *)
theory Worker
  imports Chart Planner Dispatch "HOL-Library.Sublist"
begin

text \<open>
  The worker pod (\<open>pkg/mirror/worker\<close>): the mirroring of one image or chart with its attempts, the batch loop, the
  entry point, and the client of the manager's status API. Everything outside the process is one world of type \<open>'w\<close>;
  the registry clients (of type \<open>'c\<close>) and the HTTP transport are parameters that change it. Deadlines and pauses are not modelled:
  a call that times out is a call that returns an error.
\<close>

section \<open>Status client\<close>

record status_client =
  sc_ManagerURL :: string
  sc_PodName :: string
  sc_Token :: string

text \<open>\<open>getenv\<close> answers the empty string for a variable that is not set.\<close>

definition StatusClientFromEnv :: "(string \<Rightarrow> string) \<Rightarrow> status_client" where
  "StatusClientFromEnv getenv =
     \<lparr>sc_ManagerURL = getenv ''MANAGER_URL'', sc_PodName = getenv ''POD_NAME'', sc_Token = getenv ''WORKER_TOKEN''\<rparr>"

text \<open>
  The HTTP transport: \<^const>\<open>None\<close> is a request that got no answer. \<open>tp_url\<close> tells which URLs a request can be built for.
\<close>

record 'w transport =
  tp_url :: "string \<Rightarrow> bool"
  tp_post :: "'w \<Rightarrow> string \<Rightarrow> string \<Rightarrow> status_request \<Rightarrow> 'w \<times> nat option"
  tp_get :: "'w \<Rightarrow> string \<Rightarrow> string \<Rightarrow> 'w \<times> nat option"

abbreviation StatusAttempts :: nat where "StatusAttempts \<equiv> 3"
abbreviation CopyAttempts :: nat where "CopyAttempts \<equiv> 2"
abbreviation ClientRefreshInterval :: nat where "ClientRefreshInterval \<equiv> 20"

fun report_loop :: "'w transport \<Rightarrow> status_client \<Rightarrow> status_request \<Rightarrow> nat \<Rightarrow> 'w \<Rightarrow> 'w" where
  "report_loop tp s req 0 w = w"
| "report_loop tp s req (Suc attempts) w =
     (if \<not> tp_url tp (sc_ManagerURL s @ ''/status'') then w
      else (case tp_post tp w (sc_ManagerURL s @ ''/status'') (''Bearer '' @ sc_Token s) req of
              (w', None) \<Rightarrow> report_loop tp s req attempts w'
            | (w', Some code) \<Rightarrow> if 200 \<le> code \<and> code < 300 then w' else report_loop tp s req attempts w'))"

definition Report :: "'w transport \<Rightarrow> status_client option \<Rightarrow> string \<Rightarrow> string \<Rightarrow> string \<Rightarrow> 'w \<Rightarrow> 'w" where
  "Report tp sc dest digest errMsg w =
     (case sc of
        None \<Rightarrow> w
      | Some s \<Rightarrow>
          if sc_ManagerURL s = [] \<or> sc_PodName s = [] then w
          else report_loop tp s \<lparr>rq_PodName = sc_PodName s, rq_Destination = dest, rq_Digest = digest, rq_Error = errMsg\<rparr> StatusAttempts w)"

definition ShouldMirror :: "'w transport \<Rightarrow> status_client option \<Rightarrow> string \<Rightarrow> 'w \<Rightarrow> 'w \<times> bool" where
  "ShouldMirror tp sc dest w =
     (case sc of
        None \<Rightarrow> (w, True)
      | Some s \<Rightarrow>
          if sc_ManagerURL s = [] then (w, True)
          else (let url = sc_ManagerURL s @ ''/should-mirror?dest='' @ QueryEscape dest
                in if \<not> tp_url tp url then (w, True)
                   else (case tp_get tp w url (''Bearer '' @ sc_Token s) of
                           (w', None) \<Rightarrow> (w', True)
                         | (w', Some code) \<Rightarrow> (w', code \<noteq> 410))))"

section \<open>The worker\<close>

text \<open>
  \<open>wk_copy\<close>, \<open>wk_buffered\<close> and \<open>wk_digest\<close> are the methods of a registry client, \<open>wk_buffered c = None\<close> for a client that is no
  \<open>BufferedCopier\<close>; \<open>wk_chart c = None\<close> for a client that is no real registry client, otherwise it is \<^const>\<open>MirrorChart\<close> with that client.
  An error is its text.
\<close>

record ('w, 'c) worker =
  wk_NewClient :: "string \<Rightarrow> 'c"
  wk_Plan :: "('w \<Rightarrow> 'c \<Rightarrow> string list \<Rightarrow> string list \<Rightarrow> string list \<times> string list) option"
  wk_copy :: "'c \<Rightarrow> 'w \<Rightarrow> string \<Rightarrow> string \<Rightarrow> 'w \<times> (string + string)"
  wk_buffered :: "'c \<Rightarrow> ('w \<Rightarrow> string \<Rightarrow> string \<Rightarrow> 'w \<times> (string + string)) option"
  wk_digest :: "'c \<Rightarrow> 'w \<Rightarrow> string \<Rightarrow> 'w \<times> (string + string)"
  wk_chart :: "'c \<Rightarrow> ('w \<Rightarrow> string \<Rightarrow> string \<Rightarrow> 'w \<times> (string + string)) option"
  wk_Status :: "status_client option"
  wk_transport :: "'w transport"

definition copy_fn :: "('w, 'c) worker \<Rightarrow> 'c \<Rightarrow> nat \<Rightarrow> 'w \<Rightarrow> string \<Rightarrow> string \<Rightarrow> 'w \<times> (string + string)" where
  "copy_fn wk c attempt =
     (if attempt > 1 then
        (case wk_buffered wk c of
           Some buffered \<Rightarrow> if attempt = CopyAttempts then buffered else wk_copy wk c
         | None \<Rightarrow> wk_copy wk c)
      else wk_copy wk c)"

text \<open>Attempts \<open>attempt\<close>, \<open>attempt + 1\<close>, \dots, until one succeeds or \<open>left\<close> of them have failed.\<close>

fun attempts :: "(nat \<Rightarrow> 'w \<Rightarrow> 'w \<times> (string + string)) \<Rightarrow> nat \<Rightarrow> nat \<Rightarrow> string \<Rightarrow> 'w \<Rightarrow> 'w \<times> (string + string)" where
  "attempts att 0 attempt lastErr w = (w, Inl lastErr)"
| "attempts att (Suc left) attempt lastErr w =
     (case att attempt w of
        (w', Inr r) \<Rightarrow> (w', Inr r)
      | (w', Inl e) \<Rightarrow> attempts att left (attempt + 1) e w')"

definition MirrorOne :: "('w, 'c) worker \<Rightarrow> 'c \<Rightarrow> string \<Rightarrow> string \<Rightarrow> 'w \<Rightarrow> 'w \<times> bool" where
  "MirrorOne wk c src dest w =
     (case attempts (\<lambda>attempt w. copy_fn wk c attempt w src dest) CopyAttempts 1 [] w of
        (w1, Inl lastErr) \<Rightarrow> (Report (wk_transport wk) (wk_Status wk) dest [] lastErr w1, False)
      | (w1, Inr effectiveDest) \<Rightarrow>
          (case wk_digest wk c w1 effectiveDest of
             (w2, Inl err) \<Rightarrow> (Report (wk_transport wk) (wk_Status wk) dest [] err w2, False)
           | (w2, Inr digest) \<Rightarrow> (Report (wk_transport wk) (wk_Status wk) dest digest [] w2, True)))"

definition MirrorChartOne :: "('w, 'c) worker \<Rightarrow> 'c \<Rightarrow> string \<Rightarrow> string \<Rightarrow> 'w \<Rightarrow> 'w \<times> bool" where
  "MirrorChartOne wk c src dest w =
     (case wk_chart wk c of
        None \<Rightarrow> (Report (wk_transport wk) (wk_Status wk) dest [] ''chart mirror requires a real registry client'' w, False)
      | Some mirrorChart \<Rightarrow>
          (case attempts (\<lambda>attempt w. mirrorChart w src dest) CopyAttempts 1 [] w of
             (w1, Inl lastErr) \<Rightarrow> (Report (wk_transport wk) (wk_Status wk) dest [] lastErr w1, False)
           | (w1, Inr _) \<Rightarrow>
               (case wk_digest wk c w1 dest of
                  (w2, Inl err) \<Rightarrow> (Report (wk_transport wk) (wk_Status wk) dest [] err w2, False)
                | (w2, Inr digest) \<Rightarrow> (Report (wk_transport wk) (wk_Status wk) dest digest [] w2, True))))"

text \<open>
  The plan of a batch: \<open>realClient\<close> says that the client is a real registry client. \<^const>\<open>PlanMirrorOrder\<close> only fails on lists of different
  lengths (lemma \<open>PlanMirrorOrder_perm\<close>), which no caller passes.
\<close>

definition planWithMirrorClient ::
  "bool \<Rightarrow> (string \<Rightarrow> 'e + 'r rc_ref) \<Rightarrow> ('r rc_ref \<Rightarrow> 'e + 'e manifest) \<Rightarrow> string list \<Rightarrow> string list \<Rightarrow> string list \<times> string list" where
  "planWithMirrorClient realClient newRef manifestGet sources dests =
     (if \<not> realClient then (sources, dests)
      else (case PlanMirrorOrder newRef manifestGet sources dests of Some plan \<Rightarrow> plan | None \<Rightarrow> (sources, dests)))"

text \<open>The batch loop at index \<open>i\<close> of the planned order, with the client in use and the failure flag.\<close>

fun batch_loop :: "('w, 'c) worker \<Rightarrow> nat \<Rightarrow> (string \<times> string) list \<Rightarrow> 'c \<Rightarrow> bool \<Rightarrow> 'w \<Rightarrow> 'w \<times> bool" where
  "batch_loop wk i [] c anyFailed w = (w, anyFailed)"
| "batch_loop wk i ((src, dest) # rest) c anyFailed w =
     (case ShouldMirror (wk_transport wk) (wk_Status wk) dest w of
        (w1, False) \<Rightarrow> batch_loop wk (i + 1) rest c anyFailed w1
      | (w1, True) \<Rightarrow>
          (let c1 = (if i > 0 \<and> i mod ClientRefreshInterval = 0 then wk_NewClient wk dest else c)
           in case (if IsChartSource src then MirrorChartOne wk c1 src dest w1 else MirrorOne wk c1 src dest w1) of
                (w2, ok) \<Rightarrow> batch_loop wk (i + 1) rest c1 (anyFailed \<or> \<not> ok) w2))"

definition RunBatch :: "('w, 'c) worker \<Rightarrow> batch_item list \<Rightarrow> 'w \<Rightarrow> 'w \<times> bool" where
  "RunBatch wk items w =
     (case items of
        [] \<Rightarrow> (w, False)
      | item # _ \<Rightarrow>
          (let c = wk_NewClient wk (it_Dest item);
               srcs = map it_Source items; dests = map it_Dest items;
               (srcs', dests') = (case wk_Plan wk of None \<Rightarrow> (srcs, dests) | Some plan \<Rightarrow> plan w c srcs dests)
           in batch_loop wk 0 (zip srcs' dests') c False w))"

text \<open>\<open>decodeBatch\<close> is \<open>json.Unmarshal\<close> into a list of items.\<close>

definition ParseBatch :: "(string \<Rightarrow> string + batch_item list) \<Rightarrow> string \<Rightarrow> string + batch_item list" where
  "ParseBatch decodeBatch batchJSON =
     (case decodeBatch batchJSON of Inl e \<Rightarrow> Inl (''parse MIRROR_BATCH: '' @ e) | Inr items \<Rightarrow> Inr items)"

definition run :: "(string \<Rightarrow> string + batch_item list) \<Rightarrow> ('w, 'c) worker \<Rightarrow> string \<Rightarrow> string \<Rightarrow> string \<Rightarrow> 'w \<Rightarrow> 'w \<times> nat" where
  "run decodeBatch wk batchJSON src dest w =
     (if batchJSON \<noteq> [] then
        (case ParseBatch decodeBatch batchJSON of
           Inl _ \<Rightarrow> (w, 1)
         | Inr items \<Rightarrow> (fst (RunBatch wk items w), 0))
      else if src = [] \<or> dest = [] then (w, 1)
      else (case MirrorOne wk (wk_NewClient wk dest) src dest w of (w', ok) \<Rightarrow> (w', if ok then 0 else 1)))"

text \<open>The hosts accessed without TLS verification and the host of the destination registry.\<close>

definition NewMirrorClient :: "bool \<Rightarrow> string \<Rightarrow> string list \<times> string" where
  "NewMirrorClient insecure firstDest =
     (let destHost = fst (str_cut firstDest ''/'') in (if insecure \<and> destHost \<noteq> [] then [destHost] else [], destHost))"

section \<open>Facts about attempts\<close>

lemma attempts_Inr:
  assumes "attempts att n k err w = (w', Inr r)"
  shows "\<exists>i w0. k \<le> i \<and> i < k + n \<and> att i w0 = (w', Inr r)"
  using assms
proof (induction att n k err w rule: attempts.induct)
  case (2 att left attempt lastErr w)
  obtain w1 res where t: "att attempt w = (w1, res)" by force
  show ?case
  proof (cases res)
    case (Inr x)
    then show ?thesis using 2(2) t by (intro exI [of _ attempt] exI [of _ w]) simp
  next
    case (Inl e)
    then obtain i w0 where "attempt + 1 \<le> i" "i < attempt + 1 + left" "att i w0 = (w', Inr r)"
      using 2(1) [OF t [symmetric]] 2(2) t by auto
    then show ?thesis by (intro exI [of _ i] exI [of _ w0]) simp
  qed
qed simp

text \<open>The attempts keep what each of them keeps, and end with the result of one of them.\<close>

lemma attempts_result:
  assumes "\<And>i w. f (fst (att i w)) = f w" and "attempts att (Suc n) k err w = (w', res)"
  shows "f w' = f w \<and> (\<exists>i w0. f w0 = f w \<and> att i w0 = (w', res))"
  using assms(2)
proof (induction n arbitrary: k err w)
  case 0
  obtain w1 x where t: "att k w = (w1, x)" by force
  with 0 have "w' = w1" "res = x" by (cases x; simp)+
  with t assms(1) [of k w] show ?case by (intro conjI exI [of _ k] exI [of _ w]) auto
next
  case (Suc n)
  obtain w1 x where t: "att k w = (w1, x)" by force
  then have keep: "f w1 = f w" using assms(1) [of k w] by simp
  show ?case
  proof (cases x)
    case (Inr r)
    with Suc.prems t keep show ?thesis by (intro conjI exI [of _ k] exI [of _ w]) auto
  next
    case (Inl e)
    with Suc.prems t have "attempts att (Suc n) (k + 1) e w1 = (w', res)" by simp
    from Suc.IH [OF this] keep show ?thesis by auto
  qed
qed

section \<open>Reports\<close>

text \<open>
  The requests of a worker to its manager as they happen, each with its answer (\<^const>\<open>None\<close> if none came back) and the state of the manager after it: questions
  whether a destination is to be mirrored, and reports.
\<close>

datatype 'm exchange = Asked string "nat option" 'm | Posted status_request "nat option" 'm

definition success_code :: "nat option \<Rightarrow> bool" where
  "success_code answer \<longleftrightarrow> (\<exists>code. answer = Some code \<and> 200 \<le> code \<and> code < 300)"

text \<open>
  The posts of one report: at most \<^const>\<open>StatusAttempts\<close>, and no further one after the first that was acknowledged. The last one was acknowledged, and accepted by the
  manager as it was then; or none was and all attempts are used up.
\<close>

definition delivered :: "(status_request \<Rightarrow> 'm \<Rightarrow> bool) \<Rightarrow> status_request \<Rightarrow> (nat option \<times> 'm) list \<Rightarrow> bool" where
  "delivered accepted req posts \<longleftrightarrow>
     posts \<noteq> [] \<and> length posts \<le> StatusAttempts \<and> list_all (\<lambda>(answer, m). \<not> success_code answer) (butlast posts) \<and>
     (if success_code (fst (last posts)) then accepted req (snd (last posts)) else length posts = StatusAttempts)"

text \<open>
  One attempt to copy an image, with the client's own copy or its buffered one, or to mirror a chart. A report carries what the worker has come to while the trace was \<open>t\<close>: after a copy that succeeded,
  the digest the registry gives for the copy, and no error; otherwise the error of an attempt or of the digest check, and no digest.
\<close>

definition copy_attempt :: "('w, 'c) worker \<Rightarrow> 'c \<Rightarrow> string \<Rightarrow> string \<Rightarrow> 'w \<Rightarrow> 'w \<times> (string + string) \<Rightarrow> bool" where
  "copy_attempt wk c src dest w res \<longleftrightarrow>
     (if IsChartSource src then (\<exists>ch. wk_chart wk c = Some ch \<and> res = ch w src dest)
      else res = wk_copy wk c w src dest \<or> (\<exists>buf. wk_buffered wk c = Some buf \<and> res = buf w src dest))"

definition outcome :: "('w, 'c) worker \<Rightarrow> ('w \<Rightarrow> 'm exchange list) \<Rightarrow> 'm exchange list \<Rightarrow> string \<Rightarrow> string \<Rightarrow> status_request \<Rightarrow> bool \<Rightarrow> bool" where
  "outcome wk trace t src dest req good \<longleftrightarrow>
     (if good
      then rq_Error req = [] \<and> (\<exists>c w w1 w2 eff. trace w = t \<and> copy_attempt wk c src dest w (w1, Inr eff) \<and>
             wk_digest wk c w1 (if IsChartSource src then dest else eff) = (w2, Inr (rq_Digest req)))
      else rq_Digest req = [] \<and> (\<exists>c w w1. trace w = t \<and>
             (copy_attempt wk c src dest w (w1, Inl (rq_Error req)) \<or>
              (\<exists>w2 eff. copy_attempt wk c src dest w (w1, Inr eff) \<and> wk_digest wk c w1 (if IsChartSource src then dest else eff) = (w2, Inl (rq_Error req))) \<or>
              IsChartSource src \<and> wk_chart wk c = None \<and> rq_Error req = ''chart mirror requires a real registry client'')))"

text \<open>
  What becomes of one item of a batch, with the trace \<open>t\<close> before it: the manager answers 410, being in a state in which the destination is done (\<open>gone\<close>); or the worker
  goes on, and reports its outcome.
\<close>

definition item_fate ::
  "('w, 'c) worker \<Rightarrow> ('w \<Rightarrow> 'm exchange list) \<Rightarrow> ('m \<Rightarrow> string \<Rightarrow> bool) \<Rightarrow> (status_request \<Rightarrow> 'm \<Rightarrow> bool) \<Rightarrow> string \<Rightarrow> 'm exchange list \<Rightarrow> string \<times> string
    \<Rightarrow> 'm exchange list \<times> bool \<Rightarrow> bool" where
  "item_fate wk trace gone accepted podName t item res \<longleftrightarrow> (case (item, res) of ((src, dest), (block, good)) \<Rightarrow>
     (\<exists>m. block = [Asked dest (Some 410) m] \<and> gone m dest \<and> good) \<or>
     (\<exists>answer m req posts. block = Asked dest answer m # map (\<lambda>(answer, m). Posted req answer m) posts \<and> answer \<noteq> Some 410 \<and>
        rq_PodName req = podName \<and> rq_Destination req = dest \<and> outcome wk trace (t @ [Asked dest answer m]) src dest req good \<and> delivered accepted req posts))"

fun batch_fates ::
  "('m exchange list \<Rightarrow> string \<times> string \<Rightarrow> 'm exchange list \<times> bool \<Rightarrow> bool) \<Rightarrow> 'm exchange list \<Rightarrow> (string \<times> string) list \<Rightarrow> ('m exchange list \<times> bool) list \<Rightarrow> bool" where
  "batch_fates fate t [] [] = True"
| "batch_fates fate t (item # items) (res # rs) = (fate t item res \<and> batch_fates fate (t @ fst res) items rs)"
| "batch_fates fate t _ _ = False"

lemma batch_fates_length: "batch_fates fate t items rs \<Longrightarrow> length rs = length items"
  by (induction fate t items rs rule: batch_fates.induct) auto

lemma batch_fates_nth:
  "batch_fates fate t items rs \<Longrightarrow> i < length items \<Longrightarrow> fate (t @ concat (map fst (take i rs))) (items ! i) (rs ! i)"
proof (induction fate t items rs arbitrary: i rule: batch_fates.induct)
  case (2 fate t item items res rs)
  then show ?case by (cases i) auto
qed auto

text \<open>
  What a worker needs from the other side, whatever the network loses and whoever else talks to the manager: its requests, and nothing else it does, make up the trace; a report
  that is acknowledged is accepted, and only a destination that is done is answered with 410.
\<close>

locale report_sink =
  fixes wk :: "('w, 'c) worker" and s :: status_client
    and trace :: "'w \<Rightarrow> 'm exchange list" and gone :: "'m \<Rightarrow> string \<Rightarrow> bool" and accepted :: "status_request \<Rightarrow> 'm \<Rightarrow> bool"
  assumes client: "wk_Status wk = Some s" "sc_ManagerURL s \<noteq> []" "sc_PodName s \<noteq> []"
    and url: "tp_url (wk_transport wk) u"
    and post: "\<exists>w' answer m. tp_post (wk_transport wk) w (sc_ManagerURL s @ ''/status'') (''Bearer '' @ sc_Token s) req = (w', answer) \<and>
      trace w' = trace w @ [Posted req answer m] \<and> (success_code answer \<longrightarrow> accepted req m)"
    and get: "\<exists>w' answer m. tp_get (wk_transport wk) w (sc_ManagerURL s @ ''/should-mirror?dest='' @ QueryEscape d) (''Bearer '' @ sc_Token s) = (w', answer) \<and>
      trace w' = trace w @ [Asked d answer m] \<and> (answer = Some 410 \<longrightarrow> gone m d)"
    and copy: "trace (fst (wk_copy wk c w a b)) = trace w"
    and buffered: "wk_buffered wk c = Some buf \<Longrightarrow> trace (fst (buf w a b)) = trace w"
    and digest: "trace (fst (wk_digest wk c w a)) = trace w"
    and chart: "wk_chart wk c = Some ch \<Longrightarrow> trace (fst (ch w a b)) = trace w"
begin

lemma report_loop_posts:
  "\<exists>posts. trace (report_loop (wk_transport wk) s req (Suc n) w) = trace w @ map (\<lambda>(answer, m). Posted req answer m) posts \<and>
     posts \<noteq> [] \<and> length posts \<le> Suc n \<and> list_all (\<lambda>(answer, m). \<not> success_code answer) (butlast posts) \<and>
     (if success_code (fst (last posts)) then accepted req (snd (last posts)) else length posts = Suc n)"
proof (induction n arbitrary: w)
  case (0 w)
  obtain w' answer m where p: "tp_post (wk_transport wk) w (sc_ManagerURL s @ ''/status'') (''Bearer '' @ sc_Token s) req = (w', answer)"
    "trace w' = trace w @ [Posted req answer m]" "success_code answer \<longrightarrow> accepted req m" using post by blast
  then have "trace (report_loop (wk_transport wk) s req (Suc 0) w) = trace w @ [Posted req answer m]"
    using url by (cases answer) auto
  with p(3) show ?case by (intro exI [of _ "[(answer, m)]"]) auto
next
  case (Suc n w)
  obtain w' answer m where p: "tp_post (wk_transport wk) w (sc_ManagerURL s @ ''/status'') (''Bearer '' @ sc_Token s) req = (w', answer)"
    "trace w' = trace w @ [Posted req answer m]" "success_code answer \<longrightarrow> accepted req m" using post by blast
  show ?case
  proof (cases "success_code answer")
    case True
    then have "report_loop (wk_transport wk) s req (Suc (Suc n)) w = w'" using p(1) url by (auto simp: success_code_def)
    with p True show ?thesis by (intro exI [of _ "[(answer, m)]"]) auto
  next
    case False
    then have eq: "report_loop (wk_transport wk) s req (Suc (Suc n)) w = report_loop (wk_transport wk) s req (Suc n) w'"
      using p(1) url by (auto simp: success_code_def split: option.splits)
    obtain posts where "trace (report_loop (wk_transport wk) s req (Suc n) w') = trace w' @ map (\<lambda>(answer, m). Posted req answer m) posts"
      "posts \<noteq> []" "length posts \<le> Suc n" "list_all (\<lambda>(answer, m). \<not> success_code answer) (butlast posts)"
      "if success_code (fst (last posts)) then accepted req (snd (last posts)) else length posts = Suc n"
      using Suc.IH [of w'] by blast
    with p(2) False show ?thesis unfolding eq by (intro exI [of _ "(answer, m) # posts"]) auto
  qed
qed

lemma Report_posts:
  "\<exists>posts. trace (Report (wk_transport wk) (wk_Status wk) d dig err w) =
      trace w @ map (\<lambda>(answer, m). Posted \<lparr>rq_PodName = sc_PodName s, rq_Destination = d, rq_Digest = dig, rq_Error = err\<rparr> answer m) posts \<and>
    delivered accepted \<lparr>rq_PodName = sc_PodName s, rq_Destination = d, rq_Digest = dig, rq_Error = err\<rparr> posts"
proof -
  let ?req = "\<lparr>rq_PodName = sc_PodName s, rq_Destination = d, rq_Digest = dig, rq_Error = err\<rparr>"
  have three: "Suc 2 = StatusAttempts" by simp
  have "Report (wk_transport wk) (wk_Status wk) d dig err w = report_loop (wk_transport wk) s ?req StatusAttempts w"
    unfolding Report_def client(1) option.case using client(2,3) by (simp only: if_False simp_thms)
  then show ?thesis using report_loop_posts [of ?req 2 w, unfolded three] unfolding delivered_def by metis
qed

text \<open>Mirroring one item: its outcome is reported.\<close>

definition reported :: "'w \<Rightarrow> string \<Rightarrow> string \<Rightarrow> 'w \<times> bool \<Rightarrow> bool" where
  "reported w src dest res \<longleftrightarrow> (\<exists>req posts. trace (fst res) = trace w @ map (\<lambda>(answer, m). Posted req answer m) posts \<and>
     rq_PodName req = sc_PodName s \<and> rq_Destination req = dest \<and> outcome wk trace (trace w) src dest req (snd res) \<and> delivered accepted req posts)"

lemma reportedI:
  assumes "trace w1 = trace w"
    and "outcome wk trace (trace w) src dest \<lparr>rq_PodName = sc_PodName s, rq_Destination = dest, rq_Digest = dig, rq_Error = err\<rparr> good"
  shows "reported w src dest (Report (wk_transport wk) (wk_Status wk) dest dig err w1, good)"
  using Report_posts [of dest dig err w1] assms unfolding reported_def by fastforce

lemma copy_fn_keeps: "trace (fst (copy_fn wk c i w a b)) = trace w"
  using copy buffered by (simp add: copy_fn_def split: option.split)

lemma copy_fn_attempt: "\<not> IsChartSource src \<Longrightarrow> copy_attempt wk c src dest w (copy_fn wk c i w src dest)"
  by (simp add: copy_fn_def copy_attempt_def split: option.split)

lemma outcome_digest:
  assumes "copy_attempt wk c src dest w0 (w1, Inr eff)" and "trace w0 = trace w" and "trace w1 = trace w"
    and "wk_digest wk c w1 (if IsChartSource src then dest else eff) = (w2, dr)"
  shows "reported w src dest (case dr of
      Inl err \<Rightarrow> (Report (wk_transport wk) (wk_Status wk) dest [] err w2, False)
    | Inr dig \<Rightarrow> (Report (wk_transport wk) (wk_Status wk) dest dig [] w2, True))"
proof -
  have keep: "trace w2 = trace w" using digest [of c w1] assms(3,4) by (metis fst_conv)
  show ?thesis
  proof (cases dr)
    case (Inl err)
    have "outcome wk trace (trace w) src dest \<lparr>rq_PodName = sc_PodName s, rq_Destination = dest, rq_Digest = [], rq_Error = err\<rparr> False"
      using assms(1,2,4) Inl unfolding outcome_def by (simp only: if_False status_request.select_convs simp_thms) blast
    then show ?thesis using keep Inl by (simp add: reportedI)
  next
    case (Inr dig)
    have "outcome wk trace (trace w) src dest \<lparr>rq_PodName = sc_PodName s, rq_Destination = dest, rq_Digest = dig, rq_Error = []\<rparr> True"
      using assms(1,2,4) Inr unfolding outcome_def by (simp only: if_True status_request.select_convs simp_thms) blast
    then show ?thesis using keep Inr by (simp add: reportedI)
  qed
qed

lemma MirrorOne_reported:
  assumes "\<not> IsChartSource src"
  shows "reported w src dest (MirrorOne wk c src dest w)"
proof -
  let ?att = "\<lambda>i w. copy_fn wk c i w src dest"
  obtain w1 res where a: "attempts ?att (Suc (Suc 0)) 1 [] w = (w1, res)" by force
  obtain i w0 where w0: "trace w1 = trace w" "trace w0 = trace w" "?att i w0 = (w1, res)"
    using attempts_result [where f = trace, OF copy_fn_keeps a] by blast
  have att: "copy_attempt wk c src dest w0 (w1, res)" using copy_fn_attempt [OF assms, of c dest w0 i] w0(3) by simp
  show ?thesis
  proof (cases res)
    case (Inl e)
    then have "outcome wk trace (trace w) src dest \<lparr>rq_PodName = sc_PodName s, rq_Destination = dest, rq_Digest = [], rq_Error = e\<rparr> False"
      using att w0(2) by (auto simp: outcome_def)
    then show ?thesis using a Inl w0(1) reportedI by (simp add: MirrorOne_def numeral_2_eq_2)
  next
    case (Inr eff)
    obtain w2 dr where d: "wk_digest wk c w1 eff = (w2, dr)" by force
    show ?thesis using outcome_digest [OF att [unfolded Inr] w0(2,1)] d a Inr assms
      by (cases dr) (simp_all add: MirrorOne_def numeral_2_eq_2)
  qed
qed

lemma MirrorChartOne_reported:
  assumes "IsChartSource src"
  shows "reported w src dest (MirrorChartOne wk c src dest w)"
proof (cases "wk_chart wk c")
  case None
  then have "outcome wk trace (trace w) src dest
      \<lparr>rq_PodName = sc_PodName s, rq_Destination = dest, rq_Digest = [], rq_Error = ''chart mirror requires a real registry client''\<rparr> False"
    using assms unfolding outcome_def by auto
  then show ?thesis using reportedI [OF refl] None by (simp add: MirrorChartOne_def)
next
  case ch: (Some ch)
  let ?att = "\<lambda>i w. ch w src dest"
  obtain w1 res where a: "attempts ?att (Suc (Suc 0)) 1 [] w = (w1, res)" by force
  obtain i w0 where w0: "trace w1 = trace w" "trace w0 = trace w" "?att i w0 = (w1, res)"
    using attempts_result [where f = trace and att = ?att, OF chart [OF ch] a] by blast
  have att: "copy_attempt wk c src dest w0 (w1, res)" using ch w0(3) assms by (simp add: copy_attempt_def)
  show ?thesis
  proof (cases res)
    case (Inl e)
    then have "outcome wk trace (trace w) src dest \<lparr>rq_PodName = sc_PodName s, rq_Destination = dest, rq_Digest = [], rq_Error = e\<rparr> False"
      using att w0(2) by (auto simp: outcome_def)
    then show ?thesis using a Inl w0(1) reportedI ch by (simp add: MirrorChartOne_def numeral_2_eq_2)
  next
    case (Inr eff)
    obtain w2 dr where d: "wk_digest wk c w1 dest = (w2, dr)" by force
    show ?thesis using outcome_digest [OF att [unfolded Inr] w0(2,1)] d a Inr assms ch
      by (cases dr) (simp_all add: MirrorChartOne_def numeral_2_eq_2)
  qed
qed

lemma ShouldMirror_asks:
  "\<exists>answer m. trace (fst (ShouldMirror (wk_transport wk) (wk_Status wk) d w)) = trace w @ [Asked d answer m] \<and>
     (snd (ShouldMirror (wk_transport wk) (wk_Status wk) d w) \<longleftrightarrow> answer \<noteq> Some 410) \<and> (answer = Some 410 \<longrightarrow> gone m d)"
proof -
  obtain w' answer m where "tp_get (wk_transport wk) w (sc_ManagerURL s @ ''/should-mirror?dest='' @ QueryEscape d) (''Bearer '' @ sc_Token s) = (w', answer)"
    "trace w' = trace w @ [Asked d answer m]" "answer = Some 410 \<longrightarrow> gone m d" using get by blast
  then show ?thesis using client url unfolding ShouldMirror_def
    by (intro exI [of _ answer] exI [of _ m]) (cases answer; simp add: Let_def)
qed

text \<open>The batch loop: the exchanges of the items follow each other, and the batch failed if and only if the outcome of an item is a failure.\<close>

lemma batch_loop_fates:
  "\<exists>rs. trace (fst (batch_loop wk i items c failed w)) = trace w @ concat (map fst rs) \<and>
     batch_fates (item_fate wk trace gone accepted (sc_PodName s)) (trace w) items rs \<and>
     snd (batch_loop wk i items c failed w) = (failed \<or> (\<exists>r \<in> set rs. \<not> snd r))"
proof (induction items arbitrary: i c failed w)
  case Nil
  then show ?case by (intro exI [of _ "[]"]) simp
next
  case (Cons x items)
  obtain src dest where x: "x = (src, dest)" by force
  obtain w1 b where sm: "ShouldMirror (wk_transport wk) (wk_Status wk) dest w = (w1, b)" by force
  then obtain answer m where w1: "trace w1 = trace w @ [Asked dest answer m]" "b \<longleftrightarrow> answer \<noteq> Some 410" "answer = Some 410 \<longrightarrow> gone m dest"
    using ShouldMirror_asks [of dest w] by auto
  show ?case
  proof (cases b)
    case False
    have eq: "batch_loop wk i (x # items) c failed w = batch_loop wk (i + 1) items c failed w1" using x sm False by simp
    obtain rs where rs: "trace (fst (batch_loop wk (i + 1) items c failed w1)) = trace w1 @ concat (map fst rs)"
      "batch_fates (item_fate wk trace gone accepted (sc_PodName s)) (trace w1) items rs"
      "snd (batch_loop wk (i + 1) items c failed w1) = (failed \<or> (\<exists>r \<in> set rs. \<not> snd r))" using Cons.IH by blast
    have "item_fate wk trace gone accepted (sc_PodName s) (trace w) x ([Asked dest answer m], True)"
      using w1 False x by (simp add: item_fate_def)
    then show ?thesis unfolding eq using rs w1(1) by (intro exI [of _ "([Asked dest answer m], True) # rs"]) simp
  next
    case True
    let ?c1 = "if i > 0 \<and> i mod ClientRefreshInterval = 0 then wk_NewClient wk dest else c"
    let ?one = "if IsChartSource src then MirrorChartOne wk ?c1 src dest w1 else MirrorOne wk ?c1 src dest w1"
    obtain w2 good where one: "?one = (w2, good)" by force
    have "reported w1 src dest (w2, good)"
      unfolding one [symmetric] using MirrorOne_reported MirrorChartOne_reported by (cases "IsChartSource src") simp_all
    then obtain req posts where r: "trace w2 = trace w1 @ map (\<lambda>(answer, m). Posted req answer m) posts" "rq_PodName req = sc_PodName s"
      "rq_Destination req = dest" "outcome wk trace (trace w1) src dest req good" "delivered accepted req posts"
      unfolding reported_def by auto
    have eq: "batch_loop wk i (x # items) c failed w = batch_loop wk (i + 1) items ?c1 (failed \<or> \<not> good) w2"
      using x sm True one by (simp add: Let_def)
    obtain rs where rs: "trace (fst (batch_loop wk i (x # items) c failed w)) = trace w2 @ concat (map fst rs)"
      "batch_fates (item_fate wk trace gone accepted (sc_PodName s)) (trace w2) items rs"
      "snd (batch_loop wk i (x # items) c failed w) = ((failed \<or> \<not> good) \<or> (\<exists>r \<in> set rs. \<not> snd r))" unfolding eq using Cons.IH by blast
    let ?block = "Asked dest answer m # map (\<lambda>(answer, m). Posted req answer m) posts"
    have "item_fate wk trace gone accepted (sc_PodName s) (trace w) x (?block, good)"
      unfolding item_fate_def x prod.case using w1(1,2) True r(2-5) by auto
    then show ?thesis using rs r(1) w1(1) by (intro exI [of _ "(?block, good) # rs"]) auto
  qed
qed

lemma RunBatch_fates:
  assumes "RunBatch wk items w = (w', failed)"
    and "\<And>plan. wk_Plan wk = Some plan \<Longrightarrow>
      mset (case_prod zip (plan w (wk_NewClient wk (it_Dest (hd items))) (map it_Source items) (map it_Dest items))) =
      mset (zip (map it_Source items) (map it_Dest items))"
  shows "\<exists>order rs. mset order = mset (zip (map it_Source items) (map it_Dest items)) \<and> trace w' = trace w @ concat (map fst rs) \<and>
    batch_fates (item_fate wk trace gone accepted (sc_PodName s)) (trace w) order rs \<and> failed = (\<exists>r \<in> set rs. \<not> snd r)"
proof (cases items)
  case Nil
  then show ?thesis using assms(1) by (intro exI [of _ "[]"]) (simp add: RunBatch_def)
next
  case (Cons item rest)
  let ?c = "wk_NewClient wk (it_Dest item)"
  obtain srcs dests where pl: "(case wk_Plan wk of None \<Rightarrow> (map it_Source items, map it_Dest items)
      | Some plan \<Rightarrow> plan w ?c (map it_Source items) (map it_Dest items)) = (srcs, dests)" by force
  have run: "batch_loop wk 0 (zip srcs dests) ?c False w = (w', failed)"
    using assms(1) pl unfolding RunBatch_def Cons Let_def list.case by (simp only: prod.case)
  have "mset (zip srcs dests) = mset (zip (map it_Source items) (map it_Dest items))"
    using pl assms(2) Cons by (auto split: option.splits)
  then show ?thesis using batch_loop_fates [of 0 "zip srcs dests" ?c False w] unfolding run by auto
qed

end

end
