(* ===== verification/WorkerPod.thy ===== *)
theory WorkerPod
  imports Worker
begin

text \<open>
  Starting worker pods: the pod that \<open>startWorkerBatch\<close> builds with its environment, volumes and deadline, and the
  bearer token shared with the workers (\<open>pkg/mirror/manager/manager.go\<close>). \<open>json.Marshal\<close> of a batch and of a list of
  strings, the random bytes and the API server are parameters; quantities, resources and tolerations are opaque.
\<close>

section \<open>Configuration\<close>

record proxy_config =
  px_HTTPProxy :: string
  px_HTTPSProxy :: string
  px_NoProxy :: string

record ca_bundle =
  ca_ConfigMapName :: string
  ca_Key :: string

record worker_storage =
  ws_StorageClassName :: "string option"
  ws_Size :: "string option"

record worker_target = mirror_target +
  mt_Proxy :: "proxy_config option"
  mt_CABundle :: "ca_bundle option"
  mt_WorkerStorage :: "worker_storage option"
  mt_WorkerNodeSelector :: annotations
  mt_WorkerResources :: string
  mt_WorkerTolerations :: "string list"

section \<open>Environment\<close>

datatype env_source = Value string | SecretKey string string | FieldPath string

type_synonym env_var = "string \<times> env_source"

definition clusterNoProxy :: "string list" where
  "clusterNoProxy = [''localhost'', ''127.0.0.1'', ''.svc'', ''.svc.cluster.local'']"

definition workerBuildEffectiveNoProxy :: "string \<Rightarrow> string" where
  "workerBuildEffectiveNoProxy userNoProxy =
     (let base = str_join '','' clusterNoProxy in if userNoProxy = [] then base else base @ '','' @ userNoProxy)"

definition workerProxyEnvVars :: "proxy_config option \<Rightarrow> env_var list" where
  "workerProxyEnvVars cfg =
     (case cfg of
        None \<Rightarrow> []
      | Some c \<Rightarrow>
          (let v = px_HTTPProxy c in if v \<noteq> [] then [(''HTTP_PROXY'', Value v), (''http_proxy'', Value v)] else []) @
          (let v = px_HTTPSProxy c in if v \<noteq> [] then [(''HTTPS_PROXY'', Value v), (''https_proxy'', Value v)] else []) @
          (if px_HTTPProxy c \<noteq> [] \<or> px_HTTPSProxy c \<noteq> [] then
             (let noProxy = workerBuildEffectiveNoProxy (px_NoProxy c)
              in [(''NO_PROXY'', Value noProxy), (''no_proxy'', Value noProxy),
                  (''KUBERNETES_SERVICE_HOST'', Value ''kubernetes.default.svc.cluster.local'')])
           else if px_NoProxy c \<noteq> [] then [(''NO_PROXY'', Value (px_NoProxy c)), (''no_proxy'', Value (px_NoProxy c))]
           else []))"

section \<open>Volumes\<close>

datatype volume_source =
    EmptyDir string
  | EphemeralPVC string string
  | SecretFiles string "(string \<times> string) list"
  | ConfigMapFiles string "(string \<times> string) list"

record volume_mount =
  vm_Name :: string
  vm_MountPath :: string
  vm_ReadOnly :: bool

definition blob_buffer_size :: "worker_storage option \<Rightarrow> string" where
  "blob_buffer_size ws = (case ws of Some s \<Rightarrow> (case ws_Size s of Some q \<Rightarrow> q | None \<Rightarrow> ''10Gi'') | None \<Rightarrow> ''10Gi'')"

definition blob_buffer :: "worker_storage option \<Rightarrow> string \<times> volume_source" where
  "blob_buffer ws =
     (case Option.bind ws ws_StorageClassName of
        Some sc \<Rightarrow> (''blob-buffer'', EphemeralPVC sc (blob_buffer_size ws))
      | None \<Rightarrow> (''blob-buffer'', EmptyDir (blob_buffer_size ws)))"

definition ca_key :: "ca_bundle \<Rightarrow> string" where
  "ca_key ca = (if ca_Key ca = [] then ''ca-bundle.crt'' else ca_Key ca)"

section \<open>The pod\<close>

record worker_pod =
  wp_GenerateName :: string
  wp_Namespace :: string
  wp_Labels :: annotations
  wp_Annotations :: annotations
  wp_RestartPolicy :: string
  wp_ActiveDeadlineSeconds :: int
  wp_ServiceAccountName :: string
  wp_RunAsNonRoot :: bool
  wp_SeccompProfile :: string
  wp_ContainerName :: string
  wp_AllowPrivilegeEscalation :: bool
  wp_DropCapabilities :: "string list"
  wp_Image :: string
  wp_Args :: "string list"
  wp_Env :: "env_var list"
  wp_VolumeMounts :: "volume_mount list"
  wp_Volumes :: "(string \<times> volume_source) list"
  wp_Resources :: string
  wp_NodeSelector :: annotations
  wp_Tolerations :: "string list"
  wp_AntiAffinity :: "(nat \<times> annotations \<times> string) list"
  wp_ImagePullSecrets :: "string list"

text \<open>The terms of the preferred pod anti-affinity: weight, matched labels and topology key.\<close>

definition workerAffinity :: "(nat \<times> annotations \<times> string) list" where
  "workerAffinity = [(100, [(''app'', ''oc-mirror-worker'')], ''kubernetes.io/hostname'')]"

definition workerTokenSecretName :: "mirror_manager \<Rightarrow> string" where
  "workerTokenSecretName m = mm_TargetName m @ ''-worker-token''"

abbreviation CopyTimeout :: int where "CopyTimeout \<equiv> 20 * minute"
abbreviation CopyRetryDelay :: int where "CopyRetryDelay \<equiv> 15 * second"
abbreviation VerifyTimeout :: int where "VerifyTimeout \<equiv> 2 * minute"
abbreviation PlanTimeout :: int where "PlanTimeout \<equiv> 10 * minute"
abbreviation StatusTimeout :: int where "StatusTimeout \<equiv> 10 * second"
abbreviation StatusRetryDelay :: int where "StatusRetryDelay \<equiv> 2 * second"
abbreviation ShouldMirrorTimeout :: int where "ShouldMirrorTimeout \<equiv> 5 * second"

definition ImageBudget :: int where
  "ImageBudget = int CopyAttempts * CopyTimeout + (int CopyAttempts - 1) * CopyRetryDelay + VerifyTimeout"

abbreviation workerBudgetRounding :: int where "workerBudgetRounding \<equiv> 5 * minute"

definition workerImageBudget :: int where
  "workerImageBudget = (ImageBudget + workerBudgetRounding - 1) div workerBudgetRounding * workerBudgetRounding"

definition workerActiveDeadlineSeconds :: "nat \<Rightarrow> int" where
  "workerActiveDeadlineSeconds batchLen = int (if batchLen < 1 then 1 else batchLen) * (workerImageBudget div second)"

definition managerURL :: "mirror_manager \<Rightarrow> string" where
  "managerURL m = ''http://'' @ mm_TargetName m @ ''-manager.'' @ mm_Namespace m @ ''.svc.cluster.local'' @ '':8080''"

definition worker_env :: "(batch_item list \<Rightarrow> string) \<Rightarrow> mirror_manager \<Rightarrow> worker_target \<Rightarrow> batch_item list \<Rightarrow> env_var list" where
  "worker_env batchJSON m mt items =
     [(''MANAGER_URL'', Value (managerURL m)),
      (''WORKER_TOKEN'', SecretKey (workerTokenSecretName m) ''token''),
      (''POD_NAME'', FieldPath ''metadata.name''),
      (''MIRROR_BATCH'', Value (batchJSON items))] @
     (if mt_AuthSecret mt \<noteq> [] then [(''DOCKER_CONFIG'', Value ''/run/secrets/dockerconfig'')] else []) @
     workerProxyEnvVars (mt_Proxy mt) @
     (case mt_CABundle mt of Some ca \<Rightarrow> [(''SSL_CERT_FILE'', Value (''/run/secrets/ca/'' @ ca_key ca))] | None \<Rightarrow> [])"

definition worker_mounts :: "worker_target \<Rightarrow> volume_mount list" where
  "worker_mounts mt =
     [\<lparr>vm_Name = ''blob-buffer'', vm_MountPath = ''/tmp/blob-buffer'', vm_ReadOnly = False\<rparr>] @
     (if mt_AuthSecret mt \<noteq> [] then [\<lparr>vm_Name = ''dockerconfig'', vm_MountPath = ''/run/secrets/dockerconfig'', vm_ReadOnly = True\<rparr>] else []) @
     (case mt_CABundle mt of Some ca \<Rightarrow> [\<lparr>vm_Name = ''ca-bundle'', vm_MountPath = ''/run/secrets/ca'', vm_ReadOnly = True\<rparr>] | None \<Rightarrow> [])"

definition worker_volumes :: "worker_target \<Rightarrow> (string \<times> volume_source) list" where
  "worker_volumes mt =
     [blob_buffer (mt_WorkerStorage mt)] @
     (if mt_AuthSecret mt \<noteq> [] then [(''dockerconfig'', SecretFiles (mt_AuthSecret mt) [(''.dockerconfigjson'', ''config.json'')])] else []) @
     (case mt_CABundle mt of Some ca \<Rightarrow> [(''ca-bundle'', ConfigMapFiles (ca_ConfigMapName ca) [(ca_key ca, ca_key ca)])] | None \<Rightarrow> [])"

definition worker_pod_spec ::
  "(batch_item list \<Rightarrow> string) \<Rightarrow> (string list \<Rightarrow> string) \<Rightarrow> string \<Rightarrow> mirror_manager \<Rightarrow> worker_target \<Rightarrow> batch_item list \<Rightarrow> worker_pod" where
  "worker_pod_spec batchJSON destsJSON img m mt items =
     \<lparr>wp_GenerateName = mt_Name mt @ ''-worker-'', wp_Namespace = mm_Namespace m,
      wp_Labels = [(''app'', ''oc-mirror-worker''), (''mirrortarget'', mm_TargetName m)],
      wp_Annotations = [(''mirror.openshift.io/destinations'', destsJSON (map it_Dest items))],
      wp_RestartPolicy = ''Never'', wp_ActiveDeadlineSeconds = workerActiveDeadlineSeconds (length items),
      wp_ServiceAccountName = mm_TargetName m @ ''-worker'', wp_RunAsNonRoot = True,
      wp_SeccompProfile = ''RuntimeDefault'', wp_ContainerName = ''worker'', wp_AllowPrivilegeEscalation = False,
      wp_DropCapabilities = [''ALL''], wp_Image = img, wp_Args = (if mt_Insecure mt then [''--insecure''] else []),
      wp_Env = worker_env batchJSON m mt items, wp_VolumeMounts = worker_mounts mt, wp_Volumes = worker_volumes mt,
      wp_Resources = mt_WorkerResources mt, wp_NodeSelector = mt_WorkerNodeSelector mt, wp_Tolerations = mt_WorkerTolerations mt,
      wp_AntiAffinity = workerAffinity,
      wp_ImagePullSecrets = (if mt_AuthSecret mt \<noteq> [] then [mt_AuthSecret mt] else [])\<rparr>"

datatype start_error = EncodeError string | OwnerRefError string | CreateError string

text \<open>
  \<open>encodeBatch\<close> is \<open>json.Marshal\<close> of the items, \<open>setOwner\<close> the owner reference, \<open>createPod\<close> the API call that returns the name of the pod.
\<close>

definition startWorkerBatch ::
  "(batch_item list \<Rightarrow> string + string) \<Rightarrow> (string list \<Rightarrow> string) \<Rightarrow> (worker_pod \<Rightarrow> string option) \<Rightarrow> (worker_pod \<Rightarrow> string + string)
    \<Rightarrow> string \<Rightarrow> mirror_manager \<Rightarrow> worker_target \<Rightarrow> batch_item list \<Rightarrow> start_error + string" where
  "startWorkerBatch encodeBatch destsJSON setOwner createPod img m mt items =
     (case encodeBatch items of
        Inl e \<Rightarrow> Inl (EncodeError e)
      | Inr batchJSON \<Rightarrow>
          (let p = worker_pod_spec (\<lambda>_. batchJSON) destsJSON img m mt items
           in case setOwner p of
                Some e \<Rightarrow> Inl (OwnerRefError e)
              | None \<Rightarrow> (case createPod p of Inl e \<Rightarrow> Inl (CreateError e) | Inr podName \<Rightarrow> Inr podName)))"

section \<open>The worker token\<close>

record secret =
  se_Name :: string
  se_Data :: "(string, string) gomap"

datatype token_error = NoTokenKey string | TokenGet kube_error | TokenRandom string | TokenOwner string | TokenCreate kube_error

text \<open>\<open>randomToken\<close> is the hex form of 32 random bytes.\<close>

definition ensureWorkerTokenSecret ::
  "('w \<Rightarrow> string \<Rightarrow> kube_error + secret) \<Rightarrow> ('w \<Rightarrow> secret \<Rightarrow> 'w \<times> kube_error option) \<Rightarrow> string + string \<Rightarrow> string option \<Rightarrow> 'w \<Rightarrow> mirror_manager
    \<Rightarrow> 'w \<times> (token_error + mirror_manager)" where
  "ensureWorkerTokenSecret sget screate randomToken ownerErr w m =
     (let name = workerTokenSecretName m
      in case sget w name of
           Inr existing \<Rightarrow>
             (let tok = mget_str (se_Data existing) ''token''
              in if tok = [] then (w, Inl (NoTokenKey name)) else (w, Inr (m\<lparr>mm_workerToken := tok\<rparr>)))
         | Inl NotFound \<Rightarrow>
             (case randomToken of
                Inl e \<Rightarrow> (w, Inl (TokenRandom e))
              | Inr token \<Rightarrow>
                  (case ownerErr of
                     Some e \<Rightarrow> (w, Inl (TokenOwner e))
                   | None \<Rightarrow>
                       (case screate w \<lparr>se_Name = name, se_Data = [(''token'', token)]\<rparr> of
                          (w', Some e) \<Rightarrow> (w', Inl (TokenCreate e))
                        | (w', None) \<Rightarrow> (w', Inr (m\<lparr>mm_workerToken := token\<rparr>)))))
         | Inl e \<Rightarrow> (w, Inl (TokenGet e)))"

section \<open>Facts\<close>

lemma proxy_names:
  "distinct (map fst (workerProxyEnvVars cfg))"
  "set (map fst (workerProxyEnvVars cfg)) \<subseteq> {''HTTP_PROXY'', ''http_proxy'', ''HTTPS_PROXY'', ''https_proxy'', ''NO_PROXY'', ''no_proxy'', ''KUBERNETES_SERVICE_HOST''}"
  by (auto simp: workerProxyEnvVars_def Let_def split: option.split)

lemma fold_put_dests: "mget (fold (\<lambda>d ip. mput d p ip) ds ip) d = (if d \<in> set ds then Some p else mget ip d)"
  by (induction ds arbitrary: ip) auto

section \<open>Properties\<close>

text \<open>
  The pod of a batch is well formed. Every volume mount has its volume and no two share a name, no environment variable is set twice,
  the bearer token is only referenced through its Secret, the pod runs unprivileged and is never restarted; and when a proxy is configured, the
  manager's host is exempt from it, so status reports never leave the cluster.
\<close>

theorem worker_pod_well_formed:
  "let p = worker_pod_spec batchJSON destsJSON img m mt items
   in map vm_Name (wp_VolumeMounts p) = map fst (wp_Volumes p) \<and> distinct (map fst (wp_Volumes p)) \<and> distinct (map fst (wp_Env p))
      \<and> mget (wp_Env p) ''WORKER_TOKEN'' = Some (SecretKey (mm_TargetName m @ ''-worker-token'') ''token'')
      \<and> wp_RunAsNonRoot p \<and> \<not> wp_AllowPrivilegeEscalation p \<and> wp_RestartPolicy p = ''Never''
      \<and> (\<forall>c. mt_Proxy mt = Some c \<and> (px_HTTPProxy c \<noteq> [] \<or> px_HTTPSProxy c \<noteq> []) \<longrightarrow>
           (\<exists>v. mget (wp_Env p) ''NO_PROXY'' = Some (Value v) \<and> ''.svc.cluster.local'' \<in> set (split_char (CHR '','') v)
             \<and> mget (wp_Env p) ''MANAGER_URL'' = Some (Value (''http://'' @ mm_TargetName m @ ''-manager.'' @ mm_Namespace m @ ''.svc.cluster.local:8080''))))"
proof -
  let ?p = "worker_pod_spec batchJSON destsJSON img m mt items"
  have vols: "map vm_Name (wp_VolumeMounts ?p) = map fst (wp_Volumes ?p)" "distinct (map fst (wp_Volumes ?p))"
    by (simp_all add: worker_pod_spec_def worker_mounts_def worker_volumes_def blob_buffer_def split: option.split)
  have env: "distinct (map fst (wp_Env ?p))"
    using proxy_names [of "mt_Proxy mt"] by (auto simp: worker_pod_spec_def worker_env_def split: option.split)
  have sec: "mget (wp_Env ?p) ''WORKER_TOKEN'' = Some (SecretKey (mm_TargetName m @ ''-worker-token'') ''token'')"
    and url: "mget (wp_Env ?p) ''MANAGER_URL'' = Some (Value (''http://'' @ mm_TargetName m @ ''-manager.'' @ mm_Namespace m @ ''.svc.cluster.local:8080''))"
    and safe: "wp_RunAsNonRoot ?p" "\<not> wp_AllowPrivilegeEscalation ?p" "wp_RestartPolicy ?p = ''Never''"
    by (simp_all add: worker_pod_spec_def worker_env_def workerTokenSecretName_def managerURL_def)
  have np: "mget (wp_Env ?p) ''NO_PROXY'' = Some (Value (workerBuildEffectiveNoProxy (px_NoProxy c)))"
    if "mt_Proxy mt = Some c" "px_HTTPProxy c \<noteq> [] \<or> px_HTTPSProxy c \<noteq> []" for c
    using that by (auto simp: worker_pod_spec_def worker_env_def workerProxyEnvVars_def Let_def)
  have "split_char (CHR '','') (workerBuildEffectiveNoProxy u) = clusterNoProxy @ (if u = [] then [] else split_char (CHR '','') u)" for u
    by (simp add: workerBuildEffectiveNoProxy_def clusterNoProxy_def Let_def split: list.split)
  then have "''.svc.cluster.local'' \<in> set (split_char (CHR '','') (workerBuildEffectiveNoProxy u))" for u
    by (simp add: clusterNoProxy_def)
  then show ?thesis unfolding Let_def using vols env sec safe url np by blast
qed

definition pod_target :: worker_target where
  "pod_target = \<lparr>mt_Name = ''mt'', mt_Registry = ''reg.local'', mt_ImageSets = [''a''], mt_Insecure = False, mt_AuthSecret = ''pull'',
     mt_Concurrency = 1, mt_BatchSize = 50, mt_PollInterval = None, mt_CheckExistInterval = None, mt_MaxRetries = 10,
     mt_Proxy = Some \<lparr>px_HTTPProxy = ''http://proxy'', px_HTTPSProxy = [], px_NoProxy = ''corp''\<rparr>,
     mt_CABundle = Some \<lparr>ca_ConfigMapName = ''ca'', ca_Key = []\<rparr>, mt_WorkerStorage = None, mt_WorkerNodeSelector = [],
     mt_WorkerResources = [], mt_WorkerTolerations = []\<rparr>"

theorem worker_pod_well_formed_witness:
  "\<exists>v. mget (wp_Env (worker_pod_spec (\<lambda>_. ''[]'') (\<lambda>_. ''[]'') ''img'' (new_manager [] [] []) pod_target [])) ''NO_PROXY'' = Some (Value v)
     \<and> ''.svc.cluster.local'' \<in> set (split_char (CHR '','') v)"
proof -
  have "mt_Proxy pod_target = Some \<lparr>px_HTTPProxy = ''http://proxy'', px_HTTPSProxy = [], px_NoProxy = ''corp''\<rparr>"
    by (simp add: pod_target_def)
  moreover have "px_HTTPProxy \<lparr>px_HTTPProxy = ''http://proxy'', px_HTTPSProxy = [], px_NoProxy = ''corp''\<rparr> \<noteq> []" by simp
  ultimately show ?thesis
    using worker_pod_well_formed [of "\<lambda>_. ''[]''" "\<lambda>_. ''[]''" "''img''" "new_manager [] [] []" pod_target "[]"]
    unfolding Let_def by blast
qed

section \<open>Restart\<close>

text \<open>Phase E starts a batch with \<open>startWorkerBatch\<close>; the error of a batch that could not be started is only logged.\<close>

definition start_batch ::
  "(batch_item list \<Rightarrow> string + string) \<Rightarrow> (string list \<Rightarrow> string) \<Rightarrow> (worker_pod \<Rightarrow> string option) \<Rightarrow> (worker_pod \<Rightarrow> string + string)
    \<Rightarrow> string \<Rightarrow> mirror_manager \<Rightarrow> worker_target \<Rightarrow> batch_item list \<Rightarrow> string + string" where
  "start_batch encodeBatch destsJSON setOwner createPod img m wt items =
     (case startWorkerBatch encodeBatch destsJSON setOwner createPod img m wt items of Inl _ \<Rightarrow> Inl ''not started'' | Inr podName \<Rightarrow> Inr podName)"

text \<open>A pod of the listing is one that \<open>startWorkerBatch\<close> created for a batch: it has the annotations of that pod. It carries a destination that is in its batch.\<close>

definition created_for :: "(string list \<Rightarrow> string) \<Rightarrow> pod \<Rightarrow> batch_item list \<Rightarrow> bool" where
  "created_for destsJSON pd items \<longleftrightarrow> (\<exists>batchJSON img m wt. pod_Annotations pd = wp_Annotations (worker_pod_spec batchJSON destsJSON img m wt items))"

definition carries :: "(string list \<Rightarrow> string) \<Rightarrow> pod \<Rightarrow> string \<Rightarrow> bool" where
  "carries destsJSON pd d \<longleftrightarrow> (\<exists>items. created_for destsJSON pd items \<and> d \<in> it_Dest ` set items)"

text \<open>The manager tracks a destination only under a pod that carries it, as far as its pods are listed.\<close>

definition tracking_backed :: "(string list \<Rightarrow> string) \<Rightarrow> pod list \<Rightarrow> mirror_manager \<Rightarrow> bool" where
  "tracking_backed destsJSON pods m \<longleftrightarrow>
     (\<forall>d p. mget (mm_inProgress m) d = Some p \<longrightarrow> (\<forall>pd \<in> set pods. pod_Name pd = p \<longrightarrow> carries destsJSON pd d))"

text \<open>The manager tracks exactly the destinations carried by the pods that are not finished, each under such a pod.\<close>

definition tracks_running :: "(string list \<Rightarrow> string) \<Rightarrow> pod list \<Rightarrow> mirror_manager \<Rightarrow> bool" where
  "tracks_running destsJSON pods m \<longleftrightarrow>
     (\<forall>d. if \<exists>pd \<in> set pods. \<not> finished_phase (pod_Phase pd) \<and> carries destsJSON pd d
          then \<exists>pd \<in> set pods. \<not> finished_phase (pod_Phase pd) \<and> carries destsJSON pd d \<and> mget (mm_inProgress m) d = Some (pod_Name pd)
          else mget (mm_inProgress m) d = None)"

lemma recover_created:
  assumes "\<And>ds. decodeDests (destsJSON ds) = Some ds" and "\<And>ds. destsJSON ds \<noteq> []" and "created_for destsJSON pd items"
  shows "recover_pod decodeDests pd (deleted, m) =
      (if finished_phase (pod_Phase pd) then (deleted @ [pod_Name pd], m)
       else (deleted, m\<lparr>mm_inProgress := fold (\<lambda>d ip. mput d (pod_Name pd) ip) (map it_Dest items) (mm_inProgress m)\<rparr>))"
    and "carries destsJSON pd d \<longleftrightarrow> d \<in> it_Dest ` set items"
proof -
  have ann: "pod_Annotations pd = [(''mirror.openshift.io/destinations'', destsJSON (map it_Dest items))]"
    if "created_for destsJSON pd items" for items
    using that by (auto simp: created_for_def worker_pod_spec_def)
  show "recover_pod decodeDests pd (deleted, m) =
      (if finished_phase (pod_Phase pd) then (deleted @ [pod_Name pd], m)
       else (deleted, m\<lparr>mm_inProgress := fold (\<lambda>d ip. mput d (pod_Name pd) ip) (map it_Dest items) (mm_inProgress m)\<rparr>))"
    using assms(1,2) by (simp add: recover_pod_def ann [OF assms(3)] Let_def mget_default_def)
  have "map it_Dest items' = map it_Dest items" if "created_for destsJSON pd items'" for items'
    using ann [OF that] ann [OF assms(3)] assms(1) by (metis list.inject option.inject prod.inject)
  then show "carries destsJSON pd d \<longleftrightarrow> d \<in> it_Dest ` set items"
    using assms(3) unfolding carries_def by (metis set_map)
qed

lemma tracks_running_step:
  assumes "tracks_running destsJSON pods m"
  shows "finished_phase (pod_Phase pd) \<Longrightarrow> tracks_running destsJSON (pods @ [pd]) m"
    and "\<not> finished_phase (pod_Phase pd) \<Longrightarrow>
      (\<And>d. mget (mm_inProgress m') d = (if carries destsJSON pd d then Some (pod_Name pd) else mget (mm_inProgress m) d)) \<Longrightarrow>
      tracks_running destsJSON (pods @ [pd]) m'"
  using assms by (auto simp: tracks_running_def split: if_splits)

lemma recover_listed:
  assumes "\<And>ds. decodeDests (destsJSON ds) = Some ds" and "\<And>ds. destsJSON ds \<noteq> []" and "mm_inProgress m = []"
    and "\<forall>pd \<in> set pods. \<exists>items. created_for destsJSON pd items"
  shows "\<exists>m'. fold (recover_pod decodeDests) pods ([], m) = (map pod_Name (filter (\<lambda>pd. finished_phase (pod_Phase pd)) pods), m') \<and>
    tracks_running destsJSON pods m'"
  using assms(4)
proof (induction pods rule: rev_induct)
  case Nil
  then show ?case using assms(3) by (simp add: tracks_running_def)
next
  case (snoc pd pods)
  then obtain m1 where m1: "fold (recover_pod decodeDests) pods ([], m) = (map pod_Name (filter (\<lambda>pd. finished_phase (pod_Phase pd)) pods), m1)"
    and run: "tracks_running destsJSON pods m1" by auto
  obtain items where items: "created_for destsJSON pd items" using snoc.prems by auto
  note pd = recover_created [OF assms(1,2) items]
  show ?case
  proof (cases "finished_phase (pod_Phase pd)")
    case True
    then show ?thesis using m1 tracks_running_step(1) [OF run True] pd(1) [of _ m1] by (intro exI [of _ m1]) auto
  next
    case False
    let ?m = "m1\<lparr>mm_inProgress := fold (\<lambda>d ip. mput d (pod_Name pd) ip) (map it_Dest items) (mm_inProgress m1)\<rparr>"
    have "mget (mm_inProgress ?m) d = (if carries destsJSON pd d then Some (pod_Name pd) else mget (mm_inProgress m1) d)" for d
      by (simp add: fold_put_dests pd(2))
    then show ?thesis using m1 tracks_running_step(2) [OF run False] pd(1) [of _ m1] False by (intro exI [of _ ?m]) auto
  qed
qed

text \<open>A dispatch keeps the tracking backed, if the listing shows the pods it creates as they were created.\<close>

lemma dispatch_backed:
  assumes "wf_map (mm_imageState m)"
    and "dispatch_batches (start_batch encodeBatch destsJSON setOwner createPod img m wt) mt (process_entries ev m) = (started, m1)"
    and "\<forall>batchJSON b. \<forall>pd \<in> set pods. createPod (worker_pod_spec batchJSON destsJSON img m wt b) = Inr (pod_Name pd) \<longrightarrow>
      pod_Annotations pd = wp_Annotations (worker_pod_spec batchJSON destsJSON img m wt b)"
    and "tracking_backed destsJSON pods m"
  shows "tracking_backed destsJSON pods m1"
  unfolding tracking_backed_def
proof (intro allI impI ballI)
  let ?start = "start_batch encodeBatch destsJSON setOwner createPod img m wt"
  fix d p pd assume d: "mget (mm_inProgress m1) d = Some p" and pd: "pd \<in> set pods" "pod_Name pd = p"
  show "carries destsJSON pd d"
  proof (cases "d \<in> it_Dest ` set (concat (map snd started))")
    case True
    then obtain p' b i where b: "(p', b) \<in> set started" "i \<in> set b" "d = it_Dest i" by auto
    have "?start b = Inr p'" "mget (mm_inProgress m1) (it_Dest i) = Some p'"
      using dispatch_tracks(1,2) [OF assms(1,2) b(1)] b(2) by blast+
    with b d have "?start b = Inr p" by simp
    then obtain bj where "createPod (worker_pod_spec (\<lambda>_. bj) destsJSON img m wt b) = Inr p"
      by (auto simp: start_batch_def startWorkerBatch_def Let_def split: sum.splits option.splits)
    with assms(3) pd have "created_for destsJSON pd b" unfolding created_for_def by blast
    then show ?thesis using b(2,3) unfolding carries_def by blast
  next
    case False
    then have "mget (mm_inProgress m) d = Some p" using dispatch_tracks(3) [OF assms(1,2)] d by simp
    then show ?thesis using assms(4) pd unfolding tracking_backed_def by blast
  qed
qed

text \<open>
  Property C11. A restarted manager takes up the tracking of the running workers, so no image they are mirroring is sent again. Assumed: the old manager tracks destinations under pods that carry them, it starts further batches with
  \<open>startWorkerBatch\<close>, and the API server lists each pod with the annotations it was created with (a JSON list reads back, pod names are not empty). Then \<open>syncInProgressFromPods\<close> of a new manager deletes
  exactly the finished pods and tracks exactly the destinations carried by the others, each under such a pod. So every destination the old manager tracked, from this or an earlier dispatch, whose pod is listed as not finished is tracked again;
  the old manager's tracking after its dispatch is again backed by the pods; and no dispatch of a manager with the recovered tracking sends any of these destinations.
\<close>

theorem restart_recovers_tracking:
  assumes "\<And>ds. decodeDests (destsJSON ds) = Some ds" and "\<And>ds. destsJSON ds \<noteq> []"
    and "\<forall>batchJSON b. \<forall>pd \<in> set pods. createPod (worker_pod_spec batchJSON destsJSON img m wt b) = Inr (pod_Name pd) \<longrightarrow>
      pod_Annotations pd = wp_Annotations (worker_pod_spec batchJSON destsJSON img m wt b)"
    and "\<forall>pd \<in> set pods. pod_Name pd \<noteq> [] \<and> (\<exists>items. created_for destsJSON pd items)"
    and "tracking_backed destsJSON pods m" and "wf_map (mm_imageState m)"
    and "dispatch_batches (start_batch encodeBatch destsJSON setOwner createPod img m wt) mt (process_entries ev m) = (started, m1)"
    and "mm_inProgress fresh = []"
  shows "\<exists>m2. syncInProgressFromPods decodeDests (Inr pods) fresh = Inr (map pod_Name (filter (\<lambda>pd. finished_phase (pod_Phase pd)) pods), m2) \<and>
    tracks_running destsJSON pods m2 \<and> tracking_backed destsJSON pods m1 \<and>
    (\<forall>d pd. mget (mm_inProgress m1) d = Some (pod_Name pd) \<and> pd \<in> set pods \<and> \<not> finished_phase (pod_Phase pd) \<longrightarrow> mget (mm_inProgress m2) d \<noteq> None) \<and>
    (\<forall>m' start mt' ev' started' m3 d. wf_map (mm_imageState m') \<and> mm_inProgress m' = mm_inProgress m2 \<and>
       dispatch_batches start mt' (process_entries ev' m') = (started', m3) \<and> mget (mm_inProgress m2) d \<noteq> None \<longrightarrow>
         d \<notin> it_Dest ` set (concat (map snd started')))"
proof -
  obtain m2 where m2: "fold (recover_pod decodeDests) pods ([], fresh) = (map pod_Name (filter (\<lambda>pd. finished_phase (pod_Phase pd)) pods), m2)"
    and run: "tracks_running destsJSON pods m2"
    using recover_listed [where decodeDests = decodeDests and destsJSON = destsJSON and pods = pods and m = fresh, OF assms(1,2,8)] assms(4) by blast
  have name: "\<exists>p. mget (mm_inProgress m2) d = Some p \<and> p \<noteq> []" if "mget (mm_inProgress m2) d \<noteq> None" for d
    using run that assms(4) unfolding tracks_running_def by metis
  have backed: "tracking_backed destsJSON pods m1" by (rule dispatch_backed [OF assms(6,7,3,5)])
  have again: "mget (mm_inProgress m2) d \<noteq> None"
    if "mget (mm_inProgress m1) d = Some (pod_Name pd)" "pd \<in> set pods" "\<not> finished_phase (pod_Phase pd)" for d pd
    using run backed that unfolding tracking_backed_def tracks_running_def by (metis option.distinct(1))
  have spared: "d \<notin> it_Dest ` set (concat (map snd started'))"
    if h: "wf_map (mm_imageState m')" "mm_inProgress m' = mm_inProgress m2" "dispatch_batches start mt' (process_entries ev' m') = (started', m3)"
      "mget (mm_inProgress m2) d \<noteq> None" for m' start mt' ev' started' m3 d
  proof -
    have "mget_str (mm_inProgress m') d \<noteq> []" using name [OF h(4)] h(2) by (auto simp: mget_default_def)
    then show ?thesis using dispatch_tracks(4) [OF h(1,3)] by (auto simp: ready_def)
  qed
  show ?thesis
  proof (intro exI [of _ m2] conjI allI impI)
    show "syncInProgressFromPods decodeDests (Inr pods) fresh = Inr (map pod_Name (filter (\<lambda>pd. finished_phase (pod_Phase pd)) pods), m2)"
      using m2 by (simp add: syncInProgressFromPods_def)
  qed (use run backed again spared in blast)+
qed

text \<open>An encoding of lists of strings that can be read back: \<open>c\<close> before every character, \<open>e\<close> after every string.\<close>

definition sample_encode :: "string list \<Rightarrow> string" where
  "sample_encode ds = CHR ''['' # concat (map (\<lambda>d. concat (map (\<lambda>c. [CHR ''c'', c]) d) @ ''e'') ds)"

fun sample_strings :: "string \<Rightarrow> string list" where
  "sample_strings [] = []"
| "sample_strings (k # s) =
     (if k = CHR ''e'' then [] # sample_strings s
      else (case s of [] \<Rightarrow> [] | c # r \<Rightarrow> (case sample_strings r of [] \<Rightarrow> [] | d # ds \<Rightarrow> (c # d) # ds)))"

lemma sample_strings_encode: "sample_strings (concat (map (\<lambda>d. concat (map (\<lambda>c. [CHR ''c'', c]) d) @ ''e'') ds)) = ds"
proof (induction ds)
  case (Cons d ds)
  have "sample_strings (concat (map (\<lambda>c. [CHR ''c'', c]) d) @ ''e'' @ r) = d # sample_strings r" for r
    by (induction d) simp_all
  then show ?case using Cons by simp
qed simp

definition sample_create :: "worker_pod \<Rightarrow> string + string" where
  "sample_create spec = Inr (CHR ''w'' # mget_str (wp_Annotations spec) ''mirror.openshift.io/destinations'')"

definition sample_listing :: "pod list" where
  "sample_listing =
     [\<lparr>pod_Name = CHR ''w'' # sample_encode [''r/b'', ''r/x''], pod_Phase = ''Running'', pod_Creation = Some 0,
       pod_Annotations = [(''mirror.openshift.io/destinations'', sample_encode [''r/b'', ''r/x''])]\<rparr>,
      \<lparr>pod_Name = ''old'', pod_Phase = ''Running'', pod_Creation = Some 0, pod_Annotations = [(''mirror.openshift.io/destinations'', sample_encode [''r/z''])]\<rparr>]"

abbreviation recovered :: "string + string list \<times> mirror_manager" where
  "recovered \<equiv> syncInProgressFromPods (\<lambda>s. Some (sample_strings (tl s))) (Inr sample_listing) (new_manager [] [] [])"

theorem restart_recovers_tracking_witness:
  "\<exists>m2. recovered = Inr ([], m2) \<and> mget (mm_inProgress m2) ''r/b'' \<noteq> None \<and> mget (mm_inProgress m2) ''r/z'' \<noteq> None \<and> mget (mm_inProgress m2) ''r/y'' = None"
proof -
  let ?m = "tick_manager\<lparr>mm_inProgress := [(''r/z'', ''old'')]\<rparr>"
  let ?d = "dispatch_batches (start_batch (\<lambda>_. Inr []) sample_encode (\<lambda>_. None) sample_create ''img'' ?m pod_target) (tick_target\<lparr>mt_Concurrency := 2\<rparr>)
    (process_entries tick_env ?m)"
  have dec: "(\<lambda>s. Some (sample_strings (tl s))) (sample_encode ds) = Some ds" and ne: "sample_encode ds \<noteq> []" for ds
    using sample_strings_encode [of ds] by (simp_all add: sample_encode_def)
  have names: "pod_Name pd = ''old'' \<and> pod_Annotations pd = [(''mirror.openshift.io/destinations'', sample_encode [''r/z''])] \<or>
      pod_Name pd = CHR ''w'' # sample_encode [''r/b'', ''r/x''] \<and> pod_Annotations pd = [(''mirror.openshift.io/destinations'', sample_encode [''r/b'', ''r/x''])]"
    if "pd \<in> set sample_listing" for pd using that by (auto simp: sample_listing_def)
  have listed: "\<forall>bj b. \<forall>pd \<in> set sample_listing. sample_create (worker_pod_spec bj sample_encode ''img'' ?m pod_target b) = Inr (pod_Name pd) \<longrightarrow>
      pod_Annotations pd = wp_Annotations (worker_pod_spec bj sample_encode ''img'' ?m pod_target b)"
    using names by (fastforce simp: sample_create_def worker_pod_spec_def mget_default_def)
  have created: "created_for sample_encode pd items"
    if "pod_Annotations pd = [(''mirror.openshift.io/destinations'', sample_encode (map it_Dest items))]" for pd items
    using that by (auto simp: created_for_def worker_pod_spec_def)
  have good: "\<forall>pd \<in> set sample_listing. pod_Name pd \<noteq> [] \<and> (\<exists>items. created_for sample_encode pd items)"
    using names created [of _ "[\<lparr>it_Source = [], it_Dest = ''r/z''\<rparr>]"]
      created [of _ "[\<lparr>it_Source = [], it_Dest = ''r/b''\<rparr>, \<lparr>it_Source = [], it_Dest = ''r/x''\<rparr>]"] by fastforce
  have carry: "carries sample_encode pd ''r/z''" if "pd \<in> set sample_listing" "pod_Name pd = ''old''" for pd
    using names [OF that(1)] that(2) created [of pd "[\<lparr>it_Source = [], it_Dest = ''r/z''\<rparr>]"] by (force simp: carries_def)
  have backed: "tracking_backed sample_encode sample_listing ?m"
    using carry by (auto simp: tracking_backed_def)
  have wf: "wf_map (mm_imageState ?m)" by (simp add: tick_manager_def new_manager_def)
  have fresh: "mm_inProgress (new_manager [] [] []) = []" by (simp add: new_manager_def)
  have "?d = (fst ?d, snd ?d)" by simp
  note rec = restart_recovers_tracking [where createPod = sample_create and img = "''img''" and m = ?m and wt = pod_target and pods = sample_listing,
      OF dec ne listed good backed wf this fresh]
  obtain m2 where m2: "recovered = Inr (map pod_Name (filter (\<lambda>pd. finished_phase (pod_Phase pd)) sample_listing), m2)"
    and again: "\<forall>d pd. mget (mm_inProgress (snd ?d)) d = Some (pod_Name pd) \<and> pd \<in> set sample_listing \<and> \<not> finished_phase (pod_Phase pd) \<longrightarrow> mget (mm_inProgress m2) d \<noteq> None"
    using rec by blast
  have m1: "mget (mm_inProgress (snd ?d)) ''r/b'' = Some (pod_Name (sample_listing ! 0))" "mget (mm_inProgress (snd ?d)) ''r/z'' = Some (pod_Name (sample_listing ! 1))"
    by code_simp+
  have pods: "sample_listing ! 0 \<in> set sample_listing" "sample_listing ! 1 \<in> set sample_listing" "\<not> finished_phase (pod_Phase (sample_listing ! 0))"
    "\<not> finished_phase (pod_Phase (sample_listing ! 1))" "filter (\<lambda>pd. finished_phase (pod_Phase pd)) sample_listing = []"
    by (simp_all add: sample_listing_def)
  have "map_sum id (\<lambda>dm. mget (mm_inProgress (snd dm)) ''r/y'') recovered = Inr None" by code_simp
  with m2 have "mget (mm_inProgress m2) ''r/y'' = None" by simp
  with again m1 pods m2 show ?thesis by fastforce
qed

text \<open>
  The worker token survives restarts. Once \<open>ensureWorkerTokenSecret\<close> has succeeded, every later start of a manager of the same target,
  whatever random bytes it draws, finds the stored Secret, adopts the same token and writes nothing: the tokens of running workers stay valid.
\<close>

theorem worker_token_stable:
  assumes create: "\<And>w s w'. screate w s = (w', None) \<Longrightarrow> sget w' (se_Name s) = Inr s"
    and rnd: "randomToken \<noteq> Inr []"
    and first: "ensureWorkerTokenSecret sget screate randomToken ownerErr w m = (w', Inr m1)"
    and same: "mm_TargetName m2 = mm_TargetName m"
  shows "mm_workerToken m1 \<noteq> [] \<and> ensureWorkerTokenSecret sget screate randomToken' ownerErr' w' m2 = (w', Inr (m2\<lparr>mm_workerToken := mm_workerToken m1\<rparr>))"
proof -
  let ?n = "workerTokenSecretName m"
  have n: "workerTokenSecretName m2 = ?n" using same by (simp add: workerTokenSecretName_def)
  have "\<exists>s. sget w' ?n = Inr s \<and> mget_str (se_Data s) ''token'' = mm_workerToken m1 \<and> mm_workerToken m1 \<noteq> []"
  proof (cases "sget w ?n")
    case (Inr s)
    then show ?thesis using first by (auto simp: ensureWorkerTokenSecret_def Let_def split: if_splits)
  next
    case (Inl e)
    then show ?thesis
      using first rnd create [of w "\<lparr>se_Name = ?n, se_Data = [(''token'', case randomToken of Inr t \<Rightarrow> t)]\<rparr>"]
      by (auto simp: ensureWorkerTokenSecret_def Let_def split: kube_error.splits sum.splits option.splits prod.splits)
  qed
  then show ?thesis using n by (auto simp: ensureWorkerTokenSecret_def Let_def)
qed

theorem worker_token_stable_witness:
  "\<exists>w'. ensureWorkerTokenSecret (\<lambda>w n. case mget w n of Some s \<Rightarrow> Inr s | None \<Rightarrow> Inl NotFound) (\<lambda>w s. (mput (se_Name s) s w, None))
     (Inr ''ff'') None w' (new_manager [] [] []) = (w', Inr ((new_manager [] [] [])\<lparr>mm_workerToken := ''00''\<rparr>))"
proof -
  let ?get = "\<lambda>w n. case mget w n of Some s \<Rightarrow> Inr s | None \<Rightarrow> Inl NotFound" and ?create = "\<lambda>w s. (mput (se_Name s) s w, None)"
  have "\<exists>w'. ensureWorkerTokenSecret ?get ?create (Inr ''00'') None [] (new_manager [] [] []) =
      (w', Inr ((new_manager [] [] [])\<lparr>mm_workerToken := ''00''\<rparr>))"
    by (simp add: ensureWorkerTokenSecret_def Let_def)
  then obtain w' where "ensureWorkerTokenSecret ?get ?create (Inr ''00'') None [] (new_manager [] [] []) =
      (w', Inr ((new_manager [] [] [])\<lparr>mm_workerToken := ''00''\<rparr>))" by blast
  note first = this
  show ?thesis
    using worker_token_stable [OF _ _ first, where randomToken' = "Inr ''ff''" and ownerErr' = None and ?m2.0 = "new_manager [] [] []"] by auto
qed

end
