(* ===== verification/WorkerReports.thy ===== *)
theory WorkerReports
  imports Worker Lifecycle
begin

text \<open>
  Workers and the manager together: the transport of a worker leads over a network to the handlers of the manager's status API, the
  requirements of a worker on its status sink are discharged for them, and the images of a batch are followed to their reports.
\<close>

section \<open>The wiring\<close>

text \<open>
  The world of a worker: the rest of the world, the manager, and the exchanges between the two so far. What the network does with a request and what the manager and its other clients
  have done since the last one, any change at all, is read from the rest of the world, which moves on with every request; so are the clock, whether the
  mutex is held when a request arrives and whether \<open>tryRLockFor\<close> acquires it. A request may be lost, or be handled and its answer lost.
\<close>

type_synonym 'r world = "'r \<times> mirror_manager \<times> mirror_manager exchange list"

datatype delivery = Answered | AnswerLost | RequestLost

record 'r scheduler =
  sd_env :: "'r \<Rightarrow> env"
  sd_locked :: "'r \<Rightarrow> bool"
  sd_acquired :: "'r \<Rightarrow> bool"
  sd_network :: "'r \<Rightarrow> delivery"
  sd_others :: "'r \<Rightarrow> mirror_manager \<Rightarrow> mirror_manager"
  sd_next :: "'r \<Rightarrow> 'r"

definition answer_of :: "delivery \<Rightarrow> nat \<Rightarrow> nat option" where
  "answer_of net code = (case net of Answered \<Rightarrow> Some code | _ \<Rightarrow> None)"

text \<open>The manager serves its API under one base URL, anything else is answered with 404; the query of a request is the escaped destination.\<close>

definition post_status :: "'r scheduler \<Rightarrow> string \<Rightarrow> 'r world \<Rightarrow> string \<Rightarrow> string \<Rightarrow> status_request \<Rightarrow> 'r world \<times> nat option" where
  "post_status sd base w url auth req = (case w of (r, m0, log) \<Rightarrow>
     (let m = sd_others sd r m0; net = sd_network sd r;
          (code, m') = (if net = RequestLost then (0, m)
            else if url \<noteq> base @ ''/status'' then (404, m)
            else handleStatusUpdate (sd_env sd r) (sd_locked sd r) \<lparr>hq_Method = POST, hq_Authorization = auth, hq_Body = Some req, hq_Dest = []\<rparr> m);
          answer = answer_of net code
      in ((sd_next sd r, m', log @ [Posted req answer m']), answer)))"

definition query_dest :: "string \<Rightarrow> string" where
  "query_dest query = (case QueryUnescape query of Some d \<Rightarrow> d | None \<Rightarrow> [])"

definition get_should_mirror :: "'r scheduler \<Rightarrow> string \<Rightarrow> 'r world \<Rightarrow> string \<Rightarrow> string \<Rightarrow> 'r world \<times> nat option" where
  "get_should_mirror sd base w url auth = (case w of (r, m0, log) \<Rightarrow>
     (let path = base @ ''/should-mirror?dest='';
          m = sd_others sd r m0;
          dest = query_dest (drop (length path) url);
          code = (if \<not> hasPrefix url path then 404
            else handleShouldMirror (sd_acquired sd r) \<lparr>hq_Method = GET, hq_Authorization = auth, hq_Body = None, hq_Dest = dest\<rparr> m);
          answer = answer_of (sd_network sd r) code
      in ((sd_next sd r, m, log @ [Asked dest answer m]), answer)))"

text \<open>The registry operations of a worker, on the rest of the world.\<close>

record ('r, 'c, 'e, 'f) registry_ops =
  ro_NewClient :: "string \<Rightarrow> 'c"
  ro_newRef :: "string \<Rightarrow> 'e + 'f rc_ref"
  ro_manifestGet :: "'r \<Rightarrow> 'c \<Rightarrow> 'f rc_ref \<Rightarrow> 'e + 'e manifest"
  ro_copy :: "'c \<Rightarrow> 'r \<Rightarrow> string \<Rightarrow> string \<Rightarrow> 'r \<times> (string + string)"
  ro_buffered :: "'c \<Rightarrow> ('r \<Rightarrow> string \<Rightarrow> string \<Rightarrow> 'r \<times> (string + string)) option"
  ro_digest :: "'c \<Rightarrow> 'r \<Rightarrow> string \<Rightarrow> 'r \<times> (string + string)"
  ro_chart :: "'c \<Rightarrow> ('r \<Rightarrow> string \<Rightarrow> string \<Rightarrow> 'r \<times> (string + string)) option"

definition lift_op :: "('r \<Rightarrow> 'r \<times> 'x) \<Rightarrow> 'r world \<Rightarrow> 'r world \<times> 'x" where
  "lift_op f w = (case w of (r, m, log) \<Rightarrow> (case f r of (r', res) \<Rightarrow> ((r', m, log), res)))"

text \<open>The worker of a pod of the manager: its transport reaches the handlers, and batches are ordered by the planner.\<close>

definition manager_base :: "string \<Rightarrow> string" where
  "manager_base host = ''http://'' @ host"

definition wired_client :: "string \<Rightarrow> string \<Rightarrow> char \<times> string \<Rightarrow> status_client" where
  "wired_client host token pod =
     StatusClientFromEnv (mget_str [(''MANAGER_URL'', manager_base host), (''POD_NAME'', fst pod # snd pod), (''WORKER_TOKEN'', token)])"

lemma wired_client_simps [simp]:
  "sc_ManagerURL (wired_client host token pod) = manager_base host" "sc_PodName (wired_client host token pod) = fst pod # snd pod"
  "sc_Token (wired_client host token pod) = token"
  by (simp_all add: wired_client_def StatusClientFromEnv_def)

definition wired :: "'r scheduler \<Rightarrow> ('r, 'c, 'e, 'f) registry_ops \<Rightarrow> string \<Rightarrow> string \<Rightarrow> char \<times> string \<Rightarrow> ('r world, 'c) worker" where
  "wired sd ro host token pod =
     \<lparr>wk_NewClient = ro_NewClient ro,
      wk_Plan = Some (\<lambda>w c. planWithMirrorClient (ro_chart ro c \<noteq> None) (ro_newRef ro) (ro_manifestGet ro (fst w) c)),
      wk_copy = (\<lambda>c w a b. lift_op (\<lambda>r. ro_copy ro c r a b) w),
      wk_buffered = (\<lambda>c. map_option (\<lambda>f w a b. lift_op (\<lambda>r. f r a b) w) (ro_buffered ro c)),
      wk_digest = (\<lambda>c w a. lift_op (\<lambda>r. ro_digest ro c r a) w),
      wk_chart = (\<lambda>c. map_option (\<lambda>f w a b. lift_op (\<lambda>r. f r a b) w) (ro_chart ro c)),
      wk_Status = Some (wired_client host token pod),
      wk_transport = \<lparr>tp_url = (\<lambda>_. True), tp_post = post_status sd (manager_base host), tp_get = get_should_mirror sd (manager_base host)\<rparr>\<rparr>"

section \<open>The interpretation\<close>

text \<open>
  What the answers of the manager mean. A report it has acknowledged is in its queue, or has been applied: the destination is not in progress, and its entry, if there is one, is Mirrored, or Failed
  with the reported error. A destination it answers 410 for is not in the working set, is Mirrored, or has a successful report in the queue.
\<close>

definition report_accepted :: "status_request \<Rightarrow> mirror_manager \<Rightarrow> bool" where
  "report_accepted req m \<longleftrightarrow> req \<in> set (mm_statusQueue m) \<or>
     mget (mm_inProgress m) (rq_Destination req) = None \<and>
     (case mget (mm_imageState m) (rq_Destination req) of
        None \<Rightarrow> True
      | Some e \<Rightarrow> State e = (if rq_Error req = [] then stateMirrored else stateFailed) \<and> LastError e = rq_Error req)"

definition image_done :: "mirror_manager \<Rightarrow> string \<Rightarrow> bool" where
  "image_done m d \<longleftrightarrow>
     (\<exists>req \<in> set (mm_statusQueue m). rq_Destination req = d \<and> rq_Error req = []) \<or>
     (case mget (mm_imageState m) d of None \<Rightarrow> True | Some e \<Rightarrow> State e = stateMirrored)"

lemma settled_accepted: "settled req m \<Longrightarrow> report_accepted req (m\<lparr>mm_urgentFlush := b\<rparr>)"
  by (auto simp: settled_def report_accepted_def split: option.splits if_splits)

lemma status_acknowledged:
  assumes "handleStatusUpdate ev locked \<lparr>hq_Method = POST, hq_Authorization = auth, hq_Body = Some req, hq_Dest = d\<rparr> m = (code, m')" and "code = 200"
  shows "report_accepted req m'"
proof (cases locked)
  case True
  then show ?thesis using assms by (auto simp: handleStatusUpdate_def enqueueStatus_def report_accepted_def Let_def split: if_splits)
next
  case False
  have "drainStatusQueueLocked ev (enqueueStatus req m) = applyStatusLocked ev req (fold (applyStatusLocked ev) (mm_statusQueue m) (m\<lparr>mm_statusQueue := []\<rparr>))"
    by (simp add: drainStatusQueueLocked_def enqueueStatus_def)
  moreover have "m' = (drainStatusQueueLocked ev (enqueueStatus req m))\<lparr>mm_urgentFlush := True\<rparr>"
    using assms False by (auto simp: handleStatusUpdate_def Let_def split: if_splits)
  ultimately show ?thesis using settled_accepted [OF settled_after] by simp
qed

lemma gone_done:
  assumes "handleShouldMirror acquired \<lparr>hq_Method = GET, hq_Authorization = auth, hq_Body = None, hq_Dest = d\<rparr> m = 410"
  shows "image_done m d"
  using assms by (auto simp: handleShouldMirror_def image_done_def queuedSuccess_def split: if_splits option.splits)

lemma handleStatusUpdate_code: "fst (handleStatusUpdate ev locked r m) \<in> {200, 400, 401, 405}"
  by (simp add: handleStatusUpdate_def Let_def split: option.split)

lemma wired_post:
  "\<exists>w' answer m. post_status sd base w (base @ ''/status'') auth req = (w', answer) \<and>
     snd (snd w') = snd (snd w) @ [Posted req answer m] \<and> (success_code answer \<longrightarrow> report_accepted req m)"
proof -
  obtain r m0 log where w: "w = (r, m0, log)" by (cases w) auto
  let ?m = "sd_others sd r m0"
  obtain code m' where h: "handleStatusUpdate (sd_env sd r) (sd_locked sd r) \<lparr>hq_Method = POST, hq_Authorization = auth, hq_Body = Some req, hq_Dest = []\<rparr> ?m = (code, m')"
    by force
  have "code \<in> {200, 400, 401, 405}" using handleStatusUpdate_code h by (metis fst_conv)
  then have "code = 200 \<or> \<not> success_code (Some code)" by (auto simp: success_code_def)
  then have "success_code (Some code) \<longrightarrow> report_accepted req m'" using status_acknowledged [OF h] by blast
  moreover have "\<not> success_code None" by (simp add: success_code_def)
  ultimately show ?thesis using h by (cases "sd_network sd r") (auto simp: post_status_def w answer_of_def Let_def)
qed

lemma wired_get:
  "\<exists>w' answer m. get_should_mirror sd base w (base @ ''/should-mirror?dest='' @ QueryEscape d) auth = (w', answer) \<and>
     snd (snd w') = snd (snd w) @ [Asked d answer m] \<and> (answer = Some 410 \<longrightarrow> image_done m d)"
proof -
  obtain r m0 log where w: "w = (r, m0, log)" by (cases w) auto
  have pre: "hasPrefix ((base @ p) @ x) (base @ p)" and post: "drop (length (base @ p)) ((base @ p) @ x) = x" for p x
    by (simp_all only: hasPrefix_append) (simp del: append_assoc)
  let ?m = "sd_others sd r m0"
  let ?code = "handleShouldMirror (sd_acquired sd r) \<lparr>hq_Method = GET, hq_Authorization = auth, hq_Body = None, hq_Dest = d\<rparr> ?m"
  have "get_should_mirror sd base w (base @ ''/should-mirror?dest='' @ QueryEscape d) auth =
      ((sd_next sd r, ?m, log @ [Asked d (answer_of (sd_network sd r) ?code) ?m]), answer_of (sd_network sd r) ?code)"
    unfolding get_should_mirror_def Let_def append_assoc [symmetric] w
    by (simp only: prod.case pre post query_dest_def QueryUnescape_QueryEscape option.case not_True_eq_False if_False)
  moreover have "answer_of (sd_network sd r) ?code = Some 410 \<longrightarrow> image_done ?m d"
    using gone_done [of "sd_acquired sd r" auth d ?m] by (auto simp: answer_of_def split: delivery.splits)
  ultimately show ?thesis unfolding w by auto
qed

lemma lift_op_keeps: "snd (snd (fst (lift_op f w))) = snd (snd w)"
  by (cases w) (simp add: lift_op_def split: prod.split)

interpretation status_api: report_sink "wired sd ro host token pod" "wired_client host token pod" "\<lambda>w. snd (snd w)" image_done report_accepted
  for sd :: "'r scheduler" and ro :: "('r, 'c, 'e, 'f) registry_ops" and host token pod
proof unfold_locales
  fix w :: "'r world" and req d
  show "\<exists>w' answer m. tp_post (wk_transport (wired sd ro host token pod)) w (sc_ManagerURL (wired_client host token pod) @ ''/status'')
      (''Bearer '' @ sc_Token (wired_client host token pod)) req = (w', answer) \<and>
      snd (snd w') = snd (snd w) @ [Posted req answer m] \<and> (success_code answer \<longrightarrow> report_accepted req m)"
    using wired_post [of sd "manager_base host" w _ req] by (simp add: wired_def)
  show "\<exists>w' answer m. tp_get (wk_transport (wired sd ro host token pod)) w (sc_ManagerURL (wired_client host token pod) @ ''/should-mirror?dest='' @ QueryEscape d)
      (''Bearer '' @ sc_Token (wired_client host token pod)) = (w', answer) \<and>
      snd (snd w') = snd (snd w) @ [Asked d answer m] \<and> (answer = Some 410 \<longrightarrow> image_done m d)"
    using wired_get [of sd "manager_base host" w d] by (simp add: wired_def)
qed (auto simp: wired_def manager_base_def lift_op_keeps)

lemma wired_plan:
  assumes "wk_Plan (wired sd ro host token pod) = Some plan"
  shows "mset (case_prod zip (plan w c (map it_Source items) (map it_Dest items))) = mset (zip (map it_Source items) (map it_Dest items))"
  using assms PlanMirrorOrder_perm [of "map it_Dest items" "map it_Source items" "ro_newRef ro" "ro_manifestGet ro (fst w) c"]
  by (auto simp: wired_def planWithMirrorClient_def)

section \<open>Property\<close>

text \<open>
  Property C3. No image of a batch gets lost unnoticed between worker and manager, whatever the registry answers, the network loses (a request, or only its answer) and the manager does between two requests. A worker that runs a batch
  to its end handles every item once, one after the other. It first asks the manager, and skips the item only on a 410, given in a state in which the image is done: unknown, Mirrored, or with a success in the queue. Otherwise it reports
  what it has come to since: no error and the digest the registry gives for the copy, or the error of a failed attempt or digest check. It posts the report at most three times and stops at the first
  acknowledgement; the manager that acknowledged it then has the report in its queue, or the image (if it knows it) Mirrored or Failed with exactly that error and not in progress. Without an acknowledgement it has posted three times. The
  batch fails iff the outcome of some item is a failure.
\<close>

theorem batch_settles_images:
  assumes "RunBatch (wired sd ro host token pod) items (r, m, []) = ((r', m', log), failed)"
  shows "\<exists>order rs. mset order = mset (zip (map it_Source items) (map it_Dest items)) \<and> length rs = length order \<and> log = concat (map fst rs) \<and>
    (\<forall>i < length order. item_fate (wired sd ro host token pod) (\<lambda>w. snd (snd w)) image_done report_accepted (fst pod # snd pod)
       (concat (map fst (take i rs))) (order ! i) (rs ! i)) \<and>
    failed = (\<exists>r \<in> set rs. \<not> snd r)"
proof -
  have "\<exists>order rs. mset order = mset (zip (map it_Source items) (map it_Dest items)) \<and> snd (snd (r', m', log)) = snd (snd (r, m, [])) @ concat (map fst rs) \<and>
      batch_fates (item_fate (wired sd ro host token pod) (\<lambda>w. snd (snd w)) image_done report_accepted (sc_PodName (wired_client host token pod)))
        (snd (snd (r, m, []))) order rs \<and> failed = (\<exists>r \<in> set rs. \<not> snd r)"
    by (rule status_api.RunBatch_fates [OF assms]) (rule wired_plan)
  then obtain order rs where o: "mset order = mset (zip (map it_Source items) (map it_Dest items))" "log = concat (map fst rs)"
    and f: "batch_fates (item_fate (wired sd ro host token pod) (\<lambda>w. snd (snd w)) image_done report_accepted (fst pod # snd pod)) [] order rs"
    and failed: "failed = (\<exists>r \<in> set rs. \<not> snd r)"
    by auto
  show ?thesis using o failed batch_fates_length [OF f] batch_fates_nth [OF f] by auto
qed

text \<open>A registry that accepts every copy and answers a fixed digest, and a manager behind a network that loses the second and the third exchange.\<close>

definition good_registry :: "(nat, string, string, string) registry_ops" where
  "good_registry = \<lparr>ro_NewClient = (\<lambda>d. d), ro_newRef = (\<lambda>s. Inl ''no ref''), ro_manifestGet = (\<lambda>r c f. Inl ''no manifest''),
     ro_copy = (\<lambda>c r a b. (r, Inr b)), ro_buffered = (\<lambda>c. None), ro_digest = (\<lambda>c r a. (r, Inr ''sha256:1'')), ro_chart = (\<lambda>c. Some (\<lambda>r a b. (r, Inl ''no chart'')))\<rparr>"

definition lossy_scheduler :: "nat scheduler" where
  "lossy_scheduler = \<lparr>sd_env = (\<lambda>r. \<lparr>ev_now = int r, ev_rand = (\<lambda>_. 0)\<rparr>), sd_locked = (\<lambda>r. False), sd_acquired = (\<lambda>r. True),
     sd_network = (\<lambda>r. if r = 1 then RequestLost else if r = 2 then AnswerLost else Answered), sd_others = (\<lambda>r m. m), sd_next = Suc\<rparr>"

definition batch_sample :: "batch_item list" where
  "batch_sample = [\<lparr>it_Source = ''q/b'', it_Dest = ''r/b''\<rparr>]"

abbreviation sample_run :: "nat world \<times> bool" where
  "sample_run \<equiv> RunBatch (wired lossy_scheduler good_registry ''mgr'' (mm_workerToken tick_manager) (CHR ''p'', [])) batch_sample (0, tick_manager, [])"

theorem batch_settles_images_witness:
  "\<exists>order (rs :: (mirror_manager exchange list \<times> bool) list). mset order = mset [(''q/b'', ''r/b'')] \<and> length rs = 1 \<and> snd (snd (fst sample_run)) = concat (map fst rs) \<and> length (concat (map fst rs)) = 4 \<and>
     \<not> snd sample_run \<and> map_option State (mget (mm_imageState (fst (snd (fst sample_run)))) ''r/b'') = Some stateMirrored"
proof -
  have run: "sample_run = ((fst (fst sample_run), fst (snd (fst sample_run)), snd (snd (fst sample_run))), snd sample_run)" by simp
  have facts: "length (snd (snd (fst sample_run))) = 4" "\<not> snd sample_run"
    "map_option State (mget (mm_imageState (fst (snd (fst sample_run)))) ''r/b'') = Some stateMirrored" by code_simp+
  from batch_settles_images [OF run] show ?thesis
  proof (elim exE conjE)
    fix order and rs :: "(mirror_manager exchange list \<times> bool) list"
    assume o: "mset order = mset (zip (map it_Source batch_sample) (map it_Dest batch_sample))" "length rs = length order"
      and log: "snd (snd (fst sample_run)) = concat (map fst rs)"
    have ord: "mset order = mset [(''q/b'', ''r/b'')]" using o(1) by (simp add: batch_sample_def)
    have len: "length rs = 1" using mset_eq_length [OF o(1)] o(2) by (simp add: batch_sample_def)
    have posts: "length (concat (map fst rs)) = 4" using facts(1) unfolding log .
    show ?thesis by (rule exI [of _ order], rule exI [of _ rs]) (intro conjI ord len log posts facts(2,3))
  qed
qed

end
