(* ===== verification/Resources.thy ===== *)
theory Resources
  imports ImageRef Signature ImageState HelmSource
begin

text \<open>
  The cluster resources generated from the mirrored state and the summaries of operator catalogs
  (\<open>pkg/mirror/resources/resources.go\<close>). A generated document is its object before \<open>yaml.Marshal\<close>, a \<^typ>\<open>json\<close> value. File-based
  catalogs are records after the fields of \<open>declcfg.DeclarativeConfig\<close> the code reads.
\<close>

section \<open>References\<close>

definition splitImageRef_res :: "string \<Rightarrow> string \<times> string" where
  "splitImageRef_res r =
     (let (repo1, digest) = (case str_index r ''@'' of Some i \<Rightarrow> (take i r, drop i r) | None \<Rightarrow> (r, []));
          (repo2, tag) = (case last_index repo1 '':'' of
             Some i \<Rightarrow> (let afterColon = drop (i + 1) repo1
                       in if contains afterColon ''/'' then (repo1, []) else (take i repo1, '':'' @ afterColon))
           | None \<Rightarrow> (repo1, []))
      in if digest \<noteq> [] then (repo2, digest) else (repo2, tag))"

definition repoOnly :: "string \<Rightarrow> string" where
  "repoOnly r = fst (splitImageRef_res r)"

definition isDigestRef :: "string \<Rightarrow> bool" where
  "isDigestRef r \<longleftrightarrow> contains r ''@sha256:''"

definition isTagRef :: "string \<Rightarrow> bool" where
  "isTagRef r \<longleftrightarrow> \<not> contains r ''@'' \<and> contains r '':''"

section \<open>Mirror sets\<close>

text \<open>The set of mirror repositories of a source repository is a list without duplicates.\<close>

definition add_mirror :: "(string \<Rightarrow> bool) \<Rightarrow> string \<times> image_entry \<Rightarrow> (string, string list) gomap \<Rightarrow> (string, string list) gomap" where
  "add_mirror sel de mirrorMap = (case de of (dest, entry) \<Rightarrow>
     if State entry \<noteq> ''Mirrored'' then mirrorMap
     else if \<not> sel (Source entry) then mirrorMap
     else (let srcRepo = repoOnly (Source entry); destRepo = repoOnly dest
           in if srcRepo = destRepo then mirrorMap
              else mput srcRepo (List.insert destRepo (mget_list mirrorMap srcRepo)) mirrorMap))"

definition sorted_mirrors :: "(string, string list) gomap \<Rightarrow> (string \<times> string list) list" where
  "sorted_mirrors mirrorMap = map (\<lambda>src. (src, sort (mget_list mirrorMap src))) (sort (mkeys mirrorMap))"

definition mirror_list :: "(string \<Rightarrow> bool) \<Rightarrow> image_state \<Rightarrow> (string \<times> string list) list" where
  "mirror_list sel st = sorted_mirrors (fold (add_mirror sel) st [])"

definition mirror_set_object :: "string \<Rightarrow> string \<Rightarrow> string \<Rightarrow> (string \<times> string list) list \<Rightarrow> json" where
  "mirror_set_object kind listField name ms =
     JObj [(''apiVersion'', JStr ''config.openshift.io/v1''), (''kind'', JStr kind), (''metadata'', JObj [(''name'', JStr name)]),
       (''spec'', JObj [(listField, JArr (map (\<lambda>(src, mirrors). JObj [(''source'', JStr src), (''mirrors'', JArr (map JStr mirrors))]) ms))])]"

definition GenerateIDMS :: "string \<Rightarrow> image_state \<Rightarrow> json" where
  "GenerateIDMS name st = mirror_set_object ''ImageDigestMirrorSet'' ''imageDigestMirrors'' name (mirror_list isDigestRef st)"

definition GenerateITMS :: "string \<Rightarrow> image_state \<Rightarrow> json" where
  "GenerateITMS name st = mirror_set_object ''ImageTagMirrorSet'' ''imageTagMirrors'' name (mirror_list isTagRef st)"

section \<open>Catalog resources\<close>

record catalog_info =
  ci_SourceCatalog :: string
  ci_TargetImage :: string
  ci_DisplayName :: string

definition GenerateCatalogSource :: "string \<Rightarrow> string \<Rightarrow> catalog_info \<Rightarrow> string \<Rightarrow> json" where
  "GenerateCatalogSource name namespace cat pullSecretName =
     JObj [(''apiVersion'', JStr ''operators.coreos.com/v1alpha1''), (''kind'', JStr ''CatalogSource''),
       (''metadata'', JObj [(''name'', JStr name), (''namespace'', JStr namespace)]),
       (''spec'', JObj ([(''sourceType'', JStr ''grpc''), (''image'', JStr (ci_TargetImage cat)), (''displayName'', JStr (ci_DisplayName cat)),
          (''publisher'', JStr ''oc-mirror-operator''),
          (''updateStrategy'', JObj [(''registryPoll'', JObj [(''interval'', JStr ''10m'')])])] @
          (if pullSecretName \<noteq> [] then [(''secrets'', JArr [JStr pullSecretName])] else [])))]"

definition GenerateClusterCatalog :: "string \<Rightarrow> catalog_info \<Rightarrow> json" where
  "GenerateClusterCatalog name cat =
     JObj [(''apiVersion'', JStr ''olm.operatorframework.io/v1''), (''kind'', JStr ''ClusterCatalog''),
       (''metadata'', JObj [(''name'', JStr name)]),
       (''spec'', JObj [(''source'', JObj [(''type'', JStr ''Image''), (''image'', JObj [(''ref'', JStr (ci_TargetImage cat))])])])]"

definition CatalogTargetImage :: "string \<Rightarrow> operator \<Rightarrow> string" where
  "CatalogTargetImage registry op =
     (let tag1 = (if op_TargetTag op = [] then
                    (let catalogForTag = (case str_index (op_Catalog op) ''@'' of Some i \<Rightarrow> take i (op_Catalog op) | None \<Rightarrow> op_Catalog op)
                     in case last_index catalogForTag '':'' of
                          Some i \<Rightarrow> if contains (drop i catalogForTag) ''/'' then [] else drop (i + 1) catalogForTag
                        | None \<Rightarrow> [])
                  else op_TargetTag op);
          tag = (if tag1 = [] then ''latest'' else tag1)
      in if op_TargetCatalog op \<noteq> [] then registry @ ''/'' @ op_TargetCatalog op @ '':'' @ tag
         else (let path = (case splitN2 (op_Catalog op) ''/'' of [_, rest] \<Rightarrow> rest | _ \<Rightarrow> op_Catalog op)
               in registry @ ''/'' @ takeWhile (\<lambda>c. c \<noteq> CHR '':'' \<and> c \<noteq> CHR ''@'') path @ '':'' @ tag))"

definition CatalogSlug :: "string \<Rightarrow> string" where
  "CatalogSlug source =
     (case splitImageRef_res source of (repo, tagOrDigest) \<Rightarrow>
        (let base = last (split_char (CHR ''/'') repo)
         in if tagOrDigest \<noteq> [] \<and> \<not> hasPrefix tagOrDigest ''@'' then
              base @ ''-'' @ map (\<lambda>c. if c = CHR '':'' \<or> c = CHR ''/'' \<or> c = CHR '' '' then CHR ''-'' else c) (trimPrefix tagOrDigest '':'')
            else base))"

section \<open>Release signatures\<close>

text \<open>The ConfigMap of one signature; \<open>hashPart[:12]\<close> of a shorter hash panics, the value \<^const>\<open>None\<close>.\<close>

definition signature_configmap :: "string \<Rightarrow> 'b \<Rightarrow> (string \<times> string \<times> 'b) option" where
  "signature_configmap digest sig =
     (let hashPart = trimPrefix digest ''sha256:''
      in if length hashPart < 12 then None
         else Some (''sha256-'' @ take 12 hashPart @ ''-1'', ''sha256-'' @ hashPart @ ''-1'', sig))"

definition GenerateSignatureConfigMaps :: "(string, 'b) gomap \<Rightarrow> (string \<times> string \<times> 'b) list option" where
  "GenerateSignatureConfigMaps signatures =
     those (map (\<lambda>digest. signature_configmap digest (the (mget signatures digest))) (sort (mkeys signatures)))"

text \<open>\<open>dec\<close> is the base64 decoding, with the position of an error.\<close>

fun decode_signatures :: "(string \<Rightarrow> string + 'b) \<Rightarrow> (string, string) gomap \<Rightarrow> (string, 'b) gomap \<Rightarrow> string + (string, 'b) gomap" where
  "decode_signatures dec [] raw = Inr raw"
| "decode_signatures dec ((digest, b64) # rest) raw =
     (case dec b64 of Inl e \<Rightarrow> Inl (''failed to decode signature for '' @ digest @ '': '' @ e)
      | Inr data \<Rightarrow> decode_signatures dec rest (mput digest data raw))"

definition GenerateSignatureConfigMapsBase64 ::
  "(string \<Rightarrow> string + 'b) \<Rightarrow> (string, string) gomap \<Rightarrow> string + (string \<times> string \<times> 'b) list option" where
  "GenerateSignatureConfigMapsBase64 dec signatures =
     (case decode_signatures dec signatures [] of Inl e \<Rightarrow> Inl e | Inr raw \<Rightarrow> Inr (GenerateSignatureConfigMaps raw))"

section \<open>File-based catalogs\<close>

record fbc_entry =
  en_Name :: string
  en_Replaces :: string
  en_Skips :: "string list"
  en_SkipRange :: string

record fbc_channel =
  fc_Name :: string
  fc_Package :: string
  fc_Entries :: "fbc_entry list"

record fbc_property =
  pr_Type :: string
  pr_Value :: string

record fbc_bundle =
  fb_Name :: string
  fb_Package :: string
  fb_Image :: string
  fb_Properties :: "fbc_property list"
  fb_RelatedImages :: "string list"

record fbc_package =
  fp_Name :: string
  fp_DefaultChannel :: string

record fbc =
  cf_Packages :: "fbc_package list"
  cf_Channels :: "fbc_channel list"
  cf_Bundles :: "fbc_bundle list"

definition ConventionalBundleName :: "string \<Rightarrow> string \<Rightarrow> string" where
  "ConventionalBundleName pkg version = pkg @ ''.v'' @ version"

text \<open>\<open>versionOf\<close> is the \<open>version\<close> field of a property value that is valid JSON, the empty string otherwise.\<close>

definition bundleVersion :: "(string \<Rightarrow> string) \<Rightarrow> fbc_bundle \<Rightarrow> string" where
  "bundleVersion versionOf b =
     (case filter (\<lambda>p. pr_Type p = ''olm.package'' \<and> versionOf (pr_Value p) \<noteq> []) (fb_Properties b) of
        p # _ \<Rightarrow> versionOf (pr_Value p)
      | [] \<Rightarrow>
          (case last_index (fb_Name b) ''.v'' of
             Some idx \<Rightarrow>
               (let candidate = drop (idx + 2) (fb_Name b)
                in if candidate \<noteq> [] \<and> CHR ''0'' \<le> hd candidate \<and> hd candidate \<le> CHR ''9'' then candidate else [])
           | None \<Rightarrow> []))"

definition channelHeadNames :: "fbc_channel \<Rightarrow> string list" where
  "channelHeadNames ch =
     (let replaced = concat (map (\<lambda>e. (if en_Replaces e \<noteq> [] then [en_Replaces e] else []) @ en_Skips e) (fc_Entries ch));
          heads = filter (\<lambda>n. n \<notin> set replaced) (map en_Name (fc_Entries ch))
      in if heads = [] \<and> fc_Entries ch \<noteq> [] then [en_Name (last (fc_Entries ch))] else heads)"

text \<open>
  The number \<open>fmt.Sscanf\<close> reads with \<open>%d\<close> from a part of a version: a sign and digits at the start, 0 if there are none or the value does not fit an \<open>int\<close>.
\<close>

definition digits_value :: "string \<Rightarrow> int" where
  "digits_value ds = fold (\<lambda>c n. 10 * n + (of_char c - 48)) ds 0"

definition scan_int :: "string \<Rightarrow> int" where
  "scan_int s =
     (let (neg, r) = (case s of c # cs \<Rightarrow> if c = CHR ''-'' then (True, cs) else if c = CHR ''+'' then (False, cs) else (False, s) | [] \<Rightarrow> (False, s));
          v = digits_value (takeWhile (\<lambda>c. CHR ''0'' \<le> c \<and> c \<le> CHR ''9'') r);
          n = (if neg then - v else v)
      in if - (2 ^ 63) \<le> n \<and> n < 2 ^ 63 then n else 0)"

definition version_numbers :: "string \<Rightarrow> int list" where
  "version_numbers v =
     (let parts = split_char (CHR ''.'') v in map (\<lambda>k. if k < length parts then scan_int (parts ! k) else 0) [0, 1, 2])"

text \<open>The order compares the three numbers first and then the strings, which the stable sort by the numbers does on a sorted list.\<close>

definition sortVersionStrings :: "string list \<Rightarrow> string list" where
  "sortVersionStrings versions = sort_key version_numbers (sort versions)"

record bundle_entry =
  be_Name :: string
  be_Version :: string

record channel_summary =
  cs_Name :: string
  cs_Entries :: "bundle_entry list"
  cs_Versions :: "string list"
  cs_BundleNames :: "(string, string) gomap"

record package_summary =
  ps_Name :: string
  ps_DefaultChannel :: string
  ps_Channels :: "channel_summary list"

record packages_response =
  pk_Catalog :: string
  pk_TargetImage :: string
  pk_Packages :: "package_summary list"

definition bundle_versions :: "(string \<Rightarrow> string) \<Rightarrow> fbc \<Rightarrow> (string, string) gomap" where
  "bundle_versions versionOf cfg = fold (\<lambda>b m. mput (fb_Name b) (bundleVersion versionOf b) m) (cf_Bundles cfg) []"

definition default_channels :: "fbc \<Rightarrow> (string, string) gomap" where
  "default_channels cfg = fold (\<lambda>p m. mput (fp_Name p) (fp_DefaultChannel p) m) (cf_Packages cfg) []"

text \<open>\<open>sort.Slice\<close> by name, on entries and channels whose names are pairwise different.\<close>

definition packages_response_of :: "(string \<Rightarrow> fbc_channel \<Rightarrow> channel_summary) \<Rightarrow> catalog_info \<Rightarrow> fbc \<Rightarrow> packages_response" where
  "packages_response_of summarize cat cfg =
     \<lparr>pk_Catalog = ci_SourceCatalog cat, pk_TargetImage = ci_TargetImage cat,
      pk_Packages = map (\<lambda>pkgName.
        \<lparr>ps_Name = pkgName, ps_DefaultChannel = mget_str (default_channels cfg) pkgName,
         ps_Channels = map (summarize pkgName) (sort_key fc_Name (filter (\<lambda>ch. fc_Package ch = pkgName) (cf_Channels cfg)))\<rparr>)
        (sort (map fp_Name (cf_Packages cfg)))\<rparr>"

definition bundle_name_entry :: "(string, string) gomap \<Rightarrow> string \<Rightarrow> fbc_entry \<Rightarrow> (string, string) gomap \<Rightarrow> (string, string) gomap" where
  "bundle_name_entry vs pkgName e names =
     (let v = mget_str vs (en_Name e)
      in if v = [] then names
         else if en_Name e \<noteq> ConventionalBundleName pkgName v \<and> mget names v = None then mput v (en_Name e) names
         else names)"

definition upstream_channel :: "(string, string) gomap \<Rightarrow> string \<Rightarrow> fbc_channel \<Rightarrow> channel_summary" where
  "upstream_channel vs pkgName ch =
     \<lparr>cs_Name = fc_Name ch,
      cs_Entries = sort_key be_Name (map (\<lambda>h. \<lparr>be_Name = h, be_Version = mget_str vs h\<rparr>) (channelHeadNames ch)),
      cs_Versions = sortVersionStrings (remdups (filter (\<lambda>v. v \<noteq> []) (map (\<lambda>e. mget_str vs (en_Name e)) (fc_Entries ch)))),
      cs_BundleNames = fold (bundle_name_entry vs pkgName) (fc_Entries ch) []\<rparr>"

definition BuildUpstreamCatalogPackagesResponse :: "(string \<Rightarrow> string) \<Rightarrow> catalog_info \<Rightarrow> fbc \<Rightarrow> packages_response" where
  "BuildUpstreamCatalogPackagesResponse versionOf cat cfg = packages_response_of (upstream_channel (bundle_versions versionOf cfg)) cat cfg"

definition filtered_channel :: "(string, string) gomap \<Rightarrow> string \<Rightarrow> fbc_channel \<Rightarrow> channel_summary" where
  "filtered_channel vs pkgName ch =
     \<lparr>cs_Name = fc_Name ch,
      cs_Entries = sort_key be_Name (map (\<lambda>e. \<lparr>be_Name = en_Name e, be_Version = mget_str vs (en_Name e)\<rparr>) (fc_Entries ch)),
      cs_Versions = [], cs_BundleNames = []\<rparr>"

definition BuildCatalogPackagesResponse :: "(string \<Rightarrow> string) \<Rightarrow> catalog_info \<Rightarrow> fbc \<Rightarrow> packages_response" where
  "BuildCatalogPackagesResponse versionOf cat cfg = packages_response_of (filtered_channel (bundle_versions versionOf cfg)) cat cfg"

section \<open>Facts about mirror sets\<close>

definition mirror_pair :: "(string \<Rightarrow> bool) \<Rightarrow> string \<times> image_entry \<Rightarrow> string \<Rightarrow> string \<Rightarrow> bool" where
  "mirror_pair sel de src mir \<longleftrightarrow> (case de of (dest, e) \<Rightarrow>
     State e = stateMirrored \<and> sel (Source e) \<and> repoOnly (Source e) = src \<and> repoOnly dest = mir \<and> src \<noteq> mir)"

text \<open>A map of mirrors: distinct sources, each with a non-empty set of mirrors.\<close>

definition wf_mirrors :: "(string, string list) gomap \<Rightarrow> bool" where
  "wf_mirrors mm \<longleftrightarrow> wf_map mm \<and> (\<forall>src. distinct (mget_list mm src) \<and> mget mm src \<noteq> Some [])"

lemma add_mirror_cases:
  obtains "add_mirror sel de mm = mm" "\<And>src mir. \<not> mirror_pair sel de src mir"
  | src0 mir0 where "add_mirror sel de mm = mput src0 (List.insert mir0 (mget_list mm src0)) mm"
      "\<And>src mir. mirror_pair sel de src mir \<longleftrightarrow> src = src0 \<and> mir = mir0"
proof -
  obtain dest e where de: "de = (dest, e)" by force
  show thesis
  proof (cases "State e = stateMirrored \<and> sel (Source e) \<and> repoOnly (Source e) \<noteq> repoOnly dest")
    case True
    then show thesis using that(2) [of "repoOnly (Source e)" "repoOnly dest"] by (auto simp: de add_mirror_def mirror_pair_def Let_def)
  next
    case False
    then show thesis using that(1) by (auto simp: de add_mirror_def mirror_pair_def Let_def)
  qed
qed

lemma insert_not_Nil [simp]: "List.insert a xs \<noteq> []"
  by (metis list.distinct(1) List.insert_def empty_iff list.set(1))

lemma mget_list_put: "mget_list (mput k v m) k' = (if k' = k then v else mget_list m k')"
  by (simp add: mget_default_def)

lemma add_mirror_step:
  assumes "wf_mirrors mm"
  shows "wf_mirrors (add_mirror sel de mm)"
    and "mir \<in> set (mget_list (add_mirror sel de mm) src) \<longleftrightarrow> mir \<in> set (mget_list mm src) \<or> mirror_pair sel de src mir"
proof -
  show "wf_mirrors (add_mirror sel de mm)"
  proof (cases rule: add_mirror_cases [of sel de mm])
    case 1
    then show ?thesis using assms by simp
  next
    case (2 src0 mir0)
    show ?thesis unfolding 2(1) wf_mirrors_def
      using assms by (simp add: wf_mirrors_def distinct_insert)
  qed
  show "mir \<in> set (mget_list (add_mirror sel de mm) src) \<longleftrightarrow> mir \<in> set (mget_list mm src) \<or> mirror_pair sel de src mir"
    by (cases rule: add_mirror_cases [of sel de mm]) (auto simp: mget_list_put)
qed

lemma add_mirror_fold:
  assumes "wf_mirrors mm"
  shows "wf_mirrors (fold (add_mirror sel) st mm) \<and>
    (mir \<in> set (mget_list (fold (add_mirror sel) st mm) src) \<longleftrightarrow> mir \<in> set (mget_list mm src) \<or> (\<exists>de \<in> set st. mirror_pair sel de src mir))"
  using assms by (induction st arbitrary: mm) (auto simp: add_mirror_step)

lemma mirror_list_exact:
  shows "sorted (map fst (mirror_list sel st)) \<and> distinct (map fst (mirror_list sel st)) \<and>
    (\<forall>(src, ms) \<in> set (mirror_list sel st). sorted ms \<and> distinct ms \<and> ms \<noteq> []) \<and>
    ((\<exists>ms. (src, ms) \<in> set (mirror_list sel st) \<and> mir \<in> set ms) \<longleftrightarrow> (\<exists>de \<in> set st. mirror_pair sel de src mir))"
proof -
  let ?mm = "fold (add_mirror sel) st []"
  have empty: "wf_mirrors []" by (simp add: wf_mirrors_def)
  have wf: "wf_mirrors ?mm" and mem: "\<And>src mir. mir \<in> set (mget_list ?mm src) \<longleftrightarrow> (\<exists>de \<in> set st. mirror_pair sel de src mir)"
    using add_mirror_fold [OF empty, of sel st] by (blast, simp only: mget_default_Nil list.set(1) empty_iff simp_thms)
  have fst: "map fst (mirror_list sel st) = sort (mkeys ?mm)" by (simp add: mirror_list_def sorted_mirrors_def comp_def)
  have lists: "ms = sort (mget_list ?mm src) \<and> mget ?mm src \<noteq> None" if "(src, ms) \<in> set (mirror_list sel st)" for src ms
  proof -
    have "src \<in> set (mkeys ?mm) \<and> ms = sort (mget_list ?mm src)" using that by (auto simp: mirror_list_def sorted_mirrors_def)
    then show ?thesis by (simp add: map_of_eq_None_iff)
  qed
  have "mget_list ?mm src \<noteq> [] \<and> distinct (mget_list ?mm src)" if "mget ?mm src \<noteq> None" for src
  proof
    show "mget_list ?mm src \<noteq> []" using that wf by (cases "mget ?mm src") (auto simp: wf_mirrors_def mget_default_def)
    show "distinct (mget_list ?mm src)" using wf unfolding wf_mirrors_def by blast
  qed
  then have good: "sorted ms \<and> distinct ms \<and> ms \<noteq> []" if "(src, ms) \<in> set (mirror_list sel st)" for src ms
    using lists [OF that] by simp
  have "(src, sort (mget_list ?mm src)) \<in> set (mirror_list sel st)" if ne: "mget_list ?mm src \<noteq> []"
  proof -
    obtain ms where "mget ?mm src = Some ms" using ne by (cases "mget ?mm src") (simp_all add: mget_default_def)
    then have "src \<in> set (mkeys ?mm)" by (metis map_of_eq_None_iff option.distinct(1) set_map)
    then show ?thesis by (simp add: mirror_list_def sorted_mirrors_def)
  qed
  then have "(\<exists>ms. (src, ms) \<in> set (mirror_list sel st) \<and> mir \<in> set ms) \<longleftrightarrow> mir \<in> set (mget_list ?mm src)"
    using lists by (metis empty_iff list.set(1) set_sort)
  then show ?thesis using fst good wf mem by (auto simp: wf_mirrors_def wf_map_def)
qed

section \<open>Properties\<close>

text \<open>The sorted list of mirrors as the specification gives it.\<close>

definition mirrors_spec :: "(string \<Rightarrow> bool) \<Rightarrow> image_state \<Rightarrow> (string \<times> string list) list" where
  "mirrors_spec sel st =
     map (\<lambda>src. (src, sorted_list_of_set {mir. \<exists>de \<in> set st. mirror_pair sel de src mir}))
       (sorted_list_of_set {src. \<exists>mir. \<exists>de \<in> set st. mirror_pair sel de src mir})"

lemma mirror_list_spec: "mirror_list sel st = mirrors_spec sel st"
proof -
  let ?ml = "mirror_list sel st"
  have srt: "sorted (map fst ?ml)" "distinct (map fst ?ml)" and lst: "\<And>src ms. (src, ms) \<in> set ?ml \<Longrightarrow> sorted ms \<and> distinct ms \<and> ms \<noteq> []"
    and mem: "\<And>src mir. (\<exists>ms. (src, ms) \<in> set ?ml \<and> mir \<in> set ms) \<longleftrightarrow> (\<exists>de \<in> set st. mirror_pair sel de src mir)"
    using mirror_list_exact [of sel st] by blast+
  have one: "ms = sorted_list_of_set {mir. \<exists>de \<in> set st. mirror_pair sel de src mir}" if "(src, ms) \<in> set ?ml" for src ms
  proof -
    have "set ms = {mir. \<exists>de \<in> set st. mirror_pair sel de src mir}"
      using mem that eq_key_imp_eq_value [OF srt(2)] by blast
    then show ?thesis using lst [OF that] by (metis sorted_list_of_set.idem_if_sorted_distinct)
  qed
  have "set (map fst ?ml) = {src. \<exists>mir. \<exists>de \<in> set st. mirror_pair sel de src mir}" (is "_ = ?S")
  proof
    show "?S \<subseteq> set (map fst ?ml)" using mem by force
    show "set (map fst ?ml) \<subseteq> ?S"
    proof
      fix src assume "src \<in> set (map fst ?ml)"
      then obtain ms where ms: "(src, ms) \<in> set ?ml" by auto
      then have "\<exists>mir. mir \<in> set ms" using lst by (metis ex_in_conv set_empty)
      then show "src \<in> ?S" using mem ms by blast
    qed
  qed
  then have keys: "map fst ?ml = sorted_list_of_set ?S" using srt by (metis sorted_list_of_set.idem_if_sorted_distinct)
  have "map (\<lambda>src. (src, sorted_list_of_set {mir. \<exists>de \<in> set st. mirror_pair sel de src mir})) (map fst ?ml) = ?ml"
    unfolding map_map comp_def
  proof (rule map_idI)
    fix x assume "x \<in> set ?ml"
    then have "snd x = sorted_list_of_set {mir. \<exists>de \<in> set st. mirror_pair sel de (fst x) mir}"
      by (intro one) simp
    then show "(fst x, sorted_list_of_set {mir. \<exists>de \<in> set st. mirror_pair sel de (fst x) mir}) = x"
      by (metis prod.collapse)
  qed
  then show ?thesis unfolding mirrors_spec_def keys [symmetric] by simp
qed

text \<open>
  Property C34. The generated mirror sets are exactly what was mirrored, in a deterministic order. The digest mirror set lists a source repository with a
  mirror repository if and only if the two repositories differ and some Mirrored entry whose source is a digest reference leads from the one to the other. Sources
  and mirrors are sorted and without duplicates, so the document depends on the set of entries only and not on the iteration order of the map. The same holds for
  the tag mirror set and tag references, for states in which no Helm chart is Mirrored: \<open>helm://\<close> sources of mirrored charts are listed there although they are no image
  references, so states that have them are excluded.
\<close>

theorem mirror_sets_exact:
  "GenerateIDMS name st = mirror_set_object ''ImageDigestMirrorSet'' ''imageDigestMirrors'' name (mirrors_spec isDigestRef st) \<and>
   (list_all (\<lambda>(dest, e). State e = stateMirrored \<longrightarrow> \<not> IsChartSource (Source e)) st \<longrightarrow>
    GenerateITMS name st = mirror_set_object ''ImageTagMirrorSet'' ''imageTagMirrors'' name (mirrors_spec isTagRef st))"
  by (simp add: GenerateIDMS_def GenerateITMS_def mirror_list_spec)

theorem mirror_sets_exact_witness:
  "GenerateITMS ''is'' [(''r/a:v1'', zero_entry\<lparr>State := stateMirrored, Source := ''q.io/a:v1''\<rparr>)] =
    mirror_set_object ''ImageTagMirrorSet'' ''imageTagMirrors'' ''is''
      (mirrors_spec isTagRef [(''r/a:v1'', zero_entry\<lparr>State := stateMirrored, Source := ''q.io/a:v1''\<rparr>)]) \<and>
   GenerateITMS ''is'' [(''r/a:v1'', zero_entry\<lparr>State := stateMirrored, Source := ''q.io/a:v1''\<rparr>)] =
    mirror_set_object ''ImageTagMirrorSet'' ''imageTagMirrors'' ''is'' [(''q.io/a'', [''r/a''])]"
proof
  show "GenerateITMS ''is'' [(''r/a:v1'', zero_entry\<lparr>State := stateMirrored, Source := ''q.io/a:v1''\<rparr>)] =
    mirror_set_object ''ImageTagMirrorSet'' ''imageTagMirrors'' ''is''
      (mirrors_spec isTagRef [(''r/a:v1'', zero_entry\<lparr>State := stateMirrored, Source := ''q.io/a:v1''\<rparr>)])"
    using mirror_sets_exact [of "''is''" "[(''r/a:v1'', zero_entry\<lparr>State := stateMirrored, Source := ''q.io/a:v1''\<rparr>)]"]
    by (simp add: IsChartSource_def)
  show "GenerateITMS ''is'' [(''r/a:v1'', zero_entry\<lparr>State := stateMirrored, Source := ''q.io/a:v1''\<rparr>)] =
    mirror_set_object ''ImageTagMirrorSet'' ''imageTagMirrors'' ''is'' [(''q.io/a'', [''r/a''])]"
    by code_simp
qed

text \<open>
  Helm charts leak into the tag mirror set. The source of a mirrored chart is a \<open>helm://\<close> reference; it contains a colon, so it counts as a
  tag reference, and the tag mirror set lists the whole URL as a source repository, which no image reference can match.
\<close>

theorem ITMS_lists_charts:
  assumes "(dest, e) \<in> set st" and "State e = stateMirrored" and "Source e = ''helm://'' @ scheme @ ''://'' @ rest"
    and "CHR ''@'' \<notin> set (scheme @ rest)" and "CHR '':'' \<notin> set rest" and "\<not> hasPrefix (repoOnly dest) ''helm:''"
  shows "\<exists>ms. (Source e, ms) \<in> set (mirror_list isTagRef st)"
proof -
  have "CHR ''@'' \<notin> set (Source e)" using assms(3,4) by simp
  then have at: "str_index (Source e) ''@'' = None" using contains_char [of "Source e" "CHR ''@''"] by (simp add: contains_def)
  have li: "last_index (Source e) '':'' = Some (length (''helm://'' @ scheme))"
    using last_index_char [of "CHR '':''" "''//'' @ rest" "''helm://'' @ scheme"] assms(3,5) by simp
  have after: "drop (length (''helm://'' @ scheme) + 1) (Source e) = ''//'' @ rest" using assms(3) by simp
  have repo: "repoOnly (Source e) = Source e"
    unfolding repoOnly_def splitImageRef_res_def at option.case prod.case Let_def li after by simp
  have tag: "isTagRef (Source e)"
    using at contains_char [of "Source e" "CHR '':''"] assms(3) unfolding isTagRef_def contains_def by simp
  have "hasPrefix (Source e) ''helm:''" unfolding assms(3) by (simp add: hasPrefix_def)
  then have "mirror_pair isTagRef (dest, e) (Source e) (repoOnly dest)"
    using assms(2,6) tag repo unfolding mirror_pair_def by auto
  then show ?thesis using mirror_list_exact [of isTagRef st] assms(1) by blast
qed

theorem ITMS_lists_charts_witness:
  "\<exists>ms. (''helm://https://charts.io/nginx?version=1'', ms) \<in> set (mirror_list isTagRef
     [(''r/charts/c/nginx:1'', zero_entry\<lparr>State := stateMirrored, Source := ''helm://https://charts.io/nginx?version=1''\<rparr>)])"
proof -
  let ?e = "zero_entry\<lparr>State := stateMirrored, Source := ''helm://https://charts.io/nginx?version=1''\<rparr>"
  have "\<not> hasPrefix (repoOnly ''r/charts/c/nginx:1'') ''helm:''" by code_simp
  then show ?thesis
    using ITMS_lists_charts [of "''r/charts/c/nginx:1''" ?e "[(''r/charts/c/nginx:1'', ?e)]" "''https''" "''charts.io/nginx?version=1''"] by simp
qed

lemma channelHeadNames_entries:
  "set (channelHeadNames ch) \<subseteq> en_Name ` set (fc_Entries ch)" "channelHeadNames ch = [] \<longleftrightarrow> fc_Entries ch = []"
  by (auto simp: channelHeadNames_def Let_def)

lemma bundle_names_fold:
  assumes "\<forall>v n. mget names v = Some n \<longrightarrow> n \<in> en_Name ` S \<and> mget_str vs n = v" and "set es \<subseteq> S"
  shows "(\<forall>v n. mget (fold (bundle_name_entry vs pkg) es names) v = Some n \<longrightarrow> n \<in> en_Name ` S \<and> mget_str vs n = v) \<and>
    (\<forall>v. mget (fold (bundle_name_entry vs pkg) es names) v = None \<longrightarrow> mget names v = None \<and>
      (\<forall>e \<in> set es. mget_str vs (en_Name e) = v \<longrightarrow> v = [] \<or> en_Name e = ConventionalBundleName pkg v))"
  using assms
proof (induction es arbitrary: names)
  case (Cons e es)
  let ?names = "bundle_name_entry vs pkg e names"
  have inv: "\<forall>v n. mget ?names v = Some n \<longrightarrow> n \<in> en_Name ` S \<and> mget_str vs n = v"
    using Cons.prems by (auto simp: bundle_name_entry_def Let_def)
  have none: "mget ?names v = None \<Longrightarrow> mget names v = None \<and> (mget_str vs (en_Name e) = v \<longrightarrow> v = [] \<or> en_Name e = ConventionalBundleName pkg v)" for v
    by (auto simp: bundle_name_entry_def Let_def split: if_splits)
  have "set es \<subseteq> S" using Cons.prems by simp
  from Cons.IH [OF inv this] show ?case using none by simp
qed simp

text \<open>
  Every version the console offers can be pinned. For each version listed for a channel of the upstream catalog, the bundle name the console
  derives from it, the listed exception or else the conventional name, is the name of a bundle of that channel with exactly that version.
\<close>

theorem upstream_versions_pinnable:
  assumes "v \<in> set (cs_Versions (upstream_channel vs pkg ch))"
  shows "\<exists>e \<in> set (fc_Entries ch). mget_str vs (en_Name e) = v \<and>
    en_Name e = (case mget (cs_BundleNames (upstream_channel vs pkg ch)) v of Some n \<Rightarrow> n | None \<Rightarrow> ConventionalBundleName pkg v)"
proof -
  let ?names = "fold (bundle_name_entry vs pkg) (fc_Entries ch) []"
  obtain e where e: "e \<in> set (fc_Entries ch)" "mget_str vs (en_Name e) = v" "v \<noteq> []"
    using assms by (auto simp: upstream_channel_def sortVersionStrings_def)
  note names = bundle_names_fold [of "[]" "set (fc_Entries ch)" vs "fc_Entries ch" pkg]
  show ?thesis
  proof (cases "mget ?names v")
    case None
    then have "en_Name e = ConventionalBundleName pkg v" using names e by simp blast
    then show ?thesis using e None by (intro bexI [of _ e]) (simp_all add: upstream_channel_def)
  next
    case (Some n)
    then have "n \<in> en_Name ` set (fc_Entries ch) \<and> mget_str vs n = v" using names by simp
    then show ?thesis using Some by (auto simp: upstream_channel_def)
  qed
qed

theorem upstream_versions_pinnable_witness:
  "\<exists>e \<in> {\<lparr>en_Name = ''etcd.v1.0.0'', en_Replaces = [], en_Skips = [], en_SkipRange = []\<rparr>}. en_Name e = ConventionalBundleName ''etcd'' ''1.0.0''"
proof -
  let ?e = "\<lparr>en_Name = ''etcd.v1.0.0'', en_Replaces = [], en_Skips = [], en_SkipRange = []\<rparr>"
  let ?ch = "\<lparr>fc_Name = ''stable'', fc_Package = ''etcd'', fc_Entries = [?e]\<rparr>"
  have "''1.0.0'' \<in> set (cs_Versions (upstream_channel [(''etcd.v1.0.0'', ''1.0.0'')] ''etcd'' ?ch))"
    and "mget (cs_BundleNames (upstream_channel [(''etcd.v1.0.0'', ''1.0.0'')] ''etcd'' ?ch)) ''1.0.0'' = None"
    by code_simp+
  then show ?thesis using upstream_versions_pinnable [of "''1.0.0''" "[(''etcd.v1.0.0'', ''1.0.0'')]" "''etcd''" ?ch] by simp
qed

end
