(* ===== verification/GlobalResources.thy ===== *)
theory GlobalResources
  imports Resources Manager
begin

text \<open>
  The ConfigMap with the cluster resources of a MirrorTarget: \<open>saveGlobalResources\<close> (\<open>pkg/mirror/manager/manager.go\<close>). The map
  \<open>catalogs\<close> of the code is filled by ranging over the set of source catalogs; that set is a list without duplicates here, in iteration order.
  The documents are those of theory \<open>Resources\<close>, rendered as text by the parameter \<open>render\<close>.
\<close>

section \<open>Catalogs\<close>

definition zero_operator :: "string \<Rightarrow> operator" where
  "zero_operator catSource = \<lparr>op_Packages = [], op_Catalog = catSource, op_TargetCatalog = [], op_TargetTag = [], op_Full = False,
     op_SkipDependencies = False, op_SignatureVerification = None\<rparr>"

definition opsBySource :: "mirror_target \<Rightarrow> image_set list \<Rightarrow> (string, operator) gomap" where
  "opsBySource mt imageSets =
     fold (\<lambda>is ops. if \<not> containsString (mt_ImageSets mt) (is_Name is) then ops
        else fold (\<lambda>op ops. if op_Catalog op = [] then ops else mput (op_Catalog op) op ops) (ms_Operators (is_Mirror is)) ops) imageSets []"

definition addCatalog :: "string \<Rightarrow> string \<Rightarrow> string \<Rightarrow> string list \<Rightarrow> string list" where
  "addCatalog origin catalog originRef cats =
     (if origin \<noteq> OriginOperator then cats
      else (let cat = (if catalog = [] then CatalogFromOriginRef originRef else catalog)
            in if cat \<noteq> [] then List.insert cat cats else cats))"

definition sourceCatalogs :: "mirror_manager \<Rightarrow> string list" where
  "sourceCatalogs m =
     fold (\<lambda>(dest, entry) cats.
        fold (\<lambda>(n, meta) cats. addCatalog (om_Origin meta) (om_Catalog meta) (om_OriginRef meta) cats) (mget_list (mm_ownerMeta m) dest)
          (addCatalog (Origin entry) (Catalog entry) (OriginRef entry) cats)) (mm_imageState m) []"

definition catalog_entry :: "mirror_target \<Rightarrow> (string, operator) gomap \<Rightarrow> string \<Rightarrow> (string, catalog_info) gomap \<Rightarrow> (string, catalog_info) gomap" where
  "catalog_entry mt ops catSource catalogs =
     (let slug = CatalogSlug catSource
      in if mget catalogs slug \<noteq> None then catalogs
         else (let op = (case mget ops catSource of Some op \<Rightarrow> op | None \<Rightarrow> zero_operator catSource)
               in mput slug \<lparr>ci_SourceCatalog = catSource, ci_TargetImage = CatalogTargetImage (mt_Registry mt) op, ci_DisplayName = slug\<rparr> catalogs))"

definition catalog_infos :: "mirror_target \<Rightarrow> image_set list \<Rightarrow> string list \<Rightarrow> (string, catalog_info) gomap" where
  "catalog_infos mt imageSets cats = fold (catalog_entry mt (opsBySource mt imageSets)) cats []"

section \<open>The ConfigMap\<close>

definition resource_files ::
  "(json \<Rightarrow> string) \<Rightarrow> mirror_target \<Rightarrow> image_set list \<Rightarrow> mirror_manager \<Rightarrow> (string, string) gomap" where
  "resource_files render mt imageSets m =
     fold (\<lambda>(slug, cat) data.
        mput (''clustercatalog-'' @ slug @ ''.yaml'') (render (GenerateClusterCatalog (mm_TargetName m @ ''-'' @ slug) cat))
         (mput (''catalogsource-'' @ slug @ ''.yaml'')
            (render (GenerateCatalogSource (mm_TargetName m @ ''-'' @ slug) (mm_Namespace m) cat (mt_AuthSecret mt))) data))
       (catalog_infos mt imageSets (sourceCatalogs m))
       [(''idms.yaml'', render (GenerateIDMS (mm_TargetName m) (mm_imageState m))),
        (''itms.yaml'', render (GenerateITMS (mm_TargetName m) (mm_imageState m)))]"

definition resource_index :: "(string, string) gomap \<Rightarrow> string list" where
  "resource_index data =
     sort ([''idms.yaml'', ''itms.yaml''] @ filter (\<lambda>k. hasPrefix k ''catalogsource-'' \<or> hasPrefix k ''clustercatalog-'') (mkeys data))"

record resource_cm =
  rs_Name :: string
  rs_Labels :: annotations
  rs_Data :: "(string, string) gomap"

definition saveGlobalResources ::
  "('w \<Rightarrow> string \<Rightarrow> kube_error + resource_cm) \<Rightarrow> ('w \<Rightarrow> resource_cm \<Rightarrow> 'w \<times> kube_error option) \<Rightarrow> ('w \<Rightarrow> resource_cm \<Rightarrow> 'w \<times> kube_error option)
    \<Rightarrow> (json \<Rightarrow> string) \<Rightarrow> (string list \<Rightarrow> string) \<Rightarrow> mirror_target \<Rightarrow> image_set list \<Rightarrow> mirror_manager \<Rightarrow> 'w \<Rightarrow> 'w \<times> kube_error option" where
  "saveGlobalResources rget rcreate rupdate render renderIndex mt imageSets m w =
     (let files = resource_files render mt imageSets m;
          data = mput ''index.json'' (renderIndex (resource_index files)) files;
          cm = \<lparr>rs_Name = ''oc-mirror-'' @ mm_TargetName m @ ''-resources'',
                rs_Labels = [(''oc-mirror.openshift.io/resource-config'', mm_TargetName m)], rs_Data = data\<rparr>
      in case rget w (rs_Name cm) of
           Inl NotFound \<Rightarrow> rcreate w cm
         | Inl e \<Rightarrow> (w, Some e)
         | Inr existing \<Rightarrow> rupdate w (existing\<lparr>rs_Data := rs_Data cm, rs_Labels := rs_Labels cm\<rparr>))"

section \<open>Properties\<close>

lemma catalog_infos_fold:
  assumes "\<forall>slug info. mget acc slug = Some info \<longrightarrow> CatalogSlug (ci_SourceCatalog info) = slug"
  shows "(\<forall>slug info. mget (fold (catalog_entry mt ops) cats acc) slug = Some info \<longrightarrow>
      CatalogSlug (ci_SourceCatalog info) = slug \<and> (mget acc slug = Some info \<or> ci_SourceCatalog info \<in> set cats)) \<and>
    (\<forall>c \<in> set cats. mget (fold (catalog_entry mt ops) cats acc) (CatalogSlug c) \<noteq> None)
    \<and> (\<forall>slug. mget acc slug \<noteq> None \<longrightarrow> mget (fold (catalog_entry mt ops) cats acc) slug = mget acc slug)"
  using assms
proof (induction cats arbitrary: acc)
  case (Cons c cats)
  let ?acc = "catalog_entry mt ops c acc"
  have acc: "(mget ?acc slug = Some info \<longrightarrow> CatalogSlug (ci_SourceCatalog info) = slug \<and> (mget acc slug = Some info \<or> ci_SourceCatalog info = c))" for slug info
    using Cons.prems by (auto simp: catalog_entry_def Let_def split: if_splits)
  have own: "mget ?acc (CatalogSlug c) \<noteq> None" and keep: "mget acc slug \<noteq> None \<Longrightarrow> mget ?acc slug = mget acc slug" for slug
    by (auto simp: catalog_entry_def Let_def)
  have inv: "\<forall>slug info. mget ?acc slug = Some info \<longrightarrow> CatalogSlug (ci_SourceCatalog info) = slug" using acc by blast
  let ?f = "fold (catalog_entry mt ops) cats ?acc"
  note ih = Cons.IH [OF inv]
  have "CatalogSlug (ci_SourceCatalog info) = slug \<and> (mget acc slug = Some info \<or> ci_SourceCatalog info \<in> set (c # cats))"
    if "mget ?f slug = Some info" for slug info using ih acc [of slug info] that by auto
  moreover have "mget ?f (CatalogSlug x) \<noteq> None" if "x \<in> set (c # cats)" for x using ih own that by fastforce
  moreover have "mget ?f slug = mget acc slug" if "mget acc slug \<noteq> None" for slug using ih keep [OF that] that by metis
  ultimately show ?case by simp
qed simp

text \<open>
  Two catalogs with the same last path element and tag share their slug, and only one of them gets its CatalogSource and ClusterCatalog: of
  all source catalogs with one slug exactly one is published, whichever the iteration of the Go map visits first.
\<close>

theorem same_slug_publishes_one:
  assumes "c1 \<in> set cats" and "c2 \<in> set cats" and "c1 \<noteq> c2" and "CatalogSlug c1 = CatalogSlug c2"
  shows "\<exists>info. mget (catalog_infos mt imageSets cats) (CatalogSlug c1) = Some info \<and>
    (ci_SourceCatalog info \<noteq> c1 \<or> ci_SourceCatalog info \<noteq> c2) \<and>
    (\<forall>slug info'. mget (catalog_infos mt imageSets cats) slug = Some info' \<and> ci_SourceCatalog info' \<in> {c1, c2} \<longrightarrow> info' = info)"
proof -
  let ?f = "catalog_infos mt imageSets cats"
  have "\<forall>slug info. mget [] slug = Some info \<longrightarrow> CatalogSlug (ci_SourceCatalog info) = slug" by simp
  note fold = catalog_infos_fold [OF this, of mt "opsBySource mt imageSets" cats, folded catalog_infos_def]
  then have f: "CatalogSlug (ci_SourceCatalog info) = slug" if "mget ?f slug = Some info" for slug info
    using that by blast
  obtain info where info: "mget ?f (CatalogSlug c1) = Some info" using fold assms(1) by blast
  have "info' = info" if "mget ?f slug = Some info'" "ci_SourceCatalog info' \<in> {c1, c2}" for slug info'
  proof -
    have "slug = CatalogSlug c1" using f [OF that(1)] that(2) assms(4) by auto
    then show ?thesis using that(1) info by simp
  qed
  then show ?thesis using info assms(3) by blast
qed

theorem same_slug_publishes_one_witness:
  "\<exists>info. mget (catalog_infos sample_target [] [''a.io/x/index:v1'', ''b.io/y/index:v1'']) ''index-v1'' = Some info"
proof -
  have "CatalogSlug ''a.io/x/index:v1'' = ''index-v1''" "CatalogSlug ''b.io/y/index:v1'' = ''index-v1''" by code_simp+
  then show ?thesis
    using same_slug_publishes_one [of "''a.io/x/index:v1''" "[''a.io/x/index:v1'', ''b.io/y/index:v1'']" "''b.io/y/index:v1''" sample_target "[]"] by auto
qed

lemma set_keys_put: "set (mkeys (mput k v m)) = insert k (set (mkeys m))"
  by (auto simp: update_keys)

lemma keys_two_puts:
  "set (mkeys (fold (\<lambda>(slug, cat) data. mput (p slug) (f slug cat) (mput (q slug) (g slug cat) data)) cats data)) =
     set (mkeys data) \<union> (\<Union>slug \<in> set (mkeys cats). {q slug, p slug})"
proof (induction cats arbitrary: data)
  case (Cons x cats)
  obtain a b where "x = (a, b)" by force
  then show ?case using Cons by (simp add: set_keys_put del: set_map) blast
qed simp

text \<open>
  The index of the resources ConfigMap is complete: it lists, sorted, exactly the files stored beside it, and every catalog file belongs to a
  catalog of the published map.
\<close>

theorem resource_index_complete:
  "set (resource_index (resource_files render mt imageSets m)) = set (mkeys (resource_files render mt imageSets m)) \<and>
   sorted (resource_index (resource_files render mt imageSets m)) \<and>
   set (mkeys (resource_files render mt imageSets m)) = {''idms.yaml'', ''itms.yaml''} \<union>
     (\<Union>slug \<in> set (mkeys (catalog_infos mt imageSets (sourceCatalogs m))). {''catalogsource-'' @ slug @ ''.yaml'', ''clustercatalog-'' @ slug @ ''.yaml''})"
proof -
  note keys = keys_two_puts [where p = "\<lambda>slug. ''clustercatalog-'' @ slug @ ''.yaml''" and q = "\<lambda>slug. ''catalogsource-'' @ slug @ ''.yaml''"]
  let ?files = "resource_files render mt imageSets m"
  have files: "set (mkeys ?files) = {''idms.yaml'', ''itms.yaml''} \<union> (\<Union>slug \<in> set (mkeys (catalog_infos mt imageSets (sourceCatalogs m))).
      {''catalogsource-'' @ slug @ ''.yaml'', ''clustercatalog-'' @ slug @ ''.yaml''})"
    unfolding resource_files_def keys by simp
  have pre: "hasPrefix (''catalogsource-'' @ x) ''catalogsource-''" "hasPrefix (''clustercatalog-'' @ x) ''clustercatalog-''" for x
    by (simp_all only: hasPrefix_append)
  have "set (resource_index ?files) = {''idms.yaml'', ''itms.yaml''} \<union>
      {k \<in> set (mkeys ?files). hasPrefix k ''catalogsource-'' \<or> hasPrefix k ''clustercatalog-''}"
    unfolding resource_index_def set_sort set_append set_filter by auto
  also have "\<dots> = set (mkeys ?files)" unfolding files using pre by blast
  finally have "set (resource_index ?files) = set (mkeys ?files)" .
  moreover have "sorted (resource_index ?files)" unfolding resource_index_def by (rule sorted_sort)
  ultimately show ?thesis using files by blast
qed

end
