(* ===== verification/Resolve.thy ===== *)
theory Resolve
  imports GlobalResources Chart Lifecycle
begin

text \<open>
  Resolving an ImageSet (\<open>pkg/mirror/manager/manager_resolve.go\<close>): \<open>resolveImageSet\<close> with its release, operator, chart and graph sections, the verification of
  release and catalog signatures, and the annotations and ConfigMaps it writes. The registries, the signature mirror, the release graph and the clock answer as
  the record \<open>resolve_net\<close> says, for the duration of one resolve; the API server is a world of type \<open>'w\<close>.
\<close>

section \<open>The outside\<close>

datatype write_result = Written | WriteConflict | WriteFailed kube_error

record ('w, 'a) resolve_net =
  rn_digest :: "json \<Rightarrow> string"
  rn_sha256 :: "string \<Rightarrow> string"
  rn_archive_digest :: "'a \<Rightarrow> string"
  rn_url :: "string \<Rightarrow> (bool \<times> string) option"
  rn_now :: int
  rn_format :: "int \<Rightarrow> string"
  rn_format_nano :: "int \<Rightarrow> string"
  rn_parse :: "string \<Rightarrow> int option"
  rn_download_signature :: "string \<Rightarrow> string + string"
  rn_verify_signature :: "string \<Rightarrow> string \<Rightarrow> string option"
  rn_catalog_digest :: "string \<Rightarrow> string + string"
  rn_secret :: "string \<Rightarrow> string + (string, string) gomap"
  rn_cosign :: "string \<Rightarrow> string \<Rightarrow> string \<Rightarrow> string option"
  rn_pin :: "string \<Rightarrow> string \<Rightarrow> string + string"
  rn_resolve_full :: "string \<Rightarrow> include_package list \<Rightarrow> string + (string, bundle_image_info) gomap \<times> fbc \<times> fbc"
  rn_load_fbc :: "string \<Rightarrow> string + fbc"
  rn_version_of :: "string \<Rightarrow> string"
  rn_marshal :: "packages_response \<Rightarrow> string + string"
  rn_push_graph :: "'w \<Rightarrow> string \<Rightarrow> 'w \<times> (string + string)"
  rn_cm_get :: "'w \<Rightarrow> string \<Rightarrow> kube_error + resource_cm"
  rn_cm_create :: "'w \<Rightarrow> resource_cm \<Rightarrow> 'w \<times> kube_error option"
  rn_cm_update :: "'w \<Rightarrow> resource_cm \<Rightarrow> 'w \<times> kube_error option"
  rn_sig_get :: "'w \<Rightarrow> string \<Rightarrow> (string, string) gomap option"
  rn_sig_create :: "'w \<Rightarrow> string \<Rightarrow> (string, string) gomap \<Rightarrow> 'w"
  rn_sig_update :: "'w \<Rightarrow> string \<Rightarrow> (string, string) gomap \<Rightarrow> 'w"
  rn_is_get :: "'w \<Rightarrow> string \<Rightarrow> kube_error + image_set"
  rn_is_update :: "'w \<Rightarrow> image_set \<Rightarrow> 'w \<times> write_result"

section \<open>Catalog packages\<close>

definition packages_cm_name :: "mirror_manager \<Rightarrow> string \<Rightarrow> bool \<Rightarrow> string" where
  "packages_cm_name m slug isUpstream =
     ''oc-mirror-'' @ mm_TargetName m @ ''-'' @ slug @ (if isUpstream then ''-upstream-packages'' else ''-packages'')"

definition writeCatalogPackagesCM ::
  "('w, 'a) resolve_net \<Rightarrow> mirror_manager \<Rightarrow> string \<Rightarrow> catalog_info \<Rightarrow> fbc \<Rightarrow> bool \<Rightarrow> 'w \<Rightarrow> 'w \<times> string option" where
  "writeCatalogPackagesCM net m slug info cfg isUpstream w =
     (let resp = (if isUpstream then BuildUpstreamCatalogPackagesResponse (rn_version_of net) info cfg
                  else BuildCatalogPackagesResponse (rn_version_of net) info cfg)
      in case rn_marshal net resp of
           Inl e \<Rightarrow> (w, Some (''marshal: '' @ e))
         | Inr data \<Rightarrow>
             (let labelKey = (if isUpstream then ''oc-mirror.openshift.io/catalog-upstream-packages''
                              else ''oc-mirror.openshift.io/catalog-packages'');
                  cm = \<lparr>rs_Name = packages_cm_name m slug isUpstream,
                        rs_Labels = [(labelKey, slug), (''oc-mirror.openshift.io/mirrortarget'', mm_TargetName m)],
                        rs_Data = [(''packages.json'', data)]\<rparr>;
                  done = (\<lambda>(w', r). (w', map_option (\<lambda>e. case e of NotFound \<Rightarrow> ''not found'' | APIError t \<Rightarrow> t) r))
              in case rn_cm_get net w (rs_Name cm) of
                   Inl NotFound \<Rightarrow> done (rn_cm_create net w cm)
                 | Inl (APIError e) \<Rightarrow> (w, Some e)
                 | Inr existing \<Rightarrow> done (rn_cm_update net w (existing\<lparr>rs_Data := rs_Data cm, rs_Labels := rs_Labels cm\<rparr>))))"

definition saveCatalogPackages ::
  "('w, 'a) resolve_net \<Rightarrow> mirror_manager \<Rightarrow> string \<Rightarrow> catalog_info \<Rightarrow> fbc \<Rightarrow> fbc \<Rightarrow> 'w \<Rightarrow> 'w \<times> string option" where
  "saveCatalogPackages net m slug info filtered upstream w =
     (case writeCatalogPackagesCM net m slug info filtered False w of
        (w1, Some e) \<Rightarrow> (w1, Some (''filtered packages: '' @ e))
      | (w1, None) \<Rightarrow>
          (case writeCatalogPackagesCM net m slug info upstream True w1 of
             (w2, Some e) \<Rightarrow> (w2, Some (''upstream packages: '' @ e))
           | (w2, None) \<Rightarrow> (w2, None)))"

definition ensureUpstreamCatalogPackages ::
  "('w, 'a) resolve_net \<Rightarrow> mirror_manager \<Rightarrow> string \<Rightarrow> catalog_info \<Rightarrow> string \<Rightarrow> 'w \<Rightarrow> 'w \<times> string option" where
  "ensureUpstreamCatalogPackages net m slug info pinnedCatalog w =
     (case rn_cm_get net w (packages_cm_name m slug True) of
        Inr _ \<Rightarrow> (w, None)
      | Inl (APIError e) \<Rightarrow> (w, Some e)
      | Inl NotFound \<Rightarrow>
          (case rn_load_fbc net pinnedCatalog of
             Inl e \<Rightarrow> (w, Some (''load upstream FBC: '' @ e))
           | Inr upstream \<Rightarrow> writeCatalogPackagesCM net m slug info upstream True w))"

section \<open>Release signatures\<close>

definition node_verified :: "('w, 'a) resolve_net \<Rightarrow> release_node \<Rightarrow> bool" where
  "node_verified net node \<longleftrightarrow>
     (let digest = extractDigest (nd_Image node)
      in digest \<noteq> [] \<and> (case rn_download_signature net digest of Inl _ \<Rightarrow> False | Inr sigData \<Rightarrow> rn_verify_signature net sigData digest = None))"

definition verifyReleaseNodes :: "('w, 'a) resolve_net \<Rightarrow> release_channel \<Rightarrow> release_node list \<Rightarrow> release_node list" where
  "verifyReleaseNodes net ch nodes =
     (if rc_SkipSignatureVerification ch \<or> length nodes = 0 then nodes else filter (node_verified net) nodes)"

definition signatureConfigMapName :: "mirror_manager \<Rightarrow> string" where
  "signatureConfigMapName m = mm_TargetName m @ ''-signatures''"

definition new_signature :: "('w, 'a) resolve_net \<Rightarrow> (string, string) gomap \<Rightarrow> release_node \<Rightarrow> (string, string) gomap \<Rightarrow> (string, string) gomap" where
  "new_signature net existing node newSigs =
     (let digest = extractDigest (nd_Image node); key = map (\<lambda>c. if c = CHR '':'' then CHR ''-'' else c) digest
      in if digest = [] then newSigs
         else if mget existing key \<noteq> None then newSigs
         else (case rn_download_signature net digest of Inl _ \<Rightarrow> newSigs | Inr data \<Rightarrow> mput key data newSigs))"

definition downloadSignaturesForNodes :: "('w, 'a) resolve_net \<Rightarrow> mirror_manager \<Rightarrow> release_node list \<Rightarrow> 'w \<Rightarrow> 'w" where
  "downloadSignaturesForNodes net m nodes w =
     (if length nodes = 0 then w
      else (let cmName = signatureConfigMapName m;
                found = rn_sig_get net w cmName;
                existing = (case found of Some d \<Rightarrow> d | None \<Rightarrow> []);
                newSigs = fold (new_signature net existing) nodes []
            in if length newSigs = 0 then w
               else (let merged = fold (\<lambda>(k, v) d. mput k v d) newSigs existing
                     in if found = None then rn_sig_create net w cmName merged else rn_sig_update net w cmName merged)))"

section \<open>Sections\<close>

record 'w resolve_acc =
  ra_state :: image_state
  ra_anns :: annotations
  ra_changed :: bool
  ra_error :: bool
  ra_world :: 'w

text \<open>The probe of one channel: an architecture failed, one was rejected, or the nodes per architecture and all verified nodes.\<close>

datatype probe = ProbeError string collect_error | Rejected | Probed "(string, release_node list) gomap" "release_node list"

fun probe_channel ::
  "('w, 'a) resolve_net \<Rightarrow> 'a resolvers \<Rightarrow> release_channel \<Rightarrow> string list \<Rightarrow> (string, release_node list) gomap \<Rightarrow> release_node list \<Rightarrow> probe" where
  "probe_channel net c ch [] nodesByArch verifiedNodes = Probed nodesByArch verifiedNodes"
| "probe_channel net c ch (a # arch) nodesByArch verifiedNodes =
     (case ResolveReleasePayloadNodes c ch a of
        Inl e \<Rightarrow> ProbeError a e
      | Inr payloadNodes \<Rightarrow>
          (let verified = verifyReleaseNodes net ch payloadNodes
           in if length verified = 0 \<and> length payloadNodes > 0 then Rejected
              else probe_channel net c ch arch (mput a verified nodesByArch) (verifiedNodes @ verified)))"

definition NodeImages :: "release_node list \<Rightarrow> string list" where
  "NodeImages nodes = map nd_Image nodes"

definition ResolvedSignature :: "(string \<Rightarrow> string) \<Rightarrow> string list \<Rightarrow> string" where
  "ResolvedSignature sha256 payloadImages =
     (if length payloadImages = 0 then [] else sha256 (concat (map (\<lambda>p. p @ [CHR 0x00]) (sort payloadImages))))"

definition resolve_channel ::
  "('w, 'a) resolve_net \<Rightarrow> 'a resolvers \<Rightarrow> mirror_manager \<Rightarrow> mirror_spec \<Rightarrow> mirror_target \<Rightarrow> image_state \<Rightarrow> bool \<Rightarrow> release_channel
    \<Rightarrow> 'w resolve_acc \<Rightarrow> 'w resolve_acc" where
  "resolve_channel net c m spec mt cur recollect ch acc =
     (let arch = ReleaseArchitectures spec;
          sig = ReleaseChannelSignature (rn_digest net) ch arch (pf_KubeVirtContainer (ms_Platform spec));
          annoKey = ReleaseDigestAnnotationKey sig;
          cached = mget_str (ra_anns acc) annoKey;
          originRef = rc_Name ch @ '' ['' @ str_join '','' arch @ '']'';
          carried = acc\<lparr>ra_state := carryOverByOriginAndSig cur (ra_state acc) OriginRelease sig originRef\<rparr>
      in case probe_channel net c ch arch [] [] of
           ProbeError _ _ \<Rightarrow> carried\<lparr>ra_error := True\<rparr>
         | Rejected \<Rightarrow> carried\<lparr>ra_error := True\<rparr>
         | Probed nodesByArch verifiedNodes \<Rightarrow>
             if length verifiedNodes = 0 then carried
             else (let freshSig = ResolvedSignature (rn_sha256 net) (NodeImages verifiedNodes)
                   in if \<not> recollect \<and> cached \<noteq> [] \<and> cached = freshSig then carried
                      else (case CollectReleasesForChannel c spec (mt_Registry mt) ch nodesByArch of
                              Inl _ \<Rightarrow> carried\<lparr>ra_error := True\<rparr>
                            | Inr images \<Rightarrow>
                                acc\<lparr>ra_state := mergeIntoStateWithSig (ra_state acc) images OriginRelease sig originRef cur,
                                  ra_world := downloadSignaturesForNodes net m verifiedNodes (ra_world acc),
                                  ra_anns := (if cached \<noteq> freshSig then mput annoKey freshSig (ra_anns acc) else ra_anns acc),
                                  ra_changed := ra_changed acc \<or> cached \<noteq> freshSig\<rparr>)))"

definition resolveReleaseSection ::
  "('w, 'a) resolve_net \<Rightarrow> 'a resolvers \<Rightarrow> mirror_manager \<Rightarrow> mirror_spec \<Rightarrow> mirror_target \<Rightarrow> image_state \<Rightarrow> bool \<Rightarrow> 'w resolve_acc \<Rightarrow> 'w resolve_acc" where
  "resolveReleaseSection net c m spec mt cur recollect acc =
     fold (resolve_channel net c m spec mt cur recollect) (pf_Channels (ms_Platform spec)) acc"

definition verifyOperatorCatalogSignature :: "('w, 'a) resolve_net \<Rightarrow> operator \<Rightarrow> secret_key_ref \<Rightarrow> string \<Rightarrow> string option" where
  "verifyOperatorCatalogSignature net op sv catalogDigest =
     (case rn_secret net (sk_Name sv) of
        Inl e \<Rightarrow> Some (''get public key secret '' @ sk_Name sv @ '': '' @ e)
      | Inr data \<Rightarrow>
          (case mget data (sk_Key sv) of
             None \<Rightarrow> Some (''secret '' @ sk_Name sv @ '' has no key '' @ sk_Key sv)
           | Some pubKeyPEM \<Rightarrow> rn_cosign net (op_Catalog op) catalogDigest pubKeyPEM))"

definition operator_origin_ref :: "operator \<Rightarrow> string" where
  "operator_origin_ref op =
     (let pkgNames = sort (map ip_Name (op_Packages op))
      in if length pkgNames > 0 then op_Catalog op @ '' ['' @ str_join '', '' pkgNames @ '']'' else op_Catalog op)"

definition operator_images :: "string \<Rightarrow> (string, bundle_image_info) gomap \<Rightarrow> target_image list" where
  "operator_images registry images =
     map (\<lambda>(img, info). \<lparr>ti_Source = img, ti_Destination = ComponentDestination registry img, ti_State = [], ti_BundleRef = bi_Label info,
        ti_IsBundleImage = bi_IsBundleImage info\<rparr>) images"

definition set_catalog :: "operator \<Rightarrow> target_image list \<Rightarrow> image_state \<Rightarrow> image_state" where
  "set_catalog op images st =
     fold (\<lambda>ti st. case mget st (ti_Destination ti) of
             Some entry \<Rightarrow> if Origin entry = OriginOperator then mput (ti_Destination ti) (entry\<lparr>Catalog := op_Catalog op\<rparr>) st else st
           | None \<Rightarrow> st) images st"

definition resolve_operator ::
  "('w, 'a) resolve_net \<Rightarrow> mirror_manager \<Rightarrow> mirror_target \<Rightarrow> image_state \<Rightarrow> bool \<Rightarrow> operator \<Rightarrow> 'w resolve_acc \<Rightarrow> 'w resolve_acc" where
  "resolve_operator net m mt cur recollect op acc =
     (let sig = OperatorEntrySignature (rn_digest net) op;
          annoKey = CatalogDigestAnnotationKey sig;
          cached = mget_str (ra_anns acc) annoKey;
          originRef = operator_origin_ref op;
          carried = acc\<lparr>ra_state := carryOverByOriginAndSig cur (ra_state acc) OriginOperator sig originRef\<rparr>
      in case rn_catalog_digest net (op_Catalog op) of
           Inl _ \<Rightarrow> carried\<lparr>ra_error := True\<rparr>
         | Inr freshDigest \<Rightarrow>
             if (case op_SignatureVerification op of None \<Rightarrow> False | Some sv \<Rightarrow> verifyOperatorCatalogSignature net op sv freshDigest \<noteq> None)
             then carried\<lparr>ra_error := True\<rparr>
             else
               (let pinnedCatalog = (case rn_pin net (op_Catalog op) freshDigest of Inl _ \<Rightarrow> op_Catalog op | Inr p \<Rightarrow> p);
                    catSlug = CatalogSlug (op_Catalog op);
                    catInfo = \<lparr>ci_SourceCatalog = op_Catalog op, ci_TargetImage = CatalogTargetImage (mt_Registry mt) op, ci_DisplayName = catSlug\<rparr>;
                    cacheToken = OperatorCacheValue freshDigest
                in if \<not> recollect \<and> OperatorCacheHit cached freshDigest then
                     carried\<lparr>ra_world := fst (ensureUpstreamCatalogPackages net m catSlug catInfo pinnedCatalog (ra_world acc))\<rparr>
                   else
                     (case rn_resolve_full net pinnedCatalog (op_Packages op) of
                        Inl _ \<Rightarrow> carried\<lparr>ra_error := True\<rparr>
                      | Inr (images, filtered, upstream) \<Rightarrow>
                          (let targetImages = operator_images (mt_Registry mt) images
                           in acc\<lparr>ra_state := set_catalog op targetImages
                                    (mergeIntoStateWithSig (ra_state acc) targetImages OriginOperator sig originRef cur),
                                  ra_world := fst (saveCatalogPackages net m catSlug catInfo filtered upstream (ra_world acc)),
                                  ra_anns := (if cached \<noteq> cacheToken then mput annoKey cacheToken (ra_anns acc) else ra_anns acc),
                                  ra_changed := ra_changed acc \<or> cached \<noteq> cacheToken\<rparr>))))"

definition resolveOperatorSection ::
  "('w, 'a) resolve_net \<Rightarrow> mirror_manager \<Rightarrow> mirror_spec \<Rightarrow> mirror_target \<Rightarrow> image_state \<Rightarrow> bool \<Rightarrow> 'w resolve_acc \<Rightarrow> 'w resolve_acc" where
  "resolveOperatorSection net m spec mt cur recollect acc = fold (resolve_operator net m mt cur recollect) (ms_Operators spec) acc"

definition resolveHelmChart ::
  "('w, 'a) resolve_net \<Rightarrow> 'a resolvers \<Rightarrow> mirror_target \<Rightarrow> image_state \<Rightarrow> repository \<Rightarrow> chart \<Rightarrow> image_state \<Rightarrow> bool \<times> image_state" where
  "resolveHelmChart net c mt cur repo ch newState =
     (let originRef = ''helm '' @ rp_Name repo @ ''/'' @ ch_Name ch
      in case EnumerateHelmChart c (rp_URL repo) ch of
           Inl _ \<Rightarrow> (True, carryOverHelmEntries cur (carryOverHelmEntries cur newState OriginHelm originRef) OriginHelmChart originRef)
         | Inr res \<Rightarrow>
             (let st1 = fold (\<lambda>img st. mergeIntoStateWithSig st [toTargetImage img (mt_Registry mt @ ''/'' @ img) None] OriginHelm [] originRef cur)
                          (hr_Images res) newState;
                  source = HelmChartSource (rn_url net) (rp_URL repo) (ch_Name ch) (hr_Version res);
                  dest = ChartDestination (mt_Registry mt) (rp_Name repo) (ch_Name ch) (hr_Version res);
                  sig = HelmChartSignature (rp_Name repo) (ch_Name ch) (hr_Version res) (rn_archive_digest net (hr_Archive res))
              in (False, mergeIntoStateWithSig st1 [toTargetImage source dest None] OriginHelmChart sig (originRef @ '':'' @ hr_Version res) cur)))"

definition resolveHelmCharts ::
  "('w, 'a) resolve_net \<Rightarrow> 'a resolvers \<Rightarrow> mirror_spec \<Rightarrow> mirror_target \<Rightarrow> image_state \<Rightarrow> image_state \<Rightarrow> bool \<times> image_state" where
  "resolveHelmCharts net c spec mt cur newState =
     fold (\<lambda>repo acc. fold (\<lambda>ch (hadError, st). case resolveHelmChart net c mt cur repo ch st of (e, st') \<Rightarrow> (e \<or> hadError, st')) (rp_Charts repo) acc)
       (ms_HelmRepositories spec) (False, newState)"

definition graph_due :: "('w, 'a) resolve_net \<Rightarrow> mirror_target \<Rightarrow> annotations \<Rightarrow> bool \<Rightarrow> bool" where
  "graph_due net mt anns recollect \<longleftrightarrow> recollect \<or>
     (case (if mget_str anns GraphImageBuiltAnnotation = [] then None else rn_parse net (mget_str anns GraphImageBuiltAnnotation)) of
        None \<Rightarrow> True
      | Some builtAt \<Rightarrow> (case effectivePollInterval mt of (interval, pollingEnabled) \<Rightarrow> pollingEnabled \<and> \<not> rn_now net - builtAt < interval))"

definition resolveGraphImage ::
  "('w, 'a) resolve_net \<Rightarrow> mirror_spec \<Rightarrow> mirror_target \<Rightarrow> bool \<Rightarrow> annotations \<Rightarrow> 'w \<Rightarrow> 'w \<times> bool \<times> annotations" where
  "resolveGraphImage net spec mt recollect anns w =
     (if \<not> pf_Graph (ms_Platform spec) then (w, False, anns)
      else if \<not> graph_due net mt anns recollect then (w, False, anns)
      else (case rn_push_graph net w (mt_Registry mt) of
              (w', Inl _) \<Rightarrow> (w', False, anns)
            | (w', Inr _) \<Rightarrow> (w', True, mput GraphImageBuiltAnnotation (rn_format net (rn_now net)) anns)))"

section \<open>Annotations\<close>

text \<open>\<open>retry.RetryOnConflict(retry.DefaultRetry, \<dots>)\<close>: up to five attempts, repeated only after a write conflict.\<close>

fun retry_on_conflict :: "nat \<Rightarrow> ('w \<Rightarrow> 'w \<times> write_result) \<Rightarrow> 'w \<Rightarrow> 'w \<times> write_result" where
  "retry_on_conflict 0 f w = (w, WriteConflict)"
| "retry_on_conflict (Suc n) f w =
     (case f w of
        (w', WriteConflict) \<Rightarrow> retry_on_conflict n f w'
      | r \<Rightarrow> r)"

abbreviation DefaultRetrySteps :: nat where "DefaultRetrySteps \<equiv> 5"

definition patchImageSetAnnotations :: "('w, 'a) resolve_net \<Rightarrow> image_set \<Rightarrow> annotations \<Rightarrow> 'w \<Rightarrow> 'w \<times> write_result" where
  "patchImageSetAnnotations net is desired =
     retry_on_conflict DefaultRetrySteps (\<lambda>w.
       case rn_is_get net w (is_Name is) of
         Inl NotFound \<Rightarrow> (w, Written)
       | Inl e \<Rightarrow> (w, WriteFailed e)
       | Inr fresh \<Rightarrow> rn_is_update net w (fresh\<lparr>is_Annotations := patched_annotations (is_Annotations is) desired (is_Annotations fresh)\<rparr>))"

definition clearForceResyncAnnotation :: "('w, 'a) resolve_net \<Rightarrow> image_set \<Rightarrow> 'w \<Rightarrow> 'w \<times> write_result" where
  "clearForceResyncAnnotation net is =
     retry_on_conflict DefaultRetrySteps (\<lambda>w.
       case rn_is_get net w (is_Name is) of
         Inl NotFound \<Rightarrow> (w, Written)
       | Inl e \<Rightarrow> (w, WriteFailed e)
       | Inr fresh \<Rightarrow>
           if mget (is_Annotations fresh) ForceResyncAnnotation = None then (w, Written)
           else rn_is_update net w (fresh\<lparr>is_Annotations := mdel ForceResyncAnnotation (is_Annotations fresh)\<rparr>))"

section \<open>Resolving\<close>

definition owned_origin :: "string \<Rightarrow> bool" where
  "owned_origin org \<longleftrightarrow> org \<in> {OriginRelease, OriginOperator, OriginAdditional, OriginHelm, OriginHelmChart}"

record 'w resolution =
  rs_state :: image_state
  rs_stateChanged :: bool
  rs_hadError :: bool
  rs_imageSet :: image_set
  rs_world :: 'w

definition resolve_sections ::
  "('w, 'a) resolve_net \<Rightarrow> 'a resolvers \<Rightarrow> mirror_manager \<Rightarrow> mirror_spec \<Rightarrow> mirror_target \<Rightarrow> image_state \<Rightarrow> annotations \<Rightarrow> 'w
    \<Rightarrow> collect_error + 'w resolve_acc" where
  "resolve_sections net c m spec mt cur anns w =
     (let recollect = (mget anns RecollectAnnotation \<noteq> None);
          start = filter (\<lambda>(dest, entry). \<not> owned_origin (Origin entry)) cur;
          acc0 = \<lparr>ra_state = start, ra_anns = anns, ra_changed = False, ra_error = False, ra_world = w\<rparr>;
          acc1 = resolveReleaseSection net c m spec mt cur recollect acc0;
          acc2 = resolveOperatorSection net m spec mt cur recollect acc1
      in case CollectAdditional spec (mt_Registry mt) None of
           Inl e \<Rightarrow> Inl e
         | Inr additional \<Rightarrow>
             (let st3 = mergeIntoStateWithSig (ra_state acc2) additional OriginAdditional [] ''additional'' cur;
                  (helmHadError, st4) = resolveHelmCharts net c spec mt cur st3;
                  (w5, graphChanged, anns5) = resolveGraphImage net spec mt recollect (ra_anns acc2) (ra_world acc2);
                  st6 = filterBlockedImages st4 (ms_BlockedImages spec);
                  (pruned, anns7) = pruneObsoleteCacheAnnotations (rn_digest net) anns5 spec;
                  anns8 = (if recollect then mput RecollectHonoredAnnotation (rn_format_nano net (rn_now net)) (mdel RecollectAnnotation anns7) else anns7)
              in Inr \<lparr>ra_state = st6, ra_anns = anns8, ra_changed = ra_changed acc2 \<or> graphChanged \<or> pruned \<or> recollect,
                      ra_error = ra_error acc2 \<or> helmHadError, ra_world = w5\<rparr>))"

definition resolveImageSet ::
  "('w, 'a) resolve_net \<Rightarrow> 'a resolvers \<Rightarrow> mirror_manager \<Rightarrow> image_set \<Rightarrow> mirror_target \<Rightarrow> image_state \<Rightarrow> 'w \<Rightarrow> collect_error + 'w resolution" where
  "resolveImageSet net c m is mt cur w =
     (case resolve_sections net c m (is_Mirror is) mt cur (is_Annotations is) w of
        Inl e \<Rightarrow> Inl e
      | Inr acc \<Rightarrow>
          (let w' = (if ra_changed acc then fst (patchImageSetAnnotations net is (ra_anns acc) (ra_world acc)) else ra_world acc)
           in Inr \<lparr>rs_state = ra_state acc, rs_stateChanged = \<not> equalState cur (ra_state acc), rs_hadError = ra_error acc,
                   rs_imageSet = is\<lparr>is_Annotations := ra_anns acc\<rparr>, rs_world = w'\<rparr>))"

section \<open>Nothing is dropped on the way\<close>

lemma merge_keeps: "mget dst d \<noteq> None \<Longrightarrow> mget (mergeIntoStateWithSig dst images origin sig ref prev) d \<noteq> None"
  by (simp add: mergeIntoStateWithSig_lookup split: list.split)


lemma carry_helm_keeps: "wf_map cur \<Longrightarrow> mget dst d \<noteq> None \<Longrightarrow> mget (carryOverHelmEntries cur dst origin ref) d = mget dst d"
  by (auto simp: carryOverHelmEntries_lookup)


lemma fold_keeps:
  assumes "\<And>x s. P s \<Longrightarrow> P (f x s)"
  shows "P s \<Longrightarrow> P (fold f xs s)"
  by (induction xs arbitrary: s) (auto simp: assms)

abbreviation channel_sig :: "('w, 'a) resolve_net \<Rightarrow> mirror_spec \<Rightarrow> release_channel \<Rightarrow> string" where
  "channel_sig net spec ch \<equiv> ReleaseChannelSignature (rn_digest net) ch (ReleaseArchitectures spec) (pf_KubeVirtContainer (ms_Platform spec))"

abbreviation channel_ref :: "mirror_spec \<Rightarrow> release_channel \<Rightarrow> string" where
  "channel_ref spec ch \<equiv> rc_Name ch @ '' ['' @ str_join '','' (ReleaseArchitectures spec) @ '']''"

text \<open>Each spec entry either carries its previous entries over or merges what was collected.\<close>

lemma resolve_channel_cases:
  obtains (carried) "ra_state (resolve_channel net c m spec mt cur recollect ch acc) =
      carryOverByOriginAndSig cur (ra_state acc) OriginRelease (channel_sig net spec ch) (channel_ref spec ch)"
  | (collected) nodes verified images where "probe_channel net c ch (ReleaseArchitectures spec) [] [] = Probed nodes verified"
      "CollectReleasesForChannel c spec (mt_Registry mt) ch nodes = Inr images"
      "ra_state (resolve_channel net c m spec mt cur recollect ch acc) =
        mergeIntoStateWithSig (ra_state acc) images OriginRelease (channel_sig net spec ch) (channel_ref spec ch) cur"
      "ra_error (resolve_channel net c m spec mt cur recollect ch acc) = ra_error acc"
proof (cases "probe_channel net c ch (ReleaseArchitectures spec) [] []")
  case (Probed nodes verified)
  show thesis
  proof (cases "CollectReleasesForChannel c spec (mt_Registry mt) ch nodes")
    case (Inl e)
    then show thesis using carried Probed by (auto simp: resolve_channel_def Let_def split: if_splits)
  next
    case (Inr images)
    let ?fresh = "ResolvedSignature (rn_sha256 net) (NodeImages verified)"
    let ?cached = "mget_str (ra_anns acc) (ReleaseDigestAnnotationKey (channel_sig net spec ch))"
    show thesis
    proof (cases "verified = [] \<or> \<not> recollect \<and> ?cached \<noteq> [] \<and> ?cached = ?fresh")
      case True
      then show thesis using carried Probed by (auto simp: resolve_channel_def Let_def)
    next
      case False
      have "ra_state (resolve_channel net c m spec mt cur recollect ch acc) =
          mergeIntoStateWithSig (ra_state acc) images OriginRelease (channel_sig net spec ch) (channel_ref spec ch) cur"
        "ra_error (resolve_channel net c m spec mt cur recollect ch acc) = ra_error acc"
        unfolding resolve_channel_def Let_def Probed probe.case using False Inr by auto
      then show thesis by (rule collected [OF Probed Inr])
    qed
  qed
qed (use carried in \<open>auto simp: resolve_channel_def Let_def\<close>)


lemma resolve_operator_cases:
  obtains (carried) "ra_state (resolve_operator net m mt cur recollect op acc) =
      carryOverByOriginAndSig cur (ra_state acc) OriginOperator (OperatorEntrySignature (rn_digest net) op) (operator_origin_ref op)"
  | (collected) digest images filtered upstream where "rn_catalog_digest net (op_Catalog op) = Inr digest"
      "\<And>sv. op_SignatureVerification op = Some sv \<Longrightarrow> verifyOperatorCatalogSignature net op sv digest = None"
      "rn_resolve_full net (case rn_pin net (op_Catalog op) digest of Inl _ \<Rightarrow> op_Catalog op | Inr p \<Rightarrow> p) (op_Packages op) = Inr (images, filtered, upstream)"
      "ra_state (resolve_operator net m mt cur recollect op acc) = set_catalog op (operator_images (mt_Registry mt) images)
        (mergeIntoStateWithSig (ra_state acc) (operator_images (mt_Registry mt) images) OriginOperator
           (OperatorEntrySignature (rn_digest net) op) (operator_origin_ref op) cur)"
proof (cases "rn_catalog_digest net (op_Catalog op)")
  case (Inl e)
  then show thesis using carried by (simp add: resolve_operator_def Let_def)
next
  case (Inr digest)
  let ?bad = "case op_SignatureVerification op of None \<Rightarrow> False | Some sv \<Rightarrow> verifyOperatorCatalogSignature net op sv digest \<noteq> None"
  let ?pin = "case rn_pin net (op_Catalog op) digest of Inl _ \<Rightarrow> op_Catalog op | Inr p \<Rightarrow> p"
  show thesis
  proof (cases ?bad)
    case True
    then show thesis using carried Inr by (simp add: resolve_operator_def Let_def)
  next
    case ok: False
    show thesis
    proof (cases "rn_resolve_full net ?pin (op_Packages op)")
      case (Inl e)
      then show thesis using carried Inr ok by (simp add: resolve_operator_def Let_def)
    next
      case full: (Inr r)
      obtain images filtered upstream where r: "r = (images, filtered, upstream)" by (cases r) auto
      have sv: "verifyOperatorCatalogSignature net op sv digest = None" if "op_SignatureVerification op = Some sv" for sv
        using ok that by simp
      show thesis
      proof (cases "\<not> recollect \<and> OperatorCacheHit (mget_str (ra_anns acc) (CatalogDigestAnnotationKey (OperatorEntrySignature (rn_digest net) op))) digest")
        case True
        then show thesis using carried Inr ok by (simp add: resolve_operator_def Let_def)
      next
        case False
        have eq: "ra_state (resolve_operator net m mt cur recollect op acc) = set_catalog op (operator_images (mt_Registry mt) images)
            (mergeIntoStateWithSig (ra_state acc) (operator_images (mt_Registry mt) images) OriginOperator
               (OperatorEntrySignature (rn_digest net) op) (operator_origin_ref op) cur)"
          unfolding resolve_operator_def Let_def Inr sum.case using False ok full r by auto
        show thesis by (rule collected [OF Inr sv full [unfolded r] eq])
      qed
    qed
  qed
qed


lemma wf_set_catalog [simp]: "wf_map st \<Longrightarrow> wf_map (set_catalog op images st)"
  unfolding set_catalog_def by (rule fold_keeps) (auto split: option.split)

lemma wf_resolve_channel: "wf_map (ra_state acc) \<Longrightarrow> wf_map (ra_state (resolve_channel net c m spec mt cur recollect ch acc))"
  by (rule resolve_channel_cases [of net c m spec mt cur recollect ch acc]) simp_all

lemma wf_resolve_operator: "wf_map (ra_state acc) \<Longrightarrow> wf_map (ra_state (resolve_operator net m mt cur recollect op acc))"
  by (rule resolve_operator_cases [of net m mt cur recollect op acc]) simp_all



lemma wf_fold_merge: "wf_map st \<Longrightarrow> wf_map (fold (\<lambda>img st. mergeIntoStateWithSig st [f img] origin sig ref cur) imgs st)"
  by (rule fold_keeps) simp_all

lemma fold_merge_keeps:
  "mget st d \<noteq> None \<Longrightarrow> mget (fold (\<lambda>img st. mergeIntoStateWithSig st [f img] origin sig ref cur) imgs st) d \<noteq> None"
  by (rule fold_keeps [where P = "\<lambda>st. mget st d \<noteq> None"]) (simp_all only: merge_keeps not_False_eq_True)

lemma wf_resolveHelmChart: "wf_map st \<Longrightarrow> wf_map (snd (resolveHelmChart net c mt cur repo ch st))"
  by (simp add: resolveHelmChart_def wf_fold_merge Let_def split: sum.split)

lemma resolveHelmChart_keeps:
  assumes "wf_map cur" and "mget st d \<noteq> None"
  shows "mget (snd (resolveHelmChart net c mt cur repo ch st)) d \<noteq> None"
proof (cases "EnumerateHelmChart c (rp_URL repo) ch")
  case (Inl e)
  have "mget (carryOverHelmEntries cur (carryOverHelmEntries cur st o1 r1) o2 r2) d = mget st d" for o1 r1 o2 r2
    using carry_helm_keeps [OF assms] carry_helm_keeps [OF assms(1)] assms(2) by metis
  then show ?thesis using Inl assms(2) by (simp only: resolveHelmChart_def Let_def sum.case snd_conv not_False_eq_True)
next
  case (Inr res)
  then show ?thesis using assms(2) by (simp only: resolveHelmChart_def Let_def sum.case snd_conv merge_keeps fold_merge_keeps not_False_eq_True)
qed

definition helm_step where
  "helm_step net c mt cur repo ch acc = (case acc of (hadError, st) \<Rightarrow> case resolveHelmChart net c mt cur repo ch st of (e, st') \<Rightarrow> (e \<or> hadError, st'))"

definition helm_pair where
  "helm_pair net c mt cur rc acc = helm_step net c mt cur (fst rc) (snd rc) acc"

lemma resolveHelmCharts_steps:
  "resolveHelmCharts net c spec mt cur st =
     fold (helm_pair net c mt cur) (concat (map (\<lambda>repo. map (Pair repo) (rp_Charts repo)) (ms_HelmRepositories spec))) (False, st)"
proof -
  have "fold (\<lambda>repo acc. fold (helm_step net c mt cur repo) (rp_Charts repo) acc) repos acc =
      fold (helm_pair net c mt cur) (concat (map (\<lambda>repo. map (Pair repo) (rp_Charts repo)) repos)) acc" for repos acc
    by (induction repos arbitrary: acc) (simp_all add: fold_map comp_def helm_pair_def [abs_def])
  then show ?thesis by (simp add: resolveHelmCharts_def helm_step_def [abs_def])
qed

lemma helm_step_keeps:
  assumes "wf_map cur"
  shows "mget (snd acc) d \<noteq> None \<Longrightarrow> mget (snd (helm_step net c mt cur repo ch acc)) d \<noteq> None"
    and "wf_map (snd acc) \<Longrightarrow> wf_map (snd (helm_step net c mt cur repo ch acc))"
    and "fst acc \<Longrightarrow> fst (helm_step net c mt cur repo ch acc)"
proof -
  obtain b st where acc: "acc = (b, st)" by force
  obtain e st' where r: "resolveHelmChart net c mt cur repo ch st = (e, st')" by force
  show "mget (snd acc) d \<noteq> None \<Longrightarrow> mget (snd (helm_step net c mt cur repo ch acc)) d \<noteq> None"
    using resolveHelmChart_keeps [OF assms, of st d net c mt repo ch] acc r by (simp add: helm_step_def)
  show "wf_map (snd acc) \<Longrightarrow> wf_map (snd (helm_step net c mt cur repo ch acc))"
    using wf_resolveHelmChart [of st net c mt cur repo ch] acc r by (simp add: helm_step_def)
  show "fst acc \<Longrightarrow> fst (helm_step net c mt cur repo ch acc)" using acc r by (simp add: helm_step_def)
qed

section \<open>The whole resolve\<close>

lemma resolveImageSet_state:
  assumes "resolveImageSet net c m is mt cur w = Inr r"
  defines "spec \<equiv> is_Mirror is" and "recollect \<equiv> mget (is_Annotations is) RecollectAnnotation \<noteq> None"
  obtains acc2 where
    "acc2 = resolveOperatorSection net m spec mt cur recollect (resolveReleaseSection net c m spec mt cur recollect
       \<lparr>ra_state = filter (\<lambda>(dest, entry). \<not> owned_origin (Origin entry)) cur, ra_anns = is_Annotations is, ra_changed = False,
        ra_error = False, ra_world = w\<rparr>)"
    "rs_state r = filterBlockedImages (snd (resolveHelmCharts net c spec mt cur
       (mergeIntoStateWithSig (ra_state acc2) (map (\<lambda>img. toTargetImage (ai_Name img) (additional_destination (mt_Registry mt) img) None) (ms_AdditionalImages spec))
          OriginAdditional [] ''additional'' cur))) (ms_BlockedImages spec)"
    "rs_hadError r \<longleftrightarrow> ra_error acc2 \<or> fst (resolveHelmCharts net c spec mt cur
       (mergeIntoStateWithSig (ra_state acc2) (map (\<lambda>img. toTargetImage (ai_Name img) (additional_destination (mt_Registry mt) img) None) (ms_AdditionalImages spec))
          OriginAdditional [] ''additional'' cur))"
proof -
  let ?acc0 = "\<lparr>ra_state = filter (\<lambda>(dest, entry). \<not> owned_origin (Origin entry)) cur, ra_anns = is_Annotations is, ra_changed = False,
        ra_error = False, ra_world = w\<rparr>"
  let ?acc2 = "resolveOperatorSection net m spec mt cur recollect (resolveReleaseSection net c m spec mt cur recollect ?acc0)"
  let ?st3 = "mergeIntoStateWithSig (ra_state ?acc2) (map (\<lambda>img. toTargetImage (ai_Name img) (additional_destination (mt_Registry mt) img) None) (ms_AdditionalImages spec))
          OriginAdditional [] ''additional'' cur"
  obtain acc where acc: "resolve_sections net c m spec mt cur (is_Annotations is) w = Inr acc"
    and r: "rs_state r = ra_state acc" "rs_hadError r = ra_error acc"
    using assms(1) by (auto simp: resolveImageSet_def spec_def Let_def split: sum.splits)
  have "ra_state acc = filterBlockedImages (snd (resolveHelmCharts net c spec mt cur ?st3)) (ms_BlockedImages spec)"
    "ra_error acc \<longleftrightarrow> ra_error ?acc2 \<or> fst (resolveHelmCharts net c spec mt cur ?st3)"
    using acc unfolding resolve_sections_def Let_def CollectAdditional_def sum.case recollect_def [symmetric]
    by (auto simp only: sum.inject resolve_acc.select_convs fst_conv snd_conv split: prod.splits)
  then show thesis using that [OF refl] r by simp
qed















text \<open>A world in which nothing answers.\<close>

definition offline :: "(unit, 'a) resolve_net" where
  "offline = \<lparr>rn_digest = (\<lambda>_. ''sig''), rn_sha256 = (\<lambda>s. s), rn_archive_digest = (\<lambda>_. []), rn_url = (\<lambda>_. None), rn_now = 0, rn_format = (\<lambda>_. []),
     rn_format_nano = (\<lambda>_. []), rn_parse = (\<lambda>_. None), rn_download_signature = (\<lambda>_. Inl ''offline''), rn_verify_signature = (\<lambda>_ _. Some ''offline''),
     rn_catalog_digest = (\<lambda>_. Inl ''offline''), rn_secret = (\<lambda>_. Inl ''offline''), rn_cosign = (\<lambda>_ _ _. Some ''offline''), rn_pin = (\<lambda>_ _. Inl ''offline''),
     rn_resolve_full = (\<lambda>_ _. Inl ''offline''), rn_load_fbc = (\<lambda>_. Inl ''offline''), rn_version_of = (\<lambda>_. []), rn_marshal = (\<lambda>_. Inl ''offline''),
     rn_push_graph = (\<lambda>w _. (w, Inl ''offline'')), rn_cm_get = (\<lambda>_ _. Inl NotFound), rn_cm_create = (\<lambda>w _. (w, None)), rn_cm_update = (\<lambda>w _. (w, None)),
     rn_sig_get = (\<lambda>_ _. None), rn_sig_create = (\<lambda>w _ _. w), rn_sig_update = (\<lambda>w _ _. w), rn_is_get = (\<lambda>_ _. Inl NotFound),
     rn_is_update = (\<lambda>w _. (w, Written))\<rparr>"



section \<open>Only verified releases\<close>

lemma wf_helm: "wf_map st \<Longrightarrow> wf_map cur \<Longrightarrow> wf_map (snd (resolveHelmCharts net c spec mt cur st))"
  unfolding resolveHelmCharts_steps
  by (rule fold_keeps [where P = "\<lambda>acc. wf_map (snd acc)"]) (simp_all add: helm_pair_def helm_step_keeps(2))

lemma filterBlocked_subset: "mget (filterBlockedImages st blocked) d = Some e \<Longrightarrow> wf_map st \<Longrightarrow> mget st d = Some e"
  by (auto simp: filterBlockedImages_lookup split: option.splits if_splits)

lemma wf_sections:
  assumes "wf_map (ra_state acc)"
  shows "wf_map (ra_state (resolveOperatorSection net m spec mt cur recollect (resolveReleaseSection net c m spec mt cur recollect acc)))"
  unfolding resolveOperatorSection_def resolveReleaseSection_def
  by (rule fold_keeps [where P = "\<lambda>acc. wf_map (ra_state acc)"], rule wf_resolve_operator, assumption,
      rule fold_keeps [where P = "\<lambda>acc. wf_map (ra_state acc)"], rule wf_resolve_channel, assumption, rule assms)

lemma probe_sound:
  assumes "probe_channel net c ch archs nodes verified = Probed nodes' verified'"
  shows "(\<forall>a \<in> set archs. \<exists>payload. ResolveReleasePayloadNodes c ch a = Inr payload \<and> mget nodes' a = Some (verifyReleaseNodes net ch payload)) \<and>
    (\<forall>a. a \<notin> set archs \<longrightarrow> mget nodes' a = mget nodes a)"
  using assms
proof (induction archs arbitrary: nodes verified)
  case (Cons a archs)
  obtain payload where p: "ResolveReleasePayloadNodes c ch a = Inr payload"
    and rest: "probe_channel net c ch archs (mput a (verifyReleaseNodes net ch payload) nodes) (verified @ verifyReleaseNodes net ch payload) = Probed nodes' verified'"
    using Cons.prems by (auto simp: Let_def split: sum.splits if_splits)
  show ?case using Cons.IH [OF rest] p by (cases "a \<in> set archs") auto
qed simp

lemma collect_archs_images:
  assumes "collect_archs c spec registry rel nodes first archs = Inr images" and "img \<in> set images"
    and "\<And>a. a \<in> set archs \<Longrightarrow> mget nodes a \<noteq> None"
  shows "\<exists>a \<in> set archs. \<exists>ns node kv. mget nodes a = Some ns \<and> node \<in> set ns \<and> img \<in> set (node_images c spec registry a kv node)"
  using assms
proof (induction archs arbitrary: first images)
  case (Cons a archs)
  obtain ns where ns: "mget nodes a = Some ns" using Cons.prems(3) [of a] by auto
  obtain rest where rest: "collect_archs c spec registry rel nodes False archs = Inr rest"
    and img: "images = collectReleasesForArch c spec registry a first ns @ rest"
    using Cons.prems(1) ns by (auto split: sum.splits)
  show ?case
  proof (cases "img \<in> set (collectReleasesForArch c spec registry a first ns)")
    case True
    then show ?thesis using ns by (auto simp: collectReleasesForArch_def)
  next
    case False
    then have "img \<in> set rest" using Cons.prems(2) img by simp
    then show ?thesis using Cons.IH [OF rest] Cons.prems(3) by auto
  qed
qed simp

text \<open>Where a release entry may come from: the previous state, or a node of a channel whose signature was verified unless the channel opts out.\<close>

definition verified_origin :: "('w, 'a) resolve_net \<Rightarrow> 'a resolvers \<Rightarrow> mirror_spec \<Rightarrow> string \<Rightarrow> string \<Rightarrow> bool" where
  "verified_origin net c spec registry d \<longleftrightarrow>
     (\<exists>ch \<in> set (pf_Channels (ms_Platform spec)). \<exists>a \<in> set (ReleaseArchitectures spec). \<exists>payload node kv.
        ResolveReleasePayloadNodes c ch a = Inr payload \<and> node \<in> set payload \<and>
        (rc_SkipSignatureVerification ch \<or> node_verified net node) \<and>
        d \<in> ti_Destination ` set (node_images c spec registry a kv node))"

definition releases_ok :: "('w, 'a) resolve_net \<Rightarrow> 'a resolvers \<Rightarrow> mirror_spec \<Rightarrow> string \<Rightarrow> image_state \<Rightarrow> image_state \<Rightarrow> bool" where
  "releases_ok net c spec registry cur st \<longleftrightarrow>
     (\<forall>d e. mget st d = Some e \<and> Origin e = OriginRelease \<longrightarrow> mget cur d \<noteq> None \<or> verified_origin net c spec registry d)"

lemma releases_ok_carry:
  "wf_map cur \<Longrightarrow> releases_ok net c spec registry cur st \<Longrightarrow> releases_ok net c spec registry cur (carryOverByOriginAndSig cur st origin sig ref)"
  unfolding releases_ok_def by (auto simp: carryOverByOriginAndSig_lookup split: option.splits if_splits)

lemma releases_ok_carry_helm:
  "wf_map cur \<Longrightarrow> releases_ok net c spec registry cur st \<Longrightarrow> releases_ok net c spec registry cur (carryOverHelmEntries cur st origin ref)"
  unfolding releases_ok_def by (auto simp: carryOverHelmEntries_lookup split: option.splits if_splits)

lemma releases_ok_merge:
  assumes "releases_ok net c spec registry cur st"
    and "origin = OriginRelease \<Longrightarrow> \<forall>img \<in> set images. verified_origin net c spec registry (ti_Destination img)"
  shows "releases_ok net c spec registry cur (mergeIntoStateWithSig st images origin sig ref prev)"
  unfolding releases_ok_def
proof (intro allI impI)
  fix d e assume a: "mget (mergeIntoStateWithSig st images origin sig ref prev) d = Some e \<and> Origin e = OriginRelease"
  show "mget cur d \<noteq> None \<or> verified_origin net c spec registry d"
  proof (cases "filter (\<lambda>img. ti_Destination img = d) images")
    case Nil
    then show ?thesis using a assms(1) by (auto simp: mergeIntoStateWithSig_lookup releases_ok_def)
  next
    case (Cons x xs)
    then have "x \<in> set images" "ti_Destination x = d" by (auto dest: filter_eq_ConsD)
    moreover have "origin = OriginRelease" using a Cons by (auto simp: mergeIntoStateWithSig_lookup)
    ultimately show ?thesis using assms(2) by blast
  qed
qed

lemma releases_ok_set_catalog:
  assumes "releases_ok net c spec registry cur st"
  shows "releases_ok net c spec registry cur (set_catalog op images st)"
proof -
  have step: "releases_ok net c spec registry cur (case mget st x of
      Some entry \<Rightarrow> if Origin entry = OriginOperator then mput x (entry\<lparr>Catalog := op_Catalog op\<rparr>) st else st | None \<Rightarrow> st)"
    if "releases_ok net c spec registry cur st" for st x
    using that by (cases "mget st x") (auto simp: releases_ok_def)
  show ?thesis unfolding set_catalog_def by (rule fold_keeps [where P = "releases_ok net c spec registry cur"]) (rule step, assumption, rule assms)
qed

lemma channel_images_verified:
  assumes "ch \<in> set (pf_Channels (ms_Platform spec))" and "probe_channel net c ch (ReleaseArchitectures spec) [] [] = Probed nodes verified"
    and "CollectReleasesForChannel c spec registry ch nodes = Inr images" and "img \<in> set images"
  shows "verified_origin net c spec registry (ti_Destination img)"
proof -
  note p = probe_sound [OF assms(2)]
  have "mget nodes a \<noteq> None" if "a \<in> set (ReleaseArchitectures spec)" for a using p that by fastforce
  then obtain a ns node kv where a: "a \<in> set (ReleaseArchitectures spec)" "mget nodes a = Some ns" "node \<in> set ns"
      "img \<in> set (node_images c spec registry a kv node)"
    using collect_archs_images [OF assms(3) [unfolded CollectReleasesForChannel_def] assms(4)] by blast
  obtain payload where pl: "ResolveReleasePayloadNodes c ch a = Inr payload" "ns = verifyReleaseNodes net ch payload"
    using p a(1,2) by force
  have "node \<in> set payload \<and> (rc_SkipSignatureVerification ch \<or> node_verified net node)"
    using a(3) pl(2) by (auto simp: verifyReleaseNodes_def split: if_splits)
  then show ?thesis unfolding verified_origin_def using assms(1) a(1,4) pl(1) by blast
qed

lemma releases_ok_release_section:
  assumes "wf_map cur" and "releases_ok net c spec (mt_Registry mt) cur (ra_state acc)"
  shows "releases_ok net c spec (mt_Registry mt) cur (ra_state (resolveReleaseSection net c m spec mt cur recollect acc))"
proof -
  have "releases_ok net c spec (mt_Registry mt) cur (ra_state (fold (resolve_channel net c m spec mt cur recollect) chs acc))"
    if "set chs \<subseteq> set (pf_Channels (ms_Platform spec))" "releases_ok net c spec (mt_Registry mt) cur (ra_state acc)" for chs acc
    using that
  proof (induction chs arbitrary: acc)
    case (Cons ch chs)
    have "releases_ok net c spec (mt_Registry mt) cur (ra_state (resolve_channel net c m spec mt cur recollect ch acc))"
    proof (cases rule: resolve_channel_cases [of net c m spec mt cur recollect ch acc])
      case carried
      show ?thesis unfolding carried by (rule releases_ok_carry [OF assms(1) Cons.prems(2)])
    next
      case (collected nodes verified images)
      have "ch \<in> set (pf_Channels (ms_Platform spec))" using Cons.prems(1) by simp
      from channel_images_verified [OF this collected(1,2)] show ?thesis
        unfolding collected(3) by (intro releases_ok_merge [OF Cons.prems(2)]) blast
    qed
    then show ?case using Cons by simp
  qed simp
  from this [OF subset_refl assms(2)] show ?thesis by (simp add: resolveReleaseSection_def)
qed

lemma releases_ok_operator:
  assumes "wf_map cur" and "releases_ok net c spec registry cur (ra_state acc)"
  shows "releases_ok net c spec registry cur (ra_state (resolve_operator net m mt cur recollect op acc))"
proof (cases rule: resolve_operator_cases [of net m mt cur recollect op acc])
  case carried
  show ?thesis unfolding carried by (rule releases_ok_carry [OF assms])
next
  case (collected digest images filtered upstream)
  show ?thesis unfolding collected(4) by (intro releases_ok_set_catalog releases_ok_merge [OF assms(2)]) simp
qed

lemma releases_ok_helm:
  assumes "wf_map cur" and "releases_ok net c spec registry cur st"
  shows "releases_ok net c spec registry cur (snd (resolveHelmCharts net' c' spec' mt cur st))"
proof -
  have imgs: "releases_ok net c spec registry cur (fold (\<lambda>img st. mergeIntoStateWithSig st [f img] OriginHelm [] ref cur) imgs st)"
    if "releases_ok net c spec registry cur st" for f :: "string \<Rightarrow> target_image" and imgs ref st
    by (rule fold_keeps) (rule releases_ok_merge, assumption, simp, rule that)
  have "releases_ok net c spec registry cur (snd (helm_pair net' c' mt cur rc acc))" if ok: "releases_ok net c spec registry cur (snd acc)" for rc acc
  proof -
    obtain b st where acc: "acc = (b, st)" by force
    have ok': "releases_ok net c spec registry cur st" using ok acc by simp
    show ?thesis
    proof (cases "EnumerateHelmChart c' (rp_URL (fst rc)) (snd rc)")
      case (Inl e)
      then show ?thesis using ok' assms(1) by (simp add: helm_pair_def helm_step_def acc resolveHelmChart_def releases_ok_carry_helm Let_def)
    next
      case (Inr res)
      show ?thesis unfolding helm_pair_def helm_step_def acc prod.case resolveHelmChart_def Let_def Inr sum.case fst_conv snd_conv
        by (intro releases_ok_merge imgs [OF ok']) simp_all
    qed
  qed
  then have "releases_ok net c spec registry cur (snd (fold (helm_pair net' c' mt cur) rcs (False, st)))" for rcs
    using fold_keeps [where P = "\<lambda>acc. releases_ok net c spec registry cur (snd acc)" and f = "helm_pair net' c' mt cur"] assms(2) by (metis snd_conv)
  then show ?thesis unfolding resolveHelmCharts_steps .
qed

text \<open>
  Property C31. Only verified releases are queued. Every release image that is new in the state of an ImageSet belongs to a release of one of its channels whose
  signature was downloaded and verified against the release keys, unless the channel switches verification off; this covers all architectures, since the
  nodes that are collected are always the verified ones.
\<close>

theorem only_verified_releases:
  assumes "wf_map cur" and "resolveImageSet net c m is mt cur w = Inr r"
    and "mget (rs_state r) d = Some e" and "Origin e = OriginRelease" and "mget cur d = None"
  shows "verified_origin net c (is_Mirror is) (mt_Registry mt) d"
proof -
  let ?spec = "is_Mirror is" and ?recollect = "mget (is_Annotations is) RecollectAnnotation \<noteq> None"
  let ?ok = "releases_ok net c ?spec (mt_Registry mt) cur"
  obtain acc2 where acc2: "acc2 = resolveOperatorSection net m ?spec mt cur ?recollect (resolveReleaseSection net c m ?spec mt cur ?recollect
       \<lparr>ra_state = filter (\<lambda>(dest, entry). \<not> owned_origin (Origin entry)) cur, ra_anns = is_Annotations is, ra_changed = False,
        ra_error = False, ra_world = w\<rparr>)"
    and st: "rs_state r = filterBlockedImages (snd (resolveHelmCharts net c ?spec mt cur
       (mergeIntoStateWithSig (ra_state acc2) (map (\<lambda>img. toTargetImage (ai_Name img) (additional_destination (mt_Registry mt) img) None) (ms_AdditionalImages ?spec))
          OriginAdditional [] ''additional'' cur))) (ms_BlockedImages ?spec)"
    using resolveImageSet_state [OF assms(2)] by blast
  have start: "?ok (filter (\<lambda>(dest, entry). \<not> owned_origin (Origin entry)) cur)"
    by (auto simp: releases_ok_def mget_filter [OF assms(1)] owned_origin_def split: option.splits if_splits)
  have "?ok (ra_state acc2)" unfolding acc2 resolveOperatorSection_def
    by (rule fold_keeps [where P = "\<lambda>acc. ?ok (ra_state acc)"])
      (rule releases_ok_operator [OF assms(1)], assumption, rule releases_ok_release_section [OF assms(1)], simp add: start)
  then have "?ok (snd (resolveHelmCharts net c ?spec mt cur (mergeIntoStateWithSig (ra_state acc2)
      (map (\<lambda>img. toTargetImage (ai_Name img) (additional_destination (mt_Registry mt) img) None) (ms_AdditionalImages ?spec))
          OriginAdditional [] ''additional'' cur)))" (is "releases_ok _ _ _ _ _ ?st4")
    by (intro releases_ok_helm [OF assms(1)] releases_ok_merge) simp_all
  moreover have "mget ?st4 d = Some e"
    by (rule filterBlocked_subset [OF assms(3) [unfolded st]]) (simp add: wf_helm assms(1) acc2 wf_sections)
  ultimately show ?thesis using assms(4,5) unfolding releases_ok_def by blast
qed

definition signing :: "(unit, unit) resolve_net" where
  "signing = offline\<lparr>rn_download_signature := (\<lambda>_. Inr ''sig''), rn_verify_signature := (\<lambda>_ _. None)\<rparr>"

definition release_set :: image_set where
  "release_set = sample_image_set\<lparr>is_Mirror := sample_spec\<lparr>ms_Platform := \<lparr>pf_Graph = False, pf_Channels =
     [\<lparr>rc_Name = ''stable-4.21'', rc_Type = [], rc_MinVersion = [], rc_MaxVersion = [], rc_ShortestPath = False, rc_Full = False,
       rc_SkipSignatureVerification = False\<rparr>],
     pf_Architectures = [''amd64''], pf_Release = [], pf_KubeVirtContainer = False\<rparr>\<rparr>\<rparr>"


lemma release_set_resolves:
  "map_sum (\<lambda>_. ()) (\<lambda>r. map_option Origin (mget (rs_state r) ''r/openshift/release-images:4.21.9-x86_64''))
     (resolveImageSet signing sample_resolvers (new_manager [] [] []) release_set sample_target [] ()) = Inr (Some OriginRelease)"
  by code_simp

theorem only_verified_releases_witness:
  "verified_origin signing sample_resolvers (is_Mirror release_set) (mt_Registry sample_target) ''r/openshift/release-images:4.21.9-x86_64''"
proof -
  obtain r e where "resolveImageSet signing sample_resolvers (new_manager [] [] []) release_set sample_target [] () = Inr r"
    and "mget (rs_state r) ''r/openshift/release-images:4.21.9-x86_64'' = Some e" and "Origin e = OriginRelease"
    using release_set_resolves
    by (cases "resolveImageSet signing sample_resolvers (new_manager [] [] []) release_set sample_target [] ()") (auto split: option.splits)
  then show ?thesis by (intro only_verified_releases [where cur = "[]"]) simp_all
qed

end
