(* ===== verification/Reconcile.thy ===== *)
theory Reconcile
  imports Resolve Drift Dispatch Persist Status WorkerPod
begin

text \<open>
  The reconcile loop of the manager (\<open>pkg/mirror/manager/manager.go\<close>): one tick of \<open>reconcile\<close> with its phases A to H, the start-up of \<open>Run\<close>, and the
  manager as a state machine whose steps are ticks, worker reports and drift checks. What lies outside answers through the record \<open>cluster\<close>. While
  a tick has released the mutex, other threads may run; their effect is \<open>cl_between\<close>, and \<open>cl_queued\<close> are the reports queued while the tick holds it.
\<close>

section \<open>The outside of a tick\<close>

record ('w, 'a) cluster =
  cl_env :: env
  cl_kube :: "'w kube"
  cl_json_time :: "int \<Rightarrow> int"
  cl_owner :: "mirror_target \<Rightarrow> owner"
  cl_pods :: "'w \<Rightarrow> string + pod list"
  cl_delete_pod :: "string \<Rightarrow> 'w \<Rightarrow> 'w"
  cl_target :: "'w \<Rightarrow> kube_error + worker_target"
  cl_image_sets :: "'w \<Rightarrow> kube_error + image_set list"
  cl_net :: "string \<Rightarrow> ('w, 'a) resolve_net"
  cl_resolvers :: "string \<Rightarrow> 'a resolvers"
  cl_start :: "mirror_manager \<Rightarrow> worker_target \<Rightarrow> batch_item list \<Rightarrow> start_error + string"
  cl_status_get :: "'w \<Rightarrow> string \<Rightarrow> kube_error + int \<times> image_set_status"
  cl_status_update :: "'w \<Rightarrow> string \<Rightarrow> image_set_status \<Rightarrow> 'w \<times> write_result"
  cl_resource_get :: "'w \<Rightarrow> string \<Rightarrow> kube_error + resource_cm"
  cl_resource_create :: "'w \<Rightarrow> resource_cm \<Rightarrow> 'w \<times> kube_error option"
  cl_resource_update :: "'w \<Rightarrow> resource_cm \<Rightarrow> 'w \<times> kube_error option"
  cl_render :: "json \<Rightarrow> string"
  cl_render_index :: "string list \<Rightarrow> string"
  cl_between :: "string \<Rightarrow> nat \<Rightarrow> mirror_manager \<Rightarrow> mirror_manager"
  cl_queued :: "status_request list"

definition insecureHostsFor :: "mirror_target \<Rightarrow> string list option" where
  "insecureHostsFor mt =
     (if \<not> mt_Insecure mt then None
      else (let host = fst (str_cut (mt_Registry mt) ''/'') in if host = [] then None else Some [host]))"

section \<open>Phase A\<close>

definition phase_A ::
  "('w, 'a) cluster \<Rightarrow> mirror_target \<Rightarrow> image_set list \<Rightarrow> 'w \<times> mirror_manager \<Rightarrow> 'w \<times> mirror_manager" where
  "phase_A cl mt imageSets wm = (case wm of (w, m) \<Rightarrow>
     (case (if length (mm_imageState m) = 0
            then loadPartitionedState (cl_json_time cl) (cl_kube cl) w mt (cl_owner cl mt) imageSets m else (w, m)) of
        (w1, m1) \<Rightarrow>
          (case dropRemovedImageSetsLocked (mt_ImageSets mt) m1 of
             (dropped, m2) \<Rightarrow> (w1, if dropped then m2\<lparr>mm_stateDirty := True\<rparr> else m2))))"

section \<open>Phase B\<close>

record 'w phase_B_acc =
  pb_world :: 'w
  pb_manager :: mirror_manager
  pb_resolved :: "(string, bool) gomap"
  pb_hadError :: "(string, bool) gomap"

definition force_resync :: "('w, 'a) cluster \<Rightarrow> image_set \<Rightarrow> 'w \<times> mirror_manager \<Rightarrow> 'w \<times> mirror_manager" where
  "force_resync cl is wm = (case wm of (w, m) \<Rightarrow>
     if mget (is_Annotations is) ForceResyncAnnotation = None then (w, m)
     else (case resetImageSetToPendingLocked (is_Name is) m of
             (changed, m1) \<Rightarrow>
               (let m2 = (if changed then m1\<lparr>mm_stateDirty := True, mm_statusDirty := True\<rparr> else m1)
                in (fst (clearForceResyncAnnotation (cl_net cl (is_Name is)) is w), cl_between cl (is_Name is) 0 m2))))"

text \<open>What a finished resolve does to the manager, under the mutex again: the merge, the reset a recollect asks for, the catalog digests.\<close>

definition merge_resolved :: "image_set \<Rightarrow> image_state \<Rightarrow> 'w resolution \<Rightarrow> mirror_manager \<Rightarrow> mirror_manager" where
  "merge_resolved is isView r m =
     (let newPerISState = mergeWorkerUpdates (rs_state r) (mm_imageState m);
          m1 = m\<lparr>mm_statusDirty := True\<rparr>
      in if rs_stateChanged r \<or> length isView = 0
         then (case mergeResolvedIntoConsolidated (mm_imageState m1) (mm_owners m1) newPerISState (is_Name is) of
                 (st, ows, _) \<Rightarrow> m1\<lparr>mm_imageState := st, mm_owners := ows,
                   mm_ownerMeta := recordOwnerMetaLocked (mm_ownerMeta m1) (is_Name is) newPerISState, mm_stateDirty := True\<rparr>)
         else m1)"

definition merge_resolution :: "image_set \<Rightarrow> image_state \<Rightarrow> 'w resolution \<Rightarrow> mirror_manager \<Rightarrow> mirror_manager" where
  "merge_resolution is isView r m =
     (let m2 = merge_resolved is isView r m;
          m3 = (if mget (is_Annotations is) RecollectAnnotation \<noteq> None
                then (case resetFailedForRecollectLocked (is_Name is) m2 of
                        (changed, m') \<Rightarrow> if changed then m'\<lparr>mm_stateDirty := True, mm_statusDirty := True\<rparr> else m')
                else m2)
      in case setCatalogDigestsLocked (is_Name is) (catalogDigestsOf (is_Annotations (rs_imageSet r))) m3 of
           (changed, m') \<Rightarrow> if changed then m'\<lparr>mm_stateDirty := True\<rparr> else m')"

definition resolve_one :: "('w, 'a) cluster \<Rightarrow> mirror_target \<Rightarrow> image_set \<Rightarrow> 'w phase_B_acc \<Rightarrow> 'w phase_B_acc" where
  "resolve_one cl mt is b =
     (let name = is_Name is; m = pb_manager b;
          isView = filterByImageSet (mm_imageState m) (mm_owners m) (mm_ownerMeta m) name;
          resumed = touchHeartbeat (cl_env cl) (cl_between cl name 1 m)
      in if \<not> shouldResolve (ev_now (cl_env cl)) is mt isView then b
         else (case resolveImageSet (cl_net cl name) (cl_resolvers cl name) m is mt isView (pb_world b) of
                 Inl _ \<Rightarrow> b\<lparr>pb_manager := resumed\<rparr>
               | Inr r \<Rightarrow> b\<lparr>pb_world := rs_world r, pb_manager := merge_resolution is isView r resumed,
                     pb_resolved := mput name True (pb_resolved b), pb_hadError := mput name (rs_hadError r) (pb_hadError b)\<rparr>))"

definition phase_B_step :: "('w, 'a) cluster \<Rightarrow> mirror_target \<Rightarrow> image_set \<Rightarrow> 'w phase_B_acc \<Rightarrow> 'w phase_B_acc" where
  "phase_B_step cl mt is b =
     (if \<not> containsString (mt_ImageSets mt) (is_Name is) then b
      else (case force_resync cl is (pb_world b, pb_manager b) of
              (w, m) \<Rightarrow> resolve_one cl mt is (b\<lparr>pb_world := w, pb_manager := m\<rparr>)))"

definition phase_B :: "('w, 'a) cluster \<Rightarrow> mirror_target \<Rightarrow> image_set list \<Rightarrow> 'w \<times> mirror_manager \<Rightarrow> 'w phase_B_acc" where
  "phase_B cl mt imageSets wm = (case wm of (w, m) \<Rightarrow>
     fold (phase_B_step cl mt) imageSets \<lparr>pb_world = w, pb_manager = m, pb_resolved = [], pb_hadError = []\<rparr>)"

definition requireSignedByIS :: "mirror_target \<Rightarrow> image_set list \<Rightarrow> (string, bool) gomap" where
  "requireSignedByIS mt imageSets =
     fold (\<lambda>is req. if containsString (mt_ImageSets mt) (is_Name is) then mput (is_Name is) (ms_RequireSignedImages (is_Mirror is)) req else req)
       imageSets []"

section \<open>Phase C\<close>

text \<open>The destinations of the sweep that is started, none when it is not due.\<close>

definition check_exist_interval :: "mirror_target \<Rightarrow> int" where
  "check_exist_interval mt = (case mt_CheckExistInterval mt of Some d \<Rightarrow> if d \<ge> 10 * minute then d else 6 * hour | None \<Rightarrow> 6 * hour)"

definition phase_C :: "('w, 'a) cluster \<Rightarrow> mirror_target \<Rightarrow> mirror_manager \<Rightarrow> string list \<times> mirror_manager" where
  "phase_C cl mt m =
     (let now = ev_now (cl_env cl)
      in if now - mm_lastDriftCheck m > check_exist_interval mt \<and> \<not> mm_driftSweepRunning m
         then startDriftSweepLocked (m\<lparr>mm_lastDriftCheck := now\<rparr>) else ([], m))"

section \<open>Phases F to H\<close>

definition phase_F :: "('w, 'a) cluster \<Rightarrow> mirror_target \<Rightarrow> 'w \<times> mirror_manager \<Rightarrow> 'w \<times> mirror_manager" where
  "phase_F cl mt wm = (case wm of (w, m) \<Rightarrow>
     (let m1 = drainStatusQueueLocked (cl_env cl) (fold enqueueStatus (cl_queued cl) m)
      in if mm_stateDirty m1 then
           (case flushPartitionedState (cl_json_time cl) (cl_kube cl) w mt (cl_owner cl mt) m1 of
              (w', m2, err) \<Rightarrow> (w', if err = None then m2\<lparr>mm_stateDirty := False\<rparr> else m2))
         else if \<not> mm_summaryWritten m1 then
           (case saveSummary (cl_kube cl) w mt (cl_owner cl mt) (countedLocked mt m1) m1 of (w', m2, _) \<Rightarrow> (w', m2))
         else (w, m1)))"

text \<open>The status is written with up to five attempts on conflicts, each on the latest object.\<close>

definition write_status :: "('w, 'a) cluster \<Rightarrow> string \<Rightarrow> image_state \<Rightarrow> bool \<Rightarrow> 'w \<Rightarrow> 'w" where
  "write_status cl name isView justResolved w =
     fst (retry_on_conflict DefaultRetrySteps (\<lambda>w.
       case cl_status_get cl w name of
         Inl e \<Rightarrow> (w, WriteFailed e)
       | Inr (generation, latest) \<Rightarrow>
           cl_status_update cl w name (updateImageSetStatusLocked (ev_now (cl_env cl)) generation isView justResolved latest)) w)"

definition phase_G :: "('w, 'a) cluster \<Rightarrow> mirror_target \<Rightarrow> image_set list \<Rightarrow> 'w phase_B_acc \<Rightarrow> 'w \<times> mirror_manager \<Rightarrow> 'w \<times> mirror_manager" where
  "phase_G cl mt imageSets b wm = (case wm of (w, m) \<Rightarrow>
     if \<not> mm_statusDirty m then (w, m)
     else (fold (\<lambda>is w.
             if \<not> containsString (mt_ImageSets mt) (is_Name is) then w
             else write_status cl (is_Name is) (filterByImageSet (mm_imageState m) (mm_owners m) (mm_ownerMeta m) (is_Name is))
                    (mget_bool (pb_resolved b) (is_Name is) \<and> \<not> mget_bool (pb_hadError b) (is_Name is)) w) imageSets w,
           m\<lparr>mm_statusDirty := False\<rparr>))"

section \<open>A tick\<close>

record tick_out =
  to_deleted :: "string list"
  to_insecure :: "string list option"
  to_sweep :: "string list"
  to_signed :: "(string, bool) gomap"
  to_orphans :: image_state
  to_started :: "(string \<times> batch_item list) list"

text \<open>
  The mutex is free while the pods are listed, before the lock of step 2, and again while the finished pods are deleted, from the end of step 2 until the tick takes the lock.
\<close>

definition cleanup_workers :: "('w, 'a) cluster \<Rightarrow> 'w \<times> mirror_manager \<Rightarrow> string list \<times> 'w \<times> mirror_manager" where
  "cleanup_workers cl wm = (case wm of (w, m) \<Rightarrow>
     (case cleanupFinishedWorkers (cl_env cl) (cl_between cl [] 0) (cl_pods cl w) m of
        (deleted, m1) \<Rightarrow> (deleted, fold (cl_delete_pod cl) deleted w, cl_between cl [] 1 m1)))"

definition phases_D_E :: "('w, 'a) cluster \<Rightarrow> worker_target \<Rightarrow> 'w \<times> mirror_manager \<Rightarrow> image_state \<times> (string \<times> batch_item list) list \<times> 'w \<times> mirror_manager" where
  "phases_D_E cl wt wm = (case wm of (w, m) \<Rightarrow>
     (let mt = mirror_target.truncate wt;
          t = process_entries (cl_env cl) m;
          w1 = (if length (tk_orphans t) > 0
                then fst (appendOrphans (cl_json_time cl) (cl_kube cl) w (cl_owner cl mt) (tk_orphans t) (tk_manager t)) else w)
      in case dispatch_batches (\<lambda>batch. map_sum (\<lambda>_. []) id (cl_start cl (tk_manager t) wt batch)) mt t of
           (started, m1) \<Rightarrow> (tk_orphans t, started, w1, m1)))"

definition reconcile :: "('w, 'a) cluster \<Rightarrow> 'w \<times> mirror_manager \<Rightarrow> 'w \<times> mirror_manager \<times> (kube_error + tick_out)" where
  "reconcile cl wm = (case wm of (w0, m0) \<Rightarrow>
     (case cleanup_workers cl (w0, touchHeartbeat (cl_env cl) m0) of (deleted, w, m1) \<Rightarrow>
        (let m = drainStatusQueueLocked (cl_env cl) m1
         in case cl_target cl w of
              Inl e \<Rightarrow> (w, touchHeartbeat (cl_env cl) m, Inl e)
            | Inr wt \<Rightarrow>
                (case cl_image_sets cl w of
                   Inl e \<Rightarrow> (w, touchHeartbeat (cl_env cl) m, Inl e)
                 | Inr imageSets \<Rightarrow>
                     (let mt = mirror_target.truncate wt;
                          b = phase_B cl mt imageSets (phase_A cl mt imageSets (w, m\<lparr>mm_maxRetries := mt_MaxRetries mt\<rparr>))
                      in case phase_C cl mt (pb_manager b) of (sweep, mC) \<Rightarrow>
                         (case phases_D_E cl wt (pb_world b, mC) of (orphans, started, wE, mE) \<Rightarrow>
                            (case phase_G cl mt imageSets b (phase_F cl mt (wE, mE)) of (wG, mG) \<Rightarrow>
                               (fst (saveGlobalResources (cl_resource_get cl) (cl_resource_create cl) (cl_resource_update cl) (cl_render cl)
                                       (cl_render_index cl) mt imageSets mG wG),
                                touchHeartbeat (cl_env cl) mG,
                                Inr \<lparr>to_deleted = deleted, to_insecure = insecureHostsFor mt, to_sweep = sweep,
                                     to_signed = requireSignedByIS mt imageSets, to_orphans = orphans, to_started = started\<rparr>))))))))"

section \<open>Start-up\<close>

definition NewWithClients :: "string \<Rightarrow> string \<Rightarrow> mirror_manager" where
  "NewWithClients targetName namespace = \<lparr>mm_TargetName = targetName, mm_Namespace = namespace, mm_workerToken = [], mm_urgentFlush = False,
     mm_statusQueue = [], mm_inProgress = [], mm_mirrored = [], mm_imageState = [], mm_owners = [], mm_ownerMeta = [],
     mm_catalogDigests = [], mm_lastDriftCheck = 0, mm_stateDirty = False, mm_summaryWritten = False, mm_statusDirty = False,
     mm_driftSweepRunning = False, mm_heartbeat = 0, mm_maxRetries = 0, mm_statusAPIReady = False\<rparr>"

datatype run_error = LoadTargetError kube_error | TokenError token_error

text \<open>
  \<open>Run\<close> up to its loop: the token, the worker pods that survived a restart, and the status API. The first tick and the loop are steps of
  the state machine below. A failure to list the pods is logged only.
\<close>

definition run_start ::
  "('w \<Rightarrow> kube_error + worker_target) \<Rightarrow> ('w \<Rightarrow> string \<Rightarrow> kube_error + secret) \<Rightarrow> ('w \<Rightarrow> secret \<Rightarrow> 'w \<times> kube_error option) \<Rightarrow> string + string
    \<Rightarrow> string option \<Rightarrow> (string \<Rightarrow> string list option) \<Rightarrow> ('w \<Rightarrow> string + pod list) \<Rightarrow> 'w \<Rightarrow> mirror_manager \<Rightarrow> 'w \<times> (run_error + string list \<times> mirror_manager)" where
  "run_start target sget screate randomToken ownerErr decodeDests pods w m =
     (case target w of
        Inl e \<Rightarrow> (w, Inl (LoadTargetError e))
      | Inr _ \<Rightarrow>
          (case ensureWorkerTokenSecret sget screate randomToken ownerErr w m of
             (w1, Inl e) \<Rightarrow> (w1, Inl (TokenError e))
           | (w1, Inr m1) \<Rightarrow>
               (case (case syncInProgressFromPods decodeDests (pods w1) m1 of Inl _ \<Rightarrow> ([], m1) | Inr dm \<Rightarrow> dm) of
                  (deleted, m2) \<Rightarrow> (w1, Inr (deleted, m2\<lparr>mm_statusAPIReady := True\<rparr>)))))"

section \<open>Other threads\<close>

definition wf_manager :: "mirror_manager \<Rightarrow> bool" where
  "wf_manager m \<longleftrightarrow> wf_map (mm_inProgress m) \<and> wf_map (mm_mirrored m) \<and> wf_map (mm_imageState m) \<and> wf_map (mm_owners m)"

definition owned :: "mirror_manager \<Rightarrow> bool" where
  "owned m \<longleftrightarrow> (\<forall>d. mget (mm_imageState m) d \<noteq> None \<longrightarrow> mget_list (mm_owners m) d \<noteq> [])"

lemma manager_inv_iff: "manager_inv m \<longleftrightarrow> wf_manager m \<and> flags_ok m"
  by (simp add: manager_inv_def wf_manager_def)

text \<open>
  What the threads beside the reconcile loop promise: a report handler or a drift check keeps the maps well formed and the invariant, leaves the
  ownership alone and adds no entry. The first law does not rely on the invariant, which a tick may break between two of its phases.
\<close>

locale side_op =
  fixes step :: "mirror_manager \<Rightarrow> mirror_manager"
  assumes side_wf: "wf_manager m \<Longrightarrow> wf_manager (step m)"
    and side_inv: "manager_inv m \<Longrightarrow> manager_inv (step m)"
    and side_owners: "mm_owners (step m) = mm_owners m"
    and side_entries: "mget (mm_imageState m) d = None \<Longrightarrow> mget (mm_imageState (step m)) d = None"
begin

lemma side_owned: "owned m \<Longrightarrow> owned (step m)"
  unfolding owned_def side_owners by (intro allI impI) (metis side_entries)

end

lemma side_op_id: "side_op (\<lambda>m. m)"
  by unfold_locales auto

lemma side_op_comp:
  assumes "side_op f" and "side_op g"
  shows "side_op (\<lambda>m. g (f m))"
  by unfold_locales
    (simp_all add: side_op.side_wf [OF assms(1)] side_op.side_wf [OF assms(2)] side_op.side_inv [OF assms(1)] side_op.side_inv [OF assms(2)]
      side_op.side_owners [OF assms(1)] side_op.side_owners [OF assms(2)] side_op.side_entries [OF assms(1)] side_op.side_entries [OF assms(2)])

lemma side_op_fold: "(\<And>x. side_op (f x)) \<Longrightarrow> side_op (fold f xs)"
proof (induction xs)
  case (Cons x xs)
  then show ?case using side_op_comp [of "f x" "fold f xs"] by (simp add: comp_def)
qed (simp add: side_op_id id_def)

text \<open>Only the maps the laws speak of matter.\<close>

lemma side_op_frame:
  assumes "side_op f"
    and "\<And>m. mm_imageState (g m) = mm_imageState (f m) \<and> mm_mirrored (g m) = mm_mirrored (f m) \<and> mm_owners (g m) = mm_owners (f m)"
    and "\<And>m. wf_map (mm_inProgress (f m)) \<Longrightarrow> wf_map (mm_inProgress (g m))"
  shows "side_op g"
proof -
  have wf: "wf_manager (f m) \<Longrightarrow> wf_manager (g m)" and fl: "flags_ok (g m) = flags_ok (f m)" for m
    using assms(2,3) [of m] by (simp_all add: wf_manager_def flags_ok_def)
  show ?thesis
    by unfold_locales
      (use assms(2) in \<open>simp_all add: wf fl manager_inv_iff side_op.side_wf [OF assms(1)] side_op.side_owners [OF assms(1)]
        side_op.side_entries [OF assms(1)] side_op.side_inv [OF assms(1), unfolded manager_inv_iff]\<close>)
qed

lemma setImageState_side:
  "mm_owners (setImageStateLocked ev d st err m) = mm_owners m"
  "mm_inProgress (setImageStateLocked ev d st err m) = mm_inProgress m"
  "mget (mm_imageState m) d' = None \<Longrightarrow> mget (mm_imageState (setImageStateLocked ev d st err m)) d' = None"
  "wf_manager m \<Longrightarrow> wf_manager (setImageStateLocked ev d st err m)"
  by (auto simp: setImageStateLocked_def resetMirroredLocked_def wf_manager_def Let_def split: option.splits)

lemma side_record_success: "side_op (record_success ev req)"
proof unfold_locales
  show "manager_inv m \<Longrightarrow> manager_inv (record_success ev req m)" for m
    using manager_op_record_success by (simp add: manager_op_def)
  show "wf_manager m \<Longrightarrow> wf_manager (record_success ev req m)" for m
    by (auto simp: record_success_def setImageStateLocked_def wf_manager_def Let_def split: option.splits)
  show "mm_owners (record_success ev req m) = mm_owners m" for m
    by (auto simp: record_success_def setImageStateLocked_def Let_def split: option.splits)
  show "mget (mm_imageState (record_success ev req m)) d = None" if "mget (mm_imageState m) d = None" for m d
  proof (cases "mget (mm_imageState m) (rq_Destination req)")
    case None
    then show ?thesis using that by (simp add: record_success_absent)
  next
    case (Some e)
    from record_success_entry [OF Some, of ev] show ?thesis using that Some by (metis fun_upd_apply option.distinct(1))
  qed
qed

interpretation apply_side: side_op "applyStatusLocked ev req" for ev req
proof -
  have "side_op (\<lambda>m. if rq_Error req \<noteq> [] then setImageStateLocked ev (rq_Destination req) stateFailed (rq_Error req) m else record_success ev req m)"
  proof (cases "rq_Error req \<noteq> []")
    case True
    have "side_op (setImageStateLocked ev (rq_Destination req) stateFailed (rq_Error req))"
      using manager_op_setImageState by unfold_locales (auto simp: setImageState_side manager_op_def)
    then show ?thesis using True by simp
  qed (simp add: side_record_success)
  then show "side_op (applyStatusLocked ev req)"
    by (rule side_op_frame) (simp_all add: applyStatusLocked_eq Let_def)
qed

lemma side_drain: "side_op (drainStatusQueueLocked ev)"
proof -
  have fold: "side_op (fold (applyStatusLocked ev) reqs)" for reqs by (rule side_op_fold) (rule apply_side.side_op_axioms)
  have "side_op (\<lambda>m. m\<lparr>mm_statusQueue := []\<rparr>)" by (rule side_op_frame [OF side_op_id]) simp_all
  from side_op_comp [OF this fold] show ?thesis
    unfolding side_op_def drainStatusQueueLocked_def by simp
qed

interpretation report: side_op "\<lambda>m. snd (handleStatusUpdate ev locked r m)" for ev locked r
proof -
  have enq: "side_op (enqueueStatus req)" for req
    by (rule side_op_frame [OF side_op_id]) (simp_all add: enqueueStatus_def)
  have "side_op (\<lambda>m. if \<not> locked then drainStatusQueueLocked ev (enqueueStatus req m) else enqueueStatus req m)" for req
    using side_op_comp [OF enq side_drain] enq by (cases locked) simp_all
  then have applied: "side_op (\<lambda>m. (if \<not> locked then drainStatusQueueLocked ev (enqueueStatus req m) else enqueueStatus req m)\<lparr>mm_urgentFlush := True\<rparr>)" for req
    by (rule side_op_frame) simp_all
  show "side_op (\<lambda>m. snd (handleStatusUpdate ev locked r m))"
    unfolding side_op_def handleStatusUpdate_def using applied side_op_id unfolding side_op_def
    by (auto simp: Let_def split: option.split)
qed

text \<open>
  A drift check takes its snapshot in one critical section and applies its result in another: the state \<open>m0\<close> of the snapshot may be any
  earlier one.
\<close>

lemma drift_side:
  assumes "drift_snapshot m0 dest req \<noteq> None"
  shows "side_op (\<lambda>m. snd (checkDriftAttempt ev net (\<lambda>_. m) dest req final m0))"
proof
  fix m
  obtain retry m' where r: "checkDriftAttempt ev net (\<lambda>_. m) dest req final m0 = (retry, m')" by force
  have keeps: "mm_owners m' = mm_owners m \<and> (wf_manager m \<longrightarrow> wf_manager m') \<and> (manager_inv m \<longrightarrow> manager_inv m') \<and>
      (mget (mm_imageState m) d = None \<longrightarrow> mget (mm_imageState m') d = None)" for d
    using r
  proof (cases rule: drift_outcome)
    case (recovered e answer)
    then show ?thesis using drift_recover_op [OF _ recovered(1)]
      by (auto simp: drift_recover_def resetMirroredLocked_def wf_manager_def)
  next
    case (confirmed e answer source signature)
    have "mm_owners m' = mm_owners m \<and> mm_inProgress m' = mm_inProgress m \<and> (mget (mm_imageState m) d = None \<longrightarrow> mget (mm_imageState m') d = None)"
      using confirmed(1) unfolding confirmed(3)
      by (auto simp: drift_confirm_def applySourceDigestLocked_def applySignatureResultLocked_def resetMirroredLocked_def Let_def
          split: option.splits prod.splits)
    then show ?thesis using drift_confirm_op [OF _ confirmed(1,2)] wf_drift_confirm confirmed(3) unfolding wf_manager_def by auto
  qed (use assms in auto)
  then show "wf_manager m \<Longrightarrow> wf_manager (snd (checkDriftAttempt ev net (\<lambda>_. m) dest req final m0))"
    "manager_inv m \<Longrightarrow> manager_inv (snd (checkDriftAttempt ev net (\<lambda>_. m) dest req final m0))"
    "mm_owners (snd (checkDriftAttempt ev net (\<lambda>_. m) dest req final m0)) = mm_owners m"
    "mget (mm_imageState m) d = None \<Longrightarrow> mget (mm_imageState (snd (checkDriftAttempt ev net (\<lambda>_. m) dest req final m0))) d = None" for d
    unfolding r by simp_all
qed

text \<open>What other threads do while the mutex is free: any sequence of reports and results of drift checks, and the end of a sweep.\<close>

inductive side_run :: "mirror_manager \<Rightarrow> mirror_manager \<Rightarrow> bool" for m where
  nothing: "side_run m m"
| reported: "side_run m m1 \<Longrightarrow> side_run m (snd (handleStatusUpdate ev locked r m1))"
| drift_checked: "side_run m m1 \<Longrightarrow> drift_snapshot m0 dest req \<noteq> None \<Longrightarrow>
    side_run m (snd (checkDriftAttempt ev net (\<lambda>_. m1) dest req final m0))"
| sweep_ended: "side_run m m1 \<Longrightarrow> side_run m (m1\<lparr>mm_driftSweepRunning := False\<rparr>)"

lemma side_run_keeps:
  assumes "side_run m m'"
  shows "mm_owners m' = mm_owners m \<and> (wf_manager m \<longrightarrow> wf_manager m') \<and> (manager_inv m \<longrightarrow> manager_inv m') \<and>
    (\<forall>d. mget (mm_imageState m) d = None \<longrightarrow> mget (mm_imageState m') d = None)"
  using assms
proof induction
  case (reported m1 ev locked r)
  then show ?case using report.side_owners report.side_wf report.side_inv report.side_entries by metis
next
  case (drift_checked m1 m0 dest req ev net final)
  note op = drift_side [OF drift_checked.hyps(2), of ev net final]
  from drift_checked.IH show ?case
    using side_op.side_owners [OF op, of m1] side_op.side_wf [OF op, of m1] side_op.side_inv [OF op, of m1] side_op.side_entries [OF op, of m1] by simp
next
  case (sweep_ended m1)
  then show ?case by (simp add: wf_manager_def manager_inv_def flags_ok_def)
qed simp

lemma side_run_op:
  assumes "\<And>m. side_run m (f m)"
  shows "side_op f"
  by unfold_locales (use side_run_keeps [OF assms] in auto)

definition quiet :: "('w, 'a) cluster \<Rightarrow> bool" where
  "quiet cl \<longleftrightarrow> (\<forall>name i m. side_run m (cl_between cl name i m))"

lemma quiet_op: "quiet cl \<Longrightarrow> side_op (cl_between cl name i)"
  by (rule side_run_op) (simp add: quiet_def)

section \<open>A tick keeps the manager well formed\<close>

lemma side_op_pointwise:
  assumes "\<And>m. \<exists>g. side_op g \<and> f m = g m"
  shows "side_op f"
proof
  fix m
  obtain g where g: "side_op g" "f m = g m" using assms by blast
  show "wf_manager m \<Longrightarrow> wf_manager (f m)" "manager_inv m \<Longrightarrow> manager_inv (f m)" "mm_owners (f m) = mm_owners m"
    "mget (mm_imageState m) d = None \<Longrightarrow> mget (mm_imageState (f m)) d = None" for d
    unfolding g(2) by (simp_all add: side_op.side_wf [OF g(1)] side_op.side_inv [OF g(1)] side_op.side_owners [OF g(1)] side_op.side_entries [OF g(1)])
qed

lemma release_side: "side_op (release_tracked ev f)"
proof -
  obtain dest podName phase where f: "f = (dest, podName, phase)" by (cases f)
  have del: "side_op (\<lambda>m. m\<lparr>mm_inProgress := mdel dest (mm_inProgress m)\<rparr>)" by (rule side_op_frame [OF side_op_id]) simp_all
  have "side_op (setImageStateLocked ev dest statePending [])"
    using manager_op_setImageState by unfold_locales (auto simp: setImageState_side manager_op_def)
  note reset = side_op_comp [OF del this]
  show ?thesis unfolding f
    by (rule side_op_pointwise) (use del reset side_op_id in \<open>auto simp: release_tracked_def Let_def\<close>)
qed

lemma cleanup_side:
  assumes "side_op between"
  shows "side_op (\<lambda>m. snd (cleanupFinishedWorkers ev between listed m))"
proof (rule side_op_pointwise)
  fix m
  have "side_op (\<lambda>m. fold (release_tracked ev) finished (drainStatusQueueLocked ev (between m)))" for finished
    by (rule side_op_comp [OF side_op_comp [OF assms side_drain] side_op_fold]) (rule release_side)
  then show "\<exists>g. side_op g \<and> snd (cleanupFinishedWorkers ev between listed m) = g m"
    using assms by (auto simp: cleanupFinishedWorkers_def Let_def split: sum.split)
qed

lemma tick_start_side:
  assumes "quiet cl"
  shows "side_op (\<lambda>m. drainStatusQueueLocked (cl_env cl) (snd (snd (cleanup_workers cl (w, touchHeartbeat (cl_env cl) m)))))"
proof -
  have "side_op (touchHeartbeat (cl_env cl))" by (rule side_op_frame [OF side_op_id]) (simp_all add: touchHeartbeat_def)
  from side_op_comp [OF side_op_comp [OF side_op_comp [OF this cleanup_side [OF quiet_op [OF assms]]] quiet_op [OF assms]] side_drain]
  show ?thesis by (simp add: cleanup_workers_def case_prod_beta)
qed

text \<open>What holds from phase A on: the maps are well formed and only ImageSets of the target own images.\<close>

definition owners_in :: "string set \<Rightarrow> mirror_manager \<Rightarrow> bool" where
  "owners_in S m \<longleftrightarrow> (\<forall>d. set (mget_list (mm_owners m) d) \<subseteq> S)"

lemma wf_load_owners: "wf_map (fst (snd ws)) \<Longrightarrow> wf_map (fst (snd (load_entry isName de ws)))"
  by (auto simp: load_entry_def addOwner_def split: prod.splits option.splits)

lemma wf_load_image_set_owners: "wf_map (fst (snd (fst acc))) \<Longrightarrow> wf_map (fst (snd (fst (load_image_set k w mt is acc))))"
proof -
  have "wf_map (fst (snd (fold (load_entry n) xs ws)))" if "wf_map (fst (snd ws))" for n xs ws
    using that by (rule fold_keeps [where P = "\<lambda>ws. wf_map (fst (snd ws))", rotated]) (rule wf_load_owners)
  then show "wf_map (fst (snd (fst acc))) \<Longrightarrow> wf_map (fst (snd (fst (load_image_set k w mt is acc))))"
    by (auto simp: load_image_set_def split: prod.splits sum.splits)
qed

lemma wf_loadPartitionedState:
  assumes "wf_manager m" and "loadPartitionedState tj k w mt ow iss m = (w', m')"
  shows "wf_manager m'"
proof -
  obtain w1 e where mig: "MigrateConsolidatedToPerImageSet tj k w (mm_TargetName m) ow = (w1, e)" by force
  let ?r = "fold (load_image_set k w1 mt) iss (([], [], []), [])"
  have "wf_map (fst (fst ?r))" by (rule wf_load_image_sets) simp
  moreover have "wf_map (fst (snd (fst ?r)))"
    by (rule fold_keeps [where P = "\<lambda>acc. wf_map (fst (snd (fst acc)))"]) (rule wf_load_image_set_owners, assumption, simp)
  moreover have "m' = m\<lparr>mm_imageState := fst (fst ?r), mm_owners := fst (snd (fst ?r)), mm_ownerMeta := snd (snd (fst ?r)), mm_catalogDigests := snd ?r\<rparr>"
    using assms(2) by (auto simp: loadPartitionedState_def mig case_prod_beta)
  ultimately show ?thesis using assms(1) by (simp add: wf_manager_def)
qed

lemma phase_A_ok:
  assumes "wf_manager m"
  shows "wf_manager (snd (phase_A cl mt iss (w, m))) \<and> owners_in (set (mt_ImageSets mt)) (snd (phase_A cl mt iss (w, m)))"
proof -
  obtain w1 m1 where l: "(if length (mm_imageState m) = 0
      then loadPartitionedState (cl_json_time cl) (cl_kube cl) w mt (cl_owner cl mt) iss m else (w, m)) = (w1, m1)" by force
  have wf: "wf_manager m1"
    using l assms wf_loadPartitionedState [OF assms, of "cl_json_time cl" "cl_kube cl" w mt "cl_owner cl mt" iss w1 m1] by (simp split: if_splits)
  let ?m2 = "snd (dropRemovedImageSetsLocked (mt_ImageSets mt) m1)"
  have "wf_manager ?m2" using wf drop_frame_fold [of "(False, m1)" "mt_ImageSets mt" "mm_owners m1"]
    by (simp add: wf_manager_def drop_frame_def dropRemoved_snd)
  moreover have "owners_in (set (mt_ImageSets mt)) ?m2" using wf by (simp add: owners_in_def wf_manager_def dropRemoved_lookup) auto
  ultimately show ?thesis unfolding phase_A_def prod.case l
    by (cases "dropRemovedImageSetsLocked (mt_ImageSets mt) m1") (simp add: wf_manager_def owners_in_def)
qed

lemma wf_resolveImageSet:
  assumes "wf_map cur" and "resolveImageSet net c m is mt cur w = Inr r"
  shows "wf_map (rs_state r)"
proof -
  obtain acc where "wf_map (ra_state acc)" and st: "rs_state r = filterBlockedImages (snd (resolveHelmCharts net c (is_Mirror is) mt cur
       (mergeIntoStateWithSig (ra_state acc) (map (\<lambda>img. toTargetImage (ai_Name img) (additional_destination (mt_Registry mt) img) None)
          (ms_AdditionalImages (is_Mirror is))) OriginAdditional [] ''additional'' cur))) (ms_BlockedImages (is_Mirror is))"
    using resolveImageSet_state [OF assms(2)] wf_sections assms(1) by (metis (no_types, lifting) resolve_acc.select_convs(1) wf_map_filter)
  then show ?thesis unfolding st using assms(1) by (simp add: wf_helm)
qed

lemma wf_drop_stale: "wf_map (fst acc) \<Longrightarrow> wf_map (fst (drop_stale perIS isName de acc))"
  by (auto simp: drop_stale_def removeOwner_def Let_def split: prod.splits bool.splits if_splits)

lemma wf_merge_owners:
  assumes "wf_map ows" and "mergeResolvedIntoConsolidated st ows perIS isName = (st', ows', orphaned)"
  shows "wf_map ows'"
proof -
  have "wf_map (snd (fold (upsert_entry isName) perIS (st, ows)))"
    by (rule fold_keeps [where P = "\<lambda>s. wf_map (snd s)"]) (auto simp: upsert_entry_def addOwner_def assms(1) split: prod.splits)
  moreover have "wf_map (fst (fold (drop_stale perIS isName) xs acc))" if "wf_map (fst acc)" for xs acc
    using that by (rule fold_keeps [where P = "\<lambda>acc. wf_map (fst acc)", rotated]) (rule wf_drop_stale)
  ultimately show ?thesis using assms(2) by (auto simp: mergeResolvedIntoConsolidated_def case_prod_beta) (metis fst_conv)
qed

abbreviation tick_ok :: "string set \<Rightarrow> mirror_manager \<Rightarrow> bool" where
  "tick_ok S m \<equiv> wf_manager m \<and> owners_in S m"

lemma side_tick_ok: "side_op f \<Longrightarrow> tick_ok S m \<Longrightarrow> tick_ok S (f m)"
  by (simp add: side_op.side_wf side_op.side_owners owners_in_def)

lemma frame_tick_ok: "frame_eq m m' \<Longrightarrow> tick_ok S m \<Longrightarrow> tick_ok S m'"
  by (simp add: frame_eq_def wf_manager_def owners_in_def)

lemma merge_resolved_ok:
  assumes "tick_ok S m" and "is_Name is \<in> S" and "wf_map (rs_state r)"
  shows "tick_ok S (merge_resolved is isView r m)"
proof -
  let ?n = "is_Name is" and ?per = "mergeWorkerUpdates (rs_state r) (mm_imageState m)"
  obtain st ows orph where mr: "mergeResolvedIntoConsolidated (mm_imageState m) (mm_owners m) ?per ?n = (st, ows, orph)" by (metis prod_cases3)
  have wfs: "wf_map (mm_imageState m)" "wf_map (mm_owners m)" using assms(1) by (simp_all add: wf_manager_def)
  have wfp: "wf_map ?per" using assms(3) by (simp add: mergeWorkerUpdates_def)
  have "set (mget_list ows d) \<subseteq> S" for d
    unfolding merge_lookup(2) [OF wfs(1) wfp mr] using assms(1,2) unfolding owners_in_def
    by (auto simp: addOwner_list split: option.splits if_splits)
  then show ?thesis using assms(1) merge_lookup(4) [OF wfs(1) wfp mr] wf_merge_owners [OF wfs(2) mr] mr
    by (simp add: merge_resolved_def Let_def wf_manager_def owners_in_def)
qed

lemma merge_resolution_ok:
  assumes "tick_ok S m" and "is_Name is \<in> S" and "wf_map (rs_state r)"
  shows "tick_ok S (merge_resolution is isView r m)"
proof -
  have m2: "tick_ok S (merge_resolved is isView r m)" by (rule merge_resolved_ok [OF assms])
  obtain changed m' where r: "resetFailedForRecollectLocked (is_Name is) (merge_resolved is isView r m) = (changed, m')" by force
  have "tick_ok S m'" using frame_tick_ok [OF frame_recollect m2, of "is_Name is"] r by simp
  then show ?thesis using m2 unfolding merge_resolution_def Let_def r prod.case setCatalogDigestsLocked_def
    by (simp add: wf_manager_def owners_in_def)
qed

lemma force_resync_ok:
  assumes "quiet cl" and "tick_ok S m"
  shows "tick_ok S (snd (force_resync cl is (w, m)))"
proof -
  have "tick_ok S (snd (resetImageSetToPendingLocked (is_Name is) m))" by (rule frame_tick_ok [OF frame_reset assms(2)])
  then have "tick_ok S (if fst (resetImageSetToPendingLocked (is_Name is) m)
      then (snd (resetImageSetToPendingLocked (is_Name is) m))\<lparr>mm_stateDirty := True, mm_statusDirty := True\<rparr>
      else snd (resetImageSetToPendingLocked (is_Name is) m))" by (simp add: wf_manager_def owners_in_def)
  from side_tick_ok [OF quiet_op [OF assms(1), of "is_Name is" 0] this] show ?thesis
    using assms(2) unfolding force_resync_def prod.case case_prod_beta Let_def
    by (cases "fst (resetImageSetToPendingLocked (is_Name is) m)") simp_all
qed

lemma resolve_one_ok:
  assumes "quiet cl" and "tick_ok S (pb_manager b)" and "is_Name is \<in> S"
  shows "tick_ok S (pb_manager (resolve_one cl mt is b))"
proof -
  let ?m = "pb_manager b" and ?n = "is_Name is"
  let ?view = "filterByImageSet (mm_imageState ?m) (mm_owners ?m) (mm_ownerMeta ?m) ?n"
  have view: "wf_map ?view" using assms(2) by (simp add: wf_manager_def)
  have "tick_ok S (cl_between cl ?n 1 ?m)" by (rule side_tick_ok [OF quiet_op [OF assms(1)] assms(2)])
  then have res: "tick_ok S (touchHeartbeat (cl_env cl) (cl_between cl ?n 1 ?m))"
    by (simp add: touchHeartbeat_def wf_manager_def owners_in_def)
  show ?thesis
  proof (cases "resolveImageSet (cl_net cl ?n) (cl_resolvers cl ?n) ?m is mt ?view (pb_world b)")
    case (Inl e)
    then show ?thesis using assms(2) res by (simp add: resolve_one_def Let_def)
  next
    case (Inr r)
    from merge_resolution_ok [OF res assms(3) wf_resolveImageSet [OF view Inr]] show ?thesis
      using assms(2) Inr by (simp add: resolve_one_def Let_def)
  qed
qed

lemma phase_B_ok:
  assumes "quiet cl" and "tick_ok (set (mt_ImageSets mt)) m"
  shows "tick_ok (set (mt_ImageSets mt)) (pb_manager (phase_B cl mt iss (w, m)))"
proof -
  have step: "tick_ok (set (mt_ImageSets mt)) (pb_manager (phase_B_step cl mt is b))"
    if b: "tick_ok (set (mt_ImageSets mt)) (pb_manager b)" for "is" b
  proof (cases "is_Name is \<in> set (mt_ImageSets mt)")
    case True
    obtain w' m' where f: "force_resync cl is (pb_world b, pb_manager b) = (w', m')" by force
    have "tick_ok (set (mt_ImageSets mt)) m'" using force_resync_ok [OF assms(1) b, of "is" "pb_world b"] f by simp
    then show ?thesis using resolve_one_ok [OF assms(1) _ True, of "b\<lparr>pb_world := w', pb_manager := m'\<rparr>"] f True
      by (simp add: phase_B_step_def)
  qed (use b in \<open>simp add: phase_B_step_def\<close>)
  show ?thesis unfolding phase_B_def prod.case
    by (rule fold_keeps [where P = "\<lambda>b. tick_ok (set (mt_ImageSets mt)) (pb_manager b)"]) (rule step, assumption, simp add: assms(2))
qed

lemma phase_C_frame:
  "mm_imageState (snd (phase_C cl mt m)) = mm_imageState m \<and> mm_owners (snd (phase_C cl mt m)) = mm_owners m \<and>
   mm_mirrored (snd (phase_C cl mt m)) = mm_mirrored m \<and> mm_inProgress (snd (phase_C cl mt m)) = mm_inProgress m"
  by (simp add: phase_C_def startDriftSweepLocked_def Let_def)

lemma phase_C_ok: "tick_ok S m \<Longrightarrow> tick_ok S (snd (phase_C cl mt m))"
  using phase_C_frame [of cl mt m] by (simp add: wf_manager_def owners_in_def)

section \<open>Phase D restores the invariant\<close>

lemma process_entry_wf: "wf_manager (tk_manager t) \<Longrightarrow> wf_manager (tk_manager (process_entry ev de t))"
  by (simp add: process_entry_def wf_manager_def Let_def split: prod.split option.split)

text \<open>Whatever phases A to C left behind, afterwards a set flag means a Mirrored entry, and every entry has an owner.\<close>

lemma phase_D_restores:
  assumes "tick_ok S m" and m'_def: "m' = tk_manager (process_entries ev m)"
  shows "manager_inv m' \<and> owned m' \<and> owners_in S m'"
proof -
  have wf: "wf_map (mm_imageState m)" using assms(1) by (simp add: wf_manager_def)
  have obs: "tick_obs (process_entries ev m) d = (let ob = ((mget (mm_imageState m) d, mget_bool (mm_mirrored m) d, mget_list (mm_owners m) d,
      mget_str (mm_inProgress m) d, mm_maxRetries m), (None, [], []))
     in case mget (mm_imageState m) d of None \<Rightarrow> ob | Some e \<Rightarrow> turn ev (effectiveMaxRetries m) d e ob)" for d
    by (rule process_entries_obs [OF wf])
  have st: "mget (mm_imageState m') d = fst (fst (tick_obs (process_entries ev m) d))"
    "mget_bool (mm_mirrored m') d = fst (snd (fst (tick_obs (process_entries ev m) d)))"
    "mget_list (mm_owners m') d = fst (snd (snd (fst (tick_obs (process_entries ev m) d))))" for d
    by (simp_all add: tick_obs_def m'_def)
  have wf': "wf_manager m'" unfolding m'_def process_entries_def
    by (rule fold_keeps [where P = "\<lambda>t. wf_manager (tk_manager t)"]) (rule process_entry_wf, assumption, use assms(1) in simp)
  have fl: "State e = stateMirrored" if "mget_bool (mm_mirrored m') d" "mget (mm_imageState m') d = Some e" for d e
    using that unfolding st obs by (auto simp: turn_def Let_def split: option.splits if_splits)
  have ow: "mget_list (mm_owners m') d \<noteq> []" if "mget (mm_imageState m') d \<noteq> None" for d
    using that unfolding st obs by (auto simp: turn_def Let_def split: option.splits if_splits)
  have inS: "set (mget_list (mm_owners m') d) \<subseteq> S" for d
    using assms(1) unfolding st obs owners_in_def by (auto simp: turn_def Let_def split: option.splits if_splits)
  show ?thesis using wf' fl ow inS by (auto simp: manager_inv_iff flags_ok_def owned_def owners_in_def)
qed

lemma fold_put_wf: "wf_map (fold (\<lambda>x ip. mput (k x) v ip) xs ip) \<longleftrightarrow> wf_map ip"
  by (induction xs arbitrary: ip) simp_all

lemma phases_D_E_ok:
  assumes "tick_ok S m"
  shows "manager_inv (snd (snd (snd (phases_D_E cl wt (w, m))))) \<and> owned (snd (snd (snd (phases_D_E cl wt (w, m))))) \<and>
    owners_in S (snd (snd (snd (phases_D_E cl wt (w, m)))))"
proof -
  let ?t = "process_entries (cl_env cl) m"
  let ?start = "\<lambda>batch. map_sum (\<lambda>_. []) id (cl_start cl (tk_manager ?t) wt batch)"
  let ?r = "dispatch_batches ?start (mirror_target.truncate wt) ?t"
  note d = dispatch_dispatched [of ?start "effective_batch_size (mirror_target.truncate wt)" "effective_concurrency (mirror_target.truncate wt)"
        "remdups (map snd (mm_inProgress (tk_manager ?t)))" "pending_images ?t" "tk_manager ?t", folded dispatch_batches_def]
  obtain ip where ip: "snd ?r = (tk_manager ?t)\<lparr>mm_inProgress := ip\<rparr>" using dispatched_frame [OF d] by blast
  have "wf_map (mm_inProgress m') \<longleftrightarrow> wf_map (mm_inProgress m)"
    if "dispatched start bs conc active pending m started m'" for start bs conc active pending m started m'
    using that by (induction rule: dispatched.induct) (auto simp: fold_put_wf)
  from this [OF d] have wf: "wf_map ip \<longleftrightarrow> wf_map (mm_inProgress m)" by (simp add: ip)
  have r: "snd (snd (snd (phases_D_E cl wt (w, m)))) = (tk_manager ?t)\<lparr>mm_inProgress := ip\<rparr>"
    unfolding ip [symmetric] by (simp add: phases_D_E_def Let_def case_prod_beta)
  show ?thesis unfolding r using phase_D_restores [OF assms refl, of "cl_env cl"] wf
    by (simp add: manager_inv_def flags_ok_def owned_def owners_in_def)
qed

lemma saveSummary_frame: "\<exists>b. fst (snd (saveSummary k w mt ow counted m)) = m\<lparr>mm_summaryWritten := b\<rparr>"
  by (auto simp: saveSummary_def split: prod.split option.split intro: exI [of _ "mm_summaryWritten m"])

lemma flush_frame: "\<exists>b. fst (snd (flushPartitionedState tj k w mt ow m)) = m\<lparr>mm_summaryWritten := b\<rparr>"
  using saveSummary_frame by (simp add: flushPartitionedState_def case_prod_beta)

lemma dirty_eta: "\<exists>b b'. m\<lparr>mm_summaryWritten := x\<rparr> = m\<lparr>mm_summaryWritten := b, mm_stateDirty := b'\<rparr>"
  by (intro exI [of _ x] exI [of _ "mm_stateDirty m"]) simp

lemma phase_F_frame:
  "\<exists>b b'. snd (phase_F cl mt (w, m)) =
     (drainStatusQueueLocked (cl_env cl) (fold enqueueStatus (cl_queued cl) m))\<lparr>mm_summaryWritten := b, mm_stateDirty := b'\<rparr>"
proof -
  let ?m1 = "drainStatusQueueLocked (cl_env cl) (fold enqueueStatus (cl_queued cl) m)"
  obtain b1 where b1: "fst (snd (flushPartitionedState (cl_json_time cl) (cl_kube cl) w mt (cl_owner cl mt) ?m1)) = ?m1\<lparr>mm_summaryWritten := b1\<rparr>"
    by (rule exE [OF flush_frame])
  obtain b2 where b2: "fst (snd (saveSummary (cl_kube cl) w mt (cl_owner cl mt) (countedLocked mt ?m1) ?m1)) = ?m1\<lparr>mm_summaryWritten := b2\<rparr>"
    by (rule exE [OF saveSummary_frame])
  have "snd (phase_F cl mt (w, m)) = ?m1\<lparr>mm_summaryWritten := b1, mm_stateDirty := False\<rparr> \<or> snd (phase_F cl mt (w, m)) = ?m1\<lparr>mm_summaryWritten := b1\<rparr>
      \<or> snd (phase_F cl mt (w, m)) = ?m1\<lparr>mm_summaryWritten := b2\<rparr> \<or> snd (phase_F cl mt (w, m)) = ?m1\<lparr>mm_summaryWritten := mm_summaryWritten ?m1\<rparr>"
    using b1 b2 by (simp add: phase_F_def Let_def case_prod_beta)
  then show ?thesis
    by (elim disjE) (simp only:, (rule exI)+, rule refl, (simp only: dirty_eta)+)
qed

lemma enqueue_side: "side_op (enqueueStatus req)"
  by (rule side_op_frame [OF side_op_id]) (simp_all add: enqueueStatus_def)

abbreviation settled_ok :: "string set \<Rightarrow> mirror_manager \<Rightarrow> bool" where
  "settled_ok S m \<equiv> manager_inv m \<and> owned m \<and> owners_in S m"

lemma side_settled: "side_op f \<Longrightarrow> settled_ok S m \<Longrightarrow> settled_ok S (f m)"
  by (simp add: side_op.side_inv side_op.side_owned side_op.side_owners owners_in_def)

lemma phase_F_ok:
  assumes "settled_ok S m"
  shows "settled_ok S (snd (phase_F cl mt (w, m))) \<and> mm_statusQueue (snd (phase_F cl mt (w, m))) = []"
proof -
  let ?m1 = "drainStatusQueueLocked (cl_env cl) (fold enqueueStatus (cl_queued cl) m)"
  have "settled_ok S ?m1"
    by (rule side_settled [OF side_op_comp [OF side_op_fold [of enqueueStatus] side_drain] assms]) (rule enqueue_side)
  moreover have "mm_statusQueue ?m1 = []" by (simp add: drainStatusQueueLocked_def)
  moreover obtain b b' where "snd (phase_F cl mt (w, m)) = ?m1\<lparr>mm_summaryWritten := b, mm_stateDirty := b'\<rparr>"
    using phase_F_frame [of cl mt w m] by auto
  ultimately show ?thesis by (simp add: manager_inv_def flags_ok_def owned_def owners_in_def)
qed

lemma phase_G_ok:
  "settled_ok S m \<Longrightarrow> settled_ok S (snd (phase_G cl mt iss b (w, m)))"
  "mm_statusQueue (snd (phase_G cl mt iss b (w, m))) = mm_statusQueue m"
  by (simp_all add: phase_G_def manager_inv_def flags_ok_def owned_def owners_in_def)

lemma reconcile_start:
  assumes "quiet cl" and "reconcile cl (w, m) = (w', m', Inl e)"
  shows "manager_inv m \<Longrightarrow> manager_inv m'" and "owned m \<Longrightarrow> owned m'" and "mm_owners m' = mm_owners m"
proof -
  let ?f = "\<lambda>m. drainStatusQueueLocked (cl_env cl) (snd (snd (cleanup_workers cl (w, touchHeartbeat (cl_env cl) m))))"
  note op = tick_start_side [OF assms(1), of w]
  have "m' = touchHeartbeat (cl_env cl) (?f m)"
    using assms(2) by (auto simp: reconcile_def case_prod_beta Let_def split: sum.splits)
  then show "manager_inv m \<Longrightarrow> manager_inv m'" "owned m \<Longrightarrow> owned m'" "mm_owners m' = mm_owners m"
    using side_op.side_inv [OF op, of m] side_op.side_owned [OF op, of m] side_op.side_owners [OF op, of m]
    by (simp_all add: touchHeartbeat_def manager_inv_def flags_ok_def owned_def)
qed

lemma reconcile_phases:
  assumes "reconcile cl (w, m) = (w', m', Inr out)"
  obtains wt iss w1 m1 where "w1 = fst (snd (cleanup_workers cl (w, touchHeartbeat (cl_env cl) m)))" "m1 = drainStatusQueueLocked (cl_env cl) (snd (snd (cleanup_workers cl (w, touchHeartbeat (cl_env cl) m))))"
    "cl_target cl w1 = Inr wt" "cl_image_sets cl w1 = Inr iss"
    "\<exists>b mC wE mE. b = phase_B cl (mirror_target.truncate wt) iss
        (phase_A cl (mirror_target.truncate wt) iss (w1, m1\<lparr>mm_maxRetries := mt_MaxRetries (mirror_target.truncate wt)\<rparr>)) \<and>
      mC = snd (phase_C cl (mirror_target.truncate wt) (pb_manager b)) \<and>
      phases_D_E cl wt (pb_world b, mC) = (to_orphans out, to_started out, wE, mE) \<and>
      m' = touchHeartbeat (cl_env cl) (snd (phase_G cl (mirror_target.truncate wt) iss b (phase_F cl (mirror_target.truncate wt) (wE, mE))))"
proof -
  obtain del w1 m0 where c: "cleanup_workers cl (w, touchHeartbeat (cl_env cl) m) = (del, w1, m0)" by (metis prod_cases3)
  let ?m1 = "drainStatusQueueLocked (cl_env cl) m0"
  obtain wt iss where t: "cl_target cl w1 = Inr wt" "cl_image_sets cl w1 = Inr iss"
    using assms by (auto simp: reconcile_def c Let_def split: sum.splits)
  show thesis
  proof (rule that [of w1 ?m1 wt iss])
    show "w1 = fst (snd (cleanup_workers cl (w, touchHeartbeat (cl_env cl) m)))" by (simp add: c)
    show "?m1 = drainStatusQueueLocked (cl_env cl) (snd (snd (cleanup_workers cl (w, touchHeartbeat (cl_env cl) m))))" by (simp add: c)
    show "\<exists>b mC wE mE. b = phase_B cl (mirror_target.truncate wt) iss
        (phase_A cl (mirror_target.truncate wt) iss (w1, ?m1\<lparr>mm_maxRetries := mt_MaxRetries (mirror_target.truncate wt)\<rparr>)) \<and>
      mC = snd (phase_C cl (mirror_target.truncate wt) (pb_manager b)) \<and>
      phases_D_E cl wt (pb_world b, mC) = (to_orphans out, to_started out, wE, mE) \<and>
      m' = touchHeartbeat (cl_env cl) (snd (phase_G cl (mirror_target.truncate wt) iss b (phase_F cl (mirror_target.truncate wt) (wE, mE))))"
      using assms unfolding reconcile_def prod.case c t sum.case Let_def by (auto split: prod.splits)
  qed (use t in auto)
qed

lemma phases_D_E_started:
  assumes "wf_map (mm_imageState m)" and "phases_D_E cl wt (w, m) = (orphans, started, w', m')" and "(podName, batch) \<in> set started" and "i \<in> set batch"
  shows "mget_list (mm_owners m') (it_Dest i) = mget_list (mm_owners m) (it_Dest i) \<and> mget_list (mm_owners m) (it_Dest i) \<noteq> []"
proof -
  let ?t = "process_entries (cl_env cl) m"
  let ?start = "\<lambda>batch. map_sum (\<lambda>_. []) id (cl_start cl (tk_manager ?t) wt batch)"
  have r: "dispatch_batches ?start (mirror_target.truncate wt) ?t = (started, m')"
    using assms(2) by (auto simp: phases_D_E_def Let_def split: prod.splits)
  have d: "dispatched ?start (effective_batch_size (mirror_target.truncate wt)) (effective_concurrency (mirror_target.truncate wt))
        (remdups (map snd (mm_inProgress (tk_manager ?t)))) (pending_images ?t) (tk_manager ?t) started m'"
    using dispatch_dispatched [of ?start "effective_batch_size (mirror_target.truncate wt)" "effective_concurrency (mirror_target.truncate wt)"
        "remdups (map snd (mm_inProgress (tk_manager ?t)))" "pending_images ?t" "tk_manager ?t", folded dispatch_batches_def] r by simp
  have "i \<in> set (pending_images ?t)" using dispatched_batches [OF d assms(3)] assms(4) by blast
  then obtain e where e: "ready m (it_Dest i) e" using in_pending_images [OF assms(1)] by blast
  obtain ip where "m' = (tk_manager ?t)\<lparr>mm_inProgress := ip\<rparr>" using dispatched_frame [OF d] by blast
  then have "mget_list (mm_owners m') (it_Dest i) = fst (snd (snd (fst (tick_obs ?t (it_Dest i)))))" by (simp add: tick_obs_def)
  also have "\<dots> = mget_list (mm_owners m) (it_Dest i)"
    unfolding process_entries_obs [OF assms(1)] using e by (auto simp: ready_def turn_def Let_def)
  finally show ?thesis using e by (simp add: ready_def)
qed

lemma phase_F_owners: "mm_owners (snd (phase_F cl mt (w, m))) = mm_owners m"
proof -
  have "side_op (\<lambda>m. drainStatusQueueLocked (cl_env cl) (fold enqueueStatus (cl_queued cl) m))"
    by (rule side_op_comp [OF side_op_fold [of enqueueStatus] side_drain]) (rule enqueue_side)
  from side_op.side_owners [OF this, of m] show ?thesis using phase_F_frame [of cl mt w m] by auto
qed

lemma phase_G_owners: "mm_owners (snd (phase_G cl mt iss b (w, m))) = mm_owners m"
  by (simp add: phase_G_def)

lemma tick_restores:
  assumes "quiet cl" and "wf_manager m" and "reconcile cl (w, m) = (w', m', Inr out)"
    and "cl_target cl (fst (snd (cleanup_workers cl (w, touchHeartbeat (cl_env cl) m)))) = Inr wt"
  shows "settled_ok (set (mt_ImageSets wt)) m'" and "mm_statusQueue m' = []"
    and "(podName, batch) \<in> set (to_started out) \<Longrightarrow> i \<in> set batch \<Longrightarrow> mget_list (mm_owners m') (it_Dest i) \<noteq> []"
proof -
  obtain iss w1 m1 b mC wE mE where m1: "m1 = drainStatusQueueLocked (cl_env cl) (snd (snd (cleanup_workers cl (w, touchHeartbeat (cl_env cl) m))))"
    and b: "b = phase_B cl (mirror_target.truncate wt) iss
        (phase_A cl (mirror_target.truncate wt) iss (w1, m1\<lparr>mm_maxRetries := mt_MaxRetries (mirror_target.truncate wt)\<rparr>))"
    and mC: "mC = snd (phase_C cl (mirror_target.truncate wt) (pb_manager b))"
    and mE: "phases_D_E cl wt (pb_world b, mC) = (to_orphans out, to_started out, wE, mE)"
    and m': "m' = touchHeartbeat (cl_env cl) (snd (phase_G cl (mirror_target.truncate wt) iss b (phase_F cl (mirror_target.truncate wt) (wE, mE))))"
    using reconcile_phases [OF assms(3)] assms(4) by (metis sum.inject(2))
  let ?mt = "mirror_target.truncate wt"
  let ?S = "set (mt_ImageSets ?mt)"
  have "wf_manager m1" unfolding m1 by (rule side_op.side_wf [OF tick_start_side [OF assms(1)] assms(2)])
  then have "wf_manager (m1\<lparr>mm_maxRetries := mt_MaxRetries ?mt\<rparr>)" by (simp add: wf_manager_def)
  from phase_A_ok [OF this, of cl ?mt iss w1] have "tick_ok ?S (pb_manager b)" unfolding b
    by (cases "phase_A cl ?mt iss (w1, m1\<lparr>mm_maxRetries := mt_MaxRetries ?mt\<rparr>)") (simp add: phase_B_ok [OF assms(1)])
  then have C: "tick_ok ?S mC" unfolding mC by (rule phase_C_ok)
  have "mm_owners m' = mm_owners mE" unfolding m'
    by (cases "phase_F cl ?mt (wE, mE)") (use phase_F_owners [of cl ?mt wE mE] in \<open>simp add: touchHeartbeat_def phase_G_owners\<close>)
  then show "(podName, batch) \<in> set (to_started out) \<Longrightarrow> i \<in> set batch \<Longrightarrow> mget_list (mm_owners m') (it_Dest i) \<noteq> []"
    using phases_D_E_started [OF _ mE] C by (auto simp: wf_manager_def)
  from C have "tick_ok ?S mC" .
  from phases_D_E_ok [OF this, of cl wt "pb_world b"] have "settled_ok ?S mE" by (simp add: mE)
  from phase_F_ok [OF this, of cl ?mt wE] have "settled_ok ?S (snd (phase_F cl ?mt (wE, mE)))" "mm_statusQueue (snd (phase_F cl ?mt (wE, mE))) = []" by simp_all
  then have fin: "settled_ok ?S (snd (phase_G cl ?mt iss b (phase_F cl ?mt (wE, mE))))" "mm_statusQueue (snd (phase_G cl ?mt iss b (phase_F cl ?mt (wE, mE)))) = []"
    using phase_G_ok(1) [of "snd (phase_F cl ?mt (wE, mE))" ?S cl ?mt iss b "fst (phase_F cl ?mt (wE, mE))"]
      phase_G_ok(2) [of cl ?mt iss b "fst (phase_F cl ?mt (wE, mE))" "snd (phase_F cl ?mt (wE, mE))"] by simp_all
  then show "settled_ok (set (mt_ImageSets wt)) m'" "mm_statusQueue m' = []"
    by (simp_all add: m' touchHeartbeat_def manager_inv_def flags_ok_def owned_def owners_in_def mirror_target.truncate_def)
qed

section \<open>The manager as a state machine\<close>

text \<open>
  A manager starts empty, takes over the worker pods of its predecessor, and then ticks, while reports and drift checks arrive between the ticks and in
  the windows in which a tick has released the mutex. The world may change at any time. A restart is another start.
\<close>

inductive reachable :: "'w \<times> mirror_manager \<Rightarrow> bool" where
  start: "run_start target sget screate randomToken ownerErr decodeDests pods w (NewWithClients targetName namespace) = (w', Inr (deleted, m)) \<Longrightarrow>
    reachable (w', m)"
| other_thread: "reachable (w, m) \<Longrightarrow> side_run m m' \<Longrightarrow> reachable (w', m')"
| tick: "reachable (w, m) \<Longrightarrow> quiet (cl :: ('w, string) cluster) \<Longrightarrow> reconcile cl (w, m) = (w', m', result) \<Longrightarrow> reachable (w', m')"

lemma recover_pod_frame:
  "\<exists>ip. snd (recover_pod decodeDests p dm) = (snd dm)\<lparr>mm_inProgress := ip\<rparr> \<and> (wf_map (mm_inProgress (snd dm)) \<longrightarrow> wf_map ip)"
proof -
  have eta: "\<exists>ip. snd dm = (snd dm)\<lparr>mm_inProgress := ip\<rparr> \<and> (wf_map (mm_inProgress (snd dm)) \<longrightarrow> wf_map ip)"
    by (rule exI [of _ "mm_inProgress (snd dm)"]) simp
  show ?thesis
    by (cases dm; cases "finished_phase (pod_Phase p)";
        cases "if mget_str (pod_Annotations p) ''mirror.openshift.io/destinations'' \<noteq> [] then decodeDests (mget_str (pod_Annotations p) ''mirror.openshift.io/destinations'') else None";
        cases "mget_str (pod_Annotations p) ''mirror.openshift.io/destination'' \<noteq> []")
      (use eta in \<open>auto simp: recover_pod_def Let_def fold_put_wf\<close>)
qed

lemma start_ok:
  assumes "run_start target sget screate randomToken ownerErr decodeDests pods w (NewWithClients targetName namespace) = (w', Inr (deleted, m))"
  shows "manager_inv m \<and> owned m"
proof -
  let ?ok = "\<lambda>m. mm_imageState m = [] \<and> mm_mirrored m = [] \<and> mm_owners m = [] \<and> wf_map (mm_inProgress m)"
  have recovered: "?ok (snd (fold (recover_pod decodeDests) ps dm))" if "?ok (snd dm)" for ps dm
    using that
  proof (rule fold_keeps [where P = "\<lambda>dm. ?ok (snd dm)", rotated])
    fix p and dm :: "string list \<times> mirror_manager"
    assume dm: "?ok (snd dm)"
    obtain ip where "snd (recover_pod decodeDests p dm) = (snd dm)\<lparr>mm_inProgress := ip\<rparr>" "wf_map (mm_inProgress (snd dm)) \<longrightarrow> wf_map ip"
      using recover_pod_frame by blast
    then show "?ok (snd (recover_pod decodeDests p dm))" using dm by simp
  qed
  obtain w1 m1 where m1: "ensureWorkerTokenSecret sget screate randomToken ownerErr w (NewWithClients targetName namespace) = (w1, Inr m1)"
    and m: "m = (snd (case syncInProgressFromPods decodeDests (pods w1) m1 of Inl _ \<Rightarrow> ([], m1) | Inr dm \<Rightarrow> dm))\<lparr>mm_statusAPIReady := True\<rparr>"
    using assms by (auto simp: run_start_def split: sum.splits prod.splits)
  have "\<exists>tok. m1 = (NewWithClients targetName namespace)\<lparr>mm_workerToken := tok\<rparr>"
    using m1 by (auto simp: ensureWorkerTokenSecret_def Let_def split: sum.splits kube_error.splits option.splits prod.splits if_splits)
  then have "?ok m1" by (auto simp: NewWithClients_def)
  then have "?ok m" using recovered [of "([], m1)"] unfolding m by (cases "pods w1") (simp_all add: syncInProgressFromPods_def)
  then show ?thesis by (simp add: manager_inv_def flags_ok_def owned_def)
qed

lemma reachable_ok:
  assumes "reachable (w, m)"
  shows "manager_inv m \<and> owned m"
  using assms
proof (induction "(w, m)" arbitrary: w m rule: reachable.induct)
  case start
  then show ?case by (rule start_ok)
next
  case (other_thread w m m' w')
  then show ?case using side_run_keeps [of m m'] unfolding owned_def by metis
next
  case (tick w m cl w' m' result)
  show ?case
  proof (cases result)
    case (Inl e)
    then show ?thesis using tick reconcile_start [of cl w m w' m' e] by blast
  next
    case (Inr out)
    obtain wt where "cl_target cl (fst (snd (cleanup_workers cl (w, touchHeartbeat (cl_env cl) m)))) = Inr wt"
      by (rule reconcile_phases [OF tick(4) [unfolded Inr]]) auto
    then show ?thesis using tick_restores(1) [of cl m w w' m' out wt] tick Inr by (auto simp: manager_inv_iff)
  qed
qed

lemma reachable_wf: "reachable (w, m) \<Longrightarrow> wf_manager m"
  by (simp add: reachable_ok manager_inv_iff [symmetric] conjunct1 [OF manager_inv_iff [THEN iffD1]])


text \<open>A cluster without stored state, whose one ImageSet asks for an additional image.\<close>

definition small_cluster :: "(unit, string) cluster" where
  "small_cluster = \<lparr>cl_env = \<lparr>ev_now = 100 * hour, ev_rand = (\<lambda>_. 0)\<rparr>,
     cl_kube = \<lparr>kget = (\<lambda>_ _. Inl NotFound), kcreate = (\<lambda>w _. (w, None)), kupdate = (\<lambda>w _. (w, None)), kdelete = (\<lambda>w _. (w, None))\<rparr>,
     cl_json_time = (\<lambda>t. t), cl_owner = (\<lambda>_. NoOwner), cl_pods = (\<lambda>_. Inr []), cl_delete_pod = (\<lambda>_ w. w),
     cl_target = (\<lambda>_. Inr pod_target),
     cl_image_sets = (\<lambda>_. Inr [sample_image_set\<lparr>is_Name := ''a'', is_Mirror := sample_spec\<lparr>ms_AdditionalImages :=
        [\<lparr>ai_Name = ''q.io/x/y:1'', ai_TargetRepo = [], ai_TargetTag = []\<rparr>]\<rparr>\<rparr>]),
     cl_net = (\<lambda>_. offline),
     cl_resolvers = (\<lambda>_. \<lparr>ResolveReleaseNodes = \<lambda>_ _ _ _ _ _ _. Inr [], ExtractComponentImages = \<lambda>_ _. Inr [], ExtractKubeVirtImages = \<lambda>_ _. Inr [],
        ResolveCatalogWithBundles = \<lambda>_ _. Inr [], DownloadChartArchive = \<lambda>_ _. Inl (ResolverError ''no chart''),
        LoadChartArchive = \<lambda>a. Inr a, ImagesFromChart = \<lambda>_ _. Inr []\<rparr>),
     cl_start = (\<lambda>m mt batch. Inr ''worker-1''), cl_status_get = (\<lambda>_ _. Inl NotFound), cl_status_update = (\<lambda>w _ _. (w, Written)),
     cl_resource_get = (\<lambda>_ _. Inl NotFound), cl_resource_create = (\<lambda>w _. (w, None)), cl_resource_update = (\<lambda>w _. (w, None)),
     cl_render = (\<lambda>_. []), cl_render_index = (\<lambda>_. []), cl_between = (\<lambda>_ _ m. m), cl_queued = []\<rparr>"

lemma small_quiet: "quiet small_cluster"
  by (simp add: quiet_def small_cluster_def side_run.nothing)

definition small_start :: mirror_manager where
  "small_start = (NewWithClients ''mt'' ''ns'')\<lparr>mm_workerToken := ''tok'', mm_statusAPIReady := True\<rparr>"

lemma small_reachable: "reachable ((), small_start)"
  by (rule reachable.start [where target = "\<lambda>_. Inr pod_target" and sget = "\<lambda>_ _. Inl NotFound" and screate = "\<lambda>w _. (w, None)"
        and randomToken = "Inr ''tok''" and ownerErr = None and decodeDests = "\<lambda>_. None" and pods = "\<lambda>_. Inr []" and w = "()"
        and targetName = "''mt''" and namespace = "''ns''" and deleted = "[]"])
    (simp add: run_start_def ensureWorkerTokenSecret_def syncInProgressFromPods_def small_start_def)

lemma small_tick:
  "case reconcile small_cluster ((), small_start) of (w, m, res) \<Rightarrow> mget (mm_inProgress m) ''reg.local/q.io/x/y:1'' = Some ''worker-1'' \<and>
     (case res of Inr out \<Rightarrow> map fst (to_started out) = [''worker-1''] | Inl _ \<Rightarrow> False)"
  by code_simp


text \<open>
  A tick that reads its MirrorTarget settles the manager on the current spec, whatever the other threads did meanwhile: only ImageSets listed in
  \<open>spec.imageSets\<close> own images, every image in the working set has an owner, every report that was queued has been applied, and each image handed to a
  worker in the tick is owned by a listed ImageSet: removing an ImageSet stops the mirroring of its images with the next tick.
\<close>

theorem tick_settles:
  assumes "reachable (w, m)" and "quiet cl" and "reconcile cl (w, m) = (w', m', Inr out)"
    and "cl_target cl (fst (snd (cleanup_workers cl (w, touchHeartbeat (cl_env cl) m)))) = Inr wt"
  shows "(\<forall>d. set (mget_list (mm_owners m') d) \<subseteq> set (mt_ImageSets wt)) \<and>
    (\<forall>d. mget (mm_imageState m') d \<noteq> None \<longrightarrow> mget_list (mm_owners m') d \<noteq> []) \<and> mm_statusQueue m' = [] \<and>
    (\<forall>(podName, batch) \<in> set (to_started out). \<forall>i \<in> set batch.
       \<exists>n \<in> set (mt_ImageSets wt). n \<in> set (mget_list (mm_owners m') (it_Dest i)))"
proof -
  have wf: "wf_manager m" using reachable_wf [OF assms(1)] .
  note t = tick_restores [OF assms(2) wf assms(3,4)]
  have "\<exists>n \<in> set (mt_ImageSets wt). n \<in> set (mget_list (mm_owners m') (it_Dest i))"
    if i: "(podName, batch) \<in> set (to_started out)" "i \<in> set batch" for podName batch i
  proof -
    obtain n where "n \<in> set (mget_list (mm_owners m') (it_Dest i))" using t(3) [OF i] by (cases "mget_list (mm_owners m') (it_Dest i)") auto
    then show ?thesis using t(1) by (auto simp: owners_in_def)
  qed
  then show ?thesis using t(1,2) by (auto simp: owners_in_def owned_def)
qed

theorem tick_settles_witness:
  "case reconcile small_cluster ((), small_start) of (w, m, res) \<Rightarrow> (\<forall>d. set (mget_list (mm_owners m) d) \<subseteq> {''a''}) \<and> mm_statusQueue m = []"
proof -
  obtain w m out where r: "reconcile small_cluster ((), small_start) = (w, m, Inr out)"
    using small_tick by (auto split: prod.splits sum.splits)
  have "cl_target small_cluster x = Inr pod_target" for x by (simp add: small_cluster_def)
  from tick_settles [OF small_reachable small_quiet r this] show ?thesis using r by (simp add: pod_target_def)
qed

section \<open>What a tick records of a resolve\<close>

lemma status_generation:
  "ss_ObservedGeneration (updateImageSetStatusLocked now gen view j st) = (if j then gen else ss_ObservedGeneration st)"
  "ss_LastSuccessfulPollTime (updateImageSetStatusLocked now gen view j st) = (if j then Some now else ss_LastSuccessfulPollTime st)"
  by (simp_all add: updateImageSetStatusLocked_def Let_def case_prod_beta)

text \<open>The status phase G leaves behind for a listed ImageSet, when the API server accepts the write.\<close>

lemma phase_G_status:
  assumes "mm_statusDirty m" and "is_Name is \<in> set (mt_ImageSets mt)" and "cl_status_get cl w (is_Name is) = Inr (gen, st)"
    and "\<And>st'. \<exists>w'. cl_status_update cl w (is_Name is) st' = (w', Written) \<and> cl_status_get cl w' (is_Name is) = Inr (gen, st')"
  shows "\<exists>view. cl_status_get cl (fst (phase_G cl mt [is] b (w, m))) (is_Name is) =
    Inr (gen, updateImageSetStatusLocked (ev_now (cl_env cl)) gen view
      (mget_bool (pb_resolved b) (is_Name is) \<and> \<not> mget_bool (pb_hadError b) (is_Name is)) st)"
proof -
  let ?st = "updateImageSetStatusLocked (ev_now (cl_env cl)) gen
      (filterByImageSet (mm_imageState m) (mm_owners m) (mm_ownerMeta m) (is_Name is))
      (mget_bool (pb_resolved b) (is_Name is) \<and> \<not> mget_bool (pb_hadError b) (is_Name is)) st"
  obtain w' where w': "cl_status_update cl w (is_Name is) ?st = (w', Written)" "cl_status_get cl w' (is_Name is) = Inr (gen, ?st)"
    using assms(4) by blast
  have "fst (phase_G cl mt [is] b (w, m)) = w'"
    using assms(1,2) by (simp add: phase_G_def write_status_def numeral_eq_Suc assms(3) w'(1))
  then show ?thesis using w'(2) by blast
qed

text \<open>
  A spec edit that arrives during a resolve is lost until the next poll. Phase G records the generation of the latest object, not the one that
  was resolved: after a tick whose resolve of an ImageSet succeeded, the ImageSet counts as observed at whatever generation it has by then, so an edit made
  while the resolve was running is not resolved before the poll interval has passed.
\<close>

theorem spec_edit_during_resolve_lost:
  assumes "mm_statusDirty m" and "is_Name is \<in> set (mt_ImageSets mt)" and "mget_bool (pb_resolved b) (is_Name is)" and "\<not> mget_bool (pb_hadError b) (is_Name is)"
    and "cl_status_get cl w (is_Name is) = Inr (gen, st)"
    and "\<And>st'. \<exists>w'. cl_status_update cl w (is_Name is) st' = (w', Written) \<and> cl_status_get cl w' (is_Name is) = Inr (gen, st')"
    and "is_Generation edited = gen" and "mget (is_Annotations edited) RecollectAnnotation = None" and "\<not> hasStaleCacheAnnotations (is_Annotations edited)"
    and "view \<noteq> []" and "now - ev_now (cl_env cl) < fst (effectivePollInterval mt)"
  shows "\<exists>st'. cl_status_get cl (fst (phase_G cl mt [is] b (w, m))) (is_Name is) = Inr (gen, st') \<and>
    \<not> shouldResolve now (edited\<lparr>is_ObservedGeneration := ss_ObservedGeneration st', is_LastSuccessfulPollTime := ss_LastSuccessfulPollTime st'\<rparr>) mt view"
proof -
  obtain v where v: "cl_status_get cl (fst (phase_G cl mt [is] b (w, m))) (is_Name is) =
      Inr (gen, updateImageSetStatusLocked (ev_now (cl_env cl)) gen v True st)"
    using phase_G_status [OF assms(1,2,5,6), of b] assms(3,4) by auto
  have "\<not> shouldResolve now (edited\<lparr>is_ObservedGeneration := gen, is_LastSuccessfulPollTime := Some (ev_now (cl_env cl))\<rparr>) mt view"
    using assms(7-11) by (simp add: shouldResolve_def case_prod_beta)
  then show ?thesis using v by (intro exI [of _ "updateImageSetStatusLocked (ev_now (cl_env cl)) gen v True st"]) (simp add: status_generation)
qed

text \<open>
  A failed resolve is repeated. When a probe or a collection failed in a tick, phase G leaves the observed generation and the poll time of the
  ImageSet as they were, so what made the tick resolve it makes the next one resolve it again, however soon that is.
\<close>

theorem failed_resolve_repeated:
  assumes "mm_statusDirty m" and "is_Name is \<in> set (mt_ImageSets mt)" and "mget_bool (pb_hadError b) (is_Name is)"
    and "cl_status_get cl w (is_Name is) = Inr (gen, st)"
    and "\<And>st'. \<exists>w'. cl_status_update cl w (is_Name is) st' = (w', Written) \<and> cl_status_get cl w' (is_Name is) = Inr (gen, st')"
    and "is_ObservedGeneration is = ss_ObservedGeneration st" and "is_LastSuccessfulPollTime is = ss_LastSuccessfulPollTime st"
    and "shouldResolve now is mt view" and "now \<le> later" and "view \<noteq> []"
  shows "\<exists>st'. cl_status_get cl (fst (phase_G cl mt [is] b (w, m))) (is_Name is) = Inr (gen, st') \<and>
    shouldResolve later (is\<lparr>is_ObservedGeneration := ss_ObservedGeneration st', is_LastSuccessfulPollTime := ss_LastSuccessfulPollTime st'\<rparr>) mt view"
proof -
  obtain v where v: "cl_status_get cl (fst (phase_G cl mt [is] b (w, m))) (is_Name is) =
      Inr (gen, updateImageSetStatusLocked (ev_now (cl_env cl)) gen v False st)"
    using phase_G_status [OF assms(1,2,4,5), of b] assms(3) by auto
  have "is\<lparr>is_ObservedGeneration := ss_ObservedGeneration st, is_LastSuccessfulPollTime := ss_LastSuccessfulPollTime st\<rparr> = is"
    using assms(6,7) by simp
  moreover have "shouldResolve later is mt view" using assms(8-10)
    by (auto simp: shouldResolve_def split: prod.splits option.splits if_splits)
  ultimately show ?thesis using v by (intro exI [of _ "updateImageSetStatusLocked (ev_now (cl_env cl)) gen v False st"]) (simp add: status_generation)
qed

text \<open>A world that holds the generation and the status of one ImageSet.\<close>

definition status_cluster :: "(int \<times> image_set_status, unit) cluster" where
  "status_cluster = \<lparr>cl_env = \<lparr>ev_now = 0, ev_rand = (\<lambda>_. 0)\<rparr>,
     cl_kube = \<lparr>kget = (\<lambda>_ _. Inl NotFound), kcreate = (\<lambda>w _. (w, None)), kupdate = (\<lambda>w _. (w, None)), kdelete = (\<lambda>w _. (w, None))\<rparr>,
     cl_json_time = (\<lambda>t. t), cl_owner = (\<lambda>_. NoOwner), cl_pods = (\<lambda>_. Inr []), cl_delete_pod = (\<lambda>_ w. w), cl_target = (\<lambda>_. Inr pod_target),
     cl_image_sets = (\<lambda>_. Inr []), cl_net = undefined, cl_resolvers = undefined, cl_start = (\<lambda>m mt batch. Inr []),
     cl_status_get = (\<lambda>w _. Inr w), cl_status_update = (\<lambda>w _ st. ((fst w, st), Written)),
     cl_resource_get = (\<lambda>_ _. Inl NotFound), cl_resource_create = (\<lambda>w _. (w, None)), cl_resource_update = (\<lambda>w _. (w, None)),
     cl_render = (\<lambda>_. []), cl_render_index = (\<lambda>_. []), cl_between = (\<lambda>_ _ m. m), cl_queued = []\<rparr>"

lemma status_cluster_stores:
  "\<exists>w'. cl_status_update status_cluster (g, st) n st' = (w', Written) \<and> cl_status_get status_cluster w' n = Inr (g, st')"
  by (simp add: status_cluster_def)

theorem spec_edit_during_resolve_lost_witness:
  "\<exists>st'. cl_status_get status_cluster (fst (phase_G status_cluster sample_target [sample_image_set]
        \<lparr>pb_world = (2, empty_status), pb_manager = small_start, pb_resolved = [(''is'', True)], pb_hadError = [(''is'', False)]\<rparr>
        ((2, empty_status), small_start\<lparr>mm_statusDirty := True\<rparr>))) ''is'' = Inr (2, st') \<and>
    \<not> shouldResolve 1 (sample_image_set\<lparr>is_Generation := 2, is_ObservedGeneration := ss_ObservedGeneration st', is_LastSuccessfulPollTime := ss_LastSuccessfulPollTime st'\<rparr>)
        sample_target [(''r/a'', zero_entry)]"
  using spec_edit_during_resolve_lost [of "small_start\<lparr>mm_statusDirty := True\<rparr>" sample_image_set sample_target
      "\<lparr>pb_world = (2, empty_status), pb_manager = small_start, pb_resolved = [(''is'', True)], pb_hadError = [(''is'', False)]\<rparr>"
      status_cluster "(2, empty_status)" 2 empty_status "sample_image_set\<lparr>is_Generation := 2\<rparr>" "[(''r/a'', zero_entry)]" 1] status_cluster_stores [of 2 empty_status]
  by (simp add: sample_image_set_def sample_target_def status_cluster_def hasStaleCacheAnnotations_def effectivePollInterval_def)

theorem failed_resolve_repeated_witness:
  "\<exists>st'. cl_status_get status_cluster (fst (phase_G status_cluster sample_target [sample_image_set\<lparr>is_Generation := 2\<rparr>]
        \<lparr>pb_world = (2, empty_status\<lparr>ss_ObservedGeneration := 1, ss_LastSuccessfulPollTime := Some 0\<rparr>), pb_manager = small_start, pb_resolved = [(''is'', True)], pb_hadError = [(''is'', True)]\<rparr>
        ((2, empty_status\<lparr>ss_ObservedGeneration := 1, ss_LastSuccessfulPollTime := Some 0\<rparr>), small_start\<lparr>mm_statusDirty := True\<rparr>))) ''is'' = Inr (2, st') \<and>
    shouldResolve 1 (sample_image_set\<lparr>is_Generation := 2, is_ObservedGeneration := ss_ObservedGeneration st', is_LastSuccessfulPollTime := ss_LastSuccessfulPollTime st'\<rparr>)
        sample_target [(''r/a'', zero_entry)]"
  using failed_resolve_repeated [of "small_start\<lparr>mm_statusDirty := True\<rparr>" "sample_image_set\<lparr>is_Generation := 2\<rparr>" sample_target
      "\<lparr>pb_world = (2, empty_status\<lparr>ss_ObservedGeneration := 1, ss_LastSuccessfulPollTime := Some 0\<rparr>), pb_manager = small_start, pb_resolved = [(''is'', True)], pb_hadError = [(''is'', True)]\<rparr>"
      status_cluster "(2, empty_status\<lparr>ss_ObservedGeneration := 1, ss_LastSuccessfulPollTime := Some 0\<rparr>)" 2
      "empty_status\<lparr>ss_ObservedGeneration := 1, ss_LastSuccessfulPollTime := Some 0\<rparr>" 0 "[(''r/a'', zero_entry)]" 1]
    status_cluster_stores [of 2 "empty_status\<lparr>ss_ObservedGeneration := 1, ss_LastSuccessfulPollTime := Some 0\<rparr>"]
  by (simp add: sample_image_set_def sample_target_def status_cluster_def shouldResolve_def)

end
