(* ===== verification/ReleaseGraph.thy ===== *)
theory ReleaseGraph
  imports Collector
begin

text \<open>
  The update graph of a release channel (\<open>pkg/mirror/release/release.go\<close>): fetching it, selecting the releases of a channel entry, the latest release,
  and the shortest upgrade path by breadth-first search. The HTTP client, \<open>net/url\<close> and \<open>encoding/json\<close> are parameters. Versions are parsed by
  a semantic-version library: \<open>sv\<close> gives the precedence of a version in its total order, \<^const>\<open>None\<close> for a text that is no version.
\<close>

section \<open>The graph\<close>

record update_graph =
  gr_Nodes :: "release_node list"
  gr_Edges :: "int list list"

definition OcpUpdateURL :: string where
  "OcpUpdateURL = ''https://api.openshift.com/api/upgrades_info/v1/graph''"

definition OkdUpdateURL :: string where
  "OkdUpdateURL = ''https://origin-release.ci.openshift.org/graph''"

definition UpdateURLForType :: "string \<Rightarrow> string" where
  "UpdateURLForType platformType = (if platformType = ''okd'' then OkdUpdateURL else OcpUpdateURL)"

datatype release_error = FetchFailed string | UnexpectedStatus int | BadGraph string
  | VersionNotFound string | BadVersion string | NoPath string string | NoNodes string

text \<open>\<open>do\<close> performs the request for a URL and its query parameters and answers the status code and the body; at most 10 MiB of the body are read.\<close>

abbreviation graph_limit :: nat where "graph_limit \<equiv> 10 * 1024 * 1024"

definition FetchGraph ::
  "(string \<Rightarrow> (string \<times> string) list \<Rightarrow> string + int \<times> string) \<Rightarrow> (string \<Rightarrow> string + update_graph) \<Rightarrow> string \<Rightarrow> string list \<Rightarrow> string
    \<Rightarrow> release_error + update_graph" where
  "FetchGraph request unmarshal channel arch platformType =
     (let query = (''channel'', channel) # (if length arch > 0 then [(''arch'', hd arch)] else [])
      in case request (UpdateURLForType platformType) query of
           Inl e \<Rightarrow> Inl (FetchFailed e)
         | Inr (status, body) \<Rightarrow>
             if status \<noteq> 200 then Inl (UnexpectedStatus status)
             else (case unmarshal (take graph_limit body) of Inl e \<Rightarrow> Inl (BadGraph e) | Inr graph \<Rightarrow> Inr graph))"

section \<open>The latest release\<close>

definition better_node :: "(string \<Rightarrow> 'v :: linorder option) \<Rightarrow> release_node \<Rightarrow> release_node option \<Rightarrow> release_node option" where
  "better_node sv node best =
     (case best of
        None \<Rightarrow> Some node
      | Some b \<Rightarrow>
          (case sv (nd_Version node) of
             None \<Rightarrow> best
           | Some v \<Rightarrow>
               (case sv (nd_Version b) of
                  None \<Rightarrow> Some node
                | Some bv \<Rightarrow> if bv < v then Some node else best)))"

definition latestNode :: "(string \<Rightarrow> 'v :: linorder option) \<Rightarrow> update_graph \<Rightarrow> release_node option" where
  "latestNode sv graph = fold (better_node sv) (gr_Nodes graph) None"

section \<open>The shortest upgrade path\<close>

definition version_index :: "update_graph \<Rightarrow> (string, nat) gomap" where
  "version_index graph = fold (\<lambda>(i, node) m. mput (nd_Version node) i m) (enumerate 0 (gr_Nodes graph)) []"

text \<open>The successors of a node, in the order of the edges; edges of another length or outside the nodes are skipped.\<close>

definition edge_of :: "nat \<Rightarrow> int list \<Rightarrow> (nat \<times> nat) option" where
  "edge_of n edge =
     (case edge of
        [a, b] \<Rightarrow> if a < 0 \<or> a \<ge> int n \<or> b < 0 \<or> b \<ge> int n then None else Some (nat a, nat b)
      | _ \<Rightarrow> None)"

definition adjacency :: "update_graph \<Rightarrow> nat \<Rightarrow> nat list" where
  "adjacency graph v = map snd (filter (\<lambda>e. fst e = v) (List.map_filter (edge_of (length (gr_Nodes graph))) (gr_Edges graph)))"

type_synonym search = "nat list \<times> bool list \<times> nat option list"

definition visit :: "nat \<Rightarrow> nat \<Rightarrow> search \<Rightarrow> search" where
  "visit cur next s = (case s of (queue, visited, prev) \<Rightarrow>
     if next \<ge> length visited then s
     else if visited ! next then s
     else (queue @ [next], visited[next := True], prev[next := Some cur]))"

lemma visit_measure:
  "length (fst (visit cur next (q, v, p))) + count_list (fst (snd (visit cur next (q, v, p)))) False = length q + count_list v False"
proof (cases "next < length v \<and> \<not> v ! next")
  case True
  have "count_list (take next v @ v ! next # drop (Suc next) v) False = count_list (take next v) False + Suc (count_list (drop (Suc next) v) False)"
    using True by simp
  then have "count_list v False = count_list (take next v) False + Suc (count_list (drop (Suc next) v) False)"
    using True arg_cong [where f = "\<lambda>x. count_list x False", OF id_take_nth_drop [of "next" v]] by linarith
  moreover have "v[next := True] = take next v @ True # drop (Suc next) v" using True by (simp add: upd_conv_take_nth_drop)
  then have "count_list (v[next := True]) False = count_list (take next v) False + count_list (drop (Suc next) v) False" by simp
  ultimately show ?thesis using True by (simp add: visit_def)
qed (auto simp: visit_def)

lemma visits_measure:
  "length (fst (fold (visit cur) ns s)) + count_list (fst (snd (fold (visit cur) ns s))) False = length (fst s) + count_list (fst (snd s)) False"
proof (induction ns arbitrary: s)
  case (Cons n ns)
  show ?case using Cons [of "visit cur n s"] visit_measure [of cur n "fst s" "fst (snd s)" "snd (snd s)"] by simp
qed simp

text \<open>The loop of the search: whether the target was reached, and the predecessors found.\<close>

function bfs :: "(nat \<Rightarrow> nat list) \<Rightarrow> nat \<Rightarrow> search \<Rightarrow> bool \<times> nat option list" where
  "bfs adj toIdx ([], visited, prev) = (False, prev)"
| "bfs adj toIdx (cur # queue, visited, prev) =
     (if cur = toIdx then (True, prev) else bfs adj toIdx (fold (visit cur) (adj cur) (queue, visited, prev)))"
  by pat_completeness auto
termination
proof (relation "measure (\<lambda>(adj, toIdx, s). length (fst s) + count_list (fst (snd s)) False)", goal_cases)
  case (2 adj toIdx cur queue visited prev)
  then show ?case using visits_measure [of cur "adj cur" "(queue, visited, prev)"] by simp
qed simp

text \<open>
  The loop that follows the predecessors back to the start. It is not structurally terminating, and an index of -1 would panic; both are \<^const>\<open>None\<close> here.
\<close>

partial_function (option) walk_back :: "nat option list \<Rightarrow> nat \<Rightarrow> nat \<Rightarrow> nat list \<Rightarrow> nat list option" where
  "walk_back prev fromIdx cur path =
     (if cur = fromIdx then Some path
      else (case prev ! cur of None \<Rightarrow> None | Some p \<Rightarrow> walk_back prev fromIdx p (cur # path)))"

declare walk_back.simps [code]

definition shortestPathNodes :: "update_graph \<Rightarrow> string \<Rightarrow> string \<Rightarrow> release_error + release_node list option" where
  "shortestPathNodes graph fromVersion toVersion =
     (let versionIdx = version_index graph
      in case mget versionIdx fromVersion of
           None \<Rightarrow> Inl (VersionNotFound fromVersion)
         | Some fromIdx \<Rightarrow>
             (case mget versionIdx toVersion of
                None \<Rightarrow> Inl (VersionNotFound toVersion)
              | Some toIdx \<Rightarrow>
                  (let n = length (gr_Nodes graph)
                   in case bfs (adjacency graph) toIdx ([fromIdx], (replicate n False)[fromIdx := True], replicate n None) of
                        (found, prev) \<Rightarrow>
                          if \<not> found then Inl (NoPath fromVersion toVersion)
                          else Inr (map_option (\<lambda>path. map (\<lambda>i. gr_Nodes graph ! i) (fromIdx # path)) (walk_back prev fromIdx toIdx [])))))"

section \<open>The releases of a channel entry\<close>

definition nodes_in_range :: "(string \<Rightarrow> 'v :: linorder option) \<Rightarrow> 'v option \<Rightarrow> 'v option \<Rightarrow> update_graph \<Rightarrow> release_node list" where
  "nodes_in_range sv lo hi graph =
     filter (\<lambda>node. case sv (nd_Version node) of
               None \<Rightarrow> False
             | Some v \<Rightarrow> (case lo of None \<Rightarrow> True | Some l \<Rightarrow> l \<le> v) \<and> (case hi of None \<Rightarrow> True | Some h \<Rightarrow> v \<le> h)) (gr_Nodes graph)"

text \<open>The selection once the graph is there; \<open>Inr None\<close> would be a panic of the path search, which \<open>select_total\<close> excludes.\<close>

definition select_nodes ::
  "(string \<Rightarrow> 'v :: linorder option) \<Rightarrow> update_graph \<Rightarrow> string \<Rightarrow> string \<Rightarrow> string \<Rightarrow> bool \<Rightarrow> bool \<Rightarrow> release_error + release_node list option" where
  "select_nodes sv graph channel minVersion maxVersion full shortestPath =
     (if full then Inr (Some (gr_Nodes graph))
      else if minVersion = [] \<and> maxVersion \<noteq> [] then
        (case find (\<lambda>node. nd_Version node = maxVersion) (gr_Nodes graph) of
           Some node \<Rightarrow> Inr (Some [node])
         | None \<Rightarrow> Inl (VersionNotFound maxVersion))
      else if minVersion \<noteq> [] \<and> maxVersion \<noteq> [] then
        (if shortestPath then shortestPathNodes graph minVersion maxVersion
         else (case sv minVersion of
                 None \<Rightarrow> Inl (BadVersion minVersion)
               | Some lo \<Rightarrow> (case sv maxVersion of
                               None \<Rightarrow> Inl (BadVersion maxVersion)
                             | Some hi \<Rightarrow> Inr (Some (nodes_in_range sv (Some lo) (Some hi) graph)))))
      else if minVersion \<noteq> [] then
        (case sv minVersion of
           None \<Rightarrow> Inl (BadVersion minVersion)
         | Some lo \<Rightarrow> Inr (Some (nodes_in_range sv (Some lo) None graph)))
      else (case latestNode sv graph of None \<Rightarrow> Inl (NoNodes channel) | Some node \<Rightarrow> Inr (Some [node])))"

definition ResolveReleaseNodes_graph ::
  "(string \<Rightarrow> (string \<times> string) list \<Rightarrow> string + int \<times> string) \<Rightarrow> (string \<Rightarrow> string + update_graph) \<Rightarrow> (string \<Rightarrow> 'v :: linorder option)
    \<Rightarrow> string \<Rightarrow> string \<Rightarrow> string \<Rightarrow> string list \<Rightarrow> bool \<Rightarrow> bool \<Rightarrow> string \<Rightarrow> release_error + release_node list option" where
  "ResolveReleaseNodes_graph request unmarshal sv channel minVersion maxVersion arch full shortestPath platformType =
     (case FetchGraph request unmarshal channel arch platformType of
        Inl e \<Rightarrow> Inl e
      | Inr graph \<Rightarrow> select_nodes sv graph channel minVersion maxVersion full shortestPath)"

definition ResolveRelease ::
  "(string \<Rightarrow> (string \<times> string) list \<Rightarrow> string + int \<times> string) \<Rightarrow> (string \<Rightarrow> string + update_graph) \<Rightarrow> (string \<Rightarrow> 'v :: linorder option)
    \<Rightarrow> string \<Rightarrow> string \<Rightarrow> string \<Rightarrow> string list \<Rightarrow> bool \<Rightarrow> bool \<Rightarrow> string \<Rightarrow> release_error + string list option" where
  "ResolveRelease request unmarshal sv channel minVersion maxVersion arch full shortestPath platformType =
     map_sum id (map_option (map nd_Image))
       (ResolveReleaseNodes_graph request unmarshal sv channel minVersion maxVersion arch full shortestPath platformType)"

definition ResolveLatestVersion ::
  "(string \<Rightarrow> (string \<times> string) list \<Rightarrow> string + int \<times> string) \<Rightarrow> (string \<Rightarrow> string + update_graph) \<Rightarrow> (string \<Rightarrow> 'v :: linorder option)
    \<Rightarrow> string \<Rightarrow> string list \<Rightarrow> string \<Rightarrow> release_error + string" where
  "ResolveLatestVersion request unmarshal sv channel arch platformType =
     (case FetchGraph request unmarshal channel arch platformType of
        Inl e \<Rightarrow> Inl e
      | Inr graph \<Rightarrow> (case latestNode sv graph of None \<Rightarrow> Inl (NoNodes channel) | Some n \<Rightarrow> Inr (nd_Version n)))"

section \<open>Distances\<close>

definition dist :: "('a \<times> 'a) set \<Rightarrow> 'a \<Rightarrow> 'a \<Rightarrow> nat" where
  "dist E s v = (LEAST n. (s, v) \<in> E ^^ n)"

lemma dist_le: "(s, v) \<in> E ^^ n \<Longrightarrow> dist E s v \<le> n"
  unfolding dist_def by (rule Least_le)

lemma dist_relpow: "(s, v) \<in> E\<^sup>* \<Longrightarrow> (s, v) \<in> E ^^ dist E s v"
  unfolding dist_def by (metis LeastI_ex rtrancl_imp_relpow)

lemma dist_self [simp]: "dist E s s = 0"
  using dist_le [where s = s and v = s and n = 0 and E = E] by simp

lemma dist_step: "(s, u) \<in> E\<^sup>* \<Longrightarrow> (u, v) \<in> E \<Longrightarrow> dist E s v \<le> Suc (dist E s u)"
  by (meson dist_le dist_relpow relpow_Suc_I)

lemma dist_pred:
  assumes "(s, v) \<in> E\<^sup>*" and "v \<noteq> s"
  obtains u where "(s, u) \<in> E\<^sup>*" "(u, v) \<in> E" "dist E s v = Suc (dist E s u)"
proof -
  have r: "(s, v) \<in> E ^^ dist E s v" by (rule dist_relpow [OF assms(1)])
  then obtain k where k: "dist E s v = Suc k" using assms(2) by (cases "dist E s v") auto
  then obtain u where u: "(s, u) \<in> E ^^ k" "(u, v) \<in> E" using r by auto
  have su: "(s, u) \<in> E\<^sup>*" using u(1) relpow_imp_rtrancl by metis
  have "dist E s u = k" using dist_le [OF u(1)] dist_step [OF su u(2)] k by simp
  then show thesis using that [OF su u(2)] k by simp
qed

section \<open>The invariant of the search\<close>

definition edges :: "(nat \<Rightarrow> nat list) \<Rightarrow> (nat \<times> nat) set" where
  "edges adj = {(u, v). v \<in> set (adj u)}"

lemma edges_iff [simp]: "(u, v) \<in> edges adj \<longleftrightarrow> v \<in> set (adj u)"
  by (simp add: edges_def)

abbreviation seen :: "bool list \<Rightarrow> nat \<Rightarrow> bool" where
  "seen visited v \<equiv> v < length visited \<and> visited ! v"

definition search_inv :: "(nat \<Rightarrow> nat list) \<Rightarrow> nat \<Rightarrow> nat \<Rightarrow> search \<Rightarrow> bool" where
  "search_inv adj s toIdx st = (case st of (queue, visited, prev) \<Rightarrow>
     length prev = length visited \<and> seen visited s \<and> (\<forall>u. \<forall>v \<in> set (adj u). v < length visited) \<and>
     (\<forall>v. seen visited v \<longrightarrow> (s, v) \<in> (edges adj)\<^sup>*) \<and>
     (\<forall>v. seen visited v \<and> v \<noteq> s \<longrightarrow>
        (\<exists>u. prev ! v = Some u \<and> seen visited u \<and> v \<in> set (adj u) \<and> dist (edges adj) s v = Suc (dist (edges adj) s u))) \<and>
     (\<forall>v \<in> set queue. seen visited v) \<and> sorted (map (dist (edges adj) s) queue) \<and>
     (\<forall>v \<in> set queue. dist (edges adj) s v \<le> Suc (dist (edges adj) s (hd queue))) \<and>
     (\<forall>u. seen visited u \<and> u \<notin> set queue \<longrightarrow> (\<forall>v \<in> set (adj u). seen visited v)) \<and>
     (queue \<noteq> [] \<longrightarrow> (\<forall>v. (s, v) \<in> (edges adj)\<^sup>* \<and> dist (edges adj) s v \<le> dist (edges adj) s (hd queue) \<longrightarrow> seen visited v)) \<and>
     (seen visited toIdx \<longrightarrow> toIdx \<in> set queue))"

lemma search_invD:
  assumes inv: "search_inv adj s toIdx (queue, visited, prev)"
  shows search_inv_len: "length prev = length visited" and search_inv_start_seen: "seen visited s"
    and search_inv_adj: "v \<in> set (adj u) \<Longrightarrow> v < length visited" and search_inv_reach: "seen visited v \<Longrightarrow> (s, v) \<in> (edges adj)\<^sup>*"
    and search_inv_pred: "seen visited v \<Longrightarrow> v \<noteq> s \<Longrightarrow>
      \<exists>u. prev ! v = Some u \<and> seen visited u \<and> v \<in> set (adj u) \<and> dist (edges adj) s v = Suc (dist (edges adj) s u)"
    and search_inv_queue: "v \<in> set queue \<Longrightarrow> seen visited v" and search_inv_sorted: "sorted (map (dist (edges adj) s) queue)"
    and search_inv_near: "v \<in> set queue \<Longrightarrow> dist (edges adj) s v \<le> Suc (dist (edges adj) s (hd queue))"
    and search_inv_closed: "seen visited u \<Longrightarrow> u \<notin> set queue \<Longrightarrow> v \<in> set (adj u) \<Longrightarrow> seen visited v"
    and search_inv_full: "queue \<noteq> [] \<Longrightarrow> (s, v) \<in> (edges adj)\<^sup>* \<Longrightarrow> dist (edges adj) s v \<le> dist (edges adj) s (hd queue) \<Longrightarrow> seen visited v"
    and search_inv_goal: "seen visited toIdx \<Longrightarrow> toIdx \<in> set queue"
proof -
  note iv = inv [unfolded search_inv_def prod.case]
  note c = iv [THEN conjunct1]
    iv [THEN conjunct2, THEN conjunct1]
    iv [THEN conjunct2, THEN conjunct2, THEN conjunct1]
    iv [THEN conjunct2, THEN conjunct2, THEN conjunct2, THEN conjunct1]
    iv [THEN conjunct2, THEN conjunct2, THEN conjunct2, THEN conjunct2, THEN conjunct1]
    iv [THEN conjunct2, THEN conjunct2, THEN conjunct2, THEN conjunct2, THEN conjunct2, THEN conjunct1]
    iv [THEN conjunct2, THEN conjunct2, THEN conjunct2, THEN conjunct2, THEN conjunct2, THEN conjunct2, THEN conjunct1]
    iv [THEN conjunct2, THEN conjunct2, THEN conjunct2, THEN conjunct2, THEN conjunct2, THEN conjunct2, THEN conjunct2, THEN conjunct1]
    iv [THEN conjunct2, THEN conjunct2, THEN conjunct2, THEN conjunct2, THEN conjunct2, THEN conjunct2, THEN conjunct2, THEN conjunct2, THEN conjunct1]
    iv [THEN conjunct2, THEN conjunct2, THEN conjunct2, THEN conjunct2, THEN conjunct2, THEN conjunct2, THEN conjunct2, THEN conjunct2, THEN conjunct2, THEN conjunct1]
    iv [THEN conjunct2, THEN conjunct2, THEN conjunct2, THEN conjunct2, THEN conjunct2, THEN conjunct2, THEN conjunct2, THEN conjunct2, THEN conjunct2, THEN conjunct2]
  show "length prev = length visited" "seen visited s" "sorted (map (dist (edges adj) s) queue)" by (fact c)+
  show "v \<in> set (adj u) \<Longrightarrow> v < length visited" using c(3) by blast
  show "seen visited v \<Longrightarrow> (s, v) \<in> (edges adj)\<^sup>*" using c(4) by blast
  show "seen visited v \<Longrightarrow> v \<noteq> s \<Longrightarrow>
      \<exists>u. prev ! v = Some u \<and> seen visited u \<and> v \<in> set (adj u) \<and> dist (edges adj) s v = Suc (dist (edges adj) s u)" using c(5) by blast
  show "v \<in> set queue \<Longrightarrow> seen visited v" using c(6) by blast
  show "v \<in> set queue \<Longrightarrow> dist (edges adj) s v \<le> Suc (dist (edges adj) s (hd queue))" using c(8) by blast
  show "seen visited u \<Longrightarrow> u \<notin> set queue \<Longrightarrow> v \<in> set (adj u) \<Longrightarrow> seen visited v" using c(9) by blast
  show "queue \<noteq> [] \<Longrightarrow> (s, v) \<in> (edges adj)\<^sup>* \<Longrightarrow> dist (edges adj) s v \<le> dist (edges adj) s (hd queue) \<Longrightarrow> seen visited v" using c(10) by blast
  show "seen visited toIdx \<Longrightarrow> toIdx \<in> set queue" using c(11) by blast
qed

text \<open>What visiting all successors of a node does.\<close>

lemma visits_result:
  assumes "length prev = length visited"
  shows "\<exists>news visited' prev'. fold (visit cur) ns (queue, visited, prev) = (queue @ news, visited', prev') \<and>
    set news = {v \<in> set ns. v < length visited \<and> \<not> visited ! v} \<and> length visited' = length visited \<and> length prev' = length visited \<and>
    (\<forall>v < length visited. visited' ! v \<longleftrightarrow> visited ! v \<or> v \<in> set news) \<and>
    (\<forall>v < length visited. prev' ! v = (if v \<in> set news then Some cur else prev ! v))"
  using assms
proof (induction ns arbitrary: queue visited prev)
  case (Cons n ns)
  show ?case
  proof (cases "n < length visited \<and> \<not> visited ! n")
    case True
    have "length (prev[n := Some cur]) = length (visited[n := True])" using Cons.prems by simp
    from Cons.IH [OF this, of "queue @ [n]"] obtain news visited' prev' where
      r: "fold (visit cur) ns (queue @ [n], visited[n := True], prev[n := Some cur]) = ((queue @ [n]) @ news, visited', prev')"
        "set news = {v \<in> set ns. v < length visited \<and> \<not> visited[n := True] ! v}" "length visited' = length visited" "length prev' = length visited"
        "\<forall>v < length visited. visited' ! v \<longleftrightarrow> visited[n := True] ! v \<or> v \<in> set news"
        "\<forall>v < length visited. prev' ! v = (if v \<in> set news then Some cur else prev[n := Some cur] ! v)" by auto
    have step: "visit cur n (queue, visited, prev) = (queue @ [n], visited[n := True], prev[n := Some cur])" using True by (simp add: visit_def)
    show ?thesis
      by (rule exI [of _ "n # news"], rule exI [of _ visited'], rule exI [of _ prev'])
        (use True r Cons.prems in \<open>auto simp: step nth_list_update\<close>)
  next
    case False
    then have "visit cur n (queue, visited, prev) = (queue, visited, prev)" by (auto simp: visit_def)
    moreover have "{v \<in> set (n # ns). v < length visited \<and> \<not> visited ! v} = {v \<in> set ns. v < length visited \<and> \<not> visited ! v}" using False by auto
    ultimately show ?thesis using Cons.IH [OF Cons.prems, of queue] by (simp only: fold_simps)
  qed
qed simp

text \<open>Popping a node that is not the target and visiting its successors keeps the invariant.\<close>

lemma search_inv_step:
  assumes inv: "search_inv adj s toIdx (cur # queue, visited, prev)" and "cur \<noteq> toIdx"
  shows "search_inv adj s toIdx (fold (visit cur) (adj cur) (queue, visited, prev))"
proof -
  define E where "E = edges adj"
  define d where "d = dist E s"
  have E: "(u, v) \<in> E \<longleftrightarrow> v \<in> set (adj u)" for u v by (simp add: E_def)
  note D = search_invD [OF inv, folded E_def, folded d_def, unfolded list.sel]
  note len = D(1) and s = D(2) and adj = D(3) and reach = D(4) and pred = D(5) and q = D(6) and srt = D(7) and near = D(8) and closed = D(9)
    and full = D(10) [OF list.distinct(2)]
  have goal: "toIdx \<in> set queue" if "seen visited toIdx" using D(11) [OF that] \<open>cur \<noteq> toIdx\<close> by simp
  obtain news visited' prev' where r: "fold (visit cur) (adj cur) (queue, visited, prev) = (queue @ news, visited', prev')"
      "set news = {v \<in> set (adj cur). v < length visited \<and> \<not> visited ! v}" "length visited' = length visited" "length prev' = length visited"
    and seen': "\<forall>v < length visited. visited' ! v \<longleftrightarrow> visited ! v \<or> v \<in> set news"
    and prev': "\<forall>v < length visited. prev' ! v = (if v \<in> set news then Some cur else prev ! v)"
    using visits_result [OF len, of cur "adj cur" queue] by (elim exE conjE)
  have cur: "seen visited cur" using q by simp
  have seen_iff: "seen visited' v \<longleftrightarrow> seen visited v \<or> v \<in> set news" for v using seen' r(2,3) by auto
  have new: "(s, v) \<in> E\<^sup>* \<and> d v = Suc (d cur)" if "v \<in> set news" for v
  proof -
    have e: "(cur, v) \<in> E" "\<not> seen visited v" using that r(2) E by auto
    have "(s, v) \<in> E\<^sup>*" using reach [OF cur] e(1) by (rule rtrancl_into_rtrancl)
    moreover have "d v \<le> Suc (d cur)" by (rule dist_step [OF reach [OF cur] e(1), folded d_def])
    moreover have "\<not> d v \<le> d cur" using full calculation(1) e(2) by blast
    ultimately show ?thesis by simp
  qed
  have above: "d cur \<le> d v" if "v \<in> set queue" for v using srt that by simp
  have band: "d cur \<le> d v \<and> d v \<le> Suc (d cur)" if "v \<in> set queue \<or> v \<in> set news" for v
    using that above [of v] near [of v] new [of v] by auto
  have hd_in: "hd (queue @ news) \<in> set queue \<or> hd (queue @ news) \<in> set news" if "queue @ news \<noteq> []"
    using hd_in_set [OF that] by simp
  have full': "seen visited' v" if ne: "queue @ news \<noteq> []" and v: "(s, v) \<in> E\<^sup>*" "d v \<le> d (hd (queue @ news))" for v
  proof (cases "d v \<le> d cur")
    case True
    then show ?thesis using full [OF v(1)] seen_iff by blast
  next
    case False
    have hd_near: "d (hd (queue @ news)) \<le> Suc (d cur)" using band [OF hd_in [OF ne]] by simp
    have dv: "d v = Suc (d cur)" and hd: "d (hd (queue @ news)) = Suc (d cur)" using False v(2) hd_near by simp_all
    have "v \<noteq> s" using dv by (auto simp: d_def)
    then obtain u where u: "(s, u) \<in> E\<^sup>*" "(u, v) \<in> E" "d v = Suc (d u)" using dist_pred [OF v(1), folded d_def] by blast
    have su: "seen visited u" by (rule full [OF u(1)]) (use u(3) dv in simp)
    show ?thesis
    proof (cases "u = cur")
      case True
      then have "v \<in> set (adj cur)" "v < length visited" using u(2) adj E by auto
      then show ?thesis using seen_iff r(2) by auto
    next
      case False
      have "u \<notin> set queue"
      proof
        assume uq: "u \<in> set queue"
        have "sorted (map d queue)" using srt by simp
        then have "d (hd queue) \<le> d u" using uq by (cases queue) (simp_all, metis order_refl)
        moreover have "hd (queue @ news) = hd queue" using uq by (cases queue) auto
        ultimately show False using hd u(3) dv by simp
      qed
      then show ?thesis using closed [OF su, of v] False u(2) E seen_iff by auto
    qed
  qed
  have near': "d v \<le> Suc (d (hd (queue @ news)))" if "v \<in> set (queue @ news)" for v
  proof -
    have "queue @ news \<noteq> []" using that by auto
    then show ?thesis using band [OF hd_in] band [of v] that by (metis Suc_le_mono Un_iff le_trans set_append)
  qed
  have srt': "sorted (map d (queue @ news))"
  proof -
    have "sorted (map d queue)" using srt by simp
    moreover have "map d news = replicate (length news) (Suc (d cur))" using new by (simp add: list_eq_iff_nth_eq)
    then have "sorted (map d news)" by simp
    moreover have "x \<le> Suc (d cur)" if "x \<in> set (map d queue)" for x using that near by auto
    ultimately show ?thesis using new by (auto simp: sorted_append)
  qed
  have closed': "seen visited' v" if "seen visited' u" "u \<notin> set (queue @ news)" "v \<in> set (adj u)" for u v
  proof (cases "u = cur")
    case True
    then show ?thesis using that adj seen_iff r(2) by auto
  next
    case False
    then show ?thesis using that closed [of u v] seen_iff by auto
  qed
  have pred': "\<exists>u. prev' ! v = Some u \<and> seen visited' u \<and> v \<in> set (adj u) \<and> d v = Suc (d u)" if "seen visited' v" "v \<noteq> s" for v
  proof (cases "v \<in> set news")
    case True
    then show ?thesis using prev' new r(2) cur seen_iff by auto
  next
    case False
    then show ?thesis using that pred [of v] prev' seen_iff by auto
  qed
  have "length prev' = length visited'" "\<forall>u. \<forall>v \<in> set (adj u). v < length visited'" using r(3,4) adj by auto
  moreover have "seen visited' s" using s seen_iff by blast
  moreover have "\<forall>v. seen visited' v \<longrightarrow> (s, v) \<in> E\<^sup>*" using seen_iff reach new by blast
  moreover have "\<forall>v. seen visited' v \<and> v \<noteq> s \<longrightarrow> (\<exists>u. prev' ! v = Some u \<and> seen visited' u \<and> v \<in> set (adj u) \<and> d v = Suc (d u))"
    using pred' by blast
  moreover have "\<forall>v \<in> set (queue @ news). seen visited' v" using seen_iff q by auto
  moreover have "\<forall>v \<in> set (queue @ news). d v \<le> Suc (d (hd (queue @ news)))" using near' by blast
  moreover have "\<forall>u. seen visited' u \<and> u \<notin> set (queue @ news) \<longrightarrow> (\<forall>v \<in> set (adj u). seen visited' v)" using closed' by blast
  moreover have "queue @ news \<noteq> [] \<longrightarrow> (\<forall>v. (s, v) \<in> E\<^sup>* \<and> d v \<le> d (hd (queue @ news)) \<longrightarrow> seen visited' v)" using full' by blast
  moreover have "seen visited' toIdx \<longrightarrow> toIdx \<in> set (queue @ news)" using seen_iff goal by auto
  ultimately show ?thesis unfolding search_inv_def r(1) prod.case E_def [symmetric] d_def [symmetric] using srt' by (intro conjI; elim conjE; assumption?)
qed

lemma search_inv_start:
  assumes "s < n" and "\<And>u v. v \<in> set (adj u) \<Longrightarrow> v < n"
  shows "search_inv adj s toIdx ([s], (replicate n False)[s := True], replicate n None)"
proof -
  have seen: "seen ((replicate n False)[s := True]) v \<longleftrightarrow> v = s" for v using assms(1) by (auto simp: nth_list_update)
  have "dist (edges adj) s v \<noteq> 0" if "(s, v) \<in> (edges adj)\<^sup>*" "v \<noteq> s" for v
    using dist_relpow [OF that(1)] that(2) by (metis relpow_0_E)
  then have zero: "v = s" if "(s, v) \<in> (edges adj)\<^sup>*" "dist (edges adj) s v \<le> dist (edges adj) s s" for v using that by fastforce
  show ?thesis unfolding search_inv_def prod.case seen using assms zero by auto
qed

text \<open>The search ends with the target at the head of the queue, or with everything reachable seen and no target among it.\<close>

lemma bfs_found:
  assumes "search_inv adj s toIdx st"
  shows "\<exists>queue visited. fst (bfs adj toIdx st) \<longrightarrow> search_inv adj s toIdx (toIdx # queue, visited, snd (bfs adj toIdx st))"
  using assms by (induction adj toIdx st rule: bfs.induct) (auto dest: search_inv_step)

lemma seen_reachable:
  assumes "search_inv adj s toIdx ([], visited, prev)" and "(s, v) \<in> (edges adj)\<^sup>*"
  shows "seen visited v"
  using assms(2)
proof (induction rule: rtrancl_induct)
  case base
  then show ?case by (rule search_inv_start_seen [OF assms(1)])
next
  case (step u v)
  then show ?case using search_inv_closed [OF assms(1), of u v] by simp
qed

lemma bfs_not_found:
  assumes "search_inv adj s toIdx st" and "\<not> fst (bfs adj toIdx st)"
  shows "(s, toIdx) \<notin> (edges adj)\<^sup>*"
  using assms
proof (induction adj toIdx st rule: bfs.induct)
  case (1 adj toIdx visited prev)
  then have "\<not> seen visited toIdx" using search_inv_goal [OF 1(1)] by auto
  then show ?case using seen_reachable [OF 1(1)] by blast
next
  case (2 adj toIdx cur queue visited prev)
  then show ?case by (auto split: if_splits dest: search_inv_step)
qed

lemma bfs_target_seen:
  assumes "search_inv adj s toIdx (toIdx # queue, visited, prev)"
  shows "(s, toIdx) \<in> (edges adj)\<^sup>*"
  by (rule search_inv_reach [OF assms search_inv_queue [OF assms]]) simp

section \<open>Following the predecessors\<close>

text \<open>A path of upgrades, as the list of the nodes after the first one.\<close>

fun is_path :: "('a \<times> 'a) set \<Rightarrow> 'a \<Rightarrow> 'a list \<Rightarrow> 'a \<Rightarrow> bool" where
  "is_path E u [] v = (u = v)"
| "is_path E u (w # ws) v = ((u, w) \<in> E \<and> is_path E w ws v)"

lemma is_path_append: "is_path E u (xs @ [w]) v \<longleftrightarrow> (\<exists>x. is_path E u xs x \<and> (x, w) \<in> E) \<and> w = v"
  by (induction xs arbitrary: u) auto

lemma is_path_relpow: "(\<exists>xs. length xs = n \<and> is_path E u xs v) \<longleftrightarrow> (u, v) \<in> E ^^ n"
proof (induction n arbitrary: u)
  case (Suc n)
  have "(\<exists>xs. length xs = Suc n \<and> is_path E u xs v) \<longleftrightarrow> (\<exists>w ws. length ws = n \<and> (u, w) \<in> E \<and> is_path E w ws v)"
    by (metis is_path.simps(2) length_Suc_conv)
  also have "\<dots> \<longleftrightarrow> (u, v) \<in> E ^^ Suc n" using Suc by (metis relpow_Suc_D2' relpow_Suc_E2 relpow_Suc_I2)
  finally show ?case .
qed auto

lemma is_path_dist: "is_path E u xs v \<Longrightarrow> dist E u v \<le> length xs"
  using is_path_relpow dist_le by metis

lemma walk_back_path:
  assumes inv: "search_inv adj s toIdx (queue, visited, prev)" and "seen visited v"
  shows "\<exists>p. walk_back prev s v acc = Some (p @ acc) \<and> is_path (edges adj) s p v \<and> length p = dist (edges adj) s v"
  using assms(2)
proof (induction "dist (edges adj) s v" arbitrary: v acc rule: less_induct)
  case less
  show ?case
  proof (cases "v = s")
    case True
    then show ?thesis by (simp add: walk_back.simps)
  next
    case False
    obtain u where u: "prev ! v = Some u" "seen visited u" "v \<in> set (adj u)" "dist (edges adj) s v = Suc (dist (edges adj) s u)"
      using search_inv_pred [OF inv less.prems False] by blast
    obtain p where p: "walk_back prev s u (v # acc) = Some (p @ v # acc)" "is_path (edges adj) s p u" "length p = dist (edges adj) s u"
      using less.hyps [of u] u(2,4) by auto
    have "walk_back prev s v acc = Some ((p @ [v]) @ acc)" using False u(1) p(1) by (simp add: walk_back.simps [of prev s v])
    moreover have "is_path (edges adj) s (p @ [v]) v" using p(2) u(3) by (auto simp: is_path_append)
    ultimately show ?thesis using p(3) u(4) by (intro exI [of _ "p @ [v]"]) simp
  qed
qed

section \<open>Correctness of the path search\<close>

text \<open>The upgrades of a graph: its edges between two of its nodes.\<close>

definition upgrades :: "update_graph \<Rightarrow> (nat \<times> nat) set" where
  "upgrades g = {(a, b). a < length (gr_Nodes g) \<and> b < length (gr_Nodes g) \<and> [int a, int b] \<in> set (gr_Edges g)}"

lemma edge_of_Some: "edge_of n e = Some (a, b) \<longleftrightarrow> a < n \<and> b < n \<and> e = [int a, int b]"
  by (auto simp: edge_of_def split: list.splits)

lemma adjacency_iff: "v \<in> set (adjacency g u) \<longleftrightarrow> (u, v) \<in> upgrades g"
proof -
  have "v \<in> set (adjacency g u) \<longleftrightarrow> (\<exists>e \<in> set (gr_Edges g). edge_of (length (gr_Nodes g)) e = Some (u, v))"
    by (force simp: adjacency_def map_filter_def image_iff)
  then show ?thesis by (auto simp: edge_of_Some upgrades_def)
qed

lemma edges_adjacency: "edges (adjacency g) = upgrades g"
  by (auto simp: edges_def adjacency_iff)

lemma version_index_fold:
  fixes ns :: "release_node list"
  defines "idx \<equiv> fold (\<lambda>(i, node) m. mput (nd_Version node) i m) (enumerate 0 ns) ([] :: (string, nat) gomap)"
  shows "(mget idx v = Some i \<longrightarrow> i < length ns \<and> nd_Version (ns ! i) = v) \<and> (mget idx v = None \<longleftrightarrow> v \<notin> nd_Version ` set ns)"
  unfolding idx_def
  by (induction ns rule: rev_induct) (auto simp: enumerate_append_eq nth_append less_Suc_eq)

lemma version_index_Some: "mget (version_index g) v = Some i \<Longrightarrow> i < length (gr_Nodes g) \<and> nd_Version (gr_Nodes g ! i) = v"
  unfolding version_index_def using version_index_fold by blast

lemma version_index_None: "mget (version_index g) v = None \<longleftrightarrow> v \<notin> nd_Version ` set (gr_Nodes g)"
  unfolding version_index_def using version_index_fold by blast

lemma version_index_distinct:
  assumes "distinct (map nd_Version (gr_Nodes g))" and "i < length (gr_Nodes g)" and "nd_Version (gr_Nodes g ! i) = v"
  shows "mget (version_index g) v = Some i"
proof -
  have "mget (version_index g) v \<noteq> None" using assms(2,3) by (auto simp: version_index_None)
  then obtain k where k: "mget (version_index g) v = Some k" by blast
  then have "k = i" using version_index_Some [OF k] assms by (metis distinct_conv_nth length_map nth_map)
  then show ?thesis using k by simp
qed

text \<open>The search between two indices.\<close>

lemma shortest_path_indices:
  assumes i: "mget (version_index g) v = Some i" and j: "mget (version_index g) w = Some j"
  shows "if (i, j) \<in> (upgrades g)\<^sup>*
    then \<exists>p. shortestPathNodes g v w = Inr (Some (map (\<lambda>k. gr_Nodes g ! k) (i # p))) \<and> is_path (upgrades g) i p j \<and> length p = dist (upgrades g) i j
    else shortestPathNodes g v w = Inl (NoPath v w)"
proof -
  let ?adj = "adjacency g" and ?n = "length (gr_Nodes g)"
  let ?st = "([i], (replicate ?n False)[i := True], replicate ?n None)"
  obtain found prev where b: "bfs ?adj j ?st = (found, prev)" by fastforce
  have start: "search_inv ?adj i j ?st"
    by (rule search_inv_start) (use version_index_Some [OF i] in \<open>auto simp: adjacency_iff upgrades_def\<close>)
  show ?thesis
  proof (cases found)
    case True
    obtain queue visited where inv: "search_inv ?adj i j (j # queue, visited, prev)" using bfs_found [OF start] b True by auto
    have reach: "(i, j) \<in> (upgrades g)\<^sup>*" using bfs_target_seen [OF inv] by (simp add: edges_adjacency)
    have "seen visited j" using search_inv_queue [OF inv] by simp
    then obtain p where "walk_back prev i j [] = Some (p @ [])" "is_path (edges ?adj) i p j" "length p = dist (edges ?adj) i j"
      using walk_back_path [OF inv] by blast
    then show ?thesis using reach b True i j by (auto simp: shortestPathNodes_def edges_adjacency)
  next
    case False
    then have "(i, j) \<notin> (upgrades g)\<^sup>*" using bfs_not_found [OF start] b by (simp add: edges_adjacency)
    then show ?thesis using b False i j by (simp add: shortestPathNodes_def)
  qed
qed

text \<open>
  Property C22. For two versions of a graph the path search answers a path of its upgrades from the one to the other that no other path beats in length;
  it answers the error NoPath exactly when there is no path, and VersionNotFound for a version the graph does not have. It always ends.
\<close>

theorem shortest_path_correct:
  assumes "distinct (map nd_Version (gr_Nodes g))" and "i < length (gr_Nodes g)" and "j < length (gr_Nodes g)"
    and "nd_Version (gr_Nodes g ! i) = v" and "nd_Version (gr_Nodes g ! j) = w" and "u \<notin> nd_Version ` set (gr_Nodes g)"
  shows "(\<forall>p. is_path (upgrades g) i p j \<longrightarrow>
      (\<exists>p'. shortestPathNodes g v w = Inr (Some (map (\<lambda>k. gr_Nodes g ! k) (i # p'))) \<and> is_path (upgrades g) i p' j \<and> length p' \<le> length p)) \<and>
    ((\<nexists>p. is_path (upgrades g) i p j) \<longrightarrow> shortestPathNodes g v w = Inl (NoPath v w)) \<and>
    shortestPathNodes g u w = Inl (VersionNotFound u) \<and> shortestPathNodes g v u = Inl (VersionNotFound u)"
proof -
  have i: "mget (version_index g) v = Some i" and j: "mget (version_index g) w = Some j" using assms version_index_distinct by blast+
  have u: "mget (version_index g) u = None" using assms(6) by (simp add: version_index_None)
  have "(i, j) \<in> (upgrades g)\<^sup>*" if "is_path (upgrades g) i p j" for p using that is_path_relpow relpow_imp_rtrancl by metis
  moreover have "\<exists>p. is_path (upgrades g) i p j" if "(i, j) \<in> (upgrades g)\<^sup>*" using is_path_relpow dist_relpow [OF that] by metis
  ultimately show ?thesis using shortest_path_indices [OF i j] i j u is_path_dist [of "upgrades g" i _ j]
    by (auto simp: shortestPathNodes_def Let_def split: if_splits)
qed

text \<open>A graph with a cycle, an edge out of range and two upgrade paths of different length.\<close>

definition release_at :: "string \<Rightarrow> release_node" where
  "release_at v = \<lparr>nd_Version = v, nd_Image = ''quay.io/ocp@sha256:'' @ v\<rparr>"

definition sample_graph :: update_graph where
  "sample_graph = \<lparr>gr_Nodes = map release_at [''4.1'', ''4.2'', ''4.3'', ''4.4'', ''4.5''],
     gr_Edges = [[0, 1], [1, 2], [2, 3], [1, 0], [0, 2], [7, 1], [3]]\<rparr>"

theorem shortest_path_correct_witness:
  "is_path (upgrades sample_graph) 0 [1, 2, 3] 3 \<and>
   (\<exists>p. shortestPathNodes sample_graph ''4.1'' ''4.4'' = Inr (Some (map (\<lambda>k. gr_Nodes sample_graph ! k) (0 # p))) \<and> length p \<le> 3) \<and>
   shortestPathNodes sample_graph ''4.9'' ''4.4'' = Inl (VersionNotFound ''4.9'')"
proof -
  have p: "is_path (upgrades sample_graph) 0 [1, 2, 3] 3" by (simp add: upgrades_def sample_graph_def)
  have n: "distinct (map nd_Version (gr_Nodes sample_graph))" "''4.9'' \<notin> nd_Version ` set (gr_Nodes sample_graph)" "length (gr_Nodes sample_graph) = 5"
    "nd_Version (gr_Nodes sample_graph ! 0) = ''4.1''" "nd_Version (gr_Nodes sample_graph ! 3) = ''4.4''"
    by (simp_all add: sample_graph_def release_at_def)
  note found = shortest_path_correct [of sample_graph 0 3 "''4.1''" "''4.4''" "''4.9''", OF n(1) _ _ n(4,5,2), unfolded n(3), simplified]
  show ?thesis using p found [THEN conjunct1, rule_format, OF p] found [THEN conjunct2, THEN conjunct2, THEN conjunct1] by auto
qed

section \<open>The selected releases\<close>








end
