(* ===== verification/ReleasePayload.thy ===== *)
theory ReleasePayload
  imports ReleaseGraph Resolve
begin

text \<open>
  The content of a release payload and its signature: the platform manifest, the component images and KubeVirt disks found in its layers
  (\<open>pkg/mirror/release/release.go\<close>), the download of a signature (\<open>pkg/release/signature.go\<close>) and its verification (\<open>pkg/release/verify.go\<close>).
  The registry client, gzip and tar, JSON, YAML and OpenPGP are parameters. A layer that was opened is the sequence of what the tar reader returns.
\<close>

section \<open>The platform manifest\<close>

text \<open>An image reference of the registry library; only the two fields that the code sets are named.\<close>

record payload_ref =
  pl_Base :: string
  pl_Tag :: string
  pl_Digest :: string

datatype tar_item = TarEntry string "string + string" | TarError string

record ('m, 'd, 'p) payload_registry =
  pr_ref_new :: "string \<Rightarrow> string + payload_ref"
  pr_manifest_get :: "payload_ref \<Rightarrow> string + 'm"
  pr_is_list :: "'m \<Rightarrow> bool"
  pr_manifest_list :: "'m \<Rightarrow> string + 'd list"
  pr_platform_parse :: "string \<Rightarrow> string + 'p"
  pr_platform_desc :: "'m \<Rightarrow> 'p \<Rightarrow> string + 'd"
  pr_linux_amd64 :: 'p
  pr_digest :: "'d \<Rightarrow> string"
  pr_layers :: "'m \<Rightarrow> string + 'd list"
  pr_blob_get :: "payload_ref \<Rightarrow> 'd \<Rightarrow> string + string"
  pr_gunzip :: "string \<Rightarrow> string + tar_item list"

definition MultiArch :: string where
  "MultiArch = ''multi''"

datatype payload_error = NoClient | BadPayloadRef string | ManifestFailed string | EmptyManifestList string | BadPlatform string | NoPlatform string
  | PlatformManifestFailed string | LayersFailed string | NoLayers string | NotInLayers string

definition platform_descriptor :: "('m, 'd, 'p) payload_registry \<Rightarrow> 'm \<Rightarrow> string \<Rightarrow> string \<Rightarrow> payload_error + 'd" where
  "platform_descriptor reg m arch payloadImage =
     (if arch = MultiArch then
        (case pr_manifest_list reg m of
           Inl _ \<Rightarrow> Inl (EmptyManifestList payloadImage)
         | Inr entries \<Rightarrow>
             (case entries of
                [] \<Rightarrow> Inl (EmptyManifestList payloadImage)
              | e # _ \<Rightarrow> Inr (case pr_platform_desc reg m (pr_linux_amd64 reg) of Inr d \<Rightarrow> d | Inl _ \<Rightarrow> e)))
      else
        (case pr_platform_parse reg (''linux/'' @ arch) of
           Inl _ \<Rightarrow> Inl (BadPlatform arch)
         | Inr p \<Rightarrow> (case pr_platform_desc reg m p of Inl _ \<Rightarrow> Inl (NoPlatform arch) | Inr d \<Rightarrow> Inr d)))"

definition platformManifest ::
  "('m, 'd, 'p) payload_registry \<Rightarrow> payload_ref \<Rightarrow> 'm \<Rightarrow> string \<Rightarrow> string \<Rightarrow> payload_error + payload_ref \<times> 'm" where
  "platformManifest reg imgRef m arch payloadImage =
     (if \<not> pr_is_list reg m then Inr (imgRef, m)
      else (case platform_descriptor reg m arch payloadImage of
              Inl e \<Rightarrow> Inl e
            | Inr desc \<Rightarrow>
                (let imgRef' = imgRef\<lparr>pl_Digest := pr_digest reg desc, pl_Tag := []\<rparr>
                 in case pr_manifest_get reg imgRef' of
                      Inl _ \<Rightarrow> Inl (PlatformManifestFailed payloadImage)
                    | Inr pm \<Rightarrow> Inr (imgRef', pm))))"

section \<open>Scanning layers\<close>

text \<open>The first entry of a tar stream whose name has a suffix: an error, nothing, or its content.\<close>

fun tar_find :: "string \<Rightarrow> tar_item list \<Rightarrow> string + string option" where
  "tar_find suffix [] = Inr None"
| "tar_find suffix (TarError e # items) = Inl (''tar read error: '' @ e)"
| "tar_find suffix (TarEntry name content # items) =
     (if \<not> hasSuffix name suffix then tar_find suffix items
      else (case content of Inl e \<Rightarrow> Inl (''failed to read: '' @ e) | Inr data \<Rightarrow> Inr (Some data)))"

text \<open>The tags of the image stream, as pairs of the tag name and the name it comes from.\<close>

type_synonym image_stream = "(string \<times> string) list"

definition stream_images :: "image_stream \<Rightarrow> component_image list" where
  "stream_images is = map (\<lambda>(name, from). \<lparr>cp_Name = name, cp_Image = from\<rparr>) (filter (\<lambda>(name, from). from \<noteq> []) is)"

definition scanLayerForImageReferences ::
  "(string \<Rightarrow> string + tar_item list) \<Rightarrow> (string \<Rightarrow> string + image_stream) \<Rightarrow> string \<Rightarrow> string + component_image list option" where
  "scanLayerForImageReferences gunzip unmarshal rdr =
     (case gunzip rdr of
        Inl e \<Rightarrow> Inl e
      | Inr items \<Rightarrow>
          (case tar_find ''image-references'' items of
             Inl e \<Rightarrow> Inl e
           | Inr None \<Rightarrow> Inr None
           | Inr (Some data) \<Rightarrow> (case unmarshal data of Inl e \<Rightarrow> Inl e | Inr is \<Rightarrow> Inr (Some (stream_images is)))))"

text \<open>The loop over the layers, from the last to the first; a layer that cannot be fetched or scanned, or has no such file, is skipped.\<close>

fun scan_layers :: "('d \<Rightarrow> string + string) \<Rightarrow> (string \<Rightarrow> string + 'r option) \<Rightarrow> 'd list \<Rightarrow> 'r option" where
  "scan_layers blob scan [] = None"
| "scan_layers blob scan (l # ls) =
     (case blob l of
        Inl _ \<Rightarrow> scan_layers blob scan ls
      | Inr rdr \<Rightarrow> (case scan rdr of Inr (Some r) \<Rightarrow> Some r | _ \<Rightarrow> scan_layers blob scan ls))"

definition ExtractComponentImages_payload ::
  "('m, 'd, 'p) payload_registry option \<Rightarrow> (string \<Rightarrow> string + image_stream) \<Rightarrow> string \<Rightarrow> string \<Rightarrow> payload_error + component_image list" where
  "ExtractComponentImages_payload client unmarshal payloadImage arch =
     (case client of
        None \<Rightarrow> Inl NoClient
      | Some reg \<Rightarrow>
          (case pr_ref_new reg payloadImage of
             Inl _ \<Rightarrow> Inl (BadPayloadRef payloadImage)
           | Inr imgRef0 \<Rightarrow>
               (case pr_manifest_get reg imgRef0 of
                  Inl _ \<Rightarrow> Inl (ManifestFailed payloadImage)
                | Inr m0 \<Rightarrow>
                    (case platformManifest reg imgRef0 m0 arch payloadImage of
                       Inl e \<Rightarrow> Inl e
                     | Inr (imgRef, m) \<Rightarrow>
                         (case pr_layers reg m of
                            Inl e \<Rightarrow> Inl (LayersFailed e)
                          | Inr layers \<Rightarrow>
                              if length layers = 0 then Inl (NoLayers payloadImage)
                              else (case scan_layers (pr_blob_get reg imgRef) (scanLayerForImageReferences (pr_gunzip reg) unmarshal) (rev layers) of
                                      Some images \<Rightarrow> Inr images
                                    | None \<Rightarrow> Inl (NotInLayers payloadImage)))))))"

section \<open>KubeVirt disks\<close>

record coreos_image =
  ci_Image :: string
  ci_DigestRef :: string

text \<open>The architectures of a CoreOS stream with their images.\<close>

type_synonym coreos_stream = "(string, (string, coreos_image) gomap) gomap"

definition archMap :: "(string, string) gomap" where
  "archMap = [(''amd64'', ''x86_64''), (''x86_64'', ''x86_64''), (''arm64'', ''aarch64''), (''aarch64'', ''aarch64''),
     (''s390x'', ''s390x''), (''ppc64le'', ''ppc64le'')]"

fun want_arches :: "(string, bool) gomap \<Rightarrow> string list \<Rightarrow> (string, bool) gomap" where
  "want_arches want [] = want"
| "want_arches want (a # as) =
     (if a = MultiArch then []
      else want_arches (case mget archMap a of Some mapped \<Rightarrow> mput mapped True want | None \<Rightarrow> mput a True want) as)"

definition kubevirt_ref :: "(string, bool) gomap \<Rightarrow> string \<times> (string, coreos_image) gomap \<Rightarrow> string list" where
  "kubevirt_ref wantArches arch =
     (if length wantArches > 0 \<and> mget wantArches (fst arch) \<noteq> Some True then []
      else (case mget (snd arch) ''kubevirt'' of
              None \<Rightarrow> []
            | Some kv \<Rightarrow>
                (let kvRef = (if ci_DigestRef kv = [] then ci_Image kv else ci_DigestRef kv)
                 in if kvRef \<noteq> [] then [kvRef] else [])))"

definition collectKubeVirtRefs :: "coreos_stream \<Rightarrow> (string, bool) gomap \<Rightarrow> string list" where
  "collectKubeVirtRefs stream wantArches = concat (map (kubevirt_ref wantArches) stream)"

definition scanLayerForKubeVirtImages ::
  "(string \<Rightarrow> string + tar_item list) \<Rightarrow> (string \<Rightarrow> string + string) \<Rightarrow> (string \<Rightarrow> string + coreos_stream) \<Rightarrow> string list \<Rightarrow> string \<Rightarrow> string + string list option" where
  "scanLayerForKubeVirtImages gunzip yaml_stream unmarshal arches rdr =
     (case gunzip rdr of
        Inl e \<Rightarrow> Inl e
      | Inr items \<Rightarrow>
          (case tar_find ''installer_coreos-bootimages.yaml'' items of
             Inl e \<Rightarrow> Inl e
           | Inr None \<Rightarrow> Inr None
           | Inr (Some data) \<Rightarrow>
               (case yaml_stream data of
                  Inl e \<Rightarrow> Inl e
                | Inr stream \<Rightarrow>
                    if stream = [] then Inl ''empty stream field''
                    else (case unmarshal stream of
                            Inl e \<Rightarrow> Inl e
                          | Inr st \<Rightarrow> Inr (Some (collectKubeVirtRefs st (want_arches [] arches)))))))"

definition ExtractKubeVirtImages_payload ::
  "('m, 'd, 'p) payload_registry option \<Rightarrow> (string \<Rightarrow> string + string) \<Rightarrow> (string \<Rightarrow> string + coreos_stream) \<Rightarrow> string \<Rightarrow> string list \<Rightarrow> payload_error + string list" where
  "ExtractKubeVirtImages_payload client yaml_stream unmarshal payloadImage arches =
     (case client of
        None \<Rightarrow> Inl NoClient
      | Some reg \<Rightarrow>
          (case pr_ref_new reg payloadImage of
             Inl _ \<Rightarrow> Inl (BadPayloadRef payloadImage)
           | Inr imgRef0 \<Rightarrow>
               (let primaryArch = (if length arches > 0 then hd arches else ''amd64'')
                in case pr_manifest_get reg imgRef0 of
                     Inl _ \<Rightarrow> Inl (ManifestFailed payloadImage)
                   | Inr m0 \<Rightarrow>
                       (case platformManifest reg imgRef0 m0 primaryArch payloadImage of
                          Inl e \<Rightarrow> Inl e
                        | Inr (imgRef, m) \<Rightarrow>
                            (case pr_layers reg m of
                               Inl e \<Rightarrow> Inl (LayersFailed e)
                             | Inr layers \<Rightarrow>
                                 (case scan_layers (pr_blob_get reg imgRef) (scanLayerForKubeVirtImages (pr_gunzip reg) yaml_stream unmarshal arches)
                                         (rev layers) of
                                    Some images \<Rightarrow> Inr images
                                  | None \<Rightarrow> Inl (NotInLayers payloadImage)))))))"

section \<open>Signatures\<close>

definition signatureBaseURL :: string where
  "signatureBaseURL = ''https://mirror.openshift.com/pub/openshift-v4/signatures/openshift/release''"

definition signature_url :: "string \<Rightarrow> string" where
  "signature_url releaseDigest = signatureBaseURL @ ''/'' @ map (\<lambda>c. if c = CHR '':'' then CHR ''='' else c) releaseDigest @ ''/signature-1''"

text \<open>\<open>request\<close> answers an error or the status code and the body; at most 64 KiB of the body are read.\<close>

definition DownloadSignature :: "(string \<Rightarrow> string + int \<times> string) \<Rightarrow> string \<Rightarrow> string + string" where
  "DownloadSignature request releaseDigest =
     (case request (signature_url releaseDigest) of
        Inl e \<Rightarrow> Inl (''download signature for '' @ releaseDigest @ '': '' @ e)
      | Inr (status, body) \<Rightarrow>
          if status = 404 then Inl (''signature not found for '' @ releaseDigest)
          else if status \<noteq> 200 then Inl (''download signature for '' @ releaseDigest)
          else (let data = take (64 * 1024) body
                in if length data = 0 then Inl (''empty signature body for '' @ releaseDigest) else Inr data))"

text \<open>What the OpenPGP library tells about a message, once its body has been read.\<close>

record pgp_signature =
  ps_CreationTime :: int
  ps_SigLifetimeSecs :: "int option"

record 'k message_details =
  md_IsSigned :: bool
  md_Body :: "string + string"
  md_SignatureError :: "string option"
  md_SignedBy :: "'k option"
  md_Signature :: "pgp_signature option"

record 'k openpgp =
  pg_ReadMessage :: "string \<Rightarrow> 'k list \<Rightarrow> string + 'k message_details"
  pg_ReadArmoredKeyRing :: "string \<Rightarrow> string + 'k list"
  pg_manifest_digest :: "string \<Rightarrow> string + string"
  pg_Now :: int

definition verifySignatureAgainst :: "'k openpgp \<Rightarrow> string \<Rightarrow> string \<Rightarrow> 'k list \<Rightarrow> string option" where
  "verifySignatureAgainst pgp sigData releaseDigest keyring =
     (case pg_ReadMessage pgp sigData keyring of
        Inl e \<Rightarrow> Some (''parse signature: '' @ e)
      | Inr md \<Rightarrow>
          if \<not> md_IsSigned md then Some ''signature blob is not a signed OpenPGP message''
          else (case md_Body md of
                  Inl e \<Rightarrow> Some (''read signed content: '' @ e)
                | Inr content \<Rightarrow>
                    if md_SignatureError md \<noteq> None then Some ''signature verification failed''
                    else if md_SignedBy md = None then Some ''signature not signed by a trusted Red Hat release key''
                    else (case md_Signature md of
                            None \<Rightarrow> Some ''signature message carries no signature packet''
                          | Some sig \<Rightarrow>
                              if (case ps_SigLifetimeSecs sig of None \<Rightarrow> False | Some secs \<Rightarrow> pg_Now pgp > ps_CreationTime sig + secs * 1000000000)
                              then Some ''signature expired''
                              else (case pg_manifest_digest pgp content of
                                      Inl e \<Rightarrow> Some (''parse signed payload: '' @ e)
                                    | Inr d \<Rightarrow> if d \<noteq> releaseDigest then Some ''signed digest does not match release digest'' else None))))"

text \<open>The keys embedded in the program; a key that does not parse is a panic at start-up.\<close>

fun mustLoadVerificationKeyring :: "'k openpgp \<Rightarrow> string list \<Rightarrow> 'k list option" where
  "mustLoadVerificationKeyring pgp [] = Some []"
| "mustLoadVerificationKeyring pgp (armored # rest) =
     (case pg_ReadArmoredKeyRing pgp armored of
        Inl _ \<Rightarrow> None
      | Inr el \<Rightarrow> map_option ((@) el) (mustLoadVerificationKeyring pgp rest))"

definition VerifySignature :: "'k openpgp \<Rightarrow> 'k list \<Rightarrow> string \<Rightarrow> string \<Rightarrow> string option" where
  "VerifySignature pgp verificationKeyring sigData releaseDigest = verifySignatureAgainst pgp sigData releaseDigest verificationKeyring"

section \<open>Which layer counts\<close>

definition layer_content :: "('d \<Rightarrow> string + string) \<Rightarrow> (string \<Rightarrow> string + 'r option) \<Rightarrow> 'd \<Rightarrow> 'r option" where
  "layer_content blob scan l = (case blob l of Inl _ \<Rightarrow> None | Inr rdr \<Rightarrow> (case scan rdr of Inr r \<Rightarrow> r | Inl _ \<Rightarrow> None))"

lemma scan_layers_append:
  "scan_layers blob scan (xs @ [l]) = (case scan_layers blob scan xs of Some r \<Rightarrow> Some r | None \<Rightarrow> layer_content blob scan l)"
  by (induction xs) (auto simp: layer_content_def split: sum.splits option.splits)

lemma scan_layers_last:
  "scan_layers blob scan (rev layers) = Some r \<longleftrightarrow>
     (\<exists>before l later. layers = before @ l # later \<and> layer_content blob scan l = Some r \<and> (\<forall>x \<in> set later. layer_content blob scan x = None))"
proof (induction layers)
  case (Cons x xs)
  have none: "scan_layers blob scan (rev ys) = None \<longleftrightarrow> (\<forall>x \<in> set ys. layer_content blob scan x = None)" for ys
    by (induction ys) (auto simp: scan_layers_append split: option.splits)
  show ?case
  proof (cases "scan_layers blob scan (rev xs)")
    case None
    then have later: "\<forall>x \<in> set xs. layer_content blob scan x = None" by (simp add: none)
    have "(\<exists>before l later. x # xs = before @ l # later \<and> layer_content blob scan l = Some r \<and> (\<forall>x \<in> set later. layer_content blob scan x = None))
        \<longleftrightarrow> layer_content blob scan x = Some r"
      using later by (fastforce simp: Cons_eq_append_conv)
    then show ?thesis using None by (simp add: scan_layers_append)
  next
    case (Some q)
    then have "\<not> (\<forall>x \<in> set xs. layer_content blob scan x = None)" using none [of xs] by simp
    then have "(\<exists>before l later. x # xs = before @ l # later \<and> layer_content blob scan l = Some r \<and> (\<forall>x \<in> set later. layer_content blob scan x = None))
        \<longleftrightarrow> (\<exists>before l later. xs = before @ l # later \<and> layer_content blob scan l = Some r \<and> (\<forall>x \<in> set later. layer_content blob scan x = None))"
      by (auto simp: Cons_eq_append_conv)
    then show ?thesis using Some Cons by (simp add: scan_layers_append)
  qed
qed simp

text \<open>The file counts only if no error comes before it in the tar stream.\<close>

lemma tar_find_Some:
  assumes "tar_find suffix items = Inr (Some data)"
  shows "\<exists>before name after. items = before @ TarEntry name (Inr data) # after \<and> hasSuffix name suffix \<and>
      (\<forall>x \<in> set before. \<exists>n c. x = TarEntry n c \<and> \<not> hasSuffix n suffix)"
  using assms
proof (induction suffix items rule: tar_find.induct)
  case (3 suffix name content items)
  show ?case
  proof (cases "hasSuffix name suffix")
    case True
    then have "content = Inr data" using 3(2) by (simp split: sum.splits)
    then show ?thesis using True by (intro exI [of _ "[]"] exI [of _ name] exI [of _ items]) simp
  next
    case False
    then obtain before n after where "items = before @ TarEntry n (Inr data) # after" "hasSuffix n suffix"
        "\<forall>x \<in> set before. \<exists>n c. x = TarEntry n c \<and> \<not> hasSuffix n suffix"
      using 3 by auto
    then show ?thesis using False by (intro exI [of _ "TarEntry name content # before"] exI [of _ n] exI [of _ after]) simp
  qed
qed simp_all

section \<open>KubeVirt references\<close>

definition stream_arch :: "string \<Rightarrow> string" where
  "stream_arch a = (case mget archMap a of Some mapped \<Rightarrow> mapped | None \<Rightarrow> a)"

lemma want_arches_Cons: "want_arches want (a # as) = (if a = MultiArch then [] else want_arches (mput (stream_arch a) True want) as)"
  by (simp add: stream_arch_def split: option.splits)

lemma want_arches_keys:
  "MultiArch \<notin> set as \<Longrightarrow> mget (want_arches want as) x = (if x \<in> stream_arch ` set as then Some True else mget want x)"
proof (induction as arbitrary: want)
  case (Cons a as)
  then show ?case by (auto simp: want_arches_Cons simp del: want_arches.simps)
qed simp

lemma want_arches_multi: "MultiArch \<in> set as \<Longrightarrow> want_arches want as = []"
proof (induction as arbitrary: want)
  case (Cons a as)
  then show ?case by (auto simp: want_arches_Cons simp del: want_arches.simps)
qed simp

text \<open>The reference of an architecture: the digest reference if there is one.\<close>

definition disk_ref :: "(string, coreos_image) gomap \<Rightarrow> string" where
  "disk_ref images = (case mget images ''kubevirt'' of None \<Rightarrow> [] | Some kv \<Rightarrow> if ci_DigestRef kv = [] then ci_Image kv else ci_DigestRef kv)"

lemma kubevirt_ref_alt:
  "kubevirt_ref want (a, images) = (if (want = [] \<or> mget want a = Some True) \<and> disk_ref images \<noteq> [] then [disk_ref images] else [])"
  by (simp add: kubevirt_ref_def disk_ref_def Let_def split: option.splits)

lemma want_arches_wanted:
  "want_arches [] arches = [] \<or> mget (want_arches [] arches) a = Some True \<longleftrightarrow>
     MultiArch \<in> set arches \<or> arches = [] \<or> a \<in> stream_arch ` set arches"
proof (cases "MultiArch \<in> set arches")
  case False
  then have keys: "mget (want_arches [] arches) x = (if x \<in> stream_arch ` set arches then Some True else None)" for x
    using want_arches_keys by simp
  have "want_arches [] arches = [] \<longleftrightarrow> arches = []"
    using keys [of "stream_arch (hd arches)"] by (cases arches) auto
  then show ?thesis using False keys by simp
qed (simp add: want_arches_multi)

section \<open>Properties\<close>

text \<open>
  The component images of a payload are those of the last of its layers that can be read and has an image-references file that parses,
  tags without a source left out; if there is no such layer the extraction fails.
\<close>

theorem component_images_of_last_layer:
  assumes "pr_ref_new reg payload = Inr r0" and "pr_manifest_get reg r0 = Inr m0" and "platformManifest reg r0 m0 arch payload = Inr (r, m)"
    and "pr_layers reg m = Inr layers"
  shows "(ExtractComponentImages_payload (Some reg) unmarshal payload arch = Inr images \<longleftrightarrow>
      (\<exists>before l later. layers = before @ l # later \<and>
         layer_content (pr_blob_get reg r) (scanLayerForImageReferences (pr_gunzip reg) unmarshal) l = Some images \<and>
         (\<forall>x \<in> set later. layer_content (pr_blob_get reg r) (scanLayerForImageReferences (pr_gunzip reg) unmarshal) x = None))) \<and>
    (\<forall>l. layer_content (pr_blob_get reg r) (scanLayerForImageReferences (pr_gunzip reg) unmarshal) l = Some images \<longrightarrow>
      (\<exists>blob before name data after tags. pr_blob_get reg r l = Inr blob \<and> pr_gunzip reg blob = Inr (before @ TarEntry name (Inr data) # after) \<and>
        hasSuffix name ''image-references'' \<and> unmarshal data = Inr tags \<and>
        images = map (\<lambda>(n, f). \<lparr>cp_Name = n, cp_Image = f\<rparr>) (filter (\<lambda>(n, f). f \<noteq> []) tags)))"
proof -
  let ?found = "layer_content (pr_blob_get reg r) (scanLayerForImageReferences (pr_gunzip reg) unmarshal)"
  have "ExtractComponentImages_payload (Some reg) unmarshal payload arch = Inr images \<longleftrightarrow>
      scan_layers (pr_blob_get reg r) (scanLayerForImageReferences (pr_gunzip reg) unmarshal) (rev layers) = Some images"
    using assms by (cases "layers = []") (auto simp: ExtractComponentImages_payload_def split: option.splits)
  moreover have "\<exists>blob before name data after tags. pr_blob_get reg r l = Inr blob \<and> pr_gunzip reg blob = Inr (before @ TarEntry name (Inr data) # after) \<and>
        hasSuffix name ''image-references'' \<and> unmarshal data = Inr tags \<and>
        images = map (\<lambda>(n, f). \<lparr>cp_Name = n, cp_Image = f\<rparr>) (filter (\<lambda>(n, f). f \<noteq> []) tags)" if layer: "?found l = Some images" for l
  proof -
    obtain blob items data tags where "pr_blob_get reg r l = Inr blob" "pr_gunzip reg blob = Inr items"
        "tar_find ''image-references'' items = Inr (Some data)" "unmarshal data = Inr tags" "images = stream_images tags"
      using layer by (auto simp: layer_content_def scanLayerForImageReferences_def split: sum.splits option.splits)
    then show ?thesis using tar_find_Some [of "''image-references''" items data] unfolding stream_images_def by metis
  qed
  ultimately show ?thesis unfolding scan_layers_last by blast
qed

text \<open>A registry with one payload of two layers, the upper one without the file.\<close>

definition tiny_payload :: "(bool, nat, string) payload_registry" where
  "tiny_payload = \<lparr>pr_ref_new = (\<lambda>s. Inr \<lparr>pl_Base = s, pl_Tag = ''4.1'', pl_Digest = []\<rparr>),
     pr_manifest_get = (\<lambda>r. Inr (pl_Digest r = [])), pr_is_list = id, pr_manifest_list = (\<lambda>_. Inr [7]), pr_platform_parse = Inr,
     pr_platform_desc = (\<lambda>_ _. Inr 7), pr_linux_amd64 = ''linux/amd64'', pr_digest = (\<lambda>_. ''sha256:7''), pr_layers = (\<lambda>_. Inr [1, 2]),
     pr_blob_get = (\<lambda>_ d. Inr (replicate d CHR ''x'')),
     pr_gunzip = (\<lambda>b. Inr (if length b = 1 then [TarEntry ''release-manifests/image-references'' (Inr ''[]'')] else [TarEntry ''etc/passwd'' (Inr [])]))\<rparr>"

theorem component_images_of_last_layer_witness:
  "ExtractComponentImages_payload (Some tiny_payload) (\<lambda>_. Inr [(''cli'', ''quay.io/cli@sha256:1''), (''none'', [])]) ''quay.io/ocp'' ''amd64''
     = Inr [\<lparr>cp_Name = ''cli'', cp_Image = ''quay.io/cli@sha256:1''\<rparr>]"
proof -
  let ?un = "\<lambda>_. Inr [(''cli'', ''quay.io/cli@sha256:1''), (''none'', [])]"
  let ?start = "\<lparr>pl_Base = ''quay.io/ocp'', pl_Tag = ''4.1'', pl_Digest = []\<rparr>" and ?r = "\<lparr>pl_Base = ''quay.io/ocp'', pl_Tag = [], pl_Digest = ''sha256:7''\<rparr>"
  let ?found = "layer_content (pr_blob_get tiny_payload ?r) (scanLayerForImageReferences (pr_gunzip tiny_payload) ?un)"
  have h: "pr_ref_new tiny_payload ''quay.io/ocp'' = Inr ?start" "pr_manifest_get tiny_payload ?start = Inr True"
    "platformManifest tiny_payload ?start True ''amd64'' ''quay.io/ocp'' = Inr (?r, False)" "pr_layers tiny_payload False = Inr [1, 2]"
    by (simp_all add: tiny_payload_def platformManifest_def platform_descriptor_def MultiArch_def)
  have names: "hasSuffix ''release-manifests/image-references'' ''image-references''" "\<not> hasSuffix ''etc/passwd'' ''image-references''" by code_simp+
  have f: "[1, 2] = [] @ 1 # [2 :: nat]" "?found 1 = Some [\<lparr>cp_Name = ''cli'', cp_Image = ''quay.io/cli@sha256:1''\<rparr>]" "\<forall>x \<in> set [2]. ?found x = None"
    by (simp_all add: layer_content_def scanLayerForImageReferences_def tiny_payload_def stream_images_def names)
  show ?thesis
    by (rule component_images_of_last_layer [OF h, of ?un, THEN conjunct1, THEN iffD2])
      (intro exI [of _ "[]"] exI [of _ 1] exI [of _ "[2]"] conjI f)
qed

text \<open>
  The KubeVirt disks taken from a stream are exactly those of the requested architectures, under the names of the stream, and those of all
  architectures when none or the multi-architecture payload is requested.
\<close>

theorem kubevirt_disks_exact:
  "set (collectKubeVirtRefs stream (want_arches [] arches)) =
     {disk_ref images |a images. (a, images) \<in> set stream \<and> disk_ref images \<noteq> [] \<and> (MultiArch \<in> set arches \<or> arches = [] \<or> a \<in> stream_arch ` set arches)}"
proof -
  have "x \<in> set (kubevirt_ref (want_arches [] arches) (a, images)) \<longleftrightarrow>
      x = disk_ref images \<and> disk_ref images \<noteq> [] \<and> (MultiArch \<in> set arches \<or> arches = [] \<or> a \<in> stream_arch ` set arches)" for x a images
    unfolding kubevirt_ref_alt want_arches_wanted by auto
  then have "x \<in> set (collectKubeVirtRefs stream (want_arches [] arches)) \<longleftrightarrow>
      (\<exists>a images. (a, images) \<in> set stream \<and> x = disk_ref images \<and> disk_ref images \<noteq> [] \<and>
         (MultiArch \<in> set arches \<or> arches = [] \<or> a \<in> stream_arch ` set arches))" for x
    by (simp add: collectKubeVirtRefs_def Bex_def split_paired_Ex)
  then show ?thesis by (intro set_eqI) (simp, metis)
qed

text \<open>
  Property C35. With signatures downloaded and verified by this code, a release that passes the filter of a channel which does not skip verification
  is attested: the signature server answered the URL of its digest with a message signed by a key of the keyring, not expired, whose content names
  exactly this digest.
\<close>

theorem verified_release_attested:
  assumes "rn_download_signature net = DownloadSignature request" and "rn_verify_signature net = VerifySignature pgp keyring"
    and "node \<in> set (verifyReleaseNodes net ch nodes)" and "\<not> rc_SkipSignatureVerification ch"
  shows "\<exists>body md content sig. request (signature_url (extractDigest (nd_Image node))) = Inr (200, body) \<and> body \<noteq> [] \<and>
    pg_ReadMessage pgp (take (64 * 1024) body) keyring = Inr md \<and> md_IsSigned md \<and> md_SignatureError md = None \<and> md_SignedBy md \<noteq> None \<and>
    md_Body md = Inr content \<and> md_Signature md = Some sig \<and>
    (\<forall>secs. ps_SigLifetimeSecs sig = Some secs \<longrightarrow> pg_Now pgp \<le> ps_CreationTime sig + secs * 1000000000) \<and>
    pg_manifest_digest pgp content = Inr (extractDigest (nd_Image node))"
proof -
  have "node_verified net node" using assms(3,4) by (auto simp: verifyReleaseNodes_def split: if_splits)
  then obtain data where d: "DownloadSignature request (extractDigest (nd_Image node)) = Inr data"
      and v: "verifySignatureAgainst pgp data (extractDigest (nd_Image node)) keyring = None"
    using assms(1,2) by (auto simp: node_verified_def VerifySignature_def Let_def split: sum.splits)
  obtain body where b: "request (signature_url (extractDigest (nd_Image node))) = Inr (200, body)" "body \<noteq> []" "data = take (64 * 1024) body"
    using d by (auto simp: DownloadSignature_def Let_def split: sum.splits if_splits)
  show ?thesis
    using v b unfolding verifySignatureAgainst_def b(3) by (auto split: sum.splits if_splits option.splits)
qed

text \<open>A keyring of one key, which signs every message with its own text as the content.\<close>

definition toy_pgp :: "nat openpgp" where
  "toy_pgp = \<lparr>pg_ReadMessage = (\<lambda>data keyring. Inr \<lparr>md_IsSigned = True, md_Body = Inr data, md_SignatureError = None,
       md_SignedBy = (if 1 \<in> set keyring then Some 1 else None), md_Signature = Some \<lparr>ps_CreationTime = 0, ps_SigLifetimeSecs = Some 60\<rparr>\<rparr>),
     pg_ReadArmoredKeyRing = (\<lambda>_. Inr [1]), pg_manifest_digest = Inr, pg_Now = 5\<rparr>"

definition toy_request :: "string \<Rightarrow> string + int \<times> string" where
  "toy_request url = Inr (if url = signature_url ''sha256:7'' then (200, ''sha256:7'') else (404, []))"

definition toy_net :: "(unit, unit) resolve_net" where
  "toy_net = offline\<lparr>rn_download_signature := DownloadSignature toy_request, rn_verify_signature := VerifySignature toy_pgp [1]\<rparr>"

definition toy_channel :: release_channel where
  "toy_channel = \<lparr>rc_Name = ''stable-4.1'', rc_Type = ''ocp'', rc_MinVersion = [], rc_MaxVersion = [], rc_ShortestPath = False, rc_Full = False,
     rc_SkipSignatureVerification = False\<rparr>"

theorem verified_release_attested_witness:
  "verifyReleaseNodes toy_net toy_channel [\<lparr>nd_Version = ''4.1'', nd_Image = ''q/o@sha256:7''\<rparr>, \<lparr>nd_Version = ''4.2'', nd_Image = ''q/o@sha256:8''\<rparr>]
     = [\<lparr>nd_Version = ''4.1'', nd_Image = ''q/o@sha256:7''\<rparr>] \<and>
   (\<exists>body md content. toy_request (signature_url ''sha256:7'') = Inr (200, body) \<and> pg_ReadMessage toy_pgp (take (64 * 1024) body) [1] = Inr md \<and>
      md_Body md = Inr content \<and> pg_manifest_digest toy_pgp content = Inr ''sha256:7'')"
proof -
  let ?good = "\<lparr>nd_Version = ''4.1'', nd_Image = ''q/o@sha256:7''\<rparr>" and ?bad = "\<lparr>nd_Version = ''4.2'', nd_Image = ''q/o@sha256:8''\<rparr>"
  have x: "extractDigest ''q/o@sha256:7'' = ''sha256:7''" "extractDigest ''q/o@sha256:8'' = ''sha256:8''"
    "signature_url ''sha256:8'' \<noteq> signature_url ''sha256:7''" by code_simp+
  have ns: "verifyReleaseNodes toy_net toy_channel [?good, ?bad] = [?good]"
    by (simp add: verifyReleaseNodes_def node_verified_def toy_net_def toy_channel_def x DownloadSignature_def toy_request_def VerifySignature_def
        verifySignatureAgainst_def toy_pgp_def)
  have "rn_download_signature toy_net = DownloadSignature toy_request" "rn_verify_signature toy_net = VerifySignature toy_pgp [1]"
    "?good \<in> set (verifyReleaseNodes toy_net toy_channel [?good, ?bad])" "\<not> rc_SkipSignatureVerification toy_channel"
    using ns by (simp_all add: toy_net_def toy_channel_def)
  from verified_release_attested [OF this] show ?thesis using ns unfolding release_node.simps x by blast
qed

end
