(* ===== verification/CatalogGraph.thy ===== *)
theory CatalogGraph
  imports Resources
begin

text \<open>
  Version filters and channel graphs of a file-based operator catalog (\<open>pkg/mirror/catalog/resolver.go\<close>): the head of a channel and its predecessors,
  repairing the upgrade graph after entries were dropped, and merging several heads into one. JSON property values and semantic versions are read
  by library code, whose results are the record \<open>catalog_parsers\<close>; versions are elements of a linear order.
\<close>

section \<open>Properties of bundles\<close>

record gvk =
  gv_Group :: string
  gv_Version :: string
  gv_Kind :: string

text \<open>
  \<open>cq_version_of\<close> is the \<open>version\<close> field of a JSON value, empty when the value does not parse; \<open>cq_package_required\<close> and \<open>cq_gvk\<close> are \<^const>\<open>None\<close> then.
\<close>

record 'v catalog_parsers =
  cq_version_of :: "string \<Rightarrow> string"
  cq_semver :: "string \<Rightarrow> 'v option"
  cq_package_required :: "string \<Rightarrow> string option"
  cq_gvk :: "string \<Rightarrow> gvk option"

definition gvkKey :: "gvk \<Rightarrow> string" where
  "gvkKey g = gv_Group g @ ''/'' @ gv_Version g @ ''/'' @ gv_Kind g"

definition bundle_version :: "'v catalog_parsers \<Rightarrow> fbc_bundle \<Rightarrow> string" where
  "bundle_version pc b =
     (case find (\<lambda>p. pr_Type p = ''olm.package'' \<and> cq_version_of pc (pr_Value p) \<noteq> []) (fb_Properties b) of
        Some p \<Rightarrow> cq_version_of pc (pr_Value p)
      | None \<Rightarrow> [])"

section \<open>Version filters\<close>

record 'v version_filter =
  vf_min :: "'v option"
  vf_max :: "'v option"

record 'v pkg_filter =
  kf_allowAllChannels :: bool
  kf_allowedChannels :: "(string, bool) gomap"
  kf_channelFilters :: "(string, 'v version_filter) gomap"
  kf_min :: "'v option"
  kf_max :: "'v option"

definition version_bound :: "'v catalog_parsers \<Rightarrow> string \<Rightarrow> 'v option" where
  "version_bound pc s = (if s \<noteq> [] then cq_semver pc s else None)"

definition buildPkgIncludeFilter :: "'v catalog_parsers \<Rightarrow> include_package \<Rightarrow> 'v pkg_filter" where
  "buildPkgIncludeFilter pc inc =
     \<lparr>kf_allowAllChannels = (length (ip_Channels inc) = 0),
      kf_allowedChannels = fold (\<lambda>ch. mput (ic_Name ch) True) (ip_Channels inc) [],
      kf_channelFilters = fold (\<lambda>ch. mput (ic_Name ch)
          \<lparr>vf_min = version_bound pc (ib_MinVersion (ic_Bundle ch)), vf_max = version_bound pc (ib_MaxVersion (ic_Bundle ch))\<rparr>) (ip_Channels inc) [],
      kf_min = version_bound pc (ib_MinVersion (ip_Bundle inc)), kf_max = version_bound pc (ib_MaxVersion (ip_Bundle inc))\<rparr>"

definition effectiveVersionFilter :: "'v pkg_filter \<Rightarrow> string \<Rightarrow> 'v version_filter" where
  "effectiveVersionFilter f chName =
     (let cf = mget (kf_channelFilters f) chName
      in \<lparr>vf_min = (case cf of Some c \<Rightarrow> (case vf_min c of Some v \<Rightarrow> Some v | None \<Rightarrow> kf_min f) | None \<Rightarrow> kf_min f),
          vf_max = (case cf of Some c \<Rightarrow> (case vf_max c of Some v \<Rightarrow> Some v | None \<Rightarrow> kf_max f) | None \<Rightarrow> kf_max f)\<rparr>)"

definition bundleMatchesVersionFilter :: "('v :: linorder) catalog_parsers \<Rightarrow> fbc_bundle \<Rightarrow> 'v version_filter \<Rightarrow> bool" where
  "bundleMatchesVersionFilter pc b vf =
     (if vf_min vf = None \<and> vf_max vf = None then True
      else let ver = bundle_version pc b
           in if ver = [] then True
              else (case cq_semver pc ver of
                      None \<Rightarrow> True
                    | Some sv \<Rightarrow>
                        if (case vf_min vf of Some lo \<Rightarrow> sv < lo | None \<Rightarrow> False) then False
                        else if (case vf_max vf of Some hi \<Rightarrow> sv > hi | None \<Rightarrow> False) then False
                        else True))"

section \<open>Heads of a channel\<close>

definition parseBundleSemver :: "'v catalog_parsers \<Rightarrow> (string, fbc_bundle) gomap \<Rightarrow> string \<Rightarrow> 'v option" where
  "parseBundleSemver pc bundlesByName name =
     (case mget bundlesByName name of
        None \<Rightarrow> None
      | Some b \<Rightarrow> (let v = bundle_version pc b in if v = [] then None else cq_semver pc v))"

definition better_bundle ::
  "('v :: linorder) catalog_parsers \<Rightarrow> (string, fbc_bundle) gomap \<Rightarrow> string \<Rightarrow> string \<times> 'v option \<Rightarrow> string \<times> 'v option" where
  "better_bundle pc bundlesByName c best =
     (case (parseBundleSemver pc bundlesByName c, snd best) of
        (Some sv, Some bestSV) \<Rightarrow> if sv > bestSV then (c, Some sv) else best
      | (Some sv, None) \<Rightarrow> (c, Some sv)
      | (None, Some _) \<Rightarrow> best
      | (None, None) \<Rightarrow> if c < fst best then (c, None) else best)"

text \<open>Callers pass at least two candidates.\<close>

definition highestVersionBundle :: "('v :: linorder) catalog_parsers \<Rightarrow> string list \<Rightarrow> (string, fbc_bundle) gomap \<Rightarrow> string" where
  "highestVersionBundle pc candidates bundlesByName =
     (let best = hd candidates
      in fst (fold (better_bundle pc bundlesByName) (tl candidates) (best, parseBundleSemver pc bundlesByName best)))"

definition superseded :: "fbc_entry list \<Rightarrow> (string, bool) gomap" where
  "superseded entries =
     fold (\<lambda>e m. fold (\<lambda>s. mput s True) (en_Skips e) (if en_Replaces e \<noteq> [] then mput (en_Replaces e) True m else m)) entries []"

definition channel_heads :: "fbc_entry list \<Rightarrow> string list" where
  "channel_heads entries = map en_Name (filter (\<lambda>e. \<not> mget_bool (superseded entries) (en_Name e)) entries)"

definition entryByName :: "fbc_entry list \<Rightarrow> (string, fbc_entry) gomap" where
  "entryByName entries = fold (\<lambda>e. mput (en_Name e) e) entries []"

fun replaces_walk :: "(string, fbc_entry) gomap \<Rightarrow> nat \<Rightarrow> string \<Rightarrow> (string, bool) gomap \<Rightarrow> (string, bool) gomap" where
  "replaces_walk byName 0 current incl = incl"
| "replaces_walk byName (Suc i) current incl =
     (case mget byName current of
        None \<Rightarrow> incl
      | Some entry \<Rightarrow>
          if en_Replaces entry = [] then incl
          else replaces_walk byName i (en_Replaces entry) (mput (en_Replaces entry) True incl))"

definition selected_heads :: "('v :: linorder) catalog_parsers \<Rightarrow> fbc_entry list \<Rightarrow> (string, fbc_bundle) gomap \<Rightarrow> string list" where
  "selected_heads pc entries bundlesByName =
     (let heads = channel_heads entries;
          heads1 = (if length heads = 0 then [en_Name (last entries)] else heads)
      in if length heads1 > 1 then [highestVersionBundle pc heads1 bundlesByName] else heads1)"

definition channelHeadPlusN :: "('v :: linorder) catalog_parsers \<Rightarrow> fbc_channel \<Rightarrow> int \<Rightarrow> (string, fbc_bundle) gomap \<Rightarrow> string list" where
  "channelHeadPlusN pc ch previous bundlesByName =
     (if length (fc_Entries ch) = 0 then []
      else let heads = selected_heads pc (fc_Entries ch) bundlesByName
           in if previous \<le> 0 then heads
              else let incl = fold (\<lambda>head m. replaces_walk (entryByName (fc_Entries ch)) (nat previous) head (mput head True m)) heads []
                   in map en_Name (filter (\<lambda>e. mget_bool incl (en_Name e)) (fc_Entries ch)))"

section \<open>Repairing the upgrade graph\<close>

text \<open>
  The walk from a dropped entry to its nearest kept ancestor: the new \<open>Replaces\<close> and the skips. The set \<open>skipsSet\<close> of the code always holds the
  elements of the skips.
\<close>

function repair_walk ::
  "(string, fbc_entry) gomap \<Rightarrow> (string, bool) gomap \<Rightarrow> string list \<Rightarrow> string \<Rightarrow> string list \<Rightarrow> string \<times> string list" where
  "repair_walk byName kept visited cur skips =
     (if cur = [] \<or> cur \<in> set visited then ([], skips)
      else if mget_bool kept cur then (cur, skips)
      else let skips' = (if cur \<in> set skips then skips else skips @ [cur])
           in case mget byName cur of
                None \<Rightarrow> ([], skips')
              | Some anc \<Rightarrow> repair_walk byName kept (cur # visited) (en_Replaces anc) skips')"
  by pat_completeness auto
termination
proof (relation "measure (\<lambda>(byName, kept, visited, cur, skips). card (set (mkeys byName) - set visited))", goal_cases)
  case (2 byName kept visited cur skips skips' anc)
  then have "cur \<in> set (mkeys byName) - set visited" using mget_None_iff [of byName cur] by auto
  then have "card (set (mkeys byName) - set visited - {cur}) < card (set (mkeys byName) - set visited)"
    by (intro card_Diff1_less) simp_all
  moreover have "set (mkeys byName) - set (cur # visited) = set (mkeys byName) - set visited - {cur}" by auto
  ultimately show ?case by (simp only: in_measure prod.case)
qed simp

declare repair_walk.simps [simp del]

definition repair_entry :: "(string, fbc_entry) gomap \<Rightarrow> (string, bool) gomap \<Rightarrow> fbc_entry \<Rightarrow> fbc_entry" where
  "repair_entry byName kept e =
     (if en_Replaces e \<noteq> [] \<and> \<not> mget_bool kept (en_Replaces e)
      then (case repair_walk byName kept [en_Name e] (en_Replaces e) (en_Skips e) of
              (newReplaces, skips) \<Rightarrow> e\<lparr>en_Skips := skips, en_Replaces := newReplaces\<rparr>)
      else e)"

definition repairChannelGraph :: "fbc_entry list \<Rightarrow> (string, bool) gomap \<Rightarrow> fbc_entry list" where
  "repairChannelGraph original kept =
     map (repair_entry (entryByName original) kept) (filter (\<lambda>e. mget_bool kept (en_Name e)) original)"

definition mergeChannelHeads :: "('v :: linorder) catalog_parsers \<Rightarrow> fbc_entry list \<Rightarrow> (string, fbc_bundle) gomap \<Rightarrow> fbc_entry list" where
  "mergeChannelHeads pc entries bundlesByName =
     (let heads = channel_heads entries
      in if length heads \<le> 1 then entries
         else let top = highestVersionBundle pc heads bundlesByName
              in map (\<lambda>e. if en_Name e \<noteq> top then e else e\<lparr>en_Skips := en_Skips e @ filter (\<lambda>h. h \<noteq> top) heads\<rparr>) entries)"

section \<open>Facts about heads\<close>

abbreviation names :: "fbc_entry list \<Rightarrow> string list" where
  "names entries \<equiv> map en_Name entries"

text \<open>An entry supersedes what it replaces and what it skips.\<close>

definition supersedes :: "fbc_entry \<Rightarrow> string \<Rightarrow> bool" where
  "supersedes e n \<longleftrightarrow> n = en_Replaces e \<and> n \<noteq> [] \<or> n \<in> set (en_Skips e)"

lemma fold_put_True: "mget_bool (fold (\<lambda>x. mput (f x) True) xs m) k \<longleftrightarrow> k \<in> f ` set xs \<or> mget_bool m k"
  by (induction xs arbitrary: m) auto

lemma superseded_iff: "mget_bool (superseded entries) n \<longleftrightarrow> (\<exists>e \<in> set entries. supersedes e n)"
proof -
  have "mget_bool (fold (\<lambda>e m. fold (\<lambda>s. mput s True) (en_Skips e) (if en_Replaces e \<noteq> [] then mput (en_Replaces e) True m else m)) es m) n \<longleftrightarrow>
      (\<exists>e \<in> set es. supersedes e n) \<or> mget_bool m n" for es m
    by (induction es arbitrary: m) (auto simp: supersedes_def fold_put_True [where f = "\<lambda>x. x"])
  then show ?thesis by (simp add: superseded_def)
qed

lemma channel_heads_eq: "channel_heads entries = filter (\<lambda>n. \<not> (\<exists>e \<in> set entries. supersedes e n)) (names entries)"
  by (simp add: channel_heads_def superseded_iff filter_map comp_def)

lemma highest_in: "candidates \<noteq> [] \<Longrightarrow> highestVersionBundle pc candidates bn \<in> set candidates"
proof -
  have "fst (fold (better_bundle pc bn) cs b) \<in> insert (fst b) (set cs)" for cs b
  proof (induction cs arbitrary: b)
    case (Cons c cs)
    have "fst (better_bundle pc bn c b) \<in> {fst b, c}" by (simp add: better_bundle_def split: option.splits)
    then show ?case using Cons [of "better_bundle pc bn c b"] by auto
  qed simp
  then show "candidates \<noteq> [] \<Longrightarrow> ?thesis" unfolding highestVersionBundle_def Let_def by (cases candidates) force+
qed

lemma highest_max:
  fixes pc :: "('v :: linorder) catalog_parsers"
  assumes "c \<in> set candidates" and "parseBundleSemver pc bn c = Some v"
  shows "\<exists>w. parseBundleSemver pc bn (highestVersionBundle pc candidates bn) = Some w \<and> v \<le> w"
proof -
  let ?ok = "\<lambda>b :: string \<times> 'v option. parseBundleSemver pc bn (fst b) = snd b"
  let ?above = "\<lambda>b :: string \<times> 'v option. \<exists>w. snd b = Some w \<and> v \<le> w"
  have step: "?ok (better_bundle pc bn x b) \<and> (?above b \<or> x = c \<longrightarrow> ?above (better_bundle pc bn x b))" if "?ok b" for x b
    using that assms(2) by (auto simp: better_bundle_def split: option.splits intro: order_trans)
  have "?ok (fold (better_bundle pc bn) cs b) \<and> (?above b \<or> c \<in> set cs \<longrightarrow> ?above (fold (better_bundle pc bn) cs b))" if "?ok b" for cs b
    using that
  proof (induction cs arbitrary: b)
    case (Cons x cs)
    show ?case using Cons.IH [of "better_bundle pc bn x b"] step [OF Cons.prems, of x] by auto
  qed simp
  from this [of "(hd candidates, parseBundleSemver pc bn (hd candidates))" "tl candidates"] show ?thesis
    using assms unfolding highestVersionBundle_def Let_def by (cases candidates) auto
qed

section \<open>Merging heads\<close>

lemma merge_names: "names (mergeChannelHeads pc entries bn) = names entries"
  by (simp add: mergeChannelHeads_def Let_def comp_def)

lemma merge_heads:
  assumes "distinct (names entries)"
  shows "channel_heads (mergeChannelHeads pc entries bn) =
    (if length (channel_heads entries) \<le> 1 then channel_heads entries else [highestVersionBundle pc (channel_heads entries) bn])"
proof (cases "length (channel_heads entries) \<le> 1")
  case False
  let ?heads = "channel_heads entries" and ?out = "mergeChannelHeads pc entries bn"
  let ?top = "highestVersionBundle pc ?heads bn"
  have top: "?top \<in> set ?heads" using False highest_in [of ?heads pc bn] by (cases ?heads) auto
  have out: "?out = map (\<lambda>e. if en_Name e \<noteq> ?top then e else e\<lparr>en_Skips := en_Skips e @ filter (\<lambda>h. h \<noteq> ?top) ?heads\<rparr>) entries"
    using False by (simp add: mergeChannelHeads_def Let_def)
  obtain t where t: "t \<in> set entries" "en_Name t = ?top" using top by (auto simp: channel_heads_eq)
  have sup: "(\<exists>e \<in> set ?out. supersedes e n) \<longleftrightarrow> (\<exists>e \<in> set entries. supersedes e n) \<or> n \<in> set ?heads \<and> n \<noteq> ?top" for n
  proof -
    have "supersedes (if en_Name e \<noteq> ?top then e else e\<lparr>en_Skips := en_Skips e @ filter (\<lambda>h. h \<noteq> ?top) ?heads\<rparr>) n \<longleftrightarrow>
        supersedes e n \<or> en_Name e = ?top \<and> n \<in> set ?heads \<and> n \<noteq> ?top" for e
      by (auto simp: supersedes_def)
    then show ?thesis unfolding out set_map bex_simps using t by blast
  qed
  have "channel_heads ?out = filter (\<lambda>n. n = ?top) (names entries)"
    unfolding channel_heads_eq [of ?out] merge_names sup using top by (intro filter_cong refl) (auto simp: channel_heads_eq)
  also have "\<dots> = [?top]"
  proof -
    have "filter (\<lambda>n. n = x) xs = [x]" if "distinct xs" "x \<in> set xs" for x and xs :: "string list"
      using that by (induction xs) (auto simp: filter_empty_conv)
    then show ?thesis using assms t by force
  qed
  finally show ?thesis using False by simp
qed (simp add: mergeChannelHeads_def Let_def)

section \<open>Repairing the graph\<close>

text \<open>One step of the original replaces chain through an entry that was dropped.\<close>

definition dropped_step :: "(string, fbc_entry) gomap \<Rightarrow> (string, bool) gomap \<Rightarrow> (string \<times> string) set" where
  "dropped_step byName kept = {(a, b). a \<noteq> [] \<and> \<not> mget_bool kept a \<and> b \<noteq> [] \<and> (\<exists>e. mget byName a = Some e \<and> en_Replaces e = b)}"

text \<open>A walk stops at once or goes one step up the chain.\<close>

lemma repair_walk_step:
  assumes "cur \<noteq> []" and "cur \<notin> set visited" and "\<not> mget_bool kept cur" and "mget byName cur = Some anc"
  shows "repair_walk byName kept visited cur skips =
    repair_walk byName kept (cur # visited) (en_Replaces anc) (if cur \<in> set skips then skips else skips @ [cur])"
  using assms by (simp add: repair_walk.simps [of byName kept visited cur] Let_def)

lemma repair_walk_induct [case_names stop step]:
  fixes byName :: "(string, fbc_entry) gomap"
  assumes "\<And>visited cur skips. cur = [] \<or> cur \<in> set visited \<or> mget_bool kept cur \<or> mget byName cur = None \<Longrightarrow> P visited cur skips"
    and "\<And>visited cur skips anc. cur \<noteq> [] \<Longrightarrow> cur \<notin> set visited \<Longrightarrow> \<not> mget_bool kept cur \<Longrightarrow> mget byName cur = Some anc \<Longrightarrow>
      P (cur # visited) (en_Replaces anc) (if cur \<in> set skips then skips else skips @ [cur]) \<Longrightarrow> P visited cur skips"
  shows "P visited cur skips"
  using assms
proof (induction byName kept visited cur skips rule: repair_walk.induct)
  case (1 byName kept visited cur skips)
  show ?case
  proof (cases "cur = [] \<or> cur \<in> set visited \<or> mget_bool kept cur \<or> mget byName cur = None")
    case False
    then obtain anc where a: "mget byName cur = Some anc" by blast
    have "P (cur # visited) (en_Replaces anc) (if cur \<in> set skips then skips else skips @ [cur])"
      by (rule 1(1) [OF _ _ refl a]) (use False 1(2,3) in blast)+
    then show ?thesis using False a 1(3) by blast
  qed (rule 1(2))
qed

lemma repair_walk_skips:
  "set skips \<subseteq> set (snd (repair_walk byName kept visited cur skips)) \<and>
   (\<forall>x \<in> set (snd (repair_walk byName kept visited cur skips)). x \<in> set skips \<or> \<not> mget_bool kept x)"
proof (induction visited cur skips rule: repair_walk_induct [where kept = kept and byName = byName])
  case (stop visited cur skips)
  then show ?case by (auto simp: repair_walk.simps [of byName kept visited cur] Let_def)
next
  case (step visited cur skips anc)
  then show ?case by (auto simp: repair_walk_step split: if_splits)
qed

lemma repair_walk_target:
  "case fst (repair_walk byName kept visited cur skips) of [] \<Rightarrow> True
   | c # cs \<Rightarrow> mget_bool kept (c # cs) \<and> (c # cs = cur \<or> (\<exists>a e. mget byName a = Some e \<and> en_Replaces e = c # cs))"
proof (induction visited cur skips rule: repair_walk_induct [where kept = kept and byName = byName])
  case (stop visited cur skips)
  then show ?case by (auto simp: repair_walk.simps [of byName kept visited cur] Let_def split: list.splits)
next
  case (step visited cur skips anc)
  then show ?case by (fastforce simp: repair_walk_step split: list.splits)
qed

text \<open>Everything on the chain of dropped entries is skipped, and the kept entry at its end is replaced.\<close>

lemma repair_walk_covers:
  assumes "e0 \<in> set visited" and "mget_bool kept e0"
    and "\<And>v. v \<in> set visited \<Longrightarrow> v = e0 \<or> \<not> mget_bool kept v \<and> v \<in> set skips \<and> (\<forall>w. (v, w) \<in> dropped_step byName kept \<longrightarrow> w \<in> set visited \<or> w = cur)"
    and "(cur, x) \<in> (dropped_step byName kept)\<^sup>*" and "cur \<noteq> []" and "x \<noteq> e0"
  shows "if mget_bool kept x then fst (repair_walk byName kept visited cur skips) = x
    else x \<in> set (snd (repair_walk byName kept visited cur skips))"
  using assms
proof (induction byName kept visited cur skips rule: repair_walk.induct)
  case (1 byName kept visited cur skips)
  let ?D = "dropped_step byName kept"
  show ?case
  proof (cases "cur \<in> set visited")
    case True
    have stay: "w \<in> set visited" if "(cur, w) \<in> ?D\<^sup>*" for w
      using that
    proof (induction rule: rtrancl_induct)
      case (step v w)
      have "v \<noteq> e0" using step(2) 1(3) by (auto simp: dropped_step_def)
      then show ?case using 1(4) [OF step(3)] step(2) True by auto
    qed (rule True)
    have "x \<in> set visited" by (rule stay [OF 1(5)])
    then show ?thesis using 1(4) [of x] 1(7) True by (simp add: repair_walk.simps [of byName kept visited cur])
  next
    case new: False
    show ?thesis
    proof (cases "mget_bool kept cur")
      case True
      have "x = cur" using 1(5) True by (induction rule: converse_rtrancl_induct) (auto simp: dropped_step_def)
      then show ?thesis using True new 1(6) by (simp add: repair_walk.simps [of byName kept visited cur])
    next
      case drop: False
      let ?s = "if cur \<in> set skips then skips else skips @ [cur]"
      show ?thesis
      proof (cases "mget byName cur")
        case None
        have "x = cur" using 1(5) None by (induction rule: converse_rtrancl_induct) (auto simp: dropped_step_def)
        then show ?thesis using drop new None 1(6) by (simp add: repair_walk.simps [of byName kept visited cur] Let_def)
      next
        case (Some anc)
        have eq: "repair_walk byName kept visited cur skips = repair_walk byName kept (cur # visited) (en_Replaces anc) ?s"
          using 1(6) drop new Some by (simp add: repair_walk.simps [of byName kept visited cur] Let_def)
        show ?thesis
        proof (cases "x = cur")
          case True
          have "cur \<in> set ?s" by simp
          then show ?thesis using drop True repair_walk_skips [of ?s byName kept "cur # visited" "en_Replaces anc"] unfolding eq by auto
        next
          case False
          then obtain w where w: "(cur, w) \<in> ?D" "(w, x) \<in> ?D\<^sup>*" using 1(5) by (metis converse_rtranclE)
          then have wr: "w = en_Replaces anc" "w \<noteq> []" using Some by (auto simp: dropped_step_def)
          show ?thesis unfolding eq
          proof (rule 1(1) [OF _ _ refl Some])
            show "\<not> (cur = [] \<or> cur \<in> set visited)" "\<not> mget_bool kept cur" "e0 \<in> set (cur # visited)" "mget_bool kept e0"
              using 1(2,3,6) new drop by simp_all
            show "(en_Replaces anc, x) \<in> ?D\<^sup>*" "en_Replaces anc \<noteq> []" "x \<noteq> e0" using w wr 1(7) by simp_all
            fix v
            assume v: "v \<in> set (cur # visited)"
            show "v = e0 \<or> \<not> mget_bool kept v \<and> v \<in> set ?s \<and> (\<forall>w. (v, w) \<in> ?D \<longrightarrow> w \<in> set (cur # visited) \<or> w = en_Replaces anc)"
              using v 1(4) [of v] drop Some by (cases "v = cur") (auto simp: dropped_step_def)
          qed
        qed
      qed
    qed
  qed
qed

lemma entryByName_snoc: "mget (entryByName (es @ [e])) n = (if n = en_Name e then Some e else mget (entryByName es) n)"
  by (simp add: entryByName_def)

lemma entryByName_Some: "mget (entryByName es) n = Some e \<Longrightarrow> e \<in> set es \<and> en_Name e = n"
  by (induction es rule: rev_induct) (auto simp: entryByName_snoc entryByName_def [of "[]"] split: if_splits)

lemma entryByName_None: "mget (entryByName es) n = None \<longleftrightarrow> n \<notin> set (names es)"
  by (induction es rule: rev_induct) (auto simp: entryByName_snoc entryByName_def [of "[]"])

lemma entryByName_distinct: "distinct (names es) \<Longrightarrow> e \<in> set es \<Longrightarrow> mget (entryByName es) (en_Name e) = Some e"
proof -
  assume d: "distinct (names es)" and e: "e \<in> set es"
  have "mget (entryByName es) (en_Name e) \<noteq> None" using e by (auto simp: entryByName_None)
  then obtain f where f: "mget (entryByName es) (en_Name e) = Some f" by blast
  then have "f = e" using entryByName_Some [OF f] d e by (metis distinct_map inj_onD)
  then show ?thesis using f by simp
qed

lemma repair_names: "names (repairChannelGraph original kept) = filter (mget_bool kept) (names original)"
proof -
  have "en_Name (repair_entry byName kept e) = en_Name e" for byName e by (simp add: repair_entry_def split: prod.splits)
  then show ?thesis by (simp add: repairChannelGraph_def filter_map comp_def)
qed

lemma repair_entry_facts:
  fixes original :: "fbc_entry list" and kept :: "(string, bool) gomap" and e :: fbc_entry
  assumes "mget_bool kept (en_Name e)"
  defines "e' \<equiv> repair_entry (entryByName original) kept e"
  shows repair_entry_name: "en_Name e' = en_Name e" and repair_entry_skips: "set (en_Skips e) \<subseteq> set (en_Skips e')"
    and repair_entry_new_skips: "x \<in> set (en_Skips e') \<Longrightarrow> x \<in> set (en_Skips e) \<or> \<not> mget_bool kept x"
    and repair_entry_kept: "en_Replaces e' = [] \<or> mget_bool kept (en_Replaces e')"
    and repair_entry_source: "e \<in> set original \<Longrightarrow> en_Replaces e' = [] \<or> (\<exists>f \<in> set original. en_Replaces f = en_Replaces e')"
    and repair_entry_unchanged: "mget_bool kept (en_Replaces e) \<Longrightarrow> e' = e"
    and repair_entry_covers: "(en_Replaces e, x) \<in> (dropped_step (entryByName original) kept)\<^sup>* \<Longrightarrow> en_Replaces e \<noteq> [] \<Longrightarrow> x \<noteq> [] \<Longrightarrow> x \<noteq> en_Name e \<Longrightarrow> supersedes e' x"
proof -
  let ?w = "repair_walk (entryByName original) kept [en_Name e] (en_Replaces e) (en_Skips e)"
  show "en_Name e' = en_Name e" "mget_bool kept (en_Replaces e) \<Longrightarrow> e' = e" by (auto simp: e'_def repair_entry_def split: prod.splits)
  show "set (en_Skips e) \<subseteq> set (en_Skips e')" "x \<in> set (en_Skips e') \<Longrightarrow> x \<in> set (en_Skips e) \<or> \<not> mget_bool kept x"
    using repair_walk_skips [where skips = "en_Skips e" and byName = "entryByName original" and kept = kept and visited = "[en_Name e]" and cur = "en_Replaces e"]
    by (auto simp: e'_def repair_entry_def split: prod.splits if_splits)
  have t: "en_Replaces e' = en_Replaces e \<and> (en_Replaces e = [] \<or> mget_bool kept (en_Replaces e)) \<or> en_Replaces e' = fst ?w"
    by (auto simp: e'_def repair_entry_def split: prod.splits)
  have w: "fst ?w = [] \<or> mget_bool kept (fst ?w) \<and> (fst ?w = en_Replaces e \<or> (\<exists>a f. mget (entryByName original) a = Some f \<and> en_Replaces f = fst ?w))"
    using repair_walk_target [where skips = "en_Skips e" and byName = "entryByName original" and kept = kept and visited = "[en_Name e]" and cur = "en_Replaces e"] by (cases "fst ?w") auto
  show "en_Replaces e' = [] \<or> mget_bool kept (en_Replaces e')" using t w by auto
  show "e \<in> set original \<Longrightarrow> en_Replaces e' = [] \<or> (\<exists>f \<in> set original. en_Replaces f = en_Replaces e')" using t w entryByName_Some by metis
  assume x: "(en_Replaces e, x) \<in> (dropped_step (entryByName original) kept)\<^sup>*" "en_Replaces e \<noteq> []" "x \<noteq> []" "x \<noteq> en_Name e"
  show "supersedes e' x"
  proof (cases "mget_bool kept (en_Replaces e)")
    case True
    have "x = en_Replaces e" using x(1) True by (induction rule: converse_rtrancl_induct) (auto simp: dropped_step_def)
    then show ?thesis using True x(2) by (simp add: e'_def repair_entry_def supersedes_def)
  next
    case False
    have "if mget_bool kept x then fst ?w = x else x \<in> set (snd ?w)"
      by (rule repair_walk_covers [OF _ assms(1) _ x(1,2,4)]) simp_all
    then show ?thesis using False x(2,3) by (auto simp: e'_def repair_entry_def supersedes_def split: prod.splits if_splits)
  qed
qed

text \<open>
  Trimming a channel keeps exactly the selected entries, in their order. A kept entry replaces nothing or another kept entry, keeps
  its skips, and supersedes every version on the original replaces chain down to and including the next kept one: a cluster on a
  dropped version can still upgrade.
\<close>

theorem repair_keeps_upgrades:
  assumes "e \<in> set original" and "mget_bool kept (en_Name e)"
  shows "names (repairChannelGraph original kept) = filter (mget_bool kept) (names original) \<and>
    (\<exists>e' \<in> set (repairChannelGraph original kept). en_Name e' = en_Name e \<and> set (en_Skips e) \<subseteq> set (en_Skips e') \<and>
       (en_Replaces e' = [] \<or> en_Replaces e' \<in> set (names (repairChannelGraph original kept)) \<or> en_Replaces e' \<notin> set (names original)) \<and>
       (\<forall>x. (en_Replaces e, x) \<in> (dropped_step (entryByName original) kept)\<^sup>* \<and> en_Replaces e \<noteq> [] \<and> x \<noteq> [] \<and> x \<noteq> en_Name e \<longrightarrow> supersedes e' x))"
proof (intro conjI repair_names bexI [of _ "repair_entry (entryByName original) kept e"])
  let ?e = "repair_entry (entryByName original) kept e"
  show "?e \<in> set (repairChannelGraph original kept)" using assms by (simp add: repairChannelGraph_def)
  show "en_Name ?e = en_Name e" "set (en_Skips e) \<subseteq> set (en_Skips ?e)" by (rule repair_entry_name [OF assms(2)], rule repair_entry_skips [OF assms(2)])
  show "en_Replaces ?e = [] \<or> en_Replaces ?e \<in> set (names (repairChannelGraph original kept)) \<or> en_Replaces ?e \<notin> set (names original)"
    using repair_entry_kept [OF assms(2), of original] unfolding repair_names by auto
  show "\<forall>x. (en_Replaces e, x) \<in> (dropped_step (entryByName original) kept)\<^sup>* \<and> en_Replaces e \<noteq> [] \<and> x \<noteq> [] \<and> x \<noteq> en_Name e \<longrightarrow> supersedes ?e x"
    using repair_entry_covers [OF assms(2)] by blast
qed

definition chain_entry :: "string \<Rightarrow> string \<Rightarrow> string list \<Rightarrow> fbc_entry" where
  "chain_entry n r sk = \<lparr>en_Name = n, en_Replaces = r, en_Skips = sk, en_SkipRange = []\<rparr>"

theorem repair_keeps_upgrades_witness:
  "\<exists>e' \<in> set (repairChannelGraph [chain_entry ''v3'' ''v2'' [], chain_entry ''v2'' ''v1'' [], chain_entry ''v1'' [] []] [(''v3'', True), (''v1'', True)]).
     en_Name e' = ''v3'' \<and> supersedes e' ''v2'' \<and> supersedes e' ''v1''"
proof -
  let ?es = "[chain_entry ''v3'' ''v2'' [], chain_entry ''v2'' ''v1'' [], chain_entry ''v1'' [] []]" and ?kept = "[(''v3'', True), (''v1'', True)]"
  have h: "chain_entry ''v3'' ''v2'' [] \<in> set ?es" "mget_bool ?kept (en_Name (chain_entry ''v3'' ''v2'' []))" by (simp_all add: chain_entry_def)
  have "(''v2'', ''v1'') \<in> dropped_step (entryByName ?es) ?kept"
    by (simp add: dropped_step_def entryByName_def chain_entry_def)
  then show ?thesis
    using repair_keeps_upgrades [OF h] by (auto simp: chain_entry_def)
qed

section \<open>The selected heads\<close>

lemma selected_heads_single: "\<exists>h. selected_heads pc entries bn = [h]"
  by (cases "channel_heads entries"; cases "tl (channel_heads entries)") (auto simp: selected_heads_def Let_def)

lemma selected_heads_in:
  assumes "selected_heads pc entries bn = [h]" and "entries \<noteq> []"
  shows "h \<in> set (names entries) \<and> (channel_heads entries \<noteq> [] \<longrightarrow> h \<in> set (channel_heads entries))"
proof -
  have "channel_heads entries \<noteq> [] \<longrightarrow> h \<in> set (channel_heads entries)"
    using assms(1) highest_in [of "channel_heads entries" pc bn] by (auto simp: selected_heads_def Let_def split: if_splits)
  moreover have "channel_heads entries = [] \<longrightarrow> h = en_Name (last entries)" using assms(1) by (auto simp: selected_heads_def Let_def)
  ultimately show ?thesis using assms(2) by (auto simp: channel_heads_eq)
qed

fun replaces_chain :: "(string, fbc_entry) gomap \<Rightarrow> nat \<Rightarrow> string \<Rightarrow> string list" where
  "replaces_chain byName 0 cur = []"
| "replaces_chain byName (Suc i) cur =
     (case mget byName cur of
        None \<Rightarrow> []
      | Some e \<Rightarrow> if en_Replaces e = [] then [] else en_Replaces e # replaces_chain byName i (en_Replaces e))"

lemma replaces_walk_chain: "mget_bool (replaces_walk byName i cur m) x \<longleftrightarrow> x \<in> set (replaces_chain byName i cur) \<or> mget_bool m x"
  by (induction i arbitrary: cur m) (auto split: option.splits)

lemma replaces_chain_length: "length (replaces_chain byName i cur) \<le> i"
  by (induction i arbitrary: cur) (auto split: option.splits)

lemma replaces_chain_pred:
  "x \<in> set (replaces_chain byName i cur) \<Longrightarrow>
     \<exists>a e. (a = cur \<or> a \<in> set (replaces_chain byName i cur)) \<and> mget byName a = Some e \<and> en_Replaces e = x \<and> x \<noteq> []"
proof (induction i arbitrary: cur)
  case (Suc i)
  then obtain e where e: "mget byName cur = Some e" "en_Replaces e \<noteq> []" "x = en_Replaces e \<or> x \<in> set (replaces_chain byName i (en_Replaces e))"
    by (cases "mget byName cur") (auto split: if_splits)
  show ?case
  proof (cases "x = en_Replaces e")
    case False
    then have "x \<in> set (replaces_chain byName i (en_Replaces e))" using e(3) by simp
    from Suc.IH [OF this] show ?thesis using e by auto
  qed (use e in auto)
qed simp

text \<open>The selection is the head with at most \<open>previous\<close> entries of its replaces chain.\<close>

lemma channelHeadPlusN_set:
  assumes "fc_Entries ch \<noteq> []" and "selected_heads pc (fc_Entries ch) bn = [h]"
  shows "set (channelHeadPlusN pc ch previous bn) =
    insert h (set (replaces_chain (entryByName (fc_Entries ch)) (nat previous) h) \<inter> set (names (fc_Entries ch)))"
  using selected_heads_in [OF assms(2,1)] assms
  by (auto simp: channelHeadPlusN_def Let_def replaces_walk_chain)

lemma channelHeadPlusN_distinct:
  assumes "distinct (names (fc_Entries ch))"
  shows "distinct (channelHeadPlusN pc ch previous bn)"
proof -
  obtain h where "selected_heads pc (fc_Entries ch) bn = [h]" using selected_heads_single by blast
  then show ?thesis using assms by (simp add: channelHeadPlusN_def Let_def distinct_map distinct_filter inj_on_def)
qed

lemma kept_chain_superseded:
  assumes "distinct (names es)" and kept: "\<And>n. mget_bool kept n \<longleftrightarrow> n = h \<or> n \<in> set (replaces_chain (entryByName es) i h) \<and> n \<in> set (names es)"
    and "x \<in> set (replaces_chain (entryByName es) i h)" and "x \<in> set (names es)"
  shows "\<exists>e \<in> set (repairChannelGraph es kept). supersedes e x"
proof -
  obtain a e where a: "a = h \<or> a \<in> set (replaces_chain (entryByName es) i h)" "mget (entryByName es) a = Some e" "en_Replaces e = x" "x \<noteq> []"
    using replaces_chain_pred [OF assms(3)] by blast
  have e: "e \<in> set es" "en_Name e = a" using entryByName_Some [OF a(2)] by simp_all
  then have ka: "mget_bool kept (en_Name e)" using a(1) by (auto simp: kept)
  moreover have "mget_bool kept (en_Replaces e)" using assms(3,4) a(3) by (simp add: kept)
  ultimately have "repair_entry (entryByName es) kept e = e" by (intro repair_entry_unchanged)
  then have "e \<in> set (repairChannelGraph es kept)" using e(1) ka by (force simp: repairChannelGraph_def)
  then show ?thesis using a(3,4) by (auto simp: supersedes_def)
qed

text \<open>
  Selecting the head of a channel with up to \<open>previous\<close> predecessors and repairing the graph leaves at most that many entries and
  a channel with exactly one head, the selected one, provided that the channel had a head at all; otherwise it has at most one.
\<close>

lemma heads_only_single_head:
  assumes "distinct (names (fc_Entries ch))" and "fc_Entries ch \<noteq> []"
    and "\<And>n. mget_bool kept n \<longleftrightarrow> n \<in> set (channelHeadPlusN pc ch previous bn)"
  shows "\<exists>h. selected_heads pc (fc_Entries ch) bn = [h] \<and> h \<in> set (channelHeadPlusN pc ch previous bn) \<and>
    length (channelHeadPlusN pc ch previous bn) \<le> Suc (nat previous) \<and>
    set (channel_heads (repairChannelGraph (fc_Entries ch) kept)) \<subseteq> {h} \<and>
    (channel_heads (fc_Entries ch) \<noteq> [] \<longrightarrow> channel_heads (repairChannelGraph (fc_Entries ch) kept) = [h])"
proof -
  let ?es = "fc_Entries ch" and ?sel = "channelHeadPlusN pc ch previous bn"
  let ?out = "repairChannelGraph ?es kept"
  obtain h where h: "selected_heads pc ?es bn = [h]" using selected_heads_single by blast
  let ?chain = "replaces_chain (entryByName ?es) (nat previous) h"
  note sel = channelHeadPlusN_set [OF assms(2) h, of previous]
  have kept: "mget_bool kept n \<longleftrightarrow> n = h \<or> n \<in> set ?chain \<and> n \<in> set (names ?es)" for n using assms(3) sel by auto
  have "card (set ?sel) \<le> card (insert h (set ?chain))" by (rule card_mono) (auto simp: sel)
  also have "\<dots> \<le> Suc (nat previous)" using replaces_chain_length [of "entryByName ?es" "nat previous" h] card_length [of ?chain]
    by (simp add: card_insert_if)
  finally have len: "length ?sel \<le> Suc (nat previous)" using distinct_card [OF channelHeadPlusN_distinct [OF assms(1)]] by metis
  have sub: "set (channel_heads ?out) \<subseteq> {h}"
    using kept_chain_superseded [OF assms(1) kept] by (auto simp: channel_heads_eq repair_names kept)
  have "channel_heads ?out = [h]" if "channel_heads ?es \<noteq> []"
  proof -
    have top: "\<not> supersedes e h" if "e \<in> set ?es" for e using selected_heads_in [OF h assms(2)] \<open>channel_heads ?es \<noteq> []\<close> that by (auto simp: channel_heads_eq)
    have "\<not> supersedes e h" if eo: "e \<in> set ?out" for e
    proof -
      obtain f where f: "f \<in> set ?es" "mget_bool kept (en_Name f)" "e = repair_entry (entryByName ?es) kept f" using eo by (auto simp: repairChannelGraph_def)
      have "h \<notin> set (en_Skips e)" using repair_entry_new_skips [OF f(2), where original = ?es and x = h] top [OF f(1)] f(3) kept [of h] by (auto simp: supersedes_def)
      moreover have "h \<noteq> en_Replaces e \<or> h = []"
        using repair_entry_source [OF f(2,1)] f(3) top by (metis supersedes_def)
      ultimately show ?thesis by (auto simp: supersedes_def)
    qed
    moreover have "h \<in> set (names ?out)" using selected_heads_in [OF h assms(2)] by (simp add: repair_names kept)
    ultimately have "h \<in> set (channel_heads ?out)" by (auto simp: channel_heads_eq)
    moreover have "distinct (channel_heads ?out)" using assms(1) by (simp add: channel_heads_eq repair_names)
    ultimately show ?thesis using sub by (cases "channel_heads ?out"; cases "tl (channel_heads ?out)") auto
  qed
  then show ?thesis using h len sub sel by auto
qed

text \<open>Parsers for examples: a version is its last digit.\<close>

definition toy_parsers :: "nat catalog_parsers" where
  "toy_parsers = \<lparr>cq_version_of = (\<lambda>s. s), cq_semver = (\<lambda>s. if s = [] then None else Some (of_char (last s))),
     cq_package_required = Some, cq_gvk = (\<lambda>_. None)\<rparr>"

definition toy_bundle :: "string \<Rightarrow> string \<Rightarrow> string \<Rightarrow> fbc_property list \<Rightarrow> fbc_bundle" where
  "toy_bundle n pkg v props = \<lparr>fb_Name = n, fb_Package = pkg, fb_Image = ''reg/'' @ n,
     fb_Properties = \<lparr>pr_Type = ''olm.package'', pr_Value = v\<rparr> # props, fb_RelatedImages = [''reg/operand'']\<rparr>"

end
