(* ===== verification/CatalogFilter.thy ===== *)
theory CatalogFilter
  imports CatalogGraph Collector ImageStore
begin

text \<open>
  Filtering a file-based catalog to the requested packages and everything they require (\<open>FilterFBC\<close> in \<open>pkg/mirror/catalog/resolver.go\<close>), and the
  images of the result. Indexes by package that the code builds as maps are filters here. The set \<open>explicitHeadBundles\<close> is written but never read by
  the code and is left out.
\<close>

section \<open>Indexes of the catalog\<close>

definition catalogPkgs :: "fbc \<Rightarrow> (string, bool) gomap" where
  "catalogPkgs cfg = fold (\<lambda>p. mput (fp_Name p) True) (cf_Packages cfg) []"

definition bundlesByPkg :: "fbc \<Rightarrow> string \<Rightarrow> fbc_bundle list" where
  "bundlesByPkg cfg pkg = filter (\<lambda>b. fb_Package b = pkg) (cf_Bundles cfg)"

definition bundlesByName :: "fbc \<Rightarrow> (string, fbc_bundle) gomap" where
  "bundlesByName cfg = fold (\<lambda>b. mput (fb_Name b) b) (cf_Bundles cfg) []"

definition channelsByPkg :: "fbc \<Rightarrow> string \<Rightarrow> fbc_channel list" where
  "channelsByPkg cfg pkg = filter (\<lambda>c. fc_Package c = pkg) (cf_Channels cfg)"

definition pkgHasChannelEntries :: "fbc \<Rightarrow> string \<Rightarrow> bool" where
  "pkgHasChannelEntries cfg pkg \<longleftrightarrow> (\<exists>ch \<in> set (channelsByPkg cfg pkg). length (fc_Entries ch) > 0)"

definition add_provider :: "'v catalog_parsers \<Rightarrow> string \<times> fbc_property \<Rightarrow> (string, (string, bool) gomap) gomap \<Rightarrow> (string, (string, bool) gomap) gomap" where
  "add_provider pc pp m =
     (if pr_Type (snd pp) \<noteq> ''olm.gvk'' then m
      else (case cq_gvk pc (pr_Value (snd pp)) of
              None \<Rightarrow> m
            | Some g \<Rightarrow> mput (gvkKey g) (mput (fst pp) True (mget_default [] m (gvkKey g))) m))"

definition gvkProviders :: "'v catalog_parsers \<Rightarrow> fbc \<Rightarrow> (string, (string, bool) gomap) gomap" where
  "gvkProviders pc cfg = fold (add_provider pc) (concat (map (\<lambda>b. map (Pair (fb_Package b)) (fb_Properties b)) (cf_Bundles cfg))) []"

section \<open>Requested packages\<close>

definition add_include :: "include_package \<Rightarrow> (string, bool) gomap \<times> include_package list \<Rightarrow> (string, bool) gomap \<times> include_package list" where
  "add_include inc acc =
     (if \<not> mget_bool (fst acc) (ip_Name inc) then (mput (ip_Name inc) True (fst acc), snd acc @ [inc]) else acc)"

definition companion_candidates :: "string \<Rightarrow> string list" where
  "companion_candidates name =
     [name @ ''-dependencies'', name @ ''-dependency'', name @ ''-deps''] @
     (if hasSuffix name ''-operator'' then [trimSuffix name ''-operator'' @ ''-dependencies''] else [])"

definition named_include :: "string \<Rightarrow> include_package" where
  "named_include c = \<lparr>ip_Name = c, ip_Channels = [], ip_DefaultChannel = [], ip_PreviousVersions = 0,
     ip_Bundle = \<lparr>ib_MinVersion = [], ib_MaxVersion = []\<rparr>, ip_Bundles = []\<rparr>"

definition add_companion ::
  "(string, bool) gomap \<Rightarrow> include_package \<Rightarrow> (string, bool) gomap \<times> include_package list \<Rightarrow> (string, bool) gomap \<times> include_package list" where
  "add_companion pkgs inc acc =
     (case find (\<lambda>c. mget_bool pkgs c \<and> \<not> mget_bool (fst acc) c) (companion_candidates (ip_Name inc)) of
        None \<Rightarrow> acc
      | Some c \<Rightarrow> (mput c True (fst acc), snd acc @ [named_include c]))"

definition all_includes :: "fbc \<Rightarrow> include_package list \<Rightarrow> (string, bool) gomap \<times> include_package list" where
  "all_includes cfg includes = fold (add_companion (catalogPkgs cfg)) includes (fold add_include includes ([], []))"

datatype catalog_error = BundleNotFound string string

record 'v explicit_packages =
  ex_filters :: "(string, 'v pkg_filter) gomap"
  ex_prev :: "(string, int) gomap"
  ex_selected :: "(string, (string, bool) gomap) gomap"

fun select_bundles :: "(string, fbc_bundle) gomap \<Rightarrow> string \<Rightarrow> string list \<Rightarrow> (string, bool) gomap \<Rightarrow> catalog_error + (string, bool) gomap" where
  "select_bundles byName pkg [] sel = Inr sel"
| "select_bundles byName pkg (n # ns) sel =
     (case mget byName n of
        None \<Rightarrow> Inl (BundleNotFound pkg n)
      | Some b \<Rightarrow> if fb_Package b \<noteq> pkg then Inl (BundleNotFound pkg n) else select_bundles byName pkg ns (mput n True sel))"

fun build_explicit ::
  "'v catalog_parsers \<Rightarrow> (string, fbc_bundle) gomap \<Rightarrow> include_package list \<Rightarrow> 'v explicit_packages \<Rightarrow> catalog_error + 'v explicit_packages" where
  "build_explicit pc byName [] ex = Inr ex"
| "build_explicit pc byName (inc # rest) ex =
     (let ex' = ex\<lparr>ex_filters := mput (ip_Name inc) (buildPkgIncludeFilter pc inc) (ex_filters ex),
                   ex_prev := mput (ip_Name inc) (ip_PreviousVersions inc) (ex_prev ex)\<rparr>
      in if length (ip_Bundles inc) = 0 then build_explicit pc byName rest ex'
         else (case select_bundles byName (ip_Name inc) (ip_Bundles inc) [] of
                 Inl e \<Rightarrow> Inl e
               | Inr sel \<Rightarrow> build_explicit pc byName rest (ex'\<lparr>ex_selected := mput (ip_Name inc) sel (ex_selected ex')\<rparr>)))"

abbreviation selected_of :: "'v explicit_packages \<Rightarrow> string \<Rightarrow> (string, bool) gomap" where
  "selected_of ex pkg \<equiv> mget_default [] (ex_selected ex) pkg"

definition headsOnlyExplicit :: "fbc \<Rightarrow> 'v explicit_packages \<Rightarrow> string \<Rightarrow> bool" where
  "headsOnlyExplicit cfg ex pkg \<longleftrightarrow>
     (case mget (ex_filters ex) pkg of
        None \<Rightarrow> False
      | Some f \<Rightarrow> \<not> (\<not> kf_allowAllChannels f \<or> kf_min f \<noteq> None \<or> kf_max f \<noteq> None \<or> length (kf_channelFilters f) > 0) \<and>
          \<not> length (selected_of ex pkg) > 0 \<and> (\<exists>ch \<in> set (channelsByPkg cfg pkg). length (fc_Entries ch) > 0))"

section \<open>Selecting the bundles of a package\<close>

text \<open>Names chosen per channel: the bundles in the order of the channels, and the marks of the channel entries.\<close>

definition per_channel :: "fbc_channel list \<Rightarrow> (fbc_channel \<Rightarrow> string list) \<Rightarrow> string list \<times> (string \<times> string) list" where
  "per_channel chs f = (concat (map f chs), concat (map (\<lambda>ch. map (Pair (fc_Name ch)) (f ch)) chs))"

definition filtered_entries :: "('v :: linorder) catalog_parsers \<Rightarrow> fbc \<Rightarrow> 'v pkg_filter \<Rightarrow> fbc_channel \<Rightarrow> string list" where
  "filtered_entries pc cfg f ch =
     (if \<not> kf_allowAllChannels f \<and> \<not> mget_bool (kf_allowedChannels f) (fc_Name ch) then []
      else (let vf = effectiveVersionFilter f (fc_Name ch)
            in map en_Name (filter (\<lambda>e. case mget (bundlesByName cfg) (en_Name e) of
                                          None \<Rightarrow> False
                                        | Some b \<Rightarrow> bundleMatchesVersionFilter pc b vf) (fc_Entries ch))))"

definition package_selection ::
  "('v :: linorder) catalog_parsers \<Rightarrow> fbc \<Rightarrow> 'v explicit_packages \<Rightarrow> string \<Rightarrow> string list \<times> (string \<times> string) list" where
  "package_selection pc cfg ex current =
     (let isExplicit = (mget (ex_filters ex) current \<noteq> None);
          sel = selected_of ex current;
          chs = channelsByPkg cfg current;
          all = map fb_Name (bundlesByPkg cfg current)
      in if isExplicit \<and> length sel > 0 then
           (sort (mkeys sel), snd (per_channel chs (\<lambda>ch. filter (mget_bool sel) (names (fc_Entries ch)))))
         else if isExplicit \<and> \<not> pkgHasChannelEntries cfg current then (all, [])
         else if isExplicit \<and> headsOnlyExplicit cfg ex current then
           per_channel chs (\<lambda>ch. channelHeadPlusN pc ch (mget_default 0 (ex_prev ex) current) (bundlesByName cfg))
         else (case mget (ex_filters ex) current of
                 Some f \<Rightarrow> per_channel chs (filtered_entries pc cfg f)
               | None \<Rightarrow>
                   if \<not> pkgHasChannelEntries cfg current then (all, [])
                   else (all, snd (per_channel chs (\<lambda>ch. filter (\<lambda>n. mget (bundlesByName cfg) n \<noteq> None) (names (fc_Entries ch)))))))"

section \<open>Required packages\<close>

definition required_by_property :: "'v catalog_parsers \<Rightarrow> (string, (string, bool) gomap) gomap \<Rightarrow> fbc_property \<Rightarrow> string list" where
  "required_by_property pc providers p =
     (if pr_Type p = ''olm.package.required'' then
        (case cq_package_required pc (pr_Value p) of None \<Rightarrow> [] | Some n \<Rightarrow> if n = [] then [] else [n])
      else if pr_Type p = ''olm.gvk.required'' then
        (case cq_gvk pc (pr_Value p) of None \<Rightarrow> [] | Some g \<Rightarrow> mkeys (mget_default [] providers (gvkKey g)))
      else [])"

text \<open>The packages a bundle requires, by its name; a name without a bundle has no properties.\<close>

definition required_packages :: "'v catalog_parsers \<Rightarrow> fbc \<Rightarrow> string \<Rightarrow> string list" where
  "required_packages pc cfg name =
     (case mget (bundlesByName cfg) name of
        None \<Rightarrow> []
      | Some b \<Rightarrow> concat (map (required_by_property pc (gvkProviders pc cfg)) (fb_Properties b)))"

definition enqueue :: "(string, bool) gomap \<Rightarrow> string \<Rightarrow> (string, bool) gomap \<times> string list \<Rightarrow> (string, bool) gomap \<times> string list" where
  "enqueue pkgs p acc =
     (if \<not> mget_bool (fst acc) p \<and> mget_bool pkgs p then (mput p True (fst acc), snd acc @ [p]) else acc)"

definition markChannelEntry ::
  "string \<Rightarrow> string \<times> string \<Rightarrow> (string, (string, (string, bool) gomap) gomap) gomap \<Rightarrow> (string, (string, (string, bool) gomap) gomap) gomap" where
  "markChannelEntry pkg mark m =
     (let chs = mget_default [] m pkg; es = mget_default [] chs (fst mark)
      in mput pkg (mput (fst mark) (mput (snd mark) True es) chs) m)"

record filter_state =
  fs_pkgSet :: "(string, bool) gomap"
  fs_queue :: "string list"
  fs_processed :: "(string, bool) gomap"
  fs_allowed :: "(string, bool) gomap"
  fs_entries :: "(string, (string, (string, bool) gomap) gomap) gomap"

definition process_package ::
  "('v :: linorder) catalog_parsers \<Rightarrow> fbc \<Rightarrow> 'v explicit_packages \<Rightarrow> string \<Rightarrow> filter_state \<Rightarrow> filter_state" where
  "process_package pc cfg ex current st =
     (let sel = package_selection pc cfg ex current;
          next = fold (enqueue (catalogPkgs cfg)) (concat (map (required_packages pc cfg) (fst sel))) (fs_pkgSet st, fs_queue st)
      in st\<lparr>fs_pkgSet := fst next, fs_queue := snd next, fs_processed := mput current True (fs_processed st),
            fs_allowed := fold (\<lambda>n. mput n True) (fst sel) (fs_allowed st),
            fs_entries := fold (markChannelEntry current) (snd sel) (fs_entries st)\<rparr>)"

text \<open>The open packages of the catalog: the measure of the search.\<close>

definition unseen :: "fbc \<Rightarrow> (string, bool) gomap \<Rightarrow> string set" where
  "unseen cfg pkgSet = {p. mget_bool (catalogPkgs cfg) p \<and> \<not> mget_bool pkgSet p}"

lemma mget_bool_key: "mget_bool m p \<Longrightarrow> p \<in> set (mkeys m)"
  using mget_None_iff [of m p] by (cases "mget m p") (auto simp: mget_default_def)

lemma finite_unseen [simp]: "finite (unseen cfg pkgSet)"
proof -
  have "unseen cfg pkgSet \<subseteq> set (mkeys (catalogPkgs cfg))"
  proof
    fix p
    assume "p \<in> unseen cfg pkgSet"
    then show "p \<in> set (mkeys (catalogPkgs cfg))" unfolding unseen_def mem_Collect_eq by (elim conjE mget_bool_key)
  qed
  then show ?thesis by (rule finite_subset) simp
qed

lemma enqueue_measure:
  "length (snd (fold (enqueue (catalogPkgs cfg)) ps acc)) + card (unseen cfg (fst (fold (enqueue (catalogPkgs cfg)) ps acc))) =
     length (snd acc) + card (unseen cfg (fst acc))"
proof (induction ps arbitrary: acc)
  case (Cons p ps)
  have "length (snd (enqueue (catalogPkgs cfg) p acc)) + card (unseen cfg (fst (enqueue (catalogPkgs cfg) p acc))) = length (snd acc) + card (unseen cfg (fst acc))"
  proof (cases "p \<in> unseen cfg (fst acc)")
    case True
    have "unseen cfg (mput p True (fst acc)) = unseen cfg (fst acc) - {p}" by (auto simp: unseen_def)
    moreover have "card (unseen cfg (fst acc)) = Suc (card (unseen cfg (fst acc) - {p}))" by (rule card_Suc_Diff1 [OF finite_unseen True, symmetric])
    moreover have "enqueue (catalogPkgs cfg) p acc = (mput p True (fst acc), snd acc @ [p])" using True by (simp add: enqueue_def unseen_def)
    ultimately show ?thesis by simp
  next
    case False
    then have "enqueue (catalogPkgs cfg) p acc = acc" by (auto simp: enqueue_def unseen_def)
    then show ?thesis by simp
  qed
  then show ?case using Cons [of "enqueue (catalogPkgs cfg) p acc"] by simp
qed simp

function filter_loop :: "('v :: linorder) catalog_parsers \<Rightarrow> fbc \<Rightarrow> 'v explicit_packages \<Rightarrow> filter_state \<Rightarrow> filter_state" where
  "filter_loop pc cfg ex st =
     (case fs_queue st of
        [] \<Rightarrow> st
      | current # queue \<Rightarrow>
          if mget_bool (fs_processed st) current then filter_loop pc cfg ex (st\<lparr>fs_queue := queue\<rparr>)
          else filter_loop pc cfg ex (process_package pc cfg ex current (st\<lparr>fs_queue := queue\<rparr>)))"
  by pat_completeness auto
termination
proof (relation "measure (\<lambda>(pc, cfg, ex, st). length (fs_queue st) + card (unseen cfg (fs_pkgSet st)))", goal_cases)
  case (3 pc cfg ex st current queue)
  then show ?case
    using enqueue_measure [of cfg "concat (map (required_packages pc cfg) (fst (package_selection pc cfg ex current)))" "(fs_pkgSet st, queue)"]
    by (simp add: process_package_def Let_def)
qed simp_all

declare filter_loop.simps [simp del]

section \<open>The filtered catalog\<close>

definition trim_channel :: "('v :: linorder) catalog_parsers \<Rightarrow> fbc \<Rightarrow> 'v explicit_packages \<Rightarrow> filter_state \<Rightarrow> fbc_channel \<Rightarrow> fbc_channel option" where
  "trim_channel pc cfg ex st ch =
     (if \<not> mget_bool (fs_pkgSet st) (fc_Package ch) then None
      else let sel = mget_default [] (mget_default [] (fs_entries st) (fc_Package ch)) (fc_Name ch)
           in if length sel = 0 then None
              else let es = repairChannelGraph (fc_Entries ch) sel
                   in if length es = 0 then None
                      else Some (ch\<lparr>fc_Entries := (if length (selected_of ex (fc_Package ch)) > 0
                                                  then mergeChannelHeads pc es (bundlesByName cfg) else es)\<rparr>))"

definition filter_package :: "fbc_channel list \<Rightarrow> fbc_package \<Rightarrow> fbc_package" where
  "filter_package channels p =
     (let survived = map fc_Name (filter (\<lambda>c. fc_Package c = fp_Name p) channels)
      in if length survived > 0 \<and> fp_DefaultChannel p \<notin> set survived then p\<lparr>fp_DefaultChannel := hd (sort survived)\<rparr> else p)"

definition filter_output :: "('v :: linorder) catalog_parsers \<Rightarrow> fbc \<Rightarrow> 'v explicit_packages \<Rightarrow> filter_state \<Rightarrow> fbc" where
  "filter_output pc cfg ex st =
     (let channels = List.map_filter (trim_channel pc cfg ex st) (cf_Channels cfg)
      in \<lparr>cf_Packages = map (filter_package channels) (filter (\<lambda>p. mget_bool (fs_pkgSet st) (fp_Name p)) (cf_Packages cfg)),
          cf_Channels = channels,
          cf_Bundles = filter (\<lambda>b. mget_bool (fs_allowed st) (fb_Name b)) (cf_Bundles cfg)\<rparr>)"

definition filter_start :: "(string, bool) gomap \<Rightarrow> filter_state" where
  "filter_start pkgSet = \<lparr>fs_pkgSet = pkgSet, fs_queue = mkeys pkgSet, fs_processed = [], fs_allowed = [], fs_entries = []\<rparr>"

definition FilterFBC :: "('v :: linorder) catalog_parsers \<Rightarrow> fbc \<Rightarrow> include_package list \<Rightarrow> catalog_error + fbc" where
  "FilterFBC pc cfg includes =
     (if length includes = 0 then Inr cfg
      else (case all_includes cfg includes of
              (pkgSet, allIncludes) \<Rightarrow>
                (case build_explicit pc (bundlesByName cfg) allIncludes \<lparr>ex_filters = [], ex_prev = [], ex_selected = []\<rparr> of
                   Inl e \<Rightarrow> Inl e
                 | Inr ex \<Rightarrow> Inr (filter_output pc cfg ex (filter_loop pc cfg ex (filter_start pkgSet))))))"

section \<open>Images of a catalog\<close>

definition addRef :: "string \<Rightarrow> string \<Rightarrow> (string, (string, unit) gomap) gomap \<Rightarrow> (string, (string, unit) gomap) gomap" where
  "addRef img bundleName m = (if img = [] then m else mput img (mput bundleName () (mget_default [] m img)) m)"

definition bundle_refs :: "fbc_bundle \<Rightarrow> (string \<times> bool) list" where
  "bundle_refs b = (fb_Image b, True) # map (\<lambda>img. (img, False)) (fb_RelatedImages b)"

definition bundleSets :: "fbc \<Rightarrow> (string, (string, unit) gomap) gomap" where
  "bundleSets cfg = fold (\<lambda>b m. fold (\<lambda>(img, own). addRef img (fb_Name b)) (bundle_refs b) m) (cf_Bundles cfg) []"

definition isBundleImage :: "fbc \<Rightarrow> (string, bool) gomap" where
  "isBundleImage cfg = fold (\<lambda>b m. fold (\<lambda>(img, own) m. if img \<noteq> [] \<and> own then mput img True m else m) (bundle_refs b) m) (cf_Bundles cfg) []"

definition renderBundleRefs :: "string list \<Rightarrow> string" where
  "renderBundleRefs ns =
     (if length ns \<le> 3 then str_join '', '' ns
      else str_join '', '' (take 3 ns) @ '' (+'' @ Itoa (int (length ns - 3)) @ '' more)'')"

definition ExtractImagesWithBundles :: "fbc \<Rightarrow> (string, bundle_image_info) gomap" where
  "ExtractImagesWithBundles cfg =
     map (\<lambda>(img, ns). (img, \<lparr>bi_Label = renderBundleRefs (sort (mkeys ns)), bi_IsBundleImage = mget_bool (isBundleImage cfg) img\<rparr>)) (bundleSets cfg)"

definition ExtractImages :: "fbc \<Rightarrow> string list" where
  "ExtractImages cfg = mkeys (ExtractImagesWithBundles cfg)"

section \<open>The packages that are needed\<close>

text \<open>The least set that holds the given packages and, of the catalog, all that a selected bundle of one of them requires.\<close>

inductive_set needed :: "('v :: linorder) catalog_parsers \<Rightarrow> fbc \<Rightarrow> 'v explicit_packages \<Rightarrow> string set \<Rightarrow> string set"
  for pc :: "('v :: linorder) catalog_parsers" and cfg :: fbc and ex :: "'v explicit_packages" and roots :: "string set" where
  needed_root: "p \<in> roots \<Longrightarrow> p \<in> needed pc cfg ex roots"
| needed_step: "q \<in> needed pc cfg ex roots \<Longrightarrow> n \<in> set (fst (package_selection pc cfg ex q)) \<Longrightarrow> p \<in> set (required_packages pc cfg n) \<Longrightarrow>
    p \<in> fp_Name ` set (cf_Packages cfg) \<Longrightarrow> p \<in> needed pc cfg ex roots"

definition needs :: "('v :: linorder) catalog_parsers \<Rightarrow> fbc \<Rightarrow> 'v explicit_packages \<Rightarrow> string \<Rightarrow> string set" where
  "needs pc cfg ex q = {p. p \<in> fp_Name ` set (cf_Packages cfg) \<and> (\<exists>n \<in> set (fst (package_selection pc cfg ex q)). p \<in> set (required_packages pc cfg n))}"

definition loop_inv :: "('v :: linorder) catalog_parsers \<Rightarrow> fbc \<Rightarrow> 'v explicit_packages \<Rightarrow> string set \<Rightarrow> filter_state \<Rightarrow> bool" where
  "loop_inv pc cfg ex roots st \<longleftrightarrow>
     (\<forall>p. mget_bool (fs_pkgSet st) p \<longleftrightarrow> p \<in> roots \<or> (\<exists>q. mget_bool (fs_processed st) q \<and> p \<in> needs pc cfg ex q)) \<and>
     (\<forall>p. mget_bool (fs_pkgSet st) p \<longleftrightarrow> mget_bool (fs_processed st) p \<or> p \<in> set (fs_queue st)) \<and>
     (\<forall>p. mget_bool (fs_pkgSet st) p \<longrightarrow> p \<in> needed pc cfg ex roots) \<and>
     (\<forall>n. mget_bool (fs_allowed st) n \<longleftrightarrow> (\<exists>p. mget_bool (fs_processed st) p \<and> n \<in> set (fst (package_selection pc cfg ex p)))) \<and>
     (\<forall>p c n. mget_bool (mget_default [] (mget_default [] (fs_entries st) p) c) n \<longleftrightarrow>
        mget_bool (fs_processed st) p \<and> (c, n) \<in> set (snd (package_selection pc cfg ex p)))"

lemma loop_invD:
  assumes "loop_inv pc cfg ex roots st"
  shows "mget_bool (fs_pkgSet st) p \<longleftrightarrow> p \<in> roots \<or> (\<exists>q. mget_bool (fs_processed st) q \<and> p \<in> needs pc cfg ex q)"
    and "mget_bool (fs_pkgSet st) p \<longleftrightarrow> mget_bool (fs_processed st) p \<or> p \<in> set (fs_queue st)"
    and "mget_bool (fs_pkgSet st) p \<Longrightarrow> p \<in> needed pc cfg ex roots"
    and "mget_bool (fs_allowed st) n \<longleftrightarrow> (\<exists>p. mget_bool (fs_processed st) p \<and> n \<in> set (fst (package_selection pc cfg ex p)))"
    and "mget_bool (mget_default [] (mget_default [] (fs_entries st) p) c) n \<longleftrightarrow>
      mget_bool (fs_processed st) p \<and> (c, n) \<in> set (snd (package_selection pc cfg ex p))"
  using assms unfolding loop_inv_def by (elim conjE; erule allE; assumption | blast)+

lemma catalogPkgs_iff: "mget_bool (catalogPkgs cfg) p \<longleftrightarrow> p \<in> fp_Name ` set (cf_Packages cfg)"
  by (simp add: catalogPkgs_def fold_put_True)

lemma enqueue_fold:
  "(mget_bool (fst (fold (enqueue pkgs) ps acc)) p \<longleftrightarrow> mget_bool (fst acc) p \<or> p \<in> set ps \<and> mget_bool pkgs p) \<and>
   (p \<in> set (snd (fold (enqueue pkgs) ps acc)) \<longleftrightarrow> p \<in> set (snd acc) \<or> p \<in> set ps \<and> mget_bool pkgs p \<and> \<not> mget_bool (fst acc) p)"
  by (induction ps arbitrary: acc) (auto simp: enqueue_def)

lemma mark_one:
  "mget_bool (mget_default [] (mget_default [] (markChannelEntry pkg mark m) p) c) n \<longleftrightarrow>
     mget_bool (mget_default [] (mget_default [] m p) c) n \<or> p = pkg \<and> (c, n) = mark"
  by (cases mark) (simp add: markChannelEntry_def Let_def)

lemma mark_fold:
  "mget_bool (mget_default [] (mget_default [] (fold (markChannelEntry pkg) marks m) p) c) n \<longleftrightarrow>
     mget_bool (mget_default [] (mget_default [] m p) c) n \<or> p = pkg \<and> (c, n) \<in> set marks"
proof (induction marks arbitrary: m)
  case (Cons mark marks)
  show ?case unfolding fold_simps Cons mark_one by auto
qed simp

lemma loop_inv_step:
  assumes inv: "loop_inv pc cfg ex roots st" and q: "fs_queue st = current # queue" and new: "\<not> mget_bool (fs_processed st) current"
  shows "loop_inv pc cfg ex roots (process_package pc cfg ex current (st\<lparr>fs_queue := queue\<rparr>))"
proof -
  let ?sel = "package_selection pc cfg ex current"
  let ?st = "process_package pc cfg ex current (st\<lparr>fs_queue := queue\<rparr>)"
  note I = loop_invD [OF inv]
  have cur: "mget_bool (fs_pkgSet st) current" using I(2) [of current] q by simp
  have pkg: "mget_bool (fs_pkgSet ?st) p \<longleftrightarrow> mget_bool (fs_pkgSet st) p \<or> p \<in> needs pc cfg ex current" for p
    by (auto simp: process_package_def Let_def enqueue_fold catalogPkgs_iff needs_def)
  have que: "p \<in> set (fs_queue ?st) \<longleftrightarrow> p \<in> set queue \<or> p \<in> needs pc cfg ex current \<and> \<not> mget_bool (fs_pkgSet st) p" for p
    by (auto simp: process_package_def Let_def enqueue_fold catalogPkgs_iff needs_def)
  have pro: "mget_bool (fs_processed ?st) p \<longleftrightarrow> p = current \<or> mget_bool (fs_processed st) p" for p
    by (simp add: process_package_def Let_def)
  have alw: "mget_bool (fs_allowed ?st) n \<longleftrightarrow> mget_bool (fs_allowed st) n \<or> n \<in> set (fst ?sel)" for n
    by (auto simp: process_package_def Let_def fold_put_True [where f = "\<lambda>x. x"])
  have ent: "mget_bool (mget_default [] (mget_default [] (fs_entries ?st) p) c) n \<longleftrightarrow>
      mget_bool (mget_default [] (mget_default [] (fs_entries st) p) c) n \<or> p = current \<and> (c, n) \<in> set (snd ?sel)" for p c n
    by (simp add: process_package_def Let_def mark_fold)
  have nd: "p \<in> needed pc cfg ex roots" if "p \<in> needs pc cfg ex current" for p
    using that I(3) [OF cur] by (auto simp: needs_def intro: needed_step)
  show ?thesis unfolding loop_inv_def pkg que pro alw ent
  proof (intro conjI allI)
    fix p c n
    show "mget_bool (fs_pkgSet st) p \<or> p \<in> needs pc cfg ex current \<longleftrightarrow>
        p \<in> roots \<or> (\<exists>q. (q = current \<or> mget_bool (fs_processed st) q) \<and> p \<in> needs pc cfg ex q)" using I(1) [of p] by blast
    show "mget_bool (fs_pkgSet st) p \<or> p \<in> needs pc cfg ex current \<longleftrightarrow>
        (p = current \<or> mget_bool (fs_processed st) p) \<or> p \<in> set queue \<or> p \<in> needs pc cfg ex current \<and> \<not> mget_bool (fs_pkgSet st) p"
      using I(2) [of p] q by auto
    show "mget_bool (fs_pkgSet st) p \<or> p \<in> needs pc cfg ex current \<longrightarrow> p \<in> needed pc cfg ex roots" using I(3) [of p] nd [of p] by blast
    show "mget_bool (fs_allowed st) n \<or> n \<in> set (fst ?sel) \<longleftrightarrow>
        (\<exists>p. (p = current \<or> mget_bool (fs_processed st) p) \<and> n \<in> set (fst (package_selection pc cfg ex p)))" using I(4) [of n] by blast
    show "mget_bool (mget_default [] (mget_default [] (fs_entries st) p) c) n \<or> p = current \<and> (c, n) \<in> set (snd ?sel) \<longleftrightarrow>
        (p = current \<or> mget_bool (fs_processed st) p) \<and> (c, n) \<in> set (snd (package_selection pc cfg ex p))" using I(5) [of p c n] by blast
  qed
qed

lemma filter_loop_inv:
  assumes "loop_inv pc cfg ex roots st"
  shows "loop_inv pc cfg ex roots (filter_loop pc cfg ex st) \<and> fs_queue (filter_loop pc cfg ex st) = []"
  using assms
proof (induction pc cfg ex st rule: filter_loop.induct)
  case (1 pc cfg ex st)
  show ?case
  proof (cases "fs_queue st")
    case Nil
    then show ?thesis using 1(3) by (simp add: filter_loop.simps [of pc cfg ex st])
  next
    case (Cons current queue)
    show ?thesis
    proof (cases "mget_bool (fs_processed st) current")
      case True
      have "loop_inv pc cfg ex roots (st\<lparr>fs_queue := queue\<rparr>)" using 1(3) Cons True by (auto simp: loop_inv_def)
      then show ?thesis using 1(1) [OF Cons True] Cons True by (simp add: filter_loop.simps [of pc cfg ex st])
    next
      case False
      then show ?thesis using 1(2) [OF Cons False loop_inv_step [OF 1(3) Cons False]] Cons by (simp add: filter_loop.simps [of pc cfg ex st])
    qed
  qed
qed

text \<open>The result of the search: the needed packages and what is selected of them.\<close>

lemma filter_loop_result:
  fixes pc :: "('v :: linorder) catalog_parsers" and cfg :: fbc and ex :: "'v explicit_packages" and pkgSet :: "(string, bool) gomap"
  assumes "\<And>p. mget_bool pkgSet p \<longleftrightarrow> p \<in> set (mkeys pkgSet)"
  defines "st \<equiv> filter_loop pc cfg ex (filter_start pkgSet)" and "req \<equiv> needed pc cfg ex (set (mkeys pkgSet))"
  shows "mget_bool (fs_pkgSet st) p \<longleftrightarrow> p \<in> req"
    and "mget_bool (fs_allowed st) n \<longleftrightarrow> (\<exists>p \<in> req. n \<in> set (fst (package_selection pc cfg ex p)))"
    and "mget_bool (mget_default [] (mget_default [] (fs_entries st) p) c) n \<longleftrightarrow> p \<in> req \<and> (c, n) \<in> set (snd (package_selection pc cfg ex p))"
proof -
  have "loop_inv pc cfg ex (set (mkeys pkgSet)) (filter_start pkgSet)" using assms(1) by (auto simp: loop_inv_def filter_start_def intro: needed_root)
  then have inv: "loop_inv pc cfg ex (set (mkeys pkgSet)) st" and empty: "fs_queue st = []" using filter_loop_inv unfolding st_def by blast+
  note I = loop_invD [OF inv]
  have pro: "mget_bool (fs_processed st) p \<longleftrightarrow> mget_bool (fs_pkgSet st) p" for p using I(2) [of p] empty by simp
  have "mget_bool (fs_pkgSet st) p" if "p \<in> needed pc cfg ex (set (mkeys pkgSet))" for p
    using that
  proof (induction rule: needed.induct)
    case (needed_step q n p)
    then have "p \<in> needs pc cfg ex q" by (auto simp: needs_def)
    then show ?case using needed_step.IH pro I(1) [of p] by blast
  qed (use I(1) in blast)
  then show pkg: "mget_bool (fs_pkgSet st) p \<longleftrightarrow> p \<in> req" for p unfolding req_def using I(3) [of p] by blast
  show "mget_bool (fs_allowed st) n \<longleftrightarrow> (\<exists>p \<in> req. n \<in> set (fst (package_selection pc cfg ex p)))" using I(4) [of n] pro pkg by blast
  show "mget_bool (mget_default [] (mget_default [] (fs_entries st) p) c) n \<longleftrightarrow> p \<in> req \<and> (c, n) \<in> set (snd (package_selection pc cfg ex p))"
    using I(5) [of p c n] pro pkg by blast
qed

section \<open>The requested packages\<close>

lemma fst_set_put [simp]: "fst ` set (mput k v m) = insert k (fst ` set m)"
  using update_keys [of k v m] by (simp flip: set_map split: if_splits) auto

definition all_true :: "(string, bool) gomap \<Rightarrow> bool" where
  "all_true m \<longleftrightarrow> (\<forall>p. p \<in> set (mkeys m) \<longrightarrow> mget_bool m p)"

lemma all_true_iff: "all_true m \<Longrightarrow> mget_bool m p \<longleftrightarrow> p \<in> set (mkeys m)"
  using mget_bool_key by (auto simp: all_true_def)

text \<open>The set of names and the list of includes grow together.\<close>

definition includes_ok :: "(string, bool) gomap \<times> include_package list \<Rightarrow> bool" where
  "includes_ok acc \<longleftrightarrow> all_true (fst acc) \<and> set (mkeys (fst acc)) = ip_Name ` set (snd acc) \<and> distinct (map ip_Name (snd acc))"

lemma includes_ok_add:
  assumes "includes_ok acc" and "\<not> mget_bool (fst acc) (ip_Name i)"
  shows "includes_ok (mput (ip_Name i) True (fst acc), snd acc @ [i])"
  using assms unfolding includes_ok_def all_true_def by auto

lemma add_include_ok:
  assumes "includes_ok acc"
  shows "includes_ok (add_include inc acc) \<and> set (snd acc) \<subseteq> set (snd (add_include inc acc)) \<and> ip_Name inc \<in> ip_Name ` set (snd (add_include inc acc))"
proof (cases "mget_bool (fst acc) (ip_Name inc)")
  case True
  then have "ip_Name inc \<in> ip_Name ` set (snd acc)" using assms mget_bool_key [OF True] unfolding includes_ok_def by simp
  then show ?thesis using True assms by (simp add: add_include_def)
qed (use includes_ok_add [OF assms] in \<open>auto simp: add_include_def\<close>)

lemma add_companion_ok:
  assumes "includes_ok acc"
  shows "includes_ok (add_companion pkgs inc acc) \<and> set (snd acc) \<subseteq> set (snd (add_companion pkgs inc acc))"
proof (cases "find (\<lambda>c. mget_bool pkgs c \<and> \<not> mget_bool (fst acc) c) (companion_candidates (ip_Name inc))")
  case (Some c)
  then have "\<not> mget_bool (fst acc) (ip_Name (named_include c))" by (auto simp: find_Some_iff named_include_def)
  from includes_ok_add [OF assms this] show ?thesis using Some by (auto simp: add_companion_def named_include_def)
qed (use assms in \<open>simp add: add_companion_def\<close>)

text \<open>The expanded list starts with the given includes, when their names differ, and has no name twice.\<close>

lemma all_includes_ok:
  "includes_ok (all_includes cfg includes) \<and> ip_Name ` set includes \<subseteq> set (mkeys (fst (all_includes cfg includes)))"
proof -
  have inc: "includes_ok (fold add_include incs acc) \<and> ip_Name ` set incs \<union> ip_Name ` set (snd acc) \<subseteq> ip_Name ` set (snd (fold add_include incs acc))"
    if "includes_ok acc" for incs acc
    using that
  proof (induction incs arbitrary: acc)
    case (Cons i incs)
    note step = add_include_ok [OF Cons.prems, of i]
    then have "ip_Name ` set (snd acc) \<subseteq> ip_Name ` set (snd (add_include i acc))" by (intro image_mono) simp
    then show ?case using Cons.IH [of "add_include i acc"] step by simp blast
  qed simp
  have com: "includes_ok (fold (add_companion pkgs) incs acc) \<and> set (snd acc) \<subseteq> set (snd (fold (add_companion pkgs) incs acc))"
    if "includes_ok acc" for pkgs incs acc
    using that
  proof (induction incs arbitrary: acc)
    case (Cons i incs)
    show ?case using Cons.IH [of "add_companion pkgs i acc"] add_companion_ok [OF Cons.prems, of pkgs i] by (simp; blast)
  qed simp
  have "includes_ok ([], [])" by (simp add: includes_ok_def all_true_def)
  note a = inc [OF this, of "includes"]
  note b = com [OF conjunct1 [OF a], of "catalogPkgs cfg" "includes"]
  then have "ip_Name ` set (snd (fold add_include includes ([], []))) \<subseteq> ip_Name ` set (snd (all_includes cfg includes))"
    unfolding all_includes_def by (intro image_mono) simp
  with conjunct2 [OF a] have "ip_Name ` set includes \<subseteq> ip_Name ` set (snd (all_includes cfg includes))" by (simp only: Un_subset_iff) (blast intro: order_trans)
  then show ?thesis using b unfolding all_includes_def includes_ok_def by simp
qed

lemma all_includes_member:
  assumes "distinct (map ip_Name includes)"
  shows "set includes \<subseteq> set (snd (all_includes cfg includes))"
proof -
  have inc: "set incs \<union> set (snd acc) \<subseteq> set (snd (fold add_include incs acc))"
    if "includes_ok acc" "distinct (map ip_Name incs)" "\<forall>i \<in> set incs. ip_Name i \<notin> set (mkeys (fst acc))" for incs acc
    using that
  proof (induction incs arbitrary: acc)
    case (Cons i incs)
    have "\<not> mget_bool (fst acc) (ip_Name i)" using Cons.prems(3) mget_bool_key [of "fst acc" "ip_Name i"] by auto
    then have eq: "add_include i acc = (mput (ip_Name i) True (fst acc), snd acc @ [i])" by (simp add: add_include_def)
    have "\<forall>j \<in> set incs. ip_Name j \<noteq> ip_Name i" using Cons.prems(2) by (metis distinct.simps(2) image_eqI list.simps(9) list.set_map)
    then have "\<forall>j \<in> set incs. ip_Name j \<notin> set (mkeys (fst (add_include i acc)))" using Cons.prems(3) by (simp add: eq)
    from Cons.IH [OF _ _ this] show ?case using add_include_ok [OF Cons.prems(1), of i] Cons.prems(2) by (simp add: eq)
  qed simp
  have com: "set (snd acc) \<subseteq> set (snd (fold (add_companion pkgs) incs acc))" for pkgs incs acc
  proof (induction incs arbitrary: acc)
    case (Cons i incs)
    have "set (snd acc) \<subseteq> set (snd (add_companion pkgs i acc))" by (auto simp: add_companion_def split: option.splits)
    then show ?case using Cons.IH [of "add_companion pkgs i acc"] by auto
  qed simp
  have "includes_ok ([], [])" by (simp add: includes_ok_def all_true_def)
  then have "set includes \<subseteq> set (snd (fold add_include includes ([], [])))" using inc [OF _ assms, of "([], [])"] by simp
  then show ?thesis using com [of "fold add_include includes ([], [])" "catalogPkgs cfg" "includes"] unfolding all_includes_def by (rule subset_trans)
qed

lemma select_bundles_Inr:
  "select_bundles byName pkg ns sel = Inr r \<Longrightarrow>
     (\<forall>n. mget_bool r n \<longleftrightarrow> n \<in> set ns \<or> mget_bool sel n) \<and> (\<forall>n \<in> set ns. \<exists>b. mget byName n = Some b \<and> fb_Package b = pkg) \<and>
     fst ` set r = set ns \<union> fst ` set sel"
  by (induction ns arbitrary: sel) (auto split: option.splits if_splits)

text \<open>What the explicit part records for a package.\<close>

definition recorded :: "'v catalog_parsers \<Rightarrow> (string, fbc_bundle) gomap \<Rightarrow> include_package \<Rightarrow> 'v explicit_packages \<Rightarrow> bool" where
  "recorded pc byName inc ex \<longleftrightarrow>
     mget (ex_filters ex) (ip_Name inc) = Some (buildPkgIncludeFilter pc inc) \<and> mget_default 0 (ex_prev ex) (ip_Name inc) = ip_PreviousVersions inc \<and>
     fst ` set (selected_of ex (ip_Name inc)) = set (ip_Bundles inc) \<and> (\<forall>n. mget_bool (selected_of ex (ip_Name inc)) n \<longleftrightarrow> n \<in> set (ip_Bundles inc)) \<and>
     (\<forall>n \<in> set (ip_Bundles inc). \<exists>b. mget byName n = Some b \<and> fb_Package b = ip_Name inc)"

lemma build_explicit_other:
  "build_explicit pc byName incs ex = Inr ex' \<Longrightarrow> p \<notin> ip_Name ` set incs \<Longrightarrow>
     mget (ex_filters ex') p = mget (ex_filters ex) p \<and> mget (ex_prev ex') p = mget (ex_prev ex) p \<and> mget (ex_selected ex') p = mget (ex_selected ex) p"
proof (induction incs arbitrary: ex)
  case (Cons i incs)
  then show ?case by (auto simp: Let_def split: if_splits sum.splits)
qed simp

lemma recorded_cong:
  assumes "mget (ex_filters ex') (ip_Name inc) = mget (ex_filters ex) (ip_Name inc)" and "mget (ex_prev ex') (ip_Name inc) = mget (ex_prev ex) (ip_Name inc)"
    and "mget (ex_selected ex') (ip_Name inc) = mget (ex_selected ex) (ip_Name inc)"
  shows "recorded pc byName inc ex' \<longleftrightarrow> recorded pc byName inc ex"
  using assms by (simp add: recorded_def mget_default_def)

lemma build_explicit_recorded:
  assumes "build_explicit pc byName incs ex = Inr ex'" and "distinct (map ip_Name incs)"
    and "\<forall>i \<in> set incs. mget (ex_selected ex) (ip_Name i) = None" and "inc \<in> set incs"
  shows "recorded pc byName inc ex'"
  using assms
proof (induction incs arbitrary: ex)
  case (Cons i incs)
  let ?ex = "ex\<lparr>ex_filters := mput (ip_Name i) (buildPkgIncludeFilter pc i) (ex_filters ex), ex_prev := mput (ip_Name i) (ip_PreviousVersions i) (ex_prev ex)\<rparr>"
  obtain sel where sel: "build_explicit pc byName incs (if ip_Bundles i = [] then ?ex else ?ex\<lparr>ex_selected := mput (ip_Name i) sel (ex_selected ?ex)\<rparr>) = Inr ex'"
      "ip_Bundles i \<noteq> [] \<longrightarrow> select_bundles byName (ip_Name i) (ip_Bundles i) [] = Inr sel"
    using Cons.prems(1) by (auto simp: Let_def split: if_splits sum.splits)
  have fresh: "ip_Name i \<notin> ip_Name ` set incs" using Cons.prems(2) by simp
  show ?case
  proof (cases "inc = i")
    case True
    have "recorded pc byName i (if ip_Bundles i = [] then ?ex else ?ex\<lparr>ex_selected := mput (ip_Name i) sel (ex_selected ?ex)\<rparr>)"
      using sel(2) select_bundles_Inr [of byName "ip_Name i" "ip_Bundles i" "[]" sel] Cons.prems(3)
      by (auto simp: recorded_def mget_default_def [where m = "ex_selected ex"])
    then show ?thesis using build_explicit_other [OF sel(1) fresh] recorded_cong True by blast
  next
    case False
    have "\<forall>j \<in> set incs. mget (ex_selected (if ip_Bundles i = [] then ?ex else ?ex\<lparr>ex_selected := mput (ip_Name i) sel (ex_selected ?ex)\<rparr>)) (ip_Name j) = None"
      using Cons.prems(3) fresh by (auto simp: image_iff)
    then show ?thesis using Cons.IH [OF sel(1)] Cons.prems(2,4) False by simp
  qed
qed simp

section \<open>The result of the filter\<close>

text \<open>The packages a run starts from.\<close>

abbreviation roots :: "fbc \<Rightarrow> include_package list \<Rightarrow> string set" where
  "roots cfg incs \<equiv> set (mkeys (fst (all_includes cfg incs)))"

lemma FilterFBC_Inr:
  assumes "FilterFBC pc cfg incs = Inr out" and "incs \<noteq> []"
  obtains ex st where "build_explicit pc (bundlesByName cfg) (snd (all_includes cfg incs)) \<lparr>ex_filters = [], ex_prev = [], ex_selected = []\<rparr> = Inr ex"
    "out = filter_output pc cfg ex st"
    "\<And>p. mget_bool (fs_pkgSet st) p \<longleftrightarrow> p \<in> needed pc cfg ex (roots cfg incs)"
    "\<And>n. mget_bool (fs_allowed st) n \<longleftrightarrow> (\<exists>p \<in> needed pc cfg ex (roots cfg incs). n \<in> set (fst (package_selection pc cfg ex p)))"
    "\<And>p c n. mget_bool (mget_default [] (mget_default [] (fs_entries st) p) c) n \<longleftrightarrow>
       p \<in> needed pc cfg ex (roots cfg incs) \<and> (c, n) \<in> set (snd (package_selection pc cfg ex p))"
proof -
  obtain ex where ex: "build_explicit pc (bundlesByName cfg) (snd (all_includes cfg incs)) \<lparr>ex_filters = [], ex_prev = [], ex_selected = []\<rparr> = Inr ex"
      and out: "out = filter_output pc cfg ex (filter_loop pc cfg ex (filter_start (fst (all_includes cfg incs))))"
    using assms by (auto simp: FilterFBC_def split: prod.splits sum.splits)
  have "all_true (fst (all_includes cfg incs))" using all_includes_ok unfolding includes_ok_def by blast
  then have t: "mget_bool (fst (all_includes cfg incs)) p \<longleftrightarrow> p \<in> roots cfg incs" for p by (rule all_true_iff)
  show thesis by (rule that [OF ex out filter_loop_result [OF t]])
qed


section \<open>The channels of the result\<close>

lemma per_channel_marks: "(c, n) \<in> set (snd (per_channel chs f)) \<longleftrightarrow> (\<exists>ch \<in> set chs. fc_Name ch = c \<and> n \<in> set (f ch))"
  by (auto simp: per_channel_def)

lemma channel_unique:
  assumes "distinct (map (\<lambda>c. (fc_Package c, fc_Name c)) chs)" and "c \<in> set chs" "d \<in> set chs" "fc_Package c = fc_Package d" "fc_Name c = fc_Name d"
  shows "c = d"
  using assms by (auto simp: distinct_map dest: inj_onD)

text \<open>A package asked for without channels, versions or bundles: the heads of its channels are selected.\<close>

definition heads_only_include :: "'v catalog_parsers \<Rightarrow> include_package \<Rightarrow> bool" where
  "heads_only_include pc inc \<longleftrightarrow> ip_Channels inc = [] \<and> ip_Bundles inc = [] \<and>
     version_bound pc (ib_MinVersion (ip_Bundle inc)) = None \<and> version_bound pc (ib_MaxVersion (ip_Bundle inc)) = None"

lemma heads_only_selection:
  assumes "recorded pc byName inc ex" and "heads_only_include pc inc" and "pkgHasChannelEntries cfg (ip_Name inc)"
  shows "package_selection pc cfg ex (ip_Name inc) =
    per_channel (channelsByPkg cfg (ip_Name inc)) (\<lambda>ch. channelHeadPlusN pc ch (ip_PreviousVersions inc) (bundlesByName cfg))"
proof -
  have sel: "selected_of ex (ip_Name inc) = []" using assms(1,2) by (simp add: recorded_def heads_only_include_def)
  have f: "mget (ex_filters ex) (ip_Name inc) = Some (buildPkgIncludeFilter pc inc)" and prev: "mget_default 0 (ex_prev ex) (ip_Name inc) = ip_PreviousVersions inc"
    using assms(1) by (simp_all add: recorded_def)
  have "headsOnlyExplicit cfg ex (ip_Name inc)"
    using assms(2,3) f sel by (simp add: headsOnlyExplicit_def buildPkgIncludeFilter_def heads_only_include_def pkgHasChannelEntries_def)
  then show ?thesis using assms(3) f sel prev by (simp add: package_selection_def Let_def)
qed

lemma heads_only_channel:
  assumes rec: "recorded pc byName inc ex" and ho: "heads_only_include pc inc" and u: "distinct (map (\<lambda>c. (fc_Package c, fc_Name c)) (cf_Channels cfg))"
    and d: "distinct (names (fc_Entries c))" and c: "c \<in> set (cf_Channels cfg)" "fc_Package c = ip_Name inc"
    and kept: "\<And>n. mget_bool kept n \<longleftrightarrow> (fc_Name c, n) \<in> set (snd (package_selection pc cfg ex (ip_Name inc)))"
  shows "length (channel_heads (repairChannelGraph (fc_Entries c) kept)) \<le> 1"
proof (cases "fc_Entries c = []")
  case False
  have "pkgHasChannelEntries cfg (ip_Name inc)" using c False by (auto simp: pkgHasChannelEntries_def channelsByPkg_def)
  note sel = heads_only_selection [OF rec ho this]
  have "mget_bool kept n \<longleftrightarrow> n \<in> set (channelHeadPlusN pc c (ip_PreviousVersions inc) (bundlesByName cfg))" for n
    unfolding kept sel per_channel_marks using c channel_unique [OF u _ c(1)] by (auto simp: channelsByPkg_def)
  from heads_only_single_head [OF d False this] obtain h where h: "set (channel_heads (repairChannelGraph (fc_Entries c) kept)) \<subseteq> {h}" by blast
  have "distinct (channel_heads (repairChannelGraph (fc_Entries c) kept))" using d by (simp add: channel_heads_eq repair_names)
  from distinct_card [OF this] card_mono [OF _ h] show ?thesis by simp
qed (simp add: repairChannelGraph_def channel_heads_def)

lemma default_channel_survives:
  assumes "ch \<in> set channels" and "fc_Package ch = fp_Name p"
  shows "\<exists>c \<in> set channels. fc_Package c = fp_Name p \<and> fc_Name c = fp_DefaultChannel (filter_package channels p)"
proof -
  let ?s = "map fc_Name (filter (\<lambda>c. fc_Package c = fp_Name p) channels)"
  have ne: "?s \<noteq> []" using assms by (auto simp: filter_empty_conv)
  then have "hd (sort ?s) \<in> set ?s" by (metis hd_in_set set_sort set_empty)
  then have "fp_DefaultChannel (filter_package channels p) \<in> set ?s"
    using ne by (cases "fp_DefaultChannel p \<in> set ?s") (simp_all add: filter_package_def Let_def)
  then show ?thesis by auto
qed

text \<open>
  Property C29. Every channel of a filtered catalog has entries, all of them entries of the source channel; the default channel of its package is a channel
  of the result; and the channels of a package that was requested by bundle names, or without any restriction, have at most one head, which is what
  the catalog server demands.
\<close>

theorem filtered_channels_serviceable:
  assumes "FilterFBC pc cfg incs = Inr out" and "incs \<noteq> []" and "distinct (map ip_Name incs)"
    and u: "distinct (map (\<lambda>c. (fc_Package c, fc_Name c)) (cf_Channels cfg))" and d: "\<And>c. c \<in> set (cf_Channels cfg) \<Longrightarrow> distinct (names (fc_Entries c))"
    and ch: "ch \<in> set (cf_Channels out)"
  shows "fc_Entries ch \<noteq> [] \<and>
    (\<exists>c \<in> set (cf_Channels cfg). fc_Package c = fc_Package ch \<and> fc_Name c = fc_Name ch \<and> set (names (fc_Entries ch)) \<subseteq> set (names (fc_Entries c))) \<and>
    (\<forall>p \<in> set (cf_Packages out). fp_Name p = fc_Package ch \<longrightarrow> (\<exists>c \<in> set (cf_Channels out). fc_Package c = fp_Name p \<and> fc_Name c = fp_DefaultChannel p)) \<and>
    (\<forall>inc \<in> set incs. ip_Name inc = fc_Package ch \<and> (ip_Bundles inc \<noteq> [] \<or> heads_only_include pc inc) \<longrightarrow> length (channel_heads (fc_Entries ch)) \<le> 1)"
proof -
  obtain ex st where ex: "build_explicit pc (bundlesByName cfg) (snd (all_includes cfg incs)) \<lparr>ex_filters = [], ex_prev = [], ex_selected = []\<rparr> = Inr ex"
      and out: "out = filter_output pc cfg ex st"
      and ent: "\<And>p c n. mget_bool (mget_default [] (mget_default [] (fs_entries st) p) c) n \<longleftrightarrow>
        p \<in> needed pc cfg ex (roots cfg incs) \<and> (c, n) \<in> set (snd (package_selection pc cfg ex p))"
      and pkg: "\<And>p. mget_bool (fs_pkgSet st) p \<longleftrightarrow> p \<in> needed pc cfg ex (roots cfg incs)"
    using FilterFBC_Inr [OF assms(1,2)] by metis
  obtain c where c: "c \<in> set (cf_Channels cfg)" "trim_channel pc cfg ex st c = Some ch"
    using ch by (auto simp: out filter_output_def Let_def map_filter_def)
  define kept where "kept = mget_default [] (mget_default [] (fs_entries st) (fc_Package c)) (fc_Name c)"
  let ?es = "repairChannelGraph (fc_Entries c) kept"
  have trim: "fc_Package c \<in> needed pc cfg ex (roots cfg incs)" "?es \<noteq> []"
      "ch = c\<lparr>fc_Entries := (if length (selected_of ex (fc_Package c)) > 0 then mergeChannelHeads pc ?es (bundlesByName cfg) else ?es)\<rparr>"
    using c(2) by (auto simp: trim_channel_def Let_def kept_def pkg split: if_splits)
  have ns: "names (fc_Entries ch) = names ?es" by (simp add: trim(3) merge_names)
  have same: "fc_Package ch = fc_Package c" "fc_Name ch = fc_Name c" by (simp_all add: trim(3))
  have des: "distinct (names ?es)" using d [OF c(1)] by (simp add: repair_names)
  have "length (channel_heads (fc_Entries ch)) \<le> 1" if i: "inc \<in> set incs" "ip_Name inc = fc_Package ch" "ip_Bundles inc \<noteq> [] \<or> heads_only_include pc inc" for inc
  proof -
    have rec: "recorded pc (bundlesByName cfg) inc ex"
      by (rule build_explicit_recorded [OF ex])
        (use all_includes_ok [of cfg incs] all_includes_member [OF assms(3), of cfg] i(1) in \<open>auto simp: includes_ok_def\<close>)
    show ?thesis
    proof (cases "length (selected_of ex (fc_Package c)) > 0")
      case True
      then have "fc_Entries ch = mergeChannelHeads pc ?es (bundlesByName cfg)" by (simp add: trim(3))
      then show ?thesis by (simp add: merge_heads [OF des])
    next
      case False
      then have "ip_Bundles inc = []" using rec i(2) same by (auto simp: recorded_def)
      then have ho: "heads_only_include pc inc" using i(3) by simp
      have "mget_bool kept n \<longleftrightarrow> (fc_Name c, n) \<in> set (snd (package_selection pc cfg ex (ip_Name inc)))" for n
        using trim(1) i(2) same by (simp add: kept_def ent)
      from heads_only_channel [OF rec ho u d [OF c(1)] c(1) _ this] show ?thesis using i(2) same False by (simp add: trim(3))
    qed
  qed
  moreover have "fc_Entries ch \<noteq> []" using trim(2) ns by (metis map_is_Nil_conv)
  moreover have "set (names (fc_Entries ch)) \<subseteq> set (names (fc_Entries c))" unfolding ns repair_names by auto
  moreover have "\<exists>c \<in> set (cf_Channels out). fc_Package c = fp_Name p \<and> fc_Name c = fp_DefaultChannel p"
    if p: "p \<in> set (cf_Packages out)" "fp_Name p = fc_Package ch" for p
  proof -
    obtain q where q: "p = filter_package (cf_Channels out) q" using p(1) by (auto simp: out filter_output_def Let_def)
    have "fp_Name p = fp_Name q" by (simp add: q filter_package_def Let_def)
    then show ?thesis using default_channel_survives [OF ch, of q] p(2) q by simp
  qed
  ultimately show ?thesis using c(1) same by auto
qed

text \<open>
  A catalog with one operator of three versions, whose newest one skips the others, and a package it requires.
\<close>

definition toy_catalog :: fbc where
  "toy_catalog = \<lparr>cf_Packages = [\<lparr>fp_Name = ''op'', fp_DefaultChannel = ''old''\<rparr>, \<lparr>fp_Name = ''dep'', fp_DefaultChannel = ''stable''\<rparr>, \<lparr>fp_Name = ''x'', fp_DefaultChannel = []\<rparr>],
     cf_Channels = [\<lparr>fc_Name = ''stable'', fc_Package = ''op'', fc_Entries = [chain_entry ''op.v3'' [] [''op.v2'', ''op.v1''], chain_entry ''op.v2'' [] [], chain_entry ''op.v1'' [] []]\<rparr>,
       \<lparr>fc_Name = ''stable'', fc_Package = ''dep'', fc_Entries = [chain_entry ''dep.v1'' [] []]\<rparr>],
     cf_Bundles = [toy_bundle ''op.v3'' ''op'' ''3'' [\<lparr>pr_Type = ''olm.package.required'', pr_Value = ''dep''\<rparr>], toy_bundle ''op.v2'' ''op'' ''2'' [],
       toy_bundle ''op.v1'' ''op'' ''1'' [], toy_bundle ''dep.v1'' ''dep'' ''1'' [], toy_bundle ''x.v1'' ''x'' ''1'' []]\<rparr>"

definition toy_filtered :: fbc where
  "toy_filtered = \<lparr>cf_Packages = [\<lparr>fp_Name = ''op'', fp_DefaultChannel = ''stable''\<rparr>, \<lparr>fp_Name = ''dep'', fp_DefaultChannel = ''stable''\<rparr>],
     cf_Channels = [\<lparr>fc_Name = ''stable'', fc_Package = ''op'', fc_Entries = [chain_entry ''op.v3'' [] [''op.v2'', ''op.v1'']]\<rparr>,
       \<lparr>fc_Name = ''stable'', fc_Package = ''dep'', fc_Entries = [chain_entry ''dep.v1'' [] []]\<rparr>],
     cf_Bundles = [toy_bundle ''op.v3'' ''op'' ''3'' [\<lparr>pr_Type = ''olm.package.required'', pr_Value = ''dep''\<rparr>], toy_bundle ''dep.v1'' ''dep'' ''1'' []]\<rparr>"

lemma toy_filter: "FilterFBC toy_parsers toy_catalog [named_include ''op''] = Inr toy_filtered"
  by code_simp


theorem filtered_channels_serviceable_witness:
  "length (channel_heads (fc_Entries \<lparr>fc_Name = ''stable'', fc_Package = ''op'', fc_Entries = [chain_entry ''op.v3'' [] [''op.v2'', ''op.v1'']]\<rparr>)) \<le> 1"
proof -
  let ?ch = "\<lparr>fc_Name = ''stable'', fc_Package = ''op'', fc_Entries = [chain_entry ''op.v3'' [] [''op.v2'', ''op.v1'']]\<rparr>"
  have "[named_include ''op''] \<noteq> []" "distinct (map ip_Name [named_include ''op''])" "?ch \<in> set (cf_Channels toy_filtered)"
    "distinct (map (\<lambda>c. (fc_Package c, fc_Name c)) (cf_Channels toy_catalog))" by (simp_all add: toy_filtered_def toy_catalog_def)
  moreover have "distinct (names (fc_Entries c))" if "c \<in> set (cf_Channels toy_catalog)" for c using that by (auto simp: toy_catalog_def chain_entry_def)
  moreover have "heads_only_include toy_parsers (named_include ''op'')" "ip_Name (named_include ''op'') = fc_Package ?ch"
    by (simp_all add: heads_only_include_def named_include_def version_bound_def)
  ultimately show ?thesis using filtered_channels_serviceable [OF toy_filter, of ?ch] by auto
qed

text \<open>
  A version range can take a head from its channel and leave several entries that nothing supersedes: the source channel has one head,
  the channel of the filtered catalog has two.
\<close>

theorem version_range_adds_heads:
  "channel_heads (fc_Entries (cf_Channels toy_catalog ! 0)) = [''op.v3''] \<and>
   (\<exists>out. FilterFBC toy_parsers toy_catalog [(named_include ''op'')\<lparr>ip_Bundle := \<lparr>ib_MinVersion = [], ib_MaxVersion = ''2''\<rparr>\<rparr>] = Inr out \<and>
      map (\<lambda>ch. (fc_Package ch, channel_heads (fc_Entries ch))) (cf_Channels out) = [(''op'', [''op.v2'', ''op.v1''])])"
proof -
  let ?inc = "(named_include ''op'')\<lparr>ip_Bundle := \<lparr>ib_MinVersion = [], ib_MaxVersion = ''2''\<rparr>\<rparr>"
  have "case FilterFBC toy_parsers toy_catalog [?inc] of Inl e \<Rightarrow> False
      | Inr out \<Rightarrow> map (\<lambda>ch. (fc_Package ch, channel_heads (fc_Entries ch))) (cf_Channels out) = [(''op'', [''op.v2'', ''op.v1''])]" by code_simp
  then have "\<exists>out. FilterFBC toy_parsers toy_catalog [?inc] = Inr out \<and>
      map (\<lambda>ch. (fc_Package ch, channel_heads (fc_Entries ch))) (cf_Channels out) = [(''op'', [''op.v2'', ''op.v1''])]" by (simp split: sum.splits)
  moreover have "channel_heads (fc_Entries (cf_Channels toy_catalog ! 0)) = [''op.v3'']" by code_simp
  ultimately show ?thesis by blast
qed

section \<open>Images\<close>

lemma addRef_fold:
  "mget (fold (\<lambda>(img, own). addRef img name) refs m) i =
     (if i \<noteq> [] \<and> i \<in> fst ` set refs then Some (mput name () (mget_default [] m i)) else mget m i)"
  by (induction refs arbitrary: m) (auto simp: addRef_def mget_default_def)

abbreviation refers :: "fbc_bundle \<Rightarrow> string \<Rightarrow> bool" where
  "refers b img \<equiv> img = fb_Image b \<or> img \<in> set (fb_RelatedImages b)"

lemma bundle_refs_images: "fst ` set (bundle_refs b) = {img. refers b img}"
  by (auto simp: bundle_refs_def image_iff)

lemma bundleSets_lookup:
  "case mget (bundleSets cfg) img of
     None \<Rightarrow> img = [] \<or> (\<forall>b \<in> set (cf_Bundles cfg). \<not> refers b img)
   | Some ns \<Rightarrow> img \<noteq> [] \<and> wf_map ns \<and> set (mkeys ns) = fb_Name ` {b \<in> set (cf_Bundles cfg). refers b img} \<and> ns \<noteq> []"
proof -
  have "case mget (fold (\<lambda>b m. fold (\<lambda>(img, own). addRef img (fb_Name b)) (bundle_refs b) m) bs []) img of
     None \<Rightarrow> img = [] \<or> (\<forall>b \<in> set bs. \<not> refers b img)
   | Some ns \<Rightarrow> img \<noteq> [] \<and> wf_map ns \<and> set (mkeys ns) = fb_Name ` {b \<in> set bs. refers b img} \<and> ns \<noteq> []" for bs
  proof (induction bs rule: rev_induct)
    case (snoc b bs)
    let ?m = "fold (\<lambda>b m. fold (\<lambda>(img, own). addRef img (fb_Name b)) (bundle_refs b) m) bs []"
    have ne: "mput k v m \<noteq> []" for k and v :: unit and m :: "(string, unit) gomap" using fst_set_put [of k v m] by auto
    have "{c \<in> set (bs @ [b]). refers c img} = (if refers b img then insert b {c \<in> set bs. refers c img} else {c \<in> set bs. refers c img})" by auto
    note sets = this
    show ?case
    proof (cases "img \<noteq> [] \<and> refers b img")
      case True
      have eq: "mget (fold (\<lambda>b m. fold (\<lambda>(img, own). addRef img (fb_Name b)) (bundle_refs b) m) (bs @ [b]) []) img =
          Some (mput (fb_Name b) () (mget_default [] ?m img))"
        unfolding fold_append comp_def fold_simps addRef_fold bundle_refs_images using True by simp
      have "wf_map (mget_default [] ?m img)" "fst ` set (mget_default [] ?m img) = fb_Name ` {c \<in> set bs. refers c img}"
        using snoc True by (cases "mget ?m img"; simp add: mget_default_def)+
      then show ?thesis unfolding eq option.case sets using True ne by simp
    next
      case False
      have eq: "mget (fold (\<lambda>b m. fold (\<lambda>(img, own). addRef img (fb_Name b)) (bundle_refs b) m) (bs @ [b]) []) img = mget ?m img"
        unfolding fold_append comp_def fold_simps addRef_fold bundle_refs_images using False by auto
      show ?thesis unfolding eq using snoc False sets by (cases "mget ?m img") auto
    qed
  qed simp
  then show ?thesis by (simp add: bundleSets_def)
qed

lemma isBundleImage_iff: "mget_bool (isBundleImage cfg) img \<longleftrightarrow> img \<noteq> [] \<and> (\<exists>b \<in> set (cf_Bundles cfg). fb_Image b = img)"
proof -
  have one: "mget_bool (fold (\<lambda>(img, own) m. if img \<noteq> [] \<and> own then mput img True m else m) (bundle_refs b) m) img \<longleftrightarrow>
      mget_bool m img \<or> img \<noteq> [] \<and> fb_Image b = img" for b m
  proof -
    have "fold (\<lambda>(img, own) m. if img \<noteq> [] \<and> own then mput img True m else m) (map (\<lambda>img. (img, False)) xs) m' = m'" for xs :: "string list" and m'
      by (induction xs) simp_all
    then show ?thesis by (auto simp: bundle_refs_def)
  qed
  have "mget_bool (fold (\<lambda>b m. fold (\<lambda>(img, own) m. if img \<noteq> [] \<and> own then mput img True m else m) (bundle_refs b) m) bs m) img \<longleftrightarrow>
      mget_bool m img \<or> img \<noteq> [] \<and> (\<exists>b \<in> set bs. fb_Image b = img)" for bs m
    by (induction bs arbitrary: m) (auto simp: one)
  then show ?thesis by (simp add: isBundleImage_def)
qed

text \<open>
  The images of a catalog are exactly the non-empty bundle and related images of its bundles. Each is labelled with the names of the bundles that
  refer to it, in order and without duplicates, and marked as a bundle image exactly when it is the own image of a bundle.
\<close>

theorem catalog_images_exact:
  "mget (ExtractImagesWithBundles cfg) img =
     (if img \<noteq> [] \<and> (\<exists>b \<in> set (cf_Bundles cfg). refers b img)
      then Some \<lparr>bi_Label = renderBundleRefs (sorted_list_of_set (fb_Name ` {b \<in> set (cf_Bundles cfg). refers b img})),
                 bi_IsBundleImage = (\<exists>b \<in> set (cf_Bundles cfg). fb_Image b = img)\<rparr>
      else None)"
proof -
  have l: "mget (ExtractImagesWithBundles cfg) img = map_option (\<lambda>ns. \<lparr>bi_Label = renderBundleRefs (sort (mkeys ns)), bi_IsBundleImage = mget_bool (isBundleImage cfg) img\<rparr>)
      (mget (bundleSets cfg) img)"
    unfolding ExtractImagesWithBundles_def by (rule mget_map_snd)
  have s: "sort (mkeys ns) = sorted_list_of_set (set (mkeys ns))" if "wf_map ns" for ns :: "(string, unit) gomap"
    using that sorted_list_of_set_sort_remdups [of "mkeys ns"] by (simp add: wf_map_def distinct_remdups_id del: set_map)
  show ?thesis
  proof (cases "mget (bundleSets cfg) img")
    case None
    then show ?thesis using bundleSets_lookup [where cfg = cfg and img = img] l by auto
  next
    case (Some ns)
    then have ns: "img \<noteq> []" "wf_map ns" "set (mkeys ns) = fb_Name ` {b \<in> set (cf_Bundles cfg). refers b img}" "ns \<noteq> []"
      using bundleSets_lookup [where cfg = cfg and img = img] by simp_all
    have "set (mkeys ns) \<noteq> {}" using ns(4) by simp
    then have "\<exists>b \<in> set (cf_Bundles cfg). refers b img" unfolding ns(3) by auto
    then show ?thesis using Some l s [OF ns(2)] ns(1) unfolding ns(3) isBundleImage_iff by simp
  qed
qed

end
