(* ===== verification/CatalogLayers.thy ===== *)
theory CatalogLayers
  imports CatalogFilter ReleasePayload
begin

text \<open>
  Reading a file-based catalog out of the layers of its image (\<open>pkg/mirror/catalog/resolver.go\<close>): extracting the files under \<open>configs/\<close>, classifying layers,
  loading and resolving a catalog. The registry client is the one of \<open>ReleasePayload\<close>; gzip and tar, \<open>declcfg.LoadFS\<close> and the reference library are
  parameters. A layer that was opened is the sequence of its tar headers, each with the bytes that can be read for it.
\<close>

section \<open>Layers\<close>

datatype tar_type = TypeReg | TypeDir | TypeOther

record tar_header =
  th_Name :: string
  th_Type :: tar_type
  th_Size :: nat
  th_Body :: string

datatype layer_item = LayerFile tar_header | LayerBroken string

datatype layer_error = IncompleteFBC string | NotGzip string

type_synonym map_fs = "(string, string) gomap"

definition configsPath :: string where
  "configsPath = ''configs/''"

definition cachePath :: string where
  "cachePath = ''tmp/cache/''"

definition maxFBCFileSize :: nat where
  "maxFBCFileSize = 512 * 1024 * 1024"

definition readFBCFile :: "tar_header \<Rightarrow> string \<Rightarrow> layer_error + string" where
  "readFBCFile hdr name =
     (if th_Size hdr > maxFBCFileSize then Inl (IncompleteFBC name)
      else if length (th_Body hdr) < th_Size hdr then Inl (IncompleteFBC name)
      else Inr (take (th_Size hdr) (th_Body hdr)))"

fun extract_items :: "layer_item list \<Rightarrow> nat \<Rightarrow> map_fs \<Rightarrow> layer_error + nat \<times> map_fs" where
  "extract_items [] found fs = Inr (found, fs)"
| "extract_items (LayerBroken e # items) found fs = Inl (IncompleteFBC e)"
| "extract_items (LayerFile hdr # items) found fs =
     (let name = trimPrefix (th_Name hdr) ''./''
      in if \<not> hasPrefix name configsPath then extract_items items found fs
         else if th_Type hdr \<noteq> TypeReg then extract_items items found fs
         else (case readFBCFile hdr name of
                 Inl e \<Rightarrow> Inl e
               | Inr data \<Rightarrow> extract_items items (found + 1) (mput name data fs)))"

definition extractFBCLayer :: "(string \<Rightarrow> string + layer_item list) \<Rightarrow> string \<Rightarrow> map_fs \<Rightarrow> layer_error + nat \<times> map_fs" where
  "extractFBCLayer gunzip r fs = (case gunzip r of Inl _ \<Rightarrow> Inr (0, fs) | Inr items \<Rightarrow> extract_items items 0 fs)"

section \<open>Classification\<close>

record layer_class =
  lc_sawAny :: bool
  lc_fbcOnly :: bool
  lc_totalSize :: nat
  lc_firstReject :: string
  lc_fs :: map_fs

definition reject :: "string \<Rightarrow> layer_class \<Rightarrow> layer_class" where
  "reject name c = (if lc_fbcOnly c then c\<lparr>lc_firstReject := name, lc_fbcOnly := False\<rparr> else c)"

fun classify_items :: "layer_item list \<Rightarrow> layer_class \<Rightarrow> layer_error + layer_class" where
  "classify_items [] c = Inr c"
| "classify_items (LayerBroken e # items) c = Inl (IncompleteFBC e)"
| "classify_items (LayerFile hdr # items) c =
     (let name = trimPrefix (th_Name hdr) ''./''
      in if th_Type hdr = TypeDir then classify_items items c
         else (case (if th_Type hdr = TypeReg \<and> hasPrefix name configsPath
                     then map_sum id (\<lambda>data. c\<lparr>lc_fs := mput name data (lc_fs c)\<rparr>) (readFBCFile hdr name) else Inr c) of
                 Inl e \<Rightarrow> Inl e
               | Inr c1 \<Rightarrow>
                   if \<not> hasPrefix name configsPath \<and> \<not> hasPrefix name cachePath then classify_items items (reject name c1)
                   else if th_Type hdr \<noteq> TypeReg then classify_items items (reject (name @ '' (non-regular file)'') c1)
                   else classify_items items (c1\<lparr>lc_sawAny := True, lc_totalSize := lc_totalSize c1 + th_Size hdr\<rparr>)))"

text \<open>The result: whether the layer can be skipped, its size and first other file, and the files read so far.\<close>

definition classifyAndExtractFBC ::
  "(string \<Rightarrow> string + layer_item list) \<Rightarrow> string \<Rightarrow> map_fs \<Rightarrow> layer_error + bool \<times> nat \<times> string \<times> map_fs" where
  "classifyAndExtractFBC gunzip r configFS =
     (case gunzip r of
        Inl e \<Rightarrow> Inl (NotGzip e)
      | Inr items \<Rightarrow>
          (case classify_items items \<lparr>lc_sawAny = False, lc_fbcOnly = True, lc_totalSize = 0, lc_firstReject = [], lc_fs = configFS\<rparr> of
             Inl e \<Rightarrow> Inl e
           | Inr c \<Rightarrow> Inr (lc_sawAny c \<and> lc_fbcOnly c, lc_totalSize c, lc_firstReject c, lc_fs c)))"

record 'd classify_result =
  cr_keptLayers :: "'d list"
  cr_keptDiffIDs :: "string list"
  cr_configFS :: map_fs

definition keep_layer :: "'d \<times> string \<Rightarrow> 'd classify_result \<Rightarrow> 'd classify_result" where
  "keep_layer l r = r\<lparr>cr_keptLayers := cr_keptLayers r @ [fst l], cr_keptDiffIDs := cr_keptDiffIDs r @ [snd l]\<rparr>"

fun classify_layers ::
  "('d \<Rightarrow> string + string) \<Rightarrow> (string \<Rightarrow> string + layer_item list) \<Rightarrow> ('d \<times> string) list \<Rightarrow> 'd classify_result \<Rightarrow> layer_error + 'd classify_result" where
  "classify_layers blob gunzip [] r = Inr r"
| "classify_layers blob gunzip (l # ls) r =
     (case blob (fst l) of
        Inl _ \<Rightarrow> classify_layers blob gunzip ls (keep_layer l r)
      | Inr rdr \<Rightarrow>
          (case classifyAndExtractFBC gunzip rdr (cr_configFS r) of
             Inl (IncompleteFBC e) \<Rightarrow> Inl (IncompleteFBC e)
           | Inl (NotGzip e) \<Rightarrow> classify_layers blob gunzip ls (keep_layer l r)
           | Inr (skip, sz, firstReject, fs) \<Rightarrow>
               if skip then classify_layers blob gunzip ls (r\<lparr>cr_configFS := fs\<rparr>)
               else classify_layers blob gunzip ls (keep_layer l (r\<lparr>cr_configFS := fs\<rparr>))))"

text \<open>The caller has checked that there are as many diff ids as layers.\<close>

definition classifySourceLayers ::
  "('d \<Rightarrow> string + string) \<Rightarrow> (string \<Rightarrow> string + layer_item list) \<Rightarrow> 'd list \<Rightarrow> string list \<Rightarrow> layer_error + 'd classify_result" where
  "classifySourceLayers blob gunzip srcLayers srcDiffIDs =
     classify_layers blob gunzip (zip srcLayers srcDiffIDs) \<lparr>cr_keptLayers = [], cr_keptDiffIDs = [], cr_configFS = []\<rparr>"

section \<open>Loading\<close>

datatype load_error = BadCatalogRef string | CatalogManifest string | NoAmd64 string | LayerFailed layer_error | NoConfigFiles string | BadFBC string
  | NoRegistryClient | FilterFailed catalog_error

definition parseExtractedFBC :: "(map_fs \<Rightarrow> string + fbc) \<Rightarrow> map_fs \<Rightarrow> string \<Rightarrow> load_error + fbc" where
  "parseExtractedFBC loadFS configFS imageLabel =
     (if length configFS = 0 then Inl (NoConfigFiles imageLabel)
      else (case loadFS configFS of Inl e \<Rightarrow> Inl (BadFBC e) | Inr cfg \<Rightarrow> Inr cfg))"

definition resolveManifestList ::
  "('m, 'd, 'p) payload_registry \<Rightarrow> payload_ref \<Rightarrow> 'm \<Rightarrow> string \<Rightarrow> load_error + payload_ref \<times> 'm" where
  "resolveManifestList reg localRef m imageLabel =
     (if \<not> pr_is_list reg m then Inr (localRef, m)
      else (case pr_platform_parse reg ''linux/amd64'' of
              Inl e \<Rightarrow> Inl (NoAmd64 imageLabel)
            | Inr p \<Rightarrow>
                (case pr_platform_desc reg m p of
                   Inl e \<Rightarrow> Inl (NoAmd64 imageLabel)
                 | Inr desc \<Rightarrow>
                     (let localRef' = localRef\<lparr>pl_Digest := pr_digest reg desc, pl_Tag := []\<rparr>
                      in case pr_manifest_get reg localRef' of
                           Inl e \<Rightarrow> Inl (CatalogManifest imageLabel)
                         | Inr resolved \<Rightarrow> Inr (localRef', resolved)))))"

fun load_layers :: "('d \<Rightarrow> string + string) \<Rightarrow> (string \<Rightarrow> string + layer_item list) \<Rightarrow> 'd list \<Rightarrow> nat \<Rightarrow> map_fs \<Rightarrow> layer_error + nat \<times> map_fs" where
  "load_layers blob gunzip [] blobErrs fs = Inr (blobErrs, fs)"
| "load_layers blob gunzip (l # ls) blobErrs fs =
     (case blob l of
        Inl _ \<Rightarrow> load_layers blob gunzip ls (blobErrs + 1) fs
      | Inr rdr \<Rightarrow> (case extractFBCLayer gunzip rdr fs of
                      Inl e \<Rightarrow> Inl e
                    | Inr (n, fs') \<Rightarrow> load_layers blob gunzip ls blobErrs fs'))"

definition loadFBCFromImage ::
  "('m, 'd, 'p) payload_registry \<Rightarrow> (string \<Rightarrow> string + layer_item list) \<Rightarrow> (map_fs \<Rightarrow> string + fbc) \<Rightarrow> string \<Rightarrow> load_error + fbc" where
  "loadFBCFromImage reg gunzip loadFS catalogImage =
     (case pr_ref_new reg catalogImage of
        Inl e \<Rightarrow> Inl (BadCatalogRef catalogImage)
      | Inr imgRef0 \<Rightarrow>
          (case pr_manifest_get reg imgRef0 of
             Inl e \<Rightarrow> Inl (CatalogManifest catalogImage)
           | Inr m0 \<Rightarrow>
               (case resolveManifestList reg imgRef0 m0 catalogImage of
                  Inl e \<Rightarrow> Inl e
                | Inr (imgRef, m) \<Rightarrow>
                    (case pr_layers reg m of
                       Inl e \<Rightarrow> Inl (CatalogManifest catalogImage)
                     | Inr layers \<Rightarrow>
                         (case load_layers (pr_blob_get reg imgRef) gunzip layers 0 [] of
                            Inl e \<Rightarrow> Inl (LayerFailed e)
                          | Inr (blobErrs, configFS) \<Rightarrow> parseExtractedFBC loadFS configFS catalogImage)))))"

section \<open>Resolving\<close>

definition GetCatalogDigest :: "('m, 'd, 'p) payload_registry \<Rightarrow> (string \<Rightarrow> string + string) option \<Rightarrow> string \<Rightarrow> load_error + string" where
  "GetCatalogDigest reg getDigest catalogImage =
     (case pr_ref_new reg catalogImage of
        Inl e \<Rightarrow> Inl (BadCatalogRef catalogImage)
      | Inr parsed \<Rightarrow>
          if pl_Digest parsed \<noteq> [] then Inr (pl_Digest parsed)
          else (case getDigest of
                  None \<Rightarrow> Inl NoRegistryClient
                | Some get \<Rightarrow> (case get catalogImage of Inl e \<Rightarrow> Inl (CatalogManifest e) | Inr d \<Rightarrow> Inr d)))"

text \<open>\<open>commonName\<close> prints a reference: with a digest, the name and the digest.\<close>

definition PinDigest :: "(string \<Rightarrow> string + payload_ref) \<Rightarrow> (payload_ref \<Rightarrow> string) \<Rightarrow> string \<Rightarrow> string \<Rightarrow> load_error + string" where
  "PinDigest refNew commonName catalogImage digest =
     (case refNew catalogImage of
        Inl e \<Rightarrow> Inl (BadCatalogRef catalogImage)
      | Inr parsed \<Rightarrow> Inr (commonName (parsed\<lparr>pl_Digest := digest, pl_Tag := []\<rparr>)))"

definition ResolveCatalogFull ::
  "('v :: linorder) catalog_parsers \<Rightarrow> (string \<Rightarrow> string + payload_ref) \<Rightarrow> ('m, 'd, 'p) payload_registry option \<Rightarrow> (string \<Rightarrow> string + layer_item list)
    \<Rightarrow> (map_fs \<Rightarrow> string + fbc) \<Rightarrow> string \<Rightarrow> include_package list \<Rightarrow> load_error + ((string, bundle_image_info) gomap \<times> fbc \<times> fbc) option" where
  "ResolveCatalogFull pc refNew client gunzip loadFS catalogImage incs =
     (case refNew catalogImage of
        Inl e \<Rightarrow> Inl (BadCatalogRef catalogImage)
      | Inr _ \<Rightarrow>
          (case client of
             None \<Rightarrow> Inr None
           | Some reg \<Rightarrow>
               (case loadFBCFromImage reg gunzip loadFS catalogImage of
                  Inl e \<Rightarrow> Inl e
                | Inr upstream \<Rightarrow>
                    (case FilterFBC pc upstream incs of
                       Inl e \<Rightarrow> Inl (FilterFailed e)
                     | Inr filtered \<Rightarrow> Inr (Some (ExtractImagesWithBundles filtered, filtered, upstream))))))"

definition ResolveCatalogWithBundles_fbc ::
  "('v :: linorder) catalog_parsers \<Rightarrow> (string \<Rightarrow> string + payload_ref) \<Rightarrow> ('m, 'd, 'p) payload_registry option \<Rightarrow> (string \<Rightarrow> string + layer_item list)
    \<Rightarrow> (map_fs \<Rightarrow> string + fbc) \<Rightarrow> string \<Rightarrow> include_package list \<Rightarrow> load_error + (string, bundle_image_info) gomap" where
  "ResolveCatalogWithBundles_fbc pc refNew client gunzip loadFS catalogImage incs =
     map_sum id (\<lambda>r. case r of None \<Rightarrow> [] | Some (images, filtered, upstream) \<Rightarrow> images) (ResolveCatalogFull pc refNew client gunzip loadFS catalogImage incs)"

definition LoadFBC ::
  "('m, 'd, 'p) payload_registry option \<Rightarrow> (string \<Rightarrow> string + layer_item list) \<Rightarrow> (map_fs \<Rightarrow> string + fbc) \<Rightarrow> string \<Rightarrow> load_error + fbc" where
  "LoadFBC client gunzip loadFS catalogImage =
     (case client of None \<Rightarrow> Inl NoRegistryClient | Some reg \<Rightarrow> loadFBCFromImage reg gunzip loadFS catalogImage)"

definition ResolveCatalog ::
  "('v :: linorder) catalog_parsers \<Rightarrow> (string \<Rightarrow> string + payload_ref) \<Rightarrow> ('m, 'd, 'p) payload_registry option \<Rightarrow> (string \<Rightarrow> string + layer_item list)
    \<Rightarrow> (map_fs \<Rightarrow> string + fbc) \<Rightarrow> string \<Rightarrow> string list \<Rightarrow> load_error + string list" where
  "ResolveCatalog pc refNew client gunzip loadFS catalogImage packages =
     (case refNew catalogImage of
        Inl e \<Rightarrow> Inl (BadCatalogRef catalogImage)
      | Inr _ \<Rightarrow>
          (case client of
             None \<Rightarrow> Inr []
           | Some reg \<Rightarrow>
               if length packages = 0 then Inr [catalogImage]
               else (case loadFBCFromImage reg gunzip loadFS catalogImage of
                       Inl e \<Rightarrow> Inl e
                     | Inr cfg \<Rightarrow>
                         (case FilterFBC pc cfg (map named_include packages) of
                            Inl e \<Rightarrow> Inl (FilterFailed e)
                          | Inr filtered \<Rightarrow> Inr (catalogImage # ExtractImages filtered)))))"

section \<open>The files of a layer\<close>

text \<open>What a complete layer contributes: its regular files under \<open>configs/\<close>, in order, each with its full content.\<close>

definition config_file :: "layer_item \<Rightarrow> (string \<times> string) list" where
  "config_file item = (case item of LayerBroken e \<Rightarrow> []
     | LayerFile hdr \<Rightarrow> if th_Type hdr = TypeReg \<and> hasPrefix (trimPrefix (th_Name hdr) ''./'') configsPath
                       then [(trimPrefix (th_Name hdr) ''./'', take (th_Size hdr) (th_Body hdr))] else [])"

definition complete_item :: "layer_item \<Rightarrow> bool" where
  "complete_item item = (case item of LayerBroken e \<Rightarrow> False
     | LayerFile hdr \<Rightarrow> th_Type hdr = TypeReg \<and> hasPrefix (trimPrefix (th_Name hdr) ''./'') configsPath \<longrightarrow>
         th_Size hdr \<le> maxFBCFileSize \<and> th_Size hdr \<le> length (th_Body hdr))"

abbreviation put_files :: "(string \<times> string) list \<Rightarrow> map_fs \<Rightarrow> map_fs" where
  "put_files files fs \<equiv> fold (\<lambda>(k, v). mput k v) files fs"

abbreviation config_files :: "layer_item list \<Rightarrow> (string \<times> string) list" where
  "config_files items \<equiv> concat (map config_file items)"

lemma extract_items_step:
  "extract_items (item # items) found fs =
     (if complete_item item then extract_items items (found + length (config_file item)) (put_files (config_file item) fs)
      else Inl (case item of LayerBroken e \<Rightarrow> IncompleteFBC e | LayerFile hdr \<Rightarrow> IncompleteFBC (trimPrefix (th_Name hdr) ''./'')))"
  by (cases item) (auto simp: complete_item_def config_file_def readFBCFile_def Let_def)

lemma extract_items_result:
  "extract_items items found fs =
     (if list_all complete_item items then Inr (found + length (config_files items), put_files (config_files items) fs)
      else Inl (case hd (dropWhile complete_item items) of LayerBroken e \<Rightarrow> IncompleteFBC e
                | LayerFile hdr \<Rightarrow> IncompleteFBC (trimPrefix (th_Name hdr) ''./'')))"
proof (induction items arbitrary: found fs)
  case (Cons item items)
  show ?case unfolding extract_items_step using Cons by simp
qed simp

text \<open>The classification reads the same files.\<close>

lemma classify_items_step:
  "classify_items (item # items) c =
     (if complete_item item
      then classify_items items (case item of LayerBroken e \<Rightarrow> c | LayerFile hdr \<Rightarrow>
             let name = trimPrefix (th_Name hdr) ''./''; c1 = c\<lparr>lc_fs := put_files (config_file item) (lc_fs c)\<rparr>
             in if th_Type hdr = TypeDir then c
                else if \<not> hasPrefix name configsPath \<and> \<not> hasPrefix name cachePath then reject name c1
                else if th_Type hdr \<noteq> TypeReg then reject (name @ '' (non-regular file)'') c1
                else c1\<lparr>lc_sawAny := True, lc_totalSize := lc_totalSize c1 + th_Size hdr\<rparr>)
      else Inl (case item of LayerBroken e \<Rightarrow> IncompleteFBC e | LayerFile hdr \<Rightarrow> IncompleteFBC (trimPrefix (th_Name hdr) ''./'')))"
  by (cases item) (auto simp: complete_item_def config_file_def readFBCFile_def Let_def)

text \<open>A file that only the catalog server needs: under \<open>configs/\<close> or the cache, and regular.\<close>

definition fbc_item :: "layer_item \<Rightarrow> bool" where
  "fbc_item item = (case item of LayerBroken e \<Rightarrow> False
     | LayerFile hdr \<Rightarrow> th_Type hdr = TypeReg \<and> (hasPrefix (trimPrefix (th_Name hdr) ''./'') configsPath \<or> hasPrefix (trimPrefix (th_Name hdr) ''./'') cachePath))"

definition dir_item :: "layer_item \<Rightarrow> bool" where
  "dir_item item = (case item of LayerBroken e \<Rightarrow> False | LayerFile hdr \<Rightarrow> th_Type hdr = TypeDir)"

lemma lc_reject [simp]: "lc_fs (reject n c) = lc_fs c" "lc_sawAny (reject n c) = lc_sawAny c" "\<not> lc_fbcOnly (reject n c)"
  by (simp_all add: reject_def)

lemma classify_items_result:
  "case classify_items items c of
     Inl e \<Rightarrow> \<not> list_all complete_item items \<and> e = (case hd (dropWhile complete_item items) of LayerBroken e \<Rightarrow> IncompleteFBC e
                | LayerFile hdr \<Rightarrow> IncompleteFBC (trimPrefix (th_Name hdr) ''./''))
   | Inr c' \<Rightarrow> list_all complete_item items \<and> lc_fs c' = put_files (config_files items) (lc_fs c) \<and>
       (lc_fbcOnly c' \<longleftrightarrow> lc_fbcOnly c \<and> (\<forall>item \<in> set items. fbc_item item \<or> dir_item item)) \<and>
       (lc_sawAny c' \<longleftrightarrow> lc_sawAny c \<or> (\<exists>item \<in> set items. fbc_item item))"
proof (induction items arbitrary: c)
  case (Cons item items)
  show ?case
  proof (cases "complete_item item")
    case True
    then obtain hdr where hdr: "item = LayerFile hdr" by (cases item) (auto simp: complete_item_def)
    define c1 where "c1 = (let name = trimPrefix (th_Name hdr) ''./''; c1 = c\<lparr>lc_fs := put_files (config_file item) (lc_fs c)\<rparr>
             in if th_Type hdr = TypeDir then c
                else if \<not> hasPrefix name configsPath \<and> \<not> hasPrefix name cachePath then reject name c1
                else if th_Type hdr \<noteq> TypeReg then reject (name @ '' (non-regular file)'') c1
                else c1\<lparr>lc_sawAny := True, lc_totalSize := lc_totalSize c1 + th_Size hdr\<rparr>)"
    have eq: "classify_items (item # items) c = classify_items items c1"
      unfolding classify_items_step c1_def using True by (simp add: hdr)
    have c1: "lc_fs c1 = put_files (config_file item) (lc_fs c)" "lc_fbcOnly c1 \<longleftrightarrow> lc_fbcOnly c \<and> (fbc_item item \<or> dir_item item)"
        "lc_sawAny c1 \<longleftrightarrow> lc_sawAny c \<or> fbc_item item"
      by (auto simp: c1_def hdr Let_def fbc_item_def dir_item_def config_file_def)
    show ?thesis unfolding eq using Cons [of c1] True by (auto simp: c1 split: sum.splits)
  qed (simp add: classify_items_step split: layer_item.splits)
qed simp

section \<open>All layers\<close>

text \<open>The items of a layer that can be fetched and is compressed; others contribute none.\<close>

definition layer_items :: "('d \<Rightarrow> string + string) \<Rightarrow> (string \<Rightarrow> string + layer_item list) \<Rightarrow> 'd \<Rightarrow> layer_item list" where
  "layer_items blob gunzip l = (case blob l of Inl _ \<Rightarrow> [] | Inr r \<Rightarrow> (case gunzip r of Inl _ \<Rightarrow> [] | Inr items \<Rightarrow> items))"

abbreviation catalog_files :: "('d \<Rightarrow> string + string) \<Rightarrow> (string \<Rightarrow> string + layer_item list) \<Rightarrow> 'd list \<Rightarrow> (string \<times> string) list" where
  "catalog_files blob gunzip layers \<equiv> concat (map (\<lambda>l. config_files (layer_items blob gunzip l)) layers)"

abbreviation complete_layer :: "('d \<Rightarrow> string + string) \<Rightarrow> (string \<Rightarrow> string + layer_item list) \<Rightarrow> 'd \<Rightarrow> bool" where
  "complete_layer blob gunzip l \<equiv> list_all complete_item (layer_items blob gunzip l)"

definition replaceable :: "('d \<Rightarrow> string + string) \<Rightarrow> (string \<Rightarrow> string + layer_item list) \<Rightarrow> 'd \<Rightarrow> bool" where
  "replaceable blob gunzip l \<longleftrightarrow> (\<exists>item \<in> set (layer_items blob gunzip l). fbc_item item) \<and>
     (\<forall>item \<in> set (layer_items blob gunzip l). fbc_item item \<or> dir_item item)"

definition broken_error :: "layer_item list \<Rightarrow> layer_error" where
  "broken_error items = (case hd (dropWhile complete_item items) of LayerBroken e \<Rightarrow> IncompleteFBC e
     | LayerFile hdr \<Rightarrow> IncompleteFBC (trimPrefix (th_Name hdr) ''./''))"

lemma load_layers_result:
  "\<exists>n. load_layers blob gunzip layers k fs =
     (if list_all (complete_layer blob gunzip) layers then Inr (n, put_files (catalog_files blob gunzip layers) fs)
      else Inl (broken_error (layer_items blob gunzip (hd (dropWhile (complete_layer blob gunzip) layers)))))"
proof (induction layers arbitrary: k fs)
  case (Cons l ls)
  have step: "\<exists>n. load_layers blob gunzip (l # ls) k fs =
      (if complete_layer blob gunzip l then load_layers blob gunzip ls n (put_files (config_files (layer_items blob gunzip l)) fs)
       else Inl (broken_error (layer_items blob gunzip l)))"
    by (auto simp: layer_items_def extractFBCLayer_def extract_items_result broken_error_def split: sum.splits)
  obtain n where n: "load_layers blob gunzip (l # ls) k fs =
      (if complete_layer blob gunzip l then load_layers blob gunzip ls n (put_files (config_files (layer_items blob gunzip l)) fs)
       else Inl (broken_error (layer_items blob gunzip l)))" using step by blast
  show ?case unfolding n using Cons [of n "put_files (config_files (layer_items blob gunzip l)) fs"]
    by (cases "list_all (complete_layer blob gunzip) ls") (elim exE; simp)+
qed simp

lemma classify_layers_result:
  "case classify_layers blob gunzip ls r of
     Inl e \<Rightarrow> \<not> list_all (complete_layer blob gunzip) (map fst ls) \<and>
        e = broken_error (layer_items blob gunzip (hd (dropWhile (complete_layer blob gunzip) (map fst ls))))
   | Inr r' \<Rightarrow> list_all (complete_layer blob gunzip) (map fst ls) \<and>
       cr_configFS r' = put_files (catalog_files blob gunzip (map fst ls)) (cr_configFS r) \<and>
       cr_keptLayers r' = cr_keptLayers r @ map fst (filter (\<lambda>l. \<not> replaceable blob gunzip (fst l)) ls) \<and>
       cr_keptDiffIDs r' = cr_keptDiffIDs r @ map snd (filter (\<lambda>l. \<not> replaceable blob gunzip (fst l)) ls)"
proof (induction ls arbitrary: r)
  case (Cons l ls)
  let ?items = "layer_items blob gunzip (fst l)"
  define r1 where "r1 = (let r0 = r\<lparr>cr_configFS := put_files (config_files ?items) (cr_configFS r)\<rparr>
      in if replaceable blob gunzip (fst l) then r0 else keep_layer l r0)"
  have step: "classify_layers blob gunzip (l # ls) r =
      (if complete_layer blob gunzip (fst l) then classify_layers blob gunzip ls r1 else Inl (broken_error ?items))"
  proof (cases "blob (fst l)")
    case (Inl e)
    then show ?thesis by (simp add: r1_def layer_items_def replaceable_def)
  next
    case (Inr rdr)
    show ?thesis
    proof (cases "gunzip rdr")
      case (Inl e)
      then show ?thesis using Inr by (simp add: r1_def layer_items_def replaceable_def classifyAndExtractFBC_def)
    next
      case g: (Inr items)
      have it: "?items = items" using Inr g by (simp add: layer_items_def)
      show ?thesis
        using classify_items_result [of items "\<lparr>lc_sawAny = False, lc_fbcOnly = True, lc_totalSize = 0, lc_firstReject = [], lc_fs = cr_configFS r\<rparr>"] Inr g
        unfolding r1_def replaceable_def it broken_error_def
        by (auto simp: classifyAndExtractFBC_def Let_def split: sum.splits layer_item.splits)
    qed
  qed
  have "cr_configFS r1 = put_files (config_files ?items) (cr_configFS r)"
    "cr_keptLayers r1 = cr_keptLayers r @ (if replaceable blob gunzip (fst l) then [] else [fst l])"
    "cr_keptDiffIDs r1 = cr_keptDiffIDs r @ (if replaceable blob gunzip (fst l) then [] else [snd l])"
    by (simp_all add: r1_def keep_layer_def Let_def)
  then show ?case unfolding step using Cons [of r1] by (simp split: sum.splits)
qed simp

text \<open>
  Property C27. Building a filtered catalog reads the same files as resolving it, when every layer can be fetched: with the same layers, both fail with the same error or get
  the same content, which is the regular files under configs/ of all gzip layers, later ones over earlier ones, none of them truncated. A layer is replaced if it has at least one
  regular file under configs/ or the cache and, apart from directories, nothing else; every other layer, also one that is empty or not gzip, is kept, in its place and with its own diff id.
\<close>

theorem build_reads_resolved_catalog:
  assumes "length diffs = length layers" and "list_all (\<lambda>l. \<exists>r. blob l = Inr r) layers"
  shows "case classifySourceLayers blob gunzip layers diffs of
     Inl e \<Rightarrow> load_layers blob gunzip layers 0 [] = Inl e
   | Inr r \<Rightarrow> (\<exists>n. load_layers blob gunzip layers 0 [] = Inr (n, cr_configFS r)) \<and> cr_configFS r = put_files (catalog_files blob gunzip layers) [] \<and>
       (\<forall>l \<in> set layers. complete_layer blob gunzip l) \<and>
       zip (cr_keptLayers r) (cr_keptDiffIDs r) = filter (\<lambda>l. \<not> replaceable blob gunzip (fst l)) (zip layers diffs)"
proof -
  have fst: "map fst (zip layers diffs) = layers" using assms by simp
  note c = classify_layers_result [of blob gunzip "zip layers diffs" "\<lparr>cr_keptLayers = [], cr_keptDiffIDs = [], cr_configFS = []\<rparr>", unfolded fst]
  obtain n where n: "load_layers blob gunzip layers 0 [] =
     (if list_all (complete_layer blob gunzip) layers then Inr (n, put_files (catalog_files blob gunzip layers) [])
      else Inl (broken_error (layer_items blob gunzip (hd (dropWhile (complete_layer blob gunzip) layers)))))"
    using load_layers_result by blast
  have z: "zip (map fst xs) (map snd xs) = xs" for xs :: "('a \<times> string) list" by (simp add: zip_map_fst_snd)
  show ?thesis unfolding classifySourceLayers_def n using c by (auto simp: z list_all_iff split: sum.splits)
qed

theorem build_reads_resolved_catalog_witness:
  "case classifySourceLayers (\<lambda>l :: nat. Inr (if l = 9 then ''raw'' else ''x''))
      (\<lambda>s. if s = ''raw'' then Inl ''no gzip'' else Inr [LayerFile \<lparr>th_Name = ''configs/a.yaml'', th_Type = TypeReg, th_Size = 2, th_Body = ''ok''\<rparr>]) [1, 9] [''d1'', ''d9''] of
     Inl e \<Rightarrow> False | Inr r \<Rightarrow> zip (cr_keptLayers r) (cr_keptDiffIDs r) = [(9, ''d9'')] \<and> cr_configFS r = [(''configs/a.yaml'', ''ok'')]"
proof -
  let ?blob = "\<lambda>l :: nat. Inr (if l = 9 then ''raw'' else ''x'') :: string + string"
  let ?gunzip = "\<lambda>s. if s = ''raw'' then Inl ''no gzip'' else Inr [LayerFile \<lparr>th_Name = ''configs/a.yaml'', th_Type = TypeReg, th_Size = 2, th_Body = ''ok''\<rparr>] :: string + layer_item list"
  have pre: "hasPrefix (trimPrefix ''configs/a.yaml'' ''./'') configsPath" "trimPrefix ''configs/a.yaml'' ''./'' = ''configs/a.yaml''" by code_simp+
  have items: "layer_items ?blob ?gunzip 9 = []" "layer_items ?blob ?gunzip 1 = [LayerFile \<lparr>th_Name = ''configs/a.yaml'', th_Type = TypeReg, th_Size = 2, th_Body = ''ok''\<rparr>]"
    by (simp_all add: layer_items_def)
  have rep: "replaceable ?blob ?gunzip 1" "\<not> replaceable ?blob ?gunzip 9" unfolding replaceable_def items using pre by (simp_all add: fbc_item_def)
  have files: "put_files (catalog_files ?blob ?gunzip [1, 9]) [] = [(''configs/a.yaml'', ''ok'')]" unfolding list.map items using pre by (simp add: config_file_def)
  have comp: "complete_item (LayerFile \<lparr>th_Name = ''configs/a.yaml'', th_Type = TypeReg, th_Size = 2, th_Body = ''ok''\<rparr>)"
    by (simp add: complete_item_def maxFBCFileSize_def)
  have cf: "config_file (LayerFile \<lparr>th_Name = ''configs/a.yaml'', th_Type = TypeReg, th_Size = 2, th_Body = ''ok''\<rparr>) = [(''configs/a.yaml'', ''ok'')]"
    using pre by (simp add: config_file_def)
  have "extractFBCLayer ?gunzip ''x'' [] = Inr (1, [(''configs/a.yaml'', ''ok'')])"
    using comp cf by (simp add: extractFBCLayer_def extract_items_result)
  moreover have "extractFBCLayer ?gunzip ''raw'' fs = Inr (0, fs)" for fs by (simp add: extractFBCLayer_def)
  ultimately have load: "\<exists>n. load_layers ?blob ?gunzip [1, 9] 0 [] = Inr (n, [(''configs/a.yaml'', ''ok'')])" by simp
  have keep: "filter (\<lambda>l. \<not> replaceable ?blob ?gunzip (fst l)) (zip [1, 9] [''d1'', ''d9'']) = [(9, ''d9'')]" using rep by simp
  have pre: "length [''d1'', ''d9''] = length [1 :: nat, 9]" "list_all (\<lambda>l. \<exists>r. ?blob l = Inr r) [1 :: nat, 9]" by simp_all
  note b = build_reads_resolved_catalog [OF pre, of ?gunzip, unfolded files keep]
  show ?thesis
  proof (cases "classifySourceLayers ?blob ?gunzip [1, 9] [''d1'', ''d9'']")
    case (Inl e)
    then show ?thesis using b load by (simp only: sum.case) (elim exE, simp only: sum.distinct)
  next
    case (Inr r)
    then show ?thesis using b by (simp only: sum.case)
  qed
qed

section \<open>Layers that cannot be fetched\<close>

lemma load_layers_skip:
  assumes "blob l = Inl e"
  shows "map_sum id snd (load_layers blob gunzip (before @ l # later) k fs) = map_sum id snd (load_layers blob gunzip (before @ later) k' fs)"
proof (induction before arbitrary: k k' fs)
  case Nil
  have "map_sum id snd (load_layers blob gunzip ls k fs) = map_sum id snd (load_layers blob gunzip ls k' fs)" for ls k k' fs
    by (induction ls arbitrary: k k' fs) (auto split: sum.splits)
  from this [of later "k + 1" fs k'] show ?case using assms by (simp add: id_def)
next
  case (Cons b before)
  then show ?case by (auto split: sum.splits)
qed

text \<open>
  A catalog image with a layer that cannot be fetched loads as if the layer did not exist, as long as another layer has catalog
  files: the packages of that layer are missing from a catalog that is taken for the whole.
\<close>

theorem unreadable_layer_ignored:
  assumes "pr_ref_new reg img = Inr r0" and "pr_manifest_get reg r0 = Inr m" and "\<not> pr_is_list reg m"
    and "pr_layers reg m = Inr (before @ l # later)" and "pr_blob_get reg r0 l = Inl e"
  shows "loadFBCFromImage reg gunzip loadFS img = loadFBCFromImage (reg\<lparr>pr_layers := (\<lambda>_. Inr (before @ later))\<rparr>) gunzip loadFS img"
proof -
  have "map_sum id snd (load_layers (pr_blob_get reg r0) gunzip (before @ l # later) 0 []) = map_sum id snd (load_layers (pr_blob_get reg r0) gunzip (before @ later) 0 [])"
    by (rule load_layers_skip [where blob = "pr_blob_get reg r0", OF assms(5)])
  then show ?thesis using assms(1-4)
    by (cases "load_layers (pr_blob_get reg r0) gunzip (before @ l # later) 0 []"; cases "load_layers (pr_blob_get reg r0) gunzip (before @ later) 0 []")
      (auto simp: loadFBCFromImage_def resolveManifestList_def)
qed

definition flaky_registry :: "(unit, nat, unit) payload_registry" where
  "flaky_registry = \<lparr>pr_ref_new = (\<lambda>s. Inr \<lparr>pl_Base = s, pl_Tag = [], pl_Digest = []\<rparr>), pr_manifest_get = (\<lambda>_. Inr ()), pr_is_list = (\<lambda>_. False),
     pr_manifest_list = (\<lambda>_. Inl []), pr_platform_parse = (\<lambda>_. Inl []), pr_platform_desc = (\<lambda>_ _. Inl []), pr_linux_amd64 = (), pr_digest = (\<lambda>_. []),
     pr_layers = (\<lambda>_. Inr [1, 2]), pr_blob_get = (\<lambda>_ l. if l = 2 then Inl ''timeout'' else Inr []), pr_gunzip = (\<lambda>_. Inl [])\<rparr>"

theorem unreadable_layer_ignored_witness:
  "loadFBCFromImage flaky_registry (\<lambda>_. Inr [LayerFile \<lparr>th_Name = ''configs/a.yaml'', th_Type = TypeReg, th_Size = 2, th_Body = ''ok''\<rparr>]) (\<lambda>_. Inr toy_catalog) ''q/cat'' =
   loadFBCFromImage (flaky_registry\<lparr>pr_layers := (\<lambda>_. Inr [1])\<rparr>) (\<lambda>_. Inr [LayerFile \<lparr>th_Name = ''configs/a.yaml'', th_Type = TypeReg, th_Size = 2, th_Body = ''ok''\<rparr>]) (\<lambda>_. Inr toy_catalog) ''q/cat''"
  using unreadable_layer_ignored [where reg = flaky_registry and img = "''q/cat''" and before = "[1]" and l = 2 and later = "[]"]
  by (simp add: flaky_registry_def)

end
