(* ===== verification/CatalogBuild.thy ===== *)
theory CatalogBuild
  imports CatalogLayers Chart
begin

text \<open>
  Building and pushing a filtered catalog image (\<open>BuildFilteredCatalogImage\<close> and \<open>buildFBCLayer\<close> in \<open>pkg/mirror/catalog/resolver.go\<close>). The source image is read from a local copy through the registry client of \<open>ReleasePayload\<close>. The target
  registry is a state \<open>'w\<close> with the operations of \<open>target_registry\<close>. Tar, gzip, digests, YAML and the JSON of the image configuration are parameters; layers
  are uploaded one after the other, pauses and deadlines are left out.
\<close>

section \<open>The overlay layer\<close>

definition add_channel :: "fbc_channel \<Rightarrow> (string, fbc) gomap \<Rightarrow> (string, fbc) gomap" where
  "add_channel c m = (case mget m (fc_Package c) of
     None \<Rightarrow> m | Some pc \<Rightarrow> mput (fc_Package c) (pc\<lparr>cf_Channels := cf_Channels pc @ [c]\<rparr>) m)"

definition add_bundle :: "fbc_bundle \<Rightarrow> (string, fbc) gomap \<Rightarrow> (string, fbc) gomap" where
  "add_bundle b m = (case mget m (fb_Package b) of
     None \<Rightarrow> m | Some pc \<Rightarrow> mput (fb_Package b) (pc\<lparr>cf_Bundles := cf_Bundles pc @ [b]\<rparr>) m)"

definition pkgCfgs :: "fbc \<Rightarrow> (string, fbc) gomap" where
  "pkgCfgs cfg = fold add_bundle (cf_Bundles cfg) (fold add_channel (cf_Channels cfg)
     (fold (\<lambda>p. mput (fp_Name p) \<lparr>cf_Packages = [p], cf_Channels = [], cf_Bundles = []\<rparr>) (cf_Packages cfg) []))"

definition dir_entry :: "string \<Rightarrow> tar_header" where
  "dir_entry name = \<lparr>th_Name = name, th_Type = TypeDir, th_Size = 0, th_Body = []\<rparr>"

definition file_entry :: "string \<Rightarrow> string \<Rightarrow> tar_header" where
  "file_entry name body = \<lparr>th_Name = name, th_Type = TypeReg, th_Size = length body, th_Body = body\<rparr>"

definition overlay_prefix :: "tar_header list" where
  "overlay_prefix = [dir_entry ''configs/'', file_entry ''configs/.wh..wh..opq'' [], dir_entry ''tmp/'', dir_entry ''tmp/cache/'',
     file_entry ''tmp/cache/.wh..wh..opq'' []]"

fun package_entries :: "(fbc \<Rightarrow> string + string) \<Rightarrow> (string, fbc) gomap \<Rightarrow> string list \<Rightarrow> string + tar_header list" where
  "package_entries writeYAML cfgs [] = Inr []"
| "package_entries writeYAML cfgs (n # ns) =
     (case mget cfgs n of
        None \<Rightarrow> package_entries writeYAML cfgs ns
      | Some pc \<Rightarrow>
          (case writeYAML pc of
             Inl e \<Rightarrow> Inl e
           | Inr yaml \<Rightarrow> map_sum id (\<lambda>rest. dir_entry (''configs/'' @ n @ ''/'') # file_entry (''configs/'' @ n @ ''/catalog.yaml'') yaml # rest)
                           (package_entries writeYAML cfgs ns)))"

definition overlay_entries :: "(fbc \<Rightarrow> string + string) \<Rightarrow> fbc \<Rightarrow> string + tar_header list" where
  "overlay_entries writeYAML cfg = map_sum id ((@) overlay_prefix) (package_entries writeYAML (pkgCfgs cfg) (sort (mkeys (pkgCfgs cfg))))"

text \<open>The compressed layer and the digest of its uncompressed tar.\<close>

definition buildFBCLayer :: "(fbc \<Rightarrow> string + string) \<Rightarrow> (tar_header list \<Rightarrow> string) \<Rightarrow> (tar_header list \<Rightarrow> string) \<Rightarrow> fbc \<Rightarrow> string + string \<times> string" where
  "buildFBCLayer writeYAML gzipTar tarDigest cfg =
     map_sum id (\<lambda>entries. (gzipTar entries, tarDigest entries)) (overlay_entries writeYAML cfg)"

section \<open>Uploads\<close>

record ('w, 'r) target_registry =
  tr_head :: "'w \<Rightarrow> 'r \<Rightarrow> string option"
  tr_blob_exists :: "'w \<Rightarrow> 'r \<Rightarrow> descriptor \<Rightarrow> bool"
  tr_blob_put :: "'w \<Rightarrow> 'r \<Rightarrow> descriptor \<Rightarrow> string \<Rightarrow> 'w \<times> string option"
  tr_manifest_put :: "'w \<Rightarrow> 'r \<Rightarrow> oci_manifest \<Rightarrow> 'w \<times> string option"

definition blobGetAndPut :: "('w, 'r) target_registry \<Rightarrow> (descriptor \<Rightarrow> string + string) \<Rightarrow> 'r \<Rightarrow> descriptor \<Rightarrow> 'w \<Rightarrow> 'w \<times> string option" where
  "blobGetAndPut tr blob dst d w =
     (case blob d of Inl e \<Rightarrow> (w, Some (''BlobGet '' @ e)) | Inr data \<Rightarrow> tr_blob_put tr w dst d data)"

fun blobCopyWithRetry ::
  "('w, 'r) target_registry \<Rightarrow> (descriptor \<Rightarrow> string + string) \<Rightarrow> 'r \<Rightarrow> descriptor \<Rightarrow> nat \<Rightarrow> string option \<Rightarrow> 'w \<Rightarrow> 'w \<times> string option" where
  "blobCopyWithRetry tr blob dst d 0 lastErr w = (w, lastErr)"
| "blobCopyWithRetry tr blob dst d (Suc n) lastErr w =
     (case blobGetAndPut tr blob dst d w of
        (w1, None) \<Rightarrow> (w1, None)
      | (w1, Some e) \<Rightarrow> blobCopyWithRetry tr blob dst d n (Some e) w1)"

fun upload_layers :: "('w, 'r) target_registry \<Rightarrow> (descriptor \<Rightarrow> string + string) \<Rightarrow> 'r \<Rightarrow> descriptor list \<Rightarrow> 'w \<Rightarrow> 'w \<times> string option" where
  "upload_layers tr blob dst [] w = (w, None)"
| "upload_layers tr blob dst (l # ls) w =
     (if tr_blob_exists tr w dst l then upload_layers tr blob dst ls w
      else (case blobCopyWithRetry tr blob dst l 3 None w of
              (w1, Some e) \<Rightarrow> (w1, Some e)
            | (w1, None) \<Rightarrow> upload_layers tr blob dst ls w1))"

definition put_unless_present :: "('w, 'r) target_registry \<Rightarrow> 'r \<Rightarrow> descriptor \<Rightarrow> string \<Rightarrow> 'w \<Rightarrow> 'w \<times> string option" where
  "put_unless_present tr dst d data w = (if tr_blob_exists tr w dst d then (w, None) else tr_blob_put tr w dst d data)"

section \<open>The image\<close>

record image_history =
  hi_Created :: "string option"
  hi_CreatedBy :: string
  hi_Comment :: string

record image_config =
  gc_Created :: "string option"
  gc_DiffIDs :: "string list"
  gc_Labels :: "(string, string) gomap"
  gc_Cmd :: "string list"
  gc_History :: "image_history list"

record ('m, 'p) catalog_source =
  sc_tempDir :: "string + string"
  sc_download :: "string \<Rightarrow> string \<Rightarrow> string option"
  sc_local :: "('m, descriptor, 'p) payload_registry"
  sc_config :: "payload_ref \<Rightarrow> string + image_config"
  sc_gunzip :: "string \<Rightarrow> string + layer_item list"
  sc_loadFS :: "map_fs \<Rightarrow> string + fbc"
  sc_writeYAML :: "fbc \<Rightarrow> string + string"
  sc_gzipTar :: "tar_header list \<Rightarrow> string"
  sc_tarDigest :: "tar_header list \<Rightarrow> string"
  sc_digest :: "string \<Rightarrow> string"
  sc_configJSON :: "image_config \<Rightarrow> string + string"
  sc_manifestDigest :: "oci_manifest \<Rightarrow> string + string"

datatype build_error = BuildNoClient | BadTarget string | NoTempDir string | DownloadFailed string | BadLocalRef string | LocalManifest string | LoadFailed load_error
  | LocalConfig string | SourceLayers string | LayerMismatch string | ExtractFailed layer_error | BuildFilter catalog_error | LayerBuild string
  | ConfigJSON string | ManifestBuild string | UploadFailed string | PushLayerFailed string | PushConfigFailed string | PushManifestFailed string

definition overlay_config :: "image_config \<Rightarrow> string list \<Rightarrow> string \<Rightarrow> nat \<Rightarrow> image_config" where
  "overlay_config cfg keptDiffIDs diffID npkgs =
     cfg\<lparr>gc_DiffIDs := keptDiffIDs @ [diffID],
         gc_Labels := mput ''operators.operatorframework.io.index.configs.v1'' ''/configs'' (gc_Labels cfg),
         gc_Cmd := [''serve'', ''/configs'', ''--cache-dir=/tmp/cache'', ''--cache-enforce-integrity=false''],
         gc_History := gc_History cfg @ [\<lparr>hi_Created = gc_Created cfg, hi_CreatedBy = ''oc-mirror-operator: filtered FBC overlay'',
                                         hi_Comment = ''filtered to '' @ Itoa (int npkgs) @ '' packages''\<rparr>]\<rparr>"

text \<open>Steps 2 to 7: the kept layers with their diff ids, the image configuration, the blobs of the local copy and the filtered catalog.\<close>

definition read_source ::
  "('v :: linorder) catalog_parsers \<Rightarrow> ('m, 'p) catalog_source \<Rightarrow> string \<Rightarrow> include_package list
    \<Rightarrow> build_error + payload_ref \<times> image_config \<times> descriptor classify_result \<times> fbc" where
  "read_source pc src sourceImage incs =
     (case sc_tempDir src of
        Inl e \<Rightarrow> Inl (NoTempDir e)
      | Inr tmpDir \<Rightarrow>
          (case sc_download src sourceImage tmpDir of
             Some e \<Rightarrow> Inl (DownloadFailed e)
           | None \<Rightarrow>
               (case pr_ref_new (sc_local src) (''ocidir://'' @ tmpDir @ '':source'') of
                  Inl e \<Rightarrow> Inl (BadLocalRef e)
                | Inr ref0 \<Rightarrow>
                    (case pr_manifest_get (sc_local src) ref0 of
                       Inl e \<Rightarrow> Inl (LocalManifest e)
                     | Inr m0 \<Rightarrow>
                         (case resolveManifestList (sc_local src) ref0 m0 sourceImage of
                            Inl e \<Rightarrow> Inl (LoadFailed e)
                          | Inr (localRef, m) \<Rightarrow>
                              (case sc_config src localRef of
                                 Inl e \<Rightarrow> Inl (LocalConfig e)
                               | Inr config \<Rightarrow>
                                   (case pr_layers (sc_local src) m of
                                      Inl e \<Rightarrow> Inl (SourceLayers e)
                                    | Inr srcLayers \<Rightarrow>
                                        if length (gc_DiffIDs config) \<noteq> length srcLayers then Inl (LayerMismatch sourceImage)
                                        else (case classifySourceLayers (pr_blob_get (sc_local src) localRef) (sc_gunzip src) srcLayers (gc_DiffIDs config) of
                                                Inl e \<Rightarrow> Inl (ExtractFailed e)
                                              | Inr cr \<Rightarrow>
                                                  (case parseExtractedFBC (sc_loadFS src) (cr_configFS cr) sourceImage of
                                                     Inl e \<Rightarrow> Inl (LoadFailed e)
                                                   | Inr cfg \<Rightarrow>
                                                       (case FilterFBC pc cfg incs of
                                                          Inl e \<Rightarrow> Inl (BuildFilter e)
                                                        | Inr filtered \<Rightarrow> Inr (localRef, config, cr, filtered)))))))))))"

record catalog_image =
  ca_manifest :: oci_manifest
  ca_digest :: string
  ca_layerDesc :: descriptor
  ca_layerData :: string
  ca_configDesc :: descriptor
  ca_configData :: string

text \<open>Steps 8 to 10: the overlay layer, the configuration and the manifest.\<close>

definition assemble ::
  "('m, 'p) catalog_source \<Rightarrow> image_config \<Rightarrow> descriptor classify_result \<Rightarrow> fbc \<Rightarrow> build_error + catalog_image" where
  "assemble src config cr filtered =
     (case buildFBCLayer (sc_writeYAML src) (sc_gzipTar src) (sc_tarDigest src) filtered of
        Inl e \<Rightarrow> Inl (LayerBuild e)
      | Inr (layerData, diffID) \<Rightarrow>
          (case sc_configJSON src (overlay_config config (cr_keptDiffIDs cr) diffID (length (cf_Packages filtered))) of
             Inl e \<Rightarrow> Inl (ConfigJSON e)
           | Inr configData \<Rightarrow>
               (let layerDesc = descriptor_of (sc_digest src) ''application/vnd.oci.image.layer.v1.tar+gzip'' layerData;
                    configDesc = descriptor_of (sc_digest src) ''application/vnd.oci.image.config.v1+json'' configData;
                    m = \<lparr>om_MediaType = ''application/vnd.oci.image.manifest.v1+json'', om_Config = configDesc, om_Layers = cr_keptLayers cr @ [layerDesc]\<rparr>
                in case sc_manifestDigest src m of
                     Inl e \<Rightarrow> Inl (ManifestBuild e)
                   | Inr digest \<Rightarrow> Inr \<lparr>ca_manifest = m, ca_digest = digest, ca_layerDesc = layerDesc, ca_layerData = layerData,
                                      ca_configDesc = configDesc, ca_configData = configData\<rparr>)))"

text \<open>Steps 11 to 15: nothing when the target is up to date, otherwise the layers, the overlay, the configuration and last the manifest.\<close>

definition push_image ::
  "('w, 'r) target_registry \<Rightarrow> (descriptor \<Rightarrow> string + string) \<Rightarrow> 'r \<Rightarrow> descriptor list \<Rightarrow> catalog_image \<Rightarrow> 'w \<Rightarrow> 'w \<times> (build_error + string)" where
  "push_image tr blob destRef keptLayers img w =
     (if tr_head tr w destRef = Some (ca_digest img) then (w, Inr (ca_digest img))
      else (case upload_layers tr blob destRef keptLayers w of
              (w1, Some e) \<Rightarrow> (w1, Inl (UploadFailed e))
            | (w1, None) \<Rightarrow>
                (case put_unless_present tr destRef (ca_layerDesc img) (ca_layerData img) w1 of
                   (w2, Some e) \<Rightarrow> (w2, Inl (PushLayerFailed e))
                 | (w2, None) \<Rightarrow>
                     (case put_unless_present tr destRef (ca_configDesc img) (ca_configData img) w2 of
                        (w3, Some e) \<Rightarrow> (w3, Inl (PushConfigFailed e))
                      | (w3, None) \<Rightarrow>
                          (case tr_manifest_put tr w3 destRef (ca_manifest img) of
                             (w4, Some e) \<Rightarrow> (w4, Inl (PushManifestFailed e))
                           | (w4, None) \<Rightarrow> (w4, Inr (ca_digest img)))))))"

definition BuildFilteredCatalogImage ::
  "('v :: linorder) catalog_parsers \<Rightarrow> (string \<Rightarrow> string + 'r) \<Rightarrow> ('w, 'r) target_registry option \<Rightarrow> ('m, 'p) catalog_source \<Rightarrow> string \<Rightarrow> string
    \<Rightarrow> include_package list \<Rightarrow> 'w \<Rightarrow> 'w \<times> (build_error + string)" where
  "BuildFilteredCatalogImage pc refNew client src sourceImage targetRef incs w =
     (case client of
        None \<Rightarrow> (w, Inl BuildNoClient)
      | Some tr \<Rightarrow>
          (case refNew targetRef of
             Inl e \<Rightarrow> (w, Inl (BadTarget targetRef))
           | Inr destRef \<Rightarrow>
               (case read_source pc src sourceImage incs of
                  Inl e \<Rightarrow> (w, Inl e)
                | Inr (localRef, config, cr, filtered) \<Rightarrow>
                    (case assemble src config cr filtered of
                       Inl e \<Rightarrow> (w, Inl e)
                     | Inr img \<Rightarrow> push_image tr (pr_blob_get (sc_local src) localRef) destRef (cr_keptLayers cr) img w))))"

section \<open>What is pushed\<close>

text \<open>
  What the build relies on of a registry: a blob that was put is there, blobs do not disappear and the tag does not move by putting blobs, and a
  tag points at the manifest that was put last.
\<close>

definition registry_ok :: "(oci_manifest \<Rightarrow> string + string) \<Rightarrow> ('w, 'r) target_registry \<Rightarrow> bool" where
  "registry_ok digestOf tr \<longleftrightarrow>
     (\<forall>w r d data w' e. tr_blob_put tr w r d data = (w', e) \<longrightarrow>
        (e = None \<longrightarrow> tr_blob_exists tr w' r d) \<and> (\<forall>d'. tr_blob_exists tr w r d' \<longrightarrow> tr_blob_exists tr w' r d') \<and> tr_head tr w' r = tr_head tr w r) \<and>
     (\<forall>w r m w' e. tr_manifest_put tr w r m = (w', e) \<longrightarrow>
        (\<forall>d'. tr_blob_exists tr w r d' \<longrightarrow> tr_blob_exists tr w' r d') \<and> (e = None \<longrightarrow> (\<forall>d. digestOf m = Inr d \<longrightarrow> tr_head tr w' r = Some d)))"

text \<open>A step that adds blobs only.\<close>

definition adds_blobs :: "('w, 'r) target_registry \<Rightarrow> 'r \<Rightarrow> 'w \<Rightarrow> 'w \<Rightarrow> bool" where
  "adds_blobs tr r w w' \<longleftrightarrow> (\<forall>d. tr_blob_exists tr w r d \<longrightarrow> tr_blob_exists tr w' r d) \<and> tr_head tr w' r = tr_head tr w r"

lemma adds_blobs_refl [simp]: "adds_blobs tr r w w"
  by (simp add: adds_blobs_def)

lemma adds_blobs_trans: "adds_blobs tr r w w1 \<Longrightarrow> adds_blobs tr r w1 w2 \<Longrightarrow> adds_blobs tr r w w2"
  by (simp add: adds_blobs_def)

lemma put_adds:
  assumes "registry_ok digestOf tr" and "tr_blob_put tr w r d data = (w', e)"
  shows "adds_blobs tr r w w' \<and> (e = None \<longrightarrow> tr_blob_exists tr w' r d)"
  using assms unfolding registry_ok_def adds_blobs_def by blast

lemma copy_adds:
  assumes "registry_ok digestOf tr"
  shows "blobCopyWithRetry tr blob dst d n lastErr w = (w', e) \<Longrightarrow> n > 0 \<or> lastErr \<noteq> None \<Longrightarrow>
    adds_blobs tr dst w w' \<and> (e = None \<longrightarrow> tr_blob_exists tr w' dst d)"
proof (induction n arbitrary: lastErr w)
  case (Suc n)
  obtain w1 e1 where p: "blobGetAndPut tr blob dst d w = (w1, e1)" by fastforce
  have one: "adds_blobs tr dst w w1 \<and> (e1 = None \<longrightarrow> tr_blob_exists tr w1 dst d)"
    using p put_adds [OF assms] by (auto simp: blobGetAndPut_def split: sum.splits)
  show ?case
  proof (cases e1)
    case None
    then show ?thesis using Suc.prems(1) p one by simp
  next
    case (Some e')
    then have "blobCopyWithRetry tr blob dst d n (Some e') w1 = (w', e)" using Suc.prems(1) p by simp
    from Suc.IH [OF this] show ?thesis using one adds_blobs_trans [of tr dst w w1 w'] by simp
  qed
qed auto

lemma upload_adds:
  assumes "registry_ok digestOf tr"
  shows "upload_layers tr blob dst ls w = (w', e) \<Longrightarrow> adds_blobs tr dst w w' \<and> (e = None \<longrightarrow> (\<forall>l \<in> set ls. tr_blob_exists tr w' dst l))"
proof (induction ls arbitrary: w)
  case (Cons l ls)
  show ?case
  proof (cases "tr_blob_exists tr w dst l")
    case True
    then show ?thesis using Cons by (auto simp: adds_blobs_def)
  next
    case False
    obtain w1 e1 where c: "blobCopyWithRetry tr blob dst l 3 None w = (w1, e1)" by fastforce
    have one: "adds_blobs tr dst w w1" "e1 = None \<longrightarrow> tr_blob_exists tr w1 dst l" using copy_adds [OF assms c] by simp_all
    show ?thesis
    proof (cases e1)
      case None
      then have "upload_layers tr blob dst ls w1 = (w', e)" using Cons.prems False c by simp
      from Cons.IH [OF this] show ?thesis using one None by (auto simp: adds_blobs_def)
    next
      case (Some e')
      then show ?thesis using Cons.prems False c one by auto
    qed
  qed
qed simp

lemma put_unless_adds:
  assumes "registry_ok digestOf tr" and "put_unless_present tr dst d data w = (w', e)"
  shows "adds_blobs tr dst w w' \<and> (e = None \<longrightarrow> tr_blob_exists tr w' dst d)"
  using assms(2) put_adds [OF assms(1)] by (auto simp: put_unless_present_def split: if_splits)

lemma push_image_result:
  assumes ok: "registry_ok digestOf tr" and dg: "digestOf (ca_manifest img) = Inr (ca_digest img)"
    and push: "push_image tr blob dst layers img w = (w', res)"
  shows "case res of
     Inr d \<Rightarrow> d = ca_digest img \<and> tr_head tr w' dst = Some d \<and>
       (w' = w \<or> (\<forall>b \<in> set layers \<union> {ca_layerDesc img, ca_configDesc img}. tr_blob_exists tr w' dst b))
   | Inl e \<Rightarrow> (\<exists>msg. e = PushManifestFailed msg) \<or> tr_head tr w' dst = tr_head tr w dst"
proof (cases "tr_head tr w dst = Some (ca_digest img)")
  case True
  then show ?thesis using push by (auto simp: push_image_def)
next
  case False
  obtain w1 e1 where 1: "upload_layers tr blob dst layers w = (w1, e1)" by fastforce
  note a1 = upload_adds [OF ok 1]
  show ?thesis
  proof (cases e1)
    case (Some x)
    then show ?thesis using push False 1 a1 by (auto simp: push_image_def adds_blobs_def)
  next
    case n1: None
    obtain w2 e2 where 2: "put_unless_present tr dst (ca_layerDesc img) (ca_layerData img) w1 = (w2, e2)" by fastforce
    note a2 = put_unless_adds [OF ok 2]
    show ?thesis
    proof (cases e2)
      case (Some x)
      then show ?thesis using push False 1 2 n1 a1 a2 by (auto simp: push_image_def adds_blobs_def)
    next
      case n2: None
      obtain w3 e3 where 3: "put_unless_present tr dst (ca_configDesc img) (ca_configData img) w2 = (w3, e3)" by fastforce
      note a3 = put_unless_adds [OF ok 3]
      obtain w4 e4 where 4: "tr_manifest_put tr w3 dst (ca_manifest img) = (w4, e4)" by fastforce
      have m: "(\<forall>d'. tr_blob_exists tr w3 dst d' \<longrightarrow> tr_blob_exists tr w4 dst d') \<and> (e4 = None \<longrightarrow> tr_head tr w4 dst = Some (ca_digest img))"
        using ok 4 dg unfolding registry_ok_def by blast
      show ?thesis using push False 1 2 3 4 n1 n2 a1 a2 a3 m by (cases e3; cases e4) (auto simp: push_image_def adds_blobs_def)
    qed
  qed
qed

lemma assemble_digest: "assemble src config cr filtered = Inr img \<Longrightarrow> sc_manifestDigest src (ca_manifest img) = Inr (ca_digest img) \<and>
    set (om_Layers (ca_manifest img)) = set (cr_keptLayers cr) \<union> {ca_layerDesc img} \<and> om_Config (ca_manifest img) = ca_configDesc img"
  by (auto simp: assemble_def Let_def split: sum.splits)

lemma build_Some:
  assumes "refNew target = Inr dst" and "read_source pc src sourceImage incs = Inr (localRef, config, cr, filtered)" and "assemble src config cr filtered = Inr img"
  shows "BuildFilteredCatalogImage pc refNew (Some tr) src sourceImage target incs w =
    push_image tr (pr_blob_get (sc_local src) localRef) dst (cr_keptLayers cr) img w"
  using assms by (simp add: BuildFilteredCatalogImage_def)

text \<open>
  Property C26. A build that reports a digest has left the target pointing at the manifest of that digest, and unless it was there before, every blob the
  manifest names is in the registry. Building once more changes nothing. A build that fails, except in pushing the manifest itself, has not moved the target.
\<close>

theorem build_publishes_complete_image:
  assumes "registry_ok (sc_manifestDigest src) tr" and "refNew target = Inr dst"
    and "BuildFilteredCatalogImage pc refNew (Some tr) src sourceImage target incs w = (w', res)"
  shows "case res of
     Inl e \<Rightarrow> (\<exists>msg. e = PushManifestFailed msg) \<or> tr_head tr w' dst = tr_head tr w dst
   | Inr d \<Rightarrow> tr_head tr w' dst = Some d \<and>
       (w' = w \<or> (\<exists>m. sc_manifestDigest src m = Inr d \<and> (\<forall>b \<in> insert (om_Config m) (set (om_Layers m)). tr_blob_exists tr w' dst b))) \<and>
       BuildFilteredCatalogImage pc refNew (Some tr) src sourceImage target incs w' = (w', Inr d)"
proof (cases "read_source pc src sourceImage incs")
  case (Inl e)
  then show ?thesis using assms(2,3) by (auto simp: BuildFilteredCatalogImage_def)
next
  case (Inr r)
  obtain localRef config cr filtered where r: "r = (localRef, config, cr, filtered)" by (cases r) auto
  show ?thesis
  proof (cases "assemble src config cr filtered")
    case (Inl e)
    then show ?thesis using assms(2,3) Inr r by (auto simp: BuildFilteredCatalogImage_def)
  next
    case img: (Inr img)
    note b = build_Some [where refNew = refNew and target = target, OF assms(2) Inr [unfolded r] img]
    note d = assemble_digest [OF img]
    have "case res of
       Inr d \<Rightarrow> d = ca_digest img \<and> tr_head tr w' dst = Some d \<and>
         (w' = w \<or> (\<forall>b \<in> set (cr_keptLayers cr) \<union> {ca_layerDesc img, ca_configDesc img}. tr_blob_exists tr w' dst b))
     | Inl e \<Rightarrow> (\<exists>msg. e = PushManifestFailed msg) \<or> tr_head tr w' dst = tr_head tr w dst"
      using push_image_result [OF assms(1) _ assms(3) [unfolded b]] d by blast
    moreover have "push_image tr (pr_blob_get (sc_local src) localRef) dst (cr_keptLayers cr) img w' = (w', Inr (ca_digest img))"
      if "tr_head tr w' dst = Some (ca_digest img)" using that by (simp add: push_image_def)
    moreover have "\<exists>m. sc_manifestDigest src m = Inr (ca_digest img) \<and> (\<forall>b \<in> insert (om_Config m) (set (om_Layers m)). tr_blob_exists tr w' dst b)"
      if "\<forall>b \<in> set (cr_keptLayers cr) \<union> {ca_layerDesc img, ca_configDesc img}. tr_blob_exists tr w' dst b"
      using that d by (intro exI [of _ "ca_manifest img"]) simp
    ultimately show ?thesis unfolding b by (cases res) auto
  qed
qed

text \<open>A registry in memory, with one repository and one tag, and a catalog image of one layer.\<close>

definition memory_registry :: "(descriptor list \<times> string option, unit) target_registry" where
  "memory_registry = \<lparr>tr_head = (\<lambda>w r. snd w), tr_blob_exists = (\<lambda>w r d. d \<in> set (fst w)),
     tr_blob_put = (\<lambda>w r d data. ((d # fst w, snd w), None)), tr_manifest_put = (\<lambda>w r m. ((fst w, Some (ds_Digest (om_Config m))), None))\<rparr>"

definition toy_layout :: "(unit, descriptor, unit) payload_registry" where
  "toy_layout = \<lparr>pr_ref_new = (\<lambda>s. Inr \<lparr>pl_Base = s, pl_Tag = [], pl_Digest = []\<rparr>), pr_manifest_get = (\<lambda>_. Inr ()), pr_is_list = (\<lambda>_. False),
     pr_manifest_list = (\<lambda>_. Inl []), pr_platform_parse = (\<lambda>_. Inl []), pr_platform_desc = (\<lambda>_ _. Inl []), pr_linux_amd64 = (), pr_digest = ds_Digest,
     pr_layers = (\<lambda>_. Inr [descriptor_of id ''base'' ''b'', descriptor_of id ''fbc'' ''c'']), pr_blob_get = (\<lambda>_ d. Inr (ds_Digest d)), pr_gunzip = (\<lambda>_. Inl [])\<rparr>"

definition toy_source :: "(unit, unit) catalog_source" where
  "toy_source = \<lparr>sc_tempDir = Inr ''/tmp/t'', sc_download = (\<lambda>_ _. None), sc_local = toy_layout,
     sc_config = (\<lambda>_. Inr \<lparr>gc_Created = None, gc_DiffIDs = [''1'', ''2''], gc_Labels = [], gc_Cmd = [], gc_History = []\<rparr>),
     sc_gunzip = (\<lambda>s. Inr [LayerFile (file_entry (if s = ''b'' then ''bin/opm'' else ''configs/a.yaml'') ''x'')]),
     sc_loadFS = (\<lambda>_. Inr toy_catalog), sc_writeYAML = (\<lambda>c. Inr (concat (map fp_Name (cf_Packages c)))), sc_gzipTar = (\<lambda>es. concat (map th_Name es)),
     sc_tarDigest = (\<lambda>es. concat (map th_Body es)), sc_digest = id, sc_configJSON = (\<lambda>c. Inr (concat (gc_DiffIDs c))),
     sc_manifestDigest = (\<lambda>m. Inr (ds_Digest (om_Config m)))\<rparr>"

lemma memory_registry_ok: "registry_ok (sc_manifestDigest toy_source) memory_registry"
  by (auto simp: registry_ok_def memory_registry_def toy_source_def)

lemma toy_read: "read_source toy_parsers toy_source ''q/cat'' [named_include ''op''] =
    Inr (\<lparr>pl_Base = ''ocidir:///tmp/t:source'', pl_Tag = [], pl_Digest = []\<rparr>, \<lparr>gc_Created = None, gc_DiffIDs = [''1'', ''2''], gc_Labels = [], gc_Cmd = [], gc_History = []\<rparr>,
      \<lparr>cr_keptLayers = [descriptor_of id ''base'' ''b''], cr_keptDiffIDs = [''1''], cr_configFS = [(''configs/a.yaml'', ''x'')]\<rparr>, toy_filtered)"
  by (simp add: read_source_def toy_source_def toy_layout_def resolveManifestList_def classifySourceLayers_def classifyAndExtractFBC_def file_entry_def
      reject_def keep_layer_def readFBCFile_def maxFBCFileSize_def configsPath_def cachePath_def descriptor_of_def parseExtractedFBC_def toy_filter
      trimPrefix_def hasPrefix_def)

theorem build_publishes_complete_image_witness:
  "tr_head memory_registry (fst (BuildFilteredCatalogImage toy_parsers (\<lambda>_. Inr ()) (Some memory_registry) toy_source ''q/cat'' ''t/cat'' [named_include ''op''] ([], None))) () =
     Some ''1depop''"
proof -
  let ?out = "BuildFilteredCatalogImage toy_parsers (\<lambda>_. Inr ()) (Some memory_registry) toy_source ''q/cat'' ''t/cat'' [named_include ''op''] ([], None)"
  have res: "snd ?out = Inr ''1depop''"
    unfolding BuildFilteredCatalogImage_def toy_read by code_simp
  obtain w' where out: "?out = (w', Inr ''1depop'')" using res by (metis prod.collapse)
  show ?thesis using build_publishes_complete_image [OF memory_registry_ok _ out] out by simp
qed

section \<open>The content of the overlay\<close>
















end
