(* ===== verification/CatalogJob.thy ===== *)
theory CatalogJob
  imports WorkerPod CatalogBuild
begin

text \<open>
  The Kubernetes Job that builds a filtered catalog (\<open>pkg/mirror/catalog/builder/job.go\<close>) and the program it runs (\<open>cmd/catalog-builder/main.go\<close>). SHA-256
  in hexadecimal and the JSON of the packages are parameters; the API server is the record \<open>job_api\<close>, for the namespace of the ImageSet.
\<close>

section \<open>Names\<close>

definition to_lower :: "string \<Rightarrow> string" where
  "to_lower = map (\<lambda>c. if CHR ''A'' \<le> c \<and> c \<le> CHR ''Z'' then char_of (of_char c + (32 :: nat)) else c)"

definition slug_char :: "char \<Rightarrow> char" where
  "slug_char c = (if c \<in> set '':/.@_'' then CHR ''-'' else c)"

definition trimRight :: "char \<Rightarrow> string \<Rightarrow> string" where
  "trimRight c s = rev (dropWhile (\<lambda>d. d = c) (rev s))"

definition safeJobName :: "(string \<Rightarrow> string) \<Rightarrow> string \<Rightarrow> string list \<Rightarrow> string" where
  "safeJobName sha256hex pre parts =
     (let suffix = take 8 (sha256hex (concat (map (\<lambda>p. p @ [char_of (0 :: nat)]) parts)));
          body = pre @ ''-'' @ str_join ''-'' (map (\<lambda>p. map slug_char (to_lower p)) parts)
      in trimRight CHR ''-'' (take (63 - 1 - 8) body) @ ''-'' @ suffix)"

definition JobName :: "(string \<Rightarrow> string) \<Rightarrow> string \<Rightarrow> string \<Rightarrow> string" where
  "JobName sha256hex imageSetName sourceCatalog = safeJobName sha256hex ''catalog-build'' [imageSetName, sourceCatalog]"

section \<open>The Job\<close>

record catalog_job =
  cj_Name :: string
  cj_Namespace :: string
  cj_Labels :: annotations
  cj_Owner :: "string \<times> string"
  cj_BackoffLimit :: int
  cj_TTLSecondsAfterFinished :: int
  cj_ActiveDeadlineSeconds :: int
  cj_RestartPolicy :: string
  cj_NodeSelector :: annotations
  cj_Tolerations :: "string list"
  cj_RunAsNonRoot :: bool
  cj_SeccompProfile :: string
  cj_ContainerName :: string
  cj_Image :: string
  cj_Command :: "string list"
  cj_AllowPrivilegeEscalation :: bool
  cj_DropCapabilities :: "string list"
  cj_ImagePullPolicy :: string
  cj_Env :: "env_var list"
  cj_Resources :: string
  cj_VolumeMounts :: "volume_mount list"
  cj_Volumes :: "(string \<times> volume_source) list"
  cj_Succeeded :: int
  cj_Active :: int
  cj_Failed :: int

definition buildEffectiveNoProxy :: "string \<Rightarrow> string" where
  "buildEffectiveNoProxy userNoProxy =
     (let base = str_join '','' clusterNoProxy in if userNoProxy = [] then base else base @ '','' @ userNoProxy)"

definition catalogProxyEnvVars :: "proxy_config option \<Rightarrow> env_var list" where
  "catalogProxyEnvVars cfg =
     (case cfg of
        None \<Rightarrow> []
      | Some c \<Rightarrow>
          (let v = px_HTTPProxy c in if v \<noteq> [] then [(''HTTP_PROXY'', Value v), (''http_proxy'', Value v)] else []) @
          (let v = px_HTTPSProxy c in if v \<noteq> [] then [(''HTTPS_PROXY'', Value v), (''https_proxy'', Value v)] else []) @
          (if px_HTTPProxy c \<noteq> [] \<or> px_HTTPSProxy c \<noteq> [] then
             (let noProxy = buildEffectiveNoProxy (px_NoProxy c)
              in [(''NO_PROXY'', Value noProxy), (''no_proxy'', Value noProxy),
                  (''KUBERNETES_SERVICE_HOST'', Value ''kubernetes.default.svc.cluster.local'')])
           else if px_NoProxy c \<noteq> [] then [(''NO_PROXY'', Value (px_NoProxy c)), (''no_proxy'', Value (px_NoProxy c))]
           else []))"

text \<open>The environment of the container; \<open>marshal\<close> is \<open>json.Marshal\<close> of the packages.\<close>

definition job_env ::
  "(include_package list \<Rightarrow> string option) \<Rightarrow> worker_target \<Rightarrow> string \<Rightarrow> string \<Rightarrow> include_package list \<Rightarrow> env_var list" where
  "job_env marshal mt sourceCatalog targetRef packages =
     [(''SOURCE_CATALOG'', Value sourceCatalog), (''TARGET_REF'', Value targetRef), (''CATALOG_PACKAGES'', Value (str_join '','' (map ip_Name packages)))] @
     (if length packages > 0 then
        (case marshal packages of Some data \<Rightarrow> [(''CATALOG_INCLUDE_CONFIG'', Value data)] | None \<Rightarrow> [])
      else []) @
     (if mt_Insecure mt then
        [(''REGISTRY_INSECURE_HOSTS'', Value (case str_index (mt_Registry mt) ''/'' of Some i \<Rightarrow> take i (mt_Registry mt) | None \<Rightarrow> mt_Registry mt))]
      else []) @
     (if mt_AuthSecret mt \<noteq> [] then [(''DOCKER_CONFIG'', Value ''/var/run/secrets/registry'')] else []) @
     catalogProxyEnvVars (mt_Proxy mt) @
     (case mt_CABundle mt of Some ca \<Rightarrow> [(''SSL_CERT_FILE'', Value (''/run/secrets/ca/'' @ ca_key ca))] | None \<Rightarrow> [])"

definition job_volumes :: "worker_target \<Rightarrow> (string \<times> volume_source) list" where
  "job_volumes mt =
     [(''blob-buffer'', EmptyDir ''10Gi'')] @
     (if mt_AuthSecret mt \<noteq> [] then [(''registry-auth'', SecretFiles (mt_AuthSecret mt) [(''.dockerconfigjson'', ''config.json'')])] else []) @
     (case mt_CABundle mt of Some ca \<Rightarrow> [(''ca-bundle'', ConfigMapFiles (ca_ConfigMapName ca) [(ca_key ca, ca_key ca)])] | None \<Rightarrow> [])"

definition job_mounts :: "worker_target \<Rightarrow> volume_mount list" where
  "job_mounts mt =
     [\<lparr>vm_Name = ''blob-buffer'', vm_MountPath = ''/tmp/blob-buffer'', vm_ReadOnly = False\<rparr>] @
     (if mt_AuthSecret mt \<noteq> [] then [\<lparr>vm_Name = ''registry-auth'', vm_MountPath = ''/var/run/secrets/registry'', vm_ReadOnly = True\<rparr>] else []) @
     (case mt_CABundle mt of Some ca \<Rightarrow> [\<lparr>vm_Name = ''ca-bundle'', vm_MountPath = ''/run/secrets/ca'', vm_ReadOnly = True\<rparr>] | None \<Rightarrow> [])"

text \<open>The manager of the Jobs with the image it was configured with.\<close>

record build_manager =
  bm_operatorImage :: string
  bm_marshal :: "include_package list \<Rightarrow> string option"
  bm_sha256hex :: "string \<Rightarrow> string"

definition New_builder :: "(include_package list \<Rightarrow> string option) \<Rightarrow> (string \<Rightarrow> string) \<Rightarrow> (string \<Rightarrow> string) \<Rightarrow> string + build_manager" where
  "New_builder marshal sha256hex getenv =
     (if getenv ''OPERATOR_IMAGE'' = [] then Inl ''environment variable OPERATOR_IMAGE is not set''
      else Inr \<lparr>bm_operatorImage = getenv ''OPERATOR_IMAGE'', bm_marshal = marshal, bm_sha256hex = sha256hex\<rparr>)"

definition buildJobSpec ::
  "build_manager \<Rightarrow> string \<Rightarrow> string \<Rightarrow> 'a image_set_scheme \<Rightarrow> worker_target \<Rightarrow> string \<Rightarrow> string \<Rightarrow> include_package list \<Rightarrow> catalog_job" where
  "buildJobSpec m name namespace is mt sourceCatalog targetRef packages =
     \<lparr>cj_Name = name, cj_Namespace = namespace,
      cj_Labels = [(''app.kubernetes.io/managed-by'', ''oc-mirror-operator''), (''mirror.openshift.io/imageset'', is_Name is)],
      cj_Owner = (''ImageSet'', is_Name is), cj_BackoffLimit = 3, cj_TTLSecondsAfterFinished = 600, cj_ActiveDeadlineSeconds = 1800,
      cj_RestartPolicy = ''Never'', cj_NodeSelector = mt_WorkerNodeSelector mt, cj_Tolerations = mt_WorkerTolerations mt,
      cj_RunAsNonRoot = True, cj_SeccompProfile = ''RuntimeDefault'', cj_ContainerName = ''catalog-builder'', cj_Image = bm_operatorImage m,
      cj_Command = [''/catalog-builder''], cj_AllowPrivilegeEscalation = False, cj_DropCapabilities = [''ALL''], cj_ImagePullPolicy = ''IfNotPresent'',
      cj_Env = job_env (bm_marshal m) mt sourceCatalog targetRef packages, cj_Resources = mt_WorkerResources mt,
      cj_VolumeMounts = job_mounts mt, cj_Volumes = job_volumes mt, cj_Succeeded = 0, cj_Active = 0, cj_Failed = 0\<rparr>"

section \<open>Operations\<close>

record 'w job_api =
  ja_get :: "'w \<Rightarrow> string \<Rightarrow> kube_error + catalog_job"
  ja_create :: "'w \<Rightarrow> catalog_job \<Rightarrow> 'w \<times> kube_error option"
  ja_delete :: "'w \<Rightarrow> string \<Rightarrow> 'w \<times> kube_error option"

datatype job_phase = JobPhasePending | JobPhaseRunning | JobPhaseSucceeded | JobPhaseFailed | JobPhaseNotFound

datatype job_error = JobCheckFailed string kube_error | JobCreateFailed string kube_error

definition EnsureCatalogBuildJob ::
  "build_manager \<Rightarrow> 'w job_api \<Rightarrow> 'w \<Rightarrow> string \<Rightarrow> 'a image_set_scheme \<Rightarrow> worker_target \<Rightarrow> string \<Rightarrow> string \<Rightarrow> string \<Rightarrow> include_package list
    \<Rightarrow> 'w \<times> job_error option" where
  "EnsureCatalogBuildJob m api w namespace is mt jobNameCatalog pullCatalog targetRef packages =
     (let name = JobName (bm_sha256hex m) (is_Name is) jobNameCatalog
      in case ja_get api w name of
           Inr _ \<Rightarrow> (w, None)
         | Inl NotFound \<Rightarrow>
             (case ja_create api w (buildJobSpec m name namespace is mt pullCatalog targetRef packages) of
                (w', Some e) \<Rightarrow> (w', Some (JobCreateFailed name e))
              | (w', None) \<Rightarrow> (w', None))
         | Inl e \<Rightarrow> (w, Some (JobCheckFailed name e)))"

definition job_phase_of :: "catalog_job \<Rightarrow> job_phase" where
  "job_phase_of job =
     (if cj_Succeeded job > 0 then JobPhaseSucceeded
      else if cj_Active job > 0 then JobPhaseRunning
      else if cj_Failed job > 0 then JobPhaseFailed
      else JobPhasePending)"

definition GetBuildJobStatus :: "'w job_api \<Rightarrow> 'w \<Rightarrow> string \<Rightarrow> kube_error + job_phase" where
  "GetBuildJobStatus api w name =
     (case ja_get api w name of
        Inl NotFound \<Rightarrow> Inr JobPhaseNotFound
      | Inl e \<Rightarrow> Inl e
      | Inr job \<Rightarrow> Inr (job_phase_of job))"

definition DeleteBuildJob :: "'w job_api \<Rightarrow> 'w \<Rightarrow> string \<Rightarrow> 'w \<times> kube_error option" where
  "DeleteBuildJob api w name =
     (case ja_get api w name of
        Inl NotFound \<Rightarrow> (w, None)
      | Inl e \<Rightarrow> (w, Some e)
      | Inr job \<Rightarrow> ja_delete api w name)"

section \<open>The signature of a build\<close>

definition sig_line :: "string \<Rightarrow> string \<Rightarrow> string" where
  "sig_line k v = k @ ''='' @ v @ ''\<newline>''"

definition opt_line :: "string \<Rightarrow> string \<Rightarrow> string" where
  "opt_line k v = (if v \<noteq> [] then sig_line k v else [])"

definition channel_sig :: "include_channel \<Rightarrow> string" where
  "channel_sig ch = sig_line ''ch'' (ic_Name ch) @ opt_line ''ch.min'' (ib_MinVersion (ic_Bundle ch)) @ opt_line ''ch.max'' (ib_MaxVersion (ic_Bundle ch))"

definition package_sig :: "include_package \<Rightarrow> string" where
  "package_sig p =
     sig_line ''pkg'' (ip_Name p) @ opt_line ''pkg.min'' (ib_MinVersion (ip_Bundle p)) @ opt_line ''pkg.max'' (ib_MaxVersion (ip_Bundle p)) @
     opt_line ''pkg.defaultChannel'' (ip_DefaultChannel p) @
     (if ip_PreviousVersions p \<noteq> 0 then sig_line ''pkg.previousVersions'' (Itoa (ip_PreviousVersions p)) else []) @
     concat (map channel_sig (sort_key ic_Name (ip_Channels p)))"

definition operator_sig :: "operator \<Rightarrow> string" where
  "operator_sig op =
     (if op_Catalog op = [] then []
      else sig_line ''catalog'' (op_Catalog op) @ sig_line ''full'' (if op_Full op then ''true'' else ''false'') @
           (if op_SkipDependencies op then sig_line ''skipDeps'' ''true'' else []) @
           opt_line ''targetCatalog'' (op_TargetCatalog op) @ opt_line ''targetTag'' (op_TargetTag op) @
           concat (map package_sig (sort_key ip_Name (op_Packages op))))"

definition BuildSignature :: "build_manager \<Rightarrow> operator list \<Rightarrow> string" where
  "BuildSignature m operators =
     take 16 (bm_sha256hex m (sig_line ''image'' (bm_operatorImage m) @ concat (map operator_sig operators)))"

section \<open>The program of the Job\<close>

definition trimSpace :: "string \<Rightarrow> string" where
  "trimSpace s = (let sp = (\<lambda>c. of_char c \<in> {9, 10, 11, 12, 13, 32 :: nat}) in rev (dropWhile sp (rev (dropWhile sp s))))"

definition comma_list :: "string \<Rightarrow> string list" where
  "comma_list raw = filter (\<lambda>p. p \<noteq> []) (map trimSpace (split_char CHR '','' raw))"

definition builder_packages :: "(string \<Rightarrow> string + include_package list) \<Rightarrow> (string \<Rightarrow> string) \<Rightarrow> string + include_package list" where
  "builder_packages unmarshal getenv =
     (if getenv ''CATALOG_INCLUDE_CONFIG'' \<noteq> [] then unmarshal (getenv ''CATALOG_INCLUDE_CONFIG'')
      else Inr (map named_include (comma_list (getenv ''CATALOG_PACKAGES''))))"

datatype builder_exit = MissingVariables | BadIncludeConfig string | BuildFailed build_error | Pushed string

definition catalog_builder_main ::
  "('v :: linorder) catalog_parsers \<Rightarrow> (string \<Rightarrow> string + 'r) \<Rightarrow> (string list \<Rightarrow> string \<Rightarrow> ('w, 'r) target_registry \<times> ('m, 'p) catalog_source)
    \<Rightarrow> (string \<Rightarrow> string + include_package list) \<Rightarrow> (string \<Rightarrow> string) \<Rightarrow> 'w \<Rightarrow> 'w \<times> builder_exit" where
  "catalog_builder_main pc refNew newClient unmarshal getenv w =
     (if getenv ''SOURCE_CATALOG'' = [] \<or> getenv ''TARGET_REF'' = [] then (w, MissingVariables)
      else (case builder_packages unmarshal getenv of
              Inl e \<Rightarrow> (w, BadIncludeConfig e)
            | Inr packages \<Rightarrow>
                (case newClient (comma_list (getenv ''REGISTRY_INSECURE_HOSTS'')) (getenv ''DOCKER_CONFIG'') of
                   (tr, src) \<Rightarrow>
                     (case BuildFilteredCatalogImage pc refNew (Some tr) src (getenv ''SOURCE_CATALOG'') (getenv ''TARGET_REF'') packages w of
                        (w', Inl e) \<Rightarrow> (w', BuildFailed e)
                      | (w', Inr digest) \<Rightarrow> (w', Pushed digest)))))"

section \<open>Valid names\<close>

text \<open>Characters of image references and names, of DNS labels, and hexadecimal digits, by their codes.\<close>

definition ref_char :: "char \<Rightarrow> bool" where
  "ref_char c \<longleftrightarrow> (let n = of_char c :: nat in 45 \<le> n \<and> n \<le> 58 \<or> 64 \<le> n \<and> n \<le> 90 \<or> n = 95 \<or> 97 \<le> n \<and> n \<le> 122)"

definition label_char :: "char \<Rightarrow> bool" where
  "label_char c \<longleftrightarrow> (let n = of_char c :: nat in n = 45 \<or> 48 \<le> n \<and> n \<le> 57 \<or> 97 \<le> n \<and> n \<le> 122)"

definition hex_char :: "char \<Rightarrow> bool" where
  "hex_char c \<longleftrightarrow> (let n = of_char c :: nat in 48 \<le> n \<and> n \<le> 57 \<or> 97 \<le> n \<and> n \<le> 102)"

lemma hex_label: "hex_char c \<Longrightarrow> label_char c \<and> c \<noteq> CHR ''-''"
  by (auto simp: hex_char_def label_char_def Let_def)

lemma char_code: "c = d \<longleftrightarrow> of_char c = (of_char d :: nat)"
  by simp

lemma slug_code: "slug_char c = (if of_char c \<in> {58, 47, 46, 64, 95 :: nat} then CHR ''-'' else c)"
  by (simp add: slug_char_def char_code [of c])

lemma slug_label:
  assumes "\<forall>c \<in> set s. ref_char c"
  shows "\<forall>c \<in> set (map slug_char (to_lower s)). label_char c"
proof -
  have "label_char (slug_char (if CHR ''A'' \<le> c \<and> c \<le> CHR ''Z'' then char_of (of_char c + (32 :: nat)) else c))" if "ref_char c" for c
  proof (cases "65 \<le> (of_char c :: nat) \<and> (of_char c :: nat) \<le> 90")
    case True
    then have "of_char (char_of (of_char c + (32 :: nat)) :: char) = (of_char c + 32 :: nat)" by simp
    then show ?thesis using True by (simp add: slug_code less_eq_char_def label_char_def Let_def)
  next
    case False
    then show ?thesis using that unfolding ref_char_def Let_def
      by (auto simp: slug_code less_eq_char_def label_char_def Let_def)
  qed
  then show ?thesis using assms by (auto simp: to_lower_def)
qed

lemma trimRight_props: "set (trimRight c s) \<subseteq> set s" "length (trimRight c s) \<le> length s"
  using set_dropWhileD [of _ "\<lambda>d. d = c" "rev s"] length_dropWhile_le [of "\<lambda>d. d = c" "rev s"] by (auto simp: trimRight_def)

lemma trimRight_keeps_head: "s = x # t \<Longrightarrow> x \<noteq> c \<Longrightarrow> \<exists>u. trimRight c s = x # u"
  by (auto simp: trimRight_def dropWhile_append intro: exI [of _ "rev (dropWhile (\<lambda>d. d = c) (rev t))"])

text \<open>
  The name of a build Job is a label of DNS for every name of an ImageSet and every image reference: at most 63 characters, lower-case letters, digits and
  dashes only, with a letter at the start and no dash at the end; and two names are equal only if the hashes of the inputs start alike.
\<close>

theorem job_name_valid:
  assumes hex: "\<And>s. length (sha s) \<ge> 8 \<and> (\<forall>c \<in> set (sha s). hex_char c)"
    and chars: "\<forall>c \<in> set isName. ref_char c" "\<forall>c \<in> set cat. ref_char c"
  shows "length (JobName sha isName cat) \<le> 63 \<and> (\<forall>c \<in> set (JobName sha isName cat). label_char c) \<and> hd (JobName sha isName cat) = CHR ''c'' \<and>
    last (JobName sha isName cat) \<noteq> CHR ''-'' \<and>
    (JobName sha isName cat = JobName sha isName' cat' \<longrightarrow>
       take 8 (sha (isName @ [char_of (0 :: nat)] @ cat @ [char_of (0 :: nat)])) = take 8 (sha (isName' @ [char_of (0 :: nat)] @ cat' @ [char_of (0 :: nat)])))"
proof -
  define body where "body n c = trimRight CHR ''-'' (take 54 (''catalog-build-'' @ map slug_char (to_lower n) @ ''-'' @ map slug_char (to_lower c)))" for n c
  define suffix where "suffix n c = take 8 (sha (n @ [char_of (0 :: nat)] @ c @ [char_of (0 :: nat)]))" for n c
  have name: "JobName sha n c = body n c @ ''-'' @ suffix n c" for n c
    by (simp add: JobName_def safeJobName_def body_def suffix_def Let_def)
  have suf: "length (suffix n c) = 8" "\<forall>x \<in> set (suffix n c). hex_char x" for n c
    using hex [of "n @ [char_of (0 :: nat)] @ c @ [char_of (0 :: nat)]"] by (auto simp: suffix_def dest: in_set_takeD)
  then have ne: "suffix isName cat \<noteq> []" by (metis list.size(3) zero_neq_numeral)
  have "length (body isName cat) \<le> 54" unfolding body_def by (rule order_trans [OF trimRight_props(2)]) simp
  moreover have "\<forall>c \<in> set (body isName cat). label_char c"
  proof -
    have "\<forall>c \<in> set (''catalog-build-'' @ map slug_char (to_lower isName) @ ''-'' @ map slug_char (to_lower cat)). label_char c"
      using slug_label [OF chars(1)] slug_label [OF chars(2)] by (auto simp: label_char_def)
    then show ?thesis unfolding body_def by (meson in_set_takeD subsetD trimRight_props(1))
  qed
  moreover have "\<exists>u. body isName cat = CHR ''c'' # u"
    unfolding body_def by (rule trimRight_keeps_head [where t = "take 53 (''atalog-build-'' @ map slug_char (to_lower isName) @ ''-'' @ map slug_char (to_lower cat))"]) simp_all
  moreover have "hex_char (last (JobName sha isName cat))" using ne suf(2) [of isName cat] last_in_set [OF ne] by (auto simp: name)
  moreover have "label_char CHR ''-''" by (simp add: label_char_def)
  moreover have "suffix isName cat = suffix isName' cat'" if "JobName sha isName cat = JobName sha isName' cat'"
    using that suf(1) by (simp add: name)
  ultimately show ?thesis using suf [of isName cat] hex_label by (auto simp: name suffix_def)
qed

theorem job_name_valid_witness:
  "list_all label_char (JobName (\<lambda>s. ''0123abcd'') ''my-set'' ''Quay.io/Op_Index:v4.16'')"
  using job_name_valid [where sha = "\<lambda>s. ''0123abcd''" and isName = "''my-set''" and cat = "''Quay.io/Op_Index:v4.16''" and isName' = "[]" and cat' = "[]"]
  by (simp add: ref_char_def hex_char_def list_all_iff)

section \<open>The program reads what the Job was given\<close>

definition env_value :: "env_var list \<Rightarrow> string \<Rightarrow> string" where
  "env_value env n = (case mget env n of Some (Value v) \<Rightarrow> v | _ \<Rightarrow> [])"

definition plain_name :: "string \<Rightarrow> bool" where
  "plain_name n \<longleftrightarrow> n \<noteq> [] \<and> CHR '','' \<notin> set n \<and> trimSpace n = n"

lemma comma_list_names: "\<forall>n \<in> set ns. plain_name n \<Longrightarrow> comma_list (str_join '','' ns) = ns"
proof (cases "ns = []")
  case False
  moreover assume plain: "\<forall>n \<in> set ns. plain_name n"
  ultimately have "split_char CHR '','' (str_join '','' ns) = ns" by (intro split_join) (auto simp: plain_name_def)
  with plain show ?thesis by (simp add: comma_list_def plain_name_def map_idI filter_id_conv)
qed (simp add: comma_list_def trimSpace_def)

lemma mget_append: "mget (xs @ ys) k = (case mget xs k of Some v \<Rightarrow> Some v | None \<Rightarrow> mget ys k)"
  by (induction xs) auto

lemma buildJobSpec_env: "cj_Env (buildJobSpec m name ns is mt pull target ps) = job_env (bm_marshal m) mt pull target ps"
  by (simp add: buildJobSpec_def)

lemma proxy_include: "mget (catalogProxyEnvVars c) ''CATALOG_INCLUDE_CONFIG'' = None"
  by (simp add: catalogProxyEnvVars_def Let_def split: option.split)

lemma job_env_include: "mget (job_env marshal mt pull target ps) ''CATALOG_INCLUDE_CONFIG'' = (if ps = [] then None else map_option Value (marshal ps))"
proof -
  let ?k = "''CATALOG_INCLUDE_CONFIG''"
  have ca: "mget (case mt_CABundle mt of Some ca \<Rightarrow> [(''SSL_CERT_FILE'', Value (''/run/secrets/ca/'' @ ca_key ca))] | None \<Rightarrow> []) ?k = None"
    by (cases "mt_CABundle mt") simp_all
  have single: "k' \<noteq> ?k \<Longrightarrow> mget (if b then [(k', v)] else []) ?k = None" for b k' and v :: env_source by simp
  have inc: "mget (if length ps > 0 then (case marshal ps of Some data \<Rightarrow> [(?k, Value data)] | None \<Rightarrow> []) else []) ?k =
      (if ps = [] then None else map_option Value (marshal ps))"
  proof (cases "marshal ps")
    case None
    then show ?thesis by (simp only: None option.case option.map if_cancel map_of.simps)
  next
    case (Some data)
    have "mget (if length ps > 0 then [(?k, Value data)] else []) ?k = (if ps = [] then None else Some (Value data))" by (cases ps) simp_all
    then show ?thesis by (simp only: Some option.case option.map)
  qed
  show ?thesis unfolding job_env_def mget_append ca proxy_include inc
    by (cases ps; cases "marshal ps"; simp add: single)
qed

text \<open>
  Property C24. The program of the Job builds what the Job was created for: it reads back the source, the target and the packages with all their filters. When the packages
  could not be encoded it reads their names only.
\<close>

theorem builder_reads_job:
  assumes json: "\<And>ps data. bm_marshal m ps = Some data \<Longrightarrow> data \<noteq> [] \<and> unmarshal data = Inr ps"
    and names: "\<forall>p \<in> set packages. plain_name (ip_Name p)"
    and env: "getenv = env_value (cj_Env (buildJobSpec m name ns iset mt sourceCatalog targetRef packages))"
  shows "getenv ''SOURCE_CATALOG'' = sourceCatalog \<and> getenv ''TARGET_REF'' = targetRef \<and>
    builder_packages unmarshal getenv =
      (if packages = [] \<or> bm_marshal m packages = None then Inr (map (\<lambda>p. named_include (ip_Name p)) packages) else Inr packages)"
proof -
  have inc: "getenv ''CATALOG_INCLUDE_CONFIG'' = (if packages = [] then [] else (case bm_marshal m packages of Some data \<Rightarrow> data | None \<Rightarrow> []))"
    unfolding env env_value_def buildJobSpec_env job_env_include by (cases "bm_marshal m packages") simp_all
  have pk: "getenv ''CATALOG_PACKAGES'' = str_join '','' (map ip_Name packages)"
    by (simp add: env env_value_def buildJobSpec_env job_env_def)
  have "comma_list (str_join '','' (map ip_Name packages)) = map ip_Name packages" using names by (intro comma_list_names) simp
  then have "builder_packages unmarshal getenv =
      (if packages = [] \<or> bm_marshal m packages = None then Inr (map (\<lambda>p. named_include (ip_Name p)) packages) else Inr packages)"
    unfolding builder_packages_def inc pk using json [of packages] by (auto simp: comp_def split: option.splits)
  then show ?thesis by (simp add: env env_value_def buildJobSpec_env job_env_def)
qed

definition toy_manager :: build_manager where
  "toy_manager = \<lparr>bm_operatorImage = ''img'', bm_marshal = (\<lambda>ps. if ps = [sample_package ''op'' [''stable'']] then Some ''json'' else None), bm_sha256hex = (\<lambda>s. s)\<rparr>"

theorem builder_reads_job_witness:
  "builder_packages (\<lambda>_. Inr [sample_package ''op'' [''stable'']])
     (env_value (cj_Env (buildJobSpec toy_manager ''j'' ''ns'' sample_image_set pod_target ''q/cat@sha256:1'' ''t/cat:v1'' [sample_package ''op'' [''stable'']]))) =
   Inr [sample_package ''op'' [''stable'']]"
proof -
  let ?ps = "[sample_package ''op'' [''stable'']]"
  have json: "data \<noteq> [] \<and> Inr ?ps = Inr ps" if "bm_marshal toy_manager ps = Some data" for ps data
    using that by (auto simp: toy_manager_def split: if_splits)
  have names: "\<forall>p \<in> set ?ps. plain_name (ip_Name p)" by (simp add: plain_name_def sample_package_def trimSpace_def)
  have "bm_marshal toy_manager ?ps \<noteq> None" by (simp add: toy_manager_def)
  then show ?thesis using builder_reads_job [where unmarshal = "\<lambda>_. Inr ?ps" and m = toy_manager and iset = sample_image_set, OF json names refl] by auto
qed

lemma package_sig_bundles: "package_sig (p\<lparr>ip_Bundles := bs\<rparr>) = package_sig p"
  by (simp add: package_sig_def)

text \<open>
  The signature of a build does not cover the bundles that were selected by name.
\<close>

theorem build_signature_ignores_bundles:
  "BuildSignature m (ops @ op\<lparr>op_Packages := map (\<lambda>p. p\<lparr>ip_Bundles := f p\<rparr>) (op_Packages op)\<rparr> # ops') = BuildSignature m (ops @ op # ops')"
proof -
  have "sort_key ip_Name (map (\<lambda>p. p\<lparr>ip_Bundles := f p\<rparr>) ps) = map (\<lambda>p. p\<lparr>ip_Bundles := f p\<rparr>) (sort_key ip_Name ps)" for ps
  proof -
    have "insort_key ip_Name (p\<lparr>ip_Bundles := f p\<rparr>) (map (\<lambda>p. p\<lparr>ip_Bundles := f p\<rparr>) qs) = map (\<lambda>p. p\<lparr>ip_Bundles := f p\<rparr>) (insort_key ip_Name p qs)" for p qs
      by (induction qs) auto
    then show ?thesis by (induction ps) auto
  qed
  then have "operator_sig (op\<lparr>op_Packages := map (\<lambda>p. p\<lparr>ip_Bundles := f p\<rparr>) (op_Packages op)\<rparr>) = operator_sig op"
    by (simp add: operator_sig_def comp_def package_sig_bundles)
  then show ?thesis by (simp add: BuildSignature_def)
qed

end
