(* ===== verification/ImageSetController.thy ===== *)
theory ImageSetController
  imports CatalogJob Status
begin

text \<open>
  The reconciler of ImageSets (\<open>internal/controller/imageset_controller.go\<close>, \<open>conditions.go\<close>): which MirrorTarget an ImageSet belongs to, the gate of the
  catalog builds, and the Jobs it creates and deletes. The API server is the record \<open>ctl_api\<close>. An object that was written is taken to be the one sent; the
  map from watched ConfigMaps to requests is \<open>imageStateConfigMapToRequests\<close>. Log lines and metrics are left out.
\<close>

section \<open>Conditions\<close>

fun setCondition :: "int \<Rightarrow> condition list \<Rightarrow> string \<Rightarrow> condition_status \<Rightarrow> string \<Rightarrow> string \<Rightarrow> int \<Rightarrow> condition list" where
  "setCondition now [] condType status reason message gen =
     [\<lparr>cd_Type = condType, cd_Status = status, cd_Reason = reason, cd_Message = message, cd_ObservedGeneration = gen, cd_LastTransitionTime = now\<rparr>]"
| "setCondition now (c # cs) condType status reason message gen =
     (if cd_Type c \<noteq> condType then c # setCondition now cs condType status reason message gen
      else c\<lparr>cd_Status := status, cd_Reason := reason, cd_Message := message, cd_ObservedGeneration := gen,
             cd_LastTransitionTime := (if cd_Status c \<noteq> status then now else cd_LastTransitionTime c)\<rparr> # cs)"

section \<open>State\<close>

record ctl_image_set = image_set +
  is_Conditions :: "condition list"

record 'w ctl_api =
  ct_jobs :: "'w job_api"
  ct_kube :: "'w kube"
  ct_is_get :: "'w \<Rightarrow> string \<Rightarrow> kube_error + ctl_image_set"
  ct_is_update :: "'w \<Rightarrow> ctl_image_set \<Rightarrow> 'w \<times> kube_error option"
  ct_status_update :: "'w \<Rightarrow> ctl_image_set \<Rightarrow> 'w \<times> write_result"
  ct_mt_get :: "'w \<Rightarrow> string \<Rightarrow> kube_error + worker_target"
  ct_mt_list :: "'w \<Rightarrow> kube_error + worker_target list"

datatype ctl_error = GetFailed kube_error | PhaseFailed kube_error | PersistFailed kube_error | EnsureFailed string job_error | StatusFailed write_result

text \<open>
  What the reconciler is configured with: the build manager, the hash of an operator entry, the clock, the format of a time, the reference library and the text of an error.
\<close>

record ctl_env =
  ce_mgr :: build_manager
  ce_namespace :: string
  ce_jsonHash :: "json \<Rightarrow> string"
  ce_now :: int
  ce_formatTime :: "int \<Rightarrow> string"
  ce_refNew :: "string \<Rightarrow> string + payload_ref"
  ce_commonName :: "payload_ref \<Rightarrow> string"
  ce_errorText :: "ctl_error \<Rightarrow> string"

abbreviation conditionCatalogReady :: string where "conditionCatalogReady \<equiv> ''CatalogReady''"
abbreviation catalogBuildSigAnnotation :: string where "catalogBuildSigAnnotation \<equiv> ''mirror.openshift.io/catalog-build-sig''"
abbreviation catalogBuildDigestsAnnotation :: string where "catalogBuildDigestsAnnotation \<equiv> ''mirror.openshift.io/catalog-build-digests''"
abbreviation catalogRecollectSigAnnotation :: string where "catalogRecollectSigAnnotation \<equiv> ''mirror.openshift.io/catalog-build-recollect-sig''"
abbreviation catalogPollSigAnnotation :: string where "catalogPollSigAnnotation \<equiv> ''mirror.openshift.io/catalog-build-poll-sig''"
abbreviation reasonWaitingForOperatorMirror :: string where "reasonWaitingForOperatorMirror \<equiv> ''WaitingForOperatorMirror''"

section \<open>The snapshot\<close>

record mirror_snapshot =
  sn_complete :: bool
  sn_knowState :: bool
  sn_pending :: int
  sn_digests :: "(string, string) gomap"

definition expectedSigs :: "(json \<Rightarrow> string) \<Rightarrow> operator list \<Rightarrow> (string, bool) gomap" where
  "expectedSigs h operators = fold (\<lambda>op m. if op_Catalog op \<noteq> [] then mput (OperatorEntrySignature h op) False m else m) operators []"

record snapshot_acc =
  sa_pending :: int
  sa_hasOperator :: bool
  sa_legacySigSeen :: bool
  sa_sigs :: "(string, bool) gomap"

definition snapshot_entry :: "string \<times> image_entry option \<Rightarrow> snapshot_acc \<Rightarrow> snapshot_acc" where
  "snapshot_entry de acc =
     (case snd de of
        None \<Rightarrow> acc
      | Some e \<Rightarrow>
          (let acc1 = (if State e \<noteq> stateMirrored \<and> \<not> PermanentlyFailed e then acc\<lparr>sa_pending := sa_pending acc + 1\<rparr> else acc)
           in if Origin e \<noteq> OriginOperator then acc1
              else (let acc2 = acc1\<lparr>sa_hasOperator := True\<rparr>
                    in if EntrySig e = [] then acc2\<lparr>sa_legacySigSeen := True\<rparr>
                       else if mget (sa_sigs acc2) (EntrySig e) \<noteq> None then acc2\<lparr>sa_sigs := mput (EntrySig e) True (sa_sigs acc2)\<rparr>
                       else acc2)))"

definition loadMirrorSnapshot :: "(json \<Rightarrow> string) \<Rightarrow> 'w kube \<Rightarrow> 'w \<Rightarrow> 'a image_set_scheme \<Rightarrow> mirror_snapshot" where
  "loadMirrorSnapshot h k w is =
     (case LoadWithCatalogDigests k w (is_Name is) of
        Inl _ \<Rightarrow> \<lparr>sn_complete = False, sn_knowState = False, sn_pending = 0, sn_digests = []\<rparr>
      | Inr (state, digests) \<Rightarrow>
          if length state = 0 then \<lparr>sn_complete = False, sn_knowState = False, sn_pending = 0, sn_digests = []\<rparr>
          else (let acc = fold snapshot_entry state
                      \<lparr>sa_pending = 0, sa_hasOperator = False, sa_legacySigSeen = False, sa_sigs = expectedSigs h (ms_Operators (is_Mirror is))\<rparr>;
                    snap = \<lparr>sn_complete = False, sn_knowState = True, sn_pending = sa_pending acc, sn_digests = digests\<rparr>
                in if sa_pending acc > 0 \<or> \<not> sa_hasOperator acc then snap
                   else if is_ObservedGeneration is \<noteq> is_Generation is then snap
                   else if \<not> sa_legacySigSeen acc \<and> (\<exists>sv \<in> set (sa_sigs acc). \<not> snd sv) then snap
                   else snap\<lparr>sn_complete := True\<rparr>))"

definition operator_digest :: "(json \<Rightarrow> string) \<Rightarrow> (string, string) gomap \<Rightarrow> operator \<Rightarrow> string option" where
  "operator_digest h digests op =
     (case ParseOperatorCacheDigest (mget_str digests (CatalogDigestAnnotationKey (OperatorEntrySignature h op))) of
        (digest, ok) \<Rightarrow> if ok then Some digest else None)"

fun fingerprint_parts :: "(json \<Rightarrow> string) \<Rightarrow> (string, string) gomap \<Rightarrow> operator list \<Rightarrow> string list option" where
  "fingerprint_parts h digests [] = Some []"
| "fingerprint_parts h digests (op # ops) =
     (if op_Catalog op = [] then fingerprint_parts h digests ops
      else (case operator_digest h digests op of
              None \<Rightarrow> None
            | Some digest \<Rightarrow>
                map_option ((#) (CatalogDigestAnnotationKey (OperatorEntrySignature h op) @ ''='' @ digest)) (fingerprint_parts h digests ops)))"

definition catalogDigestsFingerprint :: "(json \<Rightarrow> string) \<Rightarrow> (string \<Rightarrow> string) \<Rightarrow> (string, string) gomap \<Rightarrow> operator list \<Rightarrow> string" where
  "catalogDigestsFingerprint h sha256hex digests operators =
     (case fingerprint_parts h digests operators of
        None \<Rightarrow> []
      | Some parts \<Rightarrow> if parts = [] then [] else sha256hex (str_join ''\<newline>'' (sort parts)))"

definition pinnedCatalogRef :: "ctl_env \<Rightarrow> (string, string) gomap \<Rightarrow> operator \<Rightarrow> string option" where
  "pinnedCatalogRef env digests op =
     (case operator_digest (ce_jsonHash env) digests op of
        None \<Rightarrow> None
      | Some digest \<Rightarrow>
          (case PinDigest (ce_refNew env) (ce_commonName env) (op_Catalog op) digest of Inl _ \<Rightarrow> None | Inr pinned \<Rightarrow> Some pinned))"

section \<open>The gate\<close>

text \<open>The status update with which a pass ends.\<close>

definition set_catalog_ready :: "ctl_env \<Rightarrow> condition_status \<Rightarrow> string \<Rightarrow> string \<Rightarrow> ctl_image_set \<Rightarrow> ctl_image_set" where
  "set_catalog_ready env status reason message is =
     is\<lparr>is_Conditions := setCondition (ce_now env) (is_Conditions is) conditionCatalogReady status reason message (is_Generation is)\<rparr>"

definition status_result :: "'w \<times> write_result \<Rightarrow> 'w \<times> ctl_error option" where
  "status_result r = (case r of (w, Written) \<Rightarrow> (w, None) | (w, e) \<Rightarrow> (w, Some (StatusFailed e)))"

definition deferCatalogBuild ::
  "ctl_env \<Rightarrow> 'w ctl_api \<Rightarrow> 'w \<Rightarrow> ctl_image_set \<Rightarrow> mirror_snapshot \<Rightarrow> string \<Rightarrow> 'w \<times> ctl_error option" where
  "deferCatalogBuild env api w is snap verb =
     (let msg = (if \<not> sn_knowState snap then
                   ''waiting for the manager to resolve and mirror the ImageSet before '' @ verb @ '' the filtered catalog''
                 else if sn_pending snap > 0 then
                   ''waiting for all images of the ImageSet to be mirrored ('' @ Itoa (sn_pending snap) @ '' pending) before '' @ verb @ '' the filtered catalog''
                 else ''waiting for the manager to resolve the current spec before '' @ verb @ '' the filtered catalog'')
      in status_result (ct_status_update api w (set_catalog_ready env ConditionFalse reasonWaitingForOperatorMirror msg is)))"

fun job_phases :: "ctl_env \<Rightarrow> 'w ctl_api \<Rightarrow> 'w \<Rightarrow> string \<Rightarrow> operator list \<Rightarrow> (string, job_phase) gomap \<Rightarrow> kube_error + (string, job_phase) gomap" where
  "job_phases env api w isName [] phases = Inr phases"
| "job_phases env api w isName (op # ops) phases =
     (if op_Catalog op = [] then job_phases env api w isName ops phases
      else (case GetBuildJobStatus (ct_jobs api) w (JobName (bm_sha256hex (ce_mgr env)) isName (op_Catalog op)) of
              Inl e \<Rightarrow> Inl e
            | Inr phase \<Rightarrow> job_phases env api w isName ops (mput (op_Catalog op) phase phases)))"

text \<open>What is built from, what was built from, and which of the triggers ask for a rebuild.\<close>

record build_decision =
  bd_buildSig :: string
  bd_digestsFP :: string
  bd_recollectValue :: string
  bd_pollMarker :: string
  bd_recollect :: bool
  bd_sigChanged :: bool
  bd_contentChanged :: bool
  bd_poll :: bool

definition needsRebuild :: "build_decision \<Rightarrow> bool" where
  "needsRebuild d \<longleftrightarrow> bd_recollect d \<or> bd_sigChanged d \<or> bd_contentChanged d \<or> bd_poll d"

definition decide_build :: "ctl_env \<Rightarrow> ctl_image_set \<Rightarrow> mirror_snapshot \<Rightarrow> bool \<Rightarrow> bool \<Rightarrow> bool \<Rightarrow> build_decision" where
  "decide_build env is snap alreadyBuilt anyActive pollExpired =
     (let annos = is_Annotations is;
          operators = ms_Operators (is_Mirror is);
          buildSig = BuildSignature (ce_mgr env) operators;
          digestsFP = catalogDigestsFingerprint (ce_jsonHash env) (bm_sha256hex (ce_mgr env)) (sn_digests snap) operators;
          recollectValue = mget_str annos RecollectHonoredAnnotation;
          lastSig = mget_str annos catalogBuildSigAnnotation;
          lastDigests = mget_str annos catalogBuildDigestsAnnotation;
          recollect = (recollectValue \<noteq> [] \<and> recollectValue \<noteq> mget_str annos catalogRecollectSigAnnotation);
          sigChanged = (lastSig \<noteq> [] \<and> lastSig \<noteq> buildSig);
          contentChanged = (digestsFP \<noteq> [] \<and> lastDigests \<noteq> digestsFP \<and> (lastDigests \<noteq> [] \<or> alreadyBuilt));
          marker = (case is_LastSuccessfulPollTime is of None \<Rightarrow> [] | Some t \<Rightarrow> ce_formatTime env t)
      in \<lparr>bd_buildSig = buildSig, bd_digestsFP = digestsFP, bd_recollectValue = recollectValue, bd_pollMarker = marker,
          bd_recollect = recollect, bd_sigChanged = sigChanged, bd_contentChanged = contentChanged,
          bd_poll = (pollExpired \<and> \<not> (recollect \<or> sigChanged \<or> contentChanged) \<and> marker \<noteq> mget_str annos catalogPollSigAnnotation \<and> \<not> anyActive)\<rparr>)"

definition recorded_annotations :: "build_decision \<Rightarrow> annotations \<Rightarrow> annotations" where
  "recorded_annotations d annos =
     (let a1 = mput catalogBuildSigAnnotation (bd_buildSig d) annos;
          a2 = (if bd_digestsFP d \<noteq> [] then mput catalogBuildDigestsAnnotation (bd_digestsFP d) a1 else a1);
          a3 = (if bd_recollect d then mput catalogRecollectSigAnnotation (bd_recollectValue d) a2 else a2)
      in if bd_poll d then mput catalogPollSigAnnotation (bd_pollMarker d) a3 else a3)"

definition must_record :: "build_decision \<Rightarrow> annotations \<Rightarrow> bool" where
  "must_record d annos \<longleftrightarrow> needsRebuild d \<or> mget_str annos catalogBuildSigAnnotation \<noteq> bd_buildSig d \<or>
     (bd_digestsFP d \<noteq> [] \<and> mget_str annos catalogBuildDigestsAnnotation \<noteq> bd_digestsFP d)"

section \<open>The Jobs\<close>

text \<open>One catalog of the loop: it ends the pass, or goes on with the phase of its Job, if the Job counts.\<close>

datatype op_result = Stop "ctl_error option" | Phase job_phase | AlreadyBuilt

definition op_packages :: "operator \<Rightarrow> include_package list" where
  "op_packages op = (if op_Full op then [] else op_Packages op)"

definition ensure_job ::
  "ctl_env \<Rightarrow> 'w ctl_api \<Rightarrow> ctl_image_set \<Rightarrow> worker_target \<Rightarrow> mirror_snapshot \<Rightarrow> operator \<Rightarrow> 'w \<Rightarrow> 'w \<times> op_result" where
  "ensure_job env api is mt snap op w =
     (if \<not> sn_complete snap then map_prod id Stop (deferCatalogBuild env api w is snap ''building'')
      else (case pinnedCatalogRef env (sn_digests snap) op of
              None \<Rightarrow> map_prod id Stop (status_result (ct_status_update api w (set_catalog_ready env ConditionFalse reasonWaitingForOperatorMirror
                        ''waiting for the manager to record a resolved catalog digest before building the filtered catalog'' is)))
            | Some pullCatalog \<Rightarrow>
                (case EnsureCatalogBuildJob (ce_mgr env) (ct_jobs api) w (ce_namespace env) is mt (op_Catalog op) pullCatalog
                        (CatalogTargetImage (mt_Registry mt) op) (op_packages op) of
                   (w1, Some e) \<Rightarrow> (w1, Stop (Some (EnsureFailed (op_Catalog op) e)))
                 | (w1, None) \<Rightarrow>
                     (case GetBuildJobStatus (ct_jobs api) w1 (JobName (bm_sha256hex (ce_mgr env)) (is_Name is) (op_Catalog op)) of
                        Inl e \<Rightarrow> (w1, Stop (Some (PhaseFailed e)))
                      | Inr phase \<Rightarrow> (w1, Phase phase)))))"

definition catalog_op ::
  "ctl_env \<Rightarrow> 'w ctl_api \<Rightarrow> ctl_image_set \<Rightarrow> worker_target \<Rightarrow> mirror_snapshot \<Rightarrow> bool \<Rightarrow> bool \<Rightarrow> (string, job_phase) gomap \<Rightarrow> operator \<Rightarrow> 'w
    \<Rightarrow> 'w \<times> op_result" where
  "catalog_op env api is mt snap rebuild alreadyReady phases op w =
     (let jobName = JobName (bm_sha256hex (ce_mgr env)) (is_Name is) (op_Catalog op);
          phase = mget_default JobPhaseNotFound phases (op_Catalog op);
          stale = (rebuild \<and> (phase = JobPhaseSucceeded \<or> phase = JobPhaseFailed));
          w1 = (if stale then fst (DeleteBuildJob (ct_jobs api) w jobName) else w);
          phase1 = (if stale then JobPhaseNotFound else phase)
      in if phase1 = JobPhaseNotFound \<and> alreadyReady then (w1, AlreadyBuilt)
         else if phase1 = JobPhaseNotFound then ensure_job env api is mt snap op w1
         else (w1, Phase phase1))"

text \<open>The loop over the catalogs, with \<open>allSucceeded\<close> and \<open>anyFailed\<close>.\<close>

fun catalog_ops ::
  "ctl_env \<Rightarrow> 'w ctl_api \<Rightarrow> ctl_image_set \<Rightarrow> worker_target \<Rightarrow> mirror_snapshot \<Rightarrow> bool \<Rightarrow> bool \<Rightarrow> (string, job_phase) gomap \<Rightarrow> operator list
    \<Rightarrow> bool \<Rightarrow> bool \<Rightarrow> 'w \<Rightarrow> 'w \<times> (ctl_error option + bool \<times> bool)" where
  "catalog_ops env api is mt snap rebuild built phases [] allSucceeded anyFailed w = (w, Inr (allSucceeded, anyFailed))"
| "catalog_ops env api is mt snap rebuild built phases (op # ops) allSucceeded anyFailed w =
     (if op_Catalog op = [] then catalog_ops env api is mt snap rebuild built phases ops allSucceeded anyFailed w
      else (case catalog_op env api is mt snap rebuild built phases op w of
              (w1, Stop e) \<Rightarrow> (w1, Inl e)
            | (w1, AlreadyBuilt) \<Rightarrow> catalog_ops env api is mt snap rebuild built phases ops allSucceeded anyFailed w1
            | (w1, Phase JobPhaseSucceeded) \<Rightarrow> catalog_ops env api is mt snap rebuild built phases ops allSucceeded anyFailed w1
            | (w1, Phase JobPhaseFailed) \<Rightarrow> catalog_ops env api is mt snap rebuild built phases ops False True w1
            | (w1, Phase _) \<Rightarrow> catalog_ops env api is mt snap rebuild built phases ops False anyFailed w1))"

definition report_jobs :: "ctl_env \<Rightarrow> 'w ctl_api \<Rightarrow> ctl_image_set \<Rightarrow> bool \<Rightarrow> bool \<Rightarrow> 'w \<Rightarrow> 'w \<times> ctl_error option" where
  "report_jobs env api is allSucceeded anyFailed w =
     (if anyFailed then
        status_result (ct_status_update api w (set_catalog_ready env ConditionFalse ''CatalogBuildFailed'' ''one or more catalog build jobs failed'' is))
      else if allSucceeded then
        status_result (retry_on_conflict DefaultRetrySteps (\<lambda>w.
          case ct_is_get api w (is_Name is) of
            Inl e \<Rightarrow> (w, WriteFailed e)
          | Inr fresh \<Rightarrow> ct_status_update api w
              (set_catalog_ready env ConditionTrue ''CatalogBuildSucceeded'' ''all catalog images built successfully'' fresh)) w)
      else status_result (ct_status_update api w (set_catalog_ready env ConditionFalse ''CatalogBuildRunning'' ''catalog build jobs are still running'' is)))"

text \<open>The part of a pass after the triggers were decided.\<close>

definition run_build ::
  "ctl_env \<Rightarrow> 'w ctl_api \<Rightarrow> ctl_image_set \<Rightarrow> worker_target \<Rightarrow> mirror_snapshot \<Rightarrow> bool \<Rightarrow> build_decision \<Rightarrow> (string, job_phase) gomap \<Rightarrow> 'w
    \<Rightarrow> 'w \<times> ctl_image_set \<times> ctl_error option" where
  "run_build env api is mt snap alreadyBuilt d phases w =
     (let recording = (sn_complete snap \<and> must_record d (is_Annotations is));
          is1 = (if recording then is\<lparr>is_Annotations := recorded_annotations d (is_Annotations is)\<rparr> else is)
      in case (if recording then ct_is_update api w is1 else (w, None)) of
           (w1, Some e) \<Rightarrow> (w1, is1, Some (PersistFailed e))
         | (w1, None) \<Rightarrow>
             (case catalog_ops env api is1 mt snap (needsRebuild d) (alreadyBuilt \<and> \<not> needsRebuild d) phases (ms_Operators (is_Mirror is)) True False w1 of
                (w2, Inl e) \<Rightarrow> (w2, is1, e)
              | (w2, Inr (allSucceeded, anyFailed)) \<Rightarrow>
                  (case report_jobs env api is1 allSucceeded anyFailed w2 of (w3, e) \<Rightarrow> (w3, is1, e))))"

definition reconcileCatalogBuildJobs ::
  "ctl_env \<Rightarrow> 'w ctl_api \<Rightarrow> ctl_image_set \<Rightarrow> worker_target \<Rightarrow> bool \<Rightarrow> 'w \<Rightarrow> 'w \<times> ctl_image_set \<times> ctl_error option" where
  "reconcileCatalogBuildJobs env api is mt pollExpired w =
     (let operators = ms_Operators (is_Mirror is);
          snap = loadMirrorSnapshot (ce_jsonHash env) (ct_kube api) w is;
          alreadyBuilt = list_ex (\<lambda>c. cd_Type c = conditionCatalogReady \<and> cd_Status c = ConditionTrue) (is_Conditions is)
      in if operators = [] then (w, is, None)
         else (case job_phases env api w (is_Name is) operators [] of
                 Inl e \<Rightarrow> (w, is, Some (PhaseFailed e))
               | Inr phases \<Rightarrow>
                   (let anyJob = list_ex (\<lambda>kp. snd kp \<noteq> JobPhaseNotFound) phases;
                        anyActive = list_ex (\<lambda>kp. snd kp = JobPhasePending \<or> snd kp = JobPhaseRunning) phases;
                        d = decide_build env is snap alreadyBuilt anyActive pollExpired
                    in if \<not> sn_complete snap \<and> \<not> alreadyBuilt \<and> \<not> anyJob then
                         (case deferCatalogBuild env api w is snap ''building'' of (w1, e) \<Rightarrow> (w1, is, e))
                       else if needsRebuild d \<and> \<not> sn_complete snap then
                         (case deferCatalogBuild env api w is snap ''rebuilding'' of (w1, e) \<Rightarrow> (w1, is, e))
                       else if needsRebuild d \<and> anyActive then
                         (case status_result (ct_status_update api w (set_catalog_ready env ConditionFalse ''CatalogBuildRunning''
                                 ''a catalog build job is still running; the rebuild starts once it has finished'' is)) of (w1, e) \<Rightarrow> (w1, is, e))
                       else run_build env api is mt snap alreadyBuilt d phases w)))"

section \<open>The reconciler\<close>

datatype owner_lookup = ListFailed kube_error | NoOwningTarget | OneTarget worker_target | ManyTargets "string list"

definition findOwningMirrorTarget :: "'w ctl_api \<Rightarrow> 'w \<Rightarrow> string \<Rightarrow> owner_lookup" where
  "findOwningMirrorTarget api w isName =
     (case ct_mt_list api w of
        Inl e \<Rightarrow> ListFailed e
      | Inr mts \<Rightarrow>
          (case filter (\<lambda>mt. isName \<in> set (mt_ImageSets mt)) mts of
             [] \<Rightarrow> NoOwningTarget
           | [mt] \<Rightarrow> OneTarget mt
           | matches \<Rightarrow> ManyTargets (map mt_Name matches)))"

definition unbound_message :: "string \<Rightarrow> owner_lookup \<Rightarrow> string" where
  "unbound_message isName r =
     (case r of
        ListFailed (APIError e) \<Rightarrow> ''failed to list MirrorTargets: '' @ e
      | ListFailed NotFound \<Rightarrow> ''failed to list MirrorTargets: not found''
      | NoOwningTarget \<Rightarrow> ''no MirrorTarget references ImageSet '' @ isName
      | OneTarget mt \<Rightarrow> []
      | ManyTargets mts \<Rightarrow> ''ImageSet '' @ isName @ '' is referenced by multiple MirrorTargets ('' @ str_join '', '' mts @
          ''); each ImageSet may only be in one MirrorTarget'')"

text \<open>The pause before the next pass, or the error that makes the queue retry.\<close>

datatype ctl_result = RequeueAfter int | NoRequeue | CtlError ctl_error

definition Reconcile_imageset :: "ctl_env \<Rightarrow> 'w ctl_api \<Rightarrow> string \<Rightarrow> 'w \<Rightarrow> 'w \<times> ctl_result" where
  "Reconcile_imageset env api isName w =
     (case ct_is_get api w isName of
        Inl NotFound \<Rightarrow> (w, NoRequeue)
      | Inl e \<Rightarrow> (w, CtlError (GetFailed e))
      | Inr is \<Rightarrow>
          (case findOwningMirrorTarget api w (is_Name is) of
             OneTarget mt \<Rightarrow>
               (let stale = (case find (\<lambda>c. cd_Type c = conditionReady) (is_Conditions is) of Some c \<Rightarrow> cd_Reason c = ''Unbound'' | None \<Rightarrow> False);
                    is1 = (if stale then is\<lparr>is_Conditions := setCondition (ce_now env) (is_Conditions is) conditionReady ConditionFalse ''Resolving''
                             (''bound to MirrorTarget '' @ mt_Name mt @ ''; waiting for its manager to resolve the images'') (is_Generation is)\<rparr> else is)
                in case (if stale then ct_status_update api w is1 else (w, Written)) of
                     (w1, Written) \<Rightarrow>
                       (let pollInterval = (case mt_PollInterval mt of None \<Rightarrow> 24 * hour | Some d \<Rightarrow> if d > 0 then max d (10 * minute) else 24 * hour);
                            pollingEnabled = (case mt_PollInterval mt of None \<Rightarrow> True | Some d \<Rightarrow> d > 0);
                            pollExpired = (pollingEnabled \<and> (case is_LastSuccessfulPollTime is1 of None \<Rightarrow> False | Some t \<Rightarrow> ce_now env - t \<ge> pollInterval))
                        in case reconcileCatalogBuildJobs env api is1 mt pollExpired w1 of
                             (w2, is2, Some e) \<Rightarrow>
                               (fst (ct_status_update api w2 (set_catalog_ready env ConditionFalse ''CatalogBuildFailed'' (ce_errorText env e) is2)), RequeueAfter (30 * second))
                           | (w2, is2, None) \<Rightarrow> (w2, if pollingEnabled then RequeueAfter pollInterval else NoRequeue))
                   | (w1, e) \<Rightarrow> (w1, CtlError (StatusFailed e)))
           | r \<Rightarrow>
               (fst (ct_status_update api w (is\<lparr>is_Conditions := setCondition (ce_now env) (is_Conditions is) conditionReady ConditionFalse ''Unbound''
                  (unbound_message (is_Name is) r) (is_Generation is)\<rparr>)), RequeueAfter minute)))"

definition imageStateConfigMapToRequests :: "'w ctl_api \<Rightarrow> 'w \<Rightarrow> string \<Rightarrow> string list" where
  "imageStateConfigMapToRequests api w name =
     (if \<not> hasSuffix name ''-images'' then []
      else (let owner = trimSuffix name ''-images''
            in case ct_is_get api w owner of
                 Inr _ \<Rightarrow> [owner]
               | Inl _ \<Rightarrow> (case ct_mt_get api w owner of Inl _ \<Rightarrow> [] | Inr mt \<Rightarrow> mt_ImageSets mt)))"

section \<open>When a snapshot is complete\<close>

definition held :: "loaded_state \<Rightarrow> image_entry set" where
  "held st = {e. Some e \<in> snd ` set st}"

definition operator_entries :: "loaded_state \<Rightarrow> image_entry set" where
  "operator_entries st = {e \<in> held st. Origin e = OriginOperator}"

lemma held_simps [simp]: "held [] = {}" "held ((d, Some e) # st) = insert e (held st)" "held ((d, None) # st) = held st"
  by (auto simp: held_def)

lemma operator_entries_simps [simp]:
  "operator_entries [] = {}"
  "operator_entries ((d, Some e) # st) = (if Origin e = OriginOperator then insert e (operator_entries st) else operator_entries st)"
  "operator_entries ((d, None) # st) = operator_entries st"
  by (auto simp: operator_entries_def)

lemma snapshot_entry_None [simp]: "snapshot_entry (d, None) acc = acc"
  by (simp add: snapshot_entry_def)

lemma snapshot_entry_Some [simp]:
  "sa_pending (snapshot_entry (d, Some e) acc) = sa_pending acc + (if State e \<noteq> stateMirrored \<and> \<not> PermanentlyFailed e then 1 else 0)"
  "sa_hasOperator (snapshot_entry (d, Some e) acc) \<longleftrightarrow> sa_hasOperator acc \<or> Origin e = OriginOperator"
  "sa_legacySigSeen (snapshot_entry (d, Some e) acc) \<longleftrightarrow> sa_legacySigSeen acc \<or> (Origin e = OriginOperator \<and> EntrySig e = [])"
  "sa_sigs (snapshot_entry (d, Some e) acc) =
     (if Origin e = OriginOperator \<and> EntrySig e \<noteq> [] \<and> mget (sa_sigs acc) (EntrySig e) \<noteq> None then mput (EntrySig e) True (sa_sigs acc) else sa_sigs acc)"
  by (simp_all add: snapshot_entry_def Let_def)

lemma loaded_induct [case_names Nil Entry Null]:
  "P [] \<Longrightarrow> (\<And>d e st. P st \<Longrightarrow> P ((d, Some e) # st)) \<Longrightarrow> (\<And>d st. P st \<Longrightarrow> P ((d, None) # st)) \<Longrightarrow> P (st :: loaded_state)"
  by (induction st) (auto, metis not_None_eq)

lemma snapshot_pending:
  "sa_pending acc \<ge> 0 \<Longrightarrow>
   sa_pending (fold snapshot_entry st acc) > 0 \<longleftrightarrow> sa_pending acc > 0 \<or> (\<exists>e \<in> held st. State e \<noteq> stateMirrored \<and> \<not> PermanentlyFailed e)"
  by (induction st arbitrary: acc rule: loaded_induct) auto

lemma snapshot_operator: "sa_hasOperator (fold snapshot_entry st acc) \<longleftrightarrow> sa_hasOperator acc \<or> operator_entries st \<noteq> {}"
  by (induction st arbitrary: acc rule: loaded_induct) auto

lemma snapshot_legacy: "sa_legacySigSeen (fold snapshot_entry st acc) \<longleftrightarrow> sa_legacySigSeen acc \<or> (\<exists>e \<in> operator_entries st. EntrySig e = [])"
  by (induction st arbitrary: acc rule: loaded_induct) auto

lemma snapshot_sigs:
  "wf_map (sa_sigs acc) \<Longrightarrow> wf_map (sa_sigs (fold snapshot_entry st acc)) \<and>
   mget (sa_sigs (fold snapshot_entry st acc)) s =
     map_option (\<lambda>b. b \<or> (s \<noteq> [] \<and> (\<exists>e \<in> operator_entries st. EntrySig e = s))) (mget (sa_sigs acc) s)"
proof (induction st arbitrary: acc rule: loaded_induct)
  case (Entry d e st)
  have "wf_map (sa_sigs (snapshot_entry (d, Some e) acc))" using Entry.prems by simp
  note ih = Entry.IH [OF this]
  have "mget (sa_sigs (snapshot_entry (d, Some e) acc)) s =
      map_option (\<lambda>b. b \<or> (s \<noteq> [] \<and> Origin e = OriginOperator \<and> EntrySig e = s)) (mget (sa_sigs acc) s)"
    by (cases "mget (sa_sigs acc) s") auto
  then show ?case using ih by (cases "mget (sa_sigs acc) s") auto
next
  case Nil
  then show ?case by (cases "mget (sa_sigs acc) s") auto
qed simp

lemma expectedSigs_lookup:
  "wf_map (expectedSigs h ops) \<and> mget (expectedSigs h ops) s = (if \<exists>op \<in> set ops. op_Catalog op \<noteq> [] \<and> OperatorEntrySignature h op = s then Some False else None)"
  unfolding expectedSigs_def by (induction ops rule: rev_induct) auto

lemma unseen_sig: "wf_map m \<Longrightarrow> (\<exists>sv \<in> set m. \<not> snd sv) \<longleftrightarrow> (\<exists>s. mget m s = Some False)"
  by (metis (full_types) mget_Some_in mget_in_wf prod.collapse snd_conv)

text \<open>
  Property C14. A catalog may be built exactly when the state of the ImageSet could be loaded, none of its images is pending (each one is mirrored or has failed for
  good), some image is an operator image, the manager has recorded the current generation of the spec as observed, and every configured catalog has an image that was
  resolved from its current entry, unless images are left from before entries were signed.
\<close>

theorem snapshot_complete_iff:
  "sn_complete (loadMirrorSnapshot h k w is) \<longleftrightarrow>
     (\<exists>st digests. LoadWithCatalogDigests k w (is_Name is) = Inr (st, digests) \<and>
        (\<forall>e. Some e \<in> snd ` set st \<longrightarrow> State e = stateMirrored \<or> PermanentlyFailed e) \<and>
        (\<exists>e. Some e \<in> snd ` set st \<and> Origin e = OriginOperator) \<and> is_ObservedGeneration is = is_Generation is \<and>
        ((\<exists>e. Some e \<in> snd ` set st \<and> Origin e = OriginOperator \<and> EntrySig e = []) \<or>
         (\<forall>op \<in> set (ms_Operators (is_Mirror is)). op_Catalog op \<noteq> [] \<longrightarrow>
            (\<exists>e. Some e \<in> snd ` set st \<and> Origin e = OriginOperator \<and> EntrySig e = OperatorEntrySignature h op))))"
proof (cases "LoadWithCatalogDigests k w (is_Name is)")
  case (Inl e)
  then show ?thesis by (simp add: loadMirrorSnapshot_def)
next
  case (Inr sd)
  obtain st digests where sd: "sd = (st, digests)" by (cases sd)
  let ?ops = "ms_Operators (is_Mirror is)"
  let ?start = "\<lparr>sa_pending = 0, sa_hasOperator = False, sa_legacySigSeen = False, sa_sigs = expectedSigs h ?ops\<rparr>"
  let ?acc = "fold snapshot_entry st ?start"
  have start: "sa_pending ?start \<ge> 0" "wf_map (sa_sigs ?start)" by (simp_all add: expectedSigs_lookup)
  note fold = snapshot_pending [OF start(1), of st] snapshot_operator [of st ?start] snapshot_legacy [of st ?start] snapshot_sigs [OF start(2), of st]
  have "(\<exists>s. mget (sa_sigs ?acc) s = Some False) \<longleftrightarrow>
      (\<exists>op \<in> set ?ops. op_Catalog op \<noteq> [] \<and> \<not> (OperatorEntrySignature h op \<noteq> [] \<and> (\<exists>e \<in> operator_entries st. EntrySig e = OperatorEntrySignature h op)))"
    using fold by (auto simp: expectedSigs_lookup split: if_splits)
  then have missing: "(\<exists>sv \<in> set (sa_sigs ?acc). \<not> snd sv) \<longleftrightarrow>
      (\<exists>op \<in> set ?ops. op_Catalog op \<noteq> [] \<and> \<not> (OperatorEntrySignature h op \<noteq> [] \<and> (\<exists>e \<in> operator_entries st. EntrySig e = OperatorEntrySignature h op)))"
    using unseen_sig fold by blast
  have "sn_complete (loadMirrorSnapshot h k w is) \<longleftrightarrow> st \<noteq> [] \<and> \<not> sa_pending ?acc > 0 \<and> sa_hasOperator ?acc \<and> is_ObservedGeneration is = is_Generation is \<and>
      (sa_legacySigSeen ?acc \<or> \<not> (\<exists>sv \<in> set (sa_sigs ?acc). \<not> snd sv))"
    using Inr sd by (auto simp: loadMirrorSnapshot_def Let_def)
  also have "\<dots> \<longleftrightarrow> (\<forall>e \<in> held st. State e = stateMirrored \<or> PermanentlyFailed e) \<and> operator_entries st \<noteq> {} \<and> is_ObservedGeneration is = is_Generation is \<and>
      ((\<exists>e \<in> operator_entries st. EntrySig e = []) \<or>
       (\<forall>op \<in> set ?ops. op_Catalog op \<noteq> [] \<longrightarrow> (\<exists>e \<in> operator_entries st. EntrySig e = OperatorEntrySignature h op)))"
    unfolding missing using fold by (cases st) auto
  finally show ?thesis using Inr by (simp add: sd operator_entries_def held_def)
qed

section \<open>Which Jobs a pass may touch\<close>

text \<open>
  What the reconciler relies on of the API server: creating a Job adds at most that Job, deleting one removes at most that one (whether or not an
  error is reported), and writing an ImageSet or its status leaves the Jobs alone.
\<close>

definition job_laws :: "'w ctl_api \<Rightarrow> bool" where
  "job_laws api \<longleftrightarrow>
     (\<forall>w j w' e n. ja_create (ct_jobs api) w j = (w', e) \<longrightarrow>
        ja_get (ct_jobs api) w' n = ja_get (ct_jobs api) w n \<or> n = cj_Name j \<and> ja_get (ct_jobs api) w' n = Inr j) \<and>
     (\<forall>w m w' e n. ja_delete (ct_jobs api) w m = (w', e) \<longrightarrow>
        ja_get (ct_jobs api) w' n = ja_get (ct_jobs api) w n \<or> n = m \<and> ja_get (ct_jobs api) w' n = Inl NotFound) \<and>
     (\<forall>w is n. ja_get (ct_jobs api) (fst (ct_status_update api w is)) n = ja_get (ct_jobs api) w n) \<and>
     (\<forall>w is n. ja_get (ct_jobs api) (fst (ct_is_update api w is)) n = ja_get (ct_jobs api) w n)"

text \<open>The Jobs of \<open>w'\<close> are those of \<open>w\<close>, but for names in \<open>T\<close>, which may be gone or hold a Job of \<open>J\<close>.\<close>

definition jobs_safe :: "'w job_api \<Rightarrow> string set \<Rightarrow> catalog_job set \<Rightarrow> 'w \<Rightarrow> 'w \<Rightarrow> bool" where
  "jobs_safe ja T J w w' \<longleftrightarrow>
     (\<forall>n. ja_get ja w' n = ja_get ja w n \<or> n \<in> T \<and> (ja_get ja w' n = Inl NotFound \<or> (\<exists>j \<in> J. cj_Name j = n \<and> ja_get ja w' n = Inr j)))"

lemma jobs_safe_refl [simp]: "jobs_safe ja T J w w"
  by (simp add: jobs_safe_def)

lemma status_safe:
  assumes "job_laws api" and "jobs_safe (ct_jobs api) T J w0 w"
  shows "jobs_safe (ct_jobs api) T J w0 (fst (ct_status_update api w is))" "jobs_safe (ct_jobs api) T J w0 (fst (ct_is_update api w is))"
  using assms by (simp_all add: job_laws_def jobs_safe_def)

lemma status_result_fst [simp]: "fst (status_result r) = fst r"
  by (cases r; cases "snd r") (auto simp: status_result_def)

lemma defer_safe:
  assumes "job_laws api" and "jobs_safe (ct_jobs api) T J w0 w"
  shows "jobs_safe (ct_jobs api) T J w0 (fst (deferCatalogBuild env api w is snap verb))"
  using assms by (simp add: deferCatalogBuild_def Let_def status_safe)

lemma retry_safe:
  assumes "\<And>w. P w \<Longrightarrow> P (fst (f w))" and "P w"
  shows "P (fst (retry_on_conflict n f w))"
  using assms(2)
proof (induction n arbitrary: w)
  case (Suc n)
  then show ?case using assms(1) [OF Suc.prems] by (cases "f w"; cases "snd (f w)") auto
qed simp

lemma report_safe:
  assumes "job_laws api" and "jobs_safe (ct_jobs api) T J w0 w"
  shows "jobs_safe (ct_jobs api) T J w0 (fst (report_jobs env api is a f w))"
proof -
  let ?attempt = "\<lambda>w. case ct_is_get api w (is_Name is) of
      Inl e \<Rightarrow> (w, WriteFailed e)
    | Inr fresh \<Rightarrow> ct_status_update api w (set_catalog_ready env ConditionTrue ''CatalogBuildSucceeded'' ''all catalog images built successfully'' fresh)"
  have "jobs_safe (ct_jobs api) T J w0 (fst (?attempt w))" if "jobs_safe (ct_jobs api) T J w0 w" for w
    using that status_safe(1) [OF assms(1)] by (auto split: sum.splits)
  from retry_safe [where P = "jobs_safe (ct_jobs api) T J w0" and f = ?attempt, OF this assms(2)] show ?thesis
    using status_safe(1) [OF assms] by (simp add: report_jobs_def)
qed

lemma delete_safe:
  assumes "job_laws api" and "jobs_safe (ct_jobs api) T J w0 w" and "name \<in> T"
  shows "jobs_safe (ct_jobs api) T J w0 (fst (DeleteBuildJob (ct_jobs api) w name))"
proof (cases "\<exists>j. ja_get (ct_jobs api) w name = Inr j")
  case True
  then have "DeleteBuildJob (ct_jobs api) w name = ja_delete (ct_jobs api) w name" by (auto simp: DeleteBuildJob_def)
  then have "ja_get (ct_jobs api) (fst (DeleteBuildJob (ct_jobs api) w name)) n = ja_get (ct_jobs api) w n \<or>
      n = name \<and> ja_get (ct_jobs api) (fst (DeleteBuildJob (ct_jobs api) w name)) n = Inl NotFound" for n
    using assms(1) unfolding job_laws_def by (metis prod.collapse)
  then show ?thesis using assms(2,3) unfolding jobs_safe_def by metis
next
  case False
  then show ?thesis using assms(2) by (auto simp: DeleteBuildJob_def split: sum.splits kube_error.splits)
qed

lemma ensure_safe:
  assumes "job_laws api" and "jobs_safe (ct_jobs api) T J w0 w"
    and "\<And>n. ja_get (ct_jobs api) w0 n = Inl NotFound \<Longrightarrow> n \<in> T"
    and "buildJobSpec m (JobName (bm_sha256hex m) (is_Name is) cat) ns is mt pull target pkgs \<in> J"
  shows "jobs_safe (ct_jobs api) T J w0 (fst (EnsureCatalogBuildJob m (ct_jobs api) w ns is mt cat pull target pkgs))"
proof (cases "ja_get (ct_jobs api) w (JobName (bm_sha256hex m) (is_Name is) cat) = Inl NotFound")
  case True
  let ?n = "JobName (bm_sha256hex m) (is_Name is) cat" and ?j = "buildJobSpec m (JobName (bm_sha256hex m) (is_Name is) cat) ns is mt pull target pkgs"
  have "?n \<in> T" using assms(2,3) True unfolding jobs_safe_def by metis
  moreover have "cj_Name ?j = ?n" by (simp add: buildJobSpec_def)
  moreover have "fst (EnsureCatalogBuildJob m (ct_jobs api) w ns is mt cat pull target pkgs) = fst (ja_create (ct_jobs api) w ?j)"
    using True by (auto simp: EnsureCatalogBuildJob_def Let_def split: prod.splits option.splits)
  moreover have "ja_get (ct_jobs api) (fst (ja_create (ct_jobs api) w ?j)) n = ja_get (ct_jobs api) w n \<or>
      n = cj_Name ?j \<and> ja_get (ct_jobs api) (fst (ja_create (ct_jobs api) w ?j)) n = Inr ?j" for n
    using assms(1) unfolding job_laws_def by (metis prod.collapse)
  ultimately show ?thesis using assms(2,4) unfolding jobs_safe_def by metis
next
  case False
  then show ?thesis using assms(2) by (auto simp: EnsureCatalogBuildJob_def Let_def split: sum.splits kube_error.splits)
qed

text \<open>The Jobs that a complete snapshot allows, and the names that a pass may touch.\<close>

definition pinned_jobs :: "ctl_env \<Rightarrow> ctl_image_set \<Rightarrow> worker_target \<Rightarrow> mirror_snapshot \<Rightarrow> catalog_job set" where
  "pinned_jobs env is mt snap =
     {buildJobSpec (ce_mgr env) (JobName (bm_sha256hex (ce_mgr env)) (is_Name is) (op_Catalog op)) (ce_namespace env) is mt pull
        (CatalogTargetImage (mt_Registry mt) op) (op_packages op) | op pull.
      sn_complete snap \<and> op \<in> set (ms_Operators (is_Mirror is)) \<and> op_Catalog op \<noteq> [] \<and> pinnedCatalogRef env (sn_digests snap) op = Some pull}"

lemma buildJobSpec_source: "mget (cj_Env (buildJobSpec m n ns is mt pull target ps)) ''SOURCE_CATALOG'' = Some (Value pull)"
  by (simp add: buildJobSpec_def job_env_def)

lemma buildJobSpec_name: "is_Name is = is_Name is' \<Longrightarrow> buildJobSpec m n ns is mt p t ps = buildJobSpec m n ns is' mt p t ps"
  by (simp add: buildJobSpec_def)

definition idle_names :: "'w job_api \<Rightarrow> 'w \<Rightarrow> string set" where
  "idle_names ja w = {n. \<forall>j. ja_get ja w n = Inr j \<longrightarrow> job_phase_of j \<in> {JobPhaseSucceeded, JobPhaseFailed}}"

lemma ensure_job_safe:
  assumes laws: "job_laws api" and safe: "jobs_safe (ct_jobs api) T (pinned_jobs env is mt snap) w0 w"
    and T: "\<And>n. sn_complete snap \<Longrightarrow> ja_get (ct_jobs api) w0 n = Inl NotFound \<Longrightarrow> n \<in> T"
    and op: "op \<in> set (ms_Operators (is_Mirror is))" "op_Catalog op \<noteq> []" and name: "is_Name is1 = is_Name is"
  shows "jobs_safe (ct_jobs api) T (pinned_jobs env is mt snap) w0 (fst (ensure_job env api is1 mt snap op w))"
proof (cases "sn_complete snap")
  case False
  then show ?thesis using defer_safe [OF laws safe] by (simp add: ensure_job_def)
next
  case True
  show ?thesis
  proof (cases "pinnedCatalogRef env (sn_digests snap) op")
    case None
    then show ?thesis using True status_safe(1) [OF laws safe] by (simp add: ensure_job_def)
  next
    case (Some pull)
    let ?spec = "buildJobSpec (ce_mgr env) (JobName (bm_sha256hex (ce_mgr env)) (is_Name is1) (op_Catalog op)) (ce_namespace env) is1 mt pull
        (CatalogTargetImage (mt_Registry mt) op) (op_packages op)"
    have "?spec \<in> pinned_jobs env is mt snap"
      unfolding pinned_jobs_def buildJobSpec_name [OF name] name using True op Some by blast
    from ensure_safe [OF laws safe T [OF True] this] show ?thesis
      using True Some by (auto simp: ensure_job_def split: prod.splits option.splits sum.splits)
  qed
qed

lemma catalog_op_safe:
  assumes laws: "job_laws api" and safe: "jobs_safe (ct_jobs api) T (pinned_jobs env is mt snap) w0 w"
    and T: "\<And>n. sn_complete snap \<Longrightarrow> ja_get (ct_jobs api) w0 n = Inl NotFound \<Longrightarrow> n \<in> T"
    and stale: "rebuild \<Longrightarrow> mget_default JobPhaseNotFound phases (op_Catalog op) \<in> {JobPhaseSucceeded, JobPhaseFailed} \<Longrightarrow>
      JobName (bm_sha256hex (ce_mgr env)) (is_Name is) (op_Catalog op) \<in> T"
    and op: "op \<in> set (ms_Operators (is_Mirror is))" "op_Catalog op \<noteq> []" and name: "is_Name is1 = is_Name is"
  shows "jobs_safe (ct_jobs api) T (pinned_jobs env is mt snap) w0 (fst (catalog_op env api is1 mt snap rebuild built phases op w))"
proof -
  let ?jn = "JobName (bm_sha256hex (ce_mgr env)) (is_Name is) (op_Catalog op)"
  let ?stale = "rebuild \<and> mget_default JobPhaseNotFound phases (op_Catalog op) \<in> {JobPhaseSucceeded, JobPhaseFailed}"
  let ?w1 = "if ?stale then fst (DeleteBuildJob (ct_jobs api) w ?jn) else w"
  have "jobs_safe (ct_jobs api) T (pinned_jobs env is mt snap) w0 ?w1" using safe delete_safe [OF laws safe] stale by auto
  note ensure_job_safe [OF laws this T op name] this
  then show ?thesis by (auto simp: catalog_op_def Let_def name)
qed

lemma catalog_ops_safe:
  assumes laws: "job_laws api" and T: "\<And>n. sn_complete snap \<Longrightarrow> ja_get (ct_jobs api) w0 n = Inl NotFound \<Longrightarrow> n \<in> T"
    and stale: "\<And>op. op \<in> set (ms_Operators (is_Mirror is)) \<Longrightarrow> rebuild \<Longrightarrow>
      mget_default JobPhaseNotFound phases (op_Catalog op) \<in> {JobPhaseSucceeded, JobPhaseFailed} \<Longrightarrow>
      JobName (bm_sha256hex (ce_mgr env)) (is_Name is) (op_Catalog op) \<in> T"
    and name: "is_Name is1 = is_Name is"
  shows "set ops \<subseteq> set (ms_Operators (is_Mirror is)) \<Longrightarrow> jobs_safe (ct_jobs api) T (pinned_jobs env is mt snap) w0 w \<Longrightarrow>
    jobs_safe (ct_jobs api) T (pinned_jobs env is mt snap) w0 (fst (catalog_ops env api is1 mt snap rebuild built phases ops a f w))"
proof (induction ops arbitrary: a f w)
  case (Cons op ops)
  show ?case
  proof (cases "op_Catalog op = []")
    case True
    then show ?thesis using Cons by simp
  next
    case False
    obtain w1 r where r: "catalog_op env api is1 mt snap rebuild built phases op w = (w1, r)" by fastforce
    have op: "op \<in> set (ms_Operators (is_Mirror is))" using Cons.prems(1) by simp
    have "jobs_safe (ct_jobs api) T (pinned_jobs env is mt snap) w0 w1"
      using catalog_op_safe [where built = built and rebuild = rebuild and phases = phases, OF laws Cons.prems(2) T stale [OF op] op False name] r by simp
    note ih = Cons.IH [OF _ this]
    show ?thesis using False r ih Cons.prems(1) \<open>jobs_safe (ct_jobs api) T (pinned_jobs env is mt snap) w0 w1\<close>
      by (cases r) (auto split: job_phase.splits)
  qed
qed simp

lemma job_phases_lookup:
  "job_phases env api w isName ops ps = Inr phases \<Longrightarrow> mget phases cat = Some ph \<Longrightarrow>
   mget ps cat = Some ph \<or> GetBuildJobStatus (ct_jobs api) w (JobName (bm_sha256hex (ce_mgr env)) isName cat) = Inr ph"
proof (induction ops arbitrary: ps)
  case (Cons op ops)
  then show ?case by (fastforce split: if_splits sum.splits)
qed simp

text \<open>The ways in which a pass can end.\<close>

lemma reconcile_cases:
  assumes snap_def: "snap = loadMirrorSnapshot (ce_jsonHash env) (ct_kube api) w is"
    and "Q w" and "\<And>verb. Q (fst (deferCatalogBuild env api w is snap verb))" and "\<And>is1. Q (fst (ct_status_update api w is1))"
    and run: "\<And>b d phases. job_phases env api w (is_Name is) (ms_Operators (is_Mirror is)) [] = Inr phases \<Longrightarrow> needsRebuild d \<longrightarrow> sn_complete snap \<Longrightarrow>
      Q (fst (run_build env api is mt snap b d phases w))"
  shows "Q (fst (reconcileCatalogBuildJobs env api is mt pollExpired w))"
proof (cases "job_phases env api w (is_Name is) (ms_Operators (is_Mirror is)) []")
  case (Inl x)
  then show ?thesis using assms(2) by (simp add: reconcileCatalogBuildJobs_def Let_def)
next
  case (Inr phases)
  define built where "built = list_ex (\<lambda>c. cd_Type c = conditionCatalogReady \<and> cd_Status c = ConditionTrue) (is_Conditions is)"
  define active where "active = list_ex (\<lambda>kp. snd kp = JobPhasePending \<or> snd kp = JobPhaseRunning) phases"
  define anyJob where "anyJob = list_ex (\<lambda>kp. snd kp \<noteq> JobPhaseNotFound) phases"
  define d where "d = decide_build env is snap built active pollExpired"
  define message where "message = ''a catalog build job is still running; the rebuild starts once it has finished''"
  have "reconcileCatalogBuildJobs env api is mt pollExpired w =
    (if ms_Operators (is_Mirror is) = [] then (w, is, None)
     else if \<not> sn_complete snap \<and> \<not> built \<and> \<not> anyJob then (case deferCatalogBuild env api w is snap ''building'' of (w1, e) \<Rightarrow> (w1, is, e))
     else if needsRebuild d \<and> \<not> sn_complete snap then (case deferCatalogBuild env api w is snap ''rebuilding'' of (w1, e) \<Rightarrow> (w1, is, e))
     else if needsRebuild d \<and> active then
       (case status_result (ct_status_update api w (set_catalog_ready env ConditionFalse ''CatalogBuildRunning'' message is)) of (w1, e) \<Rightarrow> (w1, is, e))
     else run_build env api is mt snap built d phases w)"
    by (simp only: reconcileCatalogBuildJobs_def Let_def Inr sum.case snap_def [symmetric] built_def active_def anyJob_def d_def message_def)
  then show ?thesis using assms(2-4) run [OF Inr] by (simp add: case_prod_unfold)
qed

lemma run_build_safe:
  assumes laws: "job_laws api" and ph: "job_phases env api w (is_Name is) (ms_Operators (is_Mirror is)) [] = Inr phases"
    and d: "needsRebuild d \<Longrightarrow> sn_complete snap" and T: "sn_complete snap \<Longrightarrow> T = idle_names (ct_jobs api) w"
  shows "jobs_safe (ct_jobs api) T (pinned_jobs env is mt snap) w (fst (run_build env api is mt snap b d phases w))"
proof -
  let ?J = "pinned_jobs env is mt snap"
  let ?rec = "sn_complete snap \<and> must_record d (is_Annotations is)"
  define is1 where "is1 = (if ?rec then is\<lparr>is_Annotations := recorded_annotations d (is_Annotations is)\<rparr> else is)"
  obtain w1 e1 where u: "(if ?rec then ct_is_update api w is1 else (w, None)) = (w1, e1)" by fastforce
  have one: "jobs_safe (ct_jobs api) T ?J w w1" using u status_safe(2) [OF laws jobs_safe_refl] by (metis fst_conv jobs_safe_refl)
  have name: "is_Name is1 = is_Name is" by (simp add: is1_def)
  have absent: "n \<in> T" if "sn_complete snap" "ja_get (ct_jobs api) w n = Inl NotFound" for n using that T by (simp add: idle_names_def)
  have stale: "JobName (bm_sha256hex (ce_mgr env)) (is_Name is) (op_Catalog op) \<in> T"
    if rb: "needsRebuild d" and final: "mget_default JobPhaseNotFound phases (op_Catalog op) \<in> {JobPhaseSucceeded, JobPhaseFailed}" for op
  proof -
    obtain phase where "mget phases (op_Catalog op) = Some phase" "phase \<in> {JobPhaseSucceeded, JobPhaseFailed}"
      using final by (cases "mget phases (op_Catalog op)") (auto simp: mget_default_def)
    then show ?thesis using job_phases_lookup [OF ph] T [OF d [OF rb]]
      by (fastforce simp: GetBuildJobStatus_def idle_names_def split: sum.splits kube_error.splits)
  qed
  have ops: "jobs_safe (ct_jobs api) T ?J w (fst (catalog_ops env api is1 mt snap (needsRebuild d) (b \<and> \<not> needsRebuild d) phases
      (ms_Operators (is_Mirror is)) True False w1))"
    by (rule catalog_ops_safe [OF laws absent stale name subset_refl one])
  obtain w2 r where r: "catalog_ops env api is1 mt snap (needsRebuild d) (b \<and> \<not> needsRebuild d) phases (ms_Operators (is_Mirror is)) True False w1 = (w2, r)"
    by fastforce
  have "fst (run_build env api is mt snap b d phases w) = w1 \<or> fst (run_build env api is mt snap b d phases w) = w2 \<or>
      (\<exists>a f. fst (run_build env api is mt snap b d phases w) = fst (report_jobs env api is1 a f w2))"
    using u r unfolding run_build_def Let_def is1_def [symmetric]
    by (cases e1; cases r) (auto simp: case_prod_unfold)
  then show ?thesis using one ops report_safe [OF laws ops] r by (metis fst_conv)
qed

text \<open>
  Property C23. A pass of the reconciler creates or deletes a Job only while the snapshot is complete. The Job it leaves behind then is the one of a configured
  catalog, and it pulls the catalog by the digest from which the mirrored images were resolved; a Job that was pending or running is left as it was.
\<close>

theorem catalog_jobs_gated:
  assumes "job_laws api" and "reconcileCatalogBuildJobs env api is mt pollExpired w = (w', is', e)"
  shows "ja_get (ct_jobs api) w' n = ja_get (ct_jobs api) w n \<or>
     sn_complete (loadMirrorSnapshot (ce_jsonHash env) (ct_kube api) w is) \<and>
     (\<forall>j. ja_get (ct_jobs api) w n = Inr j \<longrightarrow> job_phase_of j \<in> {JobPhaseSucceeded, JobPhaseFailed}) \<and>
     (ja_get (ct_jobs api) w' n = Inl NotFound \<or>
      (\<exists>op \<in> set (ms_Operators (is_Mirror is)). \<exists>pull. op_Catalog op \<noteq> [] \<and> n = JobName (bm_sha256hex (ce_mgr env)) (is_Name is) (op_Catalog op) \<and>
         pinnedCatalogRef env (sn_digests (loadMirrorSnapshot (ce_jsonHash env) (ct_kube api) w is)) op = Some pull \<and>
         ja_get (ct_jobs api) w' n = Inr (buildJobSpec (ce_mgr env) n (ce_namespace env) is mt pull (CatalogTargetImage (mt_Registry mt) op) (op_packages op))))"
proof -
  let ?snap = "loadMirrorSnapshot (ce_jsonHash env) (ct_kube api) w is"
  let ?T = "if sn_complete ?snap then idle_names (ct_jobs api) w else {}"
  let ?J = "pinned_jobs env is mt ?snap"
  have T: "n \<in> ?T" if "sn_complete ?snap" "ja_get (ct_jobs api) w n = Inl NotFound" for n using that by (simp add: idle_names_def)
  define P where "P = jobs_safe (ct_jobs api) ?T ?J w"
  have "P w" by (simp add: P_def)
  have P: "P (fst (deferCatalogBuild env api w is ?snap verb))" "P (fst (ct_status_update api w is1))" for verb is1
    unfolding P_def by (rule defer_safe [OF assms(1) jobs_safe_refl], rule status_safe(1) [OF assms(1) jobs_safe_refl])
  have run: "P (fst (run_build env api is mt ?snap b d phases w))"
    if "job_phases env api w (is_Name is) (ms_Operators (is_Mirror is)) [] = Inr phases" "needsRebuild d \<longrightarrow> sn_complete ?snap" for b d phases
    using run_build_safe [OF assms(1) that(1), of d ?snap ?T] that(2) by (simp add: P_def)
  have "P (fst (reconcileCatalogBuildJobs env api is mt pollExpired w))"
    by (rule reconcile_cases [where Q = P, OF refl]) (use \<open>P w\<close> P run in auto)
  then have "jobs_safe (ct_jobs api) ?T ?J w (fst (reconcileCatalogBuildJobs env api is mt pollExpired w))" by (simp only: P_def)
  then have n: "ja_get (ct_jobs api) w' n = ja_get (ct_jobs api) w n \<or>
      n \<in> ?T \<and> (ja_get (ct_jobs api) w' n = Inl NotFound \<or> (\<exists>j \<in> ?J. cj_Name j = n \<and> ja_get (ct_jobs api) w' n = Inr j))"
    using assms(2) by (simp add: jobs_safe_def)
  have J: "\<exists>op \<in> set (ms_Operators (is_Mirror is)). \<exists>pull. op_Catalog op \<noteq> [] \<and> n = JobName (bm_sha256hex (ce_mgr env)) (is_Name is) (op_Catalog op) \<and>
      pinnedCatalogRef env (sn_digests ?snap) op = Some pull \<and>
      j = buildJobSpec (ce_mgr env) n (ce_namespace env) is mt pull (CatalogTargetImage (mt_Registry mt) op) (op_packages op)"
    if inJ: "j \<in> ?J" and jn: "cj_Name j = n" for j
  proof -
    obtain op pull where j: "j = buildJobSpec (ce_mgr env) (JobName (bm_sha256hex (ce_mgr env)) (is_Name is) (op_Catalog op)) (ce_namespace env) is mt pull
        (CatalogTargetImage (mt_Registry mt) op) (op_packages op)" and op: "op \<in> set (ms_Operators (is_Mirror is))" "op_Catalog op \<noteq> []"
        "pinnedCatalogRef env (sn_digests ?snap) op = Some pull"
      using inJ unfolding pinned_jobs_def by blast
    moreover have "n = JobName (bm_sha256hex (ce_mgr env)) (is_Name is) (op_Catalog op)" using jn by (simp add: j buildJobSpec_def)
    ultimately show ?thesis by blast
  qed
  show ?thesis
  proof (cases "ja_get (ct_jobs api) w' n = ja_get (ct_jobs api) w n")
    case False
    then have "n \<in> ?T" and r: "ja_get (ct_jobs api) w' n = Inl NotFound \<or> (\<exists>j \<in> ?J. cj_Name j = n \<and> ja_get (ct_jobs api) w' n = Inr j)" using n by blast+
    then have "sn_complete ?snap" "\<forall>j. ja_get (ct_jobs api) w n = Inr j \<longrightarrow> job_phase_of j \<in> {JobPhaseSucceeded, JobPhaseFailed}"
      by (auto simp: idle_names_def split: if_splits)
    then show ?thesis using r J by metis
  qed simp
qed

section \<open>Triggers\<close>

lemma recorded_lookup:
  "mget_str (recorded_annotations d a) catalogBuildSigAnnotation = bd_buildSig d"
  "bd_digestsFP d \<noteq> [] \<Longrightarrow> mget_str (recorded_annotations d a) catalogBuildDigestsAnnotation = bd_digestsFP d"
  "mget_str (recorded_annotations d a) catalogRecollectSigAnnotation = (if bd_recollect d then bd_recollectValue d else mget_str a catalogRecollectSigAnnotation)"
  "mget_str (recorded_annotations d a) catalogPollSigAnnotation = (if bd_poll d then bd_pollMarker d else mget_str a catalogPollSigAnnotation)"
  "mget_str (recorded_annotations d a) RecollectHonoredAnnotation = mget_str a RecollectHonoredAnnotation"
  by (simp_all add: recorded_annotations_def Let_def RecollectHonoredAnnotation_def)

text \<open>The fields of a decision; the inputs do not depend on the annotations.\<close>

definition build_inputs :: "ctl_env \<Rightarrow> 'a image_set_scheme \<Rightarrow> mirror_snapshot \<Rightarrow> string \<times> string \<times> string" where
  "build_inputs env is snap =
     (BuildSignature (ce_mgr env) (ms_Operators (is_Mirror is)),
      catalogDigestsFingerprint (ce_jsonHash env) (bm_sha256hex (ce_mgr env)) (sn_digests snap) (ms_Operators (is_Mirror is)),
      case is_LastSuccessfulPollTime is of None \<Rightarrow> [] | Some t \<Rightarrow> ce_formatTime env t)"

lemma build_inputs_annotations [simp]: "build_inputs env (is\<lparr>is_Annotations := a\<rparr>) snap = build_inputs env is snap"
  by (simp add: build_inputs_def)

lemma decide_fields:
  assumes "d = decide_build env is snap built active pollExpired" and "build_inputs env is snap = (sig, fp, marker)"
  shows "bd_buildSig d = sig" "bd_digestsFP d = fp" "bd_pollMarker d = marker" "bd_recollectValue d = mget_str (is_Annotations is) RecollectHonoredAnnotation"
    "bd_recollect d \<longleftrightarrow> bd_recollectValue d \<noteq> [] \<and> bd_recollectValue d \<noteq> mget_str (is_Annotations is) catalogRecollectSigAnnotation"
    "bd_sigChanged d \<longrightarrow> mget_str (is_Annotations is) catalogBuildSigAnnotation \<noteq> sig"
    "bd_contentChanged d \<longrightarrow> fp \<noteq> [] \<and> mget_str (is_Annotations is) catalogBuildDigestsAnnotation \<noteq> fp"
    "bd_poll d \<longrightarrow> marker \<noteq> mget_str (is_Annotations is) catalogPollSigAnnotation"
  using assms(2) unfolding assms(1) decide_build_def build_inputs_def Let_def by auto

lemma run_build_set:
  assumes "run_build env api is mt snap built d phases w = (w', is', e)"
  shows "is' = (if sn_complete snap \<and> must_record d (is_Annotations is) then is\<lparr>is_Annotations := recorded_annotations d (is_Annotations is)\<rparr> else is)"
proof -
  define is1 where "is1 = (if sn_complete snap \<and> must_record d (is_Annotations is)
    then is\<lparr>is_Annotations := recorded_annotations d (is_Annotations is)\<rparr> else is)"
  have "fst (snd (run_build env api is mt snap built d phases w)) = is1"
    unfolding run_build_def Let_def is1_def [symmetric] by (simp add: case_prod_unfold split: option.split sum.split)
  then show ?thesis using assms by (simp add: is1_def)
qed

text \<open>
  A trigger fires once: after a pass that went through with a complete snapshot, the annotations of the ImageSet hold what the catalogs are built
  from, so that the same recollect, signature, content or poll does not ask for another rebuild.
\<close>

theorem rebuild_triggers_fire_once:
  assumes "sn_complete snap" and "d = decide_build env is snap built active pollExpired" and "run_build env api is mt snap built d phases w = (w', is', e)"
    and "d' = decide_build env is' snap built' active' pollExpired'"
  shows "\<not> bd_recollect d' \<and> \<not> bd_sigChanged d' \<and> \<not> bd_contentChanged d' \<and> (bd_poll d \<longrightarrow> \<not> bd_poll d')"
proof -
  let ?a = "if must_record d (is_Annotations is) then recorded_annotations d (is_Annotations is) else is_Annotations is"
  obtain sig fp marker where inp: "build_inputs env is snap = (sig, fp, marker)" by (metis prod_cases3)
  have is': "is' = is\<lparr>is_Annotations := ?a\<rparr>"
    using assms(1) run_build_set [OF assms(3)] by simp
  have inp': "build_inputs env is' snap = (sig, fp, marker)" unfolding is' using inp by simp
  note d = decide_fields [OF assms(2) inp] and d' = decide_fields [OF assms(4) inp']
  show ?thesis
  proof (cases "must_record d (is_Annotations is)")
    case True
    then have a: "is_Annotations is' = recorded_annotations d (is_Annotations is)" using is' by simp
    note d' = d' [unfolded a]
    have "\<not> bd_recollect d'" using d'(4,5) d(4,5) by (simp add: recorded_lookup)
    moreover have "\<not> bd_sigChanged d'" using d'(6) d(1) by (simp add: recorded_lookup)
    moreover have "\<not> bd_contentChanged d'" using d'(7) d(2) recorded_lookup(2) [of d "is_Annotations is"] by auto
    moreover have "bd_poll d \<longrightarrow> \<not> bd_poll d'" using d'(8) d(3) by (auto simp: recorded_lookup)
    ultimately show ?thesis by simp
  next
    case False
    then have a: "is_Annotations is' = is_Annotations is" using is' by simp
    have off: "\<not> needsRebuild d" "mget_str (is_Annotations is) catalogBuildSigAnnotation = sig"
      "fp \<noteq> [] \<longrightarrow> mget_str (is_Annotations is) catalogBuildDigestsAnnotation = fp"
      using False d(1,2) by (auto simp: must_record_def)
    have "\<not> bd_recollect d'" using d'(4,5) d(4,5) off(1) by (simp add: a needsRebuild_def)
    moreover have "\<not> bd_sigChanged d'" "\<not> bd_contentChanged d'" using d'(6,7) off(2,3) by (auto simp: a)
    moreover have "\<not> bd_poll d" using off(1) by (simp add: needsRebuild_def)
    ultimately show ?thesis by simp
  qed
qed

section \<open>A cluster in memory\<close>

record mem_cluster =
  mc_jobs :: "(string, catalog_job) gomap"
  mc_cms :: "(string, configmap) gomap"
  mc_sets :: "(string, ctl_image_set) gomap"
  mc_targets :: "worker_target list"
  mc_stuck :: bool

definition mem_jobs :: "mem_cluster job_api" where
  "mem_jobs = \<lparr>ja_get = (\<lambda>w n. case mget (mc_jobs w) n of None \<Rightarrow> Inl NotFound | Some j \<Rightarrow> Inr j),
     ja_create = (\<lambda>w j. (w\<lparr>mc_jobs := mput (cj_Name j) j (mc_jobs w)\<rparr>, None)),
     ja_delete = (\<lambda>w n. if mc_stuck w then (w, Some (APIError ''timeout'')) else (w\<lparr>mc_jobs := mdel n (mc_jobs w)\<rparr>, None))\<rparr>"

definition mem_ctl :: "mem_cluster ctl_api" where
  "mem_ctl = \<lparr>ct_jobs = mem_jobs,
     ct_kube = \<lparr>kget = (\<lambda>w. mem_get (mc_cms w)), kcreate = (\<lambda>w cm. (w\<lparr>mc_cms := fst (mem_write (mc_cms w) cm)\<rparr>, None)),
       kupdate = (\<lambda>w cm. (w\<lparr>mc_cms := fst (mem_write (mc_cms w) cm)\<rparr>, None)), kdelete = (\<lambda>w n. (w\<lparr>mc_cms := mdel n (mc_cms w)\<rparr>, None))\<rparr>,
     ct_is_get = (\<lambda>w n. case mget (mc_sets w) n of None \<Rightarrow> Inl NotFound | Some is \<Rightarrow> Inr is),
     ct_is_update = (\<lambda>w is. (w\<lparr>mc_sets := mput (is_Name is) is (mc_sets w)\<rparr>, None)),
     ct_status_update = (\<lambda>w is. (w\<lparr>mc_sets := mput (is_Name is) is (mc_sets w)\<rparr>, Written)),
     ct_mt_get = (\<lambda>w n. case find (\<lambda>mt. mt_Name mt = n) (mc_targets w) of None \<Rightarrow> Inl NotFound | Some mt \<Rightarrow> Inr mt),
     ct_mt_list = (\<lambda>w. Inr (mc_targets w))\<rparr>"

lemma mem_job_laws: "job_laws mem_ctl"
  by (auto simp: job_laws_def mem_ctl_def mem_jobs_def split: option.splits if_splits)

text \<open>The hash of an operator entry, which does not cover its target, and the identity in place of SHA-256.\<close>

definition tag_hash :: "json \<Rightarrow> string" where
  "tag_hash j = ''sig''"

definition ctl_sample :: ctl_env where
  "ctl_sample = \<lparr>ce_mgr = \<lparr>bm_operatorImage = ''img'', bm_marshal = (\<lambda>_. None), bm_sha256hex = (\<lambda>s. s)\<rparr>, ce_namespace = ''ns'', ce_jsonHash = tag_hash,
     ce_now = 7, ce_formatTime = (\<lambda>_. ''t''), ce_refNew = (\<lambda>s. Inr \<lparr>pl_Base = s, pl_Tag = [], pl_Digest = []\<rparr>),
     ce_commonName = (\<lambda>r. pl_Base r @ ''@'' @ pl_Digest r), ce_errorText = (\<lambda>_. [])\<rparr>"

definition tagged :: "string \<Rightarrow> operator" where
  "tagged t = (sample_operator [])\<lparr>op_TargetTag := t\<rparr>"

definition catalog_is :: "operator list \<Rightarrow> ctl_image_set" where
  "catalog_is ops = \<lparr>is_Name = ''a'', is_Annotations = [], is_Generation = 1, is_Mirror = sample_spec\<lparr>ms_Operators := ops\<rparr>, is_ObservedGeneration = 1,
     is_LastSuccessfulPollTime = Some 1, is_Conditions = []\<rparr>"

text \<open>The state the manager has written: one mirrored image per operator entry, with the digest it was resolved from.\<close>

definition mirrored_cms :: "operator list \<Rightarrow> (string, configmap) gomap" where
  "mirrored_cms ops = fst (SaveWithCatalogDigests (\<lambda>t. t) mem_kube [] ''a''
     (map (\<lambda>op. (''r/'' @ op_TargetTag op, Some (zero_entry\<lparr>Origin := OriginOperator, EntrySig := OperatorEntrySignature tag_hash op, State := stateMirrored\<rparr>))) ops)
     (map (\<lambda>op. (CatalogDigestAnnotationKey (OperatorEntrySignature tag_hash op), OperatorCacheValue ''sha256:1'')) ops) NoOwner)"

definition sample_cluster :: "operator list \<Rightarrow> mem_cluster" where
  "sample_cluster ops = \<lparr>mc_jobs = [], mc_cms = mirrored_cms ops, mc_sets = [(''a'', catalog_is ops)], mc_targets = [pod_target], mc_stuck = False\<rparr>"

theorem snapshot_complete_iff_witness:
  "\<exists>st digests. LoadWithCatalogDigests (ct_kube mem_ctl) (sample_cluster [tagged ''x'']) ''a'' = Inr (st, digests) \<and>
     (\<exists>e. Some e \<in> snd ` set st \<and> Origin e = OriginOperator)"
proof -
  have "sn_complete (loadMirrorSnapshot tag_hash (ct_kube mem_ctl) (sample_cluster [tagged ''x'']) (catalog_is [tagged ''x'']))" by code_simp
  then show ?thesis unfolding snapshot_complete_iff by (auto simp: catalog_is_def)
qed

theorem catalog_jobs_gated_witness:
  "\<exists>j pull. mc_jobs (fst (reconcileCatalogBuildJobs ctl_sample mem_ctl (catalog_is [tagged ''x'']) pod_target False (sample_cluster [tagged ''x'']))) = [(cj_Name j, j)] \<and>
     pinnedCatalogRef ctl_sample [(CatalogDigestAnnotationKey ''sig'', ''v5:sha256:1'')] (tagged ''x'') = Some pull \<and>
     mget (cj_Env j) ''SOURCE_CATALOG'' = Some (Value pull)"
proof -
  let ?r = "reconcileCatalogBuildJobs ctl_sample mem_ctl (catalog_is [tagged ''x'']) pod_target False (sample_cluster [tagged ''x''])"
  have "map (\<lambda>(n, j). n = cj_Name j) (mc_jobs (fst ?r)) = [True]" by code_simp
  then obtain j where j: "mc_jobs (fst ?r) = [(cj_Name j, j)]" by (auto simp: map_eq_Cons_conv)
  obtain w' is' e where r: "?r = (w', is', e)" by (metis prod_cases3)
  have snap: "sn_digests (loadMirrorSnapshot (ce_jsonHash ctl_sample) (ct_kube mem_ctl) (sample_cluster [tagged ''x'']) (catalog_is [tagged ''x''])) =
      [(CatalogDigestAnnotationKey ''sig'', ''v5:sha256:1'')]" by code_simp
  have before: "ja_get (ct_jobs mem_ctl) (sample_cluster [tagged ''x'']) (cj_Name j) = Inl NotFound" by (simp add: mem_ctl_def mem_jobs_def sample_cluster_def)
  have after: "ja_get (ct_jobs mem_ctl) w' (cj_Name j) = Inr j" using j r by (simp add: mem_ctl_def mem_jobs_def)
  have ops: "ms_Operators (is_Mirror (catalog_is [tagged ''x''])) = [tagged ''x'']" by (simp add: catalog_is_def)
  from catalog_jobs_gated [OF mem_job_laws r, of "cj_Name j"] before after obtain pull where
    "pinnedCatalogRef ctl_sample [(CatalogDigestAnnotationKey ''sig'', ''v5:sha256:1'')] (tagged ''x'') = Some pull"
    and "j = buildJobSpec (ce_mgr ctl_sample) (cj_Name j) (ce_namespace ctl_sample) (catalog_is [tagged ''x'']) pod_target pull
      (CatalogTargetImage (mt_Registry pod_target) (tagged ''x'')) (op_packages (tagged ''x''))"
    unfolding snap ops by auto
  moreover from this(2) have "mget (cj_Env j) ''SOURCE_CATALOG'' = Some (Value pull)" by (metis buildJobSpec_source)
  ultimately show ?thesis using j by blast
qed

theorem rebuild_triggers_fire_once_witness:
  "\<not> needsRebuild (decide_build ctl_sample (fst (snd (run_build ctl_sample mem_ctl (catalog_is [tagged ''x'']) pod_target
      \<lparr>sn_complete = True, sn_knowState = True, sn_pending = 0, sn_digests = []\<rparr> False
      (decide_build ctl_sample (catalog_is [tagged ''x'']) \<lparr>sn_complete = True, sn_knowState = True, sn_pending = 0, sn_digests = []\<rparr> False False True)
      [] (sample_cluster [tagged ''x'']))))
    \<lparr>sn_complete = True, sn_knowState = True, sn_pending = 0, sn_digests = []\<rparr> False False True)"
proof -
  let ?snap = "\<lparr>sn_complete = True, sn_knowState = True, sn_pending = 0, sn_digests = []\<rparr>"
  let ?is = "catalog_is [tagged ''x'']"
  let ?d = "decide_build ctl_sample ?is ?snap False False True"
  let ?r = "run_build ctl_sample mem_ctl ?is pod_target ?snap False ?d [] (sample_cluster [tagged ''x''])"
  obtain w' is' e where r: "?r = (w', is', e)" by (metis prod_cases3)
  have "bd_poll ?d" by code_simp
  then show ?thesis using rebuild_triggers_fire_once [OF _ refl r refl, of False False True] by (simp add: r needsRebuild_def)
qed

section \<open>Two runs that go wrong\<close>

definition finish_jobs :: "mem_cluster \<Rightarrow> mem_cluster" where
  "finish_jobs w = w\<lparr>mc_jobs := map (\<lambda>(n, j). (n, j\<lparr>cj_Succeeded := 1\<rparr>)) (mc_jobs w)\<rparr>"

definition pass :: "mem_cluster \<Rightarrow> mem_cluster" where
  "pass w = fst (Reconcile_imageset ctl_sample mem_ctl ''a'' w)"

definition catalog_ready :: "mem_cluster \<Rightarrow> string option" where
  "catalog_ready w = Option.bind (mget (mc_sets w) ''a'') (\<lambda>is. map_option cd_Reason (find (\<lambda>c. cd_Type c = conditionCatalogReady \<and> cd_Status c = ConditionTrue) (is_Conditions is)))"

definition annotate :: "string \<Rightarrow> string \<Rightarrow> mem_cluster \<Rightarrow> mem_cluster" where
  "annotate k v w = w\<lparr>mc_sets := map (\<lambda>(n, is). (n, is\<lparr>is_Annotations := mput k v (is_Annotations is)\<rparr>)) (mc_sets w)\<rparr>"

text \<open>A catalog that was built, its Job still there, when a recollect was honored and the API server does not answer a deletion.\<close>

definition stuck_cluster :: mem_cluster where
  "stuck_cluster = (annotate RecollectHonoredAnnotation ''r1'' (pass (finish_jobs (pass (sample_cluster [tagged ''x''])))))\<lparr>mc_stuck := True\<rparr>"

text \<open>
  A rebuild is lost when the old Job cannot be deleted: the pass records the recollect as handled, finds the succeeded Job of the previous build in place of
  the new one, and reports that the catalog was built. No Job was created.
\<close>

theorem failed_delete_loses_rebuild:
  "mc_jobs (pass stuck_cluster) = mc_jobs stuck_cluster \<and> catalog_ready (pass stuck_cluster) = Some ''CatalogBuildSucceeded'' \<and>
   map_option (\<lambda>is. mget_str (is_Annotations is) catalogRecollectSigAnnotation) (mget (mc_sets (pass stuck_cluster)) ''a'') = Some ''r1''"
  by (intro conjI; code_simp)

text \<open>
  Two operator entries with the same catalog and different targets get one Job, since its name does not depend on the target: only the first target is built,
  and the catalogs are reported as built.
\<close>

theorem shared_catalog_builds_one_target:
  "map (\<lambda>(n, j). mget (cj_Env j) ''TARGET_REF'') (mc_jobs (pass (finish_jobs (pass (sample_cluster [tagged ''x'', tagged ''y''])))) ) = [Some (Value ''reg.local/cat:x'')] \<and>
   catalog_ready (pass (finish_jobs (pass (sample_cluster [tagged ''x'', tagged ''y''])))) = Some ''CatalogBuildSucceeded''"
  by (intro conjI; code_simp)

end
