(* ===== verification/RegistryClient.thy ===== *)
theory RegistryClient
  imports ReleasePayload
begin

text \<open>
  The registry client (\<open>pkg/mirror/client/client.go\<close>) and the cache of clients (\<open>cache.go\<close>). The library \<open>regclient\<close> is the record \<open>reg_client\<close> of the
  calls the code makes, on a state of the registries and the network; \<open>mk\<close> builds one from its settings. A reference is a \<open>payload_ref\<close>: repository, tag
  and digest, and \<open>refNew\<close>, \<open>commonName\<close> are its parser and printer. Log lines are left out.
\<close>

section \<open>The library\<close>

datatype reg_error = RegNotFound string | RegError string

datatype client_error =
    Library reg_error
  | BadReference string string
  | CopyFailed string string reg_error
  | HeadFailed string reg_error
  | TagDeleteFailed string reg_error
  | ManifestDeleteFailed string reg_error
  | DownloadFailed string client_error
  | BothFailed client_error client_error

datatype copy_option = Platforms "string list" | BufferLargeBlobs

text \<open>A reader with its position; \<open>io.Seeker\<close> is \<open>rd_seekable\<close>. A put reports how much of the reader it has read.\<close>

record reader =
  rd_data :: string
  rd_pos :: nat
  rd_seekable :: bool

record ('w, 'm, 'd) reg_client =
  rg_image_copy :: "'w \<Rightarrow> copy_option list \<Rightarrow> payload_ref \<Rightarrow> payload_ref \<Rightarrow> 'w \<times> reg_error option"
  rg_head :: "'w \<Rightarrow> payload_ref \<Rightarrow> reg_error + string"
  rg_referrers :: "'w \<Rightarrow> payload_ref \<Rightarrow> reg_error + string list"
  rg_tag_delete :: "'w \<Rightarrow> payload_ref \<Rightarrow> 'w \<times> reg_error option"
  rg_manifest_delete :: "'w \<Rightarrow> payload_ref \<Rightarrow> 'w \<times> reg_error option"
  rg_blob_head :: "'w \<Rightarrow> payload_ref \<Rightarrow> 'd \<Rightarrow> bool"
  rg_manifest_get :: "'w \<Rightarrow> payload_ref \<Rightarrow> reg_error + 'm"
  rg_manifest_put :: "'w \<Rightarrow> payload_ref \<Rightarrow> 'm \<Rightarrow> 'w \<times> reg_error option"
  rg_blob_get :: "'w \<Rightarrow> payload_ref \<Rightarrow> 'd \<Rightarrow> reg_error + string"
  rg_blob_put :: "'w \<Rightarrow> payload_ref \<Rightarrow> 'd \<Rightarrow> string \<Rightarrow> 'w \<times> nat \<times> (reg_error + 'd)"
  rg_blob_copy :: "'w \<Rightarrow> payload_ref \<Rightarrow> payload_ref \<Rightarrow> 'd \<Rightarrow> 'w \<times> reg_error option"
  rg_image_config :: "'w \<Rightarrow> payload_ref \<Rightarrow> string \<Rightarrow> reg_error + string"

section \<open>Settings\<close>

datatype tls_conf = TLSUndefined | TLSDisabled | TLSInsecure

record host_config =
  hc_Name :: string
  hc_TLS :: tls_conf
  hc_BlobMax :: int
  hc_BlobChunk :: int

abbreviation largeBlobThreshold :: int where "largeBlobThreshold \<equiv> 100 * 1024 * 1024"
abbreviation streamChunkSize :: int where "streamChunkSize \<equiv> 16 * 1024 * 1024"

definition destHostConfig :: "string \<Rightarrow> tls_conf \<Rightarrow> bool \<Rightarrow> host_config" where
  "destHostConfig name tls monolithic =
     (let h = \<lparr>hc_Name = name, hc_TLS = tls, hc_BlobMax = largeBlobThreshold, hc_BlobChunk = streamChunkSize\<rparr>
      in if monolithic then h\<lparr>hc_BlobMax := -1, hc_BlobChunk := 0\<rparr> else h)"

definition set_hosts :: "tls_conf \<Rightarrow> bool \<Rightarrow> string list \<Rightarrow> (string, host_config) gomap \<Rightarrow> (string, host_config) gomap" where
  "set_hosts tls monolithic hosts m = fold (\<lambda>h m. if h = [] then m else mput h (destHostConfig h tls monolithic) m) hosts m"

text \<open>What a library client is built from: the credentials file (none: the default Docker configuration) and the hosts.\<close>

record reg_settings =
  rs_credsFile :: "string option"
  rs_hosts :: "host_config list"

definition newRegClient :: "(reg_settings \<Rightarrow> 'c) \<Rightarrow> string \<Rightarrow> (string, host_config) gomap \<Rightarrow> 'c" where
  "newRegClient mk authConfigPath hostMap =
     mk \<lparr>rs_credsFile = (if authConfigPath \<noteq> [] then Some (authConfigPath @ ''/config.json'') else None), rs_hosts = map snd hostMap\<rparr>"

text \<open>The sibling client of \<open>CopyImageBuffered\<close> is a pair of library clients; a client that was not built by \<open>NewMirrorClient\<close> has none.\<close>

record 'c mirror_client =
  mc_rc :: 'c
  mc_rcFallback :: "'c option"
  mc_newBuffered :: "('c \<times> 'c option) option"

definition client_pair :: "(reg_settings \<Rightarrow> 'c) \<Rightarrow> string list \<Rightarrow> string \<Rightarrow> string list \<Rightarrow> bool \<Rightarrow> 'c \<times> 'c option" where
  "client_pair mk insecureHosts authConfigPath destHosts monolithic =
     (let hostMap = set_hosts TLSDisabled monolithic insecureHosts (set_hosts TLSUndefined monolithic destHosts [])
      in (newRegClient mk authConfigPath hostMap,
          if length insecureHosts > 0 then
            Some (newRegClient mk authConfigPath (set_hosts TLSInsecure monolithic insecureHosts hostMap))
          else None))"

definition newMirrorClient :: "(reg_settings \<Rightarrow> 'c) \<Rightarrow> string list \<Rightarrow> string \<Rightarrow> string list \<Rightarrow> bool \<Rightarrow> 'c mirror_client" where
  "newMirrorClient mk insecureHosts authConfigPath destHosts monolithic =
     (case client_pair mk insecureHosts authConfigPath destHosts monolithic of
        (rc, fb) \<Rightarrow> \<lparr>mc_rc = rc, mc_rcFallback = fb, mc_newBuffered = None\<rparr>)"

definition NewMirrorClient_reg :: "(reg_settings \<Rightarrow> 'c) \<Rightarrow> string list \<Rightarrow> string \<Rightarrow> string list \<Rightarrow> 'c mirror_client" where
  "NewMirrorClient_reg mk insecureHosts authConfigPath destHosts =
     (newMirrorClient mk insecureHosts authConfigPath destHosts False)
       \<lparr>mc_newBuffered := Some (client_pair mk insecureHosts authConfigPath destHosts True)\<rparr>"

definition bufferedClient :: "'c mirror_client \<Rightarrow> 'c mirror_client" where
  "bufferedClient c =
     (case mc_newBuffered c of
        Some (rc, fb) \<Rightarrow> \<lparr>mc_rc = rc, mc_rcFallback = fb, mc_newBuffered = None\<rparr>
      | None \<Rightarrow> c)"

section \<open>Fallback\<close>

definition fallbackError :: "client_error \<Rightarrow> client_error \<Rightarrow> client_error" where
  "fallbackError primary fallback = BothFailed primary fallback"

text \<open>
  \<open>withFallback\<close>: \<open>ctxDone\<close> is \<open>ctx.Err() != nil\<close>, asked after the primary call; \<open>call\<close> is told whether its client is the primary one.
\<close>

definition withFallback ::
  "('w \<Rightarrow> bool) \<Rightarrow> 'c mirror_client \<Rightarrow> (bool \<Rightarrow> 'c \<Rightarrow> 'w \<Rightarrow> 'w \<times> (client_error + 'a)) \<Rightarrow> 'w \<Rightarrow> 'w \<times> (client_error + 'a)" where
  "withFallback ctxDone c call w =
     (case call True (mc_rc c) w of
        (w1, Inr v) \<Rightarrow> (w1, Inr v)
      | (w1, Inl err) \<Rightarrow>
          (case mc_rcFallback c of
             None \<Rightarrow> (w1, Inl err)
           | Some fb \<Rightarrow>
               if ctxDone w1 then (w1, Inl err)
               else (case call False fb w1 of
                       (w2, Inr v) \<Rightarrow> (w2, Inr v)
                     | (w2, Inl ferr) \<Rightarrow> (w2, Inl (fallbackError err ferr)))))"

definition lift_option :: "'w \<times> reg_error option \<Rightarrow> 'w \<times> (client_error + unit)" where
  "lift_option r = (case r of (w, None) \<Rightarrow> (w, Inr ()) | (w, Some e) \<Rightarrow> (w, Inl (Library e)))"

definition lift_sum :: "'w \<Rightarrow> reg_error + 'a \<Rightarrow> 'w \<times> (client_error + 'a)" where
  "lift_sum w r = (w, case r of Inl e \<Rightarrow> Inl (Library e) | Inr v \<Rightarrow> Inr v)"

section \<open>Operations\<close>

record 'w client_env =
  cl_refNew :: "string \<Rightarrow> string + payload_ref"
  cl_commonName :: "payload_ref \<Rightarrow> string"
  cl_ctxDone :: "'w \<Rightarrow> bool"

definition set_digest :: "payload_ref \<Rightarrow> string \<Rightarrow> payload_ref" where
  "set_digest r d = r\<lparr>pl_Digest := d, pl_Tag := []\<rparr>"

definition DownloadToOCILayout ::
  "'w client_env \<Rightarrow> ('w, 'm, 'd) reg_client mirror_client \<Rightarrow> string \<Rightarrow> string \<Rightarrow> string list \<Rightarrow> 'w \<Rightarrow> 'w \<times> client_error option" where
  "DownloadToOCILayout env c src ociDir platforms w =
     (case cl_refNew env src of
        Inl e \<Rightarrow> (w, Some (BadReference src e))
      | Inr srcRef \<Rightarrow>
          (case cl_refNew env (''ocidir://'' @ ociDir @ '':source'') of
             Inl e \<Rightarrow> (w, Some (BadReference ociDir e))
           | Inr dstRef \<Rightarrow>
               (let opts = (if length platforms > 0 then [Platforms platforms] else [])
                in case withFallback (cl_ctxDone env) c (\<lambda>_ rc w. lift_option (rg_image_copy rc w opts srcRef dstRef)) w of
                     (w', Inl e) \<Rightarrow> (w', Some (DownloadFailed src e))
                   | (w', Inr _) \<Rightarrow> (w', None))))"

definition copy_referrers_loop ::
  "('w, 'm, 'd) reg_client \<Rightarrow> payload_ref \<Rightarrow> payload_ref \<Rightarrow> string list \<Rightarrow> 'w \<Rightarrow> 'w" where
  "copy_referrers_loop rc srcRef destRef ds w =
     fold (\<lambda>d w. fst (rg_image_copy rc w [] (set_digest srcRef d) (set_digest destRef d))) ds w"

definition copyReferrersBestEffort :: "('w, 'm, 'd) reg_client \<Rightarrow> payload_ref \<Rightarrow> payload_ref \<Rightarrow> 'w \<Rightarrow> 'w" where
  "copyReferrersBestEffort rc srcRef destRef w =
     (let srcDigest = (if pl_Digest srcRef = [] then (case rg_head rc w srcRef of Inr d \<Rightarrow> d | Inl _ \<Rightarrow> []) else pl_Digest srcRef)
      in if srcDigest = [] then w
         else (case rg_referrers rc w (set_digest srcRef srcDigest) of
                 Inl _ \<Rightarrow> w
               | Inr ds \<Rightarrow> copy_referrers_loop rc srcRef destRef ds w))"

definition signature_tag :: "string \<Rightarrow> string" where
  "signature_tag digest = ''sha256-'' @ trimPrefix digest ''sha256:'' @ ''.sig''"

definition copy_signature :: "('w, 'm, 'd) reg_client \<Rightarrow> payload_ref \<Rightarrow> payload_ref \<Rightarrow> 'w \<Rightarrow> 'w" where
  "copy_signature rc srcRef destRef w =
     (if pl_Digest srcRef = [] then w
      else (let sigTag = signature_tag (pl_Digest srcRef)
            in fst (rg_image_copy rc w [] (srcRef\<lparr>pl_Tag := sigTag, pl_Digest := []\<rparr>) (destRef\<lparr>pl_Tag := sigTag, pl_Digest := []\<rparr>))))"

text \<open>\<open>strings.Replace(s, ":", "-", 1)\<close>.\<close>

fun dash_first_colon :: "string \<Rightarrow> string" where
  "dash_first_colon [] = []"
| "dash_first_colon (c # cs) = (if c = CHR '':'' then CHR ''-'' # cs else c # dash_first_colon cs)"

definition effective_dest :: "payload_ref \<Rightarrow> payload_ref \<Rightarrow> payload_ref" where
  "effective_dest srcRef destRef =
     (if pl_Digest srcRef \<noteq> [] \<and> pl_Tag srcRef = [] \<and> pl_Tag destRef = []
      then destRef\<lparr>pl_Tag := dash_first_colon (pl_Digest srcRef)\<rparr> else destRef)"

definition copyImageWith ::
  "'w client_env \<Rightarrow> ('w, 'm, 'd) reg_client \<Rightarrow> string \<Rightarrow> string \<Rightarrow> copy_option list \<Rightarrow> 'w \<Rightarrow> 'w \<times> (client_error + string)" where
  "copyImageWith env rc src dest opts w =
     (case cl_refNew env src of
        Inl e \<Rightarrow> (w, Inl (BadReference src e))
      | Inr srcRef \<Rightarrow>
          (case cl_refNew env dest of
             Inl e \<Rightarrow> (w, Inl (BadReference dest e))
           | Inr destRef0 \<Rightarrow>
               (let destRef = effective_dest srcRef destRef0
                in case rg_image_copy rc w opts srcRef destRef of
                     (w1, Some e) \<Rightarrow> (w1, Inl (CopyFailed src dest e))
                   | (w1, None) \<Rightarrow>
                       (copy_signature rc srcRef destRef (copyReferrersBestEffort rc srcRef destRef w1), Inr (cl_commonName env destRef)))))"

definition copyImage ::
  "'w client_env \<Rightarrow> ('w, 'm, 'd) reg_client mirror_client \<Rightarrow> string \<Rightarrow> string \<Rightarrow> copy_option list \<Rightarrow> 'w \<Rightarrow> 'w \<times> (client_error + string)" where
  "copyImage env c src dest opts w = withFallback (cl_ctxDone env) c (\<lambda>_ rc w. copyImageWith env rc src dest opts w) w"

definition CopyImage_reg ::
  "'w client_env \<Rightarrow> ('w, 'm, 'd) reg_client mirror_client \<Rightarrow> string \<Rightarrow> string \<Rightarrow> 'w \<Rightarrow> 'w \<times> (client_error + string)" where
  "CopyImage_reg env c src dest w = copyImage env c src dest [] w"

definition CopyImageBuffered ::
  "'w client_env \<Rightarrow> ('w, 'm, 'd) reg_client mirror_client \<Rightarrow> string \<Rightarrow> string \<Rightarrow> 'w \<Rightarrow> 'w \<times> (client_error + string)" where
  "CopyImageBuffered env c src dest w = copyImage env (bufferedClient c) src dest [BufferLargeBlobs] w"

definition checkExistWith ::
  "'w client_env \<Rightarrow> ('w, 'm, 'd) reg_client \<Rightarrow> string \<Rightarrow> 'w \<Rightarrow> 'w \<times> (client_error + bool)" where
  "checkExistWith env rc img w =
     (w, case cl_refNew env img of
           Inl e \<Rightarrow> Inl (BadReference img e)
         | Inr r \<Rightarrow> (case rg_head rc w r of
                      Inr _ \<Rightarrow> Inr True
                    | Inl (RegNotFound _) \<Rightarrow> Inr False
                    | Inl e \<Rightarrow> Inl (HeadFailed img e)))"

definition CheckExist_reg ::
  "'w client_env \<Rightarrow> ('w, 'm, 'd) reg_client mirror_client \<Rightarrow> string \<Rightarrow> 'w \<Rightarrow> 'w \<times> (client_error + bool)" where
  "CheckExist_reg env c img w = withFallback (cl_ctxDone env) c (\<lambda>_ rc w. checkExistWith env rc img w) w"

definition getDigestWith ::
  "'w client_env \<Rightarrow> ('w, 'm, 'd) reg_client \<Rightarrow> string \<Rightarrow> 'w \<Rightarrow> 'w \<times> (client_error + string)" where
  "getDigestWith env rc img w =
     (case cl_refNew env img of
        Inl e \<Rightarrow> (w, Inl (BadReference img e))
      | Inr r \<Rightarrow> lift_sum w (rg_head rc w r))"

definition GetDigest_reg ::
  "'w client_env \<Rightarrow> ('w, 'm, 'd) reg_client mirror_client \<Rightarrow> string \<Rightarrow> 'w \<Rightarrow> 'w \<times> (client_error + string)" where
  "GetDigest_reg env c img w = withFallback (cl_ctxDone env) c (\<lambda>_ rc w. getDigestWith env rc img w) w"

definition BlobExists :: "('w, 'm, 'd) reg_client mirror_client \<Rightarrow> payload_ref \<Rightarrow> 'd \<Rightarrow> 'w \<Rightarrow> bool" where
  "BlobExists c r d w =
     (if rg_blob_head (mc_rc c) w r d then True
      else (case mc_rcFallback c of Some fb \<Rightarrow> rg_blob_head fb w r d | None \<Rightarrow> False))"

definition ManifestHead ::
  "'w client_env \<Rightarrow> ('w, 'm, 'd) reg_client mirror_client \<Rightarrow> payload_ref \<Rightarrow> 'w \<Rightarrow> 'w \<times> (client_error + string)" where
  "ManifestHead env c r w = withFallback (cl_ctxDone env) c (\<lambda>_ rc w. lift_sum w (rg_head rc w r)) w"

definition ManifestGet ::
  "'w client_env \<Rightarrow> ('w, 'm, 'd) reg_client mirror_client \<Rightarrow> payload_ref \<Rightarrow> 'w \<Rightarrow> 'w \<times> (client_error + 'm)" where
  "ManifestGet env c r w = withFallback (cl_ctxDone env) c (\<lambda>_ rc w. lift_sum w (rg_manifest_get rc w r)) w"

definition ManifestPut ::
  "'w client_env \<Rightarrow> ('w, 'm, 'd) reg_client mirror_client \<Rightarrow> payload_ref \<Rightarrow> 'm \<Rightarrow> 'w \<Rightarrow> 'w \<times> (client_error + unit)" where
  "ManifestPut env c r m w = withFallback (cl_ctxDone env) c (\<lambda>_ rc w. lift_option (rg_manifest_put rc w r m)) w"

definition BlobGet ::
  "'w client_env \<Rightarrow> ('w, 'm, 'd) reg_client mirror_client \<Rightarrow> payload_ref \<Rightarrow> 'd \<Rightarrow> 'w \<Rightarrow> 'w \<times> (client_error + string)" where
  "BlobGet env c r d w = withFallback (cl_ctxDone env) c (\<lambda>_ rc w. lift_sum w (rg_blob_get rc w r d)) w"

text \<open>The reader is state of the call: the world is paired with it.\<close>

definition put_with ::
  "('w, 'm, 'd) reg_client \<Rightarrow> payload_ref \<Rightarrow> 'd \<Rightarrow> bool \<Rightarrow> 'w \<times> reader \<Rightarrow> ('w \<times> reader) \<times> (client_error + 'd)" where
  "put_with rc r d primary wr =
     (case wr of (w, rdr) \<Rightarrow>
        (let rdr1 = (if \<not> primary \<and> rd_seekable rdr then rdr\<lparr>rd_pos := 0\<rparr> else rdr)
         in case rg_blob_put rc w r d (drop (rd_pos rdr1) (rd_data rdr1)) of
              (w', n, res) \<Rightarrow> ((w', rdr1\<lparr>rd_pos := rd_pos rdr1 + n\<rparr>), case res of Inl e \<Rightarrow> Inl (Library e) | Inr d' \<Rightarrow> Inr d')))"

definition BlobPut ::
  "'w client_env \<Rightarrow> ('w, 'm, 'd) reg_client mirror_client \<Rightarrow> payload_ref \<Rightarrow> 'd \<Rightarrow> reader \<Rightarrow> 'w \<Rightarrow> 'w \<times> (client_error + 'd)" where
  "BlobPut env c r d rdr w =
     (case withFallback (\<lambda>(w, _). cl_ctxDone env w) c (\<lambda>primary rc. put_with rc r d primary) (w, rdr) of
        ((w', _), res) \<Rightarrow> (w', res))"

definition BlobCopy ::
  "'w client_env \<Rightarrow> ('w, 'm, 'd) reg_client mirror_client \<Rightarrow> payload_ref \<Rightarrow> payload_ref \<Rightarrow> 'd \<Rightarrow> 'w \<Rightarrow> 'w \<times> (client_error + unit)" where
  "BlobCopy env c src dst d w = withFallback (cl_ctxDone env) c (\<lambda>_ rc w. lift_option (rg_blob_copy rc w src dst d)) w"

definition ImageConfig ::
  "'w client_env \<Rightarrow> ('w, 'm, 'd) reg_client mirror_client \<Rightarrow> payload_ref \<Rightarrow> 'w \<Rightarrow> 'w \<times> (client_error + string)" where
  "ImageConfig env c r w = withFallback (cl_ctxDone env) c (\<lambda>_ rc w. lift_sum w (rg_image_config rc w r ''linux/amd64'')) w"

definition deleteManifestWith ::
  "'w client_env \<Rightarrow> ('w, 'm, 'd) reg_client \<Rightarrow> string \<Rightarrow> 'w \<Rightarrow> 'w \<times> (client_error + unit)" where
  "deleteManifestWith env rc img w =
     (case cl_refNew env img of
        Inl e \<Rightarrow> (w, Inl (BadReference img e))
      | Inr r \<Rightarrow>
          if pl_Digest r = [] then
            (case rg_tag_delete rc w r of
               (w', None) \<Rightarrow> (w', Inr ())
             | (w', Some (RegNotFound _)) \<Rightarrow> (w', Inr ())
             | (w', Some e) \<Rightarrow> (w', Inl (TagDeleteFailed img e)))
          else
            (case rg_manifest_delete rc w r of
               (w', None) \<Rightarrow> (w', Inr ())
             | (w', Some (RegNotFound _)) \<Rightarrow> (w', Inr ())
             | (w', Some e) \<Rightarrow> (w', Inl (ManifestDeleteFailed img e))))"

definition DeleteManifest ::
  "'w client_env \<Rightarrow> ('w, 'm, 'd) reg_client mirror_client \<Rightarrow> string \<Rightarrow> 'w \<Rightarrow> 'w \<times> (client_error + unit)" where
  "DeleteManifest env c img w = withFallback (cl_ctxDone env) c (\<lambda>_ rc w. deleteManifestWith env rc img w) w"

section \<open>Buffering large blobs\<close>

record 'f file_ops =
  fo_create :: "'f \<Rightarrow> 'f \<times> (string + string)"
  fo_copy :: "'f \<Rightarrow> string \<Rightarrow> string \<Rightarrow> 'f \<times> (string + int)"
  fo_seek :: "'f \<Rightarrow> string \<Rightarrow> 'f \<times> string option"
  fo_remove :: "'f \<Rightarrow> string \<Rightarrow> 'f"

datatype buffer_error = CreateTempFailed string | BufferFailed string | SeekFailed string

datatype blob_reader = SourceReader | TempFileReader string

text \<open>\<open>bufferLargeBlobs\<close>: the reader handed on and the size of its descriptor; \<open>content\<close> is what the source reader delivers.\<close>

definition bufferLargeBlobs :: "'f file_ops \<Rightarrow> int \<Rightarrow> string \<Rightarrow> 'f \<Rightarrow> 'f \<times> (buffer_error + blob_reader \<times> int)" where
  "bufferLargeBlobs fo dsize content f =
     (if dsize > 0 \<and> dsize \<le> largeBlobThreshold then (f, Inr (SourceReader, dsize))
      else (case fo_create fo f of
              (f1, Inl e) \<Rightarrow> (f1, Inl (CreateTempFailed e))
            | (f1, Inr name) \<Rightarrow>
                (case fo_copy fo f1 name content of
                   (f2, Inl e) \<Rightarrow> (fo_remove fo f2 name, Inl (BufferFailed e))
                 | (f2, Inr n) \<Rightarrow>
                     (case fo_seek fo f2 name of
                        (f3, Some e) \<Rightarrow> (fo_remove fo f3 name, Inl (SeekFailed e))
                      | (f3, None) \<Rightarrow> (f3, Inr (TempFileReader name, if dsize \<le> 0 then n else dsize))))))"

section \<open>The cache of clients\<close>

record 'c client_cache =
  cc_cache :: "(string, 'c mirror_client) gomap"
  cc_lastRefresh :: "(string, int) gomap"
  cc_refreshAfter :: int

definition NewClientCacheWithInterval :: "int \<Rightarrow> 'c client_cache" where
  "NewClientCacheWithInterval refreshAfter = \<lparr>cc_cache = [], cc_lastRefresh = [], cc_refreshAfter = refreshAfter\<rparr>"

definition NewClientCache :: "'c client_cache" where
  "NewClientCache = NewClientCacheWithInterval (5 * 60 * 1000000000)"

definition cacheKey :: "string list \<Rightarrow> string \<Rightarrow> string" where
  "cacheKey insecureHosts authConfigPath = authConfigPath @ [CHR 0x00] @ str_join '','' (sort insecureHosts)"

definition RefreshClient :: "(reg_settings \<Rightarrow> 'c) \<Rightarrow> int \<Rightarrow> string list \<Rightarrow> string \<Rightarrow> 'c client_cache \<Rightarrow> 'c client_cache \<times> 'c mirror_client" where
  "RefreshClient mk now insecureHosts authConfigPath cc =
     (let key = cacheKey insecureHosts authConfigPath;
          client = NewMirrorClient_reg mk insecureHosts authConfigPath []
      in (cc\<lparr>cc_cache := mput key client (cc_cache cc), cc_lastRefresh := mput key now (cc_lastRefresh cc)\<rparr>, client))"

definition GetOrCreate :: "(reg_settings \<Rightarrow> 'c) \<Rightarrow> int \<Rightarrow> string list \<Rightarrow> string \<Rightarrow> 'c client_cache \<Rightarrow> 'c client_cache \<times> 'c mirror_client" where
  "GetOrCreate mk now insecureHosts authConfigPath cc =
     (let key = cacheKey insecureHosts authConfigPath
      in case (mget (cc_cache cc) key, mget (cc_lastRefresh cc) key) of
           (Some existing, Some t) \<Rightarrow>
             if now - t < cc_refreshAfter cc then (cc, existing) else RefreshClient mk now insecureHosts authConfigPath cc
         | _ \<Rightarrow> RefreshClient mk now insecureHosts authConfigPath cc)"

section \<open>TLS\<close>

definition host_tls :: "reg_settings \<Rightarrow> string \<Rightarrow> tls_conf option" where
  "host_tls s h = map_option hc_TLS (find (\<lambda>c. hc_Name c = h) (rs_hosts s))"

definition keyed_by_name :: "(string, host_config) gomap \<Rightarrow> bool" where
  "keyed_by_name m \<longleftrightarrow> (\<forall>(k, c) \<in> set m. hc_Name c = k)"

lemma destHostConfig_fields [simp]: "hc_Name (destHostConfig h tls ml) = h" "hc_TLS (destHostConfig h tls ml) = tls"
  by (simp_all add: destHostConfig_def Let_def)

lemma set_hosts_lookup:
  "mget (set_hosts tls ml hosts m) h = (if h \<noteq> [] \<and> h \<in> set hosts then Some (destHostConfig h tls ml) else mget m h)"
  unfolding set_hosts_def by (induction hosts arbitrary: m) auto

lemma keyed_mput: "keyed_by_name m \<Longrightarrow> hc_Name c = k \<Longrightarrow> keyed_by_name (mput k c m)"
  by (induction m) (auto simp: keyed_by_name_def)

lemma keyed_set_hosts: "keyed_by_name m \<Longrightarrow> keyed_by_name (set_hosts tls ml hosts m)"
  unfolding set_hosts_def by (induction hosts arbitrary: m) (auto simp: keyed_mput)

lemma find_by_name: "keyed_by_name m \<Longrightarrow> find (\<lambda>c. hc_Name c = h) (map snd m) = mget m h"
  by (induction m) (auto simp: keyed_by_name_def)

lemma host_tls_new:
  "keyed_by_name m \<Longrightarrow> host_tls (newRegClient (\<lambda>s. s) auth m) h = map_option hc_TLS (mget m h)"
  by (simp add: host_tls_def newRegClient_def find_by_name)

definition pair_tls :: "string list \<Rightarrow> string list \<Rightarrow> tls_conf \<Rightarrow> string \<Rightarrow> tls_conf option" where
  "pair_tls ins dests off h =
     (if h = [] then None else if h \<in> set ins then Some off else if h \<in> set dests then Some TLSUndefined else None)"

lemma client_pair_tls:
  "host_tls (fst (client_pair (\<lambda>s. s) ins auth dests ml)) h = pair_tls ins dests TLSDisabled h \<and>
   (case snd (client_pair (\<lambda>s. s) ins auth dests ml) of
      None \<Rightarrow> ins = []
    | Some fb \<Rightarrow> ins \<noteq> [] \<and> host_tls fb h = pair_tls ins dests TLSInsecure h)"
proof -
  have "keyed_by_name []" by (simp add: keyed_by_name_def)
  then show ?thesis
    by (simp add: client_pair_def Let_def host_tls_new keyed_set_hosts set_hosts_lookup pair_tls_def)
qed

text \<open>
  Property C20. TLS is given up for exactly the hosts named as insecure: the client that is tried first speaks plain HTTP to them, the fallback, which exists
  exactly when a host is named, HTTPS without verification, every other destination keeps the default, and any other registry (the sources) is not
  configured at all. The same holds of the client of buffered copies.
\<close>

theorem tls_off_only_for_insecure_hosts:
  "let c = NewMirrorClient_reg (\<lambda>s. s) ins auth dests in
     host_tls (mc_rc c) h = pair_tls ins dests TLSDisabled h \<and>
     host_tls (mc_rc (bufferedClient c)) h = pair_tls ins dests TLSDisabled h \<and>
     map_option (\<lambda>fb. host_tls fb h) (mc_rcFallback c) = (if ins = [] then None else Some (pair_tls ins dests TLSInsecure h)) \<and>
     map_option (\<lambda>fb. host_tls fb h) (mc_rcFallback (bufferedClient c)) = (if ins = [] then None else Some (pair_tls ins dests TLSInsecure h))"
  using client_pair_tls [of ins auth dests False h] client_pair_tls [of ins auth dests True h]
  by (auto simp: Let_def NewMirrorClient_reg_def newMirrorClient_def bufferedClient_def split: prod.splits option.splits)

section \<open>The cache hands out clients of the right kind\<close>

definition plain_hosts :: "string list \<Rightarrow> bool" where
  "plain_hosts hs \<longleftrightarrow> (\<forall>h \<in> set hs. h \<noteq> [] \<and> CHR '','' \<notin> set h)"

definition plain_call :: "string list \<Rightarrow> string \<Rightarrow> bool" where
  "plain_call ins auth \<longleftrightarrow> plain_hosts ins \<and> CHR 0x00 \<notin> set auth"

definition cache_inv :: "(reg_settings \<Rightarrow> 'c) \<Rightarrow> 'c client_cache \<Rightarrow> bool" where
  "cache_inv mk cc \<longleftrightarrow> (\<forall>key c. mget (cc_cache cc) key = Some c \<longrightarrow>
     (\<exists>ins auth. key = cacheKey ins auth \<and> c = NewMirrorClient_reg mk ins auth [] \<and> plain_call ins auth))"

lemma cache_inv_refresh: "cache_inv mk cc \<Longrightarrow> plain_call ins auth \<Longrightarrow> cache_inv mk (fst (RefreshClient mk now ins auth cc))"
  by (auto simp: cache_inv_def RefreshClient_def Let_def)

lemma cache_inv_get: "cache_inv mk cc \<Longrightarrow> plain_call ins auth \<Longrightarrow> cache_inv mk (fst (GetOrCreate mk now ins auth cc))"
  by (auto simp: GetOrCreate_def Let_def cache_inv_refresh split: option.splits)

text \<open>The calls a cache has seen, with the time of each.\<close>

datatype cache_call = Get int "string list" string | Refresh int "string list" string

fun cache_step :: "(reg_settings \<Rightarrow> 'c) \<Rightarrow> cache_call \<Rightarrow> 'c client_cache \<Rightarrow> 'c client_cache" where
  "cache_step mk (Get now ins auth) cc = fst (GetOrCreate mk now ins auth cc)"
| "cache_step mk (Refresh now ins auth) cc = fst (RefreshClient mk now ins auth cc)"

fun plain_step :: "cache_call \<Rightarrow> bool" where
  "plain_step (Get _ ins auth) = plain_call ins auth"
| "plain_step (Refresh _ ins auth) = plain_call ins auth"

lemma cache_inv_calls:
  "list_all plain_step calls \<Longrightarrow> cache_inv mk cc \<Longrightarrow> cache_inv mk (fold (cache_step mk) calls cc)"
proof (induction calls arbitrary: cc)
  case (Cons call calls)
  then show ?case by (cases call) (auto simp: cache_inv_refresh cache_inv_get)
qed simp

lemma split_at_nul:
  assumes "a @ [z] @ s = b @ [z] @ t" and "z \<notin> set a" and "z \<notin> set b"
  shows "a = b \<and> s = t"
  using assms by (induction a arbitrary: b) (case_tac b; auto)+

lemma join_sorted_hosts:
  assumes "str_join '','' (sort hs) = str_join '','' (sort hs')" and "plain_hosts hs" and "plain_hosts hs'"
  shows "sort hs = sort hs'"
proof -
  have split: "split_char CHR '','' (str_join '','' (sort xs)) = sort xs" if "plain_hosts xs" "xs \<noteq> []" for xs
    using that by (intro split_join) (auto simp: plain_hosts_def)
  have ne: "str_join '','' (sort xs) \<noteq> []" if "plain_hosts xs" "xs \<noteq> []" for xs
  proof (cases "sort xs")
    case Nil
    with that(2) show ?thesis by (metis set_empty set_sort)
  next
    case (Cons y ys)
    moreover have "y \<noteq> []" using that(1) Cons by (metis list.set_intros(1) plain_hosts_def set_sort)
    ultimately show ?thesis by (cases ys) auto
  qed
  show ?thesis
  proof (cases "hs = [] \<or> hs' = []")
    case True
    moreover have "str_join '','' (sort ([] :: string list)) = []" by simp
    ultimately have "hs = []" "hs' = []" using ne [OF assms(2)] ne [OF assms(3)] assms(1) by metis+
    then show ?thesis by simp
  next
    case False
    then have "split_char CHR '','' (str_join '','' (sort hs)) = sort hs" and "split_char CHR '','' (str_join '','' (sort hs')) = sort hs'"
      using split assms(2,3) by blast+
    then show ?thesis using assms(1) by argo
  qed
qed

lemma cached_client:
  assumes "cache_inv mk cc" and "plain_call ins auth"
  shows "\<exists>ins'. snd (GetOrCreate mk now ins auth cc) = NewMirrorClient_reg mk ins' auth [] \<and> sort ins' = sort ins"
proof (cases "mget (cc_cache cc) (cacheKey ins auth) = Some (snd (GetOrCreate mk now ins auth cc))")
  case True
  with assms(1) obtain hs a where k: "cacheKey ins auth = cacheKey hs a" "snd (GetOrCreate mk now ins auth cc) = NewMirrorClient_reg mk hs a []" "plain_call hs a"
    unfolding cache_inv_def by blast
  from k(1) have "auth @ [CHR 0x00] @ str_join '','' (sort ins) = a @ [CHR 0x00] @ str_join '','' (sort hs)"
    by (simp add: cacheKey_def)
  from split_at_nul [OF this] k(3) assms(2) have "auth = a" and j: "str_join '','' (sort ins) = str_join '','' (sort hs)"
    by (auto simp: plain_call_def)
  moreover have "sort ins = sort hs" using join_sorted_hosts [OF j] k(3) assms(2) by (simp add: plain_call_def)
  ultimately show ?thesis using k(2) by metis
next
  case False
  then show ?thesis
    by (auto simp: GetOrCreate_def RefreshClient_def Let_def split: option.splits if_splits)
qed

text \<open>
  Property C39. The cache of clients never hands out a client built for other credentials or for another set of insecure hosts: after any sequence of calls,
  what \<open>GetOrCreate\<close> returns was built by \<open>NewMirrorClient\<close> from the same credentials and the same hosts up to their order. (In all calls hosts are not
  empty and hold no comma, and paths hold no NUL.)
\<close>

theorem cache_returns_matching_client:
  assumes "list_all plain_step calls" and "plain_call ins auth"
  shows "\<exists>ins'. snd (GetOrCreate mk now ins auth (fold (cache_step mk) calls NewClientCache)) = NewMirrorClient_reg mk ins' auth [] \<and> sort ins' = sort ins"
proof (rule cached_client [OF cache_inv_calls [OF assms(1)] assms(2)])
  show "cache_inv mk NewClientCache" by (simp add: cache_inv_def NewClientCache_def NewClientCacheWithInterval_def)
qed

theorem cache_returns_matching_client_witness:
  "\<exists>ins'. snd (GetOrCreate (\<lambda>s. s) 7 [''b'', ''a''] ''/auth'' (fold (cache_step (\<lambda>s. s)) [Refresh 5 [''a'', ''b''] ''/auth''] NewClientCache)) =
     NewMirrorClient_reg (\<lambda>s. s) ins' ''/auth'' [] \<and> sort ins' = [''a'', ''b'']"
proof -
  have "list_all plain_step [Refresh 5 [''a'', ''b''] ''/auth'']" and "plain_call [''b'', ''a''] ''/auth''"
    by (simp_all add: plain_call_def plain_hosts_def)
  moreover have "sort [''b'', ''a''] = [''a'', ''b'']" by code_simp
  ultimately show ?thesis using cache_returns_matching_client [of "[Refresh 5 [''a'', ''b''] ''/auth'']" "[''b'', ''a'']" "''/auth''" "\<lambda>s. s" 7] by simp
qed

section \<open>What a registry promises\<close>

text \<open>
  What the code relies on, in the terms of a view \<open>at\<close>: the digest a reference resolves to. A successful copy makes the destination resolve to the digest of the
  source, and a copy leaves every other reference that resolves as it is, except that in the repository it writes to it may move tags of the form \<open>sha256-\<close>\dots{}: a
  registry without the referrers API keeps the referrers of an image under such a tag, and pushing a referrer rewrites it. A tag delete affects no other reference; a
  manifest delete affects references to that manifest in that repository only.
\<close>

definition fallback_tag :: "string \<Rightarrow> bool" where
  "fallback_tag t \<longleftrightarrow> hasPrefix t ''sha256-''"

definition other_ref :: "payload_ref \<Rightarrow> payload_ref \<Rightarrow> bool" where
  "other_ref r d \<longleftrightarrow> pl_Base r \<noteq> pl_Base d \<or> pl_Tag r \<noteq> pl_Tag d \<or> pl_Digest r \<noteq> pl_Digest d"

definition copies_ok :: "('w \<Rightarrow> payload_ref \<Rightarrow> string option) \<Rightarrow> ('w, 'm, 'd) reg_client \<Rightarrow> bool" where
  "copies_ok at rc \<longleftrightarrow>
     (\<forall>w opts s d w'. rg_image_copy rc w opts s d = (w', None) \<longrightarrow> at w' d = at w s) \<and>
     (\<forall>w opts s d w' e r. rg_image_copy rc w opts s d = (w', e) \<longrightarrow> other_ref r d \<longrightarrow>
        pl_Base r \<noteq> pl_Base d \<or> pl_Digest r \<noteq> [] \<or> \<not> fallback_tag (pl_Tag r) \<longrightarrow> at w r \<noteq> None \<longrightarrow> at w' r = at w r) \<and>
     (\<forall>w s ds. rg_referrers rc w s = Inr ds \<longrightarrow> [] \<notin> set ds)"

definition deletes_ok :: "('w \<Rightarrow> payload_ref \<Rightarrow> string option) \<Rightarrow> ('w, 'm, 'd) reg_client \<Rightarrow> bool" where
  "deletes_ok at rc \<longleftrightarrow>
     (\<forall>w r w' e r'. rg_tag_delete rc w r = (w', e) \<longrightarrow> other_ref r' r \<longrightarrow> at w' r' = at w r') \<and>
     (\<forall>w r w'. rg_tag_delete rc w r = (w', None) \<longrightarrow> at w' r = None) \<and>
     (\<forall>w r w' m. rg_tag_delete rc w r = (w', Some (RegNotFound m)) \<longrightarrow> at w' r = None) \<and>
     (\<forall>w r w' e r'. rg_manifest_delete rc w r = (w', e) \<longrightarrow> pl_Base r' \<noteq> pl_Base r \<or> at w r' \<noteq> Some (pl_Digest r) \<longrightarrow> at w' r' = at w r') \<and>
     (\<forall>w r w'. rg_manifest_delete rc w r = (w', None) \<longrightarrow> at w' r = None) \<and>
     (\<forall>w r w' m. rg_manifest_delete rc w r = (w', Some (RegNotFound m)) \<longrightarrow> at w' r = None)"

definition both_clients :: "('c \<Rightarrow> bool) \<Rightarrow> 'c mirror_client \<Rightarrow> bool" where
  "both_clients P c \<longleftrightarrow> P (mc_rc c) \<and> (case mc_rcFallback c of None \<Rightarrow> True | Some fb \<Rightarrow> P fb)"

text \<open>Two rules for what is done with the fallback: a fact that each leg keeps is kept, and what each leg establishes on success is established.\<close>

lemma withFallback_keeps:
  assumes "both_clients P c" and "\<And>p rc w. P rc \<Longrightarrow> I w \<Longrightarrow> I (fst (call p rc w))" and "I w"
  shows "I (fst (withFallback done' c call w))"
proof -
  have 1: "I (fst (call True (mc_rc c) w))" using assms by (auto simp: both_clients_def)
  have 2: "I (fst (call False fb (fst (call True (mc_rc c) w))))" if "mc_rcFallback c = Some fb" for fb
    using assms(1,2) 1 that by (auto simp: both_clients_def)
  show ?thesis using 1 2 by (auto simp: withFallback_def split: prod.splits sum.splits option.splits)
qed

lemma withFallback_establishes:
  assumes "both_clients P c" and "\<And>p rc w. P rc \<Longrightarrow> I w \<Longrightarrow> I (fst (call p rc w))"
    and "\<And>p rc w w' v. P rc \<Longrightarrow> I w \<Longrightarrow> call p rc w = (w', Inr v) \<Longrightarrow> Q w' v"
    and "I w" and "withFallback done' c call w = (w', Inr v)"
  shows "Q w' v"
proof (cases "call True (mc_rc c) w")
  case (Pair w1 res)
  have p: "P (mc_rc c)" using assms(1) by (simp add: both_clients_def)
  show ?thesis
  proof (cases res)
    case (Inr v1)
    with Pair assms(5) have "call True (mc_rc c) w = (w', Inr v)" by (simp add: withFallback_def)
    with assms(3) [OF p assms(4)] show ?thesis .
  next
    case (Inl e)
    with Pair assms(5) obtain fb where fb: "mc_rcFallback c = Some fb" "call False fb w1 = (w', Inr v)"
      by (auto simp: withFallback_def split: option.splits if_splits prod.splits sum.splits)
    have "I w1" using assms(2) [OF p assms(4), of True] Pair by simp
    moreover have "P fb" using assms(1) fb(1) by (simp add: both_clients_def)
    ultimately show ?thesis using assms(3) fb(2) by blast
  qed
qed

lemma copy_frame:
  assumes "copies_ok at rc" and "other_ref r d" and "pl_Base r \<noteq> pl_Base d \<or> \<not> fallback_tag (pl_Tag r)" and "at w r = Some x"
  shows "at (fst (rg_image_copy rc w opts s d)) r = Some x"
  using assms unfolding copies_ok_def by (metis option.distinct(1) prod.exhaust_sel)

lemma referrers_frame:
  assumes "copies_ok at rc" and "pl_Digest r = []" and "\<not> fallback_tag (pl_Tag r)" and "[] \<notin> set ds" and "at w r = Some x"
  shows "at (copy_referrers_loop rc srcRef destRef ds w) r = Some x"
  using assms(4,5) unfolding copy_referrers_loop_def
proof (induction ds arbitrary: w)
  case (Cons d ds)
  have "other_ref r (set_digest destRef d)" using Cons.prems(1) assms(2) by (auto simp: other_ref_def set_digest_def)
  from copy_frame [OF assms(1) this _ Cons.prems(2)] assms(3) Cons show ?case by simp
qed simp

lemma referrers_best_effort:
  assumes "copies_ok at rc" and "pl_Digest r = []" and "\<not> fallback_tag (pl_Tag r)" and "at w r = Some x"
  shows "at (copyReferrersBestEffort rc srcRef destRef w) r = Some x"
proof -
  have "at (copy_referrers_loop rc srcRef destRef ds w) r = Some x" if "rg_referrers rc w s = Inr ds" for s ds
  proof (rule referrers_frame [OF assms(1,2,3) _ assms(4)])
    show "[] \<notin> set ds" using assms(1) that by (simp add: copies_ok_def)
  qed
  then show ?thesis using assms(4) by (auto simp: copyReferrersBestEffort_def Let_def split: sum.splits)
qed

lemma other_base:
  assumes "copies_ok at rc" and "pl_Base r \<noteq> pl_Base destRef" and "at w r = Some x"
  shows "at (copyReferrersBestEffort rc srcRef destRef w) r = Some x" and "at (copy_signature rc srcRef destRef w) r = Some x"
proof -
  have o: "other_ref r d" if "pl_Base d = pl_Base destRef" for d using assms(2) that by (auto simp: other_ref_def)
  have "at (copy_referrers_loop rc srcRef destRef ds v) r = Some x" if "at v r = Some x" for ds v
    using that unfolding copy_referrers_loop_def
    by (induction ds arbitrary: v) (simp_all add: copy_frame [OF assms(1)] o set_digest_def assms(2))
  then show "at (copyReferrersBestEffort rc srcRef destRef w) r = Some x"
    using assms(3) by (auto simp: copyReferrersBestEffort_def Let_def split: sum.splits)
  show "at (copy_signature rc srcRef destRef w) r = Some x"
    using assms(2,3) by (auto simp: copy_signature_def Let_def intro!: copy_frame [OF assms(1)] o)
qed

lemma signature_frame:
  assumes "copies_ok at rc" and "\<not> fallback_tag (pl_Tag r)" and "at w r = Some x"
  shows "at (copy_signature rc srcRef destRef w) r = Some x"
proof -
  have "pl_Tag r \<noteq> signature_tag d" for d using assms(2) by (auto simp: fallback_tag_def signature_tag_def hasPrefix_append)
  then show ?thesis using assms(2,3) by (auto simp: copy_signature_def Let_def other_ref_def intro!: copy_frame [OF assms(1)])
qed

lemma effective_dest_fields [simp]: "pl_Base (effective_dest s d) = pl_Base d" "pl_Digest (effective_dest s d) = pl_Digest d"
  by (simp_all add: effective_dest_def)

lemma copyImageWith_keeps_source:
  assumes "cl_refNew env src = Inr srcRef" and "cl_refNew env dest = Inr destRef" and "pl_Base srcRef \<noteq> pl_Base destRef"
    and "copies_ok at rc" and "at w srcRef = Some x"
  shows "at (fst (copyImageWith env rc src dest opts w)) srcRef = Some x"
proof -
  let ?d = "effective_dest srcRef destRef"
  have b: "pl_Base srcRef \<noteq> pl_Base ?d" using assms(3) by simp
  have "other_ref srcRef ?d" using b by (simp add: other_ref_def)
  from copy_frame [OF assms(4) this _ assms(5)] b have c: "at (fst (rg_image_copy rc w opts srcRef ?d)) srcRef = Some x" by blast
  show ?thesis
    using c other_base(2) [OF assms(4) b other_base(1) [OF assms(4) b c]] assms(1,2)
    by (auto simp: copyImageWith_def Let_def split: prod.splits option.splits)
qed

text \<open>
  Property C18. A copy to a tag that is reported as done has put the image there: whichever of the two connections succeeded, and whichever referrers and signature were copied
  along with it or failed to, the destination resolves to the digest the source had. This is for a destination that names a tag and no digest, in a
  repository other than that of the source; tags that begin with \<open>sha256-\<close> are left out, since the referrers and signatures of images are kept under such names.
\<close>

theorem copy_reaches_destination:
  assumes "both_clients (copies_ok at) c" and "cl_refNew env src = Inr srcRef" and "cl_refNew env dest = Inr destRef"
    and "pl_Base srcRef \<noteq> pl_Base destRef" and "pl_Digest destRef = []"
    and "pl_Tag destRef \<noteq> []" and "\<not> fallback_tag (pl_Tag destRef)"
    and "at w srcRef = Some x" and "copyImage env c src dest opts w = (w', Inr name)"
  shows "name = cl_commonName env destRef \<and> at w' destRef = Some x"
proof (rule withFallback_establishes [where I = "\<lambda>w. at w srcRef = Some x" and P = "copies_ok at"
      and Q = "\<lambda>w' name. name = cl_commonName env destRef \<and> at w' destRef = Some x", OF assms(1) _ _ assms(8)])
  show "withFallback (cl_ctxDone env) c (\<lambda>_ rc w. copyImageWith env rc src dest opts w) w = (w', Inr name)"
    using assms(9) by (simp add: copyImage_def)
  show "at (fst (copyImageWith env rc src dest opts w)) srcRef = Some x" if "copies_ok at rc" "at w srcRef = Some x" for rc :: "('a, 'b, 'c) reg_client" and w
    using copyImageWith_keeps_source [OF assms(2-4) that] .
  fix rc :: "('a, 'b, 'c) reg_client" and w w' :: 'a and v
  assume ok: "copies_ok at rc" and src: "at w srcRef = Some x" and run: "copyImageWith env rc src dest opts w = (w', Inr v)"
  have dest: "effective_dest srcRef destRef = destRef" using assms(6) by (simp add: effective_dest_def)
  obtain w1 where w1: "rg_image_copy rc w opts srcRef destRef = (w1, None)"
    and w': "w' = copy_signature rc srcRef destRef (copyReferrersBestEffort rc srcRef destRef w1)" and v: "v = cl_commonName env destRef"
    using run assms(2,3) dest by (auto simp: copyImageWith_def Let_def split: prod.splits option.splits)
  have "at w1 destRef = Some x" using ok w1 src by (simp add: copies_ok_def)
  from referrers_best_effort [OF ok assms(5,7) this] have "at (copyReferrersBestEffort rc srcRef destRef w1) destRef = Some x" .
  from signature_frame [OF ok assms(7) this] v w' show "v = cl_commonName env destRef \<and> at w' destRef = Some x" by simp
qed

definition spared :: "('w \<Rightarrow> payload_ref \<Rightarrow> string option) \<Rightarrow> payload_ref \<Rightarrow> 'w \<Rightarrow> payload_ref \<Rightarrow> bool" where
  "spared at r w r' \<longleftrightarrow> (if pl_Digest r = [] then other_ref r' r else pl_Base r' \<noteq> pl_Base r \<or> at w r' \<noteq> Some (pl_Digest r))"

lemma deleteManifestWith_frame:
  assumes "deletes_ok at rc" and "cl_refNew env img = Inr r" and "spared at r w r'"
  shows "at (fst (deleteManifestWith env rc img w)) r' = at w r'"
proof -
  have "at (fst (rg_tag_delete rc w r)) r' = at w r'" if "pl_Digest r = []"
    using assms(1,3) that unfolding deletes_ok_def spared_def by (metis prod.exhaust_sel)
  moreover have "at (fst (rg_manifest_delete rc w r)) r' = at w r'" if "pl_Digest r \<noteq> []"
    using assms(1,3) that unfolding deletes_ok_def spared_def by (metis prod.exhaust_sel)
  ultimately show ?thesis using assms(2)
    by (auto simp: deleteManifestWith_def split: prod.splits option.splits reg_error.splits)
qed

lemma spared_cong: "at v r' = at w r' \<Longrightarrow> spared at r w r' \<Longrightarrow> spared at r v r'"
  by (auto simp: spared_def split: if_splits)

lemma DeleteManifest_frame:
  assumes "both_clients (deletes_ok at) c" and "cl_refNew env img = Inr r" and "spared at r w r'"
  shows "at (fst (DeleteManifest env c img w)) r' = at w r'"
  unfolding DeleteManifest_def
proof (rule withFallback_keeps [where P = "deletes_ok at" and I = "\<lambda>v. at v r' = at w r'", OF assms(1) _ refl])
  fix rc :: "('a, 'b, 'c) reg_client" and v
  assume "deletes_ok at rc" and v: "at v r' = at w r'"
  from deleteManifestWith_frame [OF this(1) assms(2) spared_cong [OF v assms(3)]] v
  show "at (fst (deleteManifestWith env rc img v)) r' = at w r'" by simp
qed

lemma deletes_gone:
  assumes "deletes_ok at rc" and "e = None \<or> e = Some (RegNotFound m)"
  shows "rg_tag_delete rc w r = (w', e) \<Longrightarrow> at w' r = None" and "rg_manifest_delete rc w r = (w', e) \<Longrightarrow> at w' r = None"
  using assms unfolding deletes_ok_def by blast+

lemma deleteManifestWith_gone:
  assumes "deletes_ok at rc" and "cl_refNew env img = Inr r" and "deleteManifestWith env rc img w = (w', Inr v)"
  shows "at w' r = None"
proof -
  have "\<exists>e m. (rg_tag_delete rc w r = (w', e) \<or> rg_manifest_delete rc w r = (w', e)) \<and> (e = None \<or> e = Some (RegNotFound m))"
    using assms(2,3) by (auto simp: deleteManifestWith_def split: prod.splits option.splits reg_error.splits if_splits)
  with deletes_gone [OF assms(1)] show ?thesis by blast
qed

lemma DeleteManifest_gone:
  assumes "both_clients (deletes_ok at) c" and "cl_refNew env img = Inr r" and "DeleteManifest env c img w = (w', Inr ())"
  shows "at w' r = None"
  by (rule withFallback_establishes [where P = "deletes_ok at" and I = "\<lambda>_. True" and Q = "\<lambda>v _. at v r = None",
        OF assms(1) _ _ _ assms(3) [unfolded DeleteManifest_def]])
    (auto dest: deleteManifestWith_gone [OF _ assms(2)])

text \<open>
  Deleting a destination deletes nothing else: a tag reference takes away that tag only, a digest reference only what resolves to that digest in
  that repository, and a deletion that is reported as done leaves the destination unresolvable.
\<close>

theorem delete_affects_named_image_only:
  assumes "both_clients (deletes_ok at) c" and "cl_refNew env img = Inr r" and "DeleteManifest env c img w = (w', res)"
  shows "(spared at r w r' \<longrightarrow> at w' r' = at w r') \<and> (res = Inr () \<longrightarrow> at w' r = None)"
  using DeleteManifest_frame [OF assms(1,2), of w r'] DeleteManifest_gone [OF assms(1,2), of w w'] assms(3) by auto

section \<open>A registry in memory\<close>

text \<open>Tags and manifests by repository, with the laws above, for evaluating properties.\<close>

record mem_registry =
  mr_tags :: "string \<times> string \<Rightarrow> string option"
  mr_manifests :: "(string \<times> string) list"

definition mr_at :: "mem_registry \<Rightarrow> payload_ref \<Rightarrow> string option" where
  "mr_at w r =
     (if pl_Digest r \<noteq> [] then (if (pl_Base r, pl_Digest r) \<in> set (mr_manifests w) then Some (pl_Digest r) else None)
      else mr_tags w (pl_Base r, pl_Tag r))"

definition mr_copy :: "mem_registry \<Rightarrow> copy_option list \<Rightarrow> payload_ref \<Rightarrow> payload_ref \<Rightarrow> mem_registry \<times> reg_error option" where
  "mr_copy w opts s d =
     (case mr_at w s of
        None \<Rightarrow> (w, Some (RegNotFound (pl_Base s)))
      | Some x \<Rightarrow>
          if pl_Digest d = [] then
            (w\<lparr>mr_tags := (mr_tags w)((pl_Base d, pl_Tag d) := Some x), mr_manifests := (pl_Base d, x) # mr_manifests w\<rparr>, None)
          else if pl_Digest d = x then (w\<lparr>mr_manifests := (pl_Base d, x) # mr_manifests w\<rparr>, None)
          else (w, Some (RegError ''digest'')))"

definition mr_tag_delete :: "mem_registry \<Rightarrow> payload_ref \<Rightarrow> mem_registry \<times> reg_error option" where
  "mr_tag_delete w r =
     (if pl_Digest r \<noteq> [] then (w, Some (RegError ''not a tag''))
      else if mr_tags w (pl_Base r, pl_Tag r) = None then (w, Some (RegNotFound (pl_Tag r)))
      else (w\<lparr>mr_tags := (mr_tags w)((pl_Base r, pl_Tag r) := None)\<rparr>, None))"

definition mr_manifest_delete :: "mem_registry \<Rightarrow> payload_ref \<Rightarrow> mem_registry \<times> reg_error option" where
  "mr_manifest_delete w r =
     (if pl_Digest r = [] then (w, Some (RegError ''not a digest''))
      else (w\<lparr>mr_tags := (\<lambda>k. if fst k = pl_Base r \<and> mr_tags w k = Some (pl_Digest r) then None else mr_tags w k),
              mr_manifests := filter (\<lambda>m. m \<noteq> (pl_Base r, pl_Digest r)) (mr_manifests w)\<rparr>, None))"

definition mem_client :: "(mem_registry, unit, unit) reg_client" where
  "mem_client =
     \<lparr>rg_image_copy = mr_copy,
      rg_head = (\<lambda>w r. case mr_at w r of Some x \<Rightarrow> Inr x | None \<Rightarrow> Inl (RegNotFound (pl_Tag r))),
      rg_referrers = (\<lambda>w r. Inl (RegError ''unsupported'')), rg_tag_delete = mr_tag_delete, rg_manifest_delete = mr_manifest_delete,
      rg_blob_head = (\<lambda>w r d. False), rg_manifest_get = (\<lambda>w r. Inl (RegError ''unsupported'')), rg_manifest_put = (\<lambda>w r m. (w, Some (RegError ''unsupported''))),
      rg_blob_get = (\<lambda>w r d. Inl (RegError ''unsupported'')), rg_blob_put = (\<lambda>w r d c. (w, 0, Inl (RegError ''unsupported''))),
      rg_blob_copy = (\<lambda>w s d x. (w, Some (RegError ''unsupported''))), rg_image_config = (\<lambda>w r p. Inl (RegError ''unsupported''))\<rparr>"

lemma mem_client_copies: "copies_ok mr_at mem_client"
  unfolding copies_ok_def
proof (intro conjI allI impI)
  fix w opts s d w'
  assume "rg_image_copy mem_client w opts s d = (w', None)"
  then show "mr_at w' d = mr_at w s"
    by (auto simp: mem_client_def mr_copy_def mr_at_def split: option.splits if_splits)
next
  fix w opts s d w' e r
  assume "rg_image_copy mem_client w opts s d = (w', e)" and "other_ref r d" and "mr_at w r \<noteq> None"
  then show "mr_at w' r = mr_at w r"
    by (auto simp: mem_client_def mr_copy_def mr_at_def other_ref_def split: option.splits if_splits)
qed (simp add: mem_client_def)

lemma mem_client_deletes: "deletes_ok mr_at mem_client"
  unfolding deletes_ok_def
proof (intro conjI allI impI)
  fix w r w' e r'
  assume "rg_tag_delete mem_client w r = (w', e)" and "other_ref r' r"
  then show "mr_at w' r' = mr_at w r'"
    by (auto simp: mem_client_def mr_tag_delete_def mr_at_def other_ref_def split: if_splits)
next
  fix w r w' e r'
  assume "rg_manifest_delete mem_client w r = (w', e)" and "pl_Base r' \<noteq> pl_Base r \<or> mr_at w r' \<noteq> Some (pl_Digest r)"
  then show "mr_at w' r' = mr_at w r'"
    by (auto simp: mem_client_def mr_manifest_delete_def mr_at_def split: if_splits)
qed (auto simp: mem_client_def mr_tag_delete_def mr_manifest_delete_def mr_at_def split: if_splits)

abbreviation plain_ref :: "string \<Rightarrow> string \<Rightarrow> string \<Rightarrow> payload_ref" where
  "plain_ref b t d \<equiv> \<lparr>pl_Base = b, pl_Tag = t, pl_Digest = d\<rparr>"

text \<open>A parser for the references of the examples: \<open>repo@digest\<close>, \<open>repo:tag\<close> or \<open>repo\<close>.\<close>

definition toy_ref :: "string \<Rightarrow> string + payload_ref" where
  "toy_ref s =
     (case str_index s ''@'' of
        Some i \<Rightarrow> Inr (plain_ref (take i s) [] (drop (Suc i) s))
      | None \<Rightarrow> (case str_index s '':'' of
                    Some i \<Rightarrow> Inr (plain_ref (take i s) (drop (Suc i) s) [])
                  | None \<Rightarrow> Inr (plain_ref s ''latest'' [])))"

definition mem_env :: "mem_registry client_env" where
  "mem_env = \<lparr>cl_refNew = toy_ref, cl_commonName = (\<lambda>r. pl_Base r @ '':'' @ pl_Tag r), cl_ctxDone = (\<lambda>_. False)\<rparr>"

abbreviation mem_mirror :: "(mem_registry, unit, unit) reg_client mirror_client" where
  "mem_mirror \<equiv> \<lparr>mc_rc = mem_client, mc_rcFallback = Some mem_client, mc_newBuffered = None\<rparr>"

definition one_image :: mem_registry where
  "one_image = \<lparr>mr_tags = (\<lambda>k. if k = (''q/a'', ''v1'') \<or> k = (''q/a'', ''v2'') then Some ''sha256:1'' else None), mr_manifests = [(''q/a'', ''sha256:1'')]\<rparr>"

lemma toy_refs:
  "toy_ref ''q/a@sha256:1'' = Inr (plain_ref ''q/a'' [] ''sha256:1'')" "toy_ref ''q/a:v1'' = Inr (plain_ref ''q/a'' ''v1'' [])"
  "toy_ref ''t/a:v1'' = Inr (plain_ref ''t/a'' ''v1'' [])"
  by code_simp+

text \<open>
  A registry without the referrers API: the image has one referrer and a signature, and pushing the referrer, the only push by digest, moves the tag of the referrers.
\<close>

definition tag_schema_client :: "(mem_registry, unit, unit) reg_client" where
  "tag_schema_client = mem_client\<lparr>rg_referrers := (\<lambda>w r. Inr [''sha256:9'']),
     rg_image_copy := (\<lambda>w opts s d. case mr_copy w opts s d of
       (w', e) \<Rightarrow> (if pl_Digest d = [] then w' else w'\<lparr>mr_tags := (mr_tags w')((pl_Base d, ''sha256-1'') := Some ''sha256:index'')\<rparr>, e))\<rparr>"

definition signed_image :: mem_registry where
  "signed_image = \<lparr>mr_tags = (\<lambda>k. if k = (''q/a'', ''sha256-1.sig'') then Some ''sha256:5'' else None),
     mr_manifests = [(''q/a'', ''sha256:1''), (''q/a'', ''sha256:5''), (''q/a'', ''sha256:9'')]\<rparr>"

lemma tag_schema_copies: "copies_ok mr_at tag_schema_client"
  unfolding copies_ok_def
proof (intro conjI allI impI)
  fix w opts s d w'
  assume "rg_image_copy tag_schema_client w opts s d = (w', None)"
  then show "mr_at w' d = mr_at w s"
    by (auto simp: tag_schema_client_def mr_copy_def mr_at_def split: option.splits if_splits)
next
  fix w opts s d w' e r
  assume "rg_image_copy tag_schema_client w opts s d = (w', e)" and "other_ref r d" and "mr_at w r \<noteq> None"
    and "pl_Base r \<noteq> pl_Base d \<or> pl_Digest r \<noteq> [] \<or> \<not> fallback_tag (pl_Tag r)"
  moreover have "fallback_tag ''sha256-1''" by code_simp
  ultimately show "mr_at w' r = mr_at w r"
    by (auto simp: tag_schema_client_def mr_copy_def mr_at_def other_ref_def split: option.splits if_splits)
qed (simp add: tag_schema_client_def)

abbreviation tag_schema_mirror :: "(mem_registry, unit, unit) reg_client mirror_client" where
  "tag_schema_mirror \<equiv> \<lparr>mc_rc = tag_schema_client, mc_rcFallback = None, mc_newBuffered = None\<rparr>"

lemma tag_schema_run:
  "copyImage mem_env tag_schema_mirror ''q/a@sha256:1'' ''t/a:v1'' [] signed_image =
     (\<lparr>mr_tags = (mr_tags signed_image)((''t/a'', ''v1'') := Some ''sha256:1'', (''t/a'', ''sha256-1'') := Some ''sha256:index'', (''t/a'', ''sha256-1.sig'') := Some ''sha256:5''),
       mr_manifests = [(''t/a'', ''sha256:5''), (''t/a'', ''sha256:9''), (''t/a'', ''sha256:1'')] @ mr_manifests signed_image\<rparr>, Inr ''t/a:v1'')"
proof -
  have tag: "signature_tag ''sha256:1'' = ''sha256-1.sig''" by code_simp
  show ?thesis
    by (simp add: copyImage_def withFallback_def copyImageWith_def Let_def mem_env_def toy_refs effective_dest_def tag_schema_client_def mem_client_def mr_copy_def mr_at_def
        signed_image_def copyReferrersBestEffort_def copy_referrers_loop_def set_digest_def copy_signature_def tag)
qed

theorem copy_reaches_destination_witness:
  "mr_at (fst (copyImage mem_env tag_schema_mirror ''q/a@sha256:1'' ''t/a:v1'' [] signed_image)) (plain_ref ''t/a'' ''v1'' []) = Some ''sha256:1'' \<and>
   mr_at (fst (copyImage mem_env tag_schema_mirror ''q/a@sha256:1'' ''t/a:v1'' [] signed_image)) (plain_ref ''t/a'' ''sha256-1'' []) = Some ''sha256:index''"
proof -
  have ok: "both_clients (copies_ok mr_at) tag_schema_mirror" by (simp add: both_clients_def tag_schema_copies)
  have tag: "\<not> fallback_tag ''v1''" by code_simp
  have refs: "cl_refNew mem_env ''q/a@sha256:1'' = Inr (plain_ref ''q/a'' [] ''sha256:1'')" "cl_refNew mem_env ''t/a:v1'' = Inr (plain_ref ''t/a'' ''v1'' [])"
    by (simp_all add: mem_env_def toy_refs)
  have src: "mr_at signed_image (plain_ref ''q/a'' [] ''sha256:1'') = Some ''sha256:1''" by (simp add: mr_at_def signed_image_def)
  from copy_reaches_destination [OF ok refs _ _ _ _ src tag_schema_run] tag
  have "mr_at (fst (copyImage mem_env tag_schema_mirror ''q/a@sha256:1'' ''t/a:v1'' [] signed_image)) (plain_ref ''t/a'' ''v1'' []) = Some ''sha256:1''"
    unfolding tag_schema_run by simp
  moreover have "mr_at (fst (copyImage mem_env tag_schema_mirror ''q/a@sha256:1'' ''t/a:v1'' [] signed_image)) (plain_ref ''t/a'' ''sha256-1'' []) = Some ''sha256:index''"
    unfolding tag_schema_run by (simp add: mr_at_def)
  ultimately show ?thesis ..
qed

theorem delete_affects_named_image_only_witness:
  "mr_at (fst (DeleteManifest mem_env mem_mirror ''q/a:v1'' one_image)) (plain_ref ''q/a'' ''v2'' []) = Some ''sha256:1''"
proof -
  have "both_clients (deletes_ok mr_at) mem_mirror" by (simp add: both_clients_def mem_client_deletes)
  from delete_affects_named_image_only [OF this, of mem_env "''q/a:v1''" "plain_ref ''q/a'' ''v1'' []" one_image
      "fst (DeleteManifest mem_env mem_mirror ''q/a:v1'' one_image)" "snd (DeleteManifest mem_env mem_mirror ''q/a:v1'' one_image)" "plain_ref ''q/a'' ''v2'' []"]
  show ?thesis by (simp add: mem_env_def toy_refs spared_def other_ref_def mr_at_def one_image_def)
qed

end
