(* ===== verification/Cleanup.thy ===== *)
theory Cleanup
  imports ImageSetController RegistryClient
begin

text \<open>
  Deleting images from the target registry: what the reconciler of a MirrorTarget puts up for deletion (\<open>reconcileCleanup\<close> and what it calls in
  \<open>internal/controller/mirrortarget_controller.go\<close>), the Job it starts, and the program of that Job (\<open>pkg/mirror/cleanup\<close>). The API server is the
  record \<open>cleanup_api\<close>; the registry is reached through a deleter, the client of \<open>RegistryClient\<close>.
\<close>

section \<open>State\<close>

record gateway_ref =
  gw_Name :: string
  gw_Namespace :: string

record expose_config =
  ex_Type :: string
  ex_Host :: string
  ex_IngressClassName :: string
  ex_GatewayRef :: "gateway_ref option"

record image_set_summary =
  iss_Name :: string
  iss_Found :: bool
  iss_Total :: int
  iss_Mirrored :: int
  iss_Pending :: int
  iss_Failed :: int

record ctl_target = worker_target +
  mt_Namespace :: string
  mt_Generation :: int
  mt_Annotations :: annotations
  mt_Deleting :: bool
  mt_Finalizers :: "string list"
  mt_Expose :: "expose_config option"
  mt_ManagerNodeSelector :: annotations
  mt_ManagerResources :: string
  mt_ManagerTolerations :: "string list"
  mt_Conditions :: "condition list"
  mt_KnownImageSets :: "string list"
  mt_PendingCleanup :: "string list"
  mt_ImageSetStatuses :: "image_set_summary list"
  mt_TotalImages :: int
  mt_MirroredImages :: int
  mt_PendingImages :: int
  mt_FailedImages :: int

record cleanup_job =
  kj_Name :: string
  kj_Namespace :: string
  kj_Labels :: annotations
  kj_Owner :: "string \<times> string"
  kj_BackoffLimit :: int
  kj_TTLSecondsAfterFinished :: int
  kj_ServiceAccountName :: string
  kj_RestartPolicy :: string
  kj_RunAsNonRoot :: bool
  kj_SeccompProfile :: string
  kj_ContainerName :: string
  kj_Image :: string
  kj_Args :: "string list"
  kj_Env :: "env_var list"
  kj_AllowPrivilegeEscalation :: bool
  kj_DropCapabilities :: "string list"
  kj_VolumeMounts :: "volume_mount list"
  kj_Volumes :: "(string \<times> volume_source) list"
  kj_NodeSelector :: annotations
  kj_Tolerations :: "string list"
  kj_Succeeded :: int
  kj_Failed :: int

record 'w cleanup_api =
  ka_kube :: "'w kube"
  ka_job_get :: "'w \<Rightarrow> string \<Rightarrow> kube_error + cleanup_job"
  ka_job_create :: "'w \<Rightarrow> cleanup_job \<Rightarrow> 'w \<times> kube_error option"
  ka_job_delete :: "'w \<Rightarrow> string \<Rightarrow> 'w \<times> kube_error option"

text \<open>The text of an error matters where the code looks for a phrase in it.\<close>

datatype job_fail = StaleDeleteFailed kube_error | StaleDeleted | CleanupCreateFailed kube_error

datatype cleanup_error =
    LoadOrphansFailed error
  | LoadStateFailed string error
  | LoadIndexFailed error
  | SnapshotFailed string error
  | CleanupJobFailed string job_fail

record cleanup_env =
  ke_sha256hex :: "string \<Rightarrow> string"
  ke_workerImage :: string
  ke_time_json :: "int \<Rightarrow> int"
  ke_owner :: owner
  ke_now :: int
  ke_kubeText :: "kube_error \<Rightarrow> string"
  ke_errorText :: "cleanup_error \<Rightarrow> string"

abbreviation CleanupPolicyAnnotation :: string where "CleanupPolicyAnnotation \<equiv> ''mirror.openshift.io/cleanup-policy''"
abbreviation CleanupPolicyDelete :: string where "CleanupPolicyDelete \<equiv> ''Delete''"
abbreviation conditionTypeCleanup :: string where "conditionTypeCleanup \<equiv> ''Cleanup''"

section \<open>Names\<close>

definition hashed_name :: "(string \<Rightarrow> string) \<Rightarrow> nat \<Rightarrow> string \<Rightarrow> string \<Rightarrow> string \<Rightarrow> string" where
  "hashed_name sha256hex maxLen targetName imageSetName body =
     (let suffix = take 8 (sha256hex (targetName @ [CHR 0x00] @ imageSetName))
      in trimRight CHR ''-'' (take (maxLen - 1 - 8) body) @ ''-'' @ suffix)"

definition cleanupJobName :: "(string \<Rightarrow> string) \<Rightarrow> string \<Rightarrow> string \<Rightarrow> string" where
  "cleanupJobName sha256hex targetName imageSetName =
     hashed_name sha256hex 63 targetName imageSetName (''cleanup-'' @ targetName @ ''-'' @ imageSetName)"

definition cleanupSnapshotCMName :: "(string \<Rightarrow> string) \<Rightarrow> string \<Rightarrow> string \<Rightarrow> string" where
  "cleanupSnapshotCMName sha256hex targetName imageSetName =
     hashed_name sha256hex 253 targetName imageSetName (targetName @ ''-cleanup-'' @ imageSetName)"

section \<open>What is still needed\<close>

definition repoAndDigest :: "string \<Rightarrow> string \<times> string" where
  "repoAndDigest dest =
     (case str_index dest ''@sha256:'' of
        Some i \<Rightarrow> (take i dest, drop (i + 1) dest)
      | None \<Rightarrow>
          (case last_index dest '':sha256-'' of
             Some i \<Rightarrow> (take i dest, ''sha256:'' @ drop (i + length '':sha256-'') dest)
           | None \<Rightarrow> (dest, [])))"

record live_images =
  li_dests :: "string list"
  li_digests :: "string list"

definition live_needs :: "live_images \<Rightarrow> string \<Rightarrow> bool" where
  "live_needs l dest =
     (if dest \<in> set (li_dests l) then True
      else if \<not> contains dest ''@sha256:'' then False
      else (case repoAndDigest dest of (repo, digest) \<Rightarrow> digest \<noteq> [] \<and> repo @ ''@'' @ digest \<in> set (li_digests l)))"

definition add_live :: "string \<Rightarrow> live_images \<Rightarrow> live_images" where
  "add_live dest l =
     (let l1 = l\<lparr>li_dests := dest # li_dests l\<rparr>
      in case repoAndDigest dest of (repo, digest) \<Rightarrow>
           if digest \<noteq> [] then l1\<lparr>li_digests := (repo @ ''@'' @ digest) # li_digests l1\<rparr> else l1)"

fun live_loop :: "'w kube \<Rightarrow> 'w \<Rightarrow> string \<Rightarrow> string list \<Rightarrow> live_images \<Rightarrow> cleanup_error + live_images" where
  "live_loop k w exclude [] live = Inr live"
| "live_loop k w exclude (name # ns) live =
     (if name = exclude then live_loop k w exclude ns live
      else (case Load k w name of
              Inl e \<Rightarrow> Inl (LoadStateFailed name e)
            | Inr st \<Rightarrow> live_loop k w exclude ns (fold (\<lambda>(dest, _). add_live dest) st live)))"

definition liveDestinations :: "'w kube \<Rightarrow> 'w \<Rightarrow> ctl_target \<Rightarrow> string \<Rightarrow> cleanup_error + live_images" where
  "liveDestinations k w mt exclude = live_loop k w exclude (mt_ImageSets mt) \<lparr>li_dests = [], li_digests = []\<rparr>"

section \<open>The Job\<close>

definition cleanup_args :: "ctl_target \<Rightarrow> string \<Rightarrow> string list" where
  "cleanup_args mt snapshotCMName =
     [''cleanup'', ''--configmap'', snapshotCMName, ''--namespace'', mt_Namespace mt, ''--registry'', mt_Registry mt] @
     (if mt_Insecure mt then [''--insecure''] else [])"

definition cleanup_job_spec :: "cleanup_env \<Rightarrow> ctl_target \<Rightarrow> string \<Rightarrow> string \<Rightarrow> cleanup_job" where
  "cleanup_job_spec env mt imageSetName snapshotCMName =
     (let labels = [(''app.kubernetes.io/managed-by'', ''oc-mirror-operator''), (''mirror.openshift.io/cleanup'', imageSetName), (''mirrortarget'', mt_Name mt)];
          auth = mt_AuthSecret mt \<noteq> []
      in \<lparr>kj_Name = cleanupJobName (ke_sha256hex env) (mt_Name mt) imageSetName, kj_Namespace = mt_Namespace mt, kj_Labels = labels,
          kj_Owner = (''MirrorTarget'', mt_Name mt), kj_BackoffLimit = 3, kj_TTLSecondsAfterFinished = 600,
          kj_ServiceAccountName = mt_Name mt @ ''-coordinator'', kj_RestartPolicy = ''Never'', kj_RunAsNonRoot = True, kj_SeccompProfile = ''RuntimeDefault'',
          kj_ContainerName = ''cleanup'', kj_Image = ke_workerImage env, kj_Args = cleanup_args mt snapshotCMName,
          kj_Env = (if auth then [(''DOCKER_CONFIG'', Value ''/docker-config'')] else []),
          kj_AllowPrivilegeEscalation = False, kj_DropCapabilities = [''ALL''],
          kj_VolumeMounts = (if auth then [\<lparr>vm_Name = ''registry-auth'', vm_MountPath = ''/docker-config'', vm_ReadOnly = True\<rparr>] else []),
          kj_Volumes = (if auth then [(''registry-auth'', SecretFiles (mt_AuthSecret mt) [(''.dockerconfigjson'', ''config.json'')])] else []),
          kj_NodeSelector = mt_WorkerNodeSelector mt, kj_Tolerations = mt_WorkerTolerations mt, kj_Succeeded = 0, kj_Failed = 0\<rparr>)"

definition createCleanupJob :: "cleanup_env \<Rightarrow> 'w cleanup_api \<Rightarrow> ctl_target \<Rightarrow> string \<Rightarrow> string \<Rightarrow> 'w \<Rightarrow> 'w \<times> job_fail option" where
  "createCleanupJob env api mt imageSetName snapshotCMName w =
     (let jobName = cleanupJobName (ke_sha256hex env) (mt_Name mt) imageSetName
      in case ka_job_get api w jobName of
           Inr existing \<Rightarrow>
             if kj_Succeeded existing > 0 \<or> kj_Failed existing > 0 then
               (case ka_job_delete api w jobName of
                  (w', Some e) \<Rightarrow> (w', Some (StaleDeleteFailed e))
                | (w', None) \<Rightarrow> (w', Some StaleDeleted))
             else (w, None)
         | Inl _ \<Rightarrow>
             (case ka_job_create api w (cleanup_job_spec env mt imageSetName snapshotCMName) of
                (w', e) \<Rightarrow> (w', map_option CleanupCreateFailed e)))"

fun job_fail_text :: "cleanup_env \<Rightarrow> job_fail \<Rightarrow> string" where
  "job_fail_text env (StaleDeleteFailed e) = ''failed to delete stale cleanup job: '' @ ke_kubeText env e"
| "job_fail_text env StaleDeleted = ''stale cleanup job deleted; will recreate on next reconcile''"
| "job_fail_text env (CleanupCreateFailed e) = ke_kubeText env e"

section \<open>Progress of a cleanup\<close>

definition isPendingCleanup :: "cleanup_env \<Rightarrow> 'w cleanup_api \<Rightarrow> ctl_target \<Rightarrow> string \<Rightarrow> 'w \<Rightarrow> 'w \<times> bool" where
  "isPendingCleanup env api mt name w =
     (let jobName = cleanupJobName (ke_sha256hex env) (mt_Name mt) name;
          snapshotName = cleanupSnapshotCMName (ke_sha256hex env) (mt_Name mt) name
      in case ka_job_get api w jobName of
           Inl NotFound \<Rightarrow>
             (case kget (ka_kube api) w snapshotName of
                Inr _ \<Rightarrow> (fst (createCleanupJob env api mt name snapshotName w), True)
              | Inl _ \<Rightarrow> (w, False))
         | Inl _ \<Rightarrow> (w, True)
         | Inr job \<Rightarrow>
             if kj_Succeeded job > 0 then (w, False)
             else if kj_Failed job > 0 then (fst (ka_job_delete api w jobName), True)
             else (w, True))"

fun pending_loop :: "cleanup_env \<Rightarrow> 'w cleanup_api \<Rightarrow> ctl_target \<Rightarrow> string list \<Rightarrow> 'w \<Rightarrow> 'w \<times> string list" where
  "pending_loop env api mt [] w = (w, [])"
| "pending_loop env api mt (name # ns) w =
     (case isPendingCleanup env api mt name w of (w1, p) \<Rightarrow>
        (case pending_loop env api mt ns w1 of (w2, rest) \<Rightarrow> (w2, if p then name # rest else rest)))"

definition checkPendingCleanups :: "cleanup_env \<Rightarrow> 'w cleanup_api \<Rightarrow> ctl_target \<Rightarrow> 'w \<Rightarrow> 'w \<times> ctl_target" where
  "checkPendingCleanups env api mt w =
     (case pending_loop env api mt (mt_PendingCleanup mt) w of (w', stillPending) \<Rightarrow> (w', mt\<lparr>mt_PendingCleanup := stillPending\<rparr>))"

section \<open>Orphans\<close>

definition wants_delete :: "ctl_target \<Rightarrow> bool" where
  "wants_delete mt \<longleftrightarrow> mget_str (mt_Annotations mt) CleanupPolicyAnnotation = CleanupPolicyDelete"

definition delete_cm :: "'w cleanup_api \<Rightarrow> string \<Rightarrow> 'w \<Rightarrow> 'w" where
  "delete_cm api name w = fst (kdelete (ka_kube api) w name)"

definition queue_orphans :: "cleanup_env \<Rightarrow> 'w cleanup_api \<Rightarrow> ctl_target \<Rightarrow> loaded_state \<Rightarrow> 'w \<Rightarrow> 'w \<times> ctl_target" where
  "queue_orphans env api mt orphans w =
     (let snapshotName = cleanupSnapshotCMName (ke_sha256hex env) (mt_Name mt) ''orphans''
      in case SaveRaw (ke_time_json env) (ka_kube api) w snapshotName orphans (ke_owner env) of
           (w1, Some _) \<Rightarrow> (w1, mt)
         | (w1, None) \<Rightarrow>
             (case createCleanupJob env api mt ''orphans'' snapshotName w1 of
                (w2, Some _) \<Rightarrow> (delete_cm api snapshotName w2, mt)
              | (w2, None) \<Rightarrow>
                  (delete_cm api (OrphansConfigMapName (mt_Name mt)) w2, mt\<lparr>mt_PendingCleanup := mt_PendingCleanup mt @ [''orphans'']\<rparr>)))"

definition reconcileOrphans :: "cleanup_env \<Rightarrow> 'w cleanup_api \<Rightarrow> ctl_target \<Rightarrow> 'w \<Rightarrow> 'w \<times> (cleanup_error + ctl_target)" where
  "reconcileOrphans env api mt w =
     (let orphansCMName = OrphansConfigMapName (mt_Name mt)
      in case LoadByConfigMapName (ka_kube api) w orphansCMName of
           Inl e \<Rightarrow> (w, Inl (LoadOrphansFailed e))
         | Inr orphans \<Rightarrow>
             if length orphans = 0 then (w, Inr mt)
             else if \<not> wants_delete mt then (delete_cm api orphansCMName w, Inr mt)
             else if ''orphans'' \<in> set (mt_PendingCleanup mt) then (w, Inr mt)
             else (case liveDestinations (ka_kube api) w mt [] of
                     Inl e \<Rightarrow> (w, Inl e)
                   | Inr live \<Rightarrow>
                       (let left = filter (\<lambda>(dest, _). \<not> live_needs live dest) orphans
                        in if length left = 0 then (delete_cm api orphansCMName w, Inr mt)
                           else (case queue_orphans env api mt left w of (w', mt') \<Rightarrow> (w', Inr mt')))))"

section \<open>Removed ImageSets\<close>

definition commit_removal :: "cleanup_env \<Rightarrow> 'w cleanup_api \<Rightarrow> ctl_target \<Rightarrow> string \<Rightarrow> shared_index \<Rightarrow> string list \<Rightarrow> 'w \<Rightarrow> 'w" where
  "commit_removal env api mt isName idx sharedDests w =
     (let w1 = (if length sharedDests > 0
                then fst (SaveIndex (ka_kube api) w (mt_Name mt) (fold (\<lambda>dest i. RemoveSharedRef i dest isName) sharedDests idx) (ke_owner env))
                else w)
      in delete_cm api (ConfigMapName isName) w1)"

definition partitionAndCreateCleanupJob :: "cleanup_env \<Rightarrow> 'w cleanup_api \<Rightarrow> ctl_target \<Rightarrow> string \<Rightarrow> 'w \<Rightarrow> 'w \<times> (cleanup_error + bool)" where
  "partitionAndCreateCleanupJob env api mt isName w =
     (case Load (ka_kube api) w isName of
        Inl e \<Rightarrow> (w, Inl (LoadStateFailed isName e))
      | Inr isState \<Rightarrow>
          (case LoadIndex (ka_kube api) w (mt_Name mt) of
             Inl e \<Rightarrow> (w, Inl (LoadIndexFailed e))
           | Inr idx \<Rightarrow>
               (case liveDestinations (ka_kube api) w mt isName of
                  Inl e \<Rightarrow> (w, Inl e)
                | Inr live \<Rightarrow>
                    (let shared = (\<lambda>dest. IsShared idx dest \<or> live_needs live dest);
                         sharedDests = filter shared (map fst isState);
                         exclusiveState = filter (\<lambda>(dest, _). \<not> shared dest) isState
                     in if length exclusiveState = 0 then (commit_removal env api mt isName idx sharedDests w, Inr False)
                        else
                          (let snapshotName = cleanupSnapshotCMName (ke_sha256hex env) (mt_Name mt) isName
                           in case SaveRaw (ke_time_json env) (ka_kube api) w snapshotName exclusiveState (ke_owner env) of
                                (w1, Some e) \<Rightarrow> (w1, Inl (SnapshotFailed isName e))
                              | (w1, None) \<Rightarrow>
                                  (case createCleanupJob env api mt isName snapshotName w1 of
                                     (w2, Some f) \<Rightarrow>
                                       (if contains (job_fail_text env f) ''stale cleanup job deleted'' then w2 else delete_cm api snapshotName w2,
                                        Inl (CleanupJobFailed isName f))
                                   | (w2, None) \<Rightarrow> (commit_removal env api mt isName idx sharedDests w2, Inr True)))))))"

fun removed_loop :: "cleanup_env \<Rightarrow> 'w cleanup_api \<Rightarrow> string list \<Rightarrow> ctl_target \<Rightarrow> 'w \<Rightarrow> ('w \<times> ctl_target) \<times> cleanup_error option" where
  "removed_loop env api [] mt w = ((w, mt), None)"
| "removed_loop env api (isName # ns) mt w =
     (if isName \<in> set (mt_PendingCleanup mt) then removed_loop env api ns mt w
      else (case partitionAndCreateCleanupJob env api mt isName w of
              (w1, Inl e) \<Rightarrow> ((w1, mt), Some e)
            | (w1, Inr created) \<Rightarrow>
                removed_loop env api ns (if created then mt\<lparr>mt_PendingCleanup := mt_PendingCleanup mt @ [isName]\<rparr> else mt) w1))"

definition reconcileRemovedImageSets :: "cleanup_env \<Rightarrow> 'w cleanup_api \<Rightarrow> string list \<Rightarrow> ctl_target \<Rightarrow> 'w \<Rightarrow> ('w \<times> ctl_target) \<times> cleanup_error option" where
  "reconcileRemovedImageSets env api removed mt w =
     (if length removed = 0 then ((w, mt), None)
      else if \<not> wants_delete mt then ((w, mt), None)
      else removed_loop env api removed mt w)"

section \<open>All of it\<close>

definition removed_sets :: "ctl_target \<Rightarrow> string list" where
  "removed_sets mt = filter (\<lambda>name. name \<notin> set (mt_ImageSets mt)) (mt_KnownImageSets mt)"

definition cleanup_condition :: "cleanup_env \<Rightarrow> string list \<Rightarrow> ctl_target \<Rightarrow> ctl_target" where
  "cleanup_condition env removed mt =
     (if length (mt_PendingCleanup mt) > 0 then
        mt\<lparr>mt_Conditions := setCondition (ke_now env) (mt_Conditions mt) conditionTypeCleanup ConditionFalse ''CleanupInProgress''
              (''Cleaning up images for: '' @ str_join '', '' (mt_PendingCleanup mt)) (mt_Generation mt)\<rparr>
      else if length removed = 0 \<and> (\<exists>c \<in> set (mt_Conditions mt). cd_Type c = conditionTypeCleanup \<and> cd_Reason c = ''CleanupInProgress'') then
        mt\<lparr>mt_Conditions := setCondition (ke_now env) (mt_Conditions mt) conditionTypeCleanup ConditionTrue ''CleanupComplete'' ''No pending cleanups'' (mt_Generation mt)\<rparr>
      else mt)"

definition reconcileCleanup :: "cleanup_env \<Rightarrow> 'w cleanup_api \<Rightarrow> ctl_target \<Rightarrow> 'w \<Rightarrow> ('w \<times> ctl_target) \<times> cleanup_error option" where
  "reconcileCleanup env api mt w =
     (let removed = removed_sets mt
      in case checkPendingCleanups env api mt w of (w1, mt1) \<Rightarrow>
           (case reconcileOrphans env api mt1 w1 of
              (w2, Inl e) \<Rightarrow> ((w2, mt1), Some e)
            | (w2, Inr mt2) \<Rightarrow>
                (case reconcileRemovedImageSets env api removed mt2 w2 of
                   ((w3, mt3), Some e) \<Rightarrow> ((w3, mt3), Some e)
                 | ((w3, mt3), None) \<Rightarrow> ((w3, cleanup_condition env removed mt3), None))))"

section \<open>The program of the Job\<close>

abbreviation ClientRefreshInterval :: nat where "ClientRefreshInterval \<equiv> 20"

record cleanup_result =
  cr_Deleted :: int
  cr_Skipped :: int
  cr_Failed :: int

datatype run_outcome = LoadFailed error | NilEntry | NotAllDeleted cleanup_result | CleanedUp cleanup_result

record ('r, 'd) run_state =
  rn_client :: 'd
  rn_built :: nat
  rn_count :: nat
  rn_result :: cleanup_result
  rn_registry :: 'r

text \<open>
  The loop of \<open>Run\<close>: \<open>newDeleter n\<close> is the \<open>n\<close>-th client that is built, \<open>del\<close> its \<open>DeleteManifest\<close>. A null entry of the ConfigMap is a nil pointer in Go, and
  reading its state ends the program.
\<close>

fun run_loop :: "(nat \<Rightarrow> 'd) \<Rightarrow> ('d \<Rightarrow> string \<Rightarrow> 'r \<Rightarrow> 'r \<times> (client_error + unit)) \<Rightarrow> loaded_state \<Rightarrow> ('r, 'd) run_state \<Rightarrow> 'r \<times> cleanup_result option" where
  "run_loop newDeleter del [] s = (rn_registry s, Some (rn_result s))"
| "run_loop newDeleter del ((dest, None) # rest) s = (rn_registry s, None)"
| "run_loop newDeleter del ((dest, Some entry) # rest) s =
     (if State entry \<noteq> stateMirrored then
        run_loop newDeleter del rest (s\<lparr>rn_result := (rn_result s)\<lparr>cr_Skipped := cr_Skipped (rn_result s) + 1\<rparr>\<rparr>)
      else
        (let s1 = (if rn_count s > 0 \<and> rn_count s mod ClientRefreshInterval = 0
                   then s\<lparr>rn_client := newDeleter (rn_built s), rn_built := rn_built s + 1\<rparr> else s)
         in case del (rn_client s1) dest (rn_registry s1) of
              (r', Inl _) \<Rightarrow>
                run_loop newDeleter del rest
                  (s1\<lparr>rn_count := rn_count s1 + 1, rn_registry := r', rn_result := (rn_result s1)\<lparr>cr_Failed := cr_Failed (rn_result s1) + 1\<rparr>\<rparr>)
            | (r', Inr _) \<Rightarrow>
                run_loop newDeleter del rest
                  (s1\<lparr>rn_count := rn_count s1 + 1, rn_registry := r', rn_result := (rn_result s1)\<lparr>cr_Deleted := cr_Deleted (rn_result s1) + 1\<rparr>\<rparr>)))"

definition deleteConfigMap :: "'w kube \<Rightarrow> string \<Rightarrow> 'w \<Rightarrow> 'w" where
  "deleteConfigMap k cmName w = fst (kdelete k w cmName)"

definition Run ::
  "'w kube \<Rightarrow> string \<Rightarrow> (nat \<Rightarrow> 'd) \<Rightarrow> ('d \<Rightarrow> string \<Rightarrow> 'r \<Rightarrow> 'r \<times> (client_error + unit)) \<Rightarrow> 'w \<Rightarrow> 'r \<Rightarrow> 'w \<times> 'r \<times> run_outcome" where
  "Run k cmName newDeleter del w r =
     (let res = \<lparr>cr_Deleted = 0, cr_Skipped = 0, cr_Failed = 0\<rparr>
      in case LoadByConfigMapName k w cmName of
           Inl e \<Rightarrow> (w, r, LoadFailed e)
         | Inr st \<Rightarrow>
             if length st = 0 then (deleteConfigMap k cmName w, r, CleanedUp res)
             else (case run_loop newDeleter del st \<lparr>rn_client = newDeleter 0, rn_built = 1, rn_count = 0, rn_result = res, rn_registry = r\<rparr> of
                     (r', None) \<Rightarrow> (w, r', NilEntry)
                   | (r', Some res') \<Rightarrow>
                       if cr_Failed res' > 0 then (w, r', NotAllDeleted res')
                       else (deleteConfigMap k cmName w, r', CleanedUp res')))"

section \<open>Its flags\<close>

record cleanup_options =
  co_ImageSet :: string
  co_Namespace :: string
  co_Registry :: string
  co_Insecure :: bool
  co_ConfigMap :: string

text \<open>Package \<open>flag\<close>: \<open>strconv.ParseBool\<close>, and \<open>parseOne\<close> for the flags of this program.\<close>

definition parse_bool :: "string \<Rightarrow> bool option" where
  "parse_bool s =
     (if s \<in> {''1'', ''t'', ''T'', ''TRUE'', ''true'', ''True''} then Some True
      else if s \<in> {''0'', ''f'', ''F'', ''FALSE'', ''false'', ''False''} then Some False
      else None)"

definition set_flag :: "string \<Rightarrow> string \<Rightarrow> cleanup_options \<Rightarrow> cleanup_options option" where
  "set_flag name v o' =
     (if name = ''imageset'' then Some (o'\<lparr>co_ImageSet := v\<rparr>)
      else if name = ''namespace'' then Some (o'\<lparr>co_Namespace := v\<rparr>)
      else if name = ''registry'' then Some (o'\<lparr>co_Registry := v\<rparr>)
      else if name = ''configmap'' then Some (o'\<lparr>co_ConfigMap := v\<rparr>)
      else if name = ''insecure'' then map_option (\<lambda>b. o'\<lparr>co_Insecure := b\<rparr>) (parse_bool v)
      else None)"

text \<open>What \<open>parseOne\<close> takes an argument for: the end of the flags, a flag (its name, and its value if it is given after \<open>=\<close>), or bad syntax.\<close>

datatype flag_token = EndOfFlags | Flag string "string option" | BadFlag

definition flag_token :: "string \<Rightarrow> flag_token" where
  "flag_token s =
     (if length s < 2 \<or> hd s \<noteq> CHR ''-'' then EndOfFlags
      else if s = ''--'' then EndOfFlags
      else (let name = (if hasPrefix s ''--'' then drop 2 s else drop 1 s)
            in if name = [] \<or> hd name = CHR ''-'' \<or> hd name = CHR ''='' then BadFlag
               else (case str_index name ''='' of
                       Some i \<Rightarrow> Flag (take i name) (Some (drop (i + 1) name))
                     | None \<Rightarrow> Flag name None)))"

function parse_args :: "string list \<Rightarrow> cleanup_options \<Rightarrow> cleanup_options option" where
  "parse_args [] o' = Some o'"
| "parse_args (s # args) o' =
     (case flag_token s of
        EndOfFlags \<Rightarrow> Some o'
      | BadFlag \<Rightarrow> None
      | Flag name (Some v) \<Rightarrow> Option.bind (set_flag name v o') (parse_args args)
      | Flag name None \<Rightarrow>
          if name = ''insecure'' then Option.bind (set_flag name ''true'' o') (parse_args args)
          else (case args of
                  [] \<Rightarrow> None
                | v # args' \<Rightarrow> Option.bind (set_flag name v o') (parse_args args')))"
  by pat_completeness auto
termination by (relation "measure (\<lambda>(args, _). length args)") auto

definition ParseFlags :: "string list \<Rightarrow> cleanup_options option" where
  "ParseFlags args =
     (case parse_args args \<lparr>co_ImageSet = [], co_Namespace = [], co_Registry = [], co_Insecure = False, co_ConfigMap = []\<rparr> of
        None \<Rightarrow> None
      | Some o' \<Rightarrow>
          if co_Namespace o' = [] \<or> co_Registry o' = [] then None
          else if co_ImageSet o' = [] \<and> co_ConfigMap o' = [] then None
          else Some (if co_ConfigMap o' = [] then o'\<lparr>co_ConfigMap := ConfigMapName (co_ImageSet o')\<rparr> else o'))"

text \<open>\<open>run\<close>: the exit code; \<open>mk\<close> builds a library client, \<open>dockerConfig\<close> is \<open>$DOCKER_CONFIG\<close>.\<close>

definition run_cleanup ::
  "(reg_settings \<Rightarrow> ('r, 'm, 'd) reg_client) \<Rightarrow> 'r client_env \<Rightarrow> string \<Rightarrow> 'w kube \<Rightarrow> cleanup_options \<Rightarrow> 'w \<Rightarrow> 'r \<Rightarrow> 'w \<times> 'r \<times> nat" where
  "run_cleanup mk cl dockerConfig k o' w r =
     (let newDeleter = (case NewMirrorClient (co_Insecure o') (co_Registry o') of
                          (insecureHosts, destHost) \<Rightarrow> NewMirrorClient_reg mk insecureHosts dockerConfig [destHost])
      in case Run k (co_ConfigMap o') (\<lambda>_. newDeleter) (DeleteManifest cl) w r of
           (w', r', CleanedUp _) \<Rightarrow> (w', r', 0)
         | (w', r', NilEntry) \<Rightarrow> (w', r', 2)
         | (w', r', _) \<Rightarrow> (w', r', 1))"

definition Main_cleanup ::
  "(reg_settings \<Rightarrow> ('r, 'm, 'd) reg_client) \<Rightarrow> 'r client_env \<Rightarrow> string \<Rightarrow> string + 'w kube \<Rightarrow> string list \<Rightarrow> 'w \<Rightarrow> 'r \<Rightarrow> 'w \<times> 'r \<times> nat" where
  "Main_cleanup mk cl dockerConfig cluster args w r =
     (case ParseFlags args of
        None \<Rightarrow> (w, r, 1)
      | Some o' \<Rightarrow> (case cluster of Inl _ \<Rightarrow> (w, r, 1) | Inr k \<Rightarrow> run_cleanup mk cl dockerConfig k o' w r))"

section \<open>The program reads the arguments of the Job\<close>

lemma cleanup_flags [simp]:
  "flag_token ''--configmap'' = Flag ''configmap'' None" "flag_token ''--namespace'' = Flag ''namespace'' None"
  "flag_token ''--registry'' = Flag ''registry'' None" "flag_token ''--insecure'' = Flag ''insecure'' None"
  by code_simp+

text \<open>
  The cleanup program reads exactly what the Job was given: whatever the names of the snapshot, the namespace and the registry are, the arguments of the
  container parse back to them, and to the insecure flag of the target.
\<close>

theorem cleanup_args_roundtrip:
  assumes "snapshotCMName \<noteq> []" and "mt_Namespace mt \<noteq> []" and "mt_Registry mt \<noteq> []"
  shows "ParseFlags (tl (kj_Args (cleanup_job_spec env mt imageSetName snapshotCMName))) =
     Some \<lparr>co_ImageSet = [], co_Namespace = mt_Namespace mt, co_Registry = mt_Registry mt, co_Insecure = mt_Insecure mt, co_ConfigMap = snapshotCMName\<rparr>"
  using assms by (simp add: cleanup_job_spec_def cleanup_args_def Let_def ParseFlags_def set_flag_def parse_bool_def)

section \<open>What the code relies on\<close>

text \<open>A write, failed or not, affects the object it names only; ConfigMaps and Jobs are stored apart; a Job that was created is the one that is found.\<close>

definition cleanup_laws :: "'w cleanup_api \<Rightarrow> bool" where
  "cleanup_laws api \<longleftrightarrow>
     kube_ok (ka_kube api) \<and>
     (\<forall>w cm n. n \<noteq> cm_Name cm \<longrightarrow> kget (ka_kube api) (fst (kcreate (ka_kube api) w cm)) n = kget (ka_kube api) w n) \<and>
     (\<forall>w cm n. n \<noteq> cm_Name cm \<longrightarrow> kget (ka_kube api) (fst (kupdate (ka_kube api) w cm)) n = kget (ka_kube api) w n) \<and>
     (\<forall>w c n. n \<noteq> c \<longrightarrow> kget (ka_kube api) (fst (kdelete (ka_kube api) w c)) n = kget (ka_kube api) w n) \<and>
     (\<forall>w j n. kget (ka_kube api) (fst (ka_job_create api w j)) n = kget (ka_kube api) w n) \<and>
     (\<forall>w j n. kget (ka_kube api) (fst (ka_job_delete api w j)) n = kget (ka_kube api) w n) \<and>
     (\<forall>w cm n. ka_job_get api (fst (kcreate (ka_kube api) w cm)) n = ka_job_get api w n) \<and>
     (\<forall>w cm n. ka_job_get api (fst (kupdate (ka_kube api) w cm)) n = ka_job_get api w n) \<and>
     (\<forall>w c n. ka_job_get api (fst (kdelete (ka_kube api) w c)) n = ka_job_get api w n) \<and>
     (\<forall>w j. snd (ka_job_create api w j) = None \<longrightarrow> ka_job_get api (fst (ka_job_create api w j)) (kj_Name j) = Inr j)"

definition hex_hash :: "(string \<Rightarrow> string) \<Rightarrow> bool" where
  "hex_hash sha \<longleftrightarrow> (\<forall>s. 8 \<le> length (sha s) \<and> (\<forall>c \<in> set (sha s). hex_char c))"

lemma hashed_name_last:
  assumes "hex_hash sha"
  shows "hex_char (last (hashed_name sha m t i body))"
proof -
  let ?s = "take 8 (sha (t @ [CHR 0x00] @ i))"
  have "?s \<noteq> []" using assms unfolding hex_hash_def by (metis list.size(3) not_numeral_le_zero take_eq_Nil zero_neq_numeral)
  then have "last (hashed_name sha m t i body) = last ?s" and "last ?s \<in> set ?s" by (auto simp: hashed_name_def Let_def)
  moreover have "last ?s \<in> set (sha (t @ [CHR 0x00] @ i))" using calculation(2) by (meson in_set_takeD)
  ultimately show ?thesis using assms unfolding hex_hash_def by metis
qed

lemma snapshot_name_apart:
  assumes "hex_hash sha"
  shows "cleanupSnapshotCMName sha t i \<noteq> ConfigMapName n" and "cleanupSnapshotCMName sha t i \<noteq> IndexConfigMapName n"
    and "cleanupSnapshotCMName sha t i \<noteq> OrphansConfigMapName n"
proof -
  have h: "hex_char (last (cleanupSnapshotCMName sha t i))"
    unfolding cleanupSnapshotCMName_def by (rule hashed_name_last [OF assms])
  have "\<not> hex_char (last (ConfigMapName n))" "\<not> hex_char (last (IndexConfigMapName n))" "\<not> hex_char (last (OrphansConfigMapName n))"
    by (simp_all add: ConfigMapName_def IndexConfigMapName_def OrphansConfigMapName_def hex_char_def)
  with h show "cleanupSnapshotCMName sha t i \<noteq> ConfigMapName n" "cleanupSnapshotCMName sha t i \<noteq> IndexConfigMapName n"
    "cleanupSnapshotCMName sha t i \<noteq> OrphansConfigMapName n" by metis+
qed

lemma write_configmap_frame:
  assumes "cleanup_laws api"
  shows "n \<noteq> cm_Name cm \<Longrightarrow> kget (ka_kube api) (fst (write_configmap (ka_kube api) w cm ow)) n = kget (ka_kube api) w n"
    and "ka_job_get api (fst (write_configmap (ka_kube api) w cm ow)) j = ka_job_get api w j"
proof -
  let ?P = "\<lambda>w'. (n \<noteq> cm_Name cm \<longrightarrow> kget (ka_kube api) w' n = kget (ka_kube api) w n) \<and> ka_job_get api w' j = ka_job_get api w j"
  have c: "?P (fst (kcreate (ka_kube api) w cm'))" "?P (fst (kupdate (ka_kube api) w (cm'\<lparr>cm_ResourceVersion := v\<rparr>)))"
    if "with_owner ow cm = Inr cm'" for cm' v
    using assms with_owner_fields(1) [OF that] by (auto simp: cleanup_laws_def)
  have "?P (fst (write_configmap (ka_kube api) w cm ow))"
  proof (cases "with_owner ow cm")
    case (Inr cm')
    from c [OF Inr] show ?thesis
      by (cases "kget (ka_kube api) w (cm_Name cm)") (auto simp: write_configmap_def Let_def Inr case_prod_unfold split: kube_error.splits)
  qed (simp add: write_configmap_def Let_def)
  then show "n \<noteq> cm_Name cm \<Longrightarrow> kget (ka_kube api) (fst (write_configmap (ka_kube api) w cm ow)) n = kget (ka_kube api) w n"
    and "ka_job_get api (fst (write_configmap (ka_kube api) w cm ow)) j = ka_job_get api w j" by blast+
qed

lemma SaveRaw_frame:
  assumes "cleanup_laws api"
  shows "n \<noteq> cmName \<Longrightarrow> kget (ka_kube api) (fst (SaveRaw tj (ka_kube api) w cmName st ow)) n = kget (ka_kube api) w n"
    and "ka_job_get api (fst (SaveRaw tj (ka_kube api) w cmName st ow)) j = ka_job_get api w j"
  using write_configmap_frame [OF assms] by (simp_all add: SaveRaw_def saveRaw_def Let_def)

lemma delete_cm_frame:
  assumes "cleanup_laws api"
  shows "n \<noteq> c \<Longrightarrow> kget (ka_kube api) (delete_cm api c w) n = kget (ka_kube api) w n"
    and "ka_job_get api (delete_cm api c w) j = ka_job_get api w j"
  using assms by (simp_all add: delete_cm_def cleanup_laws_def)

lemma SaveIndex_frame:
  assumes "cleanup_laws api"
  shows "n \<noteq> IndexConfigMapName t \<Longrightarrow> kget (ka_kube api) (fst (SaveIndex (ka_kube api) w t idx ow)) n = kget (ka_kube api) w n"
    and "ka_job_get api (fst (SaveIndex (ka_kube api) w t idx ow)) j = ka_job_get api w j"
  using write_configmap_frame [OF assms] delete_cm_frame [OF assms, unfolded delete_cm_def]
  by (auto simp: SaveIndex_def Let_def split: prod.splits option.splits kube_error.splits dest!: arg_cong [where f = fst] sym [of "(_, _)" "kdelete _ _ _"])

lemma createCleanupJob_frame:
  assumes "cleanup_laws api"
  shows "kget (ka_kube api) (fst (createCleanupJob env api mt i s w)) n = kget (ka_kube api) w n"
  using assms by (auto simp: createCleanupJob_def Let_def cleanup_laws_def split: sum.splits prod.splits option.splits dest!: arg_cong [where f = fst])

section \<open>What is live is needed\<close>

lemma add_live_sets:
  "set (li_dests (add_live d l)) = insert d (set (li_dests l))"
  "set (li_digests (add_live d l)) = (if snd (repoAndDigest d) \<noteq> [] then insert (fst (repoAndDigest d) @ ''@'' @ snd (repoAndDigest d)) (set (li_digests l)) else set (li_digests l))"
  by (simp_all add: add_live_def Let_def case_prod_unfold)

definition covers :: "live_images \<Rightarrow> string \<Rightarrow> bool" where
  "covers l d \<longleftrightarrow> d \<in> set (li_dests l) \<and>
     (snd (repoAndDigest d) \<noteq> [] \<longrightarrow> fst (repoAndDigest d) @ ''@'' @ snd (repoAndDigest d) \<in> set (li_digests l))"

lemma covers_mono: "covers l d \<Longrightarrow> covers (add_live d' l) d"
  by (auto simp: covers_def add_live_sets)

lemma covers_fold_mono: "covers l d \<Longrightarrow> covers (fold (\<lambda>(dest, _). add_live dest) st l) d"
  by (induction st arbitrary: l) (auto simp: covers_mono)

lemma covers_fold: "d \<in> fst ` set st \<Longrightarrow> covers (fold (\<lambda>(dest, _). add_live dest) st l) d"
proof (induction st arbitrary: l)
  case (Cons x st)
  have "covers (add_live (fst x) l) (fst x)" by (simp add: covers_def add_live_sets)
  with Cons covers_fold_mono show ?case by (cases "fst x = d") (auto simp: case_prod_unfold)
qed simp

lemma live_loop_mono: "live_loop k w ex ns l = Inr live \<Longrightarrow> covers l d \<Longrightarrow> covers live d"
  by (induction k w ex ns l rule: live_loop.induct) (auto simp: covers_fold_mono split: if_splits sum.splits)

lemma live_loop_covers:
  assumes "live_loop k w ex ns l = Inr live" and "n \<in> set ns" and "n \<noteq> ex" and "Load k w n = Inr st" and "d \<in> fst ` set st"
  shows "covers live d"
  using assms(1,2)
proof (induction ns arbitrary: l)
  case (Cons m ns)
  show ?case
  proof (cases "m = n")
    case True
    with Cons.prems assms(3,4) have "live_loop k w ex ns (fold (\<lambda>(dest, _). add_live dest) st l) = Inr live" by simp
    from live_loop_mono [OF this covers_fold [OF assms(5)]] show ?thesis .
  next
    case False
    with Cons show ?thesis by (auto split: if_splits sum.splits)
  qed
qed simp

lemma live_covers:
  assumes "liveDestinations k w mt ex = Inr live" and "n \<in> set (mt_ImageSets mt)" and "n \<noteq> ex" and "Load k w n = Inr st" and "d \<in> fst ` set st"
  shows "covers live d"
  using live_loop_covers [OF _ assms(2-5)] assms(1) by (simp add: liveDestinations_def)

text \<open>A destination is spared by a cleanup if it is live itself, or names by digest a manifest that a live destination of the same repository names.\<close>

definition same_manifest :: "string \<Rightarrow> string \<Rightarrow> bool" where
  "same_manifest dest d \<longleftrightarrow> contains dest ''@sha256:'' \<and> snd (repoAndDigest dest) \<noteq> [] \<and> repoAndDigest dest = repoAndDigest d"

lemma covers_needs: "covers l d \<Longrightarrow> dest = d \<or> same_manifest dest d \<Longrightarrow> live_needs l dest"
  by (auto simp: covers_def live_needs_def same_manifest_def case_prod_unfold)

section \<open>What is put up for deletion\<close>

lemma createCleanupJob_starts:
  assumes "cleanup_laws api" and "createCleanupJob env api mt i s w = (w', None)"
  shows "\<exists>job. ka_job_get api w' (cleanupJobName (ke_sha256hex env) (mt_Name mt) i) = Inr job \<and>
     (job = cleanup_job_spec env mt i s \<or> ka_job_get api w (cleanupJobName (ke_sha256hex env) (mt_Name mt) i) = Inr job \<and> kj_Succeeded job \<le> 0 \<and> kj_Failed job \<le> 0)"
proof (cases "ka_job_get api w (cleanupJobName (ke_sha256hex env) (mt_Name mt) i)")
  case (Inr existing)
  with assms(2) show ?thesis by (auto simp: createCleanupJob_def Let_def split: if_splits prod.splits option.splits)
next
  case (Inl e)
  with assms(2) have "ka_job_create api w (cleanup_job_spec env mt i s) = (w', None)"
    by (auto simp: createCleanupJob_def Let_def split: prod.splits)
  moreover have "kj_Name (cleanup_job_spec env mt i s) = cleanupJobName (ke_sha256hex env) (mt_Name mt) i"
    by (simp add: cleanup_job_spec_def Let_def)
  ultimately show ?thesis using assms(1) unfolding cleanup_laws_def by (metis fst_conv snd_conv)
qed

lemma commit_removal_frame:
  assumes "cleanup_laws api"
  shows "n \<noteq> IndexConfigMapName (mt_Name mt) \<Longrightarrow> n \<noteq> ConfigMapName isName \<Longrightarrow>
      kget (ka_kube api) (commit_removal env api mt isName idx shared w) n = kget (ka_kube api) w n"
    and "ka_job_get api (commit_removal env api mt isName idx shared w) j = ka_job_get api w j"
  using SaveIndex_frame [OF assms] delete_cm_frame [OF assms] by (simp_all add: commit_removal_def Let_def)

lemma SaveRaw_loads:
  assumes "kube_ok k" and "SaveRaw tj k w cmName st ow = (w', None)"
  shows "LoadByConfigMapName k w' cmName = Inr (reload tj st)"
  using saveRaw_ok(1) [OF assms(1)] assms(2) by (fastforce simp: SaveRaw_def LoadByConfigMapName_def)

lemma laws_kube_ok: "cleanup_laws api \<Longrightarrow> kube_ok (ka_kube api)"
  by (simp add: cleanup_laws_def)

definition exclusive_of :: "shared_index \<Rightarrow> live_images \<Rightarrow> loaded_state \<Rightarrow> loaded_state" where
  "exclusive_of idx live st = filter (\<lambda>(dest, _). \<not> (IsShared idx dest \<or> live_needs live dest)) st"

lemma partition_cases:
  assumes "cleanup_laws api" and "hex_hash (ke_sha256hex env)" and "partitionAndCreateCleanupJob env api mt isName w = (w', Inr created)"
  obtains st idx live where "Load (ka_kube api) w isName = Inr st" "LoadIndex (ka_kube api) w (mt_Name mt) = Inr idx"
    "liveDestinations (ka_kube api) w mt isName = Inr live" "created \<longleftrightarrow> exclusive_of idx live st \<noteq> []"
    "created \<Longrightarrow> LoadByConfigMapName (ka_kube api) w' (cleanupSnapshotCMName (ke_sha256hex env) (mt_Name mt) isName) =
        Inr (reload (ke_time_json env) (exclusive_of idx live st))"
    "created \<Longrightarrow> \<exists>job. ka_job_get api w' (cleanupJobName (ke_sha256hex env) (mt_Name mt) isName) = Inr job"
proof -
  let ?k = "ka_kube api" and ?snap = "cleanupSnapshotCMName (ke_sha256hex env) (mt_Name mt) isName"
  obtain st where st: "Load ?k w isName = Inr st" using assms(3) by (cases "Load ?k w isName") (auto simp: partitionAndCreateCleanupJob_def)
  obtain idx where idx: "LoadIndex ?k w (mt_Name mt) = Inr idx"
    using assms(3) st by (cases "LoadIndex ?k w (mt_Name mt)") (auto simp: partitionAndCreateCleanupJob_def)
  obtain live where live: "liveDestinations ?k w mt isName = Inr live"
    using assms(3) st idx by (cases "liveDestinations ?k w mt isName") (auto simp: partitionAndCreateCleanupJob_def)
  define ex where "ex = exclusive_of idx live st"
  define sh where "sh = filter (\<lambda>dest. IsShared idx dest \<or> live_needs live dest) (map fst st)"
  have run: "(if length ex = 0 then (commit_removal env api mt isName idx sh w, Inr False)
      else case SaveRaw (ke_time_json env) ?k w ?snap ex (ke_owner env) of
             (w1, Some e) \<Rightarrow> (w1, Inl (SnapshotFailed isName e))
           | (w1, None) \<Rightarrow> (case createCleanupJob env api mt isName ?snap w1 of
               (w2, Some f) \<Rightarrow> (if contains (job_fail_text env f) ''stale cleanup job deleted'' then w2 else delete_cm api ?snap w2, Inl (CleanupJobFailed isName f))
             | (w2, None) \<Rightarrow> (commit_removal env api mt isName idx sh w2, Inr True))) = (w', Inr created)"
    using assms(3) st idx live by (simp only: partitionAndCreateCleanupJob_def Let_def ex_def sh_def exclusive_of_def sum.case)
  show thesis
  proof (cases "ex = []")
    case True
    with run have "\<not> created" by simp
    with True that [OF st idx live] show thesis by (simp add: ex_def)
  next
    case False
    then obtain w1 w2 where w1: "SaveRaw (ke_time_json env) ?k w ?snap ex (ke_owner env) = (w1, None)"
      and w2: "createCleanupJob env api mt isName ?snap w1 = (w2, None)" and w': "w' = commit_removal env api mt isName idx sh w2" and created
      using run by (auto split: prod.splits option.splits)
    have "LoadByConfigMapName ?k w1 ?snap = Inr (reload (ke_time_json env) ex)" by (rule SaveRaw_loads [OF laws_kube_ok [OF assms(1)] w1])
    moreover have "kget ?k w' ?snap = kget ?k w1 ?snap"
      using commit_removal_frame(1) [OF assms(1)] snapshot_name_apart [OF assms(2)] createCleanupJob_frame [OF assms(1), of env mt isName ?snap w1 ?snap] w2 w' by simp
    ultimately have load: "LoadByConfigMapName ?k w' ?snap = Inr (reload (ke_time_json env) ex)" by (simp add: LoadByConfigMapName_def)
    have job: "\<exists>job. ka_job_get api w' (cleanupJobName (ke_sha256hex env) (mt_Name mt) isName) = Inr job"
      using createCleanupJob_starts [OF assms(1) w2] commit_removal_frame(2) [OF assms(1)] w' by auto
    show thesis by (rule that [OF st idx live]) (use \<open>created\<close> False load job in \<open>simp_all add: ex_def\<close>)
  qed
qed

text \<open>
  Removing an ImageSet puts up for deletion exactly the images no ImageSet that stays needs: when a cleanup Job exists for it, its snapshot holds the entries
  of the removed ImageSet that the shared index does not list and that no remaining ImageSet needs, and so no destination a remaining ImageSet holds, nor
  (by digest) a manifest such a destination names in the same repository. A Job is started exactly when something is left to delete.
\<close>

theorem removal_deletes_exclusive_images:
  assumes "cleanup_laws api" and "hex_hash (ke_sha256hex env)" and "partitionAndCreateCleanupJob env api mt isName w = (w', Inr created)"
  shows "\<exists>st idx live. Load (ka_kube api) w isName = Inr st \<and> LoadIndex (ka_kube api) w (mt_Name mt) = Inr idx \<and>
     liveDestinations (ka_kube api) w mt isName = Inr live \<and> (created \<longleftrightarrow> exclusive_of idx live st \<noteq> []) \<and>
     (created \<longrightarrow> LoadByConfigMapName (ka_kube api) w' (cleanupSnapshotCMName (ke_sha256hex env) (mt_Name mt) isName) =
        Inr (reload (ke_time_json env) (exclusive_of idx live st)) \<and>
        (\<exists>job. ka_job_get api w' (cleanupJobName (ke_sha256hex env) (mt_Name mt) isName) = Inr job)) \<and>
     (\<forall>n st' d d'. n \<in> set (mt_ImageSets mt) \<longrightarrow> n \<noteq> isName \<longrightarrow> Load (ka_kube api) w n = Inr st' \<longrightarrow> d' \<in> fst ` set st' \<longrightarrow>
        d \<in> fst ` set (exclusive_of idx live st) \<longrightarrow> d \<noteq> d' \<and> \<not> same_manifest d d')"
proof -
  obtain st idx live where p: "Load (ka_kube api) w isName = Inr st" "LoadIndex (ka_kube api) w (mt_Name mt) = Inr idx"
    "liveDestinations (ka_kube api) w mt isName = Inr live" "created \<longleftrightarrow> exclusive_of idx live st \<noteq> []"
    "created \<Longrightarrow> LoadByConfigMapName (ka_kube api) w' (cleanupSnapshotCMName (ke_sha256hex env) (mt_Name mt) isName) =
        Inr (reload (ke_time_json env) (exclusive_of idx live st))"
    "created \<Longrightarrow> \<exists>job. ka_job_get api w' (cleanupJobName (ke_sha256hex env) (mt_Name mt) isName) = Inr job"
    using partition_cases [OF assms] by blast
  have "d \<noteq> d' \<and> \<not> same_manifest d d'"
    if "n \<in> set (mt_ImageSets mt)" "n \<noteq> isName" "Load (ka_kube api) w n = Inr st'" "d' \<in> fst ` set st'" "d \<in> fst ` set (exclusive_of idx live st)" for n st' d d'
    using covers_needs [OF live_covers [OF p(3) that(1-4)], of d] that(5) by (auto simp: exclusive_of_def)
  with p show ?thesis by blast
qed

section \<open>What the program deletes\<close>

definition mirrored_dests :: "loaded_state \<Rightarrow> string list" where
  "mirrored_dests st = map fst (filter (\<lambda>(_, e). case e of Some entry \<Rightarrow> State entry = stateMirrored | None \<Rightarrow> False) st)"

text \<open>The reference: the deletions in order, the \<open>i\<close>-th with the client of its group of twenty, and how many of them failed.\<close>

fun delete_seq :: "(nat \<Rightarrow> 'd) \<Rightarrow> ('d \<Rightarrow> string \<Rightarrow> 'r \<Rightarrow> 'r \<times> (client_error + unit)) \<Rightarrow> nat \<Rightarrow> string list \<Rightarrow> 'r \<Rightarrow> 'r \<times> nat" where
  "delete_seq newDeleter del i [] r = (r, 0)"
| "delete_seq newDeleter del i (d # ds) r =
     (case del (newDeleter (i div ClientRefreshInterval)) d r of (r1, res) \<Rightarrow>
        (case delete_seq newDeleter del (Suc i) ds r1 of (r2, n) \<Rightarrow> (r2, if isl res then Suc n else n)))"

lemma mirrored_dests_simps [simp]:
  "mirrored_dests [] = []" "mirrored_dests ((d, None) # st) = mirrored_dests st"
  "mirrored_dests ((d, Some e) # st) = (if State e = stateMirrored then d # mirrored_dests st else mirrored_dests st)"
  by (simp_all add: mirrored_dests_def)

definition result_of :: "cleanup_result \<Rightarrow> loaded_state \<Rightarrow> nat \<Rightarrow> cleanup_result" where
  "result_of res st n =
     \<lparr>cr_Deleted = cr_Deleted res + int (length (mirrored_dests st)) - int n,
      cr_Skipped = cr_Skipped res + int (length st) - int (length (mirrored_dests st)), cr_Failed = cr_Failed res + int n\<rparr>"

lemma group_step:
  fixes i :: nat
  shows "(if i > 0 \<and> i mod 20 = 0 then (i - 1) div 20 + 1 else (i - 1) div 20) = i div 20"
proof (cases "i = 0")
  case False
  then obtain j where "i = Suc j" by (cases i) auto
  then show ?thesis by (simp add: div_Suc)
qed simp

lemma run_loop_spec:
  assumes "None \<notin> snd ` set st" and "rn_client s = newDeleter ((rn_count s - 1) div 20)" and "rn_built s = (rn_count s - 1) div 20 + 1"
  shows "run_loop newDeleter del st s =
     (case delete_seq newDeleter del (rn_count s) (mirrored_dests st) (rn_registry s) of (r', n) \<Rightarrow> (r', Some (result_of (rn_result s) st n)))"
  using assms
proof (induction st arbitrary: s)
  case (Cons x rest)
  obtain dest entry where x: "x = (dest, Some entry)" using Cons.prems(1) by (cases x; cases "snd x") auto
  have nn: "None \<notin> snd ` set rest" using Cons.prems(1) by simp
  show ?case
  proof (cases "State entry = stateMirrored")
    case False
    with Cons.IH [OF nn, of "s\<lparr>rn_result := (rn_result s)\<lparr>cr_Skipped := cr_Skipped (rn_result s) + 1\<rparr>\<rparr>"] Cons.prems(2,3) x
    show ?thesis by (simp add: result_of_def split: prod.splits)
  next
    case True
    define s1 where "s1 = (if rn_count s > 0 \<and> rn_count s mod 20 = 0 then s\<lparr>rn_client := newDeleter (rn_built s), rn_built := rn_built s + 1\<rparr> else s)"
    obtain r' res where d: "del (newDeleter (rn_count s div 20)) dest (rn_registry s) = (r', res)" by force
    have s1: "rn_client s1 = newDeleter (rn_count s div 20)" "rn_built s1 = rn_count s div 20 + 1" "rn_count s1 = rn_count s"
      "rn_registry s1 = rn_registry s" "rn_result s1 = rn_result s"
      using Cons.prems(2,3) group_step [of "rn_count s"] by (auto simp: s1_def split: if_splits)
    show ?thesis
    proof (cases res)
      case (Inl e)
      have "run_loop newDeleter del (x # rest) s =
          run_loop newDeleter del rest (s1\<lparr>rn_count := rn_count s1 + 1, rn_registry := r', rn_result := (rn_result s1)\<lparr>cr_Failed := cr_Failed (rn_result s1) + 1\<rparr>\<rparr>)"
        using True d Inl s1 x by (simp add: s1_def [symmetric] Let_def)
      also have "\<dots> = (case delete_seq newDeleter del (Suc (rn_count s)) (mirrored_dests rest) r' of (r'', n) \<Rightarrow>
          (r'', Some (result_of ((rn_result s)\<lparr>cr_Failed := cr_Failed (rn_result s) + 1\<rparr>) rest n)))"
        by (subst Cons.IH [OF nn]) (simp_all add: s1)
      finally show ?thesis using True d Inl x by (simp add: result_of_def split: prod.splits)
    next
      case (Inr u)
      have "run_loop newDeleter del (x # rest) s =
          run_loop newDeleter del rest (s1\<lparr>rn_count := rn_count s1 + 1, rn_registry := r', rn_result := (rn_result s1)\<lparr>cr_Deleted := cr_Deleted (rn_result s1) + 1\<rparr>\<rparr>)"
        using True d Inr s1 x by (simp add: s1_def [symmetric] Let_def)
      also have "\<dots> = (case delete_seq newDeleter del (Suc (rn_count s)) (mirrored_dests rest) r' of (r'', n) \<Rightarrow>
          (r'', Some (result_of ((rn_result s)\<lparr>cr_Deleted := cr_Deleted (rn_result s) + 1\<rparr>) rest n)))"
        by (subst Cons.IH [OF nn]) (simp_all add: s1)
      finally show ?thesis using True d Inr x by (simp add: result_of_def split: prod.splits)
    qed
  qed
qed (simp_all add: result_of_def)

text \<open>
  The cleanup program does what its snapshot says and nothing else: it deletes exactly the mirrored entries, each once and in order, with a fresh client
  for every twenty of them; it reports how many were deleted, skipped and failed; and it removes the snapshot exactly when no deletion failed, so that a
  retried Job finds what is left.
\<close>

theorem Run_deletes_mirrored_entries:
  assumes "LoadByConfigMapName k w cmName = Inr st" and "None \<notin> snd ` set st"
  shows "Run k cmName newDeleter del w r =
     (case delete_seq newDeleter del 0 (mirrored_dests st) r of (r', n) \<Rightarrow>
        if n = 0 then (deleteConfigMap k cmName w, r', CleanedUp \<lparr>cr_Deleted = int (length (mirrored_dests st)), cr_Skipped = int (length st) - int (length (mirrored_dests st)), cr_Failed = 0\<rparr>)
        else (w, r', NotAllDeleted \<lparr>cr_Deleted = int (length (mirrored_dests st)) - int n, cr_Skipped = int (length st) - int (length (mirrored_dests st)), cr_Failed = int n\<rparr>))"
proof (cases "st = []")
  case False
  obtain r' n where d: "delete_seq newDeleter del 0 (mirrored_dests st) r = (r', n)" by force
  have "run_loop newDeleter del st \<lparr>rn_client = newDeleter 0, rn_built = 1, rn_count = 0, rn_result = \<lparr>cr_Deleted = 0, cr_Skipped = 0, cr_Failed = 0\<rparr>, rn_registry = r\<rparr> =
      (r', Some (result_of \<lparr>cr_Deleted = 0, cr_Skipped = 0, cr_Failed = 0\<rparr> st n))"
    by (subst run_loop_spec [OF assms(2)]) (simp_all add: d)
  with False assms(1) d show ?thesis by (simp add: Run_def result_of_def)
qed (use assms(1) in \<open>simp add: Run_def\<close>)

section \<open>What is live survives\<close>

text \<open>
  What the references of the destinations \<open>D\<close> look like: a digest reference carries its repository and digest, any other reference a tag only, and two different tag
  references name different tags. \<open>base\<close> is the normal form of a repository.
\<close>

definition ref_laws :: "'r client_env \<Rightarrow> (string \<Rightarrow> string) \<Rightarrow> string set \<Rightarrow> bool" where
  "ref_laws cl base D \<longleftrightarrow>
     (\<forall>d \<in> D. \<forall>r. cl_refNew cl d = Inr r \<longrightarrow>
        (if contains d ''@sha256:'' then pl_Digest r = snd (repoAndDigest d) \<and> pl_Digest r \<noteq> [] \<and> pl_Base r = base (fst (repoAndDigest d))
         else pl_Digest r = [] \<and> (snd (repoAndDigest d) \<noteq> [] \<longrightarrow> pl_Base r = base (fst (repoAndDigest d))))) \<and>
     (\<forall>d \<in> D. \<forall>d' \<in> D. \<forall>r r'. cl_refNew cl d = Inr r \<longrightarrow> cl_refNew cl d' = Inr r' \<longrightarrow>
        \<not> contains d ''@sha256:'' \<longrightarrow> \<not> contains d' ''@sha256:'' \<longrightarrow> d \<noteq> d' \<longrightarrow> other_ref r r')"

text \<open>
  What a live destination \<open>d\<close> with reference \<open>r\<close> resolves to: its digest if its name carries one, and if it is a plain tag, none of the digests that \<open>ds\<close> name in its
  repository.
\<close>

definition resolves_as_named :: "('r \<Rightarrow> payload_ref \<Rightarrow> string option) \<Rightarrow> 'r client_env \<Rightarrow> string set \<Rightarrow> 'r \<Rightarrow> string \<Rightarrow> payload_ref \<Rightarrow> bool" where
  "resolves_as_named at cl ds w d r \<longleftrightarrow>
     (if snd (repoAndDigest d) \<noteq> [] then at w r \<in> {None, Some (snd (repoAndDigest d))}
      else (\<forall>d' \<in> ds. \<forall>r'. cl_refNew cl d' = Inr r' \<longrightarrow> pl_Digest r' \<noteq> [] \<longrightarrow> pl_Base r = pl_Base r' \<longrightarrow> at w r \<noteq> Some (pl_Digest r')))"

lemma ref_laws_digest:
  assumes "ref_laws cl base D" and "d \<in> D" and "cl_refNew cl d = Inr r" and "contains d ''@sha256:''"
  shows "pl_Digest r = snd (repoAndDigest d)" and "pl_Digest r \<noteq> []" and "pl_Base r = base (fst (repoAndDigest d))"
proof -
  have "if contains d ''@sha256:'' then pl_Digest r = snd (repoAndDigest d) \<and> pl_Digest r \<noteq> [] \<and> pl_Base r = base (fst (repoAndDigest d))
      else pl_Digest r = [] \<and> (snd (repoAndDigest d) \<noteq> [] \<longrightarrow> pl_Base r = base (fst (repoAndDigest d)))"
    using assms(1-3) unfolding ref_laws_def by blast
  with assms(4) show "pl_Digest r = snd (repoAndDigest d)" "pl_Digest r \<noteq> []" "pl_Base r = base (fst (repoAndDigest d))" by auto
qed

lemma ref_laws_tag:
  assumes "ref_laws cl base D" and "d \<in> D" and "cl_refNew cl d = Inr r" and "\<not> contains d ''@sha256:''"
  shows "pl_Digest r = []" and "snd (repoAndDigest d) \<noteq> [] \<Longrightarrow> pl_Base r = base (fst (repoAndDigest d))"
    and "d' \<in> D \<Longrightarrow> cl_refNew cl d' = Inr r' \<Longrightarrow> \<not> contains d' ''@sha256:'' \<Longrightarrow> d \<noteq> d' \<Longrightarrow> other_ref r r'"
proof -
  have "if contains d ''@sha256:'' then pl_Digest r = snd (repoAndDigest d) \<and> pl_Digest r \<noteq> [] \<and> pl_Base r = base (fst (repoAndDigest d))
      else pl_Digest r = [] \<and> (snd (repoAndDigest d) \<noteq> [] \<longrightarrow> pl_Base r = base (fst (repoAndDigest d)))"
    using assms(1-3) unfolding ref_laws_def by blast
  with assms(4) show "pl_Digest r = []" and "snd (repoAndDigest d) \<noteq> [] \<Longrightarrow> pl_Base r = base (fst (repoAndDigest d))" by simp_all
  show "other_ref r r'" if "d' \<in> D" "cl_refNew cl d' = Inr r'" "\<not> contains d' ''@sha256:''" "d \<noteq> d'"
    using assms that unfolding ref_laws_def by blast
qed

lemma ref_laws_base:
  assumes "ref_laws cl base D" and "d \<in> D" and "cl_refNew cl d = Inr r" and "snd (repoAndDigest d) \<noteq> []"
  shows "pl_Base r = base (fst (repoAndDigest d))"
  using ref_laws_digest(3) [OF assms(1-3)] ref_laws_tag(2) [OF assms(1-3) _ assms(4)] by blast

lemma live_is_spared:
  assumes laws: "ref_laws cl base D" and inj: "inj base" and "dead \<in> D" and "live \<in> D"
    and dead: "cl_refNew cl dead = Inr r" and live: "cl_refNew cl live = Inr r'"
    and apart: "dead \<noteq> live" "\<not> same_manifest dead live" and res: "resolves_as_named at cl ds w live r'" and "dead \<in> ds"
  shows "spared at r w r'"
proof (cases "contains dead ''@sha256:''")
  case False
  note dig = ref_laws_tag(1) [OF laws assms(3) dead False]
  have "other_ref r' r"
  proof (cases "contains live ''@sha256:''")
    case True
    from ref_laws_digest(2) [OF laws assms(4) live True] dig show ?thesis by (auto simp: other_ref_def)
  next
    case tag: False
    from ref_laws_tag(3) [OF laws assms(4) live tag assms(3) dead False] apart(1) show ?thesis by simp
  qed
  with dig show ?thesis by (simp add: spared_def)
next
  case True
  note r = ref_laws_digest [OF laws assms(3) dead True]
  have "at w r' \<noteq> Some (pl_Digest r)" if b: "pl_Base r' = pl_Base r"
  proof (cases "snd (repoAndDigest live) = []")
    case True
    with res have "\<forall>d' \<in> ds. \<forall>rd. cl_refNew cl d' = Inr rd \<longrightarrow> pl_Digest rd \<noteq> [] \<longrightarrow> pl_Base r' = pl_Base rd \<longrightarrow> at w r' \<noteq> Some (pl_Digest rd)"
      by (simp add: resolves_as_named_def)
    with assms(10) dead r(2) b show ?thesis by blast
  next
    case False
    with ref_laws_base [OF laws assms(4) live] b r(3) inj have "fst (repoAndDigest dead) = fst (repoAndDigest live)" by (simp add: inj_eq)
    with apart(2) True r(1,2) have "snd (repoAndDigest dead) \<noteq> snd (repoAndDigest live)"
      by (auto simp: same_manifest_def prod_eq_iff)
    with False res r(1) show ?thesis by (auto simp: resolves_as_named_def)
  qed
  with r(2) show ?thesis by (auto simp: spared_def)
qed

lemma run_loop_keeps:
  assumes "\<forall>i d e v. (d, Some e) \<in> set st \<longrightarrow> I v \<longrightarrow> I (fst (del (newDeleter i) d v))"
    and "\<exists>i. rn_client s = newDeleter i" and "I (rn_registry s)"
  shows "I (fst (run_loop newDeleter del st s))"
  using assms
proof (induction st arbitrary: s)
  case (Cons x rest)
  have rest: "\<forall>i d e v. (d, Some e) \<in> set rest \<longrightarrow> I v \<longrightarrow> I (fst (del (newDeleter i) d v))" using Cons.prems(1) by simp
  show ?case
  proof (cases "\<exists>dest entry. x = (dest, Some entry) \<and> State entry = stateMirrored")
    case False
    with Cons.IH [OF rest] Cons.prems(2,3) show ?thesis by (cases x; cases "snd x") auto
  next
    case True
    then obtain dest entry where x: "x = (dest, Some entry)" and st: "State entry = stateMirrored" by blast
    define s1 where "s1 = (if rn_count s > 0 \<and> rn_count s mod 20 = 0 then s\<lparr>rn_client := newDeleter (rn_built s), rn_built := rn_built s + 1\<rparr> else s)"
    obtain i where i: "rn_client s1 = newDeleter i"
      using Cons.prems(2) by (cases "rn_count s > 0 \<and> rn_count s mod 20 = 0") (auto simp: s1_def)
    obtain r' res where d: "del (rn_client s1) dest (rn_registry s1) = (r', res)" by force
    have "I (rn_registry s1)" using Cons.prems(3) by (simp add: s1_def)
    then have "I (fst (del (newDeleter i) dest (rn_registry s1)))" using Cons.prems(1) x by simp
    then have r': "I r'" using d i by simp
    show ?thesis using i r' st x d by (cases res) (auto simp: s1_def [symmetric] Let_def intro!: Cons.IH [OF rest])
  qed
qed simp

lemma Run_keeps:
  assumes "\<forall>st. LoadByConfigMapName k w cmName = Inr st \<longrightarrow> (\<forall>i d e v. (d, Some e) \<in> set st \<longrightarrow> I v \<longrightarrow> I (fst (del (newDeleter i) d v)))" and "I r"
  shows "I (fst (snd (Run k cmName newDeleter del w r)))"
proof (cases "LoadByConfigMapName k w cmName")
  case (Inr st)
  let ?s = "\<lparr>rn_client = newDeleter 0, rn_built = 1, rn_count = 0, rn_result = \<lparr>cr_Deleted = 0, cr_Skipped = 0, cr_Failed = 0\<rparr>, rn_registry = r\<rparr>"
  have all: "\<forall>i d e v. (d, Some e) \<in> set st \<longrightarrow> I v \<longrightarrow> I (fst (del (newDeleter i) d v))" using assms(1) Inr by metis
  have "I (fst (run_loop newDeleter del st ?s))" by (rule run_loop_keeps [where I = I and del = del and newDeleter = newDeleter, OF all]) (auto simp: assms(2))
  moreover obtain r' o' where "run_loop newDeleter del st ?s = (r', o')" by force
  ultimately show ?thesis using Inr assms(2) by (cases o') (simp_all add: Run_def Let_def)
qed (simp add: Run_def assms(2))

lemma resolves_cong: "at v r = at w r \<Longrightarrow> resolves_as_named at cl ds w d r \<Longrightarrow> resolves_as_named at cl ds v d r"
  by (simp only: resolves_as_named_def)

lemma cleanup_spares_live:
  assumes "both_clients (deletes_ok at) c" and "ref_laws cl base D" and "inj base" and "LoadByConfigMapName k w cmName = Inr st"
    and "fst ` set st \<subseteq> D" and "live \<in> D" and "cl_refNew cl live = Inr r'"
    and "\<forall>d \<in> fst ` set st. d \<noteq> live \<and> \<not> same_manifest d live" and "resolves_as_named at cl (fst ` set st) r live r'"
  shows "at (fst (snd (Run k cmName (\<lambda>_. c) (DeleteManifest cl) w r))) r' = at r r'"
proof (rule Run_keeps [where I = "\<lambda>v. at v r' = at r r'"])
  have "at (fst (DeleteManifest cl c d v)) r' = at r r'" if "(d, Some e) \<in> set st" "at v r' = at r r'" for d e v
  proof (cases "cl_refNew cl d")
    case (Inl e)
    then show ?thesis using that(2)
      by (auto simp: DeleteManifest_def withFallback_def deleteManifestWith_def split: option.splits)
  next
    case (Inr rd)
    have d: "d \<in> fst ` set st" using that(1) by force
    with assms(5,8) have *: "d \<in> D" "d \<noteq> live" "\<not> same_manifest d live" by blast+
    from live_is_spared [OF assms(2,3) *(1) assms(6) Inr assms(7) *(2,3) resolves_cong [OF that(2) assms(9)] d]
    have "spared at rd v r'" .
    from DeleteManifest_frame [OF assms(1) Inr this] that(2) show ?thesis by simp
  qed
  with assms(4) show "\<forall>st'. LoadByConfigMapName k w cmName = Inr st' \<longrightarrow>
      (\<forall>i d e v. (d, Some e) \<in> set st' \<longrightarrow> at v r' = at r r' \<longrightarrow> at (fst (DeleteManifest cl c d v)) r' = at r r')" by simp
qed simp

text \<open>
  Property C13. From the spec to the registry: when an ImageSet is removed and the cleanup Job has run on the snapshot made for it, everything the remaining ImageSets
  hold still resolves to what it resolved to before. The conditions are on the registry (a deletion affects what it names) and on names: tags derived from a
  digest point to it, and no plain tag of a remaining ImageSet points to a manifest that is deleted by digest, which the code cannot see.
\<close>

theorem removal_spares_remaining_images:
  assumes "cleanup_laws api" and "hex_hash (ke_sha256hex env)" and "partitionAndCreateCleanupJob env api mt isName w = (w1, Inr True)"
    and "n \<in> set (mt_ImageSets mt)" and "n \<noteq> isName" and "Load (ka_kube api) w n = Inr st" and "live \<in> fst ` set st"
    and "both_clients (deletes_ok at) c" and "inj base" and "cl_refNew cl live = Inr ref"
    and "LoadByConfigMapName (ka_kube api) w1 (cleanupSnapshotCMName (ke_sha256hex env) (mt_Name mt) isName) = Inr snap"
    and "ref_laws cl base (insert live (fst ` set snap))" and "resolves_as_named at cl (fst ` set snap) r live ref"
  shows "at (fst (snd (Run (ka_kube api) (cleanupSnapshotCMName (ke_sha256hex env) (mt_Name mt) isName) (\<lambda>_. c) (DeleteManifest cl) w1 r))) ref = at r ref"
proof -
  obtain idx livs st0 where livs: "liveDestinations (ka_kube api) w mt isName = Inr livs"
    and snap: "snap = reload (ke_time_json env) (exclusive_of idx livs st0)"
    using partition_cases [OF assms(1-3)] assms(11) by (metis sum.inject(2))
  have keys: "fst ` set snap = fst ` set (exclusive_of idx livs st0)"
    by (force simp: snap reload_def image_image case_prod_unfold)
  have "\<forall>d \<in> fst ` set snap. d \<noteq> live \<and> \<not> same_manifest d live"
    using covers_needs [OF live_covers [OF livs assms(4-7)]] by (auto simp: keys exclusive_of_def)
  from cleanup_spares_live [OF assms(8,12,9,11) _ _ assms(10) this assms(13)] show ?thesis by blast
qed

section \<open>No deletion unless it is asked for\<close>

lemma reconcileOrphans_no_delete:
  assumes "cleanup_laws api" and "\<not> wants_delete mt" and "reconcileOrphans env api mt w = (w', res)"
  shows "ka_job_get api w' j = ka_job_get api w j" and "n \<noteq> OrphansConfigMapName (mt_Name mt) \<Longrightarrow> kget (ka_kube api) w' n = kget (ka_kube api) w n"
    and "res = Inr mt' \<Longrightarrow> mt' = mt"
  using assms(2,3) delete_cm_frame [OF assms(1)] by (auto simp: reconcileOrphans_def Let_def split: sum.splits if_splits)

text \<open>
  Property C19. Deletion is opt-in: while the target does not carry the cleanup policy \<open>Delete\<close> and no cleanup is pending, a pass starts and deletes no Job, changes no
  ConfigMap but the one of the pending orphans, and leaves the list of pending cleanups empty, whatever was removed from the spec.
\<close>

theorem no_cleanup_without_policy:
  assumes "cleanup_laws api" and "\<not> wants_delete mt" and "mt_PendingCleanup mt = []" and "reconcileCleanup env api mt w = ((w', mt'), res)"
  shows "ka_job_get api w' j = ka_job_get api w j \<and> (n \<noteq> OrphansConfigMapName (mt_Name mt) \<longrightarrow> kget (ka_kube api) w' n = kget (ka_kube api) w n) \<and>
     mt_PendingCleanup mt' = []"
proof -
  have mt: "mt\<lparr>mt_PendingCleanup := []\<rparr> = mt" using assms(3) by simp
  obtain w2 r2 where o: "reconcileOrphans env api mt w = (w2, r2)" by force
  have c: "checkPendingCleanups env api mt w = (w, mt)" using assms(3) mt by (simp add: checkPendingCleanups_def)
  show ?thesis
  proof (cases r2)
    case (Inl e)
    with assms(3,4) c o have "w' = w2" "mt' = mt" by (simp_all add: reconcileCleanup_def)
    with reconcileOrphans_no_delete [OF assms(1,2) o] assms(3) show ?thesis by simp
  next
    case (Inr mt2)
    have mt2: "mt2 = mt" using reconcileOrphans_no_delete(3) [OF assms(1,2) o Inr] .
    with assms(2,4) c o Inr have "w' = w2" "mt' = cleanup_condition env (removed_sets mt) mt"
      by (auto simp: reconcileCleanup_def reconcileRemovedImageSets_def Let_def split: if_splits)
    with reconcileOrphans_no_delete(1,2) [OF assms(1,2) o] assms(3) show ?thesis by (simp add: cleanup_condition_def)
  qed
qed

section \<open>A cluster in memory\<close>

record cleanup_world =
  cw_cms :: "(string, configmap) gomap"
  cw_jobs :: "(string, cleanup_job) gomap"

definition cw_lift :: "((string, configmap) gomap \<Rightarrow> (string, configmap) gomap \<times> kube_error option) \<Rightarrow> 'a cleanup_world_scheme \<Rightarrow> 'a cleanup_world_scheme \<times> kube_error option" where
  "cw_lift f w = (case f (cw_cms w) of (m, e) \<Rightarrow> (w\<lparr>cw_cms := m\<rparr>, e))"

definition mem_cleanup :: "'a cleanup_world_scheme cleanup_api" where
  "mem_cleanup =
     \<lparr>ka_kube = \<lparr>kget = (\<lambda>w n. mem_get (cw_cms w) n), kcreate = (\<lambda>w cm. cw_lift (\<lambda>m. mem_write m cm) w),
                 kupdate = (\<lambda>w cm. cw_lift (\<lambda>m. mem_write m cm) w), kdelete = (\<lambda>w n. cw_lift (\<lambda>m. mem_delete m n) w)\<rparr>,
      ka_job_get = (\<lambda>w n. case mget (cw_jobs w) n of Some j \<Rightarrow> Inr j | None \<Rightarrow> Inl NotFound),
      ka_job_create = (\<lambda>w j. (w\<lparr>cw_jobs := mput (kj_Name j) j (cw_jobs w)\<rparr>, None)),
      ka_job_delete = (\<lambda>w n. (w\<lparr>cw_jobs := mdel n (cw_jobs w)\<rparr>, None))\<rparr>"

lemma mem_get_simps:
  "mem_get (fst (mem_write m cm)) n = (if n = cm_Name cm then Inr (cm\<lparr>cm_ResourceVersion := Suc (cm_ResourceVersion cm)\<rparr>) else mem_get m n)"
  "mem_get (fst (mem_delete m n')) n = (if n = n' then Inl NotFound else mem_get m n)"
  by (simp_all add: mem_get_def mem_write_def mem_delete_def)

lemma mem_cleanup_ops:
  "kget (ka_kube mem_cleanup) w n = mem_get (cw_cms w) n"
  "kcreate (ka_kube mem_cleanup) w cm = (w\<lparr>cw_cms := fst (mem_write (cw_cms w) cm)\<rparr>, None)"
  "kupdate (ka_kube mem_cleanup) w cm = (w\<lparr>cw_cms := fst (mem_write (cw_cms w) cm)\<rparr>, None)"
  "kdelete (ka_kube mem_cleanup) w n = (w\<lparr>cw_cms := fst (mem_delete (cw_cms w) n)\<rparr>, snd (mem_delete (cw_cms w) n))"
  "ka_job_get mem_cleanup w j = (case mget (cw_jobs w) j of Some j \<Rightarrow> Inr j | None \<Rightarrow> Inl NotFound)"
  "ka_job_create mem_cleanup w job = (w\<lparr>cw_jobs := mput (kj_Name job) job (cw_jobs w)\<rparr>, None)"
  "ka_job_delete mem_cleanup w j = (w\<lparr>cw_jobs := mdel j (cw_jobs w)\<rparr>, None)"
  by (simp_all add: mem_cleanup_def cw_lift_def mem_write_def case_prod_unfold)

lemma mem_cleanup_kube: "kube_ok (ka_kube mem_cleanup)"
proof -
  have name: "mem_get m n = Inr cm \<Longrightarrow> cm_Name cm = n" for m n cm
    by (auto simp: mem_get_def split: option.splits if_splits)
  have rv: "\<exists>v. cm\<lparr>cm_ResourceVersion := Suc (cm_ResourceVersion cm)\<rparr> = cm\<lparr>cm_ResourceVersion := v\<rparr>" for cm :: configmap by blast
  show ?thesis
    unfolding kube_ok_def stored_def mem_cleanup_ops using rv by (auto simp: mem_get_simps dest: name)
qed

lemma mem_cleanup_laws: "cleanup_laws mem_cleanup"
  unfolding cleanup_laws_def using mem_cleanup_kube by (simp add: mem_cleanup_ops mem_get_simps)

definition toy_cleanup_env :: cleanup_env where
  "toy_cleanup_env = \<lparr>ke_sha256hex = (\<lambda>s. ''0123abcd''), ke_workerImage = ''worker'', ke_time_json = (\<lambda>t. t), ke_owner = NoOwner, ke_now = 7,
     ke_kubeText = (\<lambda>e. ''api''), ke_errorText = (\<lambda>e. ''error'')\<rparr>"

lemma toy_hash: "hex_hash (ke_sha256hex toy_cleanup_env)"
  by (simp add: toy_cleanup_env_def hex_hash_def hex_char_def)

definition cleanup_target :: "string list \<Rightarrow> string list \<Rightarrow> string list \<Rightarrow> ctl_target" where
  "cleanup_target sets known pending =
     \<lparr>mt_Name = ''mt'', mt_Registry = ''t'', mt_ImageSets = sets, mt_Insecure = False, mt_AuthSecret = [], mt_Concurrency = 1, mt_BatchSize = 1,
      mt_PollInterval = None, mt_CheckExistInterval = None, mt_MaxRetries = 3, mt_Proxy = None, mt_CABundle = None, mt_WorkerStorage = None,
      mt_WorkerNodeSelector = [], mt_WorkerResources = [], mt_WorkerTolerations = [], mt_Namespace = ''ns'', mt_Generation = 1,
      mt_Annotations = [(CleanupPolicyAnnotation, CleanupPolicyDelete)], mt_Deleting = False, mt_Finalizers = [], mt_Expose = None,
      mt_ManagerNodeSelector = [], mt_ManagerResources = [], mt_ManagerTolerations = [], mt_Conditions = [], mt_KnownImageSets = known,
      mt_PendingCleanup = pending, mt_ImageSetStatuses = [], mt_TotalImages = 0, mt_MirroredImages = 0, mt_PendingImages = 0, mt_FailedImages = 0\<rparr>"

definition state_cm :: "string \<Rightarrow> string list \<Rightarrow> string \<times> configmap" where
  "state_cm name dests =
     (name, \<lparr>cm_Name = name, cm_Annotations = [], cm_BinaryData = [(''images.json.gz'',
        GzipJSON (encode (\<lambda>t. t) (map (\<lambda>d. (d, Some (zero_entry\<lparr>State := stateMirrored\<rparr>))) dests)))], cm_Data = [], cm_ResourceVersion = 1, cm_Owner = None\<rparr>)"

text \<open>\<open>a\<close> was removed from the spec, \<open>b\<close> remains; they share one image.\<close>

definition two_sets :: cleanup_world where
  "two_sets = \<lparr>cw_cms = [state_cm ''a-images'' [''t/x:1'', ''t/y:1''], state_cm ''b-images'' [''t/y:1'']], cw_jobs = []\<rparr>"

abbreviation two_sets_target :: ctl_target where
  "two_sets_target \<equiv> cleanup_target [''b''] [''a'', ''b''] []"

lemma two_sets_run:
  "snd (partitionAndCreateCleanupJob toy_cleanup_env mem_cleanup two_sets_target ''a'' two_sets) = Inr True"
  "map_sum (\<lambda>_. ()) (map fst) (LoadByConfigMapName (ka_kube mem_cleanup)
      (fst (partitionAndCreateCleanupJob toy_cleanup_env mem_cleanup two_sets_target ''a'' two_sets)) (cleanupSnapshotCMName (ke_sha256hex toy_cleanup_env) ''mt'' ''a'')) =
     Inr [''t/x:1'']"
  by code_simp+

theorem removal_deletes_exclusive_images_witness:
  "\<exists>st idx live. Load (ka_kube mem_cleanup) two_sets ''a'' = Inr st \<and> LoadIndex (ka_kube mem_cleanup) two_sets ''mt'' = Inr idx \<and> exclusive_of idx live st \<noteq> []"
proof -
  let ?p = "partitionAndCreateCleanupJob toy_cleanup_env mem_cleanup two_sets_target ''a'' two_sets"
  have p: "?p = (fst ?p, Inr True)" using two_sets_run(1) by (metis prod.collapse)
  have "mt_Name two_sets_target = ''mt''" by (simp add: cleanup_target_def)
  with removal_deletes_exclusive_images [OF mem_cleanup_laws toy_hash p] show ?thesis by metis
qed

definition shared_registry :: mem_registry where
  "shared_registry = \<lparr>mr_tags = (\<lambda>k. if k = (''t/x'', ''1'') then Some ''sha256:1'' else if k = (''t/y'', ''1'') then Some ''sha256:2'' else None),
     mr_manifests = [(''t/x'', ''sha256:1''), (''t/y'', ''sha256:2'')]\<rparr>"

lemma toy_cleanup_refs:
  "toy_ref ''t/x:1'' = Inr (plain_ref ''t/x'' ''1'' [])" "toy_ref ''t/y:1'' = Inr (plain_ref ''t/y'' ''1'' [])"
  "\<not> contains ''t/x:1'' ''@sha256:''" "\<not> contains ''t/y:1'' ''@sha256:''" "repoAndDigest ''t/x:1'' = (''t/x:1'', [])" "repoAndDigest ''t/y:1'' = (''t/y:1'', [])"
  by code_simp+

theorem removal_spares_remaining_images_witness:
  "mr_at (fst (snd (Run (ka_kube mem_cleanup) (cleanupSnapshotCMName (ke_sha256hex toy_cleanup_env) (mt_Name two_sets_target) ''a'') (\<lambda>_. mem_mirror) (DeleteManifest mem_env)
      (fst (partitionAndCreateCleanupJob toy_cleanup_env mem_cleanup two_sets_target ''a'' two_sets)) shared_registry))) (plain_ref ''t/y'' ''1'' []) = Some ''sha256:2''"
proof -
  let ?p = "partitionAndCreateCleanupJob toy_cleanup_env mem_cleanup two_sets_target ''a'' two_sets"
  have p: "?p = (fst ?p, Inr True)" using two_sets_run(1) by (metis prod.collapse)
  have mt: "mt_Name two_sets_target = ''mt''" "mt_ImageSets two_sets_target = [''b'']" by (simp_all add: cleanup_target_def)
  obtain snap where snap: "LoadByConfigMapName (ka_kube mem_cleanup) (fst ?p) (cleanupSnapshotCMName (ke_sha256hex toy_cleanup_env) (mt_Name two_sets_target) ''a'') = Inr snap"
    and keys: "map fst snap = [''t/x:1'']"
    using two_sets_run(2) unfolding mt by (cases "LoadByConfigMapName (ka_kube mem_cleanup) (fst ?p) (cleanupSnapshotCMName (ke_sha256hex toy_cleanup_env) ''mt'' ''a'')") auto
  have set: "fst ` set snap = {''t/x:1''}" using keys by (metis empty_set list.simps(15) set_map)
  have load: "Load (ka_kube mem_cleanup) two_sets ''b'' = Inr [(''t/y:1'', Some (zero_entry\<lparr>State := stateMirrored\<rparr>))]" by code_simp
  have "both_clients (deletes_ok mr_at) mem_mirror" by (simp add: both_clients_def mem_client_deletes)
  moreover have "ref_laws mem_env (\<lambda>b. b) (insert ''t/y:1'' (fst ` set snap))"
    unfolding ref_laws_def set by (auto simp: mem_env_def toy_cleanup_refs other_ref_def)
  moreover have "resolves_as_named mr_at mem_env (fst ` set snap) shared_registry ''t/y:1'' (plain_ref ''t/y'' ''1'' [])"
    unfolding resolves_as_named_def set by (auto simp: mem_env_def toy_cleanup_refs)
  moreover have "cl_refNew mem_env ''t/y:1'' = Inr (plain_ref ''t/y'' ''1'' [])" by (simp add: mem_env_def toy_cleanup_refs)
  moreover have "mr_at shared_registry (plain_ref ''t/y'' ''1'' []) = Some ''sha256:2''" by (simp add: mr_at_def shared_registry_def)
  ultimately show ?thesis
    using removal_spares_remaining_images [OF mem_cleanup_laws toy_hash p, of "''b''" "[(''t/y:1'', Some (zero_entry\<lparr>State := stateMirrored\<rparr>))]" "''t/y:1''"
        mr_at mem_mirror "\<lambda>b. b" mem_env "plain_ref ''t/y'' ''1'' []" snap shared_registry] load snap mt(2)
    by (simp add: inj_def)
qed

theorem Run_deletes_mirrored_entries_witness:
  "snd (Run (ka_kube mem_cleanup) ''a-images'' (\<lambda>_. ()) (\<lambda>c d r. (r @ [d], Inr ())) two_sets []) =
     ([''t/x:1'', ''t/y:1''], CleanedUp \<lparr>cr_Deleted = 2, cr_Skipped = 0, cr_Failed = 0\<rparr>)"
proof -
  let ?e = "zero_entry\<lparr>State := stateMirrored\<rparr>"
  have "LoadByConfigMapName (ka_kube mem_cleanup) two_sets ''a-images'' = Inr [(''t/x:1'', Some ?e), (''t/y:1'', Some ?e)]" by code_simp
  from Run_deletes_mirrored_entries [OF this, of "\<lambda>_. ()" "\<lambda>c d r. (r @ [d], Inr ())" "[]"] show ?thesis by simp
qed

theorem cleanup_args_roundtrip_witness:
  "ParseFlags (tl (kj_Args (cleanup_job_spec toy_cleanup_env two_sets_target ''a'' ''snap''))) =
     Some \<lparr>co_ImageSet = [], co_Namespace = ''ns'', co_Registry = ''t'', co_Insecure = False, co_ConfigMap = ''snap''\<rparr>"
  using cleanup_args_roundtrip [of "''snap''" two_sets_target toy_cleanup_env "''a''"] by (simp add: cleanup_target_def)

theorem no_cleanup_without_policy_witness:
  "mt_PendingCleanup (snd (fst (reconcileCleanup toy_cleanup_env mem_cleanup (two_sets_target\<lparr>mt_Annotations := []\<rparr>) two_sets))) = []"
proof -
  let ?r = "reconcileCleanup toy_cleanup_env mem_cleanup (two_sets_target\<lparr>mt_Annotations := []\<rparr>) two_sets"
  have "?r = ((fst (fst ?r), snd (fst ?r)), snd ?r)" by simp
  from no_cleanup_without_policy [OF mem_cleanup_laws _ _ this] show ?thesis by (simp add: wants_delete_def cleanup_target_def mget_default_Nil)
qed

section \<open>Three things the code does not do\<close>

text \<open>
  A Job that failed is started again from its old snapshot, without asking again what is live: \<open>a\<close> was removed, its cleanup failed, and it was put back into the spec; the next pass
  starts a Job that deletes the image \<open>a\<close> needs.
\<close>

definition put_back :: cleanup_world where
  "put_back = \<lparr>cw_cms = [state_cm ''a-images'' [''t/x:1''], state_cm (cleanupSnapshotCMName (ke_sha256hex toy_cleanup_env) ''mt'' ''a'') [''t/x:1'']], cw_jobs = []\<rparr>"

theorem retried_cleanup_deletes_live_image:
  "let mt = cleanup_target [''a''] [''a''] [''a'']; w' = fst (fst (reconcileCleanup toy_cleanup_env mem_cleanup mt put_back));
       snap = cleanupSnapshotCMName (ke_sha256hex toy_cleanup_env) ''mt'' ''a''
   in map fst (cw_jobs w') = [cleanupJobName (ke_sha256hex toy_cleanup_env) ''mt'' ''a''] \<and>
      map (\<lambda>(_, j). kj_Args j) (cw_jobs w') = [cleanup_args mt snap] \<and>
      map_sum (\<lambda>_. ()) (map fst) (LoadByConfigMapName (ka_kube mem_cleanup) w' snap) = Inr [''t/x:1''] \<and>
      map_sum (\<lambda>_. ()) (\<lambda>l. live_needs l ''t/x:1'') (liveDestinations (ka_kube mem_cleanup) w' mt []) = Inr True"
  by code_simp

text \<open>A manifest deleted by digest takes a plain tag of a remaining ImageSet with it: \<open>live_needs\<close> compares digests that names carry only.\<close>

theorem digest_cleanup_drops_live_tag:
  "\<not> live_needs (add_live ''q/a:v1'' \<lparr>li_dests = [], li_digests = []\<rparr>) ''q/a@sha256:1'' \<and>
   mr_at one_image (plain_ref ''q/a'' ''v1'' []) = Some ''sha256:1'' \<and>
   mr_at (fst (DeleteManifest mem_env mem_mirror ''q/a@sha256:1'' one_image)) (plain_ref ''q/a'' ''v1'' []) = None"
proof -
  have "\<not> live_needs (add_live ''q/a:v1'' \<lparr>li_dests = [], li_digests = []\<rparr>) ''q/a@sha256:1''" by code_simp
  then show ?thesis
    by (simp add: DeleteManifest_def withFallback_def deleteManifestWith_def mem_env_def toy_refs mem_client_def mr_manifest_delete_def mr_at_def one_image_def)
qed

text \<open>The cleanup Job runs without the proxy and the CA bundle of its target.\<close>

theorem cleanup_job_ignores_proxy_and_ca:
  "cleanup_job_spec env (mt\<lparr>mt_Proxy := p, mt_CABundle := ca\<rparr>) i s = cleanup_job_spec env mt i s"
  by (simp add: cleanup_job_spec_def cleanup_args_def Let_def)

end
