(* ===== verification/MirrorTarget.thy ===== *)
theory MirrorTarget
  imports Cleanup
begin

text \<open>
  The reconciler of MirrorTargets (\<open>internal/controller/mirrortarget_controller.go\<close>) around the cleanup of \<open>Cleanup\<close>: the objects it keeps in place (RBAC, network policies, the
  manager and the Resource API with their services, routes), the finalizer, the aggregated status, and \<open>Reconcile\<close> itself. Objects of the cluster are found by
  kind and name in the namespace of the target. Events, log lines and metrics are left out, except for the events of \<open>warnShortIntervals\<close>.
\<close>

section \<open>Objects\<close>

datatype uval = UStr string | UInt int | UMap "(string \<times> uval) list" | UList "uval list"

record policy_rule =
  ru_APIGroups :: "string list"
  ru_Resources :: "string list"
  ru_Verbs :: "string list"

record port_rule =
  pt_From :: "annotations list"
  pt_Port :: int

text \<open>An ingress rule with no peers admits every source.\<close>

record network_policy =
  np_PodSelector :: annotations
  np_PolicyTypes :: "string list"
  np_Ingress :: "port_rule list"

record probe =
  pb_Path :: string
  pb_Port :: string
  pb_InitialDelaySeconds :: int
  pb_PeriodSeconds :: int
  pb_TimeoutSeconds :: int
  pb_FailureThreshold :: int

record deployment =
  dp_Replicas :: int
  dp_Strategy :: string
  dp_Selector :: annotations
  dp_PodLabels :: annotations
  dp_ServiceAccountName :: string
  dp_RunAsNonRoot :: bool
  dp_SeccompProfile :: string
  dp_ContainerName :: string
  dp_Image :: string
  dp_AllowPrivilegeEscalation :: bool
  dp_DropCapabilities :: "string list"
  dp_Args :: "string list"
  dp_Env :: "env_var list"
  dp_VolumeMounts :: "volume_mount list"
  dp_Resources :: string
  dp_Ports :: "(string \<times> int) list"
  dp_LivenessProbe :: "probe option"
  dp_ReadinessProbe :: "probe option"
  dp_Volumes :: "(string \<times> volume_source) list"
  dp_NodeSelector :: annotations
  dp_Tolerations :: "string list"

datatype object_spec =
    NoSpec
  | RoleSpec "policy_rule list"
  | BindingSpec string "(string \<times> string \<times> string) list"
  | PolicySpec network_policy
  | DeploymentSpec deployment
  | ServiceSpec annotations "(string \<times> int) list"
  | IngressSpec string string string int "string option"
  | Unstructured "(string, uval) gomap"

text \<open>An owner reference: kind, name, and whether it is the controller.\<close>

type_synonym owner_ref = "string \<times> string \<times> bool"

record kobject =
  ko_Labels :: annotations
  ko_Owners :: "owner_ref list"
  ko_Spec :: object_spec

type_synonym object_key = "string \<times> string"

datatype object_error = ObjNotFound | ObjNoMatch | ObjError string

datatype target_error =
    TargetGet kube_error
  | TargetUpdate kube_error
  | CleanupFailed cleanup_error
  | EnsureObject string object_error
  | PodListFailed kube_error
  | PodDeleteFailed string object_error
  | ListImageSets kube_error
  | IngressNeedsHost
  | GatewayNeedsRef
  | NoGatewayAPI

record 'w target_api =
  ta_cleanup :: "'w cleanup_api"
  ta_mt_get :: "'w \<Rightarrow> string \<Rightarrow> kube_error + ctl_target"
  ta_mt_update :: "'w \<Rightarrow> ctl_target \<Rightarrow> 'w \<times> kube_error option"
  ta_mt_status :: "'w \<Rightarrow> ctl_target \<Rightarrow> 'w \<times> kube_error option"
  ta_get :: "'w \<Rightarrow> object_key \<Rightarrow> object_error + kobject"
  ta_create :: "'w \<Rightarrow> object_key \<Rightarrow> kobject \<Rightarrow> 'w \<times> object_error option"
  ta_update :: "'w \<Rightarrow> object_key \<Rightarrow> kobject \<Rightarrow> 'w \<times> object_error option"
  ta_delete :: "'w \<Rightarrow> object_key \<Rightarrow> 'w \<times> object_error option"
  ta_pods :: "'w \<Rightarrow> string \<Rightarrow> kube_error + (string \<times> bool) list"
  ta_pod_delete :: "'w \<Rightarrow> string \<Rightarrow> 'w \<times> object_error option"
  ta_is_list :: "'w \<Rightarrow> kube_error + (string \<times> image_set_status) list"

record target_env =
  te_cleanup :: cleanup_env
  te_managerImage :: string
  te_operatorImage :: string
  te_errorText :: "target_error \<Rightarrow> string"

abbreviation mirrorTargetFinalizer :: string where "mirrorTargetFinalizer \<equiv> ''mirror.openshift.io/cleanup''"
abbreviation reasonReconcileError :: string where "reasonReconcileError \<equiv> ''ReconcileError''"

section \<open>Owner references and CreateOrUpdate\<close>

text \<open>\<open>controllerutil.SetControllerReference\<close> refuses an object that another object controls; \<open>SetOwnerReference\<close> adds an owner beside the others.\<close>

definition setControllerReference :: "ctl_target \<Rightarrow> kobject \<Rightarrow> object_error + kobject" where
  "setControllerReference mt ob =
     (if \<exists>(kind, name, ctl) \<in> set (ko_Owners ob). ctl \<and> (kind, name) \<noteq> (''MirrorTarget'', mt_Name mt) then Inl (ObjError ''already owned'')
      else Inr (ob\<lparr>ko_Owners := filter (\<lambda>(kind, name, _). (kind, name) \<noteq> (''MirrorTarget'', mt_Name mt)) (ko_Owners ob) @ [(''MirrorTarget'', mt_Name mt, True)]\<rparr>))"

definition setOwnerReference :: "ctl_target \<Rightarrow> kobject \<Rightarrow> object_error + kobject" where
  "setOwnerReference mt ob =
     (if \<exists>(kind, name, _) \<in> set (ko_Owners ob). (kind, name) = (''MirrorTarget'', mt_Name mt) then Inr ob
      else Inr (ob\<lparr>ko_Owners := ko_Owners ob @ [(''MirrorTarget'', mt_Name mt, False)]\<rparr>))"

definition empty_object :: kobject where
  "empty_object = \<lparr>ko_Labels = [], ko_Owners = [], ko_Spec = NoSpec\<rparr>"

definition createOrUpdate :: "'w target_api \<Rightarrow> object_key \<Rightarrow> (kobject \<Rightarrow> object_error + kobject) \<Rightarrow> 'w \<Rightarrow> 'w \<times> object_error option" where
  "createOrUpdate api key mutate w =
     (case ta_get api w key of
        Inl ObjNotFound \<Rightarrow> (case mutate empty_object of Inl e \<Rightarrow> (w, Some e) | Inr ob \<Rightarrow> ta_create api w key ob)
      | Inl e \<Rightarrow> (w, Some e)
      | Inr current \<Rightarrow>
          (case mutate current of
             Inl e \<Rightarrow> (w, Some e)
           | Inr ob \<Rightarrow> if ob = current then (w, None) else ta_update api w key ob))"

text \<open>The usual mutation: set the controller, the labels and the whole spec.\<close>

definition controlled :: "ctl_target \<Rightarrow> annotations \<Rightarrow> object_spec \<Rightarrow> kobject \<Rightarrow> object_error + kobject" where
  "controlled mt labels spec ob = map_sum (\<lambda>e. e) (\<lambda>ob. ob\<lparr>ko_Labels := labels, ko_Spec := spec\<rparr>) (setControllerReference mt ob)"

definition shared_by :: "ctl_target \<Rightarrow> annotations \<Rightarrow> object_spec \<Rightarrow> kobject \<Rightarrow> object_error + kobject" where
  "shared_by mt labels spec ob = map_sum (\<lambda>e. e) (\<lambda>ob. ob\<lparr>ko_Labels := labels, ko_Spec := spec\<rparr>) (setOwnerReference mt ob)"

text \<open>A list of objects that are ensured one after the other; the first failure ends it.\<close>

fun ensure_all :: "'w target_api \<Rightarrow> (string \<times> object_key \<times> (kobject \<Rightarrow> object_error + kobject)) list \<Rightarrow> 'w \<Rightarrow> 'w \<times> target_error option" where
  "ensure_all api [] w = (w, None)"
| "ensure_all api ((what, key, mutate) # rest) w =
     (case createOrUpdate api key mutate w of
        (w', Some e) \<Rightarrow> (w', Some (EnsureObject what e))
      | (w', None) \<Rightarrow> ensure_all api rest w')"

section \<open>RBAC\<close>

definition coordinator_rules :: "policy_rule list" where
  "coordinator_rules =
     [\<lparr>ru_APIGroups = [''mirror.openshift.io''], ru_Resources = [''imagesets''], ru_Verbs = [''get'', ''list'', ''watch'', ''update'', ''patch'']\<rparr>,
      \<lparr>ru_APIGroups = [''mirror.openshift.io''], ru_Resources = [''mirrortargets''], ru_Verbs = [''get'', ''list'', ''watch'']\<rparr>,
      \<lparr>ru_APIGroups = [''mirror.openshift.io''], ru_Resources = [''imagesets/status''], ru_Verbs = [''get'', ''update'', ''patch'']\<rparr>,
      \<lparr>ru_APIGroups = [''mirror.openshift.io''], ru_Resources = [''mirrortargets/finalizers''], ru_Verbs = [''update'']\<rparr>,
      \<lparr>ru_APIGroups = [[]], ru_Resources = [''pods''], ru_Verbs = [''get'', ''list'', ''watch'', ''create'', ''delete'']\<rparr>,
      \<lparr>ru_APIGroups = [[]], ru_Resources = [''secrets''], ru_Verbs = [''get'', ''list'', ''watch'', ''create'', ''update'']\<rparr>,
      \<lparr>ru_APIGroups = [[]], ru_Resources = [''configmaps''], ru_Verbs = [''get'', ''list'', ''watch'', ''create'', ''update'', ''patch'', ''delete'']\<rparr>,
      \<lparr>ru_APIGroups = [[]], ru_Resources = [''persistentvolumeclaims''], ru_Verbs = [''get'', ''list'', ''create'', ''delete'']\<rparr>]"

text \<open>Mutations that set the spec, but no labels.\<close>

definition controlled_spec :: "ctl_target \<Rightarrow> object_spec \<Rightarrow> kobject \<Rightarrow> object_error + kobject" where
  "controlled_spec mt spec ob = map_sum (\<lambda>e. e) (\<lambda>ob. ob\<lparr>ko_Spec := spec\<rparr>) (setControllerReference mt ob)"

definition shared_spec :: "ctl_target \<Rightarrow> object_spec \<Rightarrow> kobject \<Rightarrow> object_error + kobject" where
  "shared_spec mt spec ob = map_sum (\<lambda>e. e) (\<lambda>ob. ob\<lparr>ko_Spec := spec\<rparr>) (setOwnerReference mt ob)"

definition ensureCoordinatorRBAC :: "'w target_api \<Rightarrow> ctl_target \<Rightarrow> 'w \<Rightarrow> 'w \<times> target_error option" where
  "ensureCoordinatorRBAC api mt w =
     (let coordinatorName = mt_Name mt @ ''-coordinator''; workerName = mt_Name mt @ ''-worker''
      in ensure_all api
           [(''coordinator ServiceAccount'', (''ServiceAccount'', coordinatorName), setControllerReference mt),
            (''worker ServiceAccount'', (''ServiceAccount'', workerName), setControllerReference mt),
            (''coordinator Role'', (''Role'', coordinatorName), controlled_spec mt (RoleSpec coordinator_rules)),
            (''coordinator RoleBinding'', (''RoleBinding'', coordinatorName),
              controlled_spec mt (BindingSpec coordinatorName [(''ServiceAccount'', coordinatorName, mt_Namespace mt)]))] w)"

definition resource_api_rules :: "policy_rule list" where
  "resource_api_rules =
     [\<lparr>ru_APIGroups = [[]], ru_Resources = [''configmaps''], ru_Verbs = [''get'', ''list'', ''watch'']\<rparr>,
      \<lparr>ru_APIGroups = [''mirror.openshift.io''], ru_Resources = [''mirrortargets'', ''imagesets''], ru_Verbs = [''get'', ''list'', ''watch'']\<rparr>]"

abbreviation resource_api :: string where "resource_api \<equiv> ''oc-mirror-resource-api''"

definition ensureResourceRBAC :: "'w target_api \<Rightarrow> ctl_target \<Rightarrow> 'w \<Rightarrow> 'w \<times> target_error option" where
  "ensureResourceRBAC api mt w =
     ensure_all api
       [(''resource api'', (''ServiceAccount'', resource_api), setOwnerReference mt),
        (''resource api'', (''Role'', resource_api), shared_spec mt (RoleSpec resource_api_rules)),
        (''resource api'', (''RoleBinding'', resource_api), shared_spec mt (BindingSpec resource_api [(''ServiceAccount'', resource_api, mt_Namespace mt)]))] w"

section \<open>Network policies\<close>

definition manager_selector :: "ctl_target \<Rightarrow> annotations" where
  "manager_selector mt = [(''app'', ''oc-mirror-manager''), (''mirrortarget'', mt_Name mt)]"

definition worker_selector :: "ctl_target \<Rightarrow> annotations" where
  "worker_selector mt = [(''app'', ''oc-mirror-worker''), (''mirrortarget'', mt_Name mt)]"

definition network_policies :: "ctl_target \<Rightarrow> (string \<times> network_policy) list" where
  "network_policies mt =
     [(mt_Name mt @ ''-manager-ingress'',
       \<lparr>np_PodSelector = manager_selector mt, np_PolicyTypes = [''Ingress''],
        np_Ingress = [\<lparr>pt_From = [worker_selector mt], pt_Port = 8080\<rparr>, \<lparr>pt_From = [], pt_Port = 9090\<rparr>]\<rparr>),
      (mt_Name mt @ ''-worker-ingress-deny'',
       \<lparr>np_PodSelector = worker_selector mt, np_PolicyTypes = [''Ingress''], np_Ingress = []\<rparr>)]"

definition policy_object :: "ctl_target \<Rightarrow> network_policy \<Rightarrow> kobject \<Rightarrow> object_error + kobject" where
  "policy_object mt np ob =
     Inr (ob\<lparr>ko_Labels := [(''app.kubernetes.io/managed-by'', ''oc-mirror-operator'')], ko_Owners := [(''MirrorTarget'', mt_Name mt, True)], ko_Spec := PolicySpec np\<rparr>)"

definition ensureNetworkPolicies :: "'w target_api \<Rightarrow> ctl_target \<Rightarrow> 'w \<Rightarrow> 'w \<times> target_error option" where
  "ensureNetworkPolicies api mt w =
     (case ensure_all api (map (\<lambda>(name, np). (name, (''NetworkPolicy'', name), policy_object mt np)) (network_policies mt)) w of
        (w1, Some e) \<Rightarrow> (w1, Some e)
      | (w1, None) \<Rightarrow>
          (case ta_delete api w1 (''NetworkPolicy'', mt_Name mt @ ''-worker-egress'') of
             (w2, None) \<Rightarrow> (w2, None)
           | (w2, Some ObjNotFound) \<Rightarrow> (w2, None)
           | (w2, Some e) \<Rightarrow> (w2, Some (EnsureObject (mt_Name mt @ ''-worker-egress'') e))))"

section \<open>The manager and the Resource API\<close>

definition buildEffectiveNoProxy_ctl :: "string \<Rightarrow> string" where
  "buildEffectiveNoProxy_ctl userNoProxy =
     (let base = str_join '','' clusterNoProxy in if userNoProxy = [] then base else base @ '','' @ userNoProxy)"

definition proxyEnvVars :: "proxy_config option \<Rightarrow> env_var list" where
  "proxyEnvVars cfg =
     (case cfg of
        None \<Rightarrow> []
      | Some c \<Rightarrow>
          (let v = px_HTTPProxy c in if v \<noteq> [] then [(''HTTP_PROXY'', Value v), (''http_proxy'', Value v)] else []) @
          (let v = px_HTTPSProxy c in if v \<noteq> [] then [(''HTTPS_PROXY'', Value v), (''https_proxy'', Value v)] else []) @
          (if px_HTTPProxy c \<noteq> [] \<or> px_HTTPSProxy c \<noteq> [] then
             (let noProxy = buildEffectiveNoProxy_ctl (px_NoProxy c)
              in [(''NO_PROXY'', Value noProxy), (''no_proxy'', Value noProxy),
                  (''KUBERNETES_SERVICE_HOST'', Value ''kubernetes.default.svc.cluster.local'')])
           else if px_NoProxy c \<noteq> [] then [(''NO_PROXY'', Value (px_NoProxy c)), (''no_proxy'', Value (px_NoProxy c))]
           else []))"

definition caBundleEnvVars :: "ca_bundle option \<Rightarrow> env_var list" where
  "caBundleEnvVars ref =
     (case ref of
        None \<Rightarrow> []
      | Some r \<Rightarrow> (let key = (if ca_Key r = [] then ''ca-bundle.crt'' else ca_Key r) in [(''SSL_CERT_FILE'', Value (''/run/secrets/ca/'' @ key))]))"

definition managerContainerEnv :: "target_env \<Rightarrow> ctl_target \<Rightarrow> env_var list" where
  "managerContainerEnv env mt =
     [(''POD_NAMESPACE'', FieldPath ''metadata.namespace''), (''OPERATOR_IMAGE'', Value (te_operatorImage env)),
      (''WORKER_IMAGE'', Value (ke_workerImage (te_cleanup env)))] @
     (if mt_AuthSecret mt \<noteq> [] then [(''DOCKER_CONFIG'', Value ''/docker-config'')] else []) @
     proxyEnvVars (mt_Proxy mt) @ caBundleEnvVars (mt_CABundle mt)"

definition managerContainerVolumeMounts :: "ctl_target \<Rightarrow> volume_mount list" where
  "managerContainerVolumeMounts mt =
     (if mt_AuthSecret mt \<noteq> [] then [\<lparr>vm_Name = ''dockerconfig'', vm_MountPath = ''/docker-config'', vm_ReadOnly = True\<rparr>] else []) @
     (case mt_CABundle mt of Some _ \<Rightarrow> [\<lparr>vm_Name = ''ca-bundle'', vm_MountPath = ''/run/secrets/ca'', vm_ReadOnly = True\<rparr>] | None \<Rightarrow> [])"

definition managerPodVolumes :: "ctl_target \<Rightarrow> (string \<times> volume_source) list" where
  "managerPodVolumes mt =
     (if mt_AuthSecret mt \<noteq> [] then [(''dockerconfig'', SecretFiles (mt_AuthSecret mt) [(''.dockerconfigjson'', ''config.json'')])] else []) @
     (case mt_CABundle mt of
        Some r \<Rightarrow> (let key = (if ca_Key r = [] then ''ca-bundle.crt'' else ca_Key r) in [(''ca-bundle'', ConfigMapFiles (ca_ConfigMapName r) [(key, key)])])
      | None \<Rightarrow> [])"

definition manager_labels :: "ctl_target \<Rightarrow> annotations" where
  "manager_labels mt =
     [(''app'', ''oc-mirror-manager''), (''mirrortarget'', mt_Name mt), (''app.kubernetes.io/component'', ''manager''),
      (''app.kubernetes.io/name'', ''oc-mirror''), (''app.kubernetes.io/instance'', mt_Name mt), (''oc-mirror.openshift.io/mirrortarget'', mt_Name mt)]"

definition manager_deployment :: "target_env \<Rightarrow> ctl_target \<Rightarrow> deployment" where
  "manager_deployment env mt =
     \<lparr>dp_Replicas = 1, dp_Strategy = ''Recreate'', dp_Selector = manager_labels mt, dp_PodLabels = manager_labels mt,
      dp_ServiceAccountName = mt_Name mt @ ''-coordinator'', dp_RunAsNonRoot = True, dp_SeccompProfile = ''RuntimeDefault'',
      dp_ContainerName = ''manager'', dp_Image = te_managerImage env, dp_AllowPrivilegeEscalation = False, dp_DropCapabilities = [''ALL''],
      dp_Args = [''--mirrortarget'', mt_Name mt, ''--namespace'', mt_Namespace mt],
      dp_Env = managerContainerEnv env mt, dp_VolumeMounts = managerContainerVolumeMounts mt, dp_Resources = mt_ManagerResources mt,
      dp_Ports = [(''status'', 8080), (''metrics'', 9090)],
      dp_LivenessProbe = Some \<lparr>pb_Path = ''/healthz'', pb_Port = ''metrics'', pb_InitialDelaySeconds = 30, pb_PeriodSeconds = 60, pb_TimeoutSeconds = 5, pb_FailureThreshold = 3\<rparr>,
      dp_ReadinessProbe = Some \<lparr>pb_Path = ''/readyz'', pb_Port = ''metrics'', pb_InitialDelaySeconds = 0, pb_PeriodSeconds = 5, pb_TimeoutSeconds = 5, pb_FailureThreshold = 3\<rparr>,
      dp_Volumes = managerPodVolumes mt, dp_NodeSelector = mt_ManagerNodeSelector mt, dp_Tolerations = mt_ManagerTolerations mt\<rparr>"

definition resource_deployment :: "target_env \<Rightarrow> ctl_target \<Rightarrow> deployment" where
  "resource_deployment env mt =
     \<lparr>dp_Replicas = 1, dp_Strategy = [], dp_Selector = [(''app'', resource_api)], dp_PodLabels = [(''app'', resource_api)],
      dp_ServiceAccountName = resource_api, dp_RunAsNonRoot = True, dp_SeccompProfile = ''RuntimeDefault'', dp_ContainerName = ''api'',
      dp_Image = te_managerImage env, dp_AllowPrivilegeEscalation = False, dp_DropCapabilities = [''ALL''],
      dp_Args = [''resource-api'', ''--namespace'', mt_Namespace mt], dp_Env = [(''POD_NAMESPACE'', FieldPath ''metadata.namespace'')],
      dp_VolumeMounts = [], dp_Resources = [], dp_Ports = [([], 8081)], dp_LivenessProbe = None, dp_ReadinessProbe = None, dp_Volumes = [],
      dp_NodeSelector = [], dp_Tolerations = []\<rparr>"

definition ensureResourceAPI :: "target_env \<Rightarrow> 'w target_api \<Rightarrow> ctl_target \<Rightarrow> 'w \<Rightarrow> 'w \<times> target_error option" where
  "ensureResourceAPI env api mt w =
     (case ensureResourceRBAC api mt w of
        (w1, Some e) \<Rightarrow> (w1, Some e)
      | (w1, None) \<Rightarrow>
          ensure_all api
            [(''resource api deployment'', (''Deployment'', resource_api), shared_by mt [(''app'', resource_api)] (DeploymentSpec (resource_deployment env mt))),
             (''resource api'', (''Service'', resource_api), shared_by mt [(''app'', resource_api)] (ServiceSpec [(''app'', resource_api)] [([], 8081)]))] w1)"

definition manager_service :: "ctl_target \<Rightarrow> object_spec" where
  "manager_service mt = ServiceSpec (manager_selector mt) [(''http'', 8080), (''metrics'', 9090)]"

definition ensure_manager :: "target_env \<Rightarrow> 'w target_api \<Rightarrow> ctl_target \<Rightarrow> 'w \<Rightarrow> 'w \<times> target_error option" where
  "ensure_manager env api mt w =
     ensure_all api
       [(''manager deployment'', (''Deployment'', mt_Name mt @ ''-manager''), controlled mt (manager_labels mt) (DeploymentSpec (manager_deployment env mt))),
        (''manager service'', (''Service'', mt_Name mt @ ''-manager''), controlled mt (manager_labels mt) (manager_service mt)),
        (''resources service'', (''Service'', mt_Name mt @ ''-resources''),
          controlled mt [(''app'', resource_api), (''mirrortarget'', mt_Name mt)] (ServiceSpec [(''app'', resource_api)] [(''resources'', 8081)]))] w"

section \<open>Exposure\<close>

definition resources_name :: "ctl_target \<Rightarrow> string" where
  "resources_name mt = mt_Name mt @ ''-resources''"

definition exposure_labels :: "ctl_target \<Rightarrow> annotations" where
  "exposure_labels mt = [(''app'', ''oc-mirror-resources''), (''mirrortarget'', mt_Name mt)]"

text \<open>Whether the API of a kind is installed: the probe of \<open>hasRouteAPI\<close> and \<open>hasGatewayAPI\<close> (in the namespace \<open>default\<close>).\<close>

definition has_api :: "'w target_api \<Rightarrow> string \<Rightarrow> 'w \<Rightarrow> bool" where
  "has_api api kind w =
     (case ta_get api w (kind, ''default/__probe__'') of Inr _ \<Rightarrow> True | Inl ObjNoMatch \<Rightarrow> False | Inl ObjNotFound \<Rightarrow> True | Inl (ObjError _) \<Rightarrow> False)"

definition expose_host :: "ctl_target \<Rightarrow> string" where
  "expose_host mt = (case mt_Expose mt of Some e \<Rightarrow> ex_Host e | None \<Rightarrow> [])"

definition route_object :: "ctl_target \<Rightarrow> string \<Rightarrow> kobject \<Rightarrow> object_error + kobject" where
  "route_object mt svcName ob =
     map_sum (\<lambda>e. e)
       (\<lambda>ob. (let spec0 = (case ko_Spec ob of Unstructured m \<Rightarrow> m | _ \<Rightarrow> []);
                  spec1 = mput ''tls'' (UMap [(''termination'', UStr ''edge''), (''insecureEdgeTerminationPolicy'', UStr ''Redirect'')])
                            (mput ''port'' (UMap [(''targetPort'', UStr ''resources'')])
                              (mput ''to'' (UMap [(''kind'', UStr ''Service''), (''name'', UStr svcName)]) spec0));
                  spec2 = (if expose_host mt \<noteq> [] then mput ''host'' (UStr (expose_host mt)) spec1 else mdel ''host'' spec1)
              in ob\<lparr>ko_Labels := exposure_labels mt, ko_Spec := Unstructured spec2\<rparr>))
       (setControllerReference mt ob)"

definition ensureRoute :: "'w target_api \<Rightarrow> ctl_target \<Rightarrow> string \<Rightarrow> 'w \<Rightarrow> 'w \<times> target_error option" where
  "ensureRoute api mt svcName w = ensure_all api [(''Route'', (''Route'', resources_name mt), route_object mt svcName)] w"

definition ensureIngress :: "'w target_api \<Rightarrow> ctl_target \<Rightarrow> string \<Rightarrow> 'w \<Rightarrow> 'w \<times> target_error option" where
  "ensureIngress api mt svcName w =
     (let host = expose_host mt; ingressClass = (case mt_Expose mt of Some e \<Rightarrow> ex_IngressClassName e | None \<Rightarrow> [])
      in if host = [] then (w, Some IngressNeedsHost)
         else ensure_all api
                [(''Ingress'', (''Ingress'', resources_name mt),
                  controlled mt (exposure_labels mt) (IngressSpec host ''/resources'' svcName 8081 (if ingressClass \<noteq> [] then Some ingressClass else None)))] w)"

definition http_route_spec :: "ctl_target \<Rightarrow> gateway_ref \<Rightarrow> string \<Rightarrow> (string, uval) gomap" where
  "http_route_spec mt gw svcName =
     (let parentRef = UMap ([(''name'', UStr (gw_Name gw))] @ (if gw_Namespace gw \<noteq> [] then [(''namespace'', UStr (gw_Namespace gw))] else []));
          spec = [(''parentRefs'', UList [parentRef]),
                  (''rules'', UList [UMap [(''backendRefs'', UList [UMap [(''name'', UStr svcName), (''port'', UInt 8081)]])]])]
      in spec @ (if expose_host mt \<noteq> [] then [(''hostnames'', UList [UStr (expose_host mt)])] else []))"

definition ensureHTTPRoute :: "'w target_api \<Rightarrow> ctl_target \<Rightarrow> string \<Rightarrow> 'w \<Rightarrow> 'w \<times> target_error option" where
  "ensureHTTPRoute api mt svcName w =
     (case Option.bind (mt_Expose mt) ex_GatewayRef of
        None \<Rightarrow> (w, Some GatewayNeedsRef)
      | Some gw \<Rightarrow>
          if gw_Name gw = [] then (w, Some GatewayNeedsRef)
          else if \<not> has_api api ''HTTPRoute'' w then (w, Some NoGatewayAPI)
          else ensure_all api
                 [(''HTTPRoute'', (''HTTPRoute'', resources_name mt), controlled mt (exposure_labels mt) (Unstructured (http_route_spec mt gw svcName)))] w)"

definition delete_exposure :: "'w target_api \<Rightarrow> ctl_target \<Rightarrow> string \<Rightarrow> 'w \<Rightarrow> 'w" where
  "delete_exposure api mt kind w = fst (ta_delete api w (kind, resources_name mt))"

definition expose_type :: "'w target_api \<Rightarrow> ctl_target \<Rightarrow> 'w \<Rightarrow> string" where
  "expose_type api mt w =
     (case mt_Expose mt of
        Some e \<Rightarrow> if ex_Type e \<noteq> [] then ex_Type e else if has_api api ''Route'' w then ''Route'' else ''Service''
      | None \<Rightarrow> if has_api api ''Route'' w then ''Route'' else ''Service'')"

definition reconcileExposure :: "'w target_api \<Rightarrow> ctl_target \<Rightarrow> 'w \<Rightarrow> 'w \<times> target_error option" where
  "reconcileExposure api mt w =
     (let exposeType = expose_type api mt w;
          w1 = (if exposeType \<noteq> ''Route'' then delete_exposure api mt ''Route'' w else w);
          w2 = (if exposeType \<noteq> ''Ingress'' then delete_exposure api mt ''Ingress'' w1 else w1);
          w3 = (if exposeType \<noteq> ''GatewayAPI'' then delete_exposure api mt ''HTTPRoute'' w2 else w2)
      in if exposeType = ''Route'' then ensureRoute api mt (resources_name mt) w3
         else if exposeType = ''Ingress'' then ensureIngress api mt (resources_name mt) w3
         else if exposeType = ''GatewayAPI'' then ensureHTTPRoute api mt (resources_name mt) w3
         else (w3, None))"

section \<open>Status\<close>

definition summary_of :: "(string, image_set_status) gomap \<Rightarrow> string \<Rightarrow> image_set_summary" where
  "summary_of isMap name =
     (case mget isMap name of
        None \<Rightarrow> \<lparr>iss_Name = name, iss_Found = False, iss_Total = 0, iss_Mirrored = 0, iss_Pending = 0, iss_Failed = 0\<rparr>
      | Some s \<Rightarrow> \<lparr>iss_Name = name, iss_Found = True, iss_Total = ss_TotalImages s, iss_Mirrored = ss_MirroredImages s,
                  iss_Pending = ss_PendingImages s, iss_Failed = ss_FailedImages s\<rparr>)"

definition set_totals :: "int \<times> int \<times> int \<times> int \<Rightarrow> ctl_target \<Rightarrow> ctl_target" where
  "set_totals c mt = (case c of (t, m, p, f) \<Rightarrow>
     mt\<lparr>mt_TotalImages := t, mt_MirroredImages := m, mt_PendingImages := p, mt_FailedImages := f\<rparr>)"

text \<open>All states merged, those that cannot be read left out; later ImageSets win.\<close>

definition merged_states :: "'w kube \<Rightarrow> 'w \<Rightarrow> string list \<Rightarrow> loaded_state" where
  "merged_states k w isNames =
     fold (\<lambda>n merged. case Load k w n of Inl _ \<Rightarrow> merged | Inr st \<Rightarrow> fold (\<lambda>(dest, entry). mput dest entry) st merged) isNames []"

definition sum_found :: "(image_set_summary \<Rightarrow> int) \<Rightarrow> image_set_summary list \<Rightarrow> int" where
  "sum_found f ss = sum_list (map f (filter iss_Found ss))"

definition derive_totals :: "'w kube \<Rightarrow> 'w \<Rightarrow> ctl_target \<Rightarrow> image_set_summary list \<Rightarrow> (target_error + ctl_target) option" where
  "derive_totals k w mt summaries =
     (if \<forall>n \<in> set (mt_ImageSets mt). (case Load k w n of Inl _ \<Rightarrow> True | Inr st \<Rightarrow> length st = 0) then
        Some (Inr (set_totals (sum_found iss_Total summaries, sum_found iss_Mirrored summaries, sum_found iss_Pending summaries, sum_found iss_Failed summaries) mt))
      else (let merged = merged_states k w (mt_ImageSets mt)
            in if \<exists>(d, e) \<in> set merged. e = None then None
               else Some (Inr (set_totals (Counts (map (\<lambda>(d, e). (d, the e)) merged)) mt))))"

text \<open>\<open>aggregateImageSetStatus\<close>; a null entry in a state, which Go would dereference, is \<open>None\<close>.\<close>

definition aggregateImageSetStatus :: "'w target_api \<Rightarrow> ctl_target \<Rightarrow> 'w \<Rightarrow> (target_error + ctl_target) option" where
  "aggregateImageSetStatus api mt w =
     (let k = ka_kube (ta_cleanup api); names = sort (mt_ImageSets mt)
      in case ta_is_list api w of
           Inl e \<Rightarrow> Some (Inl (ListImageSets e))
         | Inr isList \<Rightarrow>
             (let summaries = map (summary_of (fold (\<lambda>(n, s). mput n s) isList [])) names;
                  mt1 = mt\<lparr>mt_ImageSetStatuses := summaries\<rparr>
              in case LoadSummary k w (mt_Name mt) of
                   Inr (Some s) \<Rightarrow>
                     if sm_ImageSets s = names then Some (Inr (set_totals (sm_Total s, sm_Mirrored s, sm_Pending s, sm_Failed s) mt1))
                     else derive_totals k w mt1 summaries
                 | _ \<Rightarrow> derive_totals k w mt1 summaries))"

section \<open>Deletion\<close>

datatype target_result = Settled | RequeueAfterSeconds int | TargetFailed target_error | Crashed

fun delete_pods :: "'w target_api \<Rightarrow> (string \<times> bool) list \<Rightarrow> nat \<Rightarrow> 'w \<Rightarrow> 'w \<times> (target_error + nat)" where
  "delete_pods api [] remaining w = (w, Inr remaining)"
| "delete_pods api ((name, deleting) # rest) remaining w =
     (if deleting then delete_pods api rest (remaining + 1) w
      else (case ta_pod_delete api w name of
              (w', None) \<Rightarrow> delete_pods api rest (remaining + 1) w'
            | (w', Some ObjNotFound) \<Rightarrow> delete_pods api rest (remaining + 1) w'
            | (w', Some e) \<Rightarrow> (w', Inl (PodDeleteFailed name e))))"

definition delete_manager :: "'w target_api \<Rightarrow> ctl_target \<Rightarrow> 'w \<Rightarrow> 'w \<times> target_error option" where
  "delete_manager api mt w =
     (let key = (''Deployment'', mt_Name mt @ ''-manager'')
      in case ta_get api w key of
           Inl _ \<Rightarrow> (w, None)
         | Inr _ \<Rightarrow>
             (case ta_delete api w key of
                (w', None) \<Rightarrow> (w', None)
              | (w', Some ObjNotFound) \<Rightarrow> (w', None)
              | (w', Some e) \<Rightarrow> (w', Some (EnsureObject ''manager deployment'' e))))"

definition handleDeletion :: "'w target_api \<Rightarrow> ctl_target \<Rightarrow> 'w \<Rightarrow> 'w \<times> target_result" where
  "handleDeletion api mt w =
     (if mirrorTargetFinalizer \<notin> set (mt_Finalizers mt) then (w, Settled)
      else (case delete_manager api mt w of
              (w1, Some e) \<Rightarrow> (w1, TargetFailed e)
            | (w1, None) \<Rightarrow>
                (case ta_pods api w1 (mt_Name mt) of
                   Inl e \<Rightarrow> (w1, TargetFailed (PodListFailed e))
                 | Inr pods \<Rightarrow>
                     (case delete_pods api pods 0 w1 of
                        (w2, Inl e) \<Rightarrow> (w2, TargetFailed e)
                      | (w2, Inr remaining) \<Rightarrow>
                          if remaining > 0 then (w2, RequeueAfterSeconds 5)
                          else (case ta_mt_update api w2 (mt\<lparr>mt_Finalizers := filter (\<lambda>f. f \<noteq> mirrorTargetFinalizer) (mt_Finalizers mt)\<rparr>) of
                                  (w3, Some e) \<Rightarrow> (w3, TargetFailed (TargetUpdate e))
                                | (w3, None) \<Rightarrow> (w3, Settled))))))"

section \<open>Reconcile\<close>

text \<open>The events of \<open>warnShortIntervals\<close>; durations are in nanoseconds.\<close>

definition warnShortIntervals :: "ctl_target \<Rightarrow> string list" where
  "warnShortIntervals mt =
     (let short = (\<lambda>d :: int option. case d of Some n \<Rightarrow> n > 0 \<and> n < 3600 * 1000000000 | None \<Rightarrow> False)
      in (if short (mt_PollInterval mt) then [''ShortPollInterval''] else []) @
         (if short (mt_CheckExistInterval mt) then [''ShortCheckExistInterval''] else []))"

definition fail_target :: "target_env \<Rightarrow> 'w target_api \<Rightarrow> string \<Rightarrow> string \<Rightarrow> ctl_target \<Rightarrow> target_error \<Rightarrow> 'w \<Rightarrow> 'w \<times> target_result" where
  "fail_target env api condType reason mt err w =
     (let mt' = mt\<lparr>mt_Conditions := setCondition (ke_now (te_cleanup env)) (mt_Conditions mt) condType ConditionFalse reason (te_errorText env err) (mt_Generation mt)\<rparr>
      in (fst (ta_mt_status api w mt'), TargetFailed err))"

fun run_steps :: "('w \<Rightarrow> 'w \<times> target_error option) list \<Rightarrow> 'w \<Rightarrow> 'w \<times> target_error option" where
  "run_steps [] w = (w, None)"
| "run_steps (f # fs) w = (case f w of (w', Some e) \<Rightarrow> (w', Some e) | (w', None) \<Rightarrow> run_steps fs w')"

definition target_steps :: "target_env \<Rightarrow> 'w target_api \<Rightarrow> ctl_target \<Rightarrow> ('w \<Rightarrow> 'w \<times> target_error option) list" where
  "target_steps env api mt = [ensureCoordinatorRBAC api mt, ensureNetworkPolicies api mt, ensureResourceAPI env api mt, ensure_manager env api mt]"

definition advance_known :: "ctl_target \<Rightarrow> ctl_target" where
  "advance_known mt = (if length (mt_PendingCleanup mt) = 0 then mt\<lparr>mt_KnownImageSets := sort (mt_ImageSets mt)\<rparr> else mt)"

definition exposure_condition :: "target_env \<Rightarrow> target_error option \<Rightarrow> ctl_target \<Rightarrow> ctl_target" where
  "exposure_condition env err mt =
     (case err of
        Some e \<Rightarrow> mt\<lparr>mt_Conditions := setCondition (ke_now (te_cleanup env)) (mt_Conditions mt) ''Ready'' ConditionFalse ''ExposureError'' (te_errorText env e) (mt_Generation mt)\<rparr>
      | None \<Rightarrow> mt\<lparr>mt_Conditions := setCondition (ke_now (te_cleanup env)) (mt_Conditions mt) ''Ready'' ConditionTrue ''DeploymentReady'' ''Manager deployment is active'' (mt_Generation mt)\<rparr>)"

definition finish_target :: "'w target_api \<Rightarrow> ctl_target \<Rightarrow> 'w \<Rightarrow> 'w \<times> target_result" where
  "finish_target api mt w =
     (let mt1 = advance_known mt
      in case aggregateImageSetStatus api mt1 w of
           None \<Rightarrow> (w, Crashed)
         | Some r \<Rightarrow>
             (let mt2 = (case r of Inl _ \<Rightarrow> mt1 | Inr m \<Rightarrow> m)
              in case ta_mt_status api w mt2 of
                   (w', Some e) \<Rightarrow> (w', TargetFailed (TargetUpdate e))
                 | (w', None) \<Rightarrow> (w', RequeueAfterSeconds (if length (mt_PendingCleanup mt2) > 0 then 30 else 10 * 60))))"

definition Reconcile_target :: "target_env \<Rightarrow> 'w target_api \<Rightarrow> string \<Rightarrow> 'w \<Rightarrow> 'w \<times> target_result" where
  "Reconcile_target env api name w =
     (case ta_mt_get api w name of
        Inl NotFound \<Rightarrow> (w, Settled)
      | Inl e \<Rightarrow> (w, TargetFailed (TargetGet e))
      | Inr mt \<Rightarrow>
          if mt_Deleting mt then handleDeletion api mt w
          else if mirrorTargetFinalizer \<notin> set (mt_Finalizers mt) then
            (case ta_mt_update api w (mt\<lparr>mt_Finalizers := mt_Finalizers mt @ [mirrorTargetFinalizer]\<rparr>) of
               (w', Some e) \<Rightarrow> (w', TargetFailed (TargetUpdate e))
             | (w', None) \<Rightarrow> (w', Settled))
          else
            (case reconcileCleanup (te_cleanup env) (ta_cleanup api) mt w of
               ((w1, mt1), Some e) \<Rightarrow> fail_target env api conditionTypeCleanup ''CleanupError'' mt1 (CleanupFailed e) w1
             | ((w1, mt1), None) \<Rightarrow>
                 (case run_steps (target_steps env api mt1) w1 of
                    (w2, Some e) \<Rightarrow> fail_target env api ''Ready'' reasonReconcileError mt1 e w2
                  | (w2, None) \<Rightarrow>
                      (case reconcileExposure api mt1 w2 of
                         (w3, err) \<Rightarrow> finish_target api (exposure_condition env err mt1) w3))))"

section \<open>Watches\<close>

text \<open>\<open>imageSetCountsChanged\<close> on an update, and \<open>mirrorTargetsForImageSet\<close>.\<close>

definition imageSetCountsChanged :: "image_set_status \<Rightarrow> image_set_status \<Rightarrow> bool" where
  "imageSetCountsChanged old new \<longleftrightarrow>
     ss_TotalImages old \<noteq> ss_TotalImages new \<or> ss_MirroredImages old \<noteq> ss_MirroredImages new \<or>
     ss_PendingImages old \<noteq> ss_PendingImages new \<or> ss_FailedImages old \<noteq> ss_FailedImages new"

definition mirrorTargetsForImageSet :: "kube_error + ctl_target list \<Rightarrow> string \<Rightarrow> string list" where
  "mirrorTargetsForImageSet mts isName =
     (case mts of Inl _ \<Rightarrow> [] | Inr ts \<Rightarrow> map mt_Name (filter (\<lambda>mt. isName \<in> set (mt_ImageSets mt)) ts))"

section \<open>The finalizer\<close>

lemma delete_pods_counts: "delete_pods api pods remaining w = (w', Inr n) \<Longrightarrow> n = remaining + length pods"
  by (induction api pods remaining w rule: delete_pods.induct) (auto split: if_splits prod.splits option.splits object_error.splits)

lemma delete_pods_fails: "delete_pods api pods remaining w = (w', Inl e) \<Longrightarrow> \<exists>p oe. e = PodDeleteFailed p oe"
  by (induction api pods remaining w rule: delete_pods.induct) (auto split: if_splits prod.splits option.splits object_error.splits)

text \<open>
  A MirrorTarget is let go only when its pods are gone: the finalizer is removed exactly when, with the manager Deployment deleted first, a listing of the pods of
  the target is empty; while there are any, they are deleted and the target is looked at again in five seconds.
\<close>

theorem finalizer_waits_for_pods:
  assumes "mirrorTargetFinalizer \<in> set (mt_Finalizers mt)" and "delete_manager api mt w = (w1, None)" and "ta_pods api w1 (mt_Name mt) = Inr pods"
    and "handleDeletion api mt w = (w', res)"
  shows "(res = Settled \<longrightarrow> pods = [] \<and> ta_mt_update api w1 (mt\<lparr>mt_Finalizers := filter (\<lambda>f. f \<noteq> mirrorTargetFinalizer) (mt_Finalizers mt)\<rparr>) = (w', None)) \<and>
     (pods \<noteq> [] \<longrightarrow> res = RequeueAfterSeconds 5 \<or> (\<exists>p e. res = TargetFailed (PodDeleteFailed p e)))"
proof -
  obtain w2 r where d: "delete_pods api pods 0 w1 = (w2, r)" by force
  show ?thesis
  proof (cases r)
    case (Inl e)
    with delete_pods_fails [of api pods 0 w1 w2 e] d assms show ?thesis by (auto simp: handleDeletion_def)
  next
    case (Inr n)
    with delete_pods_counts [of api pods 0 w1 w2 n] d have n: "n = length pods" by simp
    with Inr d assms show ?thesis
      by (cases pods) (auto simp: handleDeletion_def split: prod.splits option.splits)
  qed
qed

section \<open>A removal is not forgotten\<close>

text \<open>The calls of \<open>partitionAndCreateCleanupJob\<close> in a pass, each with the target and the state of the cluster it is made in.\<close>

fun removed_calls :: "cleanup_env \<Rightarrow> 'w cleanup_api \<Rightarrow> string list \<Rightarrow> ctl_target \<Rightarrow> 'w \<Rightarrow> (string \<times> ctl_target \<times> 'w) list" where
  "removed_calls env api [] mt w = []"
| "removed_calls env api (isName # ns) mt w =
     (if isName \<in> set (mt_PendingCleanup mt) then removed_calls env api ns mt w
      else (isName, mt, w) #
           (case partitionAndCreateCleanupJob env api mt isName w of
              (w1, Inl e) \<Rightarrow> []
            | (w1, Inr created) \<Rightarrow>
                removed_calls env api ns (if created then mt\<lparr>mt_PendingCleanup := mt_PendingCleanup mt @ [isName]\<rparr> else mt) w1))"

definition cleanup_calls :: "cleanup_env \<Rightarrow> 'w cleanup_api \<Rightarrow> ctl_target \<Rightarrow> 'w \<Rightarrow> (string \<times> ctl_target \<times> 'w) list" where
  "cleanup_calls env api mt w =
     (case checkPendingCleanups env api mt w of (w1, mt1) \<Rightarrow>
        (case reconcileOrphans env api mt1 w1 of
           (w2, Inl e) \<Rightarrow> []
         | (w2, Inr mt2) \<Rightarrow> if wants_delete mt2 then removed_calls env api (removed_sets mt) mt2 w2 else []))"

text \<open>Nothing of an ImageSet is its own: at that call, every entry of its state was shared or needed elsewhere.\<close>

definition nothing_exclusive :: "'w cleanup_api \<Rightarrow> string \<Rightarrow> ctl_target \<Rightarrow> 'w \<Rightarrow> bool" where
  "nothing_exclusive api n m u \<longleftrightarrow> (\<exists>st idx live. Load (ka_kube api) u n = Inr st \<and> LoadIndex (ka_kube api) u (mt_Name m) = Inr idx \<and>
     liveDestinations (ka_kube api) u m n = Inr live \<and> exclusive_of idx live st = [])"

lemma removed_loop_mono:
  "removed_loop env api ns mt w = ((w', mt'), None) \<Longrightarrow> n \<in> set (mt_PendingCleanup mt) \<Longrightarrow> n \<in> set (mt_PendingCleanup mt')"
  by (induction env api ns mt w rule: removed_loop.induct) (auto split: if_splits prod.splits sum.splits)

lemma removed_loop_handles:
  assumes "removed_loop env api ns mt w = ((w', mt'), None)" and "name \<in> set ns"
  shows "name \<in> set (mt_PendingCleanup mt') \<or>
     (\<exists>m v v'. (name, m, v) \<in> set (removed_calls env api ns mt w) \<and> partitionAndCreateCleanupJob env api m name v = (v', Inr False))"
  using assms
proof (induction ns arbitrary: mt w)
  case (Cons isName ns)
  show ?case
  proof (cases "isName \<in> set (mt_PendingCleanup mt)")
    case True
    with Cons.prems(1) have rest: "removed_loop env api ns mt w = ((w', mt'), None)" by simp
    show ?thesis using removed_loop_mono [OF rest True] Cons.IH [OF rest] Cons.prems(2) True by auto
  next
    case False
    then obtain v c where p: "partitionAndCreateCleanupJob env api mt isName w = (v, Inr c)"
      and rest: "removed_loop env api ns (if c then mt\<lparr>mt_PendingCleanup := mt_PendingCleanup mt @ [isName]\<rparr> else mt) v = ((w', mt'), None)"
      using Cons.prems(1) by (auto split: prod.splits sum.splits)
    show ?thesis
    proof (cases "name = isName \<and> c")
      case True
      then show ?thesis using removed_loop_mono [OF rest, of name] by simp
    next
      case other: False
      then show ?thesis using Cons.IH [OF rest] Cons.prems(2) p False by fastforce
    qed
  qed
qed simp

text \<open>A cleanup changes nothing of the target but the list of pending cleanups and the conditions.\<close>

definition only_progress :: "ctl_target \<Rightarrow> ctl_target \<Rightarrow> bool" where
  "only_progress mt mt' \<longleftrightarrow> mt\<lparr>mt_PendingCleanup := [], mt_Conditions := []\<rparr> = mt'\<lparr>mt_PendingCleanup := [], mt_Conditions := []\<rparr>"

lemma only_progress_trans: "only_progress a b \<Longrightarrow> only_progress b c \<Longrightarrow> only_progress a c"
  by (simp add: only_progress_def)

lemma only_progress_intro [intro, simp]:
  "only_progress mt mt" "only_progress mt (mt\<lparr>mt_PendingCleanup := p\<rparr>)" "only_progress mt (mt\<lparr>mt_Conditions := c\<rparr>)"
  by (simp_all add: only_progress_def)

lemma only_progress_fields:
  assumes "only_progress mt mt'"
  shows "mt_KnownImageSets mt' = mt_KnownImageSets mt" and "mt_ImageSets mt' = mt_ImageSets mt" and "mt_Annotations mt' = mt_Annotations mt"
    and "mt_Name mt' = mt_Name mt"
  using assms by (auto simp: only_progress_def dest: arg_cong [where f = mt_KnownImageSets] arg_cong [where f = mt_ImageSets]
      arg_cong [where f = mt_Annotations] arg_cong [where f = mt_Name])

lemma removed_loop_progress: "removed_loop env api ns mt w = ((w', mt'), r) \<Longrightarrow> only_progress mt mt'"
proof (induction ns arbitrary: mt w)
  case (Cons n ns)
  then show ?case
    by (auto split: if_splits prod.splits sum.splits intro: only_progress_trans [OF only_progress_intro(2)])
qed simp

lemma cleanup_steps:
  assumes "reconcileCleanup env api mt w = ((w', mt'), None)"
  obtains w1 mt1 w2 mt2 mt3 where "checkPendingCleanups env api mt w = (w1, mt1)" "reconcileOrphans env api mt1 w1 = (w2, Inr mt2)"
    "reconcileRemovedImageSets env api (removed_sets mt) mt2 w2 = ((w', mt3), None)" "mt' = cleanup_condition env (removed_sets mt) mt3"
    "only_progress mt mt2" "only_progress mt mt'"
proof -
  obtain w1 mt1 where 1: "checkPendingCleanups env api mt w = (w1, mt1)" by force
  then have p1: "only_progress mt mt1" by (auto simp: checkPendingCleanups_def split: prod.splits)
  obtain w2 r where o: "reconcileOrphans env api mt1 w1 = (w2, r)" by force
  with assms 1 obtain mt2 where 2: "reconcileOrphans env api mt1 w1 = (w2, Inr mt2)"
    by (cases r) (auto simp: reconcileCleanup_def Let_def)
  then have p2: "only_progress mt1 mt2"
    by (auto simp: reconcileOrphans_def queue_orphans_def Let_def split: sum.splits if_splits prod.splits option.splits)
  obtain mt3 where 3: "reconcileRemovedImageSets env api (removed_sets mt) mt2 w2 = ((w', mt3), None)" and mt': "mt' = cleanup_condition env (removed_sets mt) mt3"
    using assms 1 2 by (auto simp: reconcileCleanup_def Let_def split: prod.splits option.splits)
  have p3: "only_progress mt2 mt3" using 3 removed_loop_progress by (auto simp: reconcileRemovedImageSets_def split: if_splits)
  have "only_progress mt3 mt'" by (simp add: mt' cleanup_condition_def)
  then show thesis using that [OF 1 2 3 mt'] p1 p2 p3 by (blast intro: only_progress_trans)
qed

lemma cleanup_handles_removed:
  assumes "cleanup_laws api" and "hex_hash (ke_sha256hex env)" and "wants_delete mt" and "reconcileCleanup env api mt w = ((w', mt'), None)"
    and "name \<in> set (removed_sets mt)"
  shows "name \<in> set (mt_PendingCleanup mt') \<or> (\<exists>m u. (name, m, u) \<in> set (cleanup_calls env api mt w) \<and> nothing_exclusive api name m u)"
proof -
  obtain w1 mt1 mt2 mt3 w2 where 1: "checkPendingCleanups env api mt w = (w1, mt1)" and 2: "reconcileOrphans env api mt1 w1 = (w2, Inr mt2)"
    and 3: "reconcileRemovedImageSets env api (removed_sets mt) mt2 w2 = ((w', mt3), None)" and mt': "mt' = cleanup_condition env (removed_sets mt) mt3"
    and p: "only_progress mt mt2" using cleanup_steps [OF assms(4)] by metis
  have wants: "wants_delete mt2" using assms(3) only_progress_fields(3) [OF p] by (simp add: wants_delete_def)
  with 3 assms(5) have loop: "removed_loop env api (removed_sets mt) mt2 w2 = ((w', mt3), None)" by (auto simp: reconcileRemovedImageSets_def split: if_splits)
  have calls: "cleanup_calls env api mt w = removed_calls env api (removed_sets mt) mt2 w2" using 1 2 wants by (simp add: cleanup_calls_def)
  have exclusive: "nothing_exclusive api name m v" if "partitionAndCreateCleanupJob env api m name v = (v', Inr False)" for m v v'
    using partition_cases [OF assms(1,2) that] unfolding nothing_exclusive_def by metis
  have pend: "mt_PendingCleanup mt' = mt_PendingCleanup mt3" by (simp add: mt' cleanup_condition_def)
  show ?thesis using removed_loop_handles [OF loop assms(5)] exclusive unfolding calls pend by blast
qed

lemma finish_writes:
  assumes "finish_target api mt w = (w', RequeueAfterSeconds t)"
  shows "\<exists>mt2. ta_mt_status api w mt2 = (w', None) \<and> mt_PendingCleanup mt2 = mt_PendingCleanup mt \<and> mt_KnownImageSets mt2 = mt_KnownImageSets (advance_known mt) \<and>
     t = (if mt_PendingCleanup mt = [] then 600 else 30)"
proof -
  have agg: "mt_PendingCleanup m = mt_PendingCleanup mt1 \<and> mt_KnownImageSets m = mt_KnownImageSets mt1"
    if "aggregateImageSetStatus api mt1 w = Some (Inr m)" for mt1 m
    using that by (auto simp: aggregateImageSetStatus_def derive_totals_def set_totals_def Let_def split: sum.splits option.splits if_splits prod.splits)
  obtain r where r: "aggregateImageSetStatus api (advance_known mt) w = Some r"
    using assms by (cases "aggregateImageSetStatus api (advance_known mt) w") (auto simp: finish_target_def Let_def)
  have pend: "mt_PendingCleanup (advance_known mt) = mt_PendingCleanup mt" by (simp add: advance_known_def)
  show ?thesis
    using assms r pend agg [of "advance_known mt"] by (cases r) (auto simp: finish_target_def Let_def split: prod.splits option.splits)
qed

text \<open>
  What a pass that ends well under the cleanup policy records of the removals it sees: each ImageSet that was removed from the spec is pending, or had, when it was looked at in this pass, no entry of its own
  in its state. As long as anything is pending the known ImageSets are written back as they were, so that the removal is seen again, and the target is looked at again after thirty
  seconds; otherwise the known ImageSets become those of the spec. An earlier cleanup whose record in the status was lost is not covered: its ImageSet has no state any more (see
  \<open>lost_status_forgets_cleanup\<close>).
\<close>

theorem removal_not_forgotten:
  assumes "cleanup_laws (ta_cleanup api)" and "hex_hash (ke_sha256hex (te_cleanup env))"
    and "ta_mt_get api w name = Inr mt" and "\<not> mt_Deleting mt" and "mirrorTargetFinalizer \<in> set (mt_Finalizers mt)" and "wants_delete mt"
    and "Reconcile_target env api name w = (w', RequeueAfterSeconds t)"
  shows "\<exists>v mt2. ta_mt_status api v mt2 = (w', None) \<and> t = (if mt_PendingCleanup mt2 = [] then 600 else 30) \<and>
     mt_KnownImageSets mt2 = (if mt_PendingCleanup mt2 = [] then sort (mt_ImageSets mt) else mt_KnownImageSets mt) \<and>
     (\<forall>n. n \<in> set (mt_KnownImageSets mt) \<longrightarrow> n \<notin> set (mt_ImageSets mt) \<longrightarrow>
        n \<in> set (mt_PendingCleanup mt2) \<or>
        (\<exists>m u. (n, m, u) \<in> set (cleanup_calls (te_cleanup env) (ta_cleanup api) mt w) \<and> nothing_exclusive (ta_cleanup api) n m u))"
proof -
  obtain w1 mt1 where c: "reconcileCleanup (te_cleanup env) (ta_cleanup api) mt w = ((w1, mt1), None)"
    using assms by (auto simp: Reconcile_target_def fail_target_def Let_def split: prod.splits option.splits)
  obtain w2 where s: "run_steps (target_steps env api mt1) w1 = (w2, None)"
    using assms c by (cases "run_steps (target_steps env api mt1) w1") (auto simp: Reconcile_target_def fail_target_def Let_def split: option.splits)
  obtain w3 err where x: "reconcileExposure api mt1 w2 = (w3, err)" by force
  define m where "m = exposure_condition env err mt1"
  have "finish_target api m w3 = (w', RequeueAfterSeconds t)"
    using assms c s x by (simp add: Reconcile_target_def m_def)
  from finish_writes [OF this] obtain mt2 where f: "ta_mt_status api w3 mt2 = (w', None)" "mt_PendingCleanup mt2 = mt_PendingCleanup m"
    "mt_KnownImageSets mt2 = mt_KnownImageSets (advance_known m)" "t = (if mt_PendingCleanup m = [] then 600 else 30)" by blast
  have p: "only_progress mt mt1" using cleanup_steps [OF c] by metis
  have m: "mt_PendingCleanup m = mt_PendingCleanup mt1" "mt_KnownImageSets m = mt_KnownImageSets mt" "mt_ImageSets m = mt_ImageSets mt"
    using only_progress_fields [OF p] by (auto simp: m_def exposure_condition_def split: option.splits)
  have n: "n \<in> set (mt_PendingCleanup mt2) \<or>
      (\<exists>m u. (n, m, u) \<in> set (cleanup_calls (te_cleanup env) (ta_cleanup api) mt w) \<and> nothing_exclusive (ta_cleanup api) n m u)"
    if "n \<in> set (mt_KnownImageSets mt)" "n \<notin> set (mt_ImageSets mt)" for n
    using cleanup_handles_removed [OF assms(1,2,6) c, of n] that f(2) m(1) by (auto simp: removed_sets_def)
  have k: "mt_KnownImageSets mt2 = (if mt_PendingCleanup mt2 = [] then sort (mt_ImageSets mt) else mt_KnownImageSets mt)"
    using f(2,3) m by (simp add: advance_known_def)
  show ?thesis by (rule exI [of _ w3], rule exI [of _ mt2]) (use f n k in simp)
qed

section \<open>Drift is repaired\<close>

text \<open>
  What an API server does with an object: a write that succeeds stores it, and no write touches an object of another kind or name; the status of a target is none of them.
\<close>

definition object_laws :: "'w target_api \<Rightarrow> bool" where
  "object_laws api \<longleftrightarrow>
     (\<forall>w key ob. snd (ta_create api w key ob) = None \<longrightarrow> ta_get api (fst (ta_create api w key ob)) key = Inr ob) \<and>
     (\<forall>w key ob. snd (ta_update api w key ob) = None \<longrightarrow> ta_get api (fst (ta_update api w key ob)) key = Inr ob) \<and>
     (\<forall>w key ob k. k \<noteq> key \<longrightarrow> ta_get api (fst (ta_create api w key ob)) k = ta_get api w k) \<and>
     (\<forall>w key ob k. k \<noteq> key \<longrightarrow> ta_get api (fst (ta_update api w key ob)) k = ta_get api w k) \<and>
     (\<forall>w key k. k \<noteq> key \<longrightarrow> ta_get api (fst (ta_delete api w key)) k = ta_get api w k) \<and>
     (\<forall>w mt k. ta_get api (fst (ta_mt_status api w mt)) k = ta_get api w k)"

text \<open>An object is in place: it exists with the given spec.\<close>

definition in_place :: "'w target_api \<Rightarrow> 'w \<Rightarrow> object_key \<times> object_spec \<Rightarrow> bool" where
  "in_place api w x = (case ta_get api w (fst x) of Inr ob \<Rightarrow> ko_Spec ob = snd x | Inl _ \<Rightarrow> False)"

definition sets_spec :: "(kobject \<Rightarrow> object_error + kobject) \<Rightarrow> object_spec \<Rightarrow> bool" where
  "sets_spec mutate spec \<longleftrightarrow> (\<forall>ob0 ob. mutate ob0 = Inr ob \<longrightarrow> ko_Spec ob = spec)"

lemma sets_spec_intro [simp]:
  "sets_spec (controlled mt l s) s" "sets_spec (shared_by mt l s) s" "sets_spec (controlled_spec mt s) s" "sets_spec (shared_spec mt s) s"
  "sets_spec (policy_object mt np) (PolicySpec np)"
  by (auto simp: sets_spec_def controlled_def shared_by_def controlled_spec_def shared_spec_def policy_object_def
      setControllerReference_def setOwnerReference_def split: if_splits)

lemma object_lawsD:
  assumes "object_laws api"
  shows "snd (ta_create api w key ob) = None \<Longrightarrow> ta_get api (fst (ta_create api w key ob)) key = Inr ob"
    and "snd (ta_update api w key ob) = None \<Longrightarrow> ta_get api (fst (ta_update api w key ob)) key = Inr ob"
    and "k \<noteq> key \<Longrightarrow> ta_get api (fst (ta_create api w key ob)) k = ta_get api w k"
    and "k \<noteq> key \<Longrightarrow> ta_get api (fst (ta_update api w key ob)) k = ta_get api w k"
    and "k \<noteq> key \<Longrightarrow> ta_get api (fst (ta_delete api w key)) k = ta_get api w k"
    and "ta_get api (fst (ta_mt_status api w mt)) k = ta_get api w k"
  using assms unfolding object_laws_def by metis+

lemma createOrUpdate_frame:
  assumes "object_laws api" and "k \<noteq> key"
  shows "ta_get api (fst (createOrUpdate api key mutate w)) k = ta_get api w k"
  using object_lawsD(3,4) [OF assms] by (simp add: createOrUpdate_def split: sum.splits object_error.splits)

lemma createOrUpdate_sets:
  assumes "object_laws api" and "snd (createOrUpdate api key mutate w) = None" and "sets_spec mutate spec"
  shows "in_place api (fst (createOrUpdate api key mutate w)) (key, spec)"
proof -
  have "\<exists>ob0 ob. mutate ob0 = Inr ob \<and> ta_get api (fst (createOrUpdate api key mutate w)) key = Inr ob"
    using object_lawsD(1,2) [OF assms(1), of w key] assms(2) by (auto simp: createOrUpdate_def split: sum.splits object_error.splits if_splits)
  with assms(3) show ?thesis by (auto simp: in_place_def sets_spec_def)
qed

abbreviation ensured_keys :: "(string \<times> object_key \<times> (kobject \<Rightarrow> object_error + kobject)) list \<Rightarrow> object_key list" where
  "ensured_keys os \<equiv> map (\<lambda>x. fst (snd x)) os"

lemma ensure_all_frame:
  assumes "object_laws api" and "k \<notin> set (ensured_keys os)"
  shows "ta_get api (fst (ensure_all api os w)) k = ta_get api w k"
  using assms(2)
proof (induction os arbitrary: w)
  case (Cons x os)
  obtain what key mutate where x: "x = (what, key, mutate)" by (cases x) auto
  with Cons.prems have "ta_get api (fst (createOrUpdate api key mutate w)) k = ta_get api w k" by (intro createOrUpdate_frame [OF assms(1)]) simp
  with Cons show ?case
    by (cases "createOrUpdate api key mutate w"; cases "snd (createOrUpdate api key mutate w)") (simp_all add: x)
qed simp

lemma ensure_all_sets:
  assumes "object_laws api" and "distinct (ensured_keys os)" and "snd (ensure_all api os w) = None"
    and "(what, key, mutate) \<in> set os" and "sets_spec mutate spec"
  shows "in_place api (fst (ensure_all api os w)) (key, spec)"
  using assms(2-4)
proof (induction os arbitrary: w)
  case (Cons x os)
  obtain what' key' mutate' where x: "x = (what', key', mutate')" by (cases x) auto
  obtain w1 r where c: "createOrUpdate api key' mutate' w = (w1, r)" by force
  with Cons.prems(2) x have r: "r = None" and rest: "snd (ensure_all api os w1) = None" by (auto split: option.splits)
  show ?case
  proof (cases "(what, key, mutate) \<in> set os")
    case True
    with Cons.IH [OF _ rest] Cons.prems(1) show ?thesis by (simp add: x c r)
  next
    case False
    with Cons.prems(3) x have eq: "what' = what" "key' = key" "mutate' = mutate" by auto
    have "in_place api w1 (key, spec)" using createOrUpdate_sets [OF assms(1) _ assms(5), of key w] c r eq by simp
    moreover have "key \<notin> set (ensured_keys os)" using Cons.prems(1) x eq by simp
    ultimately show ?thesis using ensure_all_frame [OF assms(1), of key os w1] by (simp add: x c r in_place_def)
  qed
qed simp

text \<open>The objects of a target that carry a spec, in the order in which they are ensured.\<close>

definition wanted_objects :: "target_env \<Rightarrow> ctl_target \<Rightarrow> (object_key \<times> object_spec) list" where
  "wanted_objects env mt =
     (let coordinator = mt_Name mt @ ''-coordinator''
      in [((''Role'', coordinator), RoleSpec coordinator_rules),
          ((''RoleBinding'', coordinator), BindingSpec coordinator [(''ServiceAccount'', coordinator, mt_Namespace mt)])] @
         map (\<lambda>(name, np). ((''NetworkPolicy'', name), PolicySpec np)) (network_policies mt) @
         [((''Role'', resource_api), RoleSpec resource_api_rules),
          ((''RoleBinding'', resource_api), BindingSpec resource_api [(''ServiceAccount'', resource_api, mt_Namespace mt)]),
          ((''Deployment'', resource_api), DeploymentSpec (resource_deployment env mt)),
          ((''Service'', resource_api), ServiceSpec [(''app'', resource_api)] [([], 8081)]),
          ((''Deployment'', mt_Name mt @ ''-manager''), DeploymentSpec (manager_deployment env mt)),
          ((''Service'', mt_Name mt @ ''-manager''), manager_service mt),
          ((''Service'', mt_Name mt @ ''-resources''), ServiceSpec [(''app'', resource_api)] [(''resources'', 8081)])])"

text \<open>No name of a target makes two of the names clash: they end differently.\<close>

lemma last_differs: "xs \<noteq> [] \<Longrightarrow> ys \<noteq> [] \<Longrightarrow> last xs \<noteq> last ys \<Longrightarrow> a @ xs \<noteq> b @ ys"
  by (metis last_appendR)

lemma target_names_differ:
  "n @ ''-coordinator'' \<noteq> resource_api" "n @ ''-manager'' \<noteq> resource_api" "n @ ''-resources'' \<noteq> resource_api"
  "n @ ''-manager-ingress'' \<noteq> resource_api" "n @ ''-worker-ingress-deny'' \<noteq> resource_api"
  using last_differs [where ys = "''i''" and a = n and b = "''oc-mirror-resource-ap''"] by simp_all

lemma wanted_progress: "only_progress mt mt' \<Longrightarrow> wanted_objects env mt' = wanted_objects env mt"
proof -
  assume p: "only_progress mt mt'"
  have "mt' = mt\<lparr>mt_PendingCleanup := mt_PendingCleanup mt', mt_Conditions := mt_Conditions mt'\<rparr>"
  proof -
    have "mt' = (mt'\<lparr>mt_PendingCleanup := [], mt_Conditions := []\<rparr>)\<lparr>mt_PendingCleanup := mt_PendingCleanup mt', mt_Conditions := mt_Conditions mt'\<rparr>" by simp
    also have "\<dots> = (mt\<lparr>mt_PendingCleanup := [], mt_Conditions := []\<rparr>)\<lparr>mt_PendingCleanup := mt_PendingCleanup mt', mt_Conditions := mt_Conditions mt'\<rparr>"
      using p by (simp only: only_progress_def)
    finally show ?thesis by simp
  qed
  then obtain a b where "mt' = mt\<lparr>mt_PendingCleanup := a, mt_Conditions := b\<rparr>" by blast
  then show ?thesis
    by (simp add: wanted_objects_def network_policies_def manager_selector_def worker_selector_def resource_deployment_def manager_deployment_def manager_service_def
        manager_labels_def managerContainerEnv_def managerContainerVolumeMounts_def managerPodVolumes_def Let_def)
qed

lemma in_place_cong: "ta_get api w' (fst x) = ta_get api w (fst x) \<Longrightarrow> in_place api w' x = in_place api w x"
  by (simp add: in_place_def)

declare ensure_all.simps [simp del]

lemma policies_frame:
  assumes "object_laws api" and "fst k \<noteq> ''NetworkPolicy''"
  shows "ta_get api (fst (ensureNetworkPolicies api mt w)) k = ta_get api w k"
proof -
  have "k \<noteq> (''NetworkPolicy'', n)" for n using assms(2) by auto
  then show ?thesis
    using ensure_all_frame [OF assms(1), of k "map (\<lambda>(name, np). (name, (''NetworkPolicy'', name), policy_object mt np)) (network_policies mt)" w]
      object_lawsD(5) [OF assms(1), of k "(''NetworkPolicy'', mt_Name mt @ ''-worker-egress'')"]
    by (auto simp: ensureNetworkPolicies_def network_policies_def case_prod_unfold split: option.splits object_error.splits)
qed

lemma resource_frame:
  assumes "object_laws api" and "snd k \<noteq> resource_api"
  shows "ta_get api (fst (ensureResourceAPI env api mt w)) k = ta_get api w k"
proof -
  have ne: "k \<noteq> (kind, resource_api)" for kind using assms(2) by auto
  have "ta_get api (fst (ensureResourceRBAC api mt w)) k = ta_get api w k"
    unfolding ensureResourceRBAC_def by (rule ensure_all_frame [OF assms(1)]) (simp add: ne)
  moreover have "ta_get api (fst (ensure_all api
      [(''resource api deployment'', (''Deployment'', resource_api), shared_by mt [(''app'', resource_api)] (DeploymentSpec (resource_deployment env mt))),
       (''resource api'', (''Service'', resource_api), shared_by mt [(''app'', resource_api)] (ServiceSpec [(''app'', resource_api)] [([], 8081)]))] v)) k = ta_get api v k" for v
    by (rule ensure_all_frame [OF assms(1)]) (simp add: ne)
  ultimately show ?thesis by (simp add: ensureResourceAPI_def case_prod_unfold split: option.splits)
qed

lemma manager_frame:
  assumes "object_laws api" and "snd k \<noteq> mt_Name mt @ ''-manager''" and "snd k \<noteq> mt_Name mt @ ''-resources''"
  shows "ta_get api (fst (ensure_manager env api mt w)) k = ta_get api w k"
proof -
  have "k \<noteq> (kind, mt_Name mt @ ''-manager'')" "k \<noteq> (kind, mt_Name mt @ ''-resources'')" for kind using assms(2,3) by auto
  then show ?thesis unfolding ensure_manager_def by (intro ensure_all_frame [OF assms(1)]) simp
qed

lemma exposure_frame:
  assumes "object_laws api" and "fst k \<notin> {''Route'', ''Ingress'', ''HTTPRoute''}"
  shows "ta_get api (fst (reconcileExposure api mt w)) k = ta_get api w k"
proof -
  have ne: "k \<noteq> (''Route'', n)" "k \<noteq> (''Ingress'', n)" "k \<noteq> (''HTTPRoute'', n)" for n using assms(2) by auto
  have d: "ta_get api (delete_exposure api mt kind v) k = ta_get api v k" if "kind \<in> {''Route'', ''Ingress'', ''HTTPRoute''}" for kind v
    unfolding delete_exposure_def by (rule object_lawsD(5) [OF assms(1)]) (use assms(2) that in auto)
  have e: "ta_get api (fst (ensureRoute api mt n v)) k = ta_get api v k" "ta_get api (fst (ensureIngress api mt n v)) k = ta_get api v k"
    "ta_get api (fst (ensureHTTPRoute api mt n v)) k = ta_get api v k" for n v
    using ne ensure_all_frame [OF assms(1)]
    by (simp_all add: ensureRoute_def ensureIngress_def ensureHTTPRoute_def Let_def split: option.splits)
  show ?thesis by (simp add: reconcileExposure_def Let_def d e)
qed

lemmas target_frames = policies_frame resource_frame manager_frame exposure_frame

lemma coordinator_in_place:
  assumes "object_laws api" and "snd (ensureCoordinatorRBAC api mt w) = None"
  shows "in_place api (fst (ensureCoordinatorRBAC api mt w)) ((''Role'', mt_Name mt @ ''-coordinator''), RoleSpec coordinator_rules)"
    and "in_place api (fst (ensureCoordinatorRBAC api mt w)) ((''RoleBinding'', mt_Name mt @ ''-coordinator''),
      BindingSpec (mt_Name mt @ ''-coordinator'') [(''ServiceAccount'', mt_Name mt @ ''-coordinator'', mt_Namespace mt)])"
proof -
  let ?n = "mt_Name mt @ ''-coordinator''"
  let ?b = "BindingSpec ?n [(''ServiceAccount'', ?n, mt_Namespace mt)]"
  show "in_place api (fst (ensureCoordinatorRBAC api mt w)) ((''Role'', ?n), RoleSpec coordinator_rules)"
    using assms(2) ensure_all_sets [OF assms(1) _ _ _ sets_spec_intro(3) [of mt "RoleSpec coordinator_rules"], of _ w "''coordinator Role''" "(''Role'', ?n)"]
    by (simp add: ensureCoordinatorRBAC_def Let_def)
  show "in_place api (fst (ensureCoordinatorRBAC api mt w)) ((''RoleBinding'', ?n), ?b)"
    using assms(2) ensure_all_sets [OF assms(1) _ _ _ sets_spec_intro(3) [of mt ?b], of _ w "''coordinator RoleBinding''" "(''RoleBinding'', ?n)"]
    by (simp add: ensureCoordinatorRBAC_def Let_def)
qed

lemma policies_in_place:
  assumes "object_laws api" and "snd (ensureNetworkPolicies api mt w) = None" and "(name, np) \<in> set (network_policies mt)"
  shows "in_place api (fst (ensureNetworkPolicies api mt w)) ((''NetworkPolicy'', name), PolicySpec np)"
proof -
  let ?os = "map (\<lambda>(name, np). (name, (''NetworkPolicy'', name), policy_object mt np)) (network_policies mt)"
  let ?egress = "(''NetworkPolicy'', mt_Name mt @ ''-worker-egress'')"
  have none: "snd (ensure_all api ?os w) = None" using assms(2) by (auto simp: ensureNetworkPolicies_def split: prod.splits option.splits)
  have "in_place api (fst (ensure_all api ?os w)) ((''NetworkPolicy'', name), PolicySpec np)"
  proof (rule ensure_all_sets [OF assms(1) _ none])
    show "distinct (ensured_keys ?os)" by (simp add: network_policies_def)
    show "(name, (''NetworkPolicy'', name), policy_object mt np) \<in> set ?os" using assms(3) by force
  qed simp
  moreover have "ta_get api (fst (ta_delete api v ?egress)) (''NetworkPolicy'', name) = ta_get api v (''NetworkPolicy'', name)" for v
    by (rule object_lawsD(5) [OF assms(1)]) (use assms(3) in \<open>auto simp: network_policies_def\<close>)
  ultimately show ?thesis using none
    by (auto simp: ensureNetworkPolicies_def in_place_def case_prod_unfold split: option.splits object_error.splits)
qed

lemma resource_in_place:
  assumes "object_laws api" and "snd (ensureResourceAPI env api mt w) = None"
    and "x \<in> {((''Role'', resource_api), RoleSpec resource_api_rules),
      ((''RoleBinding'', resource_api), BindingSpec resource_api [(''ServiceAccount'', resource_api, mt_Namespace mt)]),
      ((''Deployment'', resource_api), DeploymentSpec (resource_deployment env mt)),
      ((''Service'', resource_api), ServiceSpec [(''app'', resource_api)] [([], 8081)])}"
  shows "in_place api (fst (ensureResourceAPI env api mt w)) x"
proof -
  let ?b = "BindingSpec resource_api [(''ServiceAccount'', resource_api, mt_Namespace mt)]"
  define os where "os = [(''resource api deployment'', (''Deployment'', resource_api), shared_by mt [(''app'', resource_api)] (DeploymentSpec (resource_deployment env mt))),
     (''resource api'', (''Service'', resource_api), shared_by mt [(''app'', resource_api)] (ServiceSpec [(''app'', resource_api)] [([], 8081)]))]"
  obtain w1 where r: "ensureResourceRBAC api mt w = (w1, None)" and eq: "ensureResourceAPI env api mt w = ensure_all api os w1"
    using assms(2) by (auto simp: ensureResourceAPI_def os_def split: prod.splits option.splits)
  have none: "snd (ensure_all api os w1) = None" "snd (ensureResourceRBAC api mt w) = None" using assms(2) eq r by simp_all
  have w1: "w1 = fst (ensureResourceRBAC api mt w)" using r by simp
  have "in_place api w1 ((''Role'', resource_api), RoleSpec resource_api_rules)" "in_place api w1 ((''RoleBinding'', resource_api), ?b)"
    unfolding w1 using none(2) ensure_all_sets [OF assms(1) _ _ _ sets_spec_intro(4) [of mt "RoleSpec resource_api_rules"], of _ w "''resource api''" "(''Role'', resource_api)"]
      ensure_all_sets [OF assms(1) _ _ _ sets_spec_intro(4) [of mt ?b], of _ w "''resource api''" "(''RoleBinding'', resource_api)"]
    by (simp_all add: ensureResourceRBAC_def)
  moreover have "ta_get api (fst (ensure_all api os w1)) (kind, resource_api) = ta_get api w1 (kind, resource_api)" if "kind \<in> {''Role'', ''RoleBinding''}" for kind
    by (rule ensure_all_frame [OF assms(1)]) (use that in \<open>auto simp: os_def\<close>)
  moreover have "distinct (ensured_keys os)" by (simp add: os_def)
  ultimately show ?thesis using assms(3) ensure_all_sets [OF assms(1) _ none(1) _ sets_spec_intro(2)]
    unfolding eq by (auto simp: in_place_def os_def)
qed

lemma manager_in_place:
  assumes "object_laws api" and "snd (ensure_manager env api mt w) = None"
    and "x \<in> {((''Deployment'', mt_Name mt @ ''-manager''), DeploymentSpec (manager_deployment env mt)), ((''Service'', mt_Name mt @ ''-manager''), manager_service mt),
      ((''Service'', mt_Name mt @ ''-resources''), ServiceSpec [(''app'', resource_api)] [(''resources'', 8081)])}"
  shows "in_place api (fst (ensure_manager env api mt w)) x"
  using assms(2,3) ensure_all_sets [OF assms(1) _ _ _ sets_spec_intro(1)] unfolding ensure_manager_def by auto

text \<open>
  Property C15. A pass that ends well has repaired every drift: whatever was changed or deleted by hand before, the roles and bindings, the network policies, both Deployments and all
  Services of the target are in the cluster with the spec that the target asks for. No step of the pass undoes an earlier one.
\<close>

theorem reconcile_repairs_drift:
  assumes "object_laws api" and "ta_mt_get api w name = Inr mt" and "\<not> mt_Deleting mt" and "mirrorTargetFinalizer \<in> set (mt_Finalizers mt)"
    and "Reconcile_target env api name w = (w', RequeueAfterSeconds t)"
  shows "list_all (in_place api w') (wanted_objects env mt)"
proof -
  obtain w1 m where c: "reconcileCleanup (te_cleanup env) (ta_cleanup api) mt w = ((w1, m), None)"
    using assms by (auto simp: Reconcile_target_def fail_target_def Let_def split: prod.splits option.splits)
  obtain a b d e where s: "ensureCoordinatorRBAC api m w1 = (a, None)" "ensureNetworkPolicies api m a = (b, None)" "ensureResourceAPI env api m b = (d, None)"
    "ensure_manager env api m d = (e, None)" and r: "run_steps (target_steps env api m) w1 = (e, None)"
    using assms c by (auto simp: Reconcile_target_def fail_target_def target_steps_def Let_def split: prod.splits option.splits)
  obtain f err where x: "reconcileExposure api m e = (f, err)" by force
  have fin: "finish_target api (exposure_condition env err m) f = (w', RequeueAfterSeconds t)" using assms c r x by (simp add: Reconcile_target_def)
  obtain mt2 where "w' = fst (ta_mt_status api f mt2)" using finish_writes [OF fin] by (metis fst_conv)
  then have get: "in_place api w' x = in_place api e x" if "fst (fst x) \<notin> {''Route'', ''Ingress'', ''HTTPRoute''}" for x
    using object_lawsD(6) [OF assms(1)] exposure_frame [OF assms(1) that, of m e] x by (intro in_place_cong) simp
  have frames: "fst (fst x) \<noteq> ''NetworkPolicy'' \<Longrightarrow> in_place api b x = in_place api a x" "snd (fst x) \<noteq> resource_api \<Longrightarrow> in_place api d x = in_place api b x"
    "snd (fst x) \<noteq> mt_Name m @ ''-manager'' \<Longrightarrow> snd (fst x) \<noteq> mt_Name m @ ''-resources'' \<Longrightarrow> in_place api e x = in_place api d x" for x
    using policies_frame [OF assms(1), of "fst x" m a] resource_frame [OF assms(1), of "fst x" env m b] manager_frame [OF assms(1), of "fst x" m env d] s
    by (simp_all add: in_place_def)
  have at: "in_place api a ((''Role'', mt_Name m @ ''-coordinator''), RoleSpec coordinator_rules)"
    "in_place api a ((''RoleBinding'', mt_Name m @ ''-coordinator''), BindingSpec (mt_Name m @ ''-coordinator'') [(''ServiceAccount'', mt_Name m @ ''-coordinator'', mt_Namespace m)])"
    "\<And>name np. (name, np) \<in> set (network_policies m) \<Longrightarrow> in_place api b ((''NetworkPolicy'', name), PolicySpec np)"
    using coordinator_in_place [OF assms(1), of m w1] policies_in_place [OF assms(1), of m a] s by auto
  note more = resource_in_place [OF assms(1), of env m b, unfolded s fst_conv snd_conv, OF refl] manager_in_place [OF assms(1), of env m d, unfolded s fst_conv snd_conv, OF refl]
  have "list_all (in_place api w') (wanted_objects env m)"
    unfolding wanted_objects_def network_policies_def Let_def
    by (simp add: get frames at more target_names_differ target_names_differ [symmetric]) (simp add: at network_policies_def)
  then show ?thesis using cleanup_steps [OF c] wanted_progress by metis
qed

section \<open>Who reaches whom\<close>

text \<open>
  What network policies mean: a label selector takes a pod whose labels carry all of its pairs; a pod that no ingress policy selects is open, and a selected one is reached at a port
  only through a rule of one of its policies, from a pod that a peer of the rule selects, or from anywhere if the rule has no peers.
\<close>

definition selects :: "annotations \<Rightarrow> annotations \<Rightarrow> bool" where
  "selects sel labels = list_all (\<lambda>(k, v). mget labels k = Some v) sel"

definition admits :: "network_policy list \<Rightarrow> annotations \<Rightarrow> annotations \<Rightarrow> int \<Rightarrow> bool" where
  "admits nps to_labels from_labels port =
     (let mine = filter (\<lambda>np. selects (np_PodSelector np) to_labels \<and> ''Ingress'' \<in> set (np_PolicyTypes np)) nps
      in mine = [] \<or>
         list_ex (\<lambda>np. list_ex (\<lambda>r. pt_Port r = port \<and> (pt_From r = [] \<or> list_ex (\<lambda>sel. selects sel from_labels) (pt_From r))) (np_Ingress np)) mine)"

text \<open>
  Property C21. The status port of a manager, over which the results of the workers and their token come in, is reached by the workers of its own target only, whatever else runs in the
  namespace; nothing at all reaches a worker; and both selectors fit the pods: the manager Service and the policies select the pod of the Deployment, and
  the worker pods that the manager of the target builds are the ones that get through.
\<close>

theorem status_port_for_own_workers:
  "(admits (map snd (network_policies mt)) (manager_labels mt) from_labels 8080 \<longleftrightarrow>
      mget from_labels ''app'' = Some ''oc-mirror-worker'' \<and> mget from_labels ''mirrortarget'' = Some (mt_Name mt)) \<and>
   (admits (map snd (network_policies mt)) (wp_Labels (worker_pod_spec bj dj img m t items)) from_labels port \<longleftrightarrow> mm_TargetName m \<noteq> mt_Name mt) \<and>
   (admits (map snd (network_policies mt)) (manager_labels mt) (wp_Labels (worker_pod_spec bj dj img m t items)) 8080 \<longleftrightarrow> mm_TargetName m = mt_Name mt) \<and>
   (case manager_service mt of ServiceSpec sel _ \<Rightarrow> selects sel (dp_PodLabels (manager_deployment env mt)) | _ \<Rightarrow> False)"
  by (auto simp: admits_def selects_def network_policies_def manager_selector_def worker_selector_def manager_labels_def worker_pod_spec_def manager_service_def
      manager_deployment_def Let_def)

section \<open>The aggregated counts\<close>

definition needed_dests :: "'w kube \<Rightarrow> 'w \<Rightarrow> string list \<Rightarrow> string set" where
  "needed_dests k w isNames = (\<Union>n \<in> set isNames. case Load k w n of Inl _ \<Rightarrow> {} | Inr st \<Rightarrow> fst ` set st)"

lemma keys_put: "fst ` set (mput k v m) = insert k (fst ` set m)"
  using dom_map_of_conv_image_fst [of "mput k v m"] dom_map_of_conv_image_fst [of m] by (auto simp: dom_def split: if_splits)

lemma wf_put_all: "wf_map m \<Longrightarrow> wf_map (fold (\<lambda>(d, e). mput d e) st m)"
  by (induction st arbitrary: m) auto

lemma keys_put_all: "fst ` set (fold (\<lambda>(d, e). mput d e) st m) = fst ` set m \<union> fst ` set st"
  by (induction st arbitrary: m) (simp_all add: keys_put case_prod_unfold)

lemma merged_states_keys: "fst ` set (merged_states k w isNames) = needed_dests k w isNames" "wf_map (merged_states k w isNames)"
proof -
  define step where "step = (\<lambda>n merged. case Load k w n of Inl _ \<Rightarrow> merged | Inr st \<Rightarrow> fold (\<lambda>(dest, entry). mput dest entry) st merged)"
  have "fst ` set (fold step isNames m) = fst ` set m \<union> needed_dests k w isNames" for m
    by (induction isNames arbitrary: m) (auto simp: step_def needed_dests_def keys_put_all split: sum.splits)
  then show "fst ` set (merged_states k w isNames) = needed_dests k w isNames" by (simp add: merged_states_def step_def)
  have "wf_map m \<Longrightarrow> wf_map (fold step isNames m)" for m
    by (induction isNames arbitrary: m) (auto simp: step_def wf_put_all split: sum.splits)
  then show "wf_map (merged_states k w isNames)" by (simp add: merged_states_def step_def)
qed

lemma count_entries_sum: "count_entries st (a, b, c) = (m, p, f) \<Longrightarrow> m + p + f = a + b + c + int (length st)"
  by (induction st "(a, b, c)" arbitrary: a b c rule: count_entries.induct) (auto split: if_splits)

text \<open>
  An image that several ImageSets of a target need counts once: while the manager has written no summary for just these ImageSets, and the state of one of them has entries, the
  total of the target is the number of different destinations in the states that can be read, and it is the sum of the mirrored, the pending and the failed ones.
\<close>

theorem aggregate_counts_destinations_once:
  assumes "ta_is_list api w = Inr isList" and "\<forall>s. LoadSummary (ka_kube (ta_cleanup api)) w (mt_Name mt) = Inr (Some s) \<longrightarrow> sm_ImageSets s \<noteq> sort (mt_ImageSets mt)"
    and "n \<in> set (mt_ImageSets mt)" and "Load (ka_kube (ta_cleanup api)) w n = Inr st" and "st \<noteq> []"
    and "aggregateImageSetStatus api mt w = Some (Inr mt')"
  shows "mt_TotalImages mt' = int (card (needed_dests (ka_kube (ta_cleanup api)) w (mt_ImageSets mt))) \<and>
     mt_TotalImages mt' = mt_MirroredImages mt' + mt_PendingImages mt' + mt_FailedImages mt'"
proof -
  let ?k = "ka_kube (ta_cleanup api)"
  let ?merged = "merged_states ?k w (mt_ImageSets mt)"
  obtain sums where "derive_totals ?k w (mt\<lparr>mt_ImageSetStatuses := sums\<rparr>) sums = Some (Inr mt')"
    using assms(1,2,6) by (auto simp: aggregateImageSetStatus_def Let_def split: sum.splits option.splits if_splits)
  then have mt': "mt' = set_totals (Counts (map (\<lambda>(d, e). (d, the e)) ?merged)) (mt\<lparr>mt_ImageSetStatuses := sums\<rparr>)"
    using assms(3-5) by (auto simp: derive_totals_def Let_def split: if_splits)
  obtain m p f where c: "count_entries (map (\<lambda>(d, e). (d, the e)) ?merged) (0, 0, 0) = (m, p, f)" by (metis prod_cases3)
  have "length ?merged = card (fst ` set ?merged)" using merged_states_keys(2) [of ?k w "mt_ImageSets mt"] distinct_card by (fastforce simp: wf_map_def)
  with merged_states_keys(1) [of ?k w "mt_ImageSets mt"] have "length ?merged = card (needed_dests ?k w (mt_ImageSets mt))" by simp
  with c count_entries_sum [OF c] show ?thesis by (simp add: mt' Counts_def set_totals_def)
qed

section \<open>A cluster with one target\<close>

record target_world = cleanup_world +
  tw_target :: "ctl_target option"
  tw_objects :: "(object_key, kobject) gomap"
  tw_pods :: "string list"

definition mem_target :: "target_world target_api" where
  "mem_target =
     \<lparr>ta_cleanup = mem_cleanup,
      ta_mt_get = (\<lambda>w name. case tw_target w of Some mt \<Rightarrow> if mt_Name mt = name then Inr mt else Inl NotFound | None \<Rightarrow> Inl NotFound),
      ta_mt_update = (\<lambda>w mt. (w\<lparr>tw_target := Some mt\<rparr>, None)), ta_mt_status = (\<lambda>w mt. (w\<lparr>tw_target := Some mt\<rparr>, None)),
      ta_get = (\<lambda>w key. case mget (tw_objects w) key of Some ob \<Rightarrow> Inr ob | None \<Rightarrow> Inl ObjNotFound),
      ta_create = (\<lambda>w key ob. (w\<lparr>tw_objects := mput key ob (tw_objects w)\<rparr>, None)),
      ta_update = (\<lambda>w key ob. (w\<lparr>tw_objects := mput key ob (tw_objects w)\<rparr>, None)),
      ta_delete = (\<lambda>w key. case mget (tw_objects w) key of Some _ \<Rightarrow> (w\<lparr>tw_objects := mdel key (tw_objects w)\<rparr>, None) | None \<Rightarrow> (w, Some ObjNotFound)),
      ta_pods = (\<lambda>w name. Inr (map (\<lambda>p. (p, False)) (tw_pods w))),
      ta_pod_delete = (\<lambda>w p. (w\<lparr>tw_pods := remove1 p (tw_pods w)\<rparr>, None)),
      ta_is_list = (\<lambda>w. Inr [])\<rparr>"

definition toy_target_env :: target_env where
  "toy_target_env = \<lparr>te_cleanup = toy_cleanup_env, te_managerImage = ''manager'', te_operatorImage = ''operator'', te_errorText = (\<lambda>e. ''error'')\<rparr>"

definition held_target :: ctl_target where
  "held_target = two_sets_target\<lparr>mt_Finalizers := [mirrorTargetFinalizer]\<rparr>"

text \<open>The cluster of \<open>two_sets\<close> with its target, from whose spec \<open>a\<close> was removed.\<close>

definition target_cluster :: target_world where
  "target_cluster = cleanup_world.extend two_sets (target_world.fields (Some held_target) [] [''worker-1''])"

lemma mem_target_cleanup: "ta_cleanup mem_target = mem_cleanup" "te_cleanup toy_target_env = toy_cleanup_env"
  by (simp_all add: mem_target_def toy_target_env_def)

lemma target_pass: "snd (Reconcile_target toy_target_env mem_target ''mt'' target_cluster) = RequeueAfterSeconds 30"
  by code_simp

theorem removal_not_forgotten_witness:
  "\<exists>v mt2. ta_mt_status mem_target v mt2 = (fst (Reconcile_target toy_target_env mem_target ''mt'' target_cluster), None) \<and> mt_KnownImageSets mt2 = [''a'', ''b'']"
proof -
  let ?r = "Reconcile_target toy_target_env mem_target ''mt'' target_cluster"
  have r: "?r = (fst ?r, RequeueAfterSeconds 30)" using target_pass by (metis prod.collapse)
  have mt: "ta_mt_get mem_target target_cluster ''mt'' = Inr held_target" by code_simp
  have known: "mt_KnownImageSets held_target = [''a'', ''b'']" "\<not> mt_Deleting held_target" "mirrorTargetFinalizer \<in> set (mt_Finalizers held_target)" "wants_delete held_target"
    by code_simp+
  have laws: "cleanup_laws (ta_cleanup mem_target)" "hex_hash (ke_sha256hex (te_cleanup toy_target_env))"
    unfolding mem_target_cleanup by (rule mem_cleanup_laws, rule toy_hash)
  from removal_not_forgotten [OF laws mt known(2-4) r] obtain v mt2 where v: "ta_mt_status mem_target v mt2 = (fst ?r, None)"
    and t: "(30 :: int) = (if mt_PendingCleanup mt2 = [] then 600 else 30)"
    and k: "mt_KnownImageSets mt2 = (if mt_PendingCleanup mt2 = [] then sort (mt_ImageSets held_target) else mt_KnownImageSets held_target)" by blast
  from t have "mt_PendingCleanup mt2 \<noteq> []" by auto
  with v k known(1) show ?thesis by auto
qed

lemma mem_target_objects: "object_laws mem_target"
  unfolding object_laws_def by (auto simp: mem_target_def split: option.splits)

text \<open>The Deployment of the manager was scaled to three by hand.\<close>

definition drifted_cluster :: target_world where
  "drifted_cluster = target_cluster\<lparr>tw_objects := [((''Deployment'', ''mt-manager''),
     \<lparr>ko_Labels = [], ko_Owners = [], ko_Spec = DeploymentSpec ((manager_deployment toy_target_env held_target)\<lparr>dp_Replicas := 3\<rparr>)\<rparr>)]\<rparr>"

theorem reconcile_repairs_drift_witness:
  "list_all (in_place mem_target (fst (Reconcile_target toy_target_env mem_target ''mt'' drifted_cluster))) (wanted_objects toy_target_env held_target)"
proof -
  let ?r = "Reconcile_target toy_target_env mem_target ''mt'' drifted_cluster"
  have "snd ?r = RequeueAfterSeconds 30" by code_simp
  then have r: "?r = (fst ?r, RequeueAfterSeconds 30)" by (metis prod.collapse)
  have mt: "ta_mt_get mem_target drifted_cluster ''mt'' = Inr held_target" "\<not> mt_Deleting held_target" "mirrorTargetFinalizer \<in> set (mt_Finalizers held_target)" by code_simp+
  show ?thesis using reconcile_repairs_drift [OF mem_target_objects mt r] .
qed

theorem aggregate_counts_destinations_once_witness:
  "mt_TotalImages (projr (the (aggregateImageSetStatus mem_target (held_target\<lparr>mt_ImageSets := [''a'', ''b'']\<rparr>) target_cluster))) =
     int (card (needed_dests (ka_kube (ta_cleanup mem_target)) target_cluster [''a'', ''b'']))"
proof -
  let ?mt = "held_target\<lparr>mt_ImageSets := [''a'', ''b'']\<rparr>"
  let ?a = "aggregateImageSetStatus mem_target ?mt target_cluster"
  have l: "Load (ka_kube (ta_cleanup mem_target)) target_cluster ''b'' = Inr [(''t/y:1'', Some (zero_entry\<lparr>State := stateMirrored\<rparr>))]" by code_simp
  have s: "LoadSummary (ka_kube (ta_cleanup mem_target)) target_cluster (mt_Name ?mt) = Inr None" by code_simp
  have "case ?a of Some (Inr _) \<Rightarrow> True | _ \<Rightarrow> False" by code_simp
  then have a: "?a = Some (Inr (projr (the ?a)))" by (auto split: option.splits sum.splits)
  have i: "ta_is_list mem_target target_cluster = Inr []" by (simp add: mem_target_def)
  from aggregate_counts_destinations_once [OF i _ _ l _ a] s show ?thesis by simp
qed

theorem finalizer_waits_for_pods_witness:
  "snd (handleDeletion mem_target held_target target_cluster) = RequeueAfterSeconds 5"
proof -
  let ?h = "handleDeletion mem_target held_target target_cluster"
  have h: "?h = (fst ?h, snd ?h)" by simp
  have m: "delete_manager mem_target held_target target_cluster = (target_cluster, None)" by code_simp
  have p: "ta_pods mem_target target_cluster (mt_Name held_target) = Inr [(''worker-1'', False)]" by code_simp
  have f: "mirrorTargetFinalizer \<in> set (mt_Finalizers held_target)" by code_simp
  have "\<forall>p e. snd ?h \<noteq> TargetFailed (PodDeleteFailed p e)" by (simp add: handleDeletion_def m p f) (simp add: mem_target_def)
  with finalizer_waits_for_pods [OF f m p h] show ?thesis by blast
qed

text \<open>
  The list of pending cleanups lives in the status only: when the status write at the end of the pass that starts a cleanup is lost, the next pass
  finds the state of \<open>a\<close> gone, takes its cleanup as finished and makes \<open>b\<close> the only known ImageSet, while the Job is still running.
\<close>

theorem lost_status_forgets_cleanup:
  "let w1 = (fst (Reconcile_target toy_target_env mem_target ''mt'' target_cluster))\<lparr>tw_target := Some held_target\<rparr>;
       w2 = fst (Reconcile_target toy_target_env mem_target ''mt'' w1)
   in map (\<lambda>(n, j). (kj_Succeeded j, kj_Failed j)) (cw_jobs w1) = [(0, 0)] \<and> cw_jobs w2 = cw_jobs w1 \<and>
      map_option mt_PendingCleanup (tw_target w2) = Some [] \<and> map_option mt_KnownImageSets (tw_target w2) = Some [''b'']"
  by code_simp

end
