(* ===== verification/ConsoleView.thy ===== *)
theory ConsoleView
  imports MirrorTarget Complex_Main
begin

text \<open>
  The read side of the HTTP API of the console (\<open>pkg/resourceapi/server.go\<close>): the cluster as a client of the API server sees it, the lookups, the status views, the
  generated resources and the list of release channels. A handler that only reads is a function of the state of the cluster; \<open>None\<close> is a handler that panics.
  The numbers Go computes as \<open>float64\<close> are rational here.
\<close>

section \<open>The cluster\<close>

datatype api_error = ApiNotFound | ApiForbidden | ApiConflict | ApiInvalid string | ApiOther string

record console_set = ctl_image_set +
  is_Namespace :: string
  is_ResourceVersion :: nat

record console_cm =
  kc_Name :: string
  kc_Labels :: annotations
  kc_Data :: "(string, string) gomap"
  kc_BinaryData :: "(string, string) gomap"
  kc_Created :: "int option"

text \<open>A client of the API server; an empty namespace lists all of them.\<close>

record 'w console_client =
  cc_is_get :: "'w \<Rightarrow> string \<Rightarrow> string \<Rightarrow> api_error + console_set"
  cc_is_list :: "'w \<Rightarrow> string \<Rightarrow> api_error + console_set list"
  cc_is_update :: "'w \<Rightarrow> console_set \<Rightarrow> 'w \<times> api_error option"
  cc_is_delete :: "'w \<Rightarrow> console_set \<Rightarrow> 'w \<times> api_error option"
  cc_mt_get :: "'w \<Rightarrow> string \<Rightarrow> string \<Rightarrow> api_error + ctl_target"
  cc_mt_list :: "'w \<Rightarrow> string \<Rightarrow> api_error + ctl_target list"
  cc_mt_update :: "'w \<Rightarrow> ctl_target \<Rightarrow> 'w \<times> api_error option"
  cc_cm_get :: "'w \<Rightarrow> string \<Rightarrow> string \<Rightarrow> api_error + console_cm"
  cc_cm_list :: "'w \<Rightarrow> string \<Rightarrow> annotations \<Rightarrow> api_error + console_cm list"
  cc_kube :: "string \<Rightarrow> 'w kube"

section \<open>What the API answers\<close>

record target_summary =
  ts_Namespace :: string
  ts_Name :: string
  ts_Registry :: string
  ts_TotalImages :: int
  ts_MirroredImages :: int
  ts_PendingImages :: int
  ts_FailedImages :: int

record condition_summary =
  cn_Type :: string
  cn_Status :: condition_status
  cn_Reason :: string
  cn_Message :: string

record catalog_summary =
  cy_Slug :: string
  cy_Source :: string
  cy_TargetImage :: string
  cy_FilteredPackagesURL :: string
  cy_UpstreamPackagesURL :: string
  cy_ImageSets :: "string list"

record resource_link =
  rk_Name :: string
  rk_URL :: string
  rk_Type :: string

record image_set_json =
  ij_Name :: string
  ij_Found :: bool
  ij_Total :: int
  ij_Mirrored :: int
  ij_Pending :: int
  ij_Failed :: int
  ij_Resources :: "resource_link list"
  ij_Catalogs :: "string list"
  ij_HasPlatform :: bool

record target_detail =
  td_Summary :: target_summary
  td_Conditions :: "condition_summary list"
  td_ImageSets :: "image_set_json list"
  td_Resources :: "resource_link list"
  td_Catalogs :: "catalog_summary list"

record failed_image =
  fi_Destination :: string
  fi_Source :: string
  fi_State :: string
  fi_LastError :: string
  fi_RetryCount :: int
  fi_PermanentlyFailed :: bool
  fi_NextRetryAt :: string
  fi_ImageSet :: string

record image_set_progress =
  ig_Name :: string
  ig_Total :: int
  ig_Mirrored :: int
  ig_Pending :: int
  ig_Failed :: int
  ig_Percent :: rat

record target_progress =
  tp_ImageSets :: "image_set_progress list"
  tp_Total :: int
  tp_Mirrored :: int
  tp_Pending :: int
  tp_Failed :: int
  tp_Percent :: rat
  tp_EtaSeconds :: "rat option"
  tp_LastErrors :: "string list"

record channel_entry =
  ce_Name :: string
  ce_Type :: string
  ce_Version :: string

record channel_constraint =
  ck_Name :: string
  ck_MinVersion :: string
  ck_MaxVersion :: string

record package_constraint =
  pc_Name :: string
  pc_MinVersion :: string
  pc_MaxVersion :: string
  pc_Channels :: "channel_constraint list"
  pc_Bundles :: "string list option"

record package_patch =
  pp_Packages :: "package_constraint list"
  pp_Include :: "string list"

record operator_entry =
  oj_Catalog :: string
  oj_TargetCatalog :: string
  oj_TargetTag :: string
  oj_Full :: bool
  oj_SkipDependencies :: bool
  oj_PackagesConfigured :: bool
  oj_SignatureVerificationConfigured :: bool

record release_channel_json =
  rj_Name :: string
  rj_Type :: string
  rj_MinVersion :: string
  rj_MaxVersion :: string
  rj_ShortestPath :: bool
  rj_Full :: bool

text \<open>The architectures are a slice that may be nil.\<close>

record release_json =
  rl_Graph :: bool
  rl_Architectures :: "string list option"
  rl_Channels :: "release_channel_json list"

record target_spec_json =
  tj_Registry :: string
  tj_Insecure :: bool
  tj_AuthSecret :: string
  tj_Concurrency :: int
  tj_BatchSize :: int
  tj_PollInterval :: string
  tj_CheckExistInterval :: string

datatype api_body =
    NoBody
  | Message string
  | RawText string string
  | TargetsJSON "target_summary list"
  | DetailJSON target_detail
  | FailuresJSON "failed_image list" "failed_image list"
  | ProgressJSON target_progress
  | ChannelsJSON "channel_entry list"
  | ConstraintsJSON "package_constraint list"
  | OperatorsJSON "operator_entry list"
  | SettingsJSON bool
  | ReleasesJSON release_json
  | HelmJSON "repository list"
  | BlockedJSON "string list"
  | AdditionalJSON "additional_image list"
  | SpecJSON target_spec_json

type_synonym response = "int \<times> api_body"

definition ok_json :: "api_body \<Rightarrow> response" where
  "ok_json b = (200, b)"

text \<open>The server: its own client, its namespace (empty in cluster-wide mode), whether a configuration to build clients from is known, and its two caches.\<close>

record 'w console_server =
  sv_client :: "'w console_client"
  sv_namespace :: string
  sv_baseCfg :: bool
  sv_tokenClients :: "(string, 'w console_client \<times> int) gomap"
  sv_channels :: "channel_entry list option"
  sv_fetchedAt :: int

text \<open>Libraries and network: \<open>packagesOf\<close> decodes a \<open>packages.json\<close>, \<open>forbidden\<close> is \<open>apierrors.IsForbidden\<close> of a load error, \<open>rfc3339\<close> a time as text.\<close>

record console_net =
  cn_packagesOf :: "string \<Rightarrow> packages_response option"
  cn_forbidden :: "error \<Rightarrow> bool"
  cn_rfc3339 :: "int \<Rightarrow> string"
  cn_errorText :: "api_error \<Rightarrow> string"
  cn_loadText :: "error \<Rightarrow> string"
  cn_base64 :: "string \<Rightarrow> string"
  cn_unbase64 :: "string \<Rightarrow> string + string"
  cn_yaml :: "(string \<times> string \<times> string) list \<Rightarrow> string option"
  cn_github :: "(string \<times> string) list option"
  cn_now :: int

section \<open>Targets\<close>

definition LookupMirrorTarget :: "'w console_server \<Rightarrow> 'w console_client \<Rightarrow> 'w \<Rightarrow> string \<Rightarrow> api_error + ctl_target" where
  "LookupMirrorTarget srv c w name =
     (if sv_namespace srv \<noteq> [] then cc_mt_get c w (sv_namespace srv) name
      else (case cc_mt_list c w [] of
              Inl e \<Rightarrow> Inl e
            | Inr l \<Rightarrow> (case find (\<lambda>mt. mt_Name mt = name) l of Some mt \<Rightarrow> Inr mt | None \<Rightarrow> Inl ApiNotFound)))"

fun lookup_failure :: "console_net \<Rightarrow> string \<Rightarrow> api_error \<Rightarrow> response" where
  "lookup_failure net what ApiNotFound = (404, Message ''MirrorTarget not found'')"
| "lookup_failure net what ApiForbidden = (403, Message ''forbidden: insufficient permissions'')"
| "lookup_failure net what e = (500, Message (what @ '': '' @ cn_errorText net e))"

definition target_summary_of :: "ctl_target \<Rightarrow> target_summary" where
  "target_summary_of mt =
     \<lparr>ts_Namespace = mt_Namespace mt, ts_Name = mt_Name mt, ts_Registry = mt_Registry mt, ts_TotalImages = mt_TotalImages mt,
      ts_MirroredImages = mt_MirroredImages mt, ts_PendingImages = mt_PendingImages mt, ts_FailedImages = mt_FailedImages mt\<rparr>"

definition handleTargetsList :: "console_net \<Rightarrow> 'w console_server \<Rightarrow> 'w console_client \<Rightarrow> 'w \<Rightarrow> response" where
  "handleTargetsList net srv c w =
     (case cc_mt_list c w (sv_namespace srv) of
        Inl ApiForbidden \<Rightarrow> (403, Message ''forbidden: insufficient permissions'')
      | Inl e \<Rightarrow> (500, Message (''failed to list MirrorTargets: '' @ cn_errorText net e))
      | Inr l \<Rightarrow> ok_json (TargetsJSON (map target_summary_of l)))"

section \<open>Detail of a target\<close>

definition catalog_link :: "string \<Rightarrow> string \<Rightarrow> string \<Rightarrow> string \<Rightarrow> resource_link list" where
  "catalog_link base key kind title =
     (if hasSuffix key ''.yaml'' \<and> hasPrefix key (kind @ ''-'') then
        (let slug = trimSuffix (trimPrefix key (kind @ ''-'')) ''.yaml''
         in [\<lparr>rk_Name = title @ '' ('' @ slug @ '')'', rk_URL = base @ ''/catalogs/'' @ slug @ ''/'' @ kind @ ''.yaml'', rk_Type = ''yaml''\<rparr>])
      else [])"

definition resources_base :: "string \<Rightarrow> string" where
  "resources_base mtName = ''/api/v1/targets/'' @ mtName @ ''/imagesets/latest''"

definition buildResourceLinks :: "string \<Rightarrow> console_cm \<Rightarrow> resource_link list" where
  "buildResourceLinks mtName cm =
     (let base = resources_base mtName
      in (if mget (kc_Data cm) ''idms.yaml'' \<noteq> None then [\<lparr>rk_Name = ''IDMS'', rk_URL = base @ ''/idms.yaml'', rk_Type = ''yaml''\<rparr>] else []) @
         (if mget (kc_Data cm) ''itms.yaml'' \<noteq> None then [\<lparr>rk_Name = ''ITMS'', rk_URL = base @ ''/itms.yaml'', rk_Type = ''yaml''\<rparr>] else []) @
         concat (map (\<lambda>(key, _). if hasPrefix key ''catalogsource-'' then catalog_link base key ''catalogsource'' ''CatalogSource''
                                  else catalog_link base key ''clustercatalog'' ''ClusterCatalog'') (kc_Data cm)))"

abbreviation packages_label :: string where "packages_label \<equiv> ''oc-mirror.openshift.io/catalog-packages''"

definition source_slug :: "console_net \<Rightarrow> console_cm \<Rightarrow> (string, string) gomap \<Rightarrow> (string, string) gomap" where
  "source_slug net pcm m =
     (let slug = mget_str (kc_Labels pcm) packages_label
      in if slug = [] then m
         else (case Option.bind (mget (kc_Data pcm) ''packages.json'') (cn_packagesOf net) of
                 Some r \<Rightarrow> if pk_Catalog r \<noteq> [] then mput (pk_Catalog r) slug m else m
               | None \<Rightarrow> m))"

definition set_map :: "console_set list \<Rightarrow> (string, console_set) gomap" where
  "set_map l = fold (\<lambda>is. mput (is_Name is) is) l []"

definition own_catalog :: "(string, string) gomap \<Rightarrow> string \<Rightarrow> operator \<Rightarrow> (string, string list) gomap \<times> (string, string list) gomap
    \<Rightarrow> (string, string list) gomap \<times> (string, string list) gomap" where
  "own_catalog slugs isName op maps =
     (let slug = (case mget slugs (op_Catalog op) of Some s \<Rightarrow> s | None \<Rightarrow> CatalogSlug (op_Catalog op))
      in (mput slug (mget_list (fst maps) slug @ [isName]) (fst maps), mput isName (mget_list (snd maps) isName @ [slug]) (snd maps)))"

definition buildCatalogOwnershipMaps ::
  "console_net \<Rightarrow> api_error + console_set list \<Rightarrow> ctl_target \<Rightarrow> console_cm list \<Rightarrow> (string, string list) gomap \<times> (string, string list) gomap" where
  "buildCatalogOwnershipMaps net isList mt cms =
     (let slugs = fold (source_slug net) cms []
      in case isList of
           Inl _ \<Rightarrow> ([], [])
         | Inr l \<Rightarrow>
             fold (\<lambda>isName maps. case mget (set_map l) isName of
                                    None \<Rightarrow> maps
                                  | Some is \<Rightarrow> fold (own_catalog slugs isName) (ms_Operators (is_Mirror is)) maps)
               (mt_ImageSets mt) ([], []))"

fun catalog_summaries :: "console_net \<Rightarrow> string \<Rightarrow> (string, string list) gomap \<Rightarrow> console_cm list \<Rightarrow> string list \<Rightarrow> catalog_summary list" where
  "catalog_summaries net mtName owners [] shown = []"
| "catalog_summaries net mtName owners (pcm # rest) shown =
     (let slug = mget_str (kc_Labels pcm) packages_label
      in if slug = [] \<or> slug \<in> set shown then catalog_summaries net mtName owners rest shown
         else (let base = ''/api/v1/targets/'' @ mtName @ ''/catalogs/'' @ slug;
                   r = Option.bind (mget (kc_Data pcm) ''packages.json'') (cn_packagesOf net)
               in \<lparr>cy_Slug = slug, cy_Source = (case r of Some p \<Rightarrow> pk_Catalog p | None \<Rightarrow> []),
                   cy_TargetImage = (case r of Some p \<Rightarrow> pk_TargetImage p | None \<Rightarrow> []),
                   cy_FilteredPackagesURL = base @ ''/packages.json'', cy_UpstreamPackagesURL = base @ ''/upstream-packages.json'',
                   cy_ImageSets = mget_list owners slug\<rparr> # catalog_summaries net mtName owners rest (slug # shown)))"

definition packages_link :: "catalog_summary \<Rightarrow> resource_link" where
  "packages_link cy = \<lparr>rk_Name = ''Packages ('' @ cy_Slug cy @ '')'', rk_URL = cy_FilteredPackagesURL cy, rk_Type = ''json''\<rparr>"

definition signature_link :: "string \<Rightarrow> api_error + console_cm \<Rightarrow> resource_link list" where
  "signature_link mtName sigCM =
     (case sigCM of
        Inr cm \<Rightarrow> if length (kc_BinaryData cm) > 0 then
                    [\<lparr>rk_Name = ''Signatures ('' @ Itoa (int (length (kc_BinaryData cm))) @ '' releases)'',
                      rk_URL = ''/api/v1/targets/'' @ mtName @ ''/signatures.yaml'', rk_Type = ''yaml''\<rparr>] else []
      | Inl _ \<Rightarrow> [])"

definition has_platform :: "api_error + console_set list \<Rightarrow> ctl_target \<Rightarrow> string \<Rightarrow> bool" where
  "has_platform isList mt isName =
     (case isList of
        Inl _ \<Rightarrow> False
      | Inr l \<Rightarrow> isName \<in> set (mt_ImageSets mt) \<and>
                 (case mget (set_map l) isName of Some is \<Rightarrow> pf_Channels (ms_Platform (is_Mirror is)) \<noteq> [] | None \<Rightarrow> False))"

definition image_set_view :: "(string, string list) gomap \<Rightarrow> string list \<Rightarrow> (string \<Rightarrow> bool) \<Rightarrow> image_set_summary \<Rightarrow> image_set_json" where
  "image_set_view iseToCatalogs slugsWithCM hasPlatform iss =
     \<lparr>ij_Name = iss_Name iss, ij_Found = iss_Found iss, ij_Total = iss_Total iss, ij_Mirrored = iss_Mirrored iss, ij_Pending = iss_Pending iss,
      ij_Failed = iss_Failed iss, ij_Resources = [], ij_Catalogs = filter (\<lambda>s. s \<in> set slugsWithCM) (mget_list iseToCatalogs (iss_Name iss)),
      ij_HasPlatform = hasPlatform (iss_Name iss)\<rparr>"

definition handleTargetDetail :: "console_net \<Rightarrow> 'w console_server \<Rightarrow> 'w console_client \<Rightarrow> string \<Rightarrow> 'w \<Rightarrow> response" where
  "handleTargetDetail net srv c mtName w =
     (case LookupMirrorTarget srv c w mtName of
        Inl e \<Rightarrow> lookup_failure net ''get MirrorTarget'' e
      | Inr mt \<Rightarrow>
          (let ns = mt_Namespace mt;
               resources = (case cc_cm_get c w ns (''oc-mirror-'' @ mtName @ ''-resources'') of Inr cm \<Rightarrow> buildResourceLinks mtName cm | Inl _ \<Rightarrow> []);
               sigs = signature_link mtName (cc_cm_get c w ns (mtName @ ''-signatures''));
               cms = (case cc_cm_list c w ns [(''oc-mirror.openshift.io/mirrortarget'', mtName)] of Inr l \<Rightarrow> l | Inl _ \<Rightarrow> []);
               isList = cc_is_list c w ns
           in case buildCatalogOwnershipMaps net isList mt cms of (catalogToISes, iseToCatalogs) \<Rightarrow>
                (let catalogs = catalog_summaries net mtName catalogToISes cms []
                 in ok_json (DetailJSON
                      \<lparr>td_Summary = target_summary_of mt,
                       td_Conditions = map (\<lambda>cd. \<lparr>cn_Type = cd_Type cd, cn_Status = cd_Status cd, cn_Reason = cd_Reason cd, cn_Message = cd_Message cd\<rparr>) (mt_Conditions mt),
                       td_ImageSets = map (image_set_view iseToCatalogs (map cy_Slug catalogs) (has_platform isList mt)) (mt_ImageSetStatuses mt),
                       td_Resources = resources @ sigs @ map packages_link catalogs, td_Catalogs = catalogs\<rparr>))))"

section \<open>Failures and progress\<close>

definition failed_detail_of :: "console_net \<Rightarrow> string \<Rightarrow> string \<Rightarrow> image_entry \<Rightarrow> failed_image" where
  "failed_detail_of net isName dest entry =
     \<lparr>fi_Destination = dest, fi_Source = Source entry, fi_State = State entry, fi_LastError = LastError entry, fi_RetryCount = RetryCount entry,
      fi_PermanentlyFailed = PermanentlyFailed entry,
      fi_NextRetryAt = (case NextRetryAt entry of Some t \<Rightarrow> if State entry = ''Failed'' then cn_rfc3339 net t else [] | None \<Rightarrow> []), fi_ImageSet = isName\<rparr>"

definition unfinished :: "loaded_state \<Rightarrow> (string \<times> image_entry) list" where
  "unfinished st = concat (map (\<lambda>(d, e). case e of None \<Rightarrow> [] | Some entry \<Rightarrow> if State entry = ''Mirrored'' then [] else [(d, entry)]) st)"

fun failures_loop :: "console_net \<Rightarrow> 'w kube \<Rightarrow> 'w \<Rightarrow> string list \<Rightarrow> failed_image list \<times> failed_image list \<Rightarrow> response" where
  "failures_loop net k w [] (failed, pending) = ok_json (FailuresJSON failed pending)"
| "failures_loop net k w (isName # ns) (failed, pending) =
     (case Load k w isName of
        Inl e \<Rightarrow> if cn_forbidden net e then (403, Message ''forbidden: insufficient permissions'')
                 else (500, Message (''Failed to load image state for imageset '' @ isName @ '': '' @ cn_loadText net e))
      | Inr st \<Rightarrow>
          (let ds = map (\<lambda>(d, e). failed_detail_of net isName d e) (unfinished st)
           in failures_loop net k w ns (failed @ filter fi_PermanentlyFailed ds, pending @ filter (\<lambda>d. \<not> fi_PermanentlyFailed d) ds)))"

definition handleImageFailures :: "console_net \<Rightarrow> 'w console_server \<Rightarrow> 'w console_client \<Rightarrow> string \<Rightarrow> 'w \<Rightarrow> response" where
  "handleImageFailures net srv c mtName w =
     (case LookupMirrorTarget srv c w mtName of
        Inl e \<Rightarrow> lookup_failure net ''failed to get MirrorTarget'' e
      | Inr mt \<Rightarrow> failures_loop net (cc_kube c (mt_Namespace mt)) w (mt_ImageSets mt) ([], []))"

definition percent :: "int \<Rightarrow> int \<Rightarrow> rat" where
  "percent m t = (if t > 0 then of_int m / of_int t * 100 else 0)"

definition older :: "int option \<Rightarrow> int option \<Rightarrow> int option" where
  "older created oldest = (case created of None \<Rightarrow> oldest | Some t \<Rightarrow> (case oldest of None \<Rightarrow> Some t | Some u \<Rightarrow> if t < u then Some t else Some u))"

definition last_error_of :: "string \<Rightarrow> loaded_state \<Rightarrow> string list" where
  "last_error_of isName st =
     (case find (\<lambda>(d, e). case e of Some entry \<Rightarrow> LastError entry \<noteq> [] \<and> State entry = ''Failed'' | None \<Rightarrow> False) st of
        Some (d, Some entry) \<Rightarrow> [isName @ '': '' @ LastError entry]
      | _ \<Rightarrow> [])"

text \<open>\<open>Counts\<close> dereferences the entries: a null entry makes the handler panic.\<close>

definition all_entries :: "loaded_state \<Rightarrow> image_state option" where
  "all_entries st = (if \<exists>(d, e) \<in> set st. e = None then None else Some (map (\<lambda>(d, e). (d, the e)) st))"

definition add_progress :: "string \<Rightarrow> image_state \<Rightarrow> loaded_state \<Rightarrow> target_progress \<Rightarrow> target_progress" where
  "add_progress isName entries st p =
     (case Counts entries of (t, m, pd, f) \<Rightarrow>
        p\<lparr>tp_ImageSets := tp_ImageSets p @ [\<lparr>ig_Name = isName, ig_Total = t, ig_Mirrored = m, ig_Pending = pd, ig_Failed = f, ig_Percent = percent m t\<rparr>],
          tp_Total := tp_Total p + t, tp_Mirrored := tp_Mirrored p + m, tp_Pending := tp_Pending p + pd, tp_Failed := tp_Failed p + f,
          tp_LastErrors := tp_LastErrors p @ last_error_of isName st\<rparr>)"

fun progress_loop :: "console_net \<Rightarrow> 'w console_client \<Rightarrow> string \<Rightarrow> 'w \<Rightarrow> string list \<Rightarrow> target_progress \<Rightarrow> int option \<Rightarrow> (response + target_progress \<times> int option) option" where
  "progress_loop net c ns w [] p oldest = Some (Inr (p, oldest))"
| "progress_loop net c ns w (isName # rest) p oldest =
     (case Load (cc_kube c ns) w isName of
        Inl e \<Rightarrow> Some (Inl (500, Message (''Failed to load image state for imageset '' @ isName @ '': '' @ cn_loadText net e)))
      | Inr st \<Rightarrow>
          (case all_entries st of
             None \<Rightarrow> None
           | Some entries \<Rightarrow>
               (let created = (case cc_cm_get c w ns (ConfigMapName isName) of Inr cm \<Rightarrow> kc_Created cm | Inl _ \<Rightarrow> None)
                in progress_loop net c ns w rest (add_progress isName entries st p) (older created oldest))))"

definition eta :: "int \<Rightarrow> int option \<Rightarrow> target_progress \<Rightarrow> rat option" where
  "eta now oldest p =
     (case oldest of
        None \<Rightarrow> None
      | Some t \<Rightarrow>
          (let elapsed = of_int (now - t) / 1000000000 :: rat
           in if elapsed > 0 \<and> tp_Mirrored p > 0 \<and> tp_Pending p > 0 then Some (of_int (tp_Pending p) / (of_int (tp_Mirrored p) / elapsed)) else None))"

definition no_progress :: target_progress where
  "no_progress = \<lparr>tp_ImageSets = [], tp_Total = 0, tp_Mirrored = 0, tp_Pending = 0, tp_Failed = 0, tp_Percent = 0, tp_EtaSeconds = None, tp_LastErrors = []\<rparr>"

definition handleTargetProgress :: "console_net \<Rightarrow> 'w console_server \<Rightarrow> 'w console_client \<Rightarrow> string \<Rightarrow> 'w \<Rightarrow> response option" where
  "handleTargetProgress net srv c mtName w =
     (case LookupMirrorTarget srv c w mtName of
        Inl e \<Rightarrow> Some (lookup_failure net ''failed to get MirrorTarget'' e)
      | Inr mt \<Rightarrow>
          (case progress_loop net c (mt_Namespace mt) w (mt_ImageSets mt) no_progress None of
             None \<Rightarrow> None
           | Some (Inl r) \<Rightarrow> Some r
           | Some (Inr (p, oldest)) \<Rightarrow>
               Some (ok_json (ProgressJSON (p\<lparr>tp_Percent := percent (tp_Mirrored p) (tp_Total p), tp_EtaSeconds := eta (cn_now net) oldest p\<rparr>)))))"

section \<open>Generated resources\<close>

definition resolveNamespace :: "'w console_server \<Rightarrow> 'w console_client \<Rightarrow> string \<Rightarrow> 'w \<Rightarrow> string" where
  "resolveNamespace srv c mtName w =
     (if sv_namespace srv \<noteq> [] then sv_namespace srv
      else (case LookupMirrorTarget srv c w mtName of Inl _ \<Rightarrow> [] | Inr mt \<Rightarrow> mt_Namespace mt))"

definition serveConfigMapResource :: "'w console_client \<Rightarrow> string \<Rightarrow> string \<Rightarrow> string \<Rightarrow> 'w \<Rightarrow> response" where
  "serveConfigMapResource c ns cmName key w =
     (case cc_cm_get c w ns cmName of
        Inl ApiForbidden \<Rightarrow> (403, Message ''forbidden: insufficient permissions'')
      | Inl _ \<Rightarrow> (404, Message ''Resource not found'')
      | Inr cm \<Rightarrow>
          (case mget (kc_Data cm) key of
             None \<Rightarrow> (404, Message ''Resource key not found in ConfigMap'')
           | Some data \<Rightarrow> (200, RawText (if hasSuffix key ''.json'' then ''application/json'' else ''text/yaml'') data)))"

definition handleIDMS :: "'w console_server \<Rightarrow> 'w console_client \<Rightarrow> string \<Rightarrow> 'w \<Rightarrow> response" where
  "handleIDMS srv c mtName w = serveConfigMapResource c (resolveNamespace srv c mtName w) (''oc-mirror-'' @ mtName @ ''-resources'') ''idms.yaml'' w"

definition handleITMS :: "'w console_server \<Rightarrow> 'w console_client \<Rightarrow> string \<Rightarrow> 'w \<Rightarrow> response" where
  "handleITMS srv c mtName w = serveConfigMapResource c (resolveNamespace srv c mtName w) (''oc-mirror-'' @ mtName @ ''-resources'') ''itms.yaml'' w"

definition handleCatalogSource :: "'w console_server \<Rightarrow> 'w console_client \<Rightarrow> string \<Rightarrow> string \<Rightarrow> 'w \<Rightarrow> response" where
  "handleCatalogSource srv c mtName slug w =
     serveConfigMapResource c (resolveNamespace srv c mtName w) (''oc-mirror-'' @ mtName @ ''-resources'') (''catalogsource-'' @ slug @ ''.yaml'') w"

definition handleClusterCatalog :: "'w console_server \<Rightarrow> 'w console_client \<Rightarrow> string \<Rightarrow> string \<Rightarrow> 'w \<Rightarrow> response" where
  "handleClusterCatalog srv c mtName slug w =
     serveConfigMapResource c (resolveNamespace srv c mtName w) (''oc-mirror-'' @ mtName @ ''-resources'') (''clustercatalog-'' @ slug @ ''.yaml'') w"

definition handleFilteredCatalogPackages :: "'w console_server \<Rightarrow> 'w console_client \<Rightarrow> string \<Rightarrow> string \<Rightarrow> 'w \<Rightarrow> response" where
  "handleFilteredCatalogPackages srv c mtName slug w =
     serveConfigMapResource c (resolveNamespace srv c mtName w) (''oc-mirror-'' @ mtName @ ''-'' @ slug @ ''-packages'') ''packages.json'' w"

definition handleUpstreamCatalogPackages :: "'w console_server \<Rightarrow> 'w console_client \<Rightarrow> string \<Rightarrow> string \<Rightarrow> 'w \<Rightarrow> response" where
  "handleUpstreamCatalogPackages srv c mtName slug w =
     serveConfigMapResource c (resolveNamespace srv c mtName w) (''oc-mirror-'' @ mtName @ ''-'' @ slug @ ''-upstream-packages'') ''packages.json'' w"

definition digest_key :: "string \<Rightarrow> string" where
  "digest_key k = (case str_index k ''sha256-'' of Some i \<Rightarrow> take i k @ ''sha256:'' @ drop (i + 7) k | None \<Rightarrow> k)"

definition handleSignatures :: "console_net \<Rightarrow> 'w console_server \<Rightarrow> 'w console_client \<Rightarrow> string \<Rightarrow> 'w \<Rightarrow> response option" where
  "handleSignatures net srv c mtName w =
     (case LookupMirrorTarget srv c w mtName of
        Inl e \<Rightarrow> Some (lookup_failure net ''failed to get MirrorTarget'' e)
      | Inr mt \<Rightarrow>
          (case cc_cm_get c w (mt_Namespace mt) (mtName @ ''-signatures'') of
             Inl ApiForbidden \<Rightarrow> Some (403, Message ''forbidden: insufficient permissions'')
           | Inl _ \<Rightarrow> Some (404, Message ''Signatures not found'')
           | Inr cm \<Rightarrow>
               (let b64sigs = fold (\<lambda>(k, v). mput (digest_key k) (cn_base64 net v)) (kc_BinaryData cm) []
                in case GenerateSignatureConfigMapsBase64 (cn_unbase64 net) b64sigs of
                     Inl _ \<Rightarrow> Some (500, Message ''Failed to generate signatures YAML'')
                   | Inr None \<Rightarrow> None
                   | Inr (Some cms) \<Rightarrow>
                       (case cn_yaml net cms of
                          None \<Rightarrow> Some (500, Message ''Failed to generate signatures YAML'')
                        | Some out \<Rightarrow> Some (200, RawText ''text/yaml'' out)))))"

section \<open>Release channels\<close>

definition channel_of_file :: "string \<times> string \<Rightarrow> channel_entry list" where
  "channel_of_file f =
     (case f of (name, ty) \<Rightarrow>
        if ty \<noteq> ''file'' \<or> \<not> hasSuffix name ''.yaml'' then []
        else (let baseName = trimSuffix name ''.yaml''
              in case last_index baseName ''-'' of
                   None \<Rightarrow> []
                 | Some i \<Rightarrow>
                     (let chType = take i baseName; ver = drop (i + 1) baseName
                      in if \<not> contains ver ''.'' then []
                         else [\<lparr>ce_Name = baseName, ce_Type = (if chType = ''okd'' then ''okd'' else ''ocp''), ce_Version = ver\<rparr>])))"

definition fetchChannelsFromGitHub :: "console_net \<Rightarrow> channel_entry list option" where
  "fetchChannelsFromGitHub net =
     (case cn_github net of
        None \<Rightarrow> None
      | Some contents \<Rightarrow> (let entries = concat (map channel_of_file contents) in if length entries = 0 then None else Some entries))"

text \<open>What \<open>strconv.Atoi\<close> returns when its error is dropped: zero for a text that is no number, the nearest bound for one that is out of range.\<close>

definition atoi_value :: "string \<Rightarrow> int" where
  "atoi_value s =
     (case Atoi s of
        Some n \<Rightarrow> n
      | None \<Rightarrow>
          (case s of
             [] \<Rightarrow> 0
           | c # cs \<Rightarrow>
               if c = CHR ''-'' then (if parse_unsigned cs = None then 0 else - (2 ^ 63))
               else if parse_unsigned (if c = CHR ''+'' then cs else s) = None then 0 else 2 ^ 63 - 1))"

definition minor_of :: "string \<Rightarrow> int" where
  "minor_of ver = atoi_value (split_char CHR ''.'' ver ! 1)"

text \<open>Go's remainder has the sign of the dividend; it is zero exactly when the number is even.\<close>

definition channels_of_version :: "string list \<Rightarrow> string \<Rightarrow> channel_entry list" where
  "channels_of_version types ver =
     map (\<lambda>t. \<lparr>ce_Name = t @ ''-'' @ ver, ce_Type = (if t = ''okd'' then ''okd'' else ''ocp''), ce_Version = ver\<rparr>)
       (filter (\<lambda>t. t \<noteq> [] \<and> \<not> (t = ''eus'' \<and> odd (minor_of ver))) types)"

definition fetchChannelsFromConfigMap :: "'w console_server \<Rightarrow> 'w \<Rightarrow> channel_entry list option" where
  "fetchChannelsFromConfigMap srv w =
     (if sv_namespace srv = [] then None
      else (case cc_cm_get (sv_client srv) w (sv_namespace srv) ''oc-mirror-ocp-versions'' of
              Inl _ \<Rightarrow> None
            | Inr cm \<Rightarrow>
                (let versionsStr = trimSpace (mget_str (kc_Data cm) ''versions''); typesStr0 = trimSpace (mget_str (kc_Data cm) ''channelTypes'');
                     typesStr = (if typesStr0 = [] then ''stable,fast,eus,candidate'' else typesStr0);
                     types = map trimSpace (split_char CHR '','' typesStr);
                     versions = filter (\<lambda>v. v \<noteq> [] \<and> contains v ''.'') (map trimSpace (split_char CHR '','' versionsStr));
                     entries = concat (map (channels_of_version types) versions)
                 in if versionsStr = [] then None else if length entries = 0 then None else Some entries)))"

definition defaultOCPChannels :: "channel_entry list" where
  "defaultOCPChannels =
     concat (map (channels_of_version [''stable'', ''fast'', ''eus'', ''candidate'']) [''4.14'', ''4.15'', ''4.16'', ''4.17'', ''4.18'', ''4.19'', ''4.20'', ''4.21''])"

abbreviation channelCacheTTL :: int where "channelCacheTTL \<equiv> hour"

definition fetch_channels :: "console_net \<Rightarrow> 'w console_server \<Rightarrow> 'w \<Rightarrow> channel_entry list option" where
  "fetch_channels net srv w = (case fetchChannelsFromGitHub net of Some es \<Rightarrow> Some es | None \<Rightarrow> fetchChannelsFromConfigMap srv w)"

definition getOCPChannels :: "console_net \<Rightarrow> 'w console_server \<Rightarrow> 'w \<Rightarrow> 'w console_server \<times> channel_entry list" where
  "getOCPChannels net srv w =
     (if sv_channels srv \<noteq> None \<and> cn_now net - sv_fetchedAt srv < channelCacheTTL then (srv, the (sv_channels srv))
      else (case fetch_channels net srv w of
              Some es \<Rightarrow> (srv\<lparr>sv_channels := Some es, sv_fetchedAt := cn_now net\<rparr>, es)
            | None \<Rightarrow> (srv, defaultOCPChannels)))"

section \<open>Links lead somewhere\<close>

lemma mem_map_of: "(k, v) \<in> set m \<Longrightarrow> \<exists>v'. mget m k = Some v'"
  by (metis image_eqI map_of_eq_None_iff not_None_eq fst_conv)

text \<open>A name that ends in \<open>.yaml\<close> keeps that ending when a prefix that ends in a dash is taken off.\<close>

lemma trim_yaml:
  assumes "hasSuffix key ''.yaml''" and "hasPrefix key (p @ ''-'')"
  shows "(p @ ''-'') @ trimSuffix (trimPrefix key (p @ ''-'')) ''.yaml'' @ ''.yaml'' = key"
proof -
  obtain t where t: "key = (p @ ''-'') @ t" using assms(2) unfolding hasPrefix_iff by blast
  obtain u where u: "key = u @ ''.yaml''" using assms(1) by (metis append_take_drop_id hasSuffix_def)
  have "\<exists>v. t = v @ ''.yaml''"
  proof -
    from t u have "(p @ ''-'') @ t = u @ ''.yaml''" by simp
    then consider v where "p @ ''-'' = u @ v" "v @ t = ''.yaml''" | v where "t = v @ ''.yaml''"
      unfolding append_eq_append_conv2 by (metis append.assoc)
    then show ?thesis
    proof cases
      case 1
      show ?thesis
      proof (cases "v = []")
        case True
        with 1(2) show ?thesis by auto
      next
        case False
        then have "CHR ''-'' \<in> set v" using 1(1) by (metis last_appendR last_in_set last_snoc)
        moreover have "set v \<subseteq> set ''.yaml''" using 1(2) by (metis Un_upper1 set_append)
        ultimately show ?thesis by auto
      qed
    qed blast
  qed
  then obtain v where v: "t = v @ ''.yaml''" by blast
  have "trimPrefix key (p @ ''-'') = t" using assms(2) t by (simp add: trimPrefix_def)
  moreover have "trimSuffix t ''.yaml'' = v" by (simp add: trimSuffix_def hasSuffix_def v)
  ultimately show ?thesis using t v by simp
qed

text \<open>
  No link of a target is dead: whatever the resources ConfigMap holds, each link that the detail view derives from it names the route of a handler which answers with
  the content of one of its keys, as YAML.
\<close>

theorem resource_links_served:
  assumes "cc_cm_get c w (resolveNamespace srv c mtName w) (''oc-mirror-'' @ mtName @ ''-resources'') = Inr cm" and "rk \<in> set (buildResourceLinks mtName cm)"
  shows "\<exists>key data. mget (kc_Data cm) key = Some data \<and>
     (rk_URL rk = resources_base mtName @ ''/idms.yaml'' \<and> handleIDMS srv c mtName w = (200, RawText ''text/yaml'' data) \<or>
      rk_URL rk = resources_base mtName @ ''/itms.yaml'' \<and> handleITMS srv c mtName w = (200, RawText ''text/yaml'' data) \<or>
      (\<exists>slug. rk_URL rk = resources_base mtName @ ''/catalogs/'' @ slug @ ''/catalogsource.yaml'' \<and> handleCatalogSource srv c mtName slug w = (200, RawText ''text/yaml'' data)) \<or>
      (\<exists>slug. rk_URL rk = resources_base mtName @ ''/catalogs/'' @ slug @ ''/clustercatalog.yaml'' \<and> handleClusterCatalog srv c mtName slug w = (200, RawText ''text/yaml'' data)))"
proof -
  have yaml: "\<not> hasSuffix key ''.json''" if "hasSuffix key ''.yaml''" for key
  proof
    assume "hasSuffix key ''.json''"
    then have "last key = CHR ''n''" by (metis append_take_drop_id hasSuffix_def last_appendR last.simps list.distinct(1))
    moreover have "last key = CHR ''l''" using that by (metis append_take_drop_id hasSuffix_def last_appendR last.simps list.distinct(1))
    ultimately show False by simp
  qed
  have serve: "serveConfigMapResource c (resolveNamespace srv c mtName w) (''oc-mirror-'' @ mtName @ ''-resources'') key w = (200, RawText ''text/yaml'' data)"
    if "mget (kc_Data cm) key = Some data" "hasSuffix key ''.yaml''" for key data
    using assms(1) that yaml by (simp add: serveConfigMapResource_def)
  have ends: "hasSuffix ''idms.yaml'' ''.yaml''" "hasSuffix ''itms.yaml'' ''.yaml''" by code_simp+
  have link: "\<exists>data slug. mget (kc_Data cm) (kind @ ''-'' @ slug @ ''.yaml'') = Some data \<and> hasSuffix (kind @ ''-'' @ slug @ ''.yaml'') ''.yaml'' \<and>
      rk_URL rk = resources_base mtName @ ''/catalogs/'' @ slug @ ''/'' @ kind @ ''.yaml''"
    if "(key, v) \<in> set (kc_Data cm)" "rk \<in> set (catalog_link (resources_base mtName) key kind title)" for key v kind title
  proof -
    have k: "hasSuffix key ''.yaml''" "hasPrefix key (kind @ ''-'')" and url: "rk_URL rk = resources_base mtName @ ''/catalogs/'' @ trimSuffix (trimPrefix key (kind @ ''-'')) ''.yaml'' @ ''/'' @ kind @ ''.yaml''"
      using that(2) by (auto simp: catalog_link_def Let_def split: if_splits)
    show ?thesis using mem_map_of [OF that(1)] trim_yaml [OF k] k(1) url by (metis append.assoc)
  qed
  from assms(2) consider data where "mget (kc_Data cm) ''idms.yaml'' = Some data" "rk_URL rk = resources_base mtName @ ''/idms.yaml''"
    | data where "mget (kc_Data cm) ''itms.yaml'' = Some data" "rk_URL rk = resources_base mtName @ ''/itms.yaml''"
    | key v where "(key, v) \<in> set (kc_Data cm)" "rk \<in> set (catalog_link (resources_base mtName) key ''catalogsource'' ''CatalogSource'')"
    | key v where "(key, v) \<in> set (kc_Data cm)" "rk \<in> set (catalog_link (resources_base mtName) key ''clustercatalog'' ''ClusterCatalog'')"
    by (auto simp: buildResourceLinks_def Let_def split: if_splits)
  then show ?thesis
  proof cases
    case 1
    with serve ends show ?thesis by (auto simp: handleIDMS_def)
  next
    case 2
    with serve ends show ?thesis by (auto simp: handleITMS_def)
  next
    case 3
    from link [OF this] serve show ?thesis by (fastforce simp: handleCatalogSource_def)
  next
    case 4
    from link [OF this] serve show ?thesis by (fastforce simp: handleClusterCatalog_def)
  qed
qed

section \<open>Failures and progress\<close>

lemma unfinished_iff: "(d, e) \<in> set (unfinished st) \<longleftrightarrow> (d, Some e) \<in> set st \<and> State e \<noteq> ''Mirrored''"
  by (force simp: unfinished_def split: option.splits)

definition details_of :: "console_net \<Rightarrow> 'w kube \<Rightarrow> 'w \<Rightarrow> string list \<Rightarrow> bool \<Rightarrow> failed_image set" where
  "details_of net k w ns permanent = {failed_detail_of net n d e |n d e. n \<in> set ns \<and>
     (\<exists>st. Load k w n = Inr st \<and> (d, Some e) \<in> set st) \<and> State e \<noteq> ''Mirrored'' \<and> PermanentlyFailed e = permanent}"

lemma permanent_detail [simp]: "fi_PermanentlyFailed (failed_detail_of net n d e) = PermanentlyFailed e"
  by (simp add: failed_detail_of_def)

lemma details_Cons:
  assumes "Load k w n = Inr st"
  shows "details_of net k w (n # ns) permanent =
     {x \<in> set (map (\<lambda>(d, e). failed_detail_of net n d e) (unfinished st)). fi_PermanentlyFailed x = permanent} \<union> details_of net k w ns permanent"
  using assms by (force simp: details_of_def unfinished_iff)

lemma failures_loop_spec:
  assumes "failures_loop net k w ns (f0, p0) = (200, FailuresJSON failed pending)"
  shows "set failed = set f0 \<union> details_of net k w ns True \<and> set pending = set p0 \<union> details_of net k w ns False"
  using assms
proof (induction ns arbitrary: f0 p0)
  case (Cons n ns)
  let ?ds = "\<lambda>st. map (\<lambda>(d, e). failed_detail_of net n d e) (unfinished st)"
  obtain st where st: "Load k w n = Inr st"
    and r: "failures_loop net k w ns (f0 @ filter fi_PermanentlyFailed (?ds st), p0 @ filter (\<lambda>d. \<not> fi_PermanentlyFailed d) (?ds st)) = (200, FailuresJSON failed pending)"
    using Cons.prems by (auto simp: Let_def split: sum.splits if_splits)
  from Cons.IH [OF r] show ?case unfolding details_Cons [OF st] by auto
qed (simp add: ok_json_def details_of_def)

text \<open>
  The failure view hides nothing: it lists exactly the images of the ImageSets of the target that are not mirrored, each under its ImageSet and with its error, those that are not tried again
  as failed and all others as pending.
\<close>

theorem failures_view_exact:
  assumes "LookupMirrorTarget srv c w mtName = Inr mt" and "handleImageFailures net srv c mtName w = (200, FailuresJSON failed pending)"
  shows "set failed \<union> set pending = {failed_detail_of net n d e |n d e. n \<in> set (mt_ImageSets mt) \<and>
        (\<exists>st. Load (cc_kube c (mt_Namespace mt)) w n = Inr st \<and> (d, Some e) \<in> set st) \<and> State e \<noteq> ''Mirrored''} \<and>
     list_all fi_PermanentlyFailed failed \<and> list_all (\<lambda>d. \<not> fi_PermanentlyFailed d) pending"
proof -
  from assms have r: "failures_loop net (cc_kube c (mt_Namespace mt)) w (mt_ImageSets mt) ([], []) = (200, FailuresJSON failed pending)"
    by (simp add: handleImageFailures_def)
  have "list_all fi_PermanentlyFailed failed" "list_all (\<lambda>d. \<not> fi_PermanentlyFailed d) pending"
    using failures_loop_spec [OF r] by (auto simp: list_all_iff details_of_def)
  moreover have "set failed \<union> set pending = (\<Union>b. details_of net (cc_kube c (mt_Namespace mt)) w (mt_ImageSets mt) b)"
    using failures_loop_spec [OF r] by (simp add: UNIV_bool Un_commute)
  ultimately show ?thesis unfolding details_of_def by blast
qed

lemma count_entries_nonneg: "count_entries st (a, b, c) = (m, p, f) \<Longrightarrow> 0 \<le> a \<Longrightarrow> 0 \<le> b \<Longrightarrow> 0 \<le> c \<Longrightarrow> 0 \<le> m \<and> 0 \<le> p \<and> 0 \<le> f"
  by (induction st "(a, b, c)" arbitrary: a b c rule: count_entries.induct) (auto split: if_splits)

lemma Counts_facts:
  assumes "Counts st = (t, m, p, f)"
  shows "t = m + p + f" and "0 \<le> m" and "0 \<le> p" and "0 \<le> f"
  using assms count_entries_sum [of st 0 0 0 m p f] count_entries_nonneg [of st 0 0 0 m p f] by (auto simp: Counts_def)

lemma percent_bounds: "0 \<le> m \<Longrightarrow> m \<le> t \<Longrightarrow> 0 \<le> percent m t \<and> percent m t \<le> 100"
  by (auto simp: percent_def field_simps)

definition progress_ok :: "target_progress \<Rightarrow> bool" where
  "progress_ok p \<longleftrightarrow> tp_Total p = tp_Mirrored p + tp_Pending p + tp_Failed p \<and> 0 \<le> tp_Mirrored p \<and> 0 \<le> tp_Pending p \<and> 0 \<le> tp_Failed p \<and>
     tp_Total p = sum_list (map ig_Total (tp_ImageSets p)) \<and> list_all (\<lambda>i. 0 \<le> ig_Percent i \<and> ig_Percent i \<le> 100) (tp_ImageSets p)"

lemma add_progress_ok: "progress_ok p \<Longrightarrow> progress_ok (add_progress n entries st p)"
proof -
  assume p: "progress_ok p"
  obtain t m pd f where c: "Counts entries = (t, m, pd, f)" by (metis prod_cases4)
  have "0 \<le> percent m t \<and> percent m t \<le> 100" using Counts_facts [OF c] by (intro percent_bounds) auto
  then show ?thesis using p Counts_facts [OF c] by (simp add: add_progress_def c progress_ok_def)
qed

lemma progress_loop_fails: "progress_loop net c ns w sets p oldest = Some (Inl r) \<Longrightarrow> fst r = 500"
  by (induction net c ns w sets p oldest rule: progress_loop.induct) (auto simp: Let_def split: sum.splits option.splits)

lemma progress_loop_ok:
  assumes "progress_ok p" and "progress_loop net c ns w sets p oldest = Some (Inr (p', oldest'))"
  shows "progress_ok p' \<and> map ig_Name (tp_ImageSets p') = map ig_Name (tp_ImageSets p) @ sets"
  using assms
proof (induction sets arbitrary: p oldest)
  case (Cons n sets)
  then obtain st entries where "Load (cc_kube c ns) w n = Inr st" "all_entries st = Some entries"
    and r: "progress_loop net c ns w sets (add_progress n entries st p)
      (older (case cc_cm_get c w ns (ConfigMapName n) of Inr cm \<Rightarrow> kc_Created cm | Inl _ \<Rightarrow> None) oldest) = Some (Inr (p', oldest'))"
    by (auto simp: Let_def split: sum.splits option.splits)
  have "map ig_Name (tp_ImageSets (add_progress n entries st p)) = map ig_Name (tp_ImageSets p) @ [n]" by (simp add: add_progress_def split: prod.splits)
  with Cons.IH [OF add_progress_ok [OF Cons.prems(1)] r] show ?case by simp
qed simp

text \<open>
  The progress view adds up: it has one line per ImageSet of the target in the order of the spec, its total is the sum of the lines and of what is mirrored, pending and failed, every
  percentage lies between 0 and 100, and an estimate of the remaining time, if there is one, is positive.
\<close>

theorem progress_view_adds_up:
  assumes "LookupMirrorTarget srv c w mtName = Inr mt" and "handleTargetProgress net srv c mtName w = Some (200, ProgressJSON p)"
  shows "map ig_Name (tp_ImageSets p) = mt_ImageSets mt \<and> progress_ok p \<and> 0 \<le> tp_Percent p \<and> tp_Percent p \<le> 100 \<and>
     (case tp_EtaSeconds p of Some e \<Rightarrow> 0 < e | None \<Rightarrow> True)"
proof -
  obtain q oldest where q: "progress_loop net c (mt_Namespace mt) w (mt_ImageSets mt) no_progress None = Some (Inr (q, oldest))"
    using assms progress_loop_fails by (fastforce simp: handleTargetProgress_def split: option.splits sum.splits prod.splits)
  have p: "p = q\<lparr>tp_Percent := percent (tp_Mirrored q) (tp_Total q), tp_EtaSeconds := eta (cn_now net) oldest q\<rparr>"
    using assms q by (simp add: handleTargetProgress_def ok_json_def)
  have "progress_ok no_progress" by (simp add: progress_ok_def no_progress_def)
  from progress_loop_ok [OF this q] have ok: "progress_ok q" and nm: "map ig_Name (tp_ImageSets q) = mt_ImageSets mt" by (simp_all add: no_progress_def)
  have "0 \<le> percent (tp_Mirrored q) (tp_Total q) \<and> percent (tp_Mirrored q) (tp_Total q) \<le> 100"
    using ok by (intro percent_bounds) (auto simp: progress_ok_def)
  moreover have "case eta (cn_now net) oldest q of Some e \<Rightarrow> 0 < e | None \<Rightarrow> True" by (auto simp: eta_def Let_def split: option.splits)
  ultimately show ?thesis using ok nm by (simp add: p progress_ok_def)
qed

end
