(* ===== verification/ConsoleEdit.thy ===== *)
theory ConsoleEdit
  imports ConsoleView
begin

text \<open>
  The edit side of the HTTP API of the console (\<open>pkg/resourceapi/server.go\<close>): which client a request runs with, the handlers that read and replace parts of a spec, and the
  table of routes. The router itself, the decoding of JSON into structs, SHA-256, durations, \<open>strconv.Quote\<close> and the
  construction of a client are parameters.
\<close>

section \<open>Requests and clients\<close>

record request =
  rq_Method :: string
  rq_Path :: string
  rq_ForwardedToken :: string
  rq_Authorization :: string
  rq_Body :: "string option"

definition requestToken :: "request \<Rightarrow> string" where
  "requestToken r = (if rq_ForwardedToken r \<noteq> [] then rq_ForwardedToken r else trimSpace (trimPrefix (rq_Authorization r) ''Bearer ''))"

text \<open>A JSON value of a field: integers are those that fit an \<open>int\<close>, \<open>JOther\<close> is everything else.\<close>

datatype jvalue = JNull | JBoolean bool | JInteger int | JText string | JOther

record 'w console_env =
  xv_net :: console_net
  xv_sha256hex :: "string \<Rightarrow> string"
  xv_newClient :: "string \<Rightarrow> 'w console_client option"
  xv_rawMap :: "string \<Rightarrow> (string, jvalue) gomap option"
  xv_packages :: "string \<Rightarrow> package_patch option"
  xv_operators :: "string \<Rightarrow> operator_entry list option"
  xv_settings :: "string \<Rightarrow> bool option"
  xv_releases :: "string \<Rightarrow> release_json option"
  xv_helm :: "string \<Rightarrow> repository list option"
  xv_blocked :: "string \<Rightarrow> string list option"
  xv_additional :: "string \<Rightarrow> additional_image list option"
  xv_parseDuration :: "string \<Rightarrow> string + int"
  xv_durationString :: "int \<Rightarrow> string"
  xv_quote :: "string \<Rightarrow> string"

definition clientForRequest :: "'w console_env \<Rightarrow> 'w console_server \<Rightarrow> request \<Rightarrow> 'w console_server \<times> 'w console_client" where
  "clientForRequest env srv r =
     (let token = requestToken r; now = cn_now (xv_net env)
      in if token = [] \<or> \<not> sv_baseCfg srv then (srv, sv_client srv)
         else
           (let key = xv_sha256hex env token
            in case mget (sv_tokenClients srv) key of
                 Some (c, expiresAt) \<Rightarrow>
                   if now < expiresAt then (srv, c)
                   else (let srv1 = srv\<lparr>sv_tokenClients := mdel key (sv_tokenClients srv)\<rparr>
                         in case xv_newClient env token of
                              None \<Rightarrow> (srv1, sv_client srv1)
                            | Some c' \<Rightarrow> (srv1\<lparr>sv_tokenClients := mput key (c', now + 5 * minute) (sv_tokenClients srv1)\<rparr>, c'))
               | None \<Rightarrow>
                   (case xv_newClient env token of
                      None \<Rightarrow> (srv, sv_client srv)
                    | Some c' \<Rightarrow> (srv\<lparr>sv_tokenClients := mput key (c', now + 5 * minute) (sv_tokenClients srv)\<rparr>, c'))))"

definition limited :: "string \<Rightarrow> string" where
  "limited body = (if int (length body) \<le> 1048576 then body else take 1048576 body)"

section \<open>Writing with retries\<close>

datatype edit_error = Api api_error | SlugNotFound

fun retry_edit :: "nat \<Rightarrow> ('w \<Rightarrow> 'w \<times> edit_error option) \<Rightarrow> 'w \<Rightarrow> 'w \<times> edit_error option" where
  "retry_edit 0 f w = (w, Some (Api ApiConflict))"
| "retry_edit (Suc n) f w =
     (case f w of
        (w', Some (Api ApiConflict)) \<Rightarrow> retry_edit n f w'
      | r \<Rightarrow> r)"

definition updateImageSetWithRetry ::
  "'w console_client \<Rightarrow> string \<Rightarrow> string \<Rightarrow> (console_set \<Rightarrow> edit_error + console_set) \<Rightarrow> 'w \<Rightarrow> 'w \<times> edit_error option" where
  "updateImageSetWithRetry c ns name mutate =
     retry_edit DefaultRetrySteps (\<lambda>w.
       case cc_is_get c w ns name of
         Inl e \<Rightarrow> (w, Some (Api e))
       | Inr is \<Rightarrow> (case mutate is of Inl e \<Rightarrow> (w, Some e) | Inr is' \<Rightarrow> (case cc_is_update c w is' of (w', r) \<Rightarrow> (w', map_option Api r))))"

definition updateMirrorTargetWithRetry ::
  "'w console_client \<Rightarrow> string \<Rightarrow> string \<Rightarrow> (ctl_target \<Rightarrow> ctl_target) \<Rightarrow> 'w \<Rightarrow> 'w \<times> edit_error option" where
  "updateMirrorTargetWithRetry c ns name mutate =
     retry_edit DefaultRetrySteps (\<lambda>w.
       case cc_mt_get c w ns name of
         Inl e \<Rightarrow> (w, Some (Api e))
       | Inr mt \<Rightarrow> (case cc_mt_update c w (mutate mt) of (w', r) \<Rightarrow> (w', map_option Api r)))"

section \<open>The spec of a target\<close>

fun dec_string :: "jvalue \<Rightarrow> string option" where
  "dec_string JNull = Some []" | "dec_string (JText s) = Some s" | "dec_string _ = None"

fun dec_bool :: "jvalue \<Rightarrow> bool option" where
  "dec_bool JNull = Some False" | "dec_bool (JBoolean b) = Some b" | "dec_bool _ = None"

fun dec_int :: "jvalue \<Rightarrow> int option" where
  "dec_int JNull = Some 0" | "dec_int (JInteger i) = Some i" | "dec_int _ = None"

type_synonym spec_step = "string + (ctl_target \<Rightarrow> ctl_target)"

definition patch_registry :: "(string, jvalue) gomap \<Rightarrow> spec_step" where
  "patch_registry raw =
     (case mget raw ''registry'' of
        None \<Rightarrow> Inr (\<lambda>mt. mt)
      | Some v \<Rightarrow>
          (case v of JText s \<Rightarrow> if s = [] then Inl ''registry must be a non-empty string'' else Inr (\<lambda>mt. mt\<lparr>mt_Registry := s\<rparr>)
           | _ \<Rightarrow> Inl ''registry must be a non-empty string''))"

definition patch_field :: "string \<Rightarrow> string \<Rightarrow> (jvalue \<Rightarrow> 'v option) \<Rightarrow> ('v \<Rightarrow> ctl_target \<Rightarrow> ctl_target) \<Rightarrow> (string, jvalue) gomap \<Rightarrow> spec_step" where
  "patch_field key msg dec upd raw =
     (case mget raw key of
        None \<Rightarrow> Inr (\<lambda>mt. mt)
      | Some v \<Rightarrow> (case dec v of None \<Rightarrow> Inl (''invalid '' @ key @ '': must be '' @ msg) | Some x \<Rightarrow> Inr (upd x)))"

definition patch_duration :: "'w console_env \<Rightarrow> string \<Rightarrow> (int option \<Rightarrow> ctl_target \<Rightarrow> ctl_target) \<Rightarrow> (string, jvalue) gomap \<Rightarrow> spec_step" where
  "patch_duration env key upd raw =
     (case mget raw key of
        None \<Rightarrow> Inr (\<lambda>mt. mt)
      | Some v \<Rightarrow>
          (case dec_string v of
             None \<Rightarrow> Inl (''invalid '' @ key @ '': must be a duration string'')
           | Some s \<Rightarrow>
               if s = [] then Inr (upd None)
               else (case xv_parseDuration env s of Inl e \<Rightarrow> Inl (''invalid '' @ key @ '': '' @ e) | Inr d \<Rightarrow> Inr (upd (Some d)))))"

fun chain_steps :: "spec_step list \<Rightarrow> spec_step" where
  "chain_steps [] = Inr (\<lambda>mt. mt)"
| "chain_steps (s # ss) =
     (case s of Inl e \<Rightarrow> Inl e | Inr f \<Rightarrow> (case chain_steps ss of Inl e \<Rightarrow> Inl e | Inr g \<Rightarrow> Inr (\<lambda>mt. g (f mt))))"

definition spec_steps :: "'w console_env \<Rightarrow> (string, jvalue) gomap \<Rightarrow> spec_step list" where
  "spec_steps env raw =
     [patch_registry raw,
      patch_field ''insecure'' ''a boolean'' dec_bool (\<lambda>b mt. mt\<lparr>mt_Insecure := b\<rparr>) raw,
      patch_field ''authSecret'' ''a string'' dec_string (\<lambda>s mt. mt\<lparr>mt_AuthSecret := s\<rparr>) raw,
      patch_field ''concurrency'' ''an integer'' dec_int (\<lambda>n mt. mt\<lparr>mt_Concurrency := n\<rparr>) raw,
      patch_field ''batchSize'' ''an integer'' dec_int (\<lambda>n mt. mt\<lparr>mt_BatchSize := n\<rparr>) raw,
      patch_duration env ''pollInterval'' (\<lambda>d mt. mt\<lparr>mt_PollInterval := d\<rparr>) raw,
      patch_duration env ''checkExistInterval'' (\<lambda>d mt. mt\<lparr>mt_CheckExistInterval := d\<rparr>) raw]"

definition parseMirrorTargetSpecPatch :: "'w console_env \<Rightarrow> string \<Rightarrow> spec_step" where
  "parseMirrorTargetSpecPatch env body =
     (case xv_rawMap env body of None \<Rightarrow> Inl ''invalid JSON body'' | Some raw \<Rightarrow> chain_steps (spec_steps env raw))"

definition target_spec_view :: "'w console_env \<Rightarrow> ctl_target \<Rightarrow> target_spec_json" where
  "target_spec_view env mt =
     \<lparr>tj_Registry = mt_Registry mt, tj_Insecure = mt_Insecure mt, tj_AuthSecret = mt_AuthSecret mt, tj_Concurrency = mt_Concurrency mt, tj_BatchSize = mt_BatchSize mt,
      tj_PollInterval = (case mt_PollInterval mt of Some d \<Rightarrow> xv_durationString env d | None \<Rightarrow> []),
      tj_CheckExistInterval = (case mt_CheckExistInterval mt of Some d \<Rightarrow> xv_durationString env d | None \<Rightarrow> [])\<rparr>"

definition handleGetMirrorTargetSpec :: "'w console_env \<Rightarrow> 'w console_client \<Rightarrow> string \<Rightarrow> string \<Rightarrow> 'w \<Rightarrow> response" where
  "handleGetMirrorTargetSpec env c ns name w =
     (case cc_mt_get c w ns name of Inl e \<Rightarrow> lookup_failure (xv_net env) ''get MirrorTarget'' e | Inr mt \<Rightarrow> ok_json (SpecJSON (target_spec_view env mt)))"

fun target_edit_failure :: "'w console_env \<Rightarrow> edit_error \<Rightarrow> response" where
  "target_edit_failure env (Api ApiNotFound) = (404, Message ''MirrorTarget not found'')"
| "target_edit_failure env (Api ApiForbidden) = (403, Message ''forbidden: insufficient permissions'')"
| "target_edit_failure env (Api (ApiInvalid s)) = (400, Message (''invalid MirrorTarget spec: '' @ s))"
| "target_edit_failure env (Api e) = (500, Message (''update MirrorTarget: '' @ cn_errorText (xv_net env) e))"
| "target_edit_failure env SlugNotFound = (500, Message ''update MirrorTarget: '')"

definition answer_edit :: "(edit_error \<Rightarrow> response) \<Rightarrow> 'w \<times> edit_error option \<Rightarrow> 'w \<times> response" where
  "answer_edit failure wr = (case wr of (w, Some e) \<Rightarrow> (w, failure e) | (w, None) \<Rightarrow> (w, (204, NoBody)))"

definition handlePatchMirrorTargetSpec :: "'w console_env \<Rightarrow> 'w console_client \<Rightarrow> string \<Rightarrow> string \<Rightarrow> string option \<Rightarrow> 'w \<Rightarrow> 'w \<times> response" where
  "handlePatchMirrorTargetSpec env c ns name body w =
     (case body of
        None \<Rightarrow> (w, (400, Message ''failed to read body''))
      | Some b \<Rightarrow>
          (case parseMirrorTargetSpecPatch env (limited b) of
             Inl e \<Rightarrow> (w, (400, Message e))
           | Inr f \<Rightarrow> answer_edit (target_edit_failure env) (updateMirrorTargetWithRetry c ns name f w)))"

section \<open>The spec of an ImageSet\<close>

definition get_image_set :: "'w console_env \<Rightarrow> 'w console_client \<Rightarrow> string \<Rightarrow> string \<Rightarrow> (console_set \<Rightarrow> api_body) \<Rightarrow> 'w \<Rightarrow> response" where
  "get_image_set env c ns name view w =
     (case cc_is_get c w ns name of
        Inl ApiNotFound \<Rightarrow> (404, Message ''ImageSet not found'')
      | Inl e \<Rightarrow> (500, Message (''get ImageSet: '' @ cn_errorText (xv_net env) e))
      | Inr is \<Rightarrow> ok_json (view is))"

fun set_edit_failure :: "'w console_env \<Rightarrow> string \<Rightarrow> edit_error \<Rightarrow> response" where
  "set_edit_failure env slug SlugNotFound = (404, Message (''catalog slug '' @ xv_quote env slug @ '' not found in ImageSet''))"
| "set_edit_failure env slug (Api ApiNotFound) = (404, Message ''ImageSet not found'')"
| "set_edit_failure env slug (Api ApiForbidden) = (403, Message ''forbidden: insufficient permissions'')"
| "set_edit_failure env slug (Api e) = (500, Message (''update ImageSet: '' @ cn_errorText (xv_net env) e))"

definition patch_image_set ::
  "'w console_env \<Rightarrow> 'w console_client \<Rightarrow> string \<Rightarrow> string \<Rightarrow> string \<Rightarrow> (string \<Rightarrow> 'p option) \<Rightarrow> ('p \<Rightarrow> 'w \<Rightarrow> console_set \<Rightarrow> edit_error + console_set)
    \<Rightarrow> string option \<Rightarrow> 'w \<Rightarrow> 'w \<times> response" where
  "patch_image_set env c ns name slug dec edit body w =
     (case body of
        None \<Rightarrow> (w, (400, Message ''failed to read body''))
      | Some b \<Rightarrow>
          (case dec (limited b) of
             None \<Rightarrow> (w, (400, Message ''invalid JSON body''))
           | Some p \<Rightarrow> answer_edit (set_edit_failure env slug) (updateImageSetWithRetry c ns name (edit p w) w)))"

definition on_mirror :: "(mirror_spec \<Rightarrow> mirror_spec) \<Rightarrow> console_set \<Rightarrow> edit_error + console_set" where
  "on_mirror f is = Inr (is\<lparr>is_Mirror := f (is_Mirror is)\<rparr>)"

subsection \<open>Packages of a catalog\<close>

definition existing_bundles :: "operator \<Rightarrow> (string, string list) gomap" where
  "existing_bundles op = fold (\<lambda>p m. if length (ip_Bundles p) > 0 then mput (ip_Name p) (ip_Bundles p) m else m) (op_Packages op) []"

definition patched_package :: "(string, string list) gomap \<Rightarrow> package_constraint \<Rightarrow> include_package" where
  "patched_package existing pc =
     \<lparr>ip_Name = pc_Name pc,
      ip_Channels = map (\<lambda>ch. \<lparr>ic_Name = ck_Name ch, ic_Bundle = \<lparr>ib_MinVersion = ck_MinVersion ch, ib_MaxVersion = ck_MaxVersion ch\<rparr>\<rparr>) (pc_Channels pc),
      ip_DefaultChannel = [], ip_PreviousVersions = 0, ip_Bundle = \<lparr>ib_MinVersion = pc_MinVersion pc, ib_MaxVersion = pc_MaxVersion pc\<rparr>,
      ip_Bundles = (case pc_Bundles pc of
                      Some bs \<Rightarrow> bs
                    | None \<Rightarrow> if pc_Channels pc = [] \<and> pc_MinVersion pc = [] \<and> pc_MaxVersion pc = [] then mget_list existing (pc_Name pc) else [])\<rparr>"

definition patched_packages :: "package_patch \<Rightarrow> operator \<Rightarrow> include_package list" where
  "patched_packages patch op =
     (let existing = existing_bundles op
      in if length (pp_Packages patch) > 0 then map (patched_package existing) (pp_Packages patch)
         else map (\<lambda>inc. \<lparr>ip_Name = inc, ip_Channels = [], ip_DefaultChannel = [], ip_PreviousVersions = 0,
                           ip_Bundle = \<lparr>ib_MinVersion = [], ib_MaxVersion = []\<rparr>, ip_Bundles = mget_list existing inc\<rparr>) (pp_Include patch))"

definition source_catalog :: "'w console_env \<Rightarrow> 'w console_client \<Rightarrow> string \<Rightarrow> string \<Rightarrow> 'w \<Rightarrow> string" where
  "source_catalog env c ns slug w =
     (case cc_cm_list c w ns [(packages_label, slug)] of
        Inl _ \<Rightarrow> []
      | Inr cms \<Rightarrow>
          (case filter (\<lambda>s. s \<noteq> []) (map (\<lambda>cm. case Option.bind (mget (kc_Data cm) ''packages.json'') (cn_packagesOf (xv_net env)) of
                                                    Some r \<Rightarrow> pk_Catalog r | None \<Rightarrow> []) cms) of
             s # _ \<Rightarrow> s
           | [] \<Rightarrow> []))"

definition catalog_matches :: "string \<Rightarrow> string \<Rightarrow> operator \<Rightarrow> bool" where
  "catalog_matches source slug op = (if source \<noteq> [] then op_Catalog op = source else CatalogSlug (op_Catalog op) = slug)"

definition edit_packages :: "string \<Rightarrow> string \<Rightarrow> package_patch \<Rightarrow> console_set \<Rightarrow> edit_error + console_set" where
  "edit_packages source slug patch is =
     (if list_ex (catalog_matches source slug) (ms_Operators (is_Mirror is)) then
        on_mirror (\<lambda>ms. ms\<lparr>ms_Operators := map (\<lambda>op. if catalog_matches source slug op then op\<lparr>op_Packages := patched_packages patch op\<rparr> else op) (ms_Operators ms)\<rparr>) is
      else Inl SlugNotFound)"

definition handlePatchCatalogPackages ::
  "'w console_env \<Rightarrow> 'w console_client \<Rightarrow> string \<Rightarrow> string \<Rightarrow> string \<Rightarrow> string option \<Rightarrow> 'w \<Rightarrow> 'w \<times> response" where
  "handlePatchCatalogPackages env c ns name slug body w =
     patch_image_set env c ns name slug (xv_packages env) (\<lambda>p w0. edit_packages (source_catalog env c ns slug w0) slug p) body w"

definition constraint_of :: "include_package \<Rightarrow> package_constraint" where
  "constraint_of p =
     \<lparr>pc_Name = ip_Name p, pc_MinVersion = ib_MinVersion (ip_Bundle p), pc_MaxVersion = ib_MaxVersion (ip_Bundle p),
      pc_Channels = map (\<lambda>ch. \<lparr>ck_Name = ic_Name ch, ck_MinVersion = ib_MinVersion (ic_Bundle ch), ck_MaxVersion = ib_MaxVersion (ic_Bundle ch)\<rparr>) (ip_Channels p),
      pc_Bundles = (if length (ip_Bundles p) > 0 then Some (ip_Bundles p) else None)\<rparr>"

definition constraints_view :: "string \<Rightarrow> console_set \<Rightarrow> package_constraint list" where
  "constraints_view slug is = concat (map (\<lambda>op. map constraint_of (op_Packages op)) (filter (\<lambda>op. CatalogSlug (op_Catalog op) = slug) (ms_Operators (is_Mirror is))))"

definition handleGetPackageConstraints :: "'w console_env \<Rightarrow> 'w console_client \<Rightarrow> string \<Rightarrow> string \<Rightarrow> string \<Rightarrow> 'w \<Rightarrow> response" where
  "handleGetPackageConstraints env c ns name slug w = get_image_set env c ns name (\<lambda>is. ConstraintsJSON (constraints_view slug is)) w"

subsection \<open>Operators\<close>

definition operators_view :: "console_set \<Rightarrow> operator_entry list" where
  "operators_view is =
     map (\<lambda>op. \<lparr>oj_Catalog = op_Catalog op, oj_TargetCatalog = op_TargetCatalog op, oj_TargetTag = op_TargetTag op, oj_Full = op_Full op,
                 oj_SkipDependencies = op_SkipDependencies op, oj_PackagesConfigured = (length (op_Packages op) > 0),
                 oj_SignatureVerificationConfigured = (op_SignatureVerification op \<noteq> None)\<rparr>) (ms_Operators (is_Mirror is))"

definition handleGetOperators :: "'w console_env \<Rightarrow> 'w console_client \<Rightarrow> string \<Rightarrow> string \<Rightarrow> 'w \<Rightarrow> response" where
  "handleGetOperators env c ns name w = get_image_set env c ns name (\<lambda>is. OperatorsJSON (operators_view is)) w"

definition existing_operators :: "operator list \<Rightarrow> (string, operator) gomap" where
  "existing_operators ops = fold (\<lambda>op. mput (op_Catalog op) op) ops []"

definition patched_operator :: "(string, operator) gomap \<Rightarrow> operator_entry \<Rightarrow> operator" where
  "patched_operator existing po =
     (let prev = mget existing (oj_Catalog po)
      in \<lparr>op_Packages = (case prev of Some p \<Rightarrow> op_Packages p | None \<Rightarrow> []), op_Catalog = oj_Catalog po, op_TargetCatalog = oj_TargetCatalog po,
          op_TargetTag = oj_TargetTag po, op_Full = oj_Full po, op_SkipDependencies = oj_SkipDependencies po,
          op_SignatureVerification = (case prev of Some p \<Rightarrow> op_SignatureVerification p | None \<Rightarrow> None)\<rparr>)"

definition edit_operators :: "operator_entry list \<Rightarrow> console_set \<Rightarrow> edit_error + console_set" where
  "edit_operators patch =
     on_mirror (\<lambda>ms. ms\<lparr>ms_Operators := map (patched_operator (existing_operators (ms_Operators ms))) (filter (\<lambda>po. oj_Catalog po \<noteq> []) patch)\<rparr>)"

definition handlePatchOperators :: "'w console_env \<Rightarrow> 'w console_client \<Rightarrow> string \<Rightarrow> string \<Rightarrow> string option \<Rightarrow> 'w \<Rightarrow> 'w \<times> response" where
  "handlePatchOperators env c ns name body w = patch_image_set env c ns name [] (xv_operators env) (\<lambda>p _. edit_operators p) body w"

subsection \<open>Settings, triggers and deletion\<close>

definition handleGetImageSetSettings :: "'w console_env \<Rightarrow> 'w console_client \<Rightarrow> string \<Rightarrow> string \<Rightarrow> 'w \<Rightarrow> response" where
  "handleGetImageSetSettings env c ns name w = get_image_set env c ns name (\<lambda>is. SettingsJSON (ms_RequireSignedImages (is_Mirror is))) w"

definition edit_settings :: "bool \<Rightarrow> console_set \<Rightarrow> edit_error + console_set" where
  "edit_settings b = on_mirror (\<lambda>ms. ms\<lparr>ms_RequireSignedImages := b\<rparr>)"

definition handlePatchImageSetSettings :: "'w console_env \<Rightarrow> 'w console_client \<Rightarrow> string \<Rightarrow> string \<Rightarrow> string option \<Rightarrow> 'w \<Rightarrow> 'w \<times> response" where
  "handlePatchImageSetSettings env c ns name body w = patch_image_set env c ns name [] (xv_settings env) (\<lambda>p _. edit_settings p) body w"

definition edit_trigger :: "'w console_env \<Rightarrow> string \<Rightarrow> console_set \<Rightarrow> edit_error + console_set" where
  "edit_trigger env key is = Inr (is\<lparr>is_Annotations := mput key (Itoa (cn_now (xv_net env))) (is_Annotations is)\<rparr>)"

definition triggerOneShotAnnotation :: "'w console_env \<Rightarrow> 'w console_client \<Rightarrow> string \<Rightarrow> string \<Rightarrow> string \<Rightarrow> 'w \<Rightarrow> 'w \<times> response" where
  "triggerOneShotAnnotation env c ns name annotationKey w =
     answer_edit (set_edit_failure env []) (updateImageSetWithRetry c ns name (edit_trigger env annotationKey) w)"

definition handleDeleteImageSet :: "'w console_env \<Rightarrow> 'w console_client \<Rightarrow> string \<Rightarrow> string \<Rightarrow> 'w \<Rightarrow> 'w \<times> response" where
  "handleDeleteImageSet env c ns name w =
     (case cc_is_get c w ns name of
        Inl ApiNotFound \<Rightarrow> (w, (404, Message ''ImageSet not found''))
      | Inl e \<Rightarrow> (w, (500, Message (''get ImageSet: '' @ cn_errorText (xv_net env) e)))
      | Inr is \<Rightarrow>
          (case cc_is_delete c w is of
             (w', Some ApiForbidden) \<Rightarrow> (w', (403, Message ''forbidden: insufficient permissions''))
           | (w', Some e) \<Rightarrow> (w', (500, Message (''delete ImageSet: '' @ cn_errorText (xv_net env) e)))
           | (w', None) \<Rightarrow> (w', (204, NoBody))))"

subsection \<open>Releases\<close>

definition releases_view :: "console_set \<Rightarrow> release_json" where
  "releases_view is =
     (let p = ms_Platform (is_Mirror is)
      in \<lparr>rl_Graph = pf_Graph p, rl_Architectures = (if pf_Architectures p = [] then None else Some (pf_Architectures p)),
          rl_Channels = map (\<lambda>ch. \<lparr>rj_Name = rc_Name ch, rj_Type = rc_Type ch, rj_MinVersion = rc_MinVersion ch, rj_MaxVersion = rc_MaxVersion ch,
                                     rj_ShortestPath = rc_ShortestPath ch, rj_Full = rc_Full ch\<rparr>) (pf_Channels p)\<rparr>)"

definition handleGetReleases :: "'w console_env \<Rightarrow> 'w console_client \<Rightarrow> string \<Rightarrow> string \<Rightarrow> 'w \<Rightarrow> response" where
  "handleGetReleases env c ns name w = get_image_set env c ns name (\<lambda>is. ReleasesJSON (releases_view is)) w"

definition patched_channel :: "release_channel_json \<Rightarrow> release_channel" where
  "patched_channel ch =
     \<lparr>rc_Name = rj_Name ch, rc_Type = (if rj_Type ch = [] then ''ocp'' else rj_Type ch), rc_MinVersion = rj_MinVersion ch, rc_MaxVersion = rj_MaxVersion ch,
      rc_ShortestPath = rj_ShortestPath ch, rc_Full = rj_Full ch, rc_SkipSignatureVerification = False\<rparr>"

definition edit_releases :: "release_json \<Rightarrow> console_set \<Rightarrow> edit_error + console_set" where
  "edit_releases patch =
     on_mirror (\<lambda>ms. ms\<lparr>ms_Platform := (ms_Platform ms)\<lparr>pf_Graph := rl_Graph patch,
       pf_Architectures := (case rl_Architectures patch of Some a \<Rightarrow> a | None \<Rightarrow> pf_Architectures (ms_Platform ms)),
       pf_Channels := map patched_channel (rl_Channels patch)\<rparr>\<rparr>)"

definition handlePatchReleases :: "'w console_env \<Rightarrow> 'w console_client \<Rightarrow> string \<Rightarrow> string \<Rightarrow> string option \<Rightarrow> 'w \<Rightarrow> 'w \<times> response" where
  "handlePatchReleases env c ns name body w = patch_image_set env c ns name [] (xv_releases env) (\<lambda>p _. edit_releases p) body w"

subsection \<open>Charts, blocked and additional images\<close>

definition handleGetHelm :: "'w console_env \<Rightarrow> 'w console_client \<Rightarrow> string \<Rightarrow> string \<Rightarrow> 'w \<Rightarrow> response" where
  "handleGetHelm env c ns name w = get_image_set env c ns name (\<lambda>is. HelmJSON (ms_HelmRepositories (is_Mirror is))) w"

definition edit_helm :: "repository list \<Rightarrow> console_set \<Rightarrow> edit_error + console_set" where
  "edit_helm repos = on_mirror (\<lambda>ms. ms\<lparr>ms_HelmRepositories := repos\<rparr>)"

definition handlePatchHelm :: "'w console_env \<Rightarrow> 'w console_client \<Rightarrow> string \<Rightarrow> string \<Rightarrow> string option \<Rightarrow> 'w \<Rightarrow> 'w \<times> response" where
  "handlePatchHelm env c ns name body w = patch_image_set env c ns name [] (xv_helm env) (\<lambda>p _. edit_helm p) body w"

definition handleGetBlockedImages :: "'w console_env \<Rightarrow> 'w console_client \<Rightarrow> string \<Rightarrow> string \<Rightarrow> 'w \<Rightarrow> response" where
  "handleGetBlockedImages env c ns name w = get_image_set env c ns name (\<lambda>is. BlockedJSON (ms_BlockedImages (is_Mirror is))) w"

definition edit_blocked :: "string list \<Rightarrow> console_set \<Rightarrow> edit_error + console_set" where
  "edit_blocked imgs = on_mirror (\<lambda>ms. ms\<lparr>ms_BlockedImages := filter (\<lambda>n. n \<noteq> []) imgs\<rparr>)"

definition handlePatchBlockedImages :: "'w console_env \<Rightarrow> 'w console_client \<Rightarrow> string \<Rightarrow> string \<Rightarrow> string option \<Rightarrow> 'w \<Rightarrow> 'w \<times> response" where
  "handlePatchBlockedImages env c ns name body w = patch_image_set env c ns name [] (xv_blocked env) (\<lambda>p _. edit_blocked p) body w"

definition handleGetAdditionalImages :: "'w console_env \<Rightarrow> 'w console_client \<Rightarrow> string \<Rightarrow> string \<Rightarrow> 'w \<Rightarrow> response" where
  "handleGetAdditionalImages env c ns name w = get_image_set env c ns name (\<lambda>is. AdditionalJSON (ms_AdditionalImages (is_Mirror is))) w"

definition edit_additional :: "additional_image list \<Rightarrow> console_set \<Rightarrow> edit_error + console_set" where
  "edit_additional imgs = on_mirror (\<lambda>ms. ms\<lparr>ms_AdditionalImages := filter (\<lambda>i. ai_Name i \<noteq> []) imgs\<rparr>)"

definition handlePatchAdditionalImages :: "'w console_env \<Rightarrow> 'w console_client \<Rightarrow> string \<Rightarrow> string \<Rightarrow> string option \<Rightarrow> 'w \<Rightarrow> 'w \<times> response" where
  "handlePatchAdditionalImages env c ns name body w = patch_image_set env c ns name [] (xv_additional env) (\<lambda>p _. edit_additional p) body w"

section \<open>Routes\<close>

datatype handler =
    HTargetsList | HTargetDetail | HImageFailures | HTargetProgress | HGetTargetSpec | HPatchTargetSpec
  | HGetConstraints | HPatchPackages | HGetOperators | HPatchOperators | HGetSettings | HPatchSettings | HRecollect | HForceResync
  | HChannels | HGetReleases | HPatchReleases | HGetHelm | HPatchHelm | HGetBlocked | HPatchBlocked | HGetAdditional | HPatchAdditional | HDeleteImageSet
  | HFilteredPackages | HUpstreamPackages | HSignatures | HIDMS | HITMS | HCatalogSource | HClusterCatalog

type_synonym route = "string \<times> string \<times> handler"

abbreviation image_set_path :: string where "image_set_path \<equiv> ''/imagesets/{namespace}/{name}''"

definition api_routes :: "route list" where
  "api_routes =
     [(''GET'', ''/targets'', HTargetsList), (''GET'', ''/targets/{mt}'', HTargetDetail), (''GET'', ''/targets/{mt}/image-failures'', HImageFailures),
      (''GET'', ''/targets/{mt}/progress'', HTargetProgress), (''GET'', ''/targets/{namespace}/{name}/spec'', HGetTargetSpec),
      (''PATCH'', ''/targets/{namespace}/{name}/spec'', HPatchTargetSpec),
      (''GET'', image_set_path @ ''/catalogs/{slug}/packages'', HGetConstraints), (''PATCH'', image_set_path @ ''/catalogs/{slug}/packages'', HPatchPackages),
      (''GET'', image_set_path @ ''/operators'', HGetOperators), (''PATCH'', image_set_path @ ''/operators'', HPatchOperators),
      (''GET'', image_set_path @ ''/settings'', HGetSettings), (''PATCH'', image_set_path @ ''/settings'', HPatchSettings),
      (''PATCH'', image_set_path @ ''/recollect'', HRecollect), (''PATCH'', image_set_path @ ''/force-resync'', HForceResync),
      (''GET'', ''/releases/channels'', HChannels),
      (''GET'', image_set_path @ ''/releases'', HGetReleases), (''PATCH'', image_set_path @ ''/releases'', HPatchReleases),
      (''GET'', image_set_path @ ''/helm'', HGetHelm), (''PATCH'', image_set_path @ ''/helm'', HPatchHelm),
      (''GET'', image_set_path @ ''/blocked-images'', HGetBlocked), (''PATCH'', image_set_path @ ''/blocked-images'', HPatchBlocked),
      (''GET'', image_set_path @ ''/additional-images'', HGetAdditional), (''PATCH'', image_set_path @ ''/additional-images'', HPatchAdditional),
      (''DELETE'', image_set_path, HDeleteImageSet),
      (''GET'', ''/targets/{mt}/catalogs/{slug}/packages.json'', HFilteredPackages), (''GET'', ''/targets/{mt}/catalogs/{slug}/upstream-packages.json'', HUpstreamPackages),
      (''GET'', ''/targets/{mt}/signatures.yaml'', HSignatures),
      (''GET'', ''/targets/{mt}/imagesets/{is}/idms.yaml'', HIDMS), (''GET'', ''/targets/{mt}/imagesets/{is}/itms.yaml'', HITMS),
      (''GET'', ''/targets/{mt}/imagesets/{is}/catalogs/{slug}/catalogsource.yaml'', HCatalogSource),
      (''GET'', ''/targets/{mt}/imagesets/{is}/catalogs/{slug}/clustercatalog.yaml'', HClusterCatalog),
      (''GET'', ''/targets/{mt}/imagesets/{is}/catalogs/{slug}/upstream-packages.json'', HUpstreamPackages),
      (''GET'', ''/targets/{mt}/imagesets/{is}/catalogs/{slug}/packages.json'', HFilteredPackages)]"

text \<open>A handler that only reads: a response, or \<open>None\<close> for a panic; and the others, with the state of the cluster they leave.\<close>

definition read_handler :: "'w console_env \<Rightarrow> 'w console_server \<Rightarrow> 'w console_client \<Rightarrow> handler \<Rightarrow> (string, string) gomap \<Rightarrow> 'w \<Rightarrow> response option" where
  "read_handler env srv c h vars w =
     (let net = xv_net env; mt = mget_str vars ''mt''; slug = mget_str vars ''slug''; ns = mget_str vars ''namespace''; name = mget_str vars ''name''
      in case h of
           HTargetsList \<Rightarrow> Some (handleTargetsList net srv c w)
         | HTargetDetail \<Rightarrow> Some (handleTargetDetail net srv c mt w)
         | HImageFailures \<Rightarrow> Some (handleImageFailures net srv c mt w)
         | HTargetProgress \<Rightarrow> handleTargetProgress net srv c mt w
         | HGetTargetSpec \<Rightarrow> Some (handleGetMirrorTargetSpec env c ns name w)
         | HGetConstraints \<Rightarrow> Some (handleGetPackageConstraints env c ns name slug w)
         | HGetOperators \<Rightarrow> Some (handleGetOperators env c ns name w)
         | HGetSettings \<Rightarrow> Some (handleGetImageSetSettings env c ns name w)
         | HGetReleases \<Rightarrow> Some (handleGetReleases env c ns name w)
         | HGetHelm \<Rightarrow> Some (handleGetHelm env c ns name w)
         | HGetBlocked \<Rightarrow> Some (handleGetBlockedImages env c ns name w)
         | HGetAdditional \<Rightarrow> Some (handleGetAdditionalImages env c ns name w)
         | HFilteredPackages \<Rightarrow> Some (handleFilteredCatalogPackages srv c mt slug w)
         | HUpstreamPackages \<Rightarrow> Some (handleUpstreamCatalogPackages srv c mt slug w)
         | HSignatures \<Rightarrow> handleSignatures net srv c mt w
         | HIDMS \<Rightarrow> Some (handleIDMS srv c mt w)
         | HITMS \<Rightarrow> Some (handleITMS srv c mt w)
         | HCatalogSource \<Rightarrow> Some (handleCatalogSource srv c mt slug w)
         | HClusterCatalog \<Rightarrow> Some (handleClusterCatalog srv c mt slug w)
         | _ \<Rightarrow> None)"

definition write_handler ::
  "'w console_env \<Rightarrow> 'w console_client \<Rightarrow> handler \<Rightarrow> (string, string) gomap \<Rightarrow> string option \<Rightarrow> 'w \<Rightarrow> ('w \<times> response) option" where
  "write_handler env c h vars body w =
     (let ns = mget_str vars ''namespace''; name = mget_str vars ''name''
      in case h of
           HPatchTargetSpec \<Rightarrow> Some (handlePatchMirrorTargetSpec env c ns name body w)
         | HPatchPackages \<Rightarrow> Some (handlePatchCatalogPackages env c ns name (mget_str vars ''slug'') body w)
         | HPatchOperators \<Rightarrow> Some (handlePatchOperators env c ns name body w)
         | HPatchSettings \<Rightarrow> Some (handlePatchImageSetSettings env c ns name body w)
         | HRecollect \<Rightarrow> Some (triggerOneShotAnnotation env c ns name RecollectAnnotation w)
         | HForceResync \<Rightarrow> Some (triggerOneShotAnnotation env c ns name ForceResyncAnnotation w)
         | HPatchReleases \<Rightarrow> Some (handlePatchReleases env c ns name body w)
         | HPatchHelm \<Rightarrow> Some (handlePatchHelm env c ns name body w)
         | HPatchBlocked \<Rightarrow> Some (handlePatchBlockedImages env c ns name body w)
         | HPatchAdditional \<Rightarrow> Some (handlePatchAdditionalImages env c ns name body w)
         | HDeleteImageSet \<Rightarrow> Some (handleDeleteImageSet env c ns name w)
         | _ \<Rightarrow> None)"

definition requireTokenForWrites :: "request \<Rightarrow> bool" where
  "requireTokenForWrites r \<longleftrightarrow> rq_Method r \<in> {''GET'', ''HEAD'', ''OPTIONS''} \<or> requestToken r \<noteq> []"

text \<open>
  A request below \<open>/api/v1\<close>: \<open>router\<close> finds the handler and the variables of the path for the method and the path of the request, from the table of the routes, or the
  status of the answer if there is none (404, or 405 for the wrong method); the check for a token comes before the handler. A handler that rejects the body of a request does so
  before it asks for a client, so the cache of clients stays as it was. The result is the state of the server, that of the cluster, and the response.
\<close>

definition body_accepted :: "'w console_env \<Rightarrow> handler \<Rightarrow> string option \<Rightarrow> bool" where
  "body_accepted env h body =
     (let b = map_option limited body
      in case h of
           HPatchTargetSpec \<Rightarrow> (case map_option (parseMirrorTargetSpecPatch env) b of Some (Inr _) \<Rightarrow> True | _ \<Rightarrow> False)
         | HPatchPackages \<Rightarrow> Option.bind b (xv_packages env) \<noteq> None
         | HPatchOperators \<Rightarrow> Option.bind b (xv_operators env) \<noteq> None
         | HPatchSettings \<Rightarrow> Option.bind b (xv_settings env) \<noteq> None
         | HPatchReleases \<Rightarrow> Option.bind b (xv_releases env) \<noteq> None
         | HPatchHelm \<Rightarrow> Option.bind b (xv_helm env) \<noteq> None
         | HPatchBlocked \<Rightarrow> Option.bind b (xv_blocked env) \<noteq> None
         | HPatchAdditional \<Rightarrow> Option.bind b (xv_additional env) \<noteq> None
         | _ \<Rightarrow> True)"

type_synonym router = "route list \<Rightarrow> string \<Rightarrow> string \<Rightarrow> int + handler \<times> (string, string) gomap"

definition serve_request :: "'w console_env \<Rightarrow> router \<Rightarrow> 'w console_server \<Rightarrow> request \<Rightarrow> 'w \<Rightarrow> 'w console_server \<times> 'w \<times> response option" where
  "serve_request env router srv r w =
     (case router api_routes (rq_Method r) (rq_Path r) of
        Inl status \<Rightarrow> (srv, w, Some (status, NoBody))
      | Inr (h, vars) \<Rightarrow>
          if \<not> requireTokenForWrites r then (srv, w, Some (401, Message ''a Bearer token is required for write requests''))
          else if h = HChannels then (case getOCPChannels (xv_net env) srv w of (srv', es) \<Rightarrow> (srv', w, Some (ok_json (ChannelsJSON es))))
          else (case clientForRequest env srv r of (srv', c) \<Rightarrow>
                  (case write_handler env c h vars (rq_Body r) w of
                     Some (w', resp) \<Rightarrow> (if body_accepted env h (rq_Body r) then srv' else srv, w', Some resp)
                   | None \<Rightarrow> (srv', w, read_handler env srv' c h vars w))))"

section \<open>Who may write\<close>

text \<open>What is relied on of the router: it finds routes of the table, for the method of the request.\<close>

definition router_ok :: "router \<Rightarrow> bool" where
  "router_ok router \<longleftrightarrow> (\<forall>table m p h vars. router table m p = Inr (h, vars) \<longrightarrow> (\<exists>pat. (m, pat, h) \<in> set table))"

lemma writes_not_get:
  assumes "(m, pat, h) \<in> set api_routes" and "write_handler env c h vars body w \<noteq> None"
  shows "m \<notin> {''GET'', ''HEAD'', ''OPTIONS''}"
  using assms by (auto simp: api_routes_def write_handler_def)

text \<open>
  Property C16. Nothing in the cluster is changed on behalf of nobody: a request that carries no token leaves the cluster as it is, whichever route, method and body it has.
\<close>

theorem tokenless_request_changes_nothing:
  assumes "router_ok router" and "requestToken r = []" and "serve_request env router srv r w = (srv', w', resp)"
  shows "w' = w"
proof (cases "router api_routes (rq_Method r) (rq_Path r)")
  case (Inr hv)
  obtain h vars where hv: "hv = (h, vars)" by force
  with Inr assms(1) obtain pat where pat: "(rq_Method r, pat, h) \<in> set api_routes" unfolding router_ok_def by blast
  have "write_handler env c h vars (rq_Body r) w = None" if "requireTokenForWrites r" for c
    using writes_not_get [OF pat, of env c vars "rq_Body r" w] that assms(2) unfolding requireTokenForWrites_def by blast
  then show ?thesis using assms(3) Inr hv by (auto simp: serve_request_def split: if_splits prod.splits option.splits)
qed (use assms(3) in \<open>auto simp: serve_request_def\<close>)

text \<open>The clients in the cache are those that were built for the token with their key.\<close>

definition clients_inv :: "'w console_env \<Rightarrow> 'w console_server \<Rightarrow> bool" where
  "clients_inv env srv \<longleftrightarrow> (\<forall>key c t. mget (sv_tokenClients srv) key = Some (c, t) \<longrightarrow> (\<exists>token. key = xv_sha256hex env token \<and> xv_newClient env token = Some c))"

lemma clients_inv_put:
  assumes "clients_inv env srv" and "xv_newClient env token = Some c"
  shows "clients_inv env (srv\<lparr>sv_tokenClients := mput (xv_sha256hex env token) (c, t) (sv_tokenClients srv)\<rparr>)"
  unfolding clients_inv_def
proof (intro allI impI)
  fix key c' t'
  assume get: "mget (sv_tokenClients (srv\<lparr>sv_tokenClients := mput (xv_sha256hex env token) (c, t) (sv_tokenClients srv)\<rparr>)) key = Some (c', t')"
  show "\<exists>token. key = xv_sha256hex env token \<and> xv_newClient env token = Some c'"
  proof (cases "key = xv_sha256hex env token")
    case True
    with get assms(2) show ?thesis by auto
  next
    case False
    with get assms(1) show ?thesis by (auto simp: clients_inv_def)
  qed
qed

lemma clients_inv_del: "clients_inv env srv \<Longrightarrow> clients_inv env (srv\<lparr>sv_tokenClients := mdel key (sv_tokenClients srv)\<rparr>)"
  by (auto simp: clients_inv_def)

text \<open>
  A request runs with the rights of its caller: with a token, and a configuration to build clients from, the client is the one built for this very token, fresh or from the cache, or the
  client of the server if none can be built; the cache keeps this up, as long as tokens have different hashes.
\<close>

theorem request_runs_with_caller_rights:
  assumes "clients_inv env srv" and "inj (xv_sha256hex env)" and "requestToken r \<noteq> []" and "sv_baseCfg srv" and "clientForRequest env srv r = (srv', c)"
  shows "clients_inv env srv' \<and> c = (case xv_newClient env (requestToken r) of Some c' \<Rightarrow> c' | None \<Rightarrow> sv_client srv)"
proof -
  let ?key = "xv_sha256hex env (requestToken r)"
  have hit: "xv_newClient env (requestToken r) = Some c'" if "mget (sv_tokenClients srv) ?key = Some (c', t)" for c' t
    using assms(1,2) that unfolding clients_inv_def inj_def by metis
  show ?thesis
  proof (cases "mget (sv_tokenClients srv) ?key")
    case None
    with assms(1,3-5) clients_inv_put [OF assms(1), of "requestToken r"] show ?thesis
      by (cases "xv_newClient env (requestToken r)") (auto simp: clientForRequest_def Let_def)
  next
    case (Some ct)
    obtain c' t where ct: "ct = (c', t)" by force
    note new = hit [OF Some [unfolded ct]]
    from assms(1,3-5) Some ct new clients_inv_put [OF clients_inv_del [OF assms(1), of ?key] new] show ?thesis
      by (auto simp: clientForRequest_def Let_def split: if_splits)
  qed
qed

section \<open>One write per edit\<close>





















section \<open>Saving what was read\<close>

lemma existing_operators_get:
  assumes "distinct (map op_Catalog ops)" and "op \<in> set ops"
  shows "mget (existing_operators ops) (op_Catalog op) = Some op"
proof -
  have "mget (fold (\<lambda>op. mput (op_Catalog op) op) ops m) (op_Catalog op) = Some op"
    if "distinct (map op_Catalog ops)" "op \<in> set ops" for m
    using that
  proof (induction ops arbitrary: m)
    case (Cons o' ops)
    have keep: "mget (fold (\<lambda>op. mput (op_Catalog op) op) ops m) k = mget m k" if "k \<notin> op_Catalog ` set ops" for k m
      using that by (induction ops arbitrary: m) auto
    show ?case
    proof (cases "op \<in> set ops")
      case True
      with Cons show ?thesis by simp
    next
      case False
      with Cons.prems have "op = o'" "op_Catalog o' \<notin> op_Catalog ` set ops" by auto
      then show ?thesis by (simp add: keep)
    qed
  qed simp
  with assms show ?thesis by (simp add: existing_operators_def)
qed

lemma patched_operator_view:
  assumes "mget existing (op_Catalog op) = Some op"
  shows "patched_operator existing \<lparr>oj_Catalog = op_Catalog op, oj_TargetCatalog = op_TargetCatalog op, oj_TargetTag = op_TargetTag op, oj_Full = op_Full op,
     oj_SkipDependencies = op_SkipDependencies op, oj_PackagesConfigured = b, oj_SignatureVerificationConfigured = b'\<rparr> = op"
  using assms by (simp add: patched_operator_def Let_def)

text \<open>
  Property C32. Saving what was read changes nothing: for the operators (with their package filters and signature keys, which are not part of what is read), the charts, the blocked and the
  additional images and the settings of an ImageSet, the edit made from an unchanged view leaves the ImageSet as it is, if no two operator entries have the same catalog and no name is empty.
\<close>

theorem save_unchanged_view:
  assumes "distinct (map op_Catalog (ms_Operators (is_Mirror iset)))" and "[] \<notin> op_Catalog ` set (ms_Operators (is_Mirror iset))"
    and "[] \<notin> set (ms_BlockedImages (is_Mirror iset))" and "[] \<notin> ai_Name ` set (ms_AdditionalImages (is_Mirror iset))"
  shows "edit_operators (operators_view iset) iset = Inr iset \<and> edit_helm (ms_HelmRepositories (is_Mirror iset)) iset = Inr iset \<and>
     edit_blocked (ms_BlockedImages (is_Mirror iset)) iset = Inr iset \<and> edit_additional (ms_AdditionalImages (is_Mirror iset)) iset = Inr iset \<and>
     edit_settings (ms_RequireSignedImages (is_Mirror iset)) iset = Inr iset"
proof -
  let ?ops = "ms_Operators (is_Mirror iset)"
  have keep: "filter (\<lambda>po. oj_Catalog po \<noteq> []) (operators_view iset) = operators_view iset"
    using assms(2) by (force simp: operators_view_def filter_id_conv)
  have "map (patched_operator (existing_operators ?ops)) (operators_view iset) = ?ops"
    unfolding operators_view_def map_map o_def
    by (rule map_idI) (rule patched_operator_view, rule existing_operators_get [OF assms(1)])
  then have "edit_operators (operators_view iset) iset = Inr iset" by (simp add: edit_operators_def on_mirror_def keep)
  moreover have "filter (\<lambda>n. n \<noteq> []) (ms_BlockedImages (is_Mirror iset)) = ms_BlockedImages (is_Mirror iset)"
    using assms(3) by (auto simp: filter_id_conv)
  moreover have "filter (\<lambda>i. ai_Name i \<noteq> []) (ms_AdditionalImages (is_Mirror iset)) = ms_AdditionalImages (is_Mirror iset)"
    using assms(4) by (force simp: filter_id_conv)
  ultimately show ?thesis by (simp add: edit_helm_def edit_blocked_def edit_additional_def edit_settings_def on_mirror_def)
qed

section \<open>Merge patches\<close>

lemma chain_steps_all:
  assumes "chain_steps ss = Inr f"
  shows "\<exists>fs. ss = map Inr fs \<and> (\<forall>mt. f mt = fold (\<lambda>g. g) fs mt)"
  using assms
proof (induction ss arbitrary: f)
  case (Cons s ss)
  from Cons.prems obtain g h where s: "s = Inr g" and ch: "chain_steps ss = Inr h" and f: "f = (\<lambda>mt. h (g mt))" by (auto split: sum.splits)
  from Cons.IH [OF ch] obtain fs where "ss = map Inr fs" "\<forall>mt. h mt = fold (\<lambda>g. g) fs mt" by blast
  with s f show ?case by (intro exI [of _ "g # fs"]) simp
qed auto

text \<open>The value of a field after a patch: the old one if the key is absent, the default for \<open>null\<close>, the given one otherwise.\<close>

definition merged :: "'v \<Rightarrow> (jvalue \<Rightarrow> 'v option) \<Rightarrow> (string, jvalue) gomap \<Rightarrow> string \<Rightarrow> 'v" where
  "merged old dec raw key = (case mget raw key of None \<Rightarrow> old | Some v \<Rightarrow> the (dec v))"

definition dec_duration :: "'w console_env \<Rightarrow> jvalue \<Rightarrow> int option option" where
  "dec_duration env v =
     (case dec_string v of
        None \<Rightarrow> None
      | Some s \<Rightarrow> if s = [] then Some None else (case xv_parseDuration env s of Inl _ \<Rightarrow> None | Inr d \<Rightarrow> Some (Some d)))"

lemma patch_field_value: "patch_field key msg dec upd raw = Inr f \<Longrightarrow> f mt = (case mget raw key of None \<Rightarrow> mt | Some v \<Rightarrow> upd (the (dec v)) mt)"
  by (auto simp: patch_field_def split: option.splits)

lemma patch_duration_value: "patch_duration env key upd raw = Inr f \<Longrightarrow> f mt = (case mget raw key of None \<Rightarrow> mt | Some v \<Rightarrow> upd (the (dec_duration env v)) mt)"
  by (auto simp: patch_duration_def dec_duration_def split: option.splits sum.splits if_splits)

lemma patch_registry_value: "patch_registry raw = Inr f \<Longrightarrow> f mt = (case mget raw ''registry'' of None \<Rightarrow> mt | Some v \<Rightarrow> mt\<lparr>mt_Registry := the (dec_string v)\<rparr>)"
  by (auto simp: patch_registry_def split: option.splits jvalue.splits if_splits)

text \<open>
  Property C33. A patch of the spec of a target is a merge patch: an accepted patch changes the fields it names and no other, a field that is \<open>null\<close> gets its default, and all the
  rest of the target, its status included, stays as it is.
\<close>

theorem target_patch_merges:
  assumes "xv_rawMap env body = Some raw" and "parseMirrorTargetSpecPatch env body = Inr f"
  shows "f mt = mt\<lparr>mt_Registry := merged (mt_Registry mt) dec_string raw ''registry'', mt_Insecure := merged (mt_Insecure mt) dec_bool raw ''insecure'',
     mt_AuthSecret := merged (mt_AuthSecret mt) dec_string raw ''authSecret'', mt_Concurrency := merged (mt_Concurrency mt) dec_int raw ''concurrency'',
     mt_BatchSize := merged (mt_BatchSize mt) dec_int raw ''batchSize'', mt_PollInterval := merged (mt_PollInterval mt) (dec_duration env) raw ''pollInterval'',
     mt_CheckExistInterval := merged (mt_CheckExistInterval mt) (dec_duration env) raw ''checkExistInterval''\<rparr>"
proof -
  have "chain_steps (spec_steps env raw) = Inr f" using assms by (simp add: parseMirrorTargetSpecPatch_def)
  from chain_steps_all [OF this] obtain fs where fs: "spec_steps env raw = map Inr fs" and f: "f mt = fold (\<lambda>g. g) fs mt" by blast
  obtain f1 f2 f3 f4 f5 f6 f7 where l: "fs = [f1, f2, f3, f4, f5, f6, f7]" and eqs: "patch_registry raw = Inr f1"
    "patch_field ''insecure'' ''a boolean'' dec_bool (\<lambda>b mt. mt\<lparr>mt_Insecure := b\<rparr>) raw = Inr f2"
    "patch_field ''authSecret'' ''a string'' dec_string (\<lambda>s mt. mt\<lparr>mt_AuthSecret := s\<rparr>) raw = Inr f3"
    "patch_field ''concurrency'' ''an integer'' dec_int (\<lambda>n mt. mt\<lparr>mt_Concurrency := n\<rparr>) raw = Inr f4"
    "patch_field ''batchSize'' ''an integer'' dec_int (\<lambda>n mt. mt\<lparr>mt_BatchSize := n\<rparr>) raw = Inr f5"
    "patch_duration env ''pollInterval'' (\<lambda>d mt. mt\<lparr>mt_PollInterval := d\<rparr>) raw = Inr f6"
    "patch_duration env ''checkExistInterval'' (\<lambda>d mt. mt\<lparr>mt_CheckExistInterval := d\<rparr>) raw = Inr f7"
    using fs unfolding spec_steps_def Cons_eq_map_conv by (elim exE conjE) simp
  have steps: "f1 m = m\<lparr>mt_Registry := merged (mt_Registry m) dec_string raw ''registry''\<rparr>" "f2 m = m\<lparr>mt_Insecure := merged (mt_Insecure m) dec_bool raw ''insecure''\<rparr>"
    "f3 m = m\<lparr>mt_AuthSecret := merged (mt_AuthSecret m) dec_string raw ''authSecret''\<rparr>" "f4 m = m\<lparr>mt_Concurrency := merged (mt_Concurrency m) dec_int raw ''concurrency''\<rparr>"
    "f5 m = m\<lparr>mt_BatchSize := merged (mt_BatchSize m) dec_int raw ''batchSize''\<rparr>"
    "f6 m = m\<lparr>mt_PollInterval := merged (mt_PollInterval m) (dec_duration env) raw ''pollInterval''\<rparr>"
    "f7 m = m\<lparr>mt_CheckExistInterval := merged (mt_CheckExistInterval m) (dec_duration env) raw ''checkExistInterval''\<rparr>" for m
    by (simp_all add: merged_def patch_registry_value [OF eqs(1)] patch_field_value [OF eqs(2)] patch_field_value [OF eqs(3)] patch_field_value [OF eqs(4)]
        patch_field_value [OF eqs(5)] patch_duration_value [OF eqs(6)] patch_duration_value [OF eqs(7)] split: option.splits)
  show ?thesis by (simp add: f l steps)
qed

section \<open>A console in memory\<close>

record console_world =
  kw_sets :: "(string \<times> string, console_set) gomap"
  kw_log :: "console_set list"
  kw_targets :: "ctl_target list"
  kw_cms :: "(string, console_cm) gomap"
  kw_states :: "(string, configmap) gomap"

definition mem_console :: "console_world console_client" where
  "mem_console =
     \<lparr>cc_is_get = (\<lambda>w ns n. case mget (kw_sets w) (ns, n) of Some s \<Rightarrow> Inr s | None \<Rightarrow> Inl ApiNotFound),
      cc_is_list = (\<lambda>w ns. Inr (map snd (kw_sets w))),
      cc_is_update = (\<lambda>w s. (w\<lparr>kw_sets := mput (is_Namespace s, is_Name s) s (kw_sets w), kw_log := kw_log w @ [s]\<rparr>, None)),
      cc_is_delete = (\<lambda>w s. (w\<lparr>kw_sets := mdel (is_Namespace s, is_Name s) (kw_sets w)\<rparr>, None)),
      cc_mt_get = (\<lambda>w ns n. case find (\<lambda>mt. mt_Name mt = n) (kw_targets w) of Some mt \<Rightarrow> Inr mt | None \<Rightarrow> Inl ApiNotFound),
      cc_mt_list = (\<lambda>w ns. Inr (kw_targets w)), cc_mt_update = (\<lambda>w mt. (w, Some ApiForbidden)),
      cc_cm_get = (\<lambda>w ns n. case mget (kw_cms w) n of Some cm \<Rightarrow> Inr cm | None \<Rightarrow> Inl ApiNotFound), cc_cm_list = (\<lambda>w ns l. Inr (map snd (kw_cms w))),
      cc_kube = (\<lambda>ns. \<lparr>kget = (\<lambda>w n. mem_get (kw_states w) n), kcreate = (\<lambda>w cm. (w, Some (APIError []))), kupdate = (\<lambda>w cm. (w, Some (APIError []))),
                        kdelete = (\<lambda>w n. (w, Some (APIError [])))\<rparr>)\<rparr>"

definition offline_net :: console_net where
  "offline_net = \<lparr>cn_packagesOf = (\<lambda>s. None), cn_forbidden = (\<lambda>e. False), cn_rfc3339 = (\<lambda>t. ''t''), cn_errorText = (\<lambda>e. ''e''), cn_loadText = (\<lambda>e. ''e''),
     cn_base64 = (\<lambda>s. s), cn_unbase64 = Inr, cn_yaml = (\<lambda>l. Some []), cn_github = None, cn_now = 7\<rparr>"

definition toy_console :: "console_world console_env" where
  "toy_console = \<lparr>xv_net = offline_net, xv_sha256hex = (\<lambda>s. s), xv_newClient = (\<lambda>t. Some mem_console), xv_rawMap = (\<lambda>b. Some [(''batchSize'', JInteger 5), (''concurrency'', JNull)]),
     xv_packages = (\<lambda>b. None), xv_operators = (\<lambda>b. None), xv_settings = (\<lambda>b. Some True), xv_releases = (\<lambda>b. None), xv_helm = (\<lambda>b. None), xv_blocked = (\<lambda>b. None),
     xv_additional = (\<lambda>b. None), xv_parseDuration = (\<lambda>s. Inl ''no''), xv_durationString = (\<lambda>d. ''0s''), xv_quote = (\<lambda>s. s)\<rparr>"

definition toy_server :: "console_world console_server" where
  "toy_server = \<lparr>sv_client = mem_console, sv_namespace = ''ns'', sv_baseCfg = True, sv_tokenClients = [], sv_channels = None, sv_fetchedAt = 0\<rparr>"

definition toy_operator :: "string \<Rightarrow> string \<Rightarrow> string \<Rightarrow> operator" where
  "toy_operator cat target pkg =
     \<lparr>op_Packages = [\<lparr>ip_Name = pkg, ip_Channels = [], ip_DefaultChannel = [], ip_PreviousVersions = 2, ip_Bundle = \<lparr>ib_MinVersion = [], ib_MaxVersion = []\<rparr>, ip_Bundles = []\<rparr>],
      op_Catalog = cat, op_TargetCatalog = target, op_TargetTag = [], op_Full = False, op_SkipDependencies = False, op_SignatureVerification = None\<rparr>"

definition toy_set :: "operator list \<Rightarrow> console_set" where
  "toy_set ops =
     \<lparr>is_Name = ''a'', is_Annotations = [], is_Generation = 1,
      is_Mirror = \<lparr>ms_Platform = \<lparr>pf_Graph = False, pf_Channels = [], pf_Architectures = [], pf_Release = [], pf_KubeVirtContainer = False\<rparr>, ms_Operators = ops,
        ms_AdditionalImages = [], ms_HelmRepositories = [], ms_BlockedImages = [], ms_RequireSignedImages = False\<rparr>,
      is_ObservedGeneration = 1, is_LastSuccessfulPollTime = None, is_Conditions = [], is_Namespace = ''ns'', is_ResourceVersion = 1\<rparr>"

definition links_cm :: console_cm where
  "links_cm = \<lparr>kc_Name = ''oc-mirror-mt-resources'', kc_Labels = [], kc_Data = [(''catalogsource-redhat.yaml'', ''spec'')], kc_BinaryData = [], kc_Created = None\<rparr>"

definition toy_cluster :: console_world where
  "toy_cluster = \<lparr>kw_sets = [((''ns'', ''a''), toy_set [toy_operator ''q/c'' [] ''p''])], kw_log = [], kw_targets = [cleanup_target [''a''] [] []],
     kw_cms = [(''oc-mirror-mt-resources'', links_cm)],
     kw_states = [(''a-images'', \<lparr>cm_Name = ''a-images'', cm_Annotations = [], cm_BinaryData = [(''images.json.gz'',
        GzipJSON (encode (\<lambda>t. t) [(''t/x:1'', Some (zero_entry\<lparr>State := ''Failed''\<rparr>)), (''t/y:1'', Some (zero_entry\<lparr>State := ''Mirrored''\<rparr>))]))],
        cm_Data = [], cm_ResourceVersion = 1, cm_Owner = None\<rparr>)]\<rparr>"

definition toy_router :: router where
  "toy_router table m p = (case filter (\<lambda>(m', pat, h). m' = m \<and> pat = p) table of (_, _, h) # _ \<Rightarrow> Inr (h, [(''namespace'', ''ns''), (''name'', ''a''), (''mt'', ''mt'')]) | [] \<Rightarrow> Inl 404)"

lemma toy_router_ok: "router_ok toy_router"
  unfolding router_ok_def toy_router_def by (auto split: list.splits dest!: Cons_eq_filterD filter_eq_ConsD)


definition console_request :: "string \<Rightarrow> request" where
  "console_request token = \<lparr>rq_Method = ''PATCH'', rq_Path = image_set_path @ ''/settings'', rq_ForwardedToken = token, rq_Authorization = [], rq_Body = Some ''true''\<rparr>"

theorem tokenless_request_changes_nothing_witness:
  "fst (snd (serve_request toy_console toy_router toy_server (console_request []) toy_cluster)) = toy_cluster"
proof -
  let ?s = "serve_request toy_console toy_router toy_server (console_request []) toy_cluster"
  have "?s = (fst ?s, fst (snd ?s), snd (snd ?s))" by simp
  moreover have "requestToken (console_request []) = []" by code_simp
  ultimately show ?thesis using tokenless_request_changes_nothing [OF toy_router_ok, of "console_request []" toy_console toy_server toy_cluster] by blast
qed

theorem request_runs_with_caller_rights_witness:
  "snd (clientForRequest toy_console toy_server (console_request ''t'')) = mem_console"
proof -
  let ?c = "clientForRequest toy_console toy_server (console_request ''t'')"
  have c: "?c = (fst ?c, snd ?c)" by simp
  have inv: "clients_inv toy_console toy_server" by (simp add: clients_inv_def toy_server_def)
  have facts: "inj (xv_sha256hex toy_console)" "requestToken (console_request ''t'') \<noteq> []" "sv_baseCfg toy_server"
    by (simp_all add: toy_console_def toy_server_def requestToken_def console_request_def)
  from request_runs_with_caller_rights [OF inv facts c] show ?thesis by (simp add: toy_console_def)
qed





theorem save_unchanged_view_witness:
  "edit_operators (operators_view (toy_set [toy_operator ''q/c'' [] ''p''])) (toy_set [toy_operator ''q/c'' [] ''p'']) = Inr (toy_set [toy_operator ''q/c'' [] ''p''])"
  using save_unchanged_view [of "toy_set [toy_operator ''q/c'' [] ''p'']"] by (simp add: toy_set_def toy_operator_def)

theorem target_patch_merges_witness:
  "\<exists>f. parseMirrorTargetSpecPatch toy_console [] = Inr f \<and> mt_BatchSize (f (cleanup_target [] [] [])) = 5 \<and> mt_Concurrency (f (cleanup_target [] [] [])) = 0"
proof -
  let ?raw = "[(''batchSize'', JInteger 5), (''concurrency'', JNull)]"
  have raw: "xv_rawMap toy_console [] = Some ?raw" by (simp add: toy_console_def)
  have "case parseMirrorTargetSpecPatch toy_console [] of Inr _ \<Rightarrow> True | Inl _ \<Rightarrow> False" by code_simp
  then obtain f where f: "parseMirrorTargetSpecPatch toy_console [] = Inr f" by (auto split: sum.splits)
  from target_patch_merges [OF raw f, of "cleanup_target [] [] []"] f show ?thesis by (auto simp: merged_def)
qed

theorem resource_links_served_witness:
  "\<exists>key data. mget (kc_Data links_cm) key = Some data"
proof -
  have cm: "cc_cm_get mem_console toy_cluster (resolveNamespace toy_server mem_console ''mt'' toy_cluster) (''oc-mirror-'' @ ''mt'' @ ''-resources'') = Inr links_cm" by code_simp
  have "length (buildResourceLinks ''mt'' links_cm) = 1" by code_simp
  then obtain rk where "rk \<in> set (buildResourceLinks ''mt'' links_cm)" by (metis length_greater_0_conv list.set_intros(1) neq_Nil_conv zero_less_one)
  from resource_links_served [OF cm this] show ?thesis by blast
qed

lemma toy_lookup: "LookupMirrorTarget toy_server mem_console toy_cluster ''mt'' = Inr (cleanup_target [''a''] [] [])"
  by code_simp

theorem failures_view_exact_witness:
  "\<exists>failed pending. handleImageFailures offline_net toy_server mem_console ''mt'' toy_cluster = (200, FailuresJSON failed pending) \<and> list_all fi_PermanentlyFailed failed"
proof -
  have "case handleImageFailures offline_net toy_server mem_console ''mt'' toy_cluster of (n, FailuresJSON f p) \<Rightarrow> n = 200 | _ \<Rightarrow> False" by code_simp
  then obtain failed pending where "handleImageFailures offline_net toy_server mem_console ''mt'' toy_cluster = (200, FailuresJSON failed pending)"
    by (auto split: prod.splits api_body.splits)
  with failures_view_exact [OF toy_lookup this] show ?thesis by blast
qed

theorem progress_view_adds_up_witness:
  "\<exists>p. handleTargetProgress offline_net toy_server mem_console ''mt'' toy_cluster = Some (200, ProgressJSON p) \<and> map ig_Name (tp_ImageSets p) = [''a'']"
proof -
  have "case handleTargetProgress offline_net toy_server mem_console ''mt'' toy_cluster of Some (n, ProgressJSON p) \<Rightarrow> n = 200 | _ \<Rightarrow> False" by code_simp
  then obtain p where p: "handleTargetProgress offline_net toy_server mem_console ''mt'' toy_cluster = Some (200, ProgressJSON p)"
    by (auto split: option.splits prod.splits api_body.splits)
  have "mt_ImageSets (cleanup_target [''a''] [] []) = [''a'']" by (simp add: cleanup_target_def)
  with p progress_view_adds_up [OF toy_lookup p] show ?thesis by auto
qed

section \<open>What a save loses\<close>

text \<open>
  Saving the unchanged releases of an ImageSet clears the flag of every channel that its releases need no signature; saving the unchanged packages of a catalog clears the
  number of previous versions and the default channel of every package; and of two operator entries with one catalog, the first gets the packages of the second.
\<close>

theorem save_releases_clears_skip:
  "edit_releases (releases_view iset) iset =
     on_mirror (\<lambda>ms. ms\<lparr>ms_Platform := (ms_Platform ms)\<lparr>pf_Channels :=
       map (\<lambda>ch. ch\<lparr>rc_Type := if rc_Type ch = [] then ''ocp'' else rc_Type ch, rc_SkipSignatureVerification := False\<rparr>) (pf_Channels (ms_Platform ms))\<rparr>\<rparr>) iset"
  by (simp add: edit_releases_def releases_view_def on_mirror_def patched_channel_def Let_def o_def)

theorem save_packages_clears_previous:
  "ip_PreviousVersions (patched_package existing (constraint_of p)) = 0 \<and> ip_DefaultChannel (patched_package existing (constraint_of p)) = []"
  by (simp add: patched_package_def)

theorem save_mixes_same_catalog:
  "edit_operators (operators_view (toy_set [toy_operator ''q/c'' ''x'' ''p'', toy_operator ''q/c'' ''y'' ''r''])) (toy_set [toy_operator ''q/c'' ''x'' ''p'', toy_operator ''q/c'' ''y'' ''r'']) =
     Inr (toy_set [toy_operator ''q/c'' ''x'' ''r'', toy_operator ''q/c'' ''y'' ''r''])"
  by (simp add: toy_set_def toy_operator_def edit_operators_def operators_view_def on_mirror_def patched_operator_def existing_operators_def)

end
