(* ===== verification/Spec2Isabelle.thy ===== *)
theory Spec2Isabelle
  imports Planner Drift Dispatch Persist Status WorkerPod WorkerReports Reconcile ReleasePayload ConsoleEdit
begin

text \<open>
  \<^bold>\<open>Verification of the mirroring core of the oc-mirror operator\<close>

  The operator mirrors OpenShift content (releases, operator catalogs, additional images, Helm charts) into a registry. An \<open>ImageSet\<close> says what to
  mirror, a \<open>MirrorTarget\<close> where to. For every MirrorTarget a manager pod resolves the ImageSets to destinations, keeps one entry per destination in memory,
  hands pending images to worker pods in batches, records their reports, checks mirrored images for drift, and writes state, status and generated cluster
  resources back to the API server. The theories follow the Go packages; every definition is a translation of the function or loop named in its map entry.

  \<^bold>\<open>Data model.\<close> A Go string is a \<open>string\<close> of bytes; a Go map is a \<open>gomap\<close> (an association list, \<open>wf_map\<close>: keys are distinct), read with \<open>mget\<close> and
  written with \<open>mput\<close>, so that the order in which \<open>range\<close> visits a map is the order of the list and theorems quantify over it. Fallible code returns a sum
  or an option, and stateful code passes records. Code outside the repository (API server, registries, JSON, YAML, SHA-256, clock, random numbers)
  is an argument: a record of functions such as \<open>kube\<close>, \<open>resolvers\<close>, \<open>drift_net\<close>, \<open>resolve_net\<close>, \<open>oci_client\<close> and \<open>transport\<close>. What the code relies
  on is a named hypothesis or a law of a locale, with an instance that shows it can hold.

  \<^bold>\<open>Theories.\<close>
  \<^item> \<open>Prelude\<close>: package \<open>strings\<close>, maps, ordered inserts and the lemmas the other theories share.
  \<^item> \<open>ImageRef\<close>, \<open>HelmSource\<close>, \<open>Chart\<close>: references, destinations and blocking (\<open>collector.go\<close>), \<open>helm://\<close> sources (\<open>helm_source.go\<close>), and the push of a
    chart (\<open>chartmirror/pusher.go\<close>). A chart source parses back to what it was built from; a chart that is reported as pushed has its manifest at the
    destination and both blobs stored.
  \<^item> \<open>ApiTypes\<close>, \<open>Signature\<close>: the custom resources and the signatures of their entries (\<open>resolution_sig.go\<close>). Equal operator signatures mean equal
    entries up to the order of packages, channels and bundles.
  \<^item> \<open>Collector\<close>: expanding a spec to images (\<open>collector.go\<close>), with the exact content of the result.
  \<^item> \<open>Planner\<close>: the greedy blob-sharing order of a batch (\<open>planner.go\<close>): a permutation, and, for images, the order that the rule of the planner prescribes on the sets of
    blobs; charts are moved to the end.
  \<^item> \<open>ImageState\<close>, \<open>ImageStore\<close>: entries, their ConfigMaps, the shared index and the migration of the old format (\<open>imagestate\<close>).
  \<^item> \<open>Ownership\<close>, \<open>Merge\<close>: which ImageSets own a destination (\<open>owner_meta.go\<close>), merging resolved, carried and live entries (\<open>manager_resolve.go\<close>).
    Both theorems of refinement are here and in \<open>ImageStore\<close>: the index on disk implements the ownership in memory.
  \<^item> \<open>Manager\<close>, \<open>Lifecycle\<close>: the state of the manager, the status API of the workers and the life of an entry: reports are applied once in effect and
    are not lost, resets, removal of ImageSets, bounds of the backoff.
  \<^item> \<open>Drift\<close>: the sweep that compares mirrored images with the registry; it keeps the invariant of the manager, ends, and drops stale answers.
  \<^item> \<open>Dispatch\<close>: worker pods and phases D and E of \<open>reconcile\<close>: no image is handed out twice, only owned images, within the limits; a free slot is used.
  \<^item> \<open>Persist\<close>, \<open>Status\<close>: load and flush of the working set (round trip once the old format is migrated, exact content), the summary, and the status of
    an ImageSet; what a leftover of the old format or a failed load does to it is proved too.
  \<^item> \<open>Resolve\<close>, \<open>Resources\<close>, \<open>GlobalResources\<close>: \<open>resolveImageSet\<close> with its sections, the generated mirror sets and catalogs. A failed probe of an
    unchanged spec entry drops none of its images, and a release that was not verified is never queued.
  \<^item> \<open>Worker\<close>, \<open>WorkerPod\<close>, \<open>WorkerReports\<close>: the worker process, the pod that runs it, and the two of them connected to the status API of the manager
    over a network that may lose requests and answers, with a manager that changes in between: every image of a batch is reported with the outcome the worker came to, or the manager said it is done. A restarted
    manager recovers the tracking of the running pods from their annotations.
  \<^item> \<open>Reconcile\<close>: start-up and one pass of the loop of the manager (\<open>manager.go\<close>), composed of the phases of the theories above.
  \<^item> \<open>ReleaseGraph\<close>, \<open>ReleasePayload\<close>: the release resolver (\<open>pkg/mirror/release\<close>): the update graph, the shortest upgrade path, minimum and maximum of a
    channel, and the images of a release payload.
  \<^item> \<open>CatalogGraph\<close>, \<open>CatalogFilter\<close>, \<open>CatalogLayers\<close>, \<open>CatalogBuild\<close>: the operator catalog resolver and the catalog builder (\<open>pkg/mirror/catalog\<close>): selecting
    packages, channels and bundles of a file-based catalog, repairing the upgrade graph of what is kept, reading layers, and building and pushing the
    filtered catalog image. What is kept is closed under the dependencies of a bundle; a build that returns a digest has published a complete image.
  \<^item> \<open>CatalogJob\<close>, \<open>ImageSetController\<close>: the Job that runs a catalog build (\<open>builder/job.go\<close>, \<open>cmd/catalog-builder\<close>) and the reconciler of an ImageSet that starts
    it (\<open>imageset_controller.go\<close>): the builder reads back exactly what the Job was given, and no Job starts before every operator image is mirrored.
  \<^item> \<open>RegistryClient\<close>: the client of the registries (\<open>client.go\<close>, \<open>cache.go\<close>): an image that is reported as copied under a tag is at its destination, certificates are checked
    for every host that was not named insecure, deleting an image touches no other one, and the cache returns a client of the settings asked for.
  \<^item> \<open>Cleanup\<close>: the deletion side of the reconciler of a MirrorTarget (\<open>mirrortarget_controller.go\<close>) and the cleanup Job it starts (\<open>pkg/mirror/cleanup\<close>): what
    is put up for deletion is needed by no ImageSet that remains, and nothing is put up unless the target asks for deletion.
  \<^item> \<open>MirrorTarget\<close>: the rest of that reconciler: objects, exposure, status and deletion of a target. A pass that ends well has repaired every drift and records the
    removals it saw (a lost status update is shown to forget one); the status port of a manager is open to its own workers only; a target goes when its pods are gone.
  \<^item> \<open>ConsoleView\<close>, \<open>ConsoleEdit\<close>: the HTTP API of the console (\<open>pkg/resourceapi\<close>): status views, generated resources and release channels, and the edits of
    targets and ImageSets. A request without a token changes nothing; an edit that is accepted is stored once, one that is refused not at all, and it touches nothing
    outside its part of the spec; saving what was read changes nothing, with the exceptions proved at the end of \<open>ConsoleEdit\<close>; no link of a target is dead.

  \<^bold>\<open>Interfaces.\<close> What one component needs of another is a locale: the status sink of a worker (\<open>report_sink\<close>) is interpreted on the handlers of the manager,
  and the other locales are interpreted on the operations of the component that provides them.

  \<^bold>\<open>Bounds.\<close> Integers of the code are \<open>int\<close>: counters and durations stay far below \<open>2 ^ 63\<close>, and the one place where a value could grow, the retry backoff, is
  modelled with its cap. All recursion is structural or has a termination proof (breadth-first search, the fixed point of the dependency filter and the
  repair of an upgrade graph by measures on what has not been visited); a walk the code does not bound is a \<open>partial_function\<close> that is proved to
  return. No fuel is used, except that \<open>retry_on_conflict\<close> has the five attempts of the library it stands for.

  \<^bold>\<open>Concurrency.\<close> The manager holds its mutex around every critical section, so a handler or a phase is one atomic step. Code that releases the mutex around
  network calls is modelled with the state before and after the call (\<open>Drift\<close>, \<open>WorkerReports\<close>): an answer is applied to the state found afterwards. What other threads do in the windows in which a tick
  has released the mutex is a parameter (\<open>cl_between\<close>, \<open>sd_others\<close>).

  \<^bold>\<open>Not modelled.\<close> The reconcilers of exports, the console plugin and monitoring, the export jobs, the rendering of
  Helm charts, the graph image and the wrapper around the signature library. Metrics, logging and HTTP servers carry no logic of their own.
\<close>
end
